(* ===== verification/Soem_Prelude.thy ===== *)
theory Soem_Prelude
  imports Complex_Main "HOL-Library.Word" "HOL-Library.Monad_Syntax"
begin

text \<open>
  Shared ground of the development: the C types as words, byte buffers with checked access,
  little-endian fields, polling loops and the two judgements the component proofs use.

  A C routine that may go wrong is a function into \<open>option\<close>, written with the \<open>do\<close> notation of
  HOL-Library.Monad_Syntax; \<open>None\<close> stands for an access outside a C array (undefined behaviour)
  or for a loop that never returns. \<open>ret m Q\<close> says that \<open>m\<close> returns a value with property \<open>Q\<close>
  (total correctness); \<open>par m Q\<close> says that whatever \<open>m\<close> returns has property \<open>Q\<close>.
\<close>

unbundle bit_operations_syntax

declare One_nat_def [simp del] add_2_eq_Suc [simp del] add_2_eq_Suc' [simp del]

type_synonym byte = "8 word"
type_synonym u16 = "16 word"
type_synonym u32 = "32 word"
type_synonym u64 = "64 word"
type_synonym bytes = "byte list"

named_theorems wf_intros "well-formedness is kept by an operation"
named_theorems mem_simps "lengths and reads of checked memory"

section \<open>Total and partial judgements\<close>

definition ret :: "'a option \<Rightarrow> ('a \<Rightarrow> bool) \<Rightarrow> bool" where
  "ret m Q \<longleftrightarrow> (\<exists>x. m = Some x \<and> Q x)"

definition par :: "'a option \<Rightarrow> ('a \<Rightarrow> bool) \<Rightarrow> bool" where
  "par m Q \<longleftrightarrow> (\<forall>x. m = Some x \<longrightarrow> Q x)"

lemma ret_simps [simp]:
  "ret (Some x) Q \<longleftrightarrow> Q x"
  "\<not> ret None Q"
  "ret (Option.bind m f) Q \<longleftrightarrow> ret m (\<lambda>x. ret (f x) Q)"
  by (auto simp: ret_def bind_eq_Some_conv)

lemma par_simps [simp]:
  "par (Some x) Q \<longleftrightarrow> Q x"
  "par None Q"
  "par (Option.bind m f) Q \<longleftrightarrow> par m (\<lambda>x. par (f x) Q)"
  by (auto simp: par_def bind_eq_Some_conv)

lemma ret_case_prod [simp]:
  "ret (case p of (a, b) \<Rightarrow> f a b) Q \<longleftrightarrow> (case p of (a, b) \<Rightarrow> ret (f a b) Q)"
  "par (case p of (a, b) \<Rightarrow> f a b) Q \<longleftrightarrow> (case p of (a, b) \<Rightarrow> par (f a b) Q)"
  by (cases p; simp)+

lemma ret_if:
  "ret (if b then m else n) Q \<longleftrightarrow> (if b then ret m Q else ret n Q)"
  "par (if b then m else n) Q \<longleftrightarrow> (if b then par m Q else par n Q)"
  by simp_all

lemma ret_conseq: "ret m P \<Longrightarrow> (\<And>x. P x \<Longrightarrow> Q x) \<Longrightarrow> ret m Q"
  by (auto simp: ret_def)

lemma par_conseq: "par m P \<Longrightarrow> (\<And>x. P x \<Longrightarrow> Q x) \<Longrightarrow> par m Q"
  by (auto simp: par_def)

lemma par_conj: "par m P \<Longrightarrow> par m Q \<Longrightarrow> par m (\<lambda>x. P x \<and> Q x)"
  by (auto simp: par_def)

lemma ret_par: "ret m P \<Longrightarrow> par m Q \<Longrightarrow> ret m (\<lambda>x. P x \<and> Q x)"
  by (auto simp: ret_def par_def)

lemma ret_imp_par: "ret m Q \<Longrightarrow> par m Q"
  by (auto simp: ret_def par_def)

lemma parD: "par m Q \<Longrightarrow> m = Some x \<Longrightarrow> Q x"
  by (simp add: par_def)

lemma parI: "(\<And>x. m = Some x \<Longrightarrow> Q x) \<Longrightarrow> par m Q"
  by (simp add: par_def)

lemma retE: "ret m Q \<Longrightarrow> (\<And>x. m = Some x \<Longrightarrow> Q x \<Longrightarrow> thesis) \<Longrightarrow> thesis"
  by (auto simp: ret_def)

lemma ret_TrueI: "ret m Q \<Longrightarrow> ret m (\<lambda>_. True)"
  by (auto simp: ret_def)

lemma par_True [simp]: "par m (\<lambda>_. True)"
  by (simp add: par_def)

section \<open>Polling loops\<close>

text \<open>
  The \<open>do ... while (cond)\<close> of C over an explicit state; the condition may itself change the
  state, because it reads the clock. Not returning is \<open>None\<close>.
\<close>

partial_function (option) do_while ::
  "('s \<Rightarrow> 's option) \<Rightarrow> ('s \<Rightarrow> (bool \<times> 's) option) \<Rightarrow> 's \<Rightarrow> 's option" where
  "do_while body cond s =
     do { s1 \<leftarrow> body s;
          r \<leftarrow> cond s1;
          (if fst r then do_while body cond (snd r) else Some (snd r)) }"

declare do_while.simps [code]

lemma do_while_par:
  assumes body: "\<And>s. I s \<Longrightarrow> par (body s) J"
    and cond: "\<And>s. J s \<Longrightarrow> par (cond s) (\<lambda>(b, t). if b then I t else Q t)"
    and start: "I s"
  shows "par (do_while body cond s) Q"
proof (rule parI)
  fix t
  assume r: "do_while body cond s = Some t"
  have "body = body \<longrightarrow> cond = cond \<longrightarrow> I s \<longrightarrow> Q t"
  proof (rule do_while.raw_induct
      [where P = "\<lambda>b c s t. b = body \<longrightarrow> c = cond \<longrightarrow> I s \<longrightarrow> Q t", OF _ r], intro impI)
    fix f b c s t
    assume IH: "\<And>b c s t. f b c s = Some t \<Longrightarrow> b = body \<longrightarrow> c = cond \<longrightarrow> I s \<longrightarrow> Q t"
      and run: "b s \<bind> (\<lambda>s1. c s1 \<bind> (\<lambda>r. if fst r then f b c (snd r) else Some (snd r))) = Some t"
      and eqs: "b = body" "c = cond" and I: "I s"
    from run eqs obtain s1 r where b: "body s = Some s1" and r: "cond s1 = Some r"
      and k': "(if fst r then f body cond (snd r) else Some (snd r)) = Some t"
      unfolding bind_eq_Some_conv by blast
    obtain k s2 where kr: "r = (k, s2)" by (cases r)
    from kr r have c: "cond s1 = Some (k, s2)" by simp
    from k' have k: "(if k then f body cond s2 else Some s2) = Some t"
      by (simp only: kr fst_conv snd_conv)
    from body [OF I] b have "J s1" by (simp add: parD)
    from cond [OF this] c have q: "if k then I s2 else Q s2" by (auto simp: par_def)
    show "Q t"
    proof (cases k)
      case True
      with k q IH show ?thesis by auto
    next
      case False
      with k q show ?thesis by simp
    qed
  qed
  with start show "Q t" by simp
qed

lemma do_while_ret:
  assumes step: "\<And>s. I s \<Longrightarrow>
      ret (body s) (\<lambda>s1. ret (cond s1) (\<lambda>(b, t). if b then I t \<and> m t < (m s :: nat) else Q t))"
    and start: "I s"
  shows "ret (do_while body cond s) Q"
  using start
proof (induction "m s" arbitrary: s rule: less_induct)
  case less
  from step [OF less.prems] obtain s1 b t where b: "body s = Some s1" and c: "cond s1 = Some (b, t)"
    and k: "if b then I t \<and> m t < m s else Q t"
    by (auto simp: ret_def)
  show ?case
  proof (cases b)
    case True
    with k less.hyps have "ret (do_while body cond t) Q" by simp
    with True b c show ?thesis by (subst do_while.simps) simp
  next
    case False
    with b c k show ?thesis by (subst do_while.simps) simp
  qed
qed

text \<open>The \<open>while (cond) body\<close> of C.\<close>

partial_function (option) while_do ::
  "('s \<Rightarrow> bool) \<Rightarrow> ('s \<Rightarrow> 's option) \<Rightarrow> 's \<Rightarrow> 's option" where
  "while_do cond body s =
     (if cond s then do { t \<leftarrow> body s; while_do cond body t } else Some s)"

declare while_do.simps [code]

lemma while_do_ret:
  assumes step: "\<And>s. I s \<Longrightarrow> cond s \<Longrightarrow> ret (body s) (\<lambda>t. I t \<and> m t < (m s :: nat))"
    and fin: "\<And>s. I s \<Longrightarrow> \<not> cond s \<Longrightarrow> Q s"
    and start: "I s"
  shows "ret (while_do cond body s) Q"
  using start
proof (induction "m s" arbitrary: s rule: less_induct)
  case less
  show ?case
  proof (cases "cond s")
    case True
    with less.prems have "ret (body s) (\<lambda>t. I t \<and> m t < m s)" by (rule step)
    then obtain t where "body s = Some t" "I t" "m t < m s"
      by (auto simp: ret_def)
    with True less.hyps show ?thesis by (subst while_do.simps) simp
  next
    case False
    with fin less.prems show ?thesis by (subst while_do.simps) simp
  qed
qed

text \<open>A counted loop: the body for each index of a list, in order.\<close>

fun for_each :: "('i \<Rightarrow> 's \<Rightarrow> 's option) \<Rightarrow> 'i list \<Rightarrow> 's \<Rightarrow> 's option" where
  "for_each f [] s = Some s"
| "for_each f (i # is) s = do { t \<leftarrow> f i s; for_each f is t }"

lemma for_each_ret:
  assumes "\<And>i s. i \<in> set is \<Longrightarrow> I s \<Longrightarrow> ret (f i s) I" and "I s"
  shows "ret (for_each f is s) I"
  using assms
proof (induction "is" arbitrary: s)
  case Nil
  then show ?case by simp
next
  case (Cons i "is")
  have "ret (f i s) I" by (rule Cons.prems(1) [OF _ Cons.prems(2)]) simp
  then have "ret (f i s) (\<lambda>t. ret (for_each f is t) I)"
    by (rule ret_conseq) (rule Cons.IH [OF Cons.prems(1)], simp_all)
  then show ?case by simp
qed

lemma for_each_append: "for_each f (is @ js) s = do { t \<leftarrow> for_each f is s; for_each f js t }"
proof (induction "is" arbitrary: s)
  case (Cons i "is")
  then show ?case by (cases "f i s") simp_all
qed simp

text \<open>The rule for a loop over an interval of numbers whose invariant mentions the counter.\<close>

lemma for_each_range:
  assumes "\<And>i s. a \<le> i \<Longrightarrow> i < b \<Longrightarrow> I i s \<Longrightarrow> ret (f i s) (I (Suc i))" and "a \<le> b" and "I a s"
  shows "ret (for_each f [a..<b] s) (I b)"
  using assms(2,1)
proof (induction b rule: dec_induct)
  case base
  then show ?case using assms(3) by simp
next
  case (step b)
  have "ret (for_each f [a..<b] s) (I b)" by (rule step.IH) (use step.prems in auto)
  then have "ret (for_each f [a..<b] s) (\<lambda>t. ret (f b t) (I (Suc b)))"
    by (rule ret_conseq) (use step in auto)
  then show ?case using step.hyps by (simp add: for_each_append)
qed

lemma for_each_upt:
  assumes "\<And>i s. i < n \<Longrightarrow> I i s \<Longrightarrow> ret (f i s) (I (Suc i))" and "I 0 s"
  shows "ret (for_each f [0..<n] s) (I n)"
  using assms by (intro for_each_range) simp_all

lemma for_each_par:
  assumes "\<And>i s. i \<in> set is \<Longrightarrow> I s \<Longrightarrow> par (f i s) I" and "I s"
  shows "par (for_each f is s) I"
  using assms
proof (induction "is" arbitrary: s)
  case Nil
  then show ?case by simp
next
  case (Cons i "is")
  have "par (f i s) I" by (rule Cons.prems(1) [OF _ Cons.prems(2)]) simp
  then have "par (f i s) (\<lambda>t. par (for_each f is t) I)"
    by (rule par_conseq) (rule Cons.IH [OF Cons.prems(1)], simp_all)
  then show ?case by simp
qed

section \<open>Checked arrays and byte buffers\<close>

definition aget :: "'a list \<Rightarrow> nat \<Rightarrow> 'a option" where
  "aget xs i = (if i < length xs then Some (xs ! i) else None)"

definition aset :: "'a list \<Rightarrow> nat \<Rightarrow> 'a \<Rightarrow> 'a list option" where
  "aset xs i v = (if i < length xs then Some (xs[i := v]) else None)"

text \<open>\<open>memcpy\<close> out of and into a buffer at an offset.\<close>

definition mem_read :: "bytes \<Rightarrow> nat \<Rightarrow> nat \<Rightarrow> bytes option" where
  "mem_read b off n = (if off + n \<le> length b then Some (take n (drop off b)) else None)"

definition mem_write :: "bytes \<Rightarrow> nat \<Rightarrow> bytes \<Rightarrow> bytes option" where
  "mem_write b off xs =
     (if off + length xs \<le> length b
      then Some (take off b @ xs @ drop (off + length xs) b) else None)"

lemma ret_aget [simp]: "ret (aget xs i) Q \<longleftrightarrow> i < length xs \<and> Q (xs ! i)"
  by (simp add: aget_def)

lemma ret_aset [simp]: "ret (aset xs i v) Q \<longleftrightarrow> i < length xs \<and> Q (xs[i := v])"
  by (simp add: aset_def)

lemma par_aget: "par (aget xs i) Q \<longleftrightarrow> (i < length xs \<longrightarrow> Q (xs ! i))"
  by (simp add: aget_def)

lemma par_aset: "par (aset xs i v) Q \<longleftrightarrow> (i < length xs \<longrightarrow> Q (xs[i := v]))"
  by (simp add: aset_def)

lemma aget_Some [simp]: "aget xs i = Some x \<longleftrightarrow> i < length xs \<and> xs ! i = x"
  by (auto simp: aget_def)

lemma aset_Some [simp]: "aset xs i v = Some ys \<longleftrightarrow> i < length xs \<and> ys = xs[i := v]"
  by (auto simp: aset_def)

lemma mem_read_Some: "mem_read b off n = Some xs \<longleftrightarrow> off + n \<le> length b \<and> xs = take n (drop off b)"
  by (auto simp: mem_read_def)

lemma mem_write_Some:
  "mem_write b off xs = Some c \<longleftrightarrow>
     off + length xs \<le> length b \<and> c = take off b @ xs @ drop (off + length xs) b"
  by (auto simp: mem_write_def)

lemma ret_mem_read:
  "ret (mem_read b off n) Q \<longleftrightarrow> off + n \<le> length b \<and> Q (take n (drop off b))"
  by (simp add: mem_read_def)

lemma ret_mem_write:
  "ret (mem_write b off xs) Q \<longleftrightarrow>
     off + length xs \<le> length b \<and> Q (take off b @ xs @ drop (off + length xs) b)"
  by (simp add: mem_write_def)

lemma mem_write_length [mem_simps]: "mem_write b off xs = Some c \<Longrightarrow> length c = length b"
  by (auto simp: mem_write_Some)

lemma mem_read_length [mem_simps]: "mem_read b off n = Some xs \<Longrightarrow> length xs = n"
  by (auto simp: mem_read_Some)

text \<open>What was written is read back, and a write elsewhere does not disturb a read.\<close>

lemma mem_read_write_same:
  "mem_write b off xs = Some c \<Longrightarrow> mem_read c off (length xs) = Some xs"
  by (auto simp: mem_write_Some mem_read_def)

lemma mem_read_write_before:
  "mem_write b off xs = Some c \<Longrightarrow> o2 + n \<le> off \<Longrightarrow> mem_read c o2 n = mem_read b o2 n"
  by (auto simp: mem_write_Some mem_read_def take_drop min_def)

lemma mem_read_write_after:
  assumes w: "mem_write b off xs = Some c" and le: "off + length xs \<le> o2"
  shows "mem_read c o2 n = mem_read b o2 n"
proof -
  from w have c: "c = take off b @ xs @ drop (off + length xs) b"
    and len: "off + length xs \<le> length b"
    by (auto simp: mem_write_Some)
  from le len have "drop o2 c = drop o2 b"
    by (simp add: c)
  moreover from w have "length c = length b" by (rule mem_write_length)
  ultimately show ?thesis by (simp add: mem_read_def)
qed

section \<open>Little-endian fields\<close>

text \<open>
  The target is little endian (\<open>EC_LITTLE_ENDIAN\<close>), so \<open>htoes\<close>, \<open>etohs\<close> and their kin are the
  identity and a packed field of \<open>n\<close> bytes is its little-endian image.
\<close>

definition le_bytes :: "nat \<Rightarrow> 'a::len word \<Rightarrow> bytes" where
  "le_bytes n w = map (\<lambda>i. ucast (drop_bit (8 * i) w)) [0..<n]"

definition le_word :: "bytes \<Rightarrow> 'a::len word" where
  "le_word bs = foldr (\<lambda>b w. ucast b OR push_bit 8 w) bs 0"

lemma length_le_bytes [simp]: "length (le_bytes n w) = n"
  by (simp add: le_bytes_def)

lemma le_word_Nil [simp]: "le_word [] = 0"
  by (simp add: le_word_def)

lemma le_word_Cons: "le_word (b # bs) = ucast b OR push_bit 8 (le_word bs)"
  by (simp add: le_word_def)

lemma bit_le_word:
  "bit (le_word bs :: 'a::len word) i \<longleftrightarrow>
     i < LENGTH('a) \<and> i div 8 < length bs \<and> bit (bs ! (i div 8)) (i mod 8)"
proof (induction bs arbitrary: i)
  case Nil
  then show ?case by simp
next
  case (Cons b bs)
  show ?case
  proof (cases "i < 8")
    case True
    then show ?thesis
      by (auto simp: le_word_Cons bit_or_iff bit_push_bit_iff bit_ucast_iff)
  next
    case False
    then obtain j where i: "i = j + 8" by (metis add.commute le_Suc_ex not_less)
    have "\<not> bit b (j + 8)" using bit_imp_le_length by fastforce
    then show ?thesis
      by (auto simp: i le_word_Cons bit_or_iff bit_push_bit_iff bit_ucast_iff Cons.IH)
  qed
qed

lemma le_bytes_word:
  assumes "length bs = n" and "8 * n \<le> LENGTH('a::len)"
  shows "le_bytes n (le_word bs :: 'a word) = bs"
proof (rule nth_equalityI)
  fix i
  assume "i < length (le_bytes n (le_word bs :: 'a word))"
  then have i: "i < n" by simp
  show "le_bytes n (le_word bs :: 'a word) ! i = bs ! i"
  proof (rule bit_word_eqI)
    fix k
    assume k: "k < LENGTH(8)"
    have "(8 * i + k) div 8 = i" "(8 * i + k) mod 8 = k" using k by simp_all
    then show "bit (le_bytes n (le_word bs :: 'a word) ! i) k = bit (bs ! i) k"
      using i k assms by (auto simp: le_bytes_def bit_ucast_iff bit_drop_bit_eq bit_le_word)
  qed
qed (use assms in simp)

lemma le_word_bytes:
  assumes "LENGTH('a::len) \<le> 8 * n"
  shows "le_word (le_bytes n (w :: 'a word)) = w"
proof (rule bit_word_eqI)
  fix k
  assume k: "k < LENGTH('a)"
  then have "k div 8 < n" using assms by linarith
  moreover have "8 * (k div 8) + k mod 8 = k" by simp
  ultimately show "bit (le_word (le_bytes n w) :: 'a word) k = bit w k"
    using k by (auto simp: bit_le_word le_bytes_def bit_ucast_iff bit_drop_bit_eq)
qed

lemmas le16 [simp] = le_word_bytes [where 'a = 16 and n = 2, simplified]
lemmas le32 [simp] = le_word_bytes [where 'a = 32 and n = 4, simplified]
lemmas le64 [simp] = le_word_bytes [where 'a = 64 and n = 8, simplified]
lemmas le8 [simp] = le_word_bytes [where 'a = 8 and n = 1, simplified]

lemma le_word_2: "le_word [a, b] = ucast a OR push_bit 8 (ucast b)"
  by (simp add: le_word_Cons)

text \<open>Numerical value of the low nibbles and of a byte pair.\<close>

lemma unat_and_low:
  "unat (w AND 0x0fff :: u16) = unat w mod 4096"
  "unat (v AND 0x0f :: byte) = unat v mod 16"
proof -
  have m: "(0x0fff :: u16) = mask 12" "(0x0f :: byte) = mask 4" by (simp_all add: mask_eq_exp_minus_1)
  show "unat (w AND 0x0fff :: u16) = unat w mod 4096" 
    unfolding m take_bit_eq_mask [symmetric] unsigned_take_bit_eq by (simp add: take_bit_eq_mod)
  show "unat (v AND 0x0f :: byte) = unat v mod 16"
    unfolding m take_bit_eq_mask [symmetric] unsigned_take_bit_eq by (simp add: take_bit_eq_mod)
qed
lemma unat_pair:
  "unat ((ucast (a :: byte) OR push_bit 8 (ucast (b:: byte))) :: u16) = unat a + 256 * unat b"
proof -
  have a: "unat a < 256" and b: "unat b < 256"
    using unsigned_less [of a] unsigned_less [of b] by simp_all
  have "unat a AND 256 * unat b = 0"
  proof -
    have "unat a AND push_bit 8 (unat b) = 0"
      by (rule bit_eqI) (auto simp: bit_and_iff bit_push_bit_iff bit_unsigned_iff dest: bit_imp_le_length)
    then show ?thesis by (simp add: push_bit_eq_mult ac_simps)
  qed
  then have 1: "unat a + 256 * unat b = unat a OR 256 * unat b" by (rule disjunctive_add_eq_or)
  have 2: "unat (ucast a :: u16) = unat a" "unat (ucast b :: u16) = unat b"
    using a b by (simp_all add: unsigned_ucast_eq take_bit_nat_eq_self)
  have 3: "unat (push_bit 8 (ucast b :: u16)) = 256 * unat b"
    unfolding unsigned_push_bit_eq 2 using b by (simp add: push_bit_eq_mult take_bit_nat_eq_self)
  show ?thesis
    unfolding unsigned_or_eq 2 3 1 ..
qed

lemma le_bytes_1 [simp]: "le_bytes (Suc 0) (b :: byte) = [b]"
  by (simp add: le_bytes_def)

lemma take_2_drop: "i + 1 < length xs \<Longrightarrow> take 2 (drop i xs) = [xs ! i, xs ! (i + 1)]"
  by (simp add: One_nat_def numeral_2_eq_2 take_Suc_conv_app_nth)

text \<open>Packed fields of a buffer.\<close>

definition get16 :: "bytes \<Rightarrow> nat \<Rightarrow> u16 option" where
  "get16 b off = map_option le_word (mem_read b off 2)"

definition put16 :: "bytes \<Rightarrow> nat \<Rightarrow> u16 \<Rightarrow> bytes option" where
  "put16 b off w = mem_write b off (le_bytes 2 w)"

definition get8 :: "bytes \<Rightarrow> nat \<Rightarrow> byte option" where
  "get8 b off = aget b off"

definition put8 :: "bytes \<Rightarrow> nat \<Rightarrow> byte \<Rightarrow> bytes option" where
  "put8 b off v = mem_write b off [v]"

lemma ret_get16 [simp]:
  "ret (get16 b off) Q \<longleftrightarrow> off + 2 \<le> length b \<and> Q (le_word (take 2 (drop off b)))"
  by (simp add: get16_def mem_read_def)

lemma ret_get8 [simp]: "ret (get8 b off) Q \<longleftrightarrow> off < length b \<and> Q (b ! off)"
  by (simp add: get8_def)

lemma put16_length [mem_simps]: "put16 b off w = Some c \<Longrightarrow> length c = length b"
  by (simp add: put16_def mem_write_length)

lemma put8_length [mem_simps]: "put8 b off w = Some c \<Longrightarrow> length c = length b"
  by (simp add: put8_def mem_write_length)

lemma mem_write_total:
  "off + length xs \<le> length b \<Longrightarrow> ret (mem_write b off xs) (\<lambda>c. length c = length b)"
  by (simp add: ret_mem_write)

lemma put16_total:
  "off + 2 \<le> length b \<Longrightarrow> ret (put16 b off w) (\<lambda>c. length c = length b)"
  unfolding put16_def by (rule mem_write_total) simp

lemma put8_total:
  "off < length b \<Longrightarrow> ret (put8 b off w) (\<lambda>c. length c = length b)"
  unfolding put8_def by (rule mem_write_total) simp

lemma get16_put16_same: "put16 b off w = Some c \<Longrightarrow> get16 c off = Some w"
  unfolding put16_def get16_def
  by (drule mem_read_write_same) simp

text \<open>C \<open>int\<close> arguments that become unsigned.\<close>

definition uint32_of :: "int \<Rightarrow> nat" where
  "uint32_of i = nat (i mod 2 ^ 32)"

lemma uint32_of_nonneg [simp]: "0 \<le> i \<Longrightarrow> i < 2 ^ 32 \<Longrightarrow> uint32_of i = nat i"
  by (simp add: uint32_of_def)

end
