(* ===== verification/Osal.thy ===== *)
theory Osal
  imports Soem_Prelude
begin

text \<open>
  The operating system layer (\<open>soem_lib/osal/linux/osal.c\<close>) and the kernel behind it.

  The kernel is the environment, not code of the repository: a record of answer streams, the
  \<open>n\<close>-th answer being the result of the \<open>n\<close>-th call of that kind, with the call counters and a
  log of what was sent. Since every theorem quantifies over the streams, it holds for every
  behaviour of network and clock that the theorem's hypotheses admit.
\<close>

section \<open>The kernel\<close>

record osenv =
  recv_at :: "nat \<Rightarrow> bytes"            \<comment> \<open>frame of the n-th \<open>recv\<close>; empty: none or an error\<close>
  send_at :: "nat \<Rightarrow> bool"             \<comment> \<open>whether the n-th \<open>send\<close> is accepted\<close>
  clock_at :: "nat \<Rightarrow> nat \<times> nat"      \<comment> \<open>n-th read of CLOCK_MONOTONIC: seconds, nanoseconds\<close>
  wall_at :: "nat \<Rightarrow> nat \<times> nat"       \<comment> \<open>n-th read of CLOCK_REALTIME\<close>
  socket_at :: "nat \<Rightarrow> int"            \<comment> \<open>descriptor of the n-th \<open>socket\<close>\<close>
  bind_at :: "nat \<Rightarrow> int"              \<comment> \<open>result of the n-th \<open>bind\<close>\<close>
  nrecv :: nat
  nsend :: nat
  nclock :: nat
  nwall :: nat
  nsocket :: nat
  sent :: "(int \<times> bytes) list"        \<comment> \<open>socket and frame of each \<open>send\<close>, newest first\<close>
  closed_fds :: "int list"                 \<comment> \<open>descriptors closed, newest first\<close>
  slept :: "(nat \<times> nat) list"         \<comment> \<open>arguments of \<open>nanosleep\<close>, newest first\<close>

definition os_recv :: "nat \<Rightarrow> osenv \<Rightarrow> bytes \<times> osenv" where
  "os_recv lp e = (take lp (recv_at e (nrecv e)), e\<lparr>nrecv := Suc (nrecv e)\<rparr>)"

definition os_send :: "int \<Rightarrow> bytes \<Rightarrow> osenv \<Rightarrow> int \<times> osenv" where
  "os_send sock f e =
     (if send_at e (nsend e) then int (length f) else -1,
      e\<lparr>nsend := Suc (nsend e), sent := (sock, f) # sent e\<rparr>)"

definition os_clock :: "osenv \<Rightarrow> (nat \<times> nat) \<times> osenv" where
  "os_clock e = (clock_at e (nclock e), e\<lparr>nclock := Suc (nclock e)\<rparr>)"

definition os_wall :: "osenv \<Rightarrow> (nat \<times> nat) \<times> osenv" where
  "os_wall e = (wall_at e (nwall e), e\<lparr>nwall := Suc (nwall e)\<rparr>)"

text \<open>The streams are fixed and the clock is only ever read forward.\<close>

definition env_ext :: "osenv \<Rightarrow> osenv \<Rightarrow> bool" where
  "env_ext e e' \<longleftrightarrow> recv_at e' = recv_at e \<and> send_at e' = send_at e \<and> clock_at e' = clock_at e
     \<and> wall_at e' = wall_at e \<and> nclock e \<le> nclock e'"

text \<open>The documented behaviour of CLOCK_MONOTONIC the polling loops rely on: time passes
  every bound.\<close>

definition clock_live :: "osenv \<Rightarrow> bool" where
  "clock_live e \<longleftrightarrow> (\<forall>T. \<exists>N. \<forall>n \<ge> N. T < fst (clock_at e n))"

lemma env_ext_refl [simp, intro]: "env_ext e e"
  by (simp add: env_ext_def)

lemma env_ext_trans [trans]: "env_ext a b \<Longrightarrow> env_ext b c \<Longrightarrow> env_ext a c"
  by (auto simp: env_ext_def)

lemma env_ext_live: "env_ext e e' \<Longrightarrow> clock_live e' \<longleftrightarrow> clock_live e"
  by (simp add: env_ext_def clock_live_def)

lemma os_ext [simp]:
  "env_ext e (snd (os_recv lp e))"
  "env_ext e (snd (os_send s f e))"
  "env_ext e (snd (os_clock e))"
  "env_ext e (snd (os_wall e))"
  by (simp_all add: env_ext_def os_recv_def os_send_def os_clock_def os_wall_def)

section \<open>Times and timers\<close>

record ec_timet =
  sec :: u32
  usec :: u32

type_synonym osal_timert = ec_timet   \<comment> \<open>the timer's only field is its stop time\<close>

type_synonym timeval = "nat \<times> nat"   \<comment> \<open>seconds, microseconds\<close>

definition USECS_PER_SEC :: nat where
  "USECS_PER_SEC = 1000000"

definition osal_usleep :: "nat \<Rightarrow> osenv \<Rightarrow> osenv" where
  "osal_usleep us e =
     e\<lparr>slept := (us div USECS_PER_SEC, (us mod USECS_PER_SEC) * 1000) # slept e\<rparr>"

definition osal_current_time :: "osenv \<Rightarrow> ec_timet \<times> osenv" where
  "osal_current_time e =
     (let (t, e') = os_wall e
      in (\<lparr>sec = of_nat (fst t), usec = of_nat (snd t div 1000)\<rparr>, e'))"

definition osal_time_diff :: "ec_timet \<Rightarrow> ec_timet \<Rightarrow> ec_timet" where
  "osal_time_diff start end =
     (if usec end < usec start
      then \<lparr>sec = sec end - sec start - 1, usec = usec end + 1000000 - usec start\<rparr>
      else \<lparr>sec = sec end - sec start, usec = usec end - usec start\<rparr>)"

definition osal_getrelativetime :: "osenv \<Rightarrow> timeval \<times> osenv" where
  "osal_getrelativetime e = (let (ts, e') = os_clock e in ((fst ts, snd ts div 1000), e'))"

text \<open>The macros \<open>timeradd\<close> and \<open>timercmp (<)\<close> of \<open>sys/time.h\<close>.\<close>

definition timeradd :: "timeval \<Rightarrow> timeval \<Rightarrow> timeval" where
  "timeradd a b =
     (let s = fst a + fst b; u = snd a + snd b
      in if 1000000 \<le> u then (s + 1, u - 1000000) else (s, u))"

definition timer_less :: "timeval \<Rightarrow> timeval \<Rightarrow> bool" where
  "timer_less a b = (if fst a = fst b then snd a < snd b else fst a < fst b)"

definition osal_timer_start :: "nat \<Rightarrow> osenv \<Rightarrow> osal_timert \<times> osenv" where
  "osal_timer_start timeout_usec e =
     (let (start, e') = osal_getrelativetime e;
          timeout = (timeout_usec div USECS_PER_SEC, timeout_usec mod USECS_PER_SEC);
          stop = timeradd start timeout
      in (\<lparr>sec = of_nat (fst stop), usec = of_nat (snd stop)\<rparr>, e'))"

definition osal_timer_is_expired :: "osal_timert \<Rightarrow> osenv \<Rightarrow> bool \<times> osenv" where
  "osal_timer_is_expired self e =
     (let (cur, e') = osal_getrelativetime e
      in (\<not> timer_less cur (unat (sec self), unat (usec self)), e'))"

lemma osal_ext [simp]:
  "env_ext e (osal_usleep us e)"
  "env_ext e (snd (osal_current_time e))"
  "env_ext e (snd (osal_getrelativetime e))"
  "env_ext e (snd (osal_timer_start us e))"
  "env_ext e (snd (osal_timer_is_expired t e))"
  by (simp_all add: osal_usleep_def osal_current_time_def osal_getrelativetime_def
      osal_timer_start_def osal_timer_is_expired_def os_clock_def os_wall_def env_ext_def Let_def)

lemma nclock_expired [simp]: "nclock (snd (osal_timer_is_expired t e)) = Suc (nclock e)"
  by (simp add: osal_timer_is_expired_def osal_getrelativetime_def os_clock_def)

lemma nclock_start [simp]: "nclock (snd (osal_timer_start us e)) = Suc (nclock e)"
  by (simp add: osal_timer_start_def osal_getrelativetime_def os_clock_def Let_def)

text \<open>
  The number of clock reads after which a timer has certainly expired; the measure of every
  polling loop.
\<close>

definition expiry :: "osal_timert \<Rightarrow> osenv \<Rightarrow> nat" where
  "expiry t e = (LEAST N. \<forall>n \<ge> N. unat (sec t) < fst (clock_at e n))"

definition reads_left :: "osal_timert \<Rightarrow> osenv \<Rightarrow> nat" where
  "reads_left t e = expiry t e - nclock e"

lemma expiry_spec:
  assumes "clock_live e" and "expiry t e \<le> n"
  shows "unat (sec t) < fst (clock_at e n)"
proof -
  from assms(1) have "\<exists>N. \<forall>n \<ge> N. unat (sec t) < fst (clock_at e n)"
    by (simp add: clock_live_def)
  then have "\<forall>n \<ge> expiry t e. unat (sec t) < fst (clock_at e n)"
    unfolding expiry_def by (rule LeastI_ex)
  with assms(2) show ?thesis by blast
qed

lemma expiry_ext: "env_ext e e' \<Longrightarrow> expiry t e' = expiry t e"
  by (simp add: expiry_def env_ext_def)

lemma reads_left_mono: "env_ext e e' \<Longrightarrow> reads_left t e' \<le> reads_left t e"
  by (auto simp: reads_left_def expiry_ext) (simp add: env_ext_def diff_le_mono2)

lemma reads_left_step:
  assumes "clock_live e" and "\<not> fst (osal_timer_is_expired t e)"
  shows "reads_left t (snd (osal_timer_is_expired t e)) < reads_left t e"
proof -
  have "nclock e < expiry t e"
  proof (rule ccontr)
    assume "\<not> nclock e < expiry t e"
    with assms(1) have "unat (sec t) < fst (clock_at e (nclock e))"
      by (intro expiry_spec) simp_all
    with assms(2) show False
      by (simp add: osal_timer_is_expired_def osal_getrelativetime_def os_clock_def timer_less_def)
  qed
  moreover have "expiry t (snd (osal_timer_is_expired t e)) = expiry t e"
    by (rule expiry_ext) simp
  ultimately show ?thesis by (simp add: reads_left_def)
qed

section \<open>Correctness of times and timers\<close>

definition usec_of :: "timeval \<Rightarrow> nat" where
  "usec_of t = fst t * 1000000 + snd t"

definition clock_us :: "osenv \<Rightarrow> nat \<Rightarrow> nat" where
  "clock_us e n = fst (clock_at e n) * 1000000 + snd (clock_at e n) div 1000"

lemma usec_of_timeradd: "usec_of (timeradd a b) = usec_of a + usec_of b"
  by (simp add: usec_of_def timeradd_def Let_def algebra_simps)

lemma timer_less_usec:
  "snd a < 1000000 \<Longrightarrow> snd b < 1000000 \<Longrightarrow> timer_less a b \<longleftrightarrow> usec_of a < usec_of b"
  by (auto simp: timer_less_def usec_of_def)

lemma timeradd_normal:
  "snd a < 1000000 \<Longrightarrow> snd b < 1000000 \<Longrightarrow> snd (timeradd a b) < 1000000"
  by (auto simp: timeradd_def Let_def)

lemma timer_expired_iff:
  assumes norm: "\<forall>n. snd (clock_at e n) < 1000000000"
    and fits: "fst (clock_at e (nclock e)) + us div 1000000 + 1 < 2 ^ 32"
    and start: "osal_timer_start us e = (t, e1)"
    and later: "env_ext e1 e2"
  shows "fst (osal_timer_is_expired t e2) \<longleftrightarrow>
           clock_us e (nclock e) + us \<le> clock_us e (nclock e2)"
proof -
  let ?s = "(fst (clock_at e (nclock e)), snd (clock_at e (nclock e)) div 1000)"
  let ?t = "(us div 1000000, us mod 1000000)"
  let ?c = "(fst (clock_at e (nclock e2)), snd (clock_at e (nclock e2)) div 1000)"
  have usn: "snd (clock_at e n) div 1000 < 1000000" for n
    using norm[rule_format, of n] by simp
  have t: "t = \<lparr>sec = of_nat (fst (timeradd ?s ?t)), usec = of_nat (snd (timeradd ?s ?t))\<rparr>"
    and e1: "clock_at e1 = clock_at e"
    using start by (auto simp: osal_timer_start_def osal_getrelativetime_def os_clock_def
        USECS_PER_SEC_def Let_def)
  from later e1 have e2: "clock_at e2 = clock_at e" by (simp add: env_ext_def)
  have normal: "snd (timeradd ?s ?t) < 1000000"
    by (rule timeradd_normal) (use usn in simp_all)
  have "fst (timeradd ?s ?t) < 2 ^ 32"
    using fits by (simp add: timeradd_def Let_def split: if_splits)
  then have sec_t: "unat (sec t) = fst (timeradd ?s ?t)" and usec_t: "unat (usec t) = snd (timeradd ?s ?t)"
    using normal by (simp_all add: t unat_of_nat)
  have "fst (osal_timer_is_expired t e2) \<longleftrightarrow> \<not> timer_less ?c (timeradd ?s ?t)"
    by (simp add: osal_timer_is_expired_def osal_getrelativetime_def os_clock_def e2 sec_t usec_t)
  also have "\<dots> \<longleftrightarrow> usec_of (timeradd ?s ?t) \<le> usec_of ?c"
    using usn normal by (subst timer_less_usec) auto
  also have "\<dots> \<longleftrightarrow> clock_us e (nclock e) + us \<le> clock_us e (nclock e2)"
    by (simp add: usec_of_timeradd) (simp add: usec_of_def clock_us_def algebra_simps)
  finally show ?thesis .
qed

text \<open>
  a timer started with a timeout reports expiry at a later clock read exactly when at least
  the timeout has elapsed on the monotonic clock. The clock's nanosecond field is normal and its
  seconds plus the timeout fit the 32-bit \<open>stop_time\<close>.
\<close>

theorem timer_expires_after_timeout:
  assumes "\<forall>n. snd (clock_at e n) < 1000000000"
    and "fst (clock_at e (nclock e)) + us div 1000000 + 1 < 2 ^ 32"
    and "osal_timer_start us e = (t, e1)"
    and "env_ext e1 e2"
  shows "fst (osal_timer_is_expired t e2) \<longleftrightarrow>
           clock_us e (nclock e) + us \<le> clock_us e (nclock e2)"
  using assms by (rule timer_expired_iff)

text \<open>A kernel whose clock advances by one second with every read, for concrete runs.\<close>

definition idle_kernel :: osenv where
  "idle_kernel = \<lparr>recv_at = (\<lambda>_. []), send_at = (\<lambda>_. True), clock_at = (\<lambda>n. (n, 0)),
     wall_at = (\<lambda>n. (n, 0)), socket_at = (\<lambda>_. 3), bind_at = (\<lambda>_. 0), nrecv = 0, nsend = 0,
     nclock = 0, nwall = 0, nsocket = 0, sent = [], closed_fds = [], slept = []\<rparr>"

lemma idle_kernel_live [simp]: "clock_live idle_kernel"
  unfolding clock_live_def
proof
  fix T :: nat
  show "\<exists>N. \<forall>n\<ge>N. T < fst (clock_at idle_kernel n)"
    by (rule exI [of _ "Suc T"]) (simp add: idle_kernel_def)
qed

theorem timer_expires_after_timeout_witness:
  "fst (osal_timer_is_expired (fst (osal_timer_start 1000000 idle_kernel))
      (snd (osal_timer_start 1000000 idle_kernel))) \<longleftrightarrow> clock_us idle_kernel 0 + 1000000 \<le> clock_us idle_kernel 1"
proof -
  let ?r = "osal_timer_start 1000000 idle_kernel"
  have "fst (osal_timer_is_expired (fst ?r) (snd ?r)) \<longleftrightarrow>
      clock_us idle_kernel (nclock idle_kernel) + 1000000 \<le> clock_us idle_kernel (nclock (snd ?r))"
    by (rule timer_expires_after_timeout [OF _ _ prod.collapse [symmetric]]) (simp_all add: idle_kernel_def)
  then show ?thesis by (simp add: idle_kernel_def One_nat_def)
qed

end
