(* ===== verification/Osal_Threads.thy ===== *)
theory Osal_Threads
  imports Osal
begin

text \<open>
  Starting threads (\<open>soem_lib/osal/linux/osal.c\<close>). The pthread library is the environment: what its two
  fallible calls return is an argument, and the calls made are returned in order beside the result.
\<close>

datatype thread_call =
  pthread_attr_init | pthread_attr_setstacksize int | pthread_create | pthread_attr_destroy
| pthread_setschedparam int

definition osal_thread_create :: "int \<Rightarrow> int \<Rightarrow> int \<times> thread_call list" where
  "osal_thread_create create_result stacksize =
     (if create_result < 0 then 0 else 1,
      [pthread_attr_init, pthread_attr_setstacksize stacksize, pthread_create])"

definition osal_thread_create_rt :: "int \<Rightarrow> int \<Rightarrow> int \<Rightarrow> int \<times> thread_call list" where
  "osal_thread_create_rt create_result sched_result stacksize =
     (let calls = [pthread_attr_init, pthread_attr_setstacksize stacksize, pthread_create, pthread_attr_destroy]
      in if create_result < 0 then (0, calls)
         else let schedparam = 40; calls = calls @ [pthread_setschedparam schedparam]
           in if sched_result < 0 then (0, calls) else (1, calls))"

text \<open>The calls report an error by a positive number, never by a negative one, so a thread that was
  not started, or runs without its priority, is reported as success.\<close>

definition pthread_result :: "int \<Rightarrow> bool" where
  "pthread_result r \<longleftrightarrow> 0 \<le> r"

lemma thread_create_never_fails:
  assumes "pthread_result c" and "pthread_result s"
  shows "fst (osal_thread_create c k) = 1 \<and> fst (osal_thread_create_rt c s k) = 1"
  using assms by (simp add: pthread_result_def osal_thread_create_def osal_thread_create_rt_def Let_def)

end
