(* ===== verification/Nicdrv.thy ===== *)
theory Nicdrv
  imports Osal
begin

text \<open>
  The raw socket driver (\<open>soem_lib/oshw/linux/nicdrv.c\<close>): frame buffers indexed by the datagram
  index, their status, transmission, reception with reordering, redundancy over a second NIC, and
  the confirmed exchange \<open>ecx_srconfirm\<close>.

  The pointers of an \<open>ec_stackT\<close> select either the primary receive side (\<open>rx\<close>) or the redundant
  one (\<open>redport\<close>); both stacks share the transmit buffers. The three mutexes only serialise
  threads and have no counterpart here.
\<close>

section \<open>Constants and types\<close>

text \<open>Sizes and return codes of \<open>ethercattype.h\<close>.\<close>

abbreviation (input) EC_NOFRAME :: int where "EC_NOFRAME \<equiv> -1"
abbreviation (input) EC_OTHERFRAME :: int where "EC_OTHERFRAME \<equiv> -2"
abbreviation (input) EC_ERROR :: int where "EC_ERROR \<equiv> -3"
abbreviation (input) EC_SLAVECOUNTEXCEEDED :: int where "EC_SLAVECOUNTEXCEEDED \<equiv> -4"
abbreviation (input) EC_TIMEOUT :: int where "EC_TIMEOUT \<equiv> -5"
abbreviation (input) EC_BUFSIZE :: nat where "EC_BUFSIZE \<equiv> 1518"
abbreviation (input) EC_MAXBUF :: nat where "EC_MAXBUF \<equiv> 16"
abbreviation (input) ETH_HEADERSIZE :: nat where "ETH_HEADERSIZE \<equiv> 14"
abbreviation (input) EC_HEADERSIZE :: nat where "EC_HEADERSIZE \<equiv> 12"
abbreviation (input) EC_ELENGTHSIZE :: nat where "EC_ELENGTHSIZE \<equiv> 2"
abbreviation (input) EC_CMDOFFSET :: nat where "EC_CMDOFFSET \<equiv> 2"
abbreviation (input) EC_WKCSIZE :: nat where "EC_WKCSIZE \<equiv> 2"
abbreviation (input) EC_TIMEOUTRET :: int where "EC_TIMEOUTRET \<equiv> 2000"
abbreviation (input) EC_TIMEOUTRET3 :: int where "EC_TIMEOUTRET3 \<equiv> 6000"
abbreviation (input) ETH_P_ECAT :: u16 where "ETH_P_ECAT \<equiv> 0x88A4"

datatype ec_bufstate =
  EC_BUF_EMPTY | EC_BUF_ALLOC | EC_BUF_TX | EC_BUF_RCVD | EC_BUF_COMPLETE

datatype ec_redstate = ECT_RED_NONE | ECT_RED_DOUBLE

abbreviation (input) RX_PRIM :: u16 where "RX_PRIM \<equiv> 0x0101"
abbreviation (input) RX_SEC :: u16 where "RX_SEC \<equiv> 0x0404"

text \<open>Offsets of the fields of \<open>ec_etherheadert\<close> and \<open>ec_comt\<close> in a frame.\<close>

abbreviation (input) OFF_sa1 :: nat where "OFF_sa1 \<equiv> 8"
abbreviation (input) OFF_etype :: nat where "OFF_etype \<equiv> 12"
abbreviation (input) OFF_elength :: nat where "OFF_elength \<equiv> 0"
abbreviation (input) OFF_command :: nat where "OFF_command \<equiv> 2"
abbreviation (input) OFF_index :: nat where "OFF_index \<equiv> 3"
abbreviation (input) OFF_ADP :: nat where "OFF_ADP \<equiv> 4"
abbreviation (input) OFF_ADO :: nat where "OFF_ADO \<equiv> 6"
abbreviation (input) OFF_dlength :: nat where "OFF_dlength \<equiv> 8"

definition htons :: "u16 \<Rightarrow> u16" where
  "htons w = push_bit 8 w OR drop_bit 8 w"

abbreviation (input) ntohs :: "u16 \<Rightarrow> u16" where "ntohs \<equiv> htons"

record ec_rxside =
  sockhandle :: int
  rxbuf :: "bytes list"
  rxbufstat :: "ec_bufstate list"
  rxsa :: "u16 list"
  tempinbuf :: bytes

record ecx_portt =
  rx :: ec_rxside
  tempinbufs :: int
  txbuf :: "bytes list"
  txbuflength :: "nat list"
  txbuf2 :: bytes
  txbuflength2 :: nat
  lastidx :: byte
  redstate :: ec_redstate
  redport :: "ec_rxside option"
  os :: osenv

text \<open>\<open>stack = stacknumber ? &port->redport->stack : &port->stack\<close>\<close>

definition stack_of :: "nat \<Rightarrow> ecx_portt \<Rightarrow> ec_rxside option" where
  "stack_of sn p = (if sn = 0 then Some (rx p) else redport p)"

definition set_stack :: "nat \<Rightarrow> ec_rxside \<Rightarrow> ecx_portt \<Rightarrow> ecx_portt" where
  "set_stack sn s p = (if sn = 0 then p\<lparr>rx := s\<rparr> else p\<lparr>redport := Some s\<rparr>)"

text \<open>Timers read the clock of the port's kernel.\<close>

definition timer_start :: "int \<Rightarrow> ecx_portt \<Rightarrow> osal_timert \<times> ecx_portt" where
  "timer_start timeout p =
     (let (t, e) = osal_timer_start (uint32_of timeout) (os p) in (t, p\<lparr>os := e\<rparr>))"

definition timer_expired :: "osal_timert \<Rightarrow> ecx_portt \<Rightarrow> bool \<times> ecx_portt" where
  "timer_expired t p = (let (b, e) = osal_timer_is_expired t (os p) in (b, p\<lparr>os := e\<rparr>))"

definition usleep :: "nat \<Rightarrow> ecx_portt \<Rightarrow> ecx_portt" where
  "usleep us p = p\<lparr>os := osal_usleep us (os p)\<rparr>"

text \<open>The test \<open>cond && (osal_timer_is_expired(timer) == FALSE)\<close> that ends the polling loops.\<close>

definition and_not_expired :: "bool \<Rightarrow> osal_timert \<Rightarrow> ecx_portt \<Rightarrow> bool \<times> ecx_portt" where
  "and_not_expired c t p =
     (if c then (let (b, p') = timer_expired t p in (\<not> b, p')) else (False, p))"

section \<open>Set-up\<close>

definition ec_setupheader :: "bytes \<Rightarrow> bytes option" where
  "ec_setupheader b = do {
     b \<leftarrow> put16 b 0 (htons 0xffff);
     b \<leftarrow> put16 b 2 (htons 0xffff);
     b \<leftarrow> put16 b 4 (htons 0xffff);
     b \<leftarrow> put16 b 6 (htons 0x0101);
     b \<leftarrow> put16 b OFF_sa1 (htons 0x0101);
     b \<leftarrow> put16 b 10 (htons 0x0101);
     put16 b OFF_etype (htons ETH_P_ECAT) }"

definition ecx_clear_rxbufstat :: "ec_bufstate list \<Rightarrow> ec_bufstate list option" where
  "ecx_clear_rxbufstat st =
     for_each (\<lambda>i st. aset st i EC_BUF_EMPTY) [0..<EC_MAXBUF] st"

definition setupnic_socket :: "string \<Rightarrow> ecx_portt \<Rightarrow> (int \<times> int \<times> ecx_portt) option" where
  \<comment> \<open>\<open>socket\<close>, the socket options and ioctls, \<open>bind\<close>: the descriptor and the result of \<open>bind\<close>.
      \<open>strcpy\<close> copies the name into \<open>ifr_name\<close>, 16 bytes with the terminator.\<close>
  "setupnic_socket ifname p =
     (let e = os p; n = nsocket e
      in if length ifname < 16
         then Some (socket_at e n, bind_at e n, p\<lparr>os := e\<lparr>nsocket := Suc n\<rparr>\<rparr>)
         else None)"

definition setup_header :: "nat \<Rightarrow> ecx_portt \<Rightarrow> ecx_portt option" where
  "setup_header i p = do {
     b \<leftarrow> aget (txbuf p) i;
     b \<leftarrow> ec_setupheader b;
     tx \<leftarrow> aset (txbuf p) i b;
     st \<leftarrow> aset (rxbufstat (rx p)) i EC_BUF_EMPTY;
     Some (p\<lparr>txbuf := tx, rx := (rx p)\<lparr>rxbufstat := st\<rparr>\<rparr>) }"

definition ecx_setupnic :: "string \<Rightarrow> bool \<Rightarrow> ecx_portt \<Rightarrow> (int \<times> ecx_portt) option" where
  "ecx_setupnic ifname secondary p =
     (if secondary \<and> redport p = None then Some (0, p)
      else do {
        p \<leftarrow> (if secondary
             then do {
               red \<leftarrow> redport p;
               st \<leftarrow> ecx_clear_rxbufstat (rxbufstat red);
               Some (p\<lparr>redport := Some (red\<lparr>sockhandle := -1, rxbufstat := st\<rparr>),
                       redstate := ECT_RED_DOUBLE\<rparr>) }
             else do {
               st \<leftarrow> ecx_clear_rxbufstat (rxbufstat (rx p));
               Some (p\<lparr>rx := (rx p)\<lparr>sockhandle := -1, rxbufstat := st\<rparr>,
                       lastidx := 0, redstate := ECT_RED_NONE\<rparr>) });
        (fd, r, p) \<leftarrow> setupnic_socket ifname p;
        p \<leftarrow> (if secondary
             then do { red \<leftarrow> redport p; Some (p\<lparr>redport := Some (red\<lparr>sockhandle := fd\<rparr>)\<rparr>) }
             else Some (p\<lparr>rx := (rx p)\<lparr>sockhandle := fd\<rparr>\<rparr>));
        p \<leftarrow> for_each setup_header [0..<EC_MAXBUF] p;
        b2 \<leftarrow> ec_setupheader (txbuf2 p);
        let rval = (if r = 0 then 1 else 0);
        Some (rval, p\<lparr>txbuf2 := b2\<rparr>) })"

definition close_fd :: "int \<Rightarrow> ecx_portt \<Rightarrow> ecx_portt" where
  "close_fd fd p = p\<lparr>os := (os p)\<lparr>closed_fds := fd # closed_fds (os p)\<rparr>\<rparr>"

definition ecx_closenic :: "ecx_portt \<Rightarrow> int \<times> ecx_portt" where
  "ecx_closenic p =
     (let p = (if 0 \<le> sockhandle (rx p) then close_fd (sockhandle (rx p)) p else p);
          p = (case redport p of
                 None \<Rightarrow> p
               | Some red \<Rightarrow> if 0 \<le> sockhandle red then close_fd (sockhandle red) p else p)
      in (0, p))"

section \<open>Buffer indices\<close>

text \<open>The increment that wraps at \<open>EC_MAXBUF\<close>, and the search for a free index; the counter
  runs from 0 up to \<open>EC_MAXBUF\<close>.\<close>

definition next_idx :: "byte \<Rightarrow> byte" where
  "next_idx i = (if 16 \<le> i + 1 then 0 else i + 1)"

fun getindex_scan :: "ec_bufstate list \<Rightarrow> nat \<Rightarrow> byte \<Rightarrow> byte option" where
  "getindex_scan st 0 idx = Some idx"
| "getindex_scan st (Suc left) idx = do {
     s \<leftarrow> aget st (unat idx);
     if s \<noteq> EC_BUF_EMPTY then getindex_scan st left (next_idx idx) else Some idx }"

text \<open>\<open>port->rxbufstat[idx] = s\<close>, and the same on the redundant port in redundant mode.\<close>

definition ecx_setbufstat :: "byte \<Rightarrow> ec_bufstate \<Rightarrow> ecx_portt \<Rightarrow> ecx_portt option" where
  "ecx_setbufstat idx bufstat p = do {
     st \<leftarrow> aset (rxbufstat (rx p)) (unat idx) bufstat;
     let p = p\<lparr>rx := (rx p)\<lparr>rxbufstat := st\<rparr>\<rparr>;
     if redstate p \<noteq> ECT_RED_NONE
     then do {
       red \<leftarrow> redport p;
       st2 \<leftarrow> aset (rxbufstat red) (unat idx) bufstat;
       Some (p\<lparr>redport := Some (red\<lparr>rxbufstat := st2\<rparr>)\<rparr>) }
     else Some p }"

definition ecx_getindex :: "ecx_portt \<Rightarrow> (byte \<times> ecx_portt) option" where
  "ecx_getindex p = do {
     idx \<leftarrow> getindex_scan (rxbufstat (rx p)) EC_MAXBUF (next_idx (lastidx p));
     p \<leftarrow> ecx_setbufstat idx EC_BUF_ALLOC p;
     Some (idx, p\<lparr>lastidx := idx\<rparr>) }"

section \<open>Transmission\<close>

definition sock_send :: "int \<Rightarrow> bytes \<Rightarrow> ecx_portt \<Rightarrow> int \<times> ecx_portt" where
  "sock_send sock f p = (let (r, e) = os_send sock f (os p) in (r, p\<lparr>os := e\<rparr>))"

text \<open>Setting one status field of a stack.\<close>

definition stack_stat :: "nat \<Rightarrow> byte \<Rightarrow> ec_bufstate \<Rightarrow> ecx_portt \<Rightarrow> ecx_portt option" where
  "stack_stat sn idx v p = do {
     s \<leftarrow> stack_of sn p;
     st \<leftarrow> aset (rxbufstat s) (unat idx) v;
     Some (set_stack sn (s\<lparr>rxbufstat := st\<rparr>) p) }"

definition ecx_outframe :: "byte \<Rightarrow> nat \<Rightarrow> ecx_portt \<Rightarrow> (int \<times> ecx_portt) option" where
  "ecx_outframe idx stacknumber p = do {
     lp \<leftarrow> aget (txbuflength p) (unat idx);
     p \<leftarrow> stack_stat stacknumber idx EC_BUF_TX p;
     b \<leftarrow> aget (txbuf p) (unat idx);
     f \<leftarrow> mem_read b 0 lp;
     s \<leftarrow> stack_of stacknumber p;
     let (rval, p) = sock_send (sockhandle s) f p;
     p \<leftarrow> (if rval = -1 then stack_stat stacknumber idx EC_BUF_EMPTY p else Some p);
     Some (rval, p) }"

text \<open>The dummy frame that occupies index \<open>idx\<close> on the secondary interface.\<close>

definition outframe_dummy :: "byte \<Rightarrow> ecx_portt \<Rightarrow> ecx_portt option" where
  "outframe_dummy idx p = do {
     b2 \<leftarrow> put8 (txbuf2 p) (ETH_HEADERSIZE + OFF_index) idx;
     b2 \<leftarrow> put16 b2 OFF_sa1 (htons 0x0404);
     let p = p\<lparr>txbuf2 := b2\<rparr>;
     p \<leftarrow> stack_stat 1 idx EC_BUF_TX p;
     f \<leftarrow> mem_read b2 0 (txbuflength2 p);
     red \<leftarrow> redport p;
     let (r2, p) = sock_send (sockhandle red) f p;
     if r2 = -1 then stack_stat 1 idx EC_BUF_EMPTY p else Some p }"

definition ecx_outframe_red :: "byte \<Rightarrow> ecx_portt \<Rightarrow> (int \<times> ecx_portt) option" where
  "ecx_outframe_red idx p = do {
     b \<leftarrow> aget (txbuf p) (unat idx);
     b \<leftarrow> put16 b OFF_sa1 (htons 0x0101);
     tx \<leftarrow> aset (txbuf p) (unat idx) b;
     let p = p\<lparr>txbuf := tx\<rparr>;
     (rval, p) \<leftarrow> ecx_outframe idx 0 p;
     p \<leftarrow> (if redstate p \<noteq> ECT_RED_NONE then outframe_dummy idx p else Some p);
     Some (rval, p) }"

section \<open>Reception\<close>

definition ecx_recvpkt :: "nat \<Rightarrow> ecx_portt \<Rightarrow> (bool \<times> ecx_portt) option" where
  "ecx_recvpkt stacknumber p = do {
     s \<leftarrow> stack_of stacknumber p;
     let (f, e) = os_recv EC_BUFSIZE (os p);
     t \<leftarrow> mem_write (tempinbuf s) 0 f;
     let bytesrx = int (length f);
     Some (bytesrx > 0,
           (set_stack stacknumber (s\<lparr>tempinbuf := t\<rparr>) p)\<lparr>os := e, tempinbufs := bytesrx\<rparr>) }"

text \<open>The working counter that follows the datagrams, at the offset the length field gives.\<close>

definition wkc_at :: "bytes \<Rightarrow> nat \<Rightarrow> int option" where
  "wkc_at b l = do {
     lo \<leftarrow> get8 b l;
     hi \<leftarrow> get8 b (l + 1);
     Some (uint lo + uint hi * 256) }"

text \<open>Copying the received frame, less its ethernet header, to buffer \<open>i\<close>; the number of bytes is
  that of the frame sent with that index.\<close>

definition store_rx :: "nat \<Rightarrow> nat \<Rightarrow> ecx_portt \<Rightarrow> (bytes \<times> ecx_portt) option" where
  "store_rx sn i p = do {
     s \<leftarrow> stack_of sn p;
     b \<leftarrow> aget (rxbuf s) i;
     n \<leftarrow> aget (txbuflength p) i;
     d \<leftarrow> (if ETH_HEADERSIZE \<le> n then mem_read (tempinbuf s) ETH_HEADERSIZE (n - ETH_HEADERSIZE)
          else None);
     b \<leftarrow> mem_write b 0 d;
     bs \<leftarrow> aset (rxbuf s) i b;
     Some (b, set_stack sn (s\<lparr>rxbuf := bs\<rparr>) p) }"

definition store_sa :: "nat \<Rightarrow> nat \<Rightarrow> ecx_portt \<Rightarrow> ecx_portt option" where
  "store_sa sn i p = do {
     s \<leftarrow> stack_of sn p;
     sa1 \<leftarrow> get16 (tempinbuf s) OFF_sa1;
     sas \<leftarrow> aset (rxsa s) i (ntohs sa1);
     Some (set_stack sn (s\<lparr>rxsa := sas\<rparr>) p) }"

definition inframe_buffered :: "nat \<Rightarrow> byte \<Rightarrow> ecx_portt \<Rightarrow> (int \<times> ecx_portt) option" where
  "inframe_buffered sn idx p = do {
     s \<leftarrow> stack_of sn p;
     b \<leftarrow> aget (rxbuf s) (unat idx);
     b0 \<leftarrow> get8 b 0;
     b1 \<leftarrow> get8 b 1;
     rval \<leftarrow> wkc_at b (unat b0 + unat (b1 AND 0x0f) * 256);
     p \<leftarrow> stack_stat sn idx EC_BUF_COMPLETE p;
     Some (rval, p) }"

definition inframe_ecat :: "nat \<Rightarrow> byte \<Rightarrow> ecx_portt \<Rightarrow> (int \<times> ecx_portt) option" where
  \<comment> \<open>the frame in \<open>tempbuf\<close> is an EtherCAT frame\<close>
  "inframe_ecat sn idx p = do {
     s \<leftarrow> stack_of sn p;
     elen \<leftarrow> get16 (tempinbuf s) (ETH_HEADERSIZE + OFF_elength);
     let l = unat (elen AND 0x0fff);
     idxf \<leftarrow> get8 (tempinbuf s) (ETH_HEADERSIZE + OFF_index);
     if idxf = idx
     then do {
       (b, p) \<leftarrow> store_rx sn (unat idx) p;
       rval \<leftarrow> wkc_at b l;
       p \<leftarrow> stack_stat sn idx EC_BUF_COMPLETE p;
       p \<leftarrow> store_sa sn (unat idx) p;
       Some (rval, p) }
     else if unat idxf < EC_MAXBUF
     then do {
       st \<leftarrow> aget (rxbufstat s) (unat idxf);
       if st = EC_BUF_TX
       then do {
         (b, p) \<leftarrow> store_rx sn (unat idxf) p;
         p \<leftarrow> stack_stat sn idxf EC_BUF_RCVD p;
         p \<leftarrow> store_sa sn (unat idxf) p;
         Some (EC_OTHERFRAME, p) }
       else Some (EC_OTHERFRAME, p) }
     else Some (EC_OTHERFRAME, p) }"

definition ecx_inframe :: "byte \<Rightarrow> nat \<Rightarrow> ecx_portt \<Rightarrow> (int \<times> ecx_portt) option" where
  "ecx_inframe idx stacknumber p = do {
     s \<leftarrow> stack_of stacknumber p;
     if unat idx < EC_MAXBUF \<and> aget (rxbufstat s) (unat idx) = Some EC_BUF_RCVD
     then inframe_buffered stacknumber idx p
     else do {
       (got, p) \<leftarrow> ecx_recvpkt stacknumber p;
       if got
       then do {
         s \<leftarrow> stack_of stacknumber p;
         etype \<leftarrow> get16 (tempinbuf s) OFF_etype;
         if etype = htons ETH_P_ECAT then inframe_ecat stacknumber idx p
         else Some (EC_OTHERFRAME, p) }
       else Some (EC_NOFRAME, p) } }"

section \<open>Waiting and confirming\<close>

text \<open>\<open>memcpy(&port->rxbuf[idx], &port->redport->rxbuf[idx], txbuflength[idx] - ETH_HEADERSIZE)\<close>\<close>

definition copy_red_rx :: "nat \<Rightarrow> ecx_portt \<Rightarrow> ecx_portt option" where
  "copy_red_rx i p = do {
     red \<leftarrow> redport p;
     src \<leftarrow> aget (rxbuf red) i;
     dst \<leftarrow> aget (rxbuf (rx p)) i;
     n \<leftarrow> aget (txbuflength p) i;
     d \<leftarrow> (if ETH_HEADERSIZE \<le> n then mem_read src 0 (n - ETH_HEADERSIZE) else None);
     b \<leftarrow> mem_write dst 0 d;
     bs \<leftarrow> aset (rxbuf (rx p)) i b;
     Some (p\<lparr>rx := (rx p)\<lparr>rxbuf := bs\<rparr>\<rparr>) }"

text \<open>\<open>memcpy(&port->txbuf[idx][ETH_HEADERSIZE], &port->rxbuf[idx], txbuflength[idx] - ETH_HEADERSIZE)\<close>\<close>

definition copy_rx_tx :: "nat \<Rightarrow> ecx_portt \<Rightarrow> ecx_portt option" where
  "copy_rx_tx i p = do {
     src \<leftarrow> aget (rxbuf (rx p)) i;
     dst \<leftarrow> aget (txbuf p) i;
     n \<leftarrow> aget (txbuflength p) i;
     d \<leftarrow> (if ETH_HEADERSIZE \<le> n then mem_read src 0 (n - ETH_HEADERSIZE) else None);
     b \<leftarrow> mem_write dst ETH_HEADERSIZE d;
     bs \<leftarrow> aset (txbuf p) i b;
     Some (p\<lparr>txbuf := bs\<rparr>) }"

text \<open>The polling loop \<open>do body while (cond && !expired(timer))\<close> over local variables and a port.\<close>

definition poll ::
  "osal_timert \<Rightarrow> ('x \<Rightarrow> bool) \<Rightarrow> ('x \<times> ecx_portt \<Rightarrow> ('x \<times> ecx_portt) option) \<Rightarrow>
     'x \<times> ecx_portt \<Rightarrow> ('x \<times> ecx_portt) option" where
  "poll timer cond body =
     do_while body
       (\<lambda>(x, p). let (b, p) = and_not_expired (cond x) timer p in Some (b, x, p))"

definition waitinframe_poll ::
  "byte \<Rightarrow> osal_timert \<Rightarrow> (int \<times> int) \<times> ecx_portt \<Rightarrow> ((int \<times> int) \<times> ecx_portt) option" where
  "waitinframe_poll idx timer =
     poll timer (\<lambda>(wkc, wkc2). wkc \<le> EC_NOFRAME \<or> wkc2 \<le> EC_NOFRAME)
       (\<lambda>((wkc, wkc2), p). do {
          (wkc, p) \<leftarrow> (if wkc \<le> EC_NOFRAME then ecx_inframe idx 0 p else Some (wkc, p));
          (wkc2, p) \<leftarrow> (if redstate p \<noteq> ECT_RED_NONE \<and> wkc2 \<le> EC_NOFRAME
                        then ecx_inframe idx 1 p else Some (wkc2, p));
          Some ((wkc, wkc2), p) })"

definition resend_poll :: "byte \<Rightarrow> osal_timert \<Rightarrow> int \<times> ecx_portt \<Rightarrow> (int \<times> ecx_portt) option" where
  "resend_poll idx timer2 =
     poll timer2 (\<lambda>wkc2. wkc2 \<le> EC_NOFRAME) (\<lambda>(wkc2, p). ecx_inframe idx 1 p)"

text \<open>The MAC address a frame came back with, 0 when none arrived.\<close>

definition route_of :: "int \<Rightarrow> nat \<Rightarrow> ec_rxside \<Rightarrow> u16 option" where
  "route_of wkc i s = (if EC_NOFRAME < wkc then aget (rxsa s) i else Some 0)"

text \<open>The primary interface lost its frame or only the secondary one made the whole round: the frame
  is sent again over the secondary interface.\<close>

definition waitinframe_resend ::
  "byte \<Rightarrow> u16 \<Rightarrow> int \<Rightarrow> int \<Rightarrow> ecx_portt \<Rightarrow> (int \<times> ecx_portt) option" where
  "waitinframe_resend idx primrx wkc wkc2 p = do {
     p \<leftarrow> (if primrx = RX_PRIM then copy_rx_tx (unat idx) p else Some p);
     let (timer2, p) = timer_start EC_TIMEOUTRET p;
     (r, p) \<leftarrow> ecx_outframe idx 1 p;
     (wkc2, p) \<leftarrow> resend_poll idx timer2 (wkc2, p);
     if EC_NOFRAME < wkc2
     then do { p \<leftarrow> copy_red_rx (unat idx) p; Some (wkc2, p) }
     else Some (wkc, p) }"

definition waitinframe_route :: "byte \<Rightarrow> int \<Rightarrow> int \<Rightarrow> ecx_portt \<Rightarrow> (int \<times> ecx_portt) option" where
  "waitinframe_route idx wkc wkc2 p = do {
     red \<leftarrow> redport p;
     primrx \<leftarrow> route_of wkc (unat idx) (rx p);
     secrx \<leftarrow> route_of wkc2 (unat idx) red;
     (wkc, p) \<leftarrow> (if primrx = RX_SEC \<and> secrx = RX_PRIM
                  then do { p \<leftarrow> copy_red_rx (unat idx) p; Some (wkc2, p) }
                  else Some (wkc, p));
     if (primrx = 0 \<and> secrx = RX_SEC) \<or> (primrx = RX_PRIM \<and> secrx = RX_SEC)
     then waitinframe_resend idx primrx wkc wkc2 p
     else Some (wkc, p) }"

definition ecx_waitinframe_red :: "byte \<Rightarrow> osal_timert \<Rightarrow> ecx_portt \<Rightarrow> (int \<times> ecx_portt) option" where
  "ecx_waitinframe_red idx timer p = do {
     ((wkc, wkc2), p) \<leftarrow> waitinframe_poll idx timer
        ((EC_NOFRAME, if redstate p = ECT_RED_NONE then 0 else EC_NOFRAME), p);
     if redstate p \<noteq> ECT_RED_NONE then waitinframe_route idx wkc wkc2 p
     else Some (wkc, p) }"

definition ecx_waitinframe :: "byte \<Rightarrow> int \<Rightarrow> ecx_portt \<Rightarrow> (int \<times> ecx_portt) option" where
  "ecx_waitinframe idx timeout p =
     (let (timer, p) = timer_start timeout p in ecx_waitinframe_red idx timer p)"

definition srconfirm_try :: "byte \<Rightarrow> int \<Rightarrow> ecx_portt \<Rightarrow> (int \<times> ecx_portt) option" where
  "srconfirm_try idx timeout p = do {
     (r, p) \<leftarrow> ecx_outframe_red idx p;
     let (timer2, p) = timer_start (if timeout < EC_TIMEOUTRET then timeout else EC_TIMEOUTRET) p;
     ecx_waitinframe_red idx timer2 p }"

definition ecx_srconfirm :: "byte \<Rightarrow> int \<Rightarrow> ecx_portt \<Rightarrow> (int \<times> ecx_portt) option" where
  "ecx_srconfirm idx timeout p =
     (let (timer1, p) = timer_start timeout p
      in poll timer1 (\<lambda>wkc. wkc \<le> EC_NOFRAME) (\<lambda>(wkc, p). srconfirm_try idx timeout p)
           (EC_NOFRAME, p))"

end
