(* ===== verification/Oshw.thy ===== *)
theory Oshw
  imports Nicdrv
begin

text \<open>
  The list of network adapters (\<open>soem_lib/oshw/linux/oshw.c\<close>): a linked list in the heap, built from
  what the kernel reports and given back by the caller. The heap maps addresses to the adapters
  stored there, address 0 is the null pointer. The allocator is the environment: \<open>malloc_at n\<close> is the
  address the \<open>n\<close>-th call of \<open>malloc\<close> returns and \<open>junk_at n\<close> what the memory there holds.
  \<open>None\<close> is an access through a null or stale pointer.
\<close>

section \<open>Byte order\<close>

definition oshw_htons :: "u16 \<Rightarrow> u16" where
  "oshw_htons host = htons host"

text \<open>\<open>ntohs\<close> is the same exchange of the two bytes.\<close>

definition oshw_ntohs :: "u16 \<Rightarrow> u16" where
  "oshw_ntohs network = htons network"

section \<open>Adapters\<close>

abbreviation (input) EC_MAXLEN_ADAPTERNAME :: nat where "EC_MAXLEN_ADAPTERNAME \<equiv> 128"

record ec_adaptert =
  adapter_name :: bytes
  adapter_desc :: bytes
  adapter_next :: nat

type_synonym adapter_heap = "nat \<Rightarrow> ec_adaptert option"

record allocator =
  malloc_at :: "nat \<Rightarrow> nat"
  junk_at :: "nat \<Rightarrow> ec_adaptert"

definition strncpy :: "bytes \<Rightarrow> nat \<Rightarrow> bytes" where
  "strncpy s n = take n (s @ replicate n 0)"

text \<open>\<open>strncpy\<close> into the array and a zero into its last byte\<close>

definition copy_ifname :: "bytes \<Rightarrow> bytes" where
  "copy_ifname s = (strncpy s EC_MAXLEN_ADAPTERNAME)[EC_MAXLEN_ADAPTERNAME - 1 := 0]"

definition set_adapter :: "nat \<Rightarrow> (ec_adaptert \<Rightarrow> ec_adaptert) \<Rightarrow> adapter_heap \<Rightarrow> adapter_heap option" where
  "set_adapter a f h = do { d \<leftarrow> h a; Some (h(a \<mapsto> f d)) }"

text \<open>One turn of the loop over the interfaces; the state is the heap, the number of \<open>malloc\<close> calls,
  \<open>prev_adapter\<close> and \<open>ret_adapter\<close>.\<close>

definition find_adapter_step :: "allocator \<Rightarrow> bytes option \<Rightarrow> adapter_heap \<times> nat \<times> nat \<times> nat \<Rightarrow>
    (adapter_heap \<times> nat \<times> nat \<times> nat) option" where
  "find_adapter_step al if_name = (\<lambda>(h, n, prev_adapter, ret_adapter). do {
     let adapter = malloc_at al n;
     let h = (if adapter = 0 then h else h(adapter \<mapsto> junk_at al n));
     h \<leftarrow> (if prev_adapter \<noteq> 0 then set_adapter prev_adapter (\<lambda>d. d\<lparr>adapter_next := adapter\<rparr>) h else Some h);
     let ret_adapter = (if prev_adapter \<noteq> 0 then ret_adapter else adapter);
     h \<leftarrow> set_adapter adapter (\<lambda>d. d\<lparr>adapter_next := 0\<rparr>) h;
     h \<leftarrow> set_adapter adapter (\<lambda>d. case if_name of
            Some s \<Rightarrow> d\<lparr>adapter_name := copy_ifname s, adapter_desc := copy_ifname s\<rparr>
          | None \<Rightarrow> d\<lparr>adapter_name := (adapter_name d)[0 := 0], adapter_desc := (adapter_desc d)[0 := 0]\<rparr>) h;
     Some (h, Suc n, adapter, ret_adapter) })"

text \<open>\<open>if_nameindex\<close> returns the interfaces, or the null pointer when it fails.\<close>

definition oshw_find_adapters ::
  "allocator \<Rightarrow> bytes option list option \<Rightarrow> adapter_heap \<Rightarrow> nat \<Rightarrow> (nat \<times> adapter_heap \<times> nat) option" where
  "oshw_find_adapters al nameindex h n = do {
     ids \<leftarrow> nameindex;
     (h, n, _, ret_adapter) \<leftarrow> for_each (find_adapter_step al) ids (h, n, 0, 0);
     Some (ret_adapter, h, n) }"

definition free_adapter :: "nat \<times> adapter_heap \<Rightarrow> (nat \<times> adapter_heap) option" where
  "free_adapter = (\<lambda>(adapter, h). do { d \<leftarrow> h adapter; Some (adapter_next d, h(adapter := None)) })"

definition oshw_free_adapters :: "nat \<Rightarrow> adapter_heap \<Rightarrow> adapter_heap option" where
  "oshw_free_adapters adapter h =
     (if adapter \<noteq> 0
      then do {
        s \<leftarrow> free_adapter (adapter, h);
        (_, h) \<leftarrow> while_do (\<lambda>(next_adapter, h). next_adapter \<noteq> 0) free_adapter s;
        Some h }
      else Some h)"

section \<open>The list in the heap\<close>

text \<open>\<open>linked h a cells e\<close>: from \<open>a\<close> the heap holds the cells in order, and the last one points to \<open>e\<close>.\<close>

fun linked :: "adapter_heap \<Rightarrow> nat \<Rightarrow> (nat \<times> ec_adaptert) list \<Rightarrow> nat \<Rightarrow> bool" where
  "linked h a [] e = (a = e)"
| "linked h a ((p, d) # cells) e = (a = p \<and> p \<noteq> 0 \<and> h p = Some d \<and> linked h (adapter_next d) cells e)"

lemma linked_append: "linked h a (xs @ ys) e \<longleftrightarrow> (\<exists>b. linked h a xs b \<and> linked h b ys e)"
  by (induction h a xs e rule: linked.induct) auto

lemma linked_other: "p \<notin> fst ` set cells \<Longrightarrow> linked (h(p := v)) a cells e = linked h a cells e"
  by (induction h a cells e rule: linked.induct) auto

definition names :: "(nat \<times> ec_adaptert) list \<Rightarrow> bytes list" where
  "names cells = map (\<lambda>(_, d). takeWhile (\<lambda>b. b \<noteq> 0) (adapter_name d)) cells"

text \<open>What a reader sees of an interface name: up to the terminator, at most 127 bytes.\<close>

definition shown :: "bytes option \<Rightarrow> bytes" where
  "shown n = (case n of None \<Rightarrow> [] | Some s \<Rightarrow> take (EC_MAXLEN_ADAPTERNAME - 1) s)"

lemma copy_ifname_eq: "copy_ifname s = take 127 (s @ replicate 128 0) @ [0]"
proof -
  let ?xs = "take 127 (s @ replicate 128 (0 :: byte))"
  have "take 128 (s @ replicate 128 0) = ?xs @ [(s @ replicate 128 0) ! 127]"
    using take_Suc_conv_app_nth [of 127 "s @ replicate 128 (0 :: byte)"] by simp
  moreover have "length ?xs = 127" by simp
  ultimately show ?thesis
    using list_update_length [of ?xs "(s @ replicate 128 0) ! 127" "[]" 0]
    by (simp only: copy_ifname_def strncpy_def) simp
qed

lemma takeWhile_zeros: "takeWhile (\<lambda>b. b \<noteq> 0) (replicate k (0 :: byte) @ [0]) = []"
  by (cases k) simp_all

lemma copy_ifname_shown:
  assumes "0 \<notin> set s"
  shows "takeWhile (\<lambda>b. b \<noteq> 0) (copy_ifname s) = take 127 s"
proof -
  have "takeWhile (\<lambda>b. b \<noteq> 0) (take 127 s @ ys) = take 127 s @ takeWhile (\<lambda>b. b \<noteq> 0) ys" for ys
    using assms by (intro takeWhile_append2) (auto dest: in_set_takeD)
  then show ?thesis by (simp add: copy_ifname_eq takeWhile_zeros)
qed

lemma free_linked:
  assumes "linked h a cells 0" and "distinct (map fst cells)"
  shows "ret (while_do (\<lambda>(p, h). p \<noteq> 0) free_adapter (a, h)) (\<lambda>(p, g). g = (\<lambda>x. if x \<in> fst ` set cells then None else h x))"
  using assms
proof (induction cells arbitrary: a h)
  case Nil
  then show ?case by (subst while_do.simps) simp
next
  case (Cons c cells)
  obtain p d where c: "c = (p, d)" by force
  have "linked (h(p := None)) (adapter_next d) cells 0"
    using Cons.prems linked_other [of p cells h None] by (auto simp: c)
  moreover have "distinct (map fst cells)" using Cons.prems by simp
  ultimately have "ret (while_do (\<lambda>(p, h). p \<noteq> 0) free_adapter (adapter_next d, h(p := None)))
      (\<lambda>(_, g). g = (\<lambda>x. if x \<in> fst ` set cells then None else (h(p := None)) x))"
    by (rule Cons.IH)
  moreover have "while_do (\<lambda>(p, h). p \<noteq> 0) free_adapter (a, h)
      = while_do (\<lambda>(p, h). p \<noteq> 0) free_adapter (adapter_next d, h(p := None))"
    using Cons.prems by (subst while_do.simps) (simp add: c free_adapter_def)
  moreover have "(\<lambda>x. if x \<in> fst ` set cells then None else (h(p := None)) x)
      = (\<lambda>x. if x \<in> fst ` set (c # cells) then None else h x)"
    by (auto simp: c fun_eq_iff)
  ultimately show ?case by simp
qed

text \<open>An allocator that does not run out: every further \<open>malloc\<close> gives new memory.\<close>

definition fresh_from :: "allocator \<Rightarrow> adapter_heap \<Rightarrow> nat \<Rightarrow> bool" where
  "fresh_from al h n \<longleftrightarrow> inj (malloc_at al)
     \<and> (\<forall>k \<ge> n. malloc_at al k \<noteq> 0 \<and> h (malloc_at al k) = None)
     \<and> (\<forall>k. adapter_name (junk_at al k) \<noteq> [])"

text \<open>The list after some interfaces.\<close>

definition built :: "allocator \<Rightarrow> adapter_heap \<Rightarrow> nat \<Rightarrow> bytes option list \<Rightarrow> adapter_heap \<times> nat \<times> nat \<times> nat \<Rightarrow> bool" where
  "built al h n ids = (\<lambda>(g, k, prev, r). k = n + length ids \<and> (\<exists>cells. linked g r cells 0
     \<and> map fst cells = map (malloc_at al) [n..<k] \<and> names cells = map shown ids
     \<and> prev = (if cells = [] then 0 else fst (last cells)) \<and> (\<forall>x. x \<notin> fst ` set cells \<longrightarrow> g x = h x)))"

definition filled :: "bytes option \<Rightarrow> ec_adaptert \<Rightarrow> ec_adaptert" where
  "filled i d = (case i of
       Some s \<Rightarrow> d\<lparr>adapter_next := 0, adapter_name := copy_ifname s, adapter_desc := copy_ifname s\<rparr>
     | None \<Rightarrow> d\<lparr>adapter_next := 0, adapter_name := (adapter_name d)[0 := 0], adapter_desc := (adapter_desc d)[0 := 0]\<rparr>)"

lemma names_snoc:
  assumes "\<forall>s. i = Some s \<longrightarrow> 0 \<notin> set s" and "adapter_name d \<noteq> []"
  shows "names (cells @ [(a, filled i d)]) = names cells @ [shown i]"
  using assms by (cases "adapter_name d") (auto simp: names_def filled_def shown_def copy_ifname_shown split: option.split)

lemma step_first:
  assumes "malloc_at al k = a" and "a \<noteq> 0"
  shows "find_adapter_step al i (g, k, 0, r) = Some (g(a \<mapsto> filled i (junk_at al k)), Suc k, a, a)"
  using assms by (simp add: find_adapter_step_def set_adapter_def filled_def split: option.split)

lemma step_next:
  assumes "malloc_at al k = a" and "a \<noteq> 0" and "prev \<noteq> 0" and "prev \<noteq> a" and "g prev = Some d"
  shows "find_adapter_step al i (g, k, prev, r)
    = Some (g(prev \<mapsto> d\<lparr>adapter_next := a\<rparr>, a \<mapsto> filled i (junk_at al k)), Suc k, a, r)"
  using assms
  by (simp add: find_adapter_step_def set_adapter_def filled_def fun_upd_twist split: option.split)

lemma find_step_built:
  assumes "built al h n ids s" and "fresh_from al h n" and "\<forall>s. i = Some s \<longrightarrow> 0 \<notin> set s"
  shows "ret (find_adapter_step al i s) (built al h n (ids @ [i]))"
proof -
  obtain g k prev r where s: "s = (g, k, prev, r)" by (cases s) auto
  from assms(1) obtain cells where k: "k = n + length ids" and l: "linked g r cells 0"
    and m: "map fst cells = map (malloc_at al) [n..<k]" and nm: "names cells = map shown ids"
    and prev: "prev = (if cells = [] then 0 else fst (last cells))"
    and frame: "\<And>x. x \<notin> fst ` set cells \<Longrightarrow> g x = h x"
    by (auto simp: built_def s)
  define a where "a = malloc_at al k"
  define new where "new = filled i (junk_at al k)"
  have inj: "inj (malloc_at al)" and a0: "a \<noteq> 0" "adapter_name (junk_at al k) \<noteq> []"
    using assms(2) k by (auto simp: fresh_from_def a_def)
  have out: "a \<notin> fst ` set cells"
    using m inj by (auto simp: a_def list.set_map [symmetric] inj_eq)
  have dist: "distinct (map fst cells)"
    unfolding m by (simp add: distinct_map inj_on_subset [OF inj subset_UNIV])
  have m': "map fst (cells' @ [(a, new)]) = map (malloc_at al) [n..<Suc k]" if "map fst cells' = map fst cells" for cells'
    using that m k by (simp add: a_def)
  have new: "adapter_next new = 0" by (simp add: new_def filled_def split: option.split)
  show ?thesis
  proof (cases cells rule: rev_cases)
    case Nil
    with l prev have "prev = 0" by simp
    with nm Nil show ?thesis
      using step_first [OF a_def [symmetric] a0(1), of i g r] a0 m' [of "[]"] names_snoc [OF assms(3) a0(2), of "[]" a] frame new k
      by (auto simp: s built_def new_def intro!: exI [of _ "[(a, new)]"])
  next
    case (snoc ys c)
    obtain d where c: "c = (prev, d)" using prev snoc by (cases c) auto
    have l': "linked g r ys prev" "prev \<noteq> 0" "g prev = Some d"
      using l unfolding snoc c linked_append by auto
    have py: "prev \<notin> fst ` set ys" "prev \<noteq> a" using dist out by (auto simp: snoc c)
    let ?g = "g(prev \<mapsto> d\<lparr>adapter_next := a\<rparr>, a \<mapsto> new)"
    let ?cells = "(ys @ [(prev, d\<lparr>adapter_next := a\<rparr>)]) @ [(a, new)]"
    have "linked ?g r ys prev"
      using l'(1) py(1) out by (simp add: linked_other snoc)
    then have L: "linked ?g r ?cells 0"
      using l' py a0 new by (simp add: linked_append)
    have "names (ys @ [(prev, d\<lparr>adapter_next := a\<rparr>)]) = map shown ids"
      using nm by (simp add: snoc c names_def)
    then have N: "names ?cells = map shown (ids @ [i])"
      using names_snoc [OF assms(3) a0(2), of "ys @ [(prev, d\<lparr>adapter_next := a\<rparr>)]" a] by (simp add: new_def)
    have M: "map fst ?cells = map (malloc_at al) [n..<Suc k]" by (rule m') (simp add: snoc c)
    have F: "\<forall>x. x \<notin> fst ` set ?cells \<longrightarrow> ?g x = h x" using frame by (auto simp: snoc c)
    have "built al h n (ids @ [i]) (?g, Suc k, a, r)"
      unfolding built_def prod.case using L N M F k by (intro conjI exI [of _ ?cells]) auto
    then show ?thesis
      using step_next [where g = g and i = i and r = r, OF a_def [symmetric] a0(1) l'(2) py(2) l'(3)]
      by (simp add: s new_def)
  qed
qed

lemma find_built:
  assumes "fresh_from al h n" and "\<forall>s. Some s \<in> set ids \<longrightarrow> 0 \<notin> set s"
  shows "ret (for_each (find_adapter_step al) ids (h, n, 0, 0)) (built al h n ids)"
  using assms(2)
proof (induction ids rule: rev_induct)
  case Nil
  show ?case by (simp add: built_def names_def)
next
  case (snoc i ids)
  have "ret (for_each (find_adapter_step al) ids (h, n, 0, 0)) (built al h n ids)"
    using snoc by auto
  then show ?case
    unfolding for_each_append by (simp, elim ret_conseq) (use snoc.prems find_step_built [OF _ assms(1)] in auto)
qed

lemma free_adapters_linked:
  assumes "linked h a cells 0" and "distinct (map fst cells)"
  shows "oshw_free_adapters a h = Some (\<lambda>x. if x \<in> fst ` set cells then None else h x)"
proof (cases "a = 0")
  case True
  then have "cells = []" using assms(1) by (cases cells) auto
  with True show ?thesis by (simp add: oshw_free_adapters_def)
next
  case False
  then have "while_do (\<lambda>(p, h). p \<noteq> 0) free_adapter (a, h)
      = (free_adapter (a, h) \<bind> while_do (\<lambda>(p, h). p \<noteq> 0) free_adapter)"
    by (subst while_do.simps) simp
  with False free_linked [OF assms] show ?thesis
    unfolding oshw_free_adapters_def by (cases "free_adapter (a, h)") (auto simp: ret_def)
qed

text \<open>
  C33: When memory does not run out, listing the adapters yields a linked list with one entry per
  interface, in the kernel's order, each holding the interface's name up to 127 bytes; freeing that list
  touches no freed entry and leaves the heap exactly as it was before.
\<close>

theorem adapters_listed_and_freed:
  assumes "fresh_from al h n" and "\<forall>s. Some s \<in> set ids \<longrightarrow> 0 \<notin> set s"
  shows "ret (oshw_find_adapters al (Some ids) h n) (\<lambda>(adapter, g, k).
    (\<exists>cells. linked g adapter cells 0 \<and> names cells = map shown ids) \<and> oshw_free_adapters adapter g = Some h)"
proof -
  obtain g k prev r where run: "for_each (find_adapter_step al) ids (h, n, 0, 0) = Some (g, k, prev, r)"
    and b: "built al h n ids (g, k, prev, r)"
    using find_built [OF assms] by (auto simp: ret_def)
  from b obtain cells where l: "linked g r cells 0" and m: "map fst cells = map (malloc_at al) [n..<k]"
    and nm: "names cells = map shown ids" and frame: "\<And>x. x \<notin> fst ` set cells \<Longrightarrow> g x = h x"
    by (auto simp: built_def)
  have inj: "inj (malloc_at al)" and free: "\<And>j. n \<le> j \<Longrightarrow> h (malloc_at al j) = None"
    using assms(1) by (auto simp: fresh_from_def)
  have "distinct (map fst cells)" unfolding m by (simp add: distinct_map inj_on_subset [OF inj subset_UNIV])
  moreover have "h x = None" if "x \<in> fst ` set cells" for x
    using that m free by (auto simp: list.set_map [symmetric])
  then have "(\<lambda>x. if x \<in> fst ` set cells then None else g x) = h"
    using frame by fastforce
  ultimately have "oshw_free_adapters r g = Some h" using free_adapters_linked [OF l] by simp
  then show ?thesis using l nm by (auto simp: oshw_find_adapters_def run)
qed

definition demo_allocator :: allocator where
  "demo_allocator = \<lparr>malloc_at = \<lambda>n. n + 1,
     junk_at = \<lambda>_. \<lparr>adapter_name = replicate 128 0xAA, adapter_desc = replicate 128 0xAA, adapter_next = 7\<rparr>\<rparr>"

theorem adapters_listed_and_freed_witness:
  "ret (oshw_find_adapters demo_allocator (Some [Some [0x6C, 0x6F], None, Some (replicate 200 0x78)]) (\<lambda>_. None) 0)
    (\<lambda>(adapter, g, k). (\<exists>cells. linked g adapter cells 0 \<and> names cells = [[0x6C, 0x6F], [], replicate 127 0x78])
      \<and> oshw_free_adapters adapter g = Some (\<lambda>_. None))"
proof -
  have "fresh_from demo_allocator (\<lambda>_. None) 0" by (simp add: fresh_from_def demo_allocator_def inj_def)
  from adapters_listed_and_freed [OF this, of "[Some [0x6C, 0x6F], None, Some (replicate 200 0x78)]"]
  show ?thesis by (simp add: shown_def)
qed


lemma oshw_ntohs_htons: "oshw_ntohs (oshw_htons w) = w"
  unfolding oshw_ntohs_def oshw_htons_def htons_def
  by (rule bit_word_eqI) (auto simp: bit_simps)

text \<open>The functions of \<open>ethercatmain.c\<close> the application calls.\<close>

definition ec_find_adapters ::
  "allocator \<Rightarrow> bytes option list option \<Rightarrow> adapter_heap \<Rightarrow> nat \<Rightarrow> (nat \<times> adapter_heap \<times> nat) option" where
  "ec_find_adapters al nameindex h n = oshw_find_adapters al nameindex h n"

definition ec_free_adapters :: "nat \<Rightarrow> adapter_heap \<Rightarrow> adapter_heap option" where
  "ec_free_adapters adapter h = oshw_free_adapters adapter h"

end
