(* ===== verification/Nic_Safety.thy ===== *)
theory Nic_Safety
  imports Nicdrv
begin

text \<open>
  Memory safety and termination of the driver. \<open>nic_inv\<close> is the well-formedness of a port and
  of the world it runs in; \<open>keeps p p'\<close> says that an operation left it true and did not touch what
  the callers rely on. Each operation returns (no access outside a buffer, no endless loop) and
  keeps the invariant.
\<close>

section \<open>The invariant\<close>

text \<open>
  The length field of a frame addresses a working counter inside the frame buffer. The driver
  does not check it (\<open>nicdrv.c:398\<close>, \<open>nicdrv.c:422\<close>), so it is a requirement on the bus.
\<close>

definition hdr_len :: "byte \<Rightarrow> byte \<Rightarrow> nat" where
  "hdr_len b0 b1 = unat b0 + unat (b1 AND 0x0f) * 256"

definition hdr_ok :: "bytes \<Rightarrow> bool" where
  "hdr_ok b \<longleftrightarrow> length b = EC_BUFSIZE \<and> hdr_len (b ! 0) (b ! 1) \<le> 1516"

definition temp_ok :: "bytes \<Rightarrow> bool" where
  "temp_ok b \<longleftrightarrow> length b = EC_BUFSIZE \<and> hdr_len (b ! 14) (b ! 15) \<le> 1516"

definition frame_ok :: "bytes \<Rightarrow> bool" where
  "frame_ok f \<longleftrightarrow> f = [] \<or> 16 \<le> length f \<and> hdr_len (f ! 14) (f ! 15) \<le> 1516"

definition bus_ok :: "osenv \<Rightarrow> bool" where
  "bus_ok e \<longleftrightarrow> clock_live e \<and> (\<forall>n. frame_ok (recv_at e n))"

definition side_ok :: "ec_rxside \<Rightarrow> bool" where
  "side_ok s \<longleftrightarrow> length (rxbuf s) = EC_MAXBUF \<and> (\<forall>b \<in> set (rxbuf s). hdr_ok b)
     \<and> length (rxbufstat s) = EC_MAXBUF \<and> length (rxsa s) = EC_MAXBUF \<and> temp_ok (tempinbuf s)"

definition sized :: "nat \<Rightarrow> bool" where
  "sized n \<longleftrightarrow> 28 \<le> n \<and> n \<le> EC_BUFSIZE"

definition tx_sized :: "nat list \<Rightarrow> ec_rxside \<Rightarrow> bool" where
  "tx_sized ls s \<longleftrightarrow> (\<forall>i < EC_MAXBUF. rxbufstat s ! i = EC_BUF_TX \<longrightarrow> sized (ls ! i))"

definition nic_inv :: "ecx_portt \<Rightarrow> bool" where
  "nic_inv p \<longleftrightarrow> side_ok (rx p) \<and> tx_sized (txbuflength p) (rx p)
     \<and> (\<forall>s. redport p = Some s \<longrightarrow> side_ok s \<and> tx_sized (txbuflength p) s)
     \<and> (redstate p \<noteq> ECT_RED_NONE \<longrightarrow> redport p \<noteq> None)
     \<and> length (txbuf p) = EC_MAXBUF \<and> (\<forall>b \<in> set (txbuf p). length b = EC_BUFSIZE)
     \<and> length (txbuflength p) = EC_MAXBUF \<and> (\<forall>n \<in> set (txbuflength p). n = 0 \<or> sized n)
     \<and> length (txbuf2 p) = EC_BUFSIZE \<and> txbuflength2 p \<le> EC_BUFSIZE
     \<and> unat (lastidx p) < EC_MAXBUF \<and> bus_ok (os p)"

definition keeps :: "ecx_portt \<Rightarrow> ecx_portt \<Rightarrow> bool" where
  "keeps p p' \<longleftrightarrow> nic_inv p' \<and> env_ext (os p) (os p') \<and> txbuflength p' = txbuflength p
     \<and> redstate p' = redstate p \<and> (redport p' = None \<longleftrightarrow> redport p = None)
     \<and> lastidx p' = lastidx p"

text \<open>Buffer \<open>idx\<close> holds a frame to exchange.\<close>

definition loaded :: "byte \<Rightarrow> ecx_portt \<Rightarrow> bool" where
  "loaded idx p \<longleftrightarrow> unat idx < EC_MAXBUF \<and> sized (txbuflength p ! unat idx)"

lemma keeps_refl [intro]: "nic_inv p \<Longrightarrow> keeps p p"
  by (simp add: keeps_def)

lemma keeps_trans [trans]: "keeps p q \<Longrightarrow> keeps q r \<Longrightarrow> keeps p r"
  by (auto simp: keeps_def intro: env_ext_trans)

lemma keeps_inv: "keeps p q \<Longrightarrow> nic_inv q"
  by (simp add: keeps_def)

lemma keeps_loaded: "keeps p q \<Longrightarrow> loaded idx q \<longleftrightarrow> loaded idx p"
  by (simp add: keeps_def loaded_def)

lemma bus_ok_ext: "env_ext e e' \<Longrightarrow> bus_ok e' \<longleftrightarrow> bus_ok e"
  by (auto simp: bus_ok_def env_ext_live) (auto simp: env_ext_def)

lemma bus_ok_live: "bus_ok e \<Longrightarrow> clock_live e"
  by (simp add: bus_ok_def)

text \<open>Changing only the kernel part of a port.\<close>

lemma keeps_os:
  "nic_inv p \<Longrightarrow> env_ext (os p) e \<Longrightarrow> keeps p (p\<lparr>os := e\<rparr>)"
  by (simp add: keeps_def nic_inv_def bus_ok_ext)

lemma keeps_os_temp:
  "nic_inv p \<Longrightarrow> env_ext (os p) e \<Longrightarrow> keeps p (p\<lparr>os := e, tempinbufs := n\<rparr>)"
  by (simp add: keeps_def nic_inv_def bus_ok_ext)

lemma timer_start_keeps:
  assumes "nic_inv p" shows "keeps p (snd (timer_start us p))"
proof -
  have "env_ext (os p) (snd (osal_timer_start (uint32_of us) (os p)))" by simp
  with assms show ?thesis
    by (auto simp: timer_start_def case_prod_unfold Let_def intro: keeps_os)
qed

lemma timer_expired_keeps:
  assumes "nic_inv p" shows "keeps p (snd (timer_expired t p))"
proof -
  have "env_ext (os p) (snd (osal_timer_is_expired t (os p)))" by simp
  with assms show ?thesis
    by (auto simp: timer_expired_def case_prod_unfold Let_def intro: keeps_os)
qed

lemma and_not_expired_keeps:
  "nic_inv p \<Longrightarrow> keeps p (snd (and_not_expired c t p))"
  using timer_expired_keeps by (auto simp: and_not_expired_def case_prod_unfold Let_def)

text \<open>A poll that goes on has used up a clock read.\<close>

definition fuel_left :: "osal_timert \<Rightarrow> ecx_portt \<Rightarrow> nat" where
  "fuel_left t p = reads_left t (os p)"

lemma fuel_keeps: "keeps p q \<Longrightarrow> fuel_left t q \<le> fuel_left t p"
  by (simp add: fuel_left_def keeps_def reads_left_mono)

lemma fuel_step:
  assumes "nic_inv p" and "fst (and_not_expired c t p)"
  shows "fuel_left t (snd (and_not_expired c t p)) < fuel_left t p"
proof -
  from assms(1) have "clock_live (os p)" by (simp add: nic_inv_def bus_ok_live)
  with assms(2) show ?thesis
    using reads_left_step [of "os p" t]
    by (auto simp: fuel_left_def and_not_expired_def timer_expired_def case_prod_unfold Let_def
        split: if_splits)
qed

section \<open>Receive sides\<close>

definition side_at :: "nat \<Rightarrow> ecx_portt \<Rightarrow> bool" where
  "side_at sn p \<longleftrightarrow> (sn = 0 \<or> redport p \<noteq> None)"

lemma stack_of_ok:
  assumes "nic_inv p" and "side_at sn p"
  obtains s where "stack_of sn p = Some s" "side_ok s" "tx_sized (txbuflength p) s"
  using assms by (cases "sn = 0") (auto simp: nic_inv_def side_at_def stack_of_def)

lemma set_stack_keeps:
  assumes "nic_inv p" and "side_at sn p" and "side_ok s" and "tx_sized (txbuflength p) s"
  shows "keeps p (set_stack sn s p)"
  using assms by (auto simp: keeps_def nic_inv_def side_at_def set_stack_def)

lemma keeps_side_at: "keeps p q \<Longrightarrow> side_at sn q \<longleftrightarrow> side_at sn p"
  by (simp add: keeps_def side_at_def)

lemma hdr_ok_length: "hdr_ok b \<Longrightarrow> length b = EC_BUFSIZE"
  by (simp add: hdr_ok_def)

lemma side_ok_nth:
  "side_ok s \<Longrightarrow> i < EC_MAXBUF \<Longrightarrow> hdr_ok (rxbuf s ! i)"
  by (auto simp: side_ok_def)

lemma side_ok_lengths:
  "side_ok s \<Longrightarrow> length (rxbuf s) = EC_MAXBUF \<and> length (rxbufstat s) = EC_MAXBUF
     \<and> length (rxsa s) = EC_MAXBUF \<and> length (tempinbuf s) = EC_BUFSIZE"
  by (simp add: side_ok_def temp_ok_def)

lemma tx_sized_update:
  "tx_sized ls s \<Longrightarrow> length (rxbufstat s) = EC_MAXBUF \<Longrightarrow> (v = EC_BUF_TX \<longrightarrow> sized (ls ! i)) \<Longrightarrow>
     tx_sized ls (s\<lparr>rxbufstat := (rxbufstat s)[i := v]\<rparr>)"
  unfolding tx_sized_def
  by simp (metis nth_list_update_eq nth_list_update_neq)

section \<open>Stepping rules\<close>

text \<open>
  Each rule passes one operation: it starts from a port that is kept since an origin \<open>p0\<close> and
  goes on with the port after it, again kept since \<open>p0\<close>.
\<close>

lemma keeps_since [elim]:
  "keeps p0 p \<Longrightarrow> (nic_inv p \<Longrightarrow> keeps p q) \<Longrightarrow> keeps p0 q"
  using keeps_trans keeps_inv by blast

lemma stack_stat_wp:
  assumes k: "keeps p0 p" and "side_at sn p0" and "unat idx < EC_MAXBUF"
    and "v = EC_BUF_TX \<longrightarrow> sized (txbuflength p0 ! unat idx)"
    and Q: "\<And>q. keeps p0 q \<Longrightarrow> Q q"
  shows "ret (stack_stat sn idx v p) Q"
proof -
  from k have inv: "nic_inv p" and len: "txbuflength p = txbuflength p0" by (simp_all add: keeps_def)
  have side: "side_at sn p" using k assms(2) by (simp add: keeps_side_at)
  obtain s where s: "stack_of sn p = Some s" "side_ok s" "tx_sized (txbuflength p) s"
    by (rule stack_of_ok [OF inv side])
  let ?s = "s\<lparr>rxbufstat := (rxbufstat s)[unat idx := v]\<rparr>"
  have "side_ok ?s" using s(2) by (simp add: side_ok_def)
  moreover have "tx_sized (txbuflength p) ?s"
    using s assms(4) len by (intro tx_sized_update) (simp_all add: side_ok_def)
  ultimately have "keeps p (set_stack sn ?s p)"
    using inv side by (intro set_stack_keeps)
  with k have "keeps p0 (set_stack sn ?s p)" by (rule keeps_trans)
  then show ?thesis
    using s assms(3) Q by (simp add: stack_stat_def side_ok_def)
qed

lemma timer_start_wp:
  assumes k: "keeps p0 p" and "\<And>t q. keeps p0 q \<Longrightarrow> Q t q"
  shows "case timer_start us p of (t, q) \<Rightarrow> Q t q"
  using assms timer_start_keeps [OF keeps_inv [OF k], of us]
  by (cases "timer_start us p") (auto intro: keeps_trans)

lemma sock_send_wp:
  assumes k: "keeps p0 p" and "\<And>r q. keeps p0 q \<Longrightarrow> Q r q"
  shows "case sock_send s d p of (r, q) \<Rightarrow> Q r q"
proof -
  have "env_ext (os p) (snd (os_send s d (os p)))" by simp
  then have "keeps p (snd (sock_send s d p))"
    using keeps_inv [OF k] by (auto simp: sock_send_def case_prod_unfold Let_def intro: keeps_os)
  with assms show ?thesis by (cases "sock_send s d p") (auto intro: keeps_trans)
qed

lemma stack_of_wp:
  assumes "keeps p0 p" and "side_at sn p0"
    and "\<And>s. side_ok s \<Longrightarrow> tx_sized (txbuflength p0) s \<Longrightarrow> stack_of sn p = Some s \<Longrightarrow> Q s"
  shows "ret (stack_of sn p) Q"
proof -
  have "nic_inv p" "side_at sn p" using assms by (simp_all add: keeps_inv keeps_side_at)
  then obtain s where "stack_of sn p = Some s" "side_ok s" "tx_sized (txbuflength p) s"
    by (rule stack_of_ok)
  with assms show ?thesis by (simp add: keeps_def)
qed

lemma keeps_sizes:
  assumes "keeps p0 p"
  shows "length (txbuf p) = EC_MAXBUF" "length (txbuflength p0) = EC_MAXBUF"
    "length (txbuf2 p) = EC_BUFSIZE" "txbuflength2 p \<le> EC_BUFSIZE" "txbuflength p = txbuflength p0"
    "i < EC_MAXBUF \<Longrightarrow> length (txbuf p ! i) = EC_BUFSIZE"
  using assms by (auto simp: keeps_def nic_inv_def)

lemma set_stack_wp:
  assumes "keeps p0 p" and "side_at sn p0" and "side_ok s" and "tx_sized (txbuflength p0) s"
  shows "keeps p0 (set_stack sn s p)"
proof -
  have "keeps p (set_stack sn s p)"
    using assms keeps_sizes(5) by (intro set_stack_keeps) (simp_all add: keeps_inv keeps_side_at)
  with assms(1) show ?thesis by (rule keeps_trans)
qed

lemma set_txbuf_wp:
  assumes k: "keeps p0 p" and "i < EC_MAXBUF" and "length b = EC_BUFSIZE"
  shows "keeps p0 (p\<lparr>txbuf := (txbuf p)[i := b]\<rparr>)"
proof -
  have "\<forall>c \<in> set ((txbuf p)[i := b]). length c = EC_BUFSIZE"
    using keeps_inv [OF k] assms(3) set_update_subset_insert [of "txbuf p" i b]
    by (auto simp: nic_inv_def)
  then have "keeps p (p\<lparr>txbuf := (txbuf p)[i := b]\<rparr>)"
    using keeps_inv [OF k] by (auto simp: keeps_def nic_inv_def)
  with k show ?thesis by (rule keeps_trans)
qed

lemma set_txbuf2_wp:
  assumes k: "keeps p0 p" and "length b = EC_BUFSIZE"
  shows "keeps p0 (p\<lparr>txbuf2 := b\<rparr>)"
proof -
  from keeps_inv [OF k] assms(2) have "keeps p (p\<lparr>txbuf2 := b\<rparr>)"
    by (auto simp: keeps_def nic_inv_def)
  with k show ?thesis by (rule keeps_trans)
qed

section \<open>Transmission\<close>

lemma loadedD: "loaded idx p \<Longrightarrow> unat idx < EC_MAXBUF"
  "loaded idx p \<Longrightarrow> 28 \<le> txbuflength p ! unat idx"
  "loaded idx p \<Longrightarrow> txbuflength p ! unat idx \<le> EC_BUFSIZE"
  "loaded idx p \<Longrightarrow> sized (txbuflength p ! unat idx)"
  by (simp_all add: loaded_def sized_def)

lemma ecx_outframe_wp:
  assumes k: "keeps p0 p" and side: "side_at sn p0" and ld: "loaded idx p0"
    and Q: "\<And>r q. keeps p0 q \<Longrightarrow> Q (r, q)"
  shows "ret (ecx_outframe idx sn p) Q"
  unfolding ecx_outframe_def
  apply (simp add: keeps_sizes [OF k] loadedD [OF ld] split del: if_split)
  apply (rule stack_stat_wp [OF k side])
    apply (use loadedD [OF ld] in simp_all)
  apply (frule keeps_sizes)
  apply (simp add: ret_mem_read keeps_sizes loadedD [OF ld])
  apply (rule stack_of_wp [OF _ side], assumption)
  apply (erule sock_send_wp)
  apply (auto intro: Q stack_stat_wp [OF _ side] loadedD [OF ld])
  done

lemma red_side: "keeps p0 q \<Longrightarrow> redstate q \<noteq> ECT_RED_NONE \<Longrightarrow> side_at 1 p0"
  by (auto simp: side_at_def keeps_def nic_inv_def)

lemma ecx_setbufstat_alt:
  "ecx_setbufstat idx v p =
     do { p \<leftarrow> stack_stat 0 idx v p;
          if redstate p \<noteq> ECT_RED_NONE then stack_stat 1 idx v p else Some p }"
  by (cases "redstate p = ECT_RED_NONE")
    (simp_all add: ecx_setbufstat_def stack_stat_def stack_of_def set_stack_def Let_def)

lemma ecx_setbufstat_wp:
  assumes k: "keeps p0 p" and i: "unat idx < EC_MAXBUF"
    and v: "v = EC_BUF_TX \<longrightarrow> sized (txbuflength p0 ! unat idx)"
    and Q: "\<And>q. keeps p0 q \<Longrightarrow> Q q"
  shows "ret (ecx_setbufstat idx v p) Q"
  unfolding ecx_setbufstat_alt ret_simps
  apply (rule stack_stat_wp [OF k _ i v])
   apply (simp add: side_at_def)
  apply (auto simp: ret_if v Q intro: stack_stat_wp [OF _ red_side i v])
  done

lemma put16_wp:
  assumes "off + 2 \<le> length b" and "\<And>c. length c = length b \<Longrightarrow> Q c"
  shows "ret (put16 b off w) Q"
  using assms by (auto simp: put16_def ret_mem_write)

lemma put8_wp:
  assumes "off < length b" and "\<And>c. length c = length b \<Longrightarrow> Q c"
  shows "ret (put8 b off w) Q"
  using assms by (auto simp: put8_def ret_mem_write)

lemma redport_wp:
  assumes "keeps p0 p" and "side_at 1 p0"
    and "\<And>s. side_ok s \<Longrightarrow> redport p = Some s \<Longrightarrow> Q s"
  shows "ret (redport p) Q"
  using assms by (auto simp: side_at_def keeps_def nic_inv_def ret_def)

lemma outframe_dummy_wp:
  assumes k: "keeps p0 p" and side: "side_at 1 p0" and ld: "loaded idx p0"
    and Q: "\<And>q. keeps p0 q \<Longrightarrow> Q q"
  shows "ret (outframe_dummy idx p) Q"
  unfolding outframe_dummy_def Let_def ret_simps
  apply (rule put8_wp, simp add: keeps_sizes [OF k])
  apply (rule put16_wp, simp add: keeps_sizes [OF k])
  subgoal premises len for b2 c2
    apply (rule stack_stat_wp [OF set_txbuf2_wp [OF k] side])
       apply (simp_all add: len keeps_sizes [OF k] loadedD [OF ld])
    apply (simp add: ret_mem_read len keeps_sizes [OF k] keeps_sizes(4))
    apply (rule redport_wp [OF _ side], assumption)
    apply (erule sock_send_wp)
    apply (auto simp: ret_if Q intro: stack_stat_wp [OF _ side] loadedD [OF ld])
    done
  done

lemma ecx_outframe_red_wp:
  assumes k: "keeps p0 p" and ld: "loaded idx p0"
    and Q: "\<And>r q. keeps p0 q \<Longrightarrow> Q (r, q)"
  shows "ret (ecx_outframe_red idx p) Q"
  unfolding ecx_outframe_red_def Let_def ret_simps ret_aget ret_aset
  apply (simp add: keeps_sizes [OF k] loadedD [OF ld])
  apply (rule put16_wp)
   apply (simp_all add: keeps_sizes [OF k] loadedD [OF ld])
  apply (rule ecx_outframe_wp [OF set_txbuf_wp [OF k] _ ld])
     apply (simp_all add: keeps_sizes [OF k] loadedD [OF ld] side_at_def [of 0])
  apply (auto simp: ret_if Q intro: outframe_dummy_wp [OF _ red_side ld])
  done

section \<open>Reception\<close>

lemma temp_ok_recv:
  assumes f: "frame_ok f" and t: "temp_ok t"
  shows "temp_ok (take EC_BUFSIZE f @ drop (length (take EC_BUFSIZE f)) t)"
proof (cases "f = []")
  case True
  with t show ?thesis by simp
next
  case False
  with f have "16 \<le> length f" and h: "hdr_len (f ! 14) (f ! 15) \<le> 1516"
    by (simp_all add: frame_ok_def)
  then have "(take EC_BUFSIZE f @ drop (length (take EC_BUFSIZE f)) t) ! i = f ! i" if "i < 16" for i
    using that by (simp add: nth_append)
  with h t show ?thesis by (simp add: temp_ok_def)
qed

lemma ecx_recvpkt_wp:
  assumes k: "keeps p0 p" and side: "side_at sn p0"
    and Q: "\<And>got q. keeps p0 q \<Longrightarrow> Q (got, q)"
  shows "ret (ecx_recvpkt sn p) Q"
  unfolding ecx_recvpkt_def ret_simps
proof (rule stack_of_wp [OF k side])
  fix s
  assume s: "side_ok s" "tx_sized (txbuflength p0) s" "stack_of sn p = Some s"
  let ?f = "take EC_BUFSIZE (recv_at (os p) (nrecv (os p)))"
  let ?t = "?f @ drop (length ?f) (tempinbuf s)"
  have "frame_ok (recv_at (os p) (nrecv (os p)))"
    using keeps_inv [OF k] by (simp add: nic_inv_def bus_ok_def)
  then have t: "temp_ok ?t"
    using s(1) unfolding side_ok_def by (intro temp_ok_recv) auto
  let ?q = "set_stack sn (s\<lparr>tempinbuf := ?t\<rparr>) p"
  have kq: "keeps p0 ?q"
    using s t by (intro set_stack_wp [OF k side]) (simp_all add: side_ok_def tx_sized_def)
  have "os ?q = os p" by (simp add: set_stack_def)
  then have "env_ext (os ?q) (snd (os_recv EC_BUFSIZE (os p)))" by simp
  with keeps_inv [OF kq] have "keeps ?q (?q\<lparr>os := snd (os_recv EC_BUFSIZE (os p)), tempinbufs := n\<rparr>)" for n
    by (rule keeps_os_temp)
  then have "keeps p0 (?q\<lparr>os := snd (os_recv EC_BUFSIZE (os p)), tempinbufs := n\<rparr>)" for n
    by (rule keeps_trans [OF kq])
  then show "ret (let (f, e) = os_recv EC_BUFSIZE (os p) in mem_write (tempinbuf s) 0 f \<bind>
      (\<lambda>t. let bytesrx = int (length f) in Some (bytesrx > 0,
           (set_stack sn (s\<lparr>tempinbuf := t\<rparr>) p)\<lparr>os := e, tempinbufs := bytesrx\<rparr>))) Q"
    using s(1) Q by (simp add: os_recv_def ret_mem_write Let_def side_ok_def temp_ok_def)
qed

lemma hdr_ok_copy:
  assumes "temp_ok t" and "hdr_ok b" and "sized n"
  shows "hdr_ok (take (n - 14) (drop 14 t) @ drop (n - 14) b)"
proof -
  let ?c = "take (n - 14) (drop 14 t) @ drop (n - 14) b"
  have n: "28 \<le> n" "n \<le> EC_BUFSIZE" using assms(3) by (simp_all add: sized_def)
  have len: "length t = EC_BUFSIZE" "length b = EC_BUFSIZE"
    using assms(1,2) by (simp_all add: temp_ok_def hdr_ok_def)
  have "?c ! i = t ! (14 + i)" if "i < 2" for i
  proof -
    from that n have "i < n - 14" by linarith
    with that len show ?thesis by (simp add: nth_append)
  qed
  from this [of 0] this [of 1] show ?thesis
    using assms(1) n len by (simp add: temp_ok_def hdr_ok_def)
qed

lemma side_ok_rxbuf:
  "side_ok s \<Longrightarrow> hdr_ok b \<Longrightarrow> side_ok (s\<lparr>rxbuf := (rxbuf s)[i := b]\<rparr>)"
  using set_update_subset_insert [of "rxbuf s" i b] by (auto simp: side_ok_def)

lemma side_ok_temp: "side_ok s \<Longrightarrow> temp_ok (tempinbuf s)"
  by (simp add: side_ok_def)

lemma store_rx_wp:
  assumes k: "keeps p0 p" and side: "side_at sn p0" and i: "i < EC_MAXBUF"
    and sz: "sized (txbuflength p0 ! i)"
    and Q: "\<And>b q. keeps p0 q \<Longrightarrow> length b = EC_BUFSIZE \<Longrightarrow> Q (b, q)"
  shows "ret (store_rx sn i p) Q"
  unfolding store_rx_def ret_simps
proof (rule stack_of_wp [OF k side])
  fix s
  assume s: "side_ok s" "tx_sized (txbuflength p0) s" "stack_of sn p = Some s"
  let ?n = "txbuflength p0 ! i"
  let ?b = "take (?n - 14) (drop 14 (tempinbuf s)) @ drop (?n - 14) (rxbuf s ! i)"
  have b: "hdr_ok ?b"
    using s(1) i sz by (intro hdr_ok_copy) (simp_all add: side_ok_temp side_ok_nth)
  then have "side_ok (s\<lparr>rxbuf := (rxbuf s)[i := ?b]\<rparr>)" by (rule side_ok_rxbuf [OF s(1)])
  then have kq: "keeps p0 (set_stack sn (s\<lparr>rxbuf := (rxbuf s)[i := ?b]\<rparr>) p)"
    using s(2) by (intro set_stack_wp [OF k side]) (simp_all add: tx_sized_def)
  have mn: "min 1504 (?n - 14) = ?n - 14" "?n - 14 \<le> 1518" using sz unfolding sized_def by arith+
  from Q [OF kq hdr_ok_length [OF b]]
  show "ret (aget (rxbuf s) i) (\<lambda>b. ret (aget (txbuflength p) i) (\<lambda>n. ret (if ETH_HEADERSIZE \<le> n
      then mem_read (tempinbuf s) ETH_HEADERSIZE (n - ETH_HEADERSIZE) else None) (\<lambda>d. ret (mem_write b 0 d)
      (\<lambda>b. ret (aset (rxbuf s) i b) (\<lambda>bs. Q (b, set_stack sn (s\<lparr>rxbuf := bs\<rparr>) p))))))"
    using side_ok_lengths [OF s(1)] hdr_ok_length [OF side_ok_nth [OF s(1) i]] i sz keeps_sizes [OF k]
    by (simp add: ret_mem_read ret_mem_write sized_def mn)
qed

lemma store_sa_wp:
  assumes k: "keeps p0 p" and side: "side_at sn p0" and i: "i < EC_MAXBUF"
    and Q: "\<And>q. keeps p0 q \<Longrightarrow> Q q"
  shows "ret (store_sa sn i p) Q"
  unfolding store_sa_def ret_simps
  apply (rule stack_of_wp [OF k side])
  subgoal premises s for s
    using side_ok_lengths [OF s(1)] s(1,2) i
    by (auto simp: side_ok_def tx_sized_def intro!: Q set_stack_wp [OF k side])
  done

lemma wkc_at_wp:
  assumes "Suc l < length b" and "\<And>w. 0 \<le> w \<Longrightarrow> w < 65536 \<Longrightarrow> Q w"
  shows "ret (wkc_at b l) Q"
proof -
  have "uint (b ! l) < 256" "uint (b ! (l + 1)) < 256"
    using uint_lt2p [where 'a = 8] by simp_all
  then show ?thesis
    using assms by (simp add: wkc_at_def One_nat_def)
qed

lemma inframe_buffered_wp:
  assumes k: "keeps p0 p" and side: "side_at sn p0" and i: "unat idx < EC_MAXBUF"
    and Q: "\<And>r q. keeps p0 q \<Longrightarrow> 0 \<le> r \<Longrightarrow> Q (r, q)"
  shows "ret (inframe_buffered sn idx p) Q"
  unfolding inframe_buffered_def ret_simps
  apply (rule stack_of_wp [OF k side])
  subgoal premises s for s
  proof -
    have h: "length (rxbuf s ! unat idx) = EC_BUFSIZE"
      "hdr_len (rxbuf s ! unat idx ! 0) (rxbuf s ! unat idx ! 1) \<le> 1516"
      using side_ok_nth [OF s(1) i] by (simp_all add: hdr_ok_def)
    show ?thesis
      using side_ok_lengths [OF s(1)] i h
      by (auto simp: hdr_len_def intro!: wkc_at_wp stack_stat_wp [OF k side i] Q)
  qed
  done

text \<open>The 12-bit length field of a header, read as a word and as two bytes.\<close>

lemma len_field:
  "unat (le_word [a, b] AND 0x0fff :: u16) = hdr_len a b"
proof -
  have a: "unat a < 256" using unsigned_less [of a] by simp
  have "unat a + 256 * unat b = (unat a + unat b mod 16 * 256) + 4096 * (unat b div 16)"
    using div_mult_mod_eq [of "unat b" 16] by linarith
  then have "(unat a + 256 * unat b) mod 4096 = (unat a + unat b mod 16 * 256) mod 4096"
    by (metis mod_mult_self2)
  also have "\<dots> = unat a + unat b mod 16 * 256"
  proof (rule mod_less)
    have "unat b mod 16 < 16" by simp
    with a show "unat a + unat b mod 16 * 256 < 4096" by linarith
  qed
  finally show ?thesis by (simp add: le_word_2 unat_pair unat_and_low hdr_len_def)
qed

lemma temp_len_index:
  assumes "temp_ok t"
  shows "unat (le_word (take 2 (drop 14 t)) AND 0x0fff :: u16) \<le> 1516"
  using assms by (simp add: take_2_drop len_field temp_ok_def)

lemma inframe_ecat_wp:
  assumes k: "keeps p0 p" and side: "side_at sn p0" and ld: "loaded idx p0"
    and Q: "\<And>r q. keeps p0 q \<Longrightarrow> Q (r, q)"
  shows "ret (inframe_ecat sn idx p) Q"
  unfolding inframe_ecat_def ret_simps
proof (rule stack_of_wp [OF k side], goal_cases)
  case (1 s)
  let ?l = "unat (le_word (take 2 (drop 14 (tempinbuf s))) AND 0x0fff :: u16)"
  have len: "length (tempinbuf s) = EC_BUFSIZE" "length (rxbufstat s) = EC_MAXBUF"
    using side_ok_lengths [OF 1(1)] by simp_all
  have l: "?l \<le> 1516" by (rule temp_len_index [OF side_ok_temp [OF 1(1)]])
  have hit: "ret (store_rx sn (unat idx) p) (\<lambda>(b, q). ret (wkc_at b ?l) (\<lambda>w.
      ret (stack_stat sn idx EC_BUF_COMPLETE q) (\<lambda>q. ret (store_sa sn (unat idx) q) (\<lambda>q. Q (w, q)))))"
    using l by (auto intro!: store_rx_wp [OF k side] wkc_at_wp stack_stat_wp [OF _ side]
        store_sa_wp [OF _ side] Q loadedD [OF ld])
  have other: "ret (store_rx sn (unat i) p) (\<lambda>(b, q). ret (stack_stat sn i EC_BUF_RCVD q)
      (\<lambda>q. ret (store_sa sn (unat i) q) (\<lambda>q. Q (EC_OTHERFRAME, q))))"
    if "unat i < EC_MAXBUF" "rxbufstat s ! unat i = EC_BUF_TX" for i
  proof -
    have "sized (txbuflength p0 ! unat i)" using 1(2) that by (simp add: tx_sized_def)
    with that show ?thesis
      by (auto intro!: store_rx_wp [OF k side] stack_stat_wp [OF _ side] store_sa_wp [OF _ side] Q)
  qed
  show ?case
    using hit other len Q [OF k] by (auto simp: Let_def ret_if case_prod_unfold)
qed

lemma ecx_inframe_wp:
  assumes k: "keeps p0 p" and side: "side_at sn p0" and ld: "loaded idx p0"
    and Q: "\<And>r q. keeps p0 q \<Longrightarrow> Q (r, q)"
  shows "ret (ecx_inframe idx sn p) Q"
proof -
  have new: "ret (ecx_recvpkt sn p) (\<lambda>(got, p).
      ret (if got then do { s \<leftarrow> stack_of sn p; etype \<leftarrow> get16 (tempinbuf s) OFF_etype;
         (if etype = htons ETH_P_ECAT then inframe_ecat sn idx p else Some (EC_OTHERFRAME, p)) }
       else Some (EC_NOFRAME, p)) Q)"
    apply (rule ecx_recvpkt_wp [OF k side])
    apply (auto intro!: stack_of_wp [OF _ side] inframe_ecat_wp [OF _ side ld] Q)
    apply (simp_all add: side_ok_lengths)
    done
  show ?thesis
    unfolding ecx_inframe_def ret_simps
    by (rule stack_of_wp [OF k side])
      (use new Q loadedD [OF ld] in \<open>auto simp: ret_if intro!: inframe_buffered_wp [OF k side]\<close>)
qed

section \<open>Waiting and confirming\<close>

lemma copy_rx_wp:
  assumes "hdr_ok src" and "hdr_ok dst" and "sized n"
  shows "hdr_ok (take (n - 14) src @ drop (n - 14) dst)"
proof -
  have "2 \<le> n - 14" using assms(3) unfolding sized_def by arith
  then show ?thesis
    using assms by (auto simp: hdr_ok_def sized_def nth_append)
qed

lemma copy_red_rx_wp:
  assumes k: "keeps p0 p" and side: "side_at 1 p0" and i: "i < EC_MAXBUF"
    and sz: "sized (txbuflength p0 ! i)" and Q: "\<And>q. keeps p0 q \<Longrightarrow> Q q"
  shows "ret (copy_red_rx i p) Q"
  unfolding copy_red_rx_def ret_simps
proof (rule redport_wp [OF k side], goal_cases)
  case (1 s)
  let ?n = "txbuflength p0 ! i"
  have n: "14 \<le> ?n" "min 1518 (?n - 14) = ?n - 14" "?n - 14 \<le> 1518"
    using sz unfolding sized_def by arith+
  have r: "stack_of 0 p = Some (rx p)" "side_ok (rx p)" "tx_sized (txbuflength p0) (rx p)"
    using keeps_inv [OF k] keeps_sizes(5) [OF k] by (auto simp: stack_of_def nic_inv_def)
  let ?b = "take (?n - 14) (rxbuf s ! i) @ drop (?n - 14) (rxbuf (rx p) ! i)"
  have h: "hdr_ok (rxbuf s ! i)" "hdr_ok (rxbuf (rx p) ! i)"
    using i by (simp_all add: side_ok_nth [OF 1(1)] side_ok_nth [OF r(2)])
  have "keeps p0 (set_stack 0 ((rx p)\<lparr>rxbuf := (rxbuf (rx p))[i := ?b]\<rparr>) p)"
    using r h sz by (intro set_stack_wp [OF k] side_ok_rxbuf copy_rx_wp)
      (simp_all add: side_at_def tx_sized_def)
  then have "Q (p\<lparr>rx := (rx p)\<lparr>rxbuf := (rxbuf (rx p))[i := ?b]\<rparr>\<rparr>)"
    by (intro Q) (simp add: set_stack_def)
  then show ?case
    using side_ok_lengths [OF 1(1)] side_ok_lengths [OF r(2)] h [THEN hdr_ok_length] i n
      keeps_sizes [OF k]
    by (simp add: ret_mem_read ret_mem_write)
qed

lemma copy_rx_tx_wp:
  assumes k: "keeps p0 p" and i: "i < EC_MAXBUF"
    and sz: "sized (txbuflength p0 ! i)" and Q: "\<And>q. keeps p0 q \<Longrightarrow> Q q"
  shows "ret (copy_rx_tx i p) Q"
proof -
  let ?n = "txbuflength p0 ! i"
  have n: "14 \<le> ?n" "min 1518 (?n - 14) = ?n - 14" "?n - 14 \<le> 1518" "?n \<le> 1518"
    using sz unfolding sized_def by arith+
  have r: "side_ok (rx p)" using keeps_inv [OF k] by (simp add: nic_inv_def)
  have len: "length (rxbuf (rx p) ! i) = 1518" by (rule hdr_ok_length [OF side_ok_nth [OF r i]])
  let ?b = "take 14 (txbuf p ! i) @ take (?n - 14) (rxbuf (rx p) ! i) @ drop ?n (txbuf p ! i)"
  have "keeps p0 (p\<lparr>txbuf := (txbuf p)[i := ?b]\<rparr>)"
    using n len keeps_sizes [OF k] i by (intro set_txbuf_wp [OF k]) simp_all
  then show ?thesis
    using side_ok_lengths [OF r] len i n Q keeps_sizes [OF k]
    by (simp add: copy_rx_tx_def ret_mem_read ret_mem_write)
qed

lemma and_not_expired_split:
  assumes k: "keeps p0 p"
    and "\<And>b q. keeps p0 q \<Longrightarrow> (b \<Longrightarrow> fuel_left t q < fuel_left t p) \<Longrightarrow> (b \<Longrightarrow> c) \<Longrightarrow> Q b q"
  shows "case and_not_expired c t p of (b, q) \<Rightarrow> Q b q"
proof -
  have inv: "nic_inv p" using k by (rule keeps_inv)
  obtain b q where e: "and_not_expired c t p = (b, q)" by force
  then have "keeps p q" using and_not_expired_keeps [OF inv, of c t] by simp
  moreover have "b \<Longrightarrow> fuel_left t q < fuel_left t p"
    using fuel_step [OF inv, of c t] e by simp
  moreover have "b \<Longrightarrow> c" using e by (auto simp: and_not_expired_def split: if_splits)
  ultimately show ?thesis
    using assms(2) keeps_trans [OF k] by (simp add: e)
qed

lemma poll_wp:
  fixes x :: 'x
  assumes k: "keeps p0 p"
    and body: "\<And>x p. keeps p0 p \<Longrightarrow> ret (body (x, p)) (\<lambda>(y, q). keeps p q)"
    and Q: "\<And>y q. keeps p0 q \<Longrightarrow> Q (y, q)"
  shows "ret (poll t c body (x, p)) Q"
  unfolding poll_def
proof (rule do_while_ret [where I = "\<lambda>s. keeps p0 (snd s)" and m = "\<lambda>s. fuel_left t (snd s)"])
  fix s :: "'x \<times> ecx_portt"
  assume "keeps p0 (snd s)"
  then obtain x p where s: "s = (x, p)" and kp: "keeps p0 p" by (cases s) auto
  have "case and_not_expired (c y) t q of (b, r) \<Rightarrow>
      (if b then keeps p0 r \<and> fuel_left t r < fuel_left t p else Q (y, r))"
    if q: "keeps p q" for y q
    by (rule and_not_expired_split [OF q])
      (use fuel_keeps [OF q, of t] keeps_trans [OF kp] Q in fastforce)
  with body [OF kp, of x]
  show "ret (body s) (\<lambda>s1. ret (case s1 of (x, p) \<Rightarrow> let (b, p) = and_not_expired (c x) t p in Some (b, x, p))
      (\<lambda>(b, s'). if b then keeps p0 (snd s') \<and> fuel_left t (snd s') < fuel_left t (snd s) else Q s'))"
    unfolding s by (elim ret_conseq) (auto simp: case_prod_unfold Let_def)
qed (use k in simp)

lemmas keeps_from = keeps_inv [THEN keeps_refl]

lemma resend_poll_wp:
  assumes k: "keeps p0 p" and side: "side_at 1 p0" and ld: "loaded idx p0"
    and Q: "\<And>x q. keeps p0 q \<Longrightarrow> Q (x, q)"
  shows "ret (resend_poll idx t (w, p)) Q"
  unfolding resend_poll_def
proof (rule poll_wp [OF k], goal_cases)
  case (1 x p)
  then have p: "keeps p p" "side_at 1 p" "loaded idx p"
    using side ld by (simp_all add: keeps_from keeps_side_at keeps_loaded)
  show ?case by (auto intro: ecx_inframe_wp [OF p])
qed (rule Q)

lemma waitinframe_poll_wp:
  assumes k: "keeps p0 p" and ld: "loaded idx p0"
    and Q: "\<And>w w2 q. keeps p0 q \<Longrightarrow> Q ((w, w2), q)"
  shows "ret (waitinframe_poll idx t (ws, p)) Q"
  unfolding waitinframe_poll_def
proof (rule poll_wp [OF k], goal_cases)
  case (1 x p)
  obtain w w2 where x: "x = (w, w2)" by (cases x)
  have p: "keeps p p" "loaded idx p" using 1 ld by (simp_all add: keeps_from keeps_loaded)
  then show ?case
    unfolding x
    by (auto simp: ret_if side_at_def [of 0] intro!: ecx_inframe_wp [OF _ _ p(2)] intro: red_side)
next
  case (2 y q)
  then show ?case by (cases y) (simp add: Q)
qed

lemma route_of_wp:
  assumes "side_ok s" and "i < EC_MAXBUF" and "\<And>r. Q r"
  shows "ret (route_of w i s) Q"
  using assms by (simp add: route_of_def side_ok_lengths)

lemma inv_rx: "keeps p0 p \<Longrightarrow> side_ok (rx p)"
  by (simp add: keeps_def nic_inv_def)

lemma inv_rx_sized: "keeps p0 p \<Longrightarrow> tx_sized (txbuflength p0) (rx p)"
  using keeps_inv keeps_sizes(5) by (metis nic_inv_def)

lemma waitinframe_resend_wp:
  assumes k: "keeps p0 p" and side: "side_at 1 p0" and ld: "loaded idx p0"
    and Q: "\<And>r q. keeps p0 q \<Longrightarrow> Q (r, q)"
  shows "ret (waitinframe_resend idx a w w2 p) Q"
proof -
  note i = loadedD(1) [OF ld] and sz = loadedD(4) [OF ld]
  have "ret (if a = RX_PRIM then copy_rx_tx (unat idx) p else Some p) (keeps p0)"
    by (auto simp: k intro: copy_rx_tx_wp [OF k i sz])
  then show ?thesis
    unfolding waitinframe_resend_def
    apply (simp split del: if_split)
    apply (erule ret_conseq)
    apply (erule timer_start_wp)
    apply (rule ecx_outframe_wp [OF _ side ld], assumption)
    apply (auto intro!: resend_poll_wp [OF _ side ld] copy_red_rx_wp [OF _ side i sz] Q)
    done
qed

lemma waitinframe_route_wp:
  assumes k: "keeps p0 p" and side: "side_at 1 p0" and ld: "loaded idx p0"
    and Q: "\<And>r q. keeps p0 q \<Longrightarrow> Q (r, q)"
  shows "ret (waitinframe_route idx w w2 p) Q"
proof -
  note i = loadedD(1) [OF ld] and sz = loadedD(4) [OF ld]
  show ?thesis
    unfolding waitinframe_route_def
    apply simp
    apply (rule redport_wp [OF k side])
    apply (rule route_of_wp [OF inv_rx [OF k] i])
    apply (rule route_of_wp [OF _ i], assumption)
    apply (auto simp: ret_if k Q intro!: copy_red_rx_wp [OF k side i sz] waitinframe_resend_wp [OF _ side ld])
    done
qed

lemma ecx_waitinframe_red_wp:
  assumes k: "keeps p0 p" and ld: "loaded idx p0"
    and Q: "\<And>r q. keeps p0 q \<Longrightarrow> Q (r, q)"
  shows "ret (ecx_waitinframe_red idx timer p) Q"
  unfolding ecx_waitinframe_red_def ret_simps
  apply (rule waitinframe_poll_wp [OF k ld])
  apply (auto intro!: Q intro: waitinframe_route_wp [OF _ red_side ld])
  done

lemma ecx_waitinframe_wp:
  assumes k: "keeps p0 p" and ld: "loaded idx p0"
    and Q: "\<And>r q. keeps p0 q \<Longrightarrow> Q (r, q)"
  shows "ret (ecx_waitinframe idx timeout p) Q"
  unfolding ecx_waitinframe_def Let_def ret_simps ret_case_prod
  by (rule timer_start_wp [OF k]) (rule ecx_waitinframe_red_wp [OF _ ld], assumption, rule Q)

lemma srconfirm_try_wp:
  assumes k: "keeps p0 p" and ld: "loaded idx p0"
    and Q: "\<And>r q. keeps p0 q \<Longrightarrow> Q (r, q)"
  shows "ret (srconfirm_try idx timeout p) Q"
  unfolding srconfirm_try_def Let_def ret_simps
  apply (rule ecx_outframe_red_wp [OF k ld])
  apply (simp split del: if_split)
  apply (erule timer_start_wp)
  apply (rule ecx_waitinframe_red_wp [OF _ ld], assumption, rule Q)
   apply assumption+
  done

lemma ecx_srconfirm_wp:
  assumes k: "keeps p0 p" and ld: "loaded idx p0"
    and Q: "\<And>r q. keeps p0 q \<Longrightarrow> Q (r, q)"
  shows "ret (ecx_srconfirm idx timeout p) Q"
  unfolding ecx_srconfirm_def Let_def ret_simps ret_case_prod
proof (rule timer_start_wp [OF k])
  fix t q
  assume q: "keeps p0 q"
  show "ret (poll t (\<lambda>wkc. wkc \<le> EC_NOFRAME) (\<lambda>(wkc, p). srconfirm_try idx timeout p) (EC_NOFRAME, q)) Q"
  proof (rule poll_wp [OF q], goal_cases)
    case (1 x p)
    then have p: "keeps p p" "loaded idx p" using ld by (simp_all add: keeps_from keeps_loaded)
    show ?case by (auto intro: srconfirm_try_wp [OF p])
  qed (rule Q)
qed

end
