(* ===== verification/Index_Pool.thy ===== *)
theory Index_Pool
  imports Nic_Safety
begin

text \<open>
  The pool of sixteen frame indices: \<open>ecx_getindex\<close> hands one out, \<open>ecx_setbufstat\<close> with
  \<open>EC_BUF_EMPTY\<close> takes it back. The contract is a locale over any acquire and release; the
  clients' facts are proved from it and hold for the driver by interpretation.
\<close>

section \<open>The contract\<close>

text \<open>Acquiring several indices in a row, as a process data frame split in datagrams does.\<close>

primrec acquire_many :: "('p \<Rightarrow> (byte \<times> 'p) option) \<Rightarrow> nat \<Rightarrow> 'p \<Rightarrow> (byte list \<times> 'p) option" where
  "acquire_many acquire 0 p = Some ([], p)"
| "acquire_many acquire (Suc n) p =
     do { (i, p) \<leftarrow> acquire p; (is, p) \<leftarrow> acquire_many acquire n p; Some (i # is, p) }"

locale index_pool =
  fixes acquire :: "'p \<Rightarrow> (byte \<times> 'p) option"
    and release :: "byte \<Rightarrow> 'p \<Rightarrow> 'p option"
    and busy :: "'p \<Rightarrow> byte set"
    and good :: "'p \<Rightarrow> bool"
  assumes busy_range: "good p \<Longrightarrow> i \<in> busy p \<Longrightarrow> unat i < EC_MAXBUF"
    and acquire_law: "good p \<Longrightarrow> card (busy p) < EC_MAXBUF \<Longrightarrow>
      \<exists>i q. acquire p = Some (i, q) \<and> unat i < EC_MAXBUF \<and> i \<notin> busy p
        \<and> busy q = insert i (busy p) \<and> good q"
    and release_law: "good p \<Longrightarrow> unat i < EC_MAXBUF \<Longrightarrow>
      \<exists>q. release i p = Some q \<and> busy q = busy p - {i} \<and> good q"
begin

lemma busy_finite: "good p \<Longrightarrow> finite (busy p)"
  by simp

lemma acquire_many_distinct:
  assumes "good p" and "card (busy p) + n \<le> EC_MAXBUF"
  shows "\<exists>is q. acquire_many acquire n p = Some (is, q) \<and> good q \<and> length is = n \<and> distinct is
           \<and> set is \<inter> busy p = {} \<and> busy q = set is \<union> busy p"
  using assms
proof (induction n arbitrary: p)
  case 0
  then show ?case by simp
next
  case (Suc n)
  from Suc.prems have "card (busy p) < EC_MAXBUF" by simp
  with Suc.prems(1) acquire_law obtain i q where
    a: "acquire p = Some (i, q)" "i \<notin> busy p" "busy q = insert i (busy p)" "good q" by blast
  then have "card (busy q) + n \<le> EC_MAXBUF"
    using Suc.prems busy_finite by simp
  with Suc.IH a(4) obtain "is" r where
    "acquire_many acquire n q = Some (is, r)" "good r" "length is = n" "distinct is"
    "set is \<inter> busy q = {}" "busy r = set is \<union> busy q" by blast
  with a show ?case by auto
qed

lemma acquire_release:
  assumes "good p" and "card (busy p) < EC_MAXBUF"
  shows "\<exists>i q r. acquire p = Some (i, q) \<and> release i q = Some r \<and> good r \<and> busy r = busy p"
proof -
  from acquire_law [OF assms] obtain i q where
    a: "acquire p = Some (i, q)" "unat i < EC_MAXBUF" "i \<notin> busy p" "busy q = insert i (busy p)" "good q"
    by blast
  moreover from release_law [OF a(5,2)] obtain r where "release i q = Some r"
    "busy r = busy q - {i}" "good r" by blast
  ultimately show ?thesis by auto
qed

end

section \<open>The driver's pool\<close>

definition busy_indices :: "ecx_portt \<Rightarrow> byte set" where
  "busy_indices p = {i. unat i < EC_MAXBUF \<and> rxbufstat (rx p) ! unat i \<noteq> EC_BUF_EMPTY}"

lemma next_idx_unat:
  assumes "unat i < 16"
  shows "unat (next_idx i) = (unat i + 1) mod 16"
proof (cases "unat i = 15")
  case True
  then show ?thesis by (simp add: next_idx_def unat_word_ariths word_le_nat_alt)
next
  case False
  with assms have "unat (i + 1) = unat i + 1" by (simp add: unat_word_ariths)
  with False assms show ?thesis by (simp add: next_idx_def word_le_nat_alt)
qed

text \<open>The scan visits the slots after \<open>i\<close> in circular order and stops at the first free one.\<close>

lemma getindex_scan_spec:
  assumes "length st = EC_MAXBUF" and "unat i < EC_MAXBUF"
  shows "ret (getindex_scan st n i) (\<lambda>r. unat r < EC_MAXBUF \<and>
    ((\<exists>k < n. st ! ((unat i + k) mod 16) = EC_BUF_EMPTY) \<longrightarrow> st ! unat r = EC_BUF_EMPTY) \<and>
    ((\<forall>k < n. st ! ((unat i + k) mod 16) \<noteq> EC_BUF_EMPTY) \<longrightarrow> unat r = (unat i + n) mod 16))"
  using assms(2)
proof (induction n arbitrary: i)
  case 0
  then show ?case by simp
next
  case (Suc n)
  show ?case
  proof (cases "st ! unat i = EC_BUF_EMPTY")
    case True
    then show ?thesis
      using assms(1) Suc.prems by (auto simp: Suc_le_eq)
  next
    case False
    have nx: "unat (next_idx i) = (unat i + 1) mod 16" "unat (next_idx i) < 16"
      using Suc.prems next_idx_unat by simp_all
    have "(unat (next_idx i) + k) mod 16 = (unat i + Suc k) mod 16" for k
      using nx by (simp add: mod_add_left_eq One_nat_def)
    with Suc.IH [OF nx(2)] have IH: "ret (getindex_scan st n (next_idx i)) (\<lambda>r. unat r < EC_MAXBUF \<and>
      ((\<exists>k < n. st ! ((unat i + Suc k) mod 16) = EC_BUF_EMPTY) \<longrightarrow> st ! unat r = EC_BUF_EMPTY) \<and>
      ((\<forall>k < n. st ! ((unat i + Suc k) mod 16) \<noteq> EC_BUF_EMPTY) \<longrightarrow> unat r = (unat i + Suc n) mod 16))"
      by simp
    show ?thesis
      using assms(1) Suc.prems False
      by (auto simp: less_Suc_eq_0_disj
          intro!: ret_conseq [OF IH])
  qed
qed

lemma card_idx: "card {i :: byte. unat i < EC_MAXBUF} = EC_MAXBUF"
proof -
  have "{i :: byte. unat i < 16} = of_nat ` {..<16}"
  proof (intro equalityI subsetI)
    fix i :: byte
    assume "i \<in> {i. unat i < 16}"
    then have "i = of_nat (unat i)" "unat i \<in> {..<16}" by simp_all
    then show "i \<in> of_nat ` {..<16}" by blast
  qed (auto simp: unat_of_nat)
  moreover have "inj_on (of_nat :: nat \<Rightarrow> byte) {..<16}"
  proof (rule inj_onI)
    fix x y :: nat
    assume lt: "x \<in> {..<16}" "y \<in> {..<16}" and e: "(of_nat x :: byte) = of_nat y"
    from lt have "unat (of_nat x :: byte) = x" "unat (of_nat y :: byte) = y"
      by (simp_all add: unat_of_nat)
    with e show "x = y" by argo
  qed
  ultimately show ?thesis by (simp add: card_image)
qed

lemma par_option: "par m Q \<longleftrightarrow> (case m of None \<Rightarrow> True | Some x \<Rightarrow> Q x)"
  by (simp add: par_def split: option.splits)

lemma stat_setbufstat:
  "par (ecx_setbufstat i v p) (\<lambda>q. rxbufstat (rx q) = (rxbufstat (rx p))[unat i := v])"
  by (auto simp: ecx_setbufstat_def Let_def ret_if par_aset)

lemma busy_index_update:
  assumes "length (rxbufstat (rx p)) = EC_MAXBUF" and "unat i < EC_MAXBUF"
    and "rxbufstat (rx q) = (rxbufstat (rx p))[unat i := v]"
  shows "busy_indices q = (if v = EC_BUF_EMPTY then busy_indices p - {i} else insert i (busy_indices p))"
  using assms by (auto simp: busy_indices_def nth_list_update dest: unsigned_word_eqI split: if_splits)

lemma getindex_ok:
  assumes inv: "nic_inv p" and free: "card (busy_indices p) < EC_MAXBUF"
  shows "ret (ecx_getindex p) (\<lambda>(i, q). unat i < EC_MAXBUF \<and> i \<notin> busy_indices p
           \<and> busy_indices q = insert i (busy_indices p) \<and> nic_inv q)"
proof -
  let ?st = "rxbufstat (rx p)"
  let ?i = "next_idx (lastidx p)"
  have st: "length ?st = EC_MAXBUF" and li: "unat (lastidx p) < EC_MAXBUF"
    using inv by (simp_all add: nic_inv_def side_ok_def)
  have ni: "unat ?i < EC_MAXBUF" using next_idx_unat [OF li] by simp
  have "\<exists>j < EC_MAXBUF. ?st ! j = EC_BUF_EMPTY"
  proof (rule ccontr)
    assume "\<not> ?thesis"
    then have "busy_indices p = {i. unat i < EC_MAXBUF}" by (auto simp: busy_indices_def)
    with free card_idx show False by simp
  qed
  then obtain j where j: "j < EC_MAXBUF" "?st ! j = EC_BUF_EMPTY" by blast
  have "\<exists>k < 16. (unat ?i + k) mod 16 = j"
    using ni j(1) by (intro exI [of _ "(16 + j - unat ?i) mod 16"]) (simp add: mod_add_right_eq)
  with j(2) have ex: "\<exists>k < 16. ?st ! ((unat ?i + k) mod 16) = EC_BUF_EMPTY" by blast
  show ?thesis
    unfolding ecx_getindex_def ret_simps
  proof (rule ret_conseq [OF getindex_scan_spec [OF st ni]], goal_cases)
    case (1 r)
    with ex have r: "unat r < EC_MAXBUF" "?st ! unat r = EC_BUF_EMPTY" by auto
    have "ret (ecx_setbufstat r EC_BUF_ALLOC p) (keeps p)"
      by (rule ecx_setbufstat_wp [of p]) (use inv r in auto)
    from ret_par [OF this stat_setbufstat] show ?case
    proof (rule ret_conseq, goal_cases)
      case (1 q)
      then have "busy_indices q = insert r (busy_indices p)"
        using busy_index_update [OF st r(1)] by simp
      moreover from 1 have "nic_inv q" by (simp add: keeps_def)
      then have "nic_inv (q\<lparr>lastidx := r\<rparr>)" using r(1) by (simp add: nic_inv_def)
      moreover have "busy_indices (q\<lparr>lastidx := r\<rparr>) = busy_indices q"
        by (simp add: busy_indices_def)
      moreover have "r \<notin> busy_indices p" using r(2) by (simp add: busy_indices_def)
      ultimately show ?case using r(1) by simp
    qed
  qed
qed

interpretation ip: index_pool ecx_getindex "\<lambda>i. ecx_setbufstat i EC_BUF_EMPTY" busy_indices nic_inv
proof
  fix p i
  assume "nic_inv p" "i \<in> busy_indices p"
  then show "unat i < EC_MAXBUF" by (simp add: busy_indices_def)
next
  fix p
  assume "nic_inv p" "card (busy_indices p) < EC_MAXBUF"
  then show "\<exists>i q. ecx_getindex p = Some (i, q) \<and> unat i < EC_MAXBUF \<and> i \<notin> busy_indices p
        \<and> busy_indices q = insert i (busy_indices p) \<and> nic_inv q"
    using getindex_ok [of p] by (auto simp: ret_def)
next
  fix p and i :: byte
  assume inv: "nic_inv p" and i: "unat i < EC_MAXBUF"
  have "ret (ecx_setbufstat i EC_BUF_EMPTY p) (keeps p)"
    by (rule ecx_setbufstat_wp [of p]) (use inv i in auto)
  from ret_par [OF this stat_setbufstat]
  show "\<exists>q. ecx_setbufstat i EC_BUF_EMPTY p = Some q \<and> busy_indices q = busy_indices p - {i} \<and> nic_inv q"
    using busy_index_update [of p i _ EC_BUF_EMPTY] inv i
    by (auto simp: ret_def keeps_def nic_inv_def side_ok_def)
qed

end
