(* ===== verification/Nic_Props.thy ===== *)
theory Nic_Props
  imports Index_Pool
begin

text \<open>
  What the driver does: set-up gives a well-formed port, indices handed out are distinct, frames
  go out as they were built, a received frame reaches the buffer of its index in whatever order
  frames arrive, and a confirmed exchange ends with a reply or an expired timer.
\<close>

section \<open>Set-up\<close>

text \<open>The zeroed memory of a port before \<open>ecx_setupnic\<close>.\<close>

definition zero_side :: ec_rxside where
  "zero_side = \<lparr>sockhandle = 0, rxbuf = replicate 16 (replicate 1518 0),
     rxbufstat = replicate 16 EC_BUF_EMPTY, rxsa = replicate 16 0, tempinbuf = replicate 1518 0\<rparr>"

definition zero_port :: "bool \<Rightarrow> osenv \<Rightarrow> ecx_portt" where
  "zero_port red e = \<lparr>rx = zero_side, tempinbufs = 0, txbuf = replicate 16 (replicate 1518 0),
     txbuflength = replicate 16 0, txbuf2 = replicate 1518 0, txbuflength2 = 0, lastidx = 0,
     redstate = ECT_RED_NONE, redport = (if red then Some zero_side else None), os = e\<rparr>"

lemma zero_port_inv: "bus_ok e \<Longrightarrow> nic_inv (zero_port red e)"
  by (simp add: nic_inv_def zero_port_def side_ok_def zero_side_def hdr_ok_def temp_ok_def
      hdr_len_def tx_sized_def)

lemma clear_rxbufstat:
  assumes "length st = EC_MAXBUF"
  shows "ecx_clear_rxbufstat st = Some (replicate EC_MAXBUF EC_BUF_EMPTY)"
proof -
  have "ret (for_each (\<lambda>i st. aset st i EC_BUF_EMPTY) [0..<EC_MAXBUF] st)
     (\<lambda>t. length t = EC_MAXBUF \<and> (\<forall>j < EC_MAXBUF. t ! j = EC_BUF_EMPTY))"
    by (rule for_each_upt [where I = "\<lambda>i t. length t = EC_MAXBUF \<and> (\<forall>j < i. t ! j = EC_BUF_EMPTY)"])
      (use assms in \<open>auto simp: nth_list_update less_Suc_eq\<close>)
  then show ?thesis
    by (auto simp: ecx_clear_rxbufstat_def ret_def list_eq_iff_nth_eq)
qed

lemma ec_setupheader_wp:
  assumes "length b = EC_BUFSIZE" and "\<And>c. length c = EC_BUFSIZE \<Longrightarrow> Q c"
  shows "ret (ec_setupheader b) Q"
  using assms unfolding ec_setupheader_def
  by (auto intro!: put16_wp)

definition all_empty :: "nat \<Rightarrow> ec_bufstate list \<Rightarrow> bool" where
  "all_empty n st \<longleftrightarrow> length st = EC_MAXBUF \<and> (\<forall>j < n. st ! j = EC_BUF_EMPTY)"

lemma setup_header_ok:
  assumes k: "keeps p0 p" and i: "i < EC_MAXBUF"
    and Q: "\<And>q. keeps p0 q \<Longrightarrow> rxbufstat (rx q) = (rxbufstat (rx p))[i := EC_BUF_EMPTY] \<Longrightarrow> Q q"
  shows "ret (setup_header i p) Q"
proof -
  have rx: "side_ok (rx p)" "tx_sized (txbuflength p0) (rx p)"
    using inv_rx [OF k] inv_rx_sized [OF k] by simp_all
  then have len: "length (rxbufstat (rx p)) = EC_MAXBUF" by (simp add: side_ok_def)
  show ?thesis
    unfolding setup_header_def
  proof (simp add: keeps_sizes [OF k] i len, rule ec_setupheader_wp)
    fix b :: bytes
    assume b: "length b = EC_BUFSIZE"
    let ?s = "(rx p)\<lparr>rxbufstat := (rxbufstat (rx p))[i := EC_BUF_EMPTY]\<rparr>"
    have "side_ok ?s" "tx_sized (txbuflength p0) ?s"
      using rx len by (simp_all add: side_ok_def tx_sized_update)
    then have "keeps p0 (set_stack 0 ?s (p\<lparr>txbuf := (txbuf p)[i := b]\<rparr>))"
      using b i k by (intro set_stack_wp set_txbuf_wp) (simp_all add: side_at_def)
    then show "Q (p\<lparr>txbuf := (txbuf p)[i := b], rx := ?s\<rparr>)"
      by (intro Q) (simp_all add: set_stack_def)
  qed (use k i in \<open>simp add: keeps_sizes\<close>)
qed

lemma setup_headers_ok:
  assumes inv: "nic_inv p"
    and Q: "\<And>q. keeps p q \<Longrightarrow> all_empty EC_MAXBUF (rxbufstat (rx q)) \<Longrightarrow> Q q"
  shows "ret (for_each setup_header [0..<EC_MAXBUF] p) Q"
proof (rule ret_conseq)
  show "ret (for_each setup_header [0..<EC_MAXBUF] p)
      (\<lambda>q. keeps p q \<and> all_empty EC_MAXBUF (rxbufstat (rx q)))"
  proof (rule for_each_upt [where I = "\<lambda>i q. keeps p q \<and> all_empty i (rxbufstat (rx q))"], goal_cases)
    case (1 i q)
    then show ?case
      by (auto intro!: setup_header_ok simp: all_empty_def nth_list_update less_Suc_eq)
  qed (use inv in \<open>auto simp: all_empty_def nic_inv_def side_ok_def\<close>)
qed (use Q in blast)

lemma side_ok_fresh:
  "side_ok s \<Longrightarrow> side_ok (s\<lparr>sockhandle := h, rxbufstat := replicate EC_MAXBUF EC_BUF_EMPTY\<rparr>)"
  by (simp add: side_ok_def)

lemma tx_sized_fresh [simp]:
  "tx_sized ls (s\<lparr>sockhandle := h, rxbufstat := replicate EC_MAXBUF EC_BUF_EMPTY\<rparr>)"
  by (simp add: tx_sized_def)

lemma side_ok_sock [simp]: "side_ok (s\<lparr>sockhandle := h\<rparr>) \<longleftrightarrow> side_ok s"
  "tx_sized ls (s\<lparr>sockhandle := h\<rparr>) \<longleftrightarrow> tx_sized ls s"
  by (simp_all add: side_ok_def tx_sized_def)

text \<open>
  C22: \<open>ecx_setupnic\<close> on zeroed memory or on a port in use yields a well-formed port without
  redundancy whose sixteen indices are all free; it reports success exactly when \<open>bind\<close> did.
\<close>

theorem setupnic_establishes:
  assumes inv: "nic_inv p" and name: "length ifname < 16"
  shows "ret (ecx_setupnic ifname False p) (\<lambda>(r, q). nic_inv q \<and> busy_indices q = {}
     \<and> redstate q = ECT_RED_NONE \<and> (r = 1 \<longleftrightarrow> bind_at (os p) (nsocket (os p)) = 0))"
proof -
  have rx: "side_ok (rx p)" "length (rxbufstat (rx p)) = EC_MAXBUF"
    using inv by (simp_all add: nic_inv_def side_ok_def)
  let ?e = "(os p)\<lparr>nsocket := Suc (nsocket (os p))\<rparr>"
  let ?fd = "socket_at (os p) (nsocket (os p))"
  let ?s = "(rx p)\<lparr>rxbufstat := replicate EC_MAXBUF EC_BUF_EMPTY, sockhandle := ?fd\<rparr>"
  let ?p = "p\<lparr>lastidx := 0, redstate := ECT_RED_NONE, os := ?e, rx := ?s\<rparr>"
  have "env_ext (os p) ?e" by (simp add: env_ext_def)
  moreover have "side_ok ?s" "tx_sized (txbuflength p) ?s"
    using rx by (simp_all add: side_ok_def tx_sized_def)
  ultimately have "nic_inv ?p" using inv by (simp add: nic_inv_def bus_ok_ext)
  then show ?thesis
    unfolding ecx_setupnic_def
    apply (simp add: clear_rxbufstat rx setupnic_socket_def Let_def name)
    apply (erule setup_headers_ok)
    apply (rule ec_setupheader_wp)
     apply (simp add: keeps_sizes)
    subgoal premises q for q c
      using set_txbuf2_wp [OF q(1,3)] q(2)
      by (auto simp: keeps_def busy_indices_def all_empty_def)
    done
qed

section \<open>Reception in any order\<close>

text \<open>An EtherCAT reply with a given index, its length field and its working counter.\<close>

definition ecat_reply :: "byte \<Rightarrow> bytes \<Rightarrow> bool" where
  "ecat_reply idx f \<longleftrightarrow> 18 \<le> length f \<and> length f \<le> EC_BUFSIZE
     \<and> f ! 12 = 0x88 \<and> f ! 13 = 0xA4 \<and> f ! 17 = idx"

definition reply_len :: "bytes \<Rightarrow> nat" where
  "reply_len f = hdr_len (f ! 14) (f ! 15)"

definition reply_wkc :: "bytes \<Rightarrow> int" where
  "reply_wkc f = uint (f ! (14 + reply_len f)) + uint (f ! (15 + reply_len f)) * 256"

text \<open>The reply to a request of \<open>n\<close> bytes: at least as long, its working counter within it.\<close>

definition answers :: "nat \<Rightarrow> byte \<Rightarrow> bytes \<Rightarrow> bool" where
  "answers n idx f \<longleftrightarrow> ecat_reply idx f \<and> n \<le> length f \<and> reply_len f + 16 \<le> n"

lemma wkc_of_copy:
  assumes "answers n idx f" and "length b = EC_BUFSIZE"
  shows "wkc_at (take (n - 14) (drop 14 (f @ z)) @ drop (n - 14) b) (reply_len f) = Some (reply_wkc f)"
proof -
  have n: "reply_len f + 1 < n - 14" "n \<le> length f" "length f \<le> EC_BUFSIZE"
    using assms(1) unfolding answers_def ecat_reply_def by linarith+
  let ?c = "take (n - 14) (drop 14 (f @ z)) @ drop (n - 14) b"
  have "?c ! i = f ! (14 + i)" "i < length ?c" if "i < n - 14" for i
    using that n assms(2) by (auto simp: nth_append)
  from this [of "reply_len f"] this [of "reply_len f + 1"] n show ?thesis
    by (simp add: wkc_at_def get8_def aget_def reply_wkc_def ac_simps)
qed

text \<open>The port after a frame was read into its temporary buffer.\<close>

definition got_frame :: "bytes \<Rightarrow> ecx_portt \<Rightarrow> ecx_portt" where
  "got_frame f p = p\<lparr>rx := (rx p)\<lparr>tempinbuf := f @ drop (length f) (tempinbuf (rx p))\<rparr>,
     os := (os p)\<lparr>nrecv := Suc (nrecv (os p))\<rparr>, tempinbufs := int (length f)\<rparr>"

definition next_frame :: "ecx_portt \<Rightarrow> bytes" where
  "next_frame p = recv_at (os p) (nrecv (os p))"

lemma ecat_type: "le_word [0x88, 0xA4] = htons ETH_P_ECAT"
  by (simp add: le_word_2 htons_def One_nat_def)

lemma ecx_inframe_got:
  assumes inv: "nic_inv p" and i: "unat idx < EC_MAXBUF"
    and new: "rxbufstat (rx p) ! unat idx \<noteq> EC_BUF_RCVD"
    and f: "ecat_reply j (next_frame p)"
  shows "ecx_inframe idx 0 p = inframe_ecat 0 idx (got_frame (next_frame p) p)"
proof -
  let ?f = "next_frame p"
  have len: "length (rxbufstat (rx p)) = EC_MAXBUF" "length (tempinbuf (rx p)) = EC_BUFSIZE"
    using inv by (simp_all add: nic_inv_def side_ok_def temp_ok_def)
  have fl: "18 \<le> length ?f" "length ?f \<le> EC_BUFSIZE" "?f ! 12 = 0x88" "?f ! 13 = 0xA4"
    using f by (simp_all add: ecat_reply_def)
  have "ecx_recvpkt 0 p = Some (True, got_frame ?f p)"
    using fl len
    by (auto simp: ecx_recvpkt_def stack_of_def set_stack_def os_recv_def next_frame_def [symmetric]
        mem_write_def got_frame_def)
  moreover have "get16 (tempinbuf (rx (got_frame ?f p))) OFF_etype = Some (htons ETH_P_ECAT)"
    using fl len
    by (simp add: get16_def mem_read_def take_2_drop nth_append got_frame_def ecat_type)
  ultimately show ?thesis
    using i new len by (simp add: ecx_inframe_def stack_of_def)
qed

text \<open>The port after the frame in the temporary buffer was stored in slot \<open>i\<close> with status \<open>st\<close>.\<close>

definition stored :: "byte \<Rightarrow> ec_bufstate \<Rightarrow> bytes \<Rightarrow> ecx_portt \<Rightarrow> ecx_portt" where
  "stored i st f p = p\<lparr>rx := (rx p)\<lparr>
     rxbuf := (rxbuf (rx p))[unat i := take (txbuflength p ! unat i - 14) (drop 14 f)
                @ drop (txbuflength p ! unat i - 14) (rxbuf (rx p) ! unat i)],
     rxbufstat := (rxbufstat (rx p))[unat i := st],
     rxsa := (rxsa (rx p))[unat i := ntohs (le_word (take 2 (drop 8 f)))]\<rparr>\<rparr>"

lemma store_rx_eq:
  assumes s: "side_ok (rx p)" and i: "i < EC_MAXBUF" and n: "sized (txbuflength p ! i)"
    and l: "length (txbuflength p) = EC_MAXBUF"
    and b: "b = take (txbuflength p ! i - 14) (drop 14 (tempinbuf (rx p)))
              @ drop (txbuflength p ! i - 14) (rxbuf (rx p) ! i)"
  shows "store_rx 0 i p = Some (b, p\<lparr>rx := (rx p)\<lparr>rxbuf := (rxbuf (rx p))[i := b]\<rparr>\<rparr>)"
proof -
  let ?n = "txbuflength p ! i" and ?t = "tempinbuf (rx p)"
  note len = side_ok_lengths [OF s] hdr_ok_length [OF side_ok_nth [OF s i]]
  have n': "14 \<le> ?n" "?n \<le> 1518" using n by (simp_all add: sized_def)
  then have d: "length (take (?n - 14) (drop 14 ?t)) = ?n - 14" using len by simp
  have "mem_read ?t 14 (?n - 14) = Some (take (?n - 14) (drop 14 ?t))"
    using len n' by (simp add: mem_read_def)
  moreover have "mem_write (rxbuf (rx p) ! i) 0 (take (?n - 14) (drop 14 ?t)) = Some b"
    unfolding mem_write_def d b using len n' by simp
  ultimately show ?thesis
    using len i l n' by (simp add: store_rx_def stack_of_def set_stack_def aget_def aset_def)
qed

lemma inframe_ecat_hit:
  assumes s: "side_ok (rx p)" and i: "unat idx < EC_MAXBUF" and n: "sized (txbuflength p ! unat idx)"
    and l: "length (txbuflength p) = EC_MAXBUF"
    and f: "answers (txbuflength p ! unat idx) idx f" and t: "tempinbuf (rx p) = f @ z"
  shows "inframe_ecat 0 idx p = Some (reply_wkc f, stored idx EC_BUF_COMPLETE (f @ z) p)"
proof -
  let ?n = "txbuflength p ! unat idx"
  let ?b = "take (?n - 14) (drop 14 (f @ z)) @ drop (?n - 14) (rxbuf (rx p) ! unat idx)"
  note len = side_ok_lengths [OF s] hdr_ok_length [OF side_ok_nth [OF s i]]
  have fl: "18 \<le> length f" "f ! 17 = idx"
    using f by (simp_all add: answers_def ecat_reply_def)
  have h: "get16 (tempinbuf (rx p)) 14 = Some (le_word [f ! 14, f ! 15])"
    "get8 (tempinbuf (rx p)) 17 = Some idx"
    using fl by (simp_all add: get16_def mem_read_def take_2_drop nth_append t get8_def aget_def)
  have sa: "get16 (tempinbuf (rx p)) OFF_sa1 = Some (le_word (take 2 (drop 8 (tempinbuf (rx p)))))"
    using len by (simp add: get16_def mem_read_def)
  have w: "wkc_at ?b (unat (le_word [f ! 14, f ! 15] AND 0xFFF :: u16)) = Some (reply_wkc f)"
    using wkc_of_copy [OF f hdr_ok_length [OF side_ok_nth [OF s i]]] by (simp add: len_field reply_len_def)
  have st: "store_rx 0 (unat idx) p =
      Some (?b, p\<lparr>rx := (rx p)\<lparr>rxbuf := (rxbuf (rx p))[unat idx := ?b]\<rparr>\<rparr>)"
    by (rule store_rx_eq [OF s i n l]) (simp only: t)
  have "inframe_ecat 0 idx p = do {
       p \<leftarrow> stack_stat 0 idx EC_BUF_COMPLETE (p\<lparr>rx := (rx p)\<lparr>rxbuf := (rxbuf (rx p))[unat idx := ?b]\<rparr>\<rparr>);
       p \<leftarrow> store_sa 0 (unat idx) p;
       Some (reply_wkc f, p) }"
    by (simp add: inframe_ecat_def stack_of_def h st w Let_def del: take_append drop_append)
  also have "\<dots> = Some (reply_wkc f, stored idx EC_BUF_COMPLETE (f @ z) p)"
    using len i sa
    by (simp add: stack_of_def set_stack_def stack_stat_def store_sa_def stored_def aset_def t
        del: take_append drop_append)
  finally show ?thesis .
qed

lemma inframe_ecat_other:
  assumes s: "side_ok (rx p)" and j: "unat j < EC_MAXBUF" and n: "sized (txbuflength p ! unat j)"
    and l: "length (txbuflength p) = EC_MAXBUF" and ij: "j \<noteq> idx"
    and st: "rxbufstat (rx p) ! unat j = EC_BUF_TX"
    and f: "ecat_reply j f" and t: "tempinbuf (rx p) = f @ z"
  shows "inframe_ecat 0 idx p = Some (EC_OTHERFRAME, stored j EC_BUF_RCVD (f @ z) p)"
proof -
  let ?n = "txbuflength p ! unat j"
  let ?b = "take (?n - 14) (drop 14 (f @ z)) @ drop (?n - 14) (rxbuf (rx p) ! unat j)"
  note len = side_ok_lengths [OF s]
  have fl: "18 \<le> length f" "f ! 17 = j" using f by (simp_all add: ecat_reply_def)
  have h: "get16 (tempinbuf (rx p)) 14 = Some (le_word [f ! 14, f ! 15])"
    "get8 (tempinbuf (rx p)) 17 = Some j"
    using fl by (simp_all add: get16_def mem_read_def take_2_drop nth_append t get8_def aget_def)
  have sa: "get16 (tempinbuf (rx p)) OFF_sa1 = Some (le_word (take 2 (drop 8 (tempinbuf (rx p)))))"
    using len by (simp add: get16_def mem_read_def)
  have stx: "store_rx 0 (unat j) p =
      Some (?b, p\<lparr>rx := (rx p)\<lparr>rxbuf := (rxbuf (rx p))[unat j := ?b]\<rparr>\<rparr>)"
    by (rule store_rx_eq [OF s j n l]) (simp only: t)
  have "inframe_ecat 0 idx p = do {
       p \<leftarrow> stack_stat 0 j EC_BUF_RCVD (p\<lparr>rx := (rx p)\<lparr>rxbuf := (rxbuf (rx p))[unat j := ?b]\<rparr>\<rparr>);
       p \<leftarrow> store_sa 0 (unat j) p;
       Some (EC_OTHERFRAME, p) }"
    using len j ij st
    by (simp add: inframe_ecat_def stack_of_def h stx Let_def aget_def del: take_append drop_append)
  also have "\<dots> = Some (EC_OTHERFRAME, stored j EC_BUF_RCVD (f @ z) p)"
    using len j sa
    by (simp add: stack_of_def set_stack_def stack_stat_def store_sa_def stored_def aset_def t
        del: take_append drop_append)
  finally show ?thesis .
qed

text \<open>A frame already stored is delivered without reading the socket.\<close>

definition completed :: "byte \<Rightarrow> ecx_portt \<Rightarrow> ecx_portt" where
  "completed i p = p\<lparr>rx := (rx p)\<lparr>rxbufstat := (rxbufstat (rx p))[unat i := EC_BUF_COMPLETE]\<rparr>\<rparr>"

lemma inframe_stored:
  assumes s: "side_ok (rx p)" and j: "unat j < EC_MAXBUF"
    and f: "answers (txbuflength p ! unat j) j f"
  shows "ecx_inframe j 0 (stored j EC_BUF_RCVD (f @ z) p)
       = Some (reply_wkc f, completed j (stored j EC_BUF_RCVD (f @ z) p))"
proof -
  let ?n = "txbuflength p ! unat j"
  let ?b = "take (?n - 14) (drop 14 (f @ z)) @ drop (?n - 14) (rxbuf (rx p) ! unat j)"
  note len = side_ok_lengths [OF s] hdr_ok_length [OF side_ok_nth [OF s j]]
  have n: "2 \<le> ?n - 14" "?n - 14 \<le> length f - 14" "?n \<le> 1518"
    using f unfolding answers_def ecat_reply_def by linarith+
  have "?b ! i = f ! (14 + i)" if "i < 2" for i
    using that n by (auto simp: nth_append)
  from this [of 0] this [of 1] have b: "?b ! 0 = f ! 14" "?b ! 1 = f ! 15" by simp_all
  have w: "wkc_at ?b (reply_len f) = Some (reply_wkc f)"
    by (rule wkc_of_copy [OF f hdr_ok_length [OF side_ok_nth [OF s j]]])
  have "2 \<le> length ?b" using n len by simp
  then have bl: "0 < length ?b" "1 < length ?b" by linarith+
  have g: "get8 ?b 0 = Some (f ! 14)" "get8 ?b 1 = Some (f ! 15)"
    by (simp_all only: get8_def aget_def b bl if_True)
  show ?thesis
    using len j g w
    by (simp add: ecx_inframe_def inframe_buffered_def stack_of_def set_stack_def stack_stat_def
        stored_def completed_def aget_def aset_def reply_len_def [unfolded hdr_len_def, symmetric]
        del: take_append drop_append)
qed

text \<open>
  C19: replies may arrive in any order. While waiting for index \<open>i\<close> the driver reads the reply to
  the outstanding request \<open>j\<close>: it is kept, reported as another frame, and the next poll for \<open>j\<close>
  delivers its working counter and its bytes without reading the socket again.
\<close>

theorem reply_out_of_order:
  assumes inv: "nic_inv p" and i: "unat i < EC_MAXBUF" and j: "unat j < EC_MAXBUF" and ij: "j \<noteq> i"
    and wi: "rxbufstat (rx p) ! unat i \<noteq> EC_BUF_RCVD" and wj: "rxbufstat (rx p) ! unat j = EC_BUF_TX"
    and f: "answers (txbuflength p ! unat j) j (next_frame p)"
  shows "\<exists>q r. ecx_inframe i 0 p = Some (EC_OTHERFRAME, q)
           \<and> ecx_inframe j 0 q = Some (reply_wkc (next_frame p), r)
           \<and> nrecv (os r) = Suc (nrecv (os p))
           \<and> take (txbuflength p ! unat j - 14) (rxbuf (rx r) ! unat j)
             = take (txbuflength p ! unat j - 14) (drop 14 (next_frame p))
           \<and> rxbufstat (rx r) ! unat j = EC_BUF_COMPLETE
           \<and> (\<forall>k < EC_MAXBUF. k \<noteq> unat j \<longrightarrow> rxbuf (rx r) ! k = rxbuf (rx p) ! k
                \<and> rxbufstat (rx r) ! k = rxbufstat (rx p) ! k)"
proof -
  let ?f = "next_frame p" and ?n = "txbuflength p ! unat j"
  let ?g = "got_frame ?f p"
  have rep: "ecat_reply j ?f" using f by (simp add: answers_def)
  have sz: "sized ?n" using inv j wj by (auto simp: nic_inv_def tx_sized_def)
  obtain z where z: "z = drop (length ?f) (tempinbuf (rx p))" by simp
  have "frame_ok ?f" using inv by (simp add: nic_inv_def bus_ok_def next_frame_def)
  moreover have "temp_ok (tempinbuf (rx p))" using inv by (simp add: nic_inv_def side_ok_def)
  ultimately have "temp_ok (?f @ z)"
    using temp_ok_recv [of ?f "tempinbuf (rx p)"] rep by (simp add: z ecat_reply_def)
  then have s: "side_ok (rx ?g)" and ls: "length (txbuflength p) = EC_MAXBUF"
    using inv by (simp_all add: got_frame_def nic_inv_def side_ok_def z)
  have g: "txbuflength ?g = txbuflength p" "tempinbuf (rx ?g) = ?f @ z" "rxbufstat (rx ?g) = rxbufstat (rx p)"
    "rxbuf (rx ?g) = rxbuf (rx p)" "nrecv (os ?g) = Suc (nrecv (os p))"
    by (simp_all add: got_frame_def z)
  let ?q = "stored j EC_BUF_RCVD (?f @ z) ?g"
  have "ecx_inframe i 0 p = Some (EC_OTHERFRAME, ?q)"
    unfolding ecx_inframe_got [OF inv i wi rep]
    by (rule inframe_ecat_other [OF s j _ _ ij _ rep]) (simp_all add: g sz ls wj)
  moreover have "ecx_inframe j 0 ?q = Some (reply_wkc ?f, completed j ?q)"
    by (rule inframe_stored [OF s j]) (simp add: g f)
  moreover have "?n - 14 \<le> length ?f - 14" using f by (auto simp: answers_def intro: diff_le_mono)
  ultimately show ?thesis
    using j side_ok_lengths [OF s]
    by (intro exI conjI) (assumption | auto simp: stored_def completed_def g nth_list_update)+
qed

section \<open>The confirmed exchange\<close>

text \<open>The polling loop, when it returns: the last body's result, and the timer it gave up on.\<close>

lemma poll_par:
  fixes x :: 'x
  assumes body: "\<And>x p. I x p \<Longrightarrow> par (body (x, p)) (\<lambda>(y, q). J y q)"
    and cont: "\<And>y q. J y q \<Longrightarrow> I y (snd (and_not_expired (c y) t q))"
    and start: "I x p"
  shows "par (poll t c body (x, p)) (\<lambda>(y, r). \<exists>q. J y q \<and> r = snd (and_not_expired (c y) t q)
     \<and> \<not> fst (and_not_expired (c y) t q))"
  unfolding poll_def
proof (rule do_while_par [where I = "\<lambda>(x, p). I x p" and J = "\<lambda>(y, q). J y q"], goal_cases)
  case (1 s)
  then show ?case using body by (cases s) auto
next
  case (2 s)
  obtain y q where s: "s = (y, q)" by (cases s)
  obtain b r where e: "and_not_expired (c y) t q = (b, r)" by force
  show ?case using 2 cont [of y q] by (auto simp: s e)
qed (use start in simp)

text \<open>
  The reply: an EtherCAT frame \<open>f\<close> as the socket gave it, that carries the index where it is long enough
  to (the driver does not check), whose bytes behind the ethernet header are in the receive buffer as far as the
  request was long, and whose working counter, at the place its length field gives, is \<open>w\<close>.
\<close>

definition reply_stored :: "byte \<Rightarrow> bytes \<Rightarrow> int \<Rightarrow> ecx_portt \<Rightarrow> bool" where
  "reply_stored idx f w p \<longleftrightarrow> rxbufstat (rx p) ! unat idx = EC_BUF_COMPLETE \<and>
     16 \<le> length f \<and> f ! 12 = 0x88 \<and> f ! 13 = 0xA4 \<and> (18 \<le> length f \<longrightarrow> f ! 17 = idx) \<and>
     (\<forall>i. 14 + i < min (length f) (txbuflength p ! unat idx) \<longrightarrow> rxbuf (rx p) ! unat idx ! i = f ! (14 + i)) \<and>
     wkc_at (rxbuf (rx p) ! unat idx) (reply_len f) = Some w"

definition recv_frame :: "ecx_portt \<Rightarrow> nat \<Rightarrow> bytes" where
  "recv_frame p k = take EC_BUFSIZE (recv_at (os p) k)"

lemma le_word_pair: "(le_word [a, b] :: u16) = le_word [c, d] \<longleftrightarrow> a = c \<and> b = d"
proof
  assume "(le_word [a, b] :: u16) = le_word [c, d]"
  then have e: "unat a + 256 * unat b = unat c + 256 * unat d"
    unfolding le_word_2 by (metis unat_pair)
  have l: "unat v < 256" for v :: byte using unsigned_less [of v, where 'a = nat] by simp
  have "unat v = (unat v + 256 * unat w) mod 256" for v w :: byte using l [of v] by simp
  from this [of a b] this [of c d] have "unat a = unat c" unfolding e by simp
  with e have "unat a = unat c" "unat b = unat d" by simp_all
  then show "a = c \<and> b = d" by (simp add: word_unat_eq_iff)
qed simp

lemma recv_any:
  assumes "nic_inv p"
  shows "ecx_recvpkt 0 p = Some (0 < length (recv_frame p (nrecv (os p))), got_frame (recv_frame p (nrecv (os p))) p)"
proof -
  have "length (tempinbuf (rx p)) = EC_BUFSIZE" using assms by (simp add: nic_inv_def side_ok_def temp_ok_def)
  then show ?thesis
    by (auto simp: ecx_recvpkt_def stack_of_def set_stack_def os_recv_def recv_frame_def mem_write_def got_frame_def)
qed

lemma inframe_ecat_read:
  assumes s: "side_ok (rx p)" and i: "unat idx < EC_MAXBUF" and n: "sized (txbuflength p ! unat idx)"
    and l: "length (txbuflength p) = EC_MAXBUF" and t: "tempinbuf (rx p) = f @ z" and f: "16 \<le> length f"
    and e: "le_word (take 2 (drop 12 (f @ z))) = htons ETH_P_ECAT" and x: "get8 (f @ z) 17 = Some idx"
  shows "par (inframe_ecat 0 idx p) (\<lambda>(w, q). os q = os p \<and> txbuflength q = txbuflength p \<and> reply_stored idx f w q)"
proof -
  let ?n = "txbuflength p ! unat idx"
  let ?b = "take (?n - 14) (drop 14 (f @ z)) @ drop (?n - 14) (rxbuf (rx p) ! unat idx)"
  note len = side_ok_lengths [OF s] hdr_ok_length [OF side_ok_nth [OF s i]]
  have tl: "length f + length z = EC_BUFSIZE" using len by (simp add: t)
  have n': "28 \<le> ?n" "?n \<le> EC_BUFSIZE" using n by (simp_all add: sized_def)
  have h: "get16 (f @ z) 14 = Some (le_word [f ! 14, f ! 15])"
    using f tl by (simp add: get16_def mem_read_def take_2_drop nth_append)
  have "take 2 (drop 12 (f @ z)) = [f ! 12, f ! 13]" using f by (simp add: take_2_drop nth_append)
  then have ty: "f ! 12 = 0x88" "f ! 13 = 0xA4" using e by (simp_all add: ecat_type [symmetric] le_word_pair)
  have x': "18 \<le> length f \<longrightarrow> f ! 17 = idx" using x by (auto simp: get8_def aget_def nth_append split: if_splits)
  have same: "?b ! k = f ! (14 + k)" if "14 + k < min (length f) ?n" for k
    using that n' tl by (auto simp: nth_append)
  have st: "store_rx 0 (unat idx) p =
      Some (?b, p\<lparr>rx := (rx p)\<lparr>rxbuf := (rxbuf (rx p))[unat idx := ?b]\<rparr>\<rparr>)"
    by (rule store_rx_eq [OF s i n l]) (simp only: t)
  have rl: "unat (le_word [f ! 14, f ! 15] AND 0x0fff :: u16) = reply_len f" by (simp add: len_field reply_len_def)
  have sa: "get16 (f @ z) OFF_sa1 = Some (le_word (take 2 (drop 8 (f @ z))))"
    using tl by (simp add: get16_def mem_read_def)
  have "inframe_ecat 0 idx p = do {
       w \<leftarrow> wkc_at ?b (reply_len f);
       p \<leftarrow> stack_stat 0 idx EC_BUF_COMPLETE (p\<lparr>rx := (rx p)\<lparr>rxbuf := (rxbuf (rx p))[unat idx := ?b]\<rparr>\<rparr>);
       p \<leftarrow> store_sa 0 (unat idx) p;
       Some (w, p) }"
    using x by (simp add: inframe_ecat_def stack_of_def h st rl t Let_def del: take_append drop_append)
  also have "\<dots> = do { w \<leftarrow> wkc_at ?b (reply_len f); Some (w, stored idx EC_BUF_COMPLETE (f @ z) p) }"
    using len i sa
    by (simp add: stack_of_def set_stack_def stack_stat_def store_sa_def stored_def aset_def t
        del: take_append drop_append)
  finally have r: "inframe_ecat 0 idx p = do { w \<leftarrow> wkc_at ?b (reply_len f); Some (w, stored idx EC_BUF_COMPLETE (f @ z) p) }" .
  have c: "rxbuf (rx (stored idx EC_BUF_COMPLETE (f @ z) p)) ! unat idx = ?b"
    "rxbufstat (rx (stored idx EC_BUF_COMPLETE (f @ z) p)) ! unat idx = EC_BUF_COMPLETE"
    "os (stored idx EC_BUF_COMPLETE (f @ z) p) = os p"
    "txbuflength (stored idx EC_BUF_COMPLETE (f @ z) p) = txbuflength p"
    using len i by (simp_all add: stored_def)
  show ?thesis
    unfolding r par_simps prod.case
    by (rule parI) (simp add: c reply_stored_def ty x' f same del: take_append drop_append nth_append)
qed

lemma inframe_ecat_skip:
  assumes "get8 (tempinbuf (rx p)) 17 \<noteq> Some idx" and "rxbufstat (rx p) ! unat idx \<noteq> EC_BUF_RCVD"
  shows "par (inframe_ecat 0 idx p) (\<lambda>(w, q). os q = os p \<and> w = EC_OTHERFRAME \<and> rxbufstat (rx q) ! unat idx \<noteq> EC_BUF_RCVD)"
proof (rule parI)
  fix x assume r: "inframe_ecat 0 idx p = Some x"
  have st: "os q = os p' \<and> rxbufstat (rx q) = (rxbufstat (rx p'))[unat j := v]" if "stack_stat 0 j v p' = Some q" for j v p' q
    using that by (auto simp: stack_stat_def stack_of_def set_stack_def bind_eq_Some_conv aset_def split: if_splits)
  have rx: "os q = os p' \<and> rxbufstat (rx q) = rxbufstat (rx p')" if "store_rx 0 j p' = Some (b, q)" for j b p' q
    using that by (auto simp: store_rx_def stack_of_def set_stack_def bind_eq_Some_conv split: if_splits)
  have sa: "os q = os p' \<and> rxbufstat (rx q) = rxbufstat (rx p')" if "store_sa 0 j p' = Some q" for j p' q
    using that by (auto simp: store_sa_def stack_of_def set_stack_def bind_eq_Some_conv)
  obtain i where i: "get8 (tempinbuf (rx p)) 17 = Some i" "i \<noteq> idx"
    using r assms(1) by (auto simp: inframe_ecat_def stack_of_def bind_eq_Some_conv)
  have ne: "unat i \<noteq> unat idx" using i(2) by (simp add: word_unat_eq_iff)
  from r i obtain q where "x = (EC_OTHERFRAME, q)" and q: "q = p \<or> (\<exists>b p1 p2. store_rx 0 (unat i) p = Some (b, p1) \<and>
      stack_stat 0 i EC_BUF_RCVD p1 = Some p2 \<and> store_sa 0 (unat i) p2 = Some q)"
    by (auto simp: inframe_ecat_def stack_of_def bind_eq_Some_conv Let_def split: if_splits)
  moreover have "os q = os p \<and> rxbufstat (rx q) ! unat idx \<noteq> EC_BUF_RCVD"
    using q assms(2) ne by (auto dest!: st rx sa)
  ultimately show "case x of (w, q) \<Rightarrow> os q = os p \<and> w = EC_OTHERFRAME \<and> rxbufstat (rx q) ! unat idx \<noteq> EC_BUF_RCVD" by simp
qed

lemma inframe_reads:
  assumes inv: "nic_inv p" and ld: "loaded idx p" and st: "rxbufstat (rx p) ! unat idx \<noteq> EC_BUF_RCVD"
  shows "par (ecx_inframe idx 0 p) (\<lambda>(w, q). nrecv (os q) = Suc (nrecv (os p)) \<and> rxbufstat (rx q) ! unat idx \<noteq> EC_BUF_RCVD \<and>
    (EC_NOFRAME < w \<longrightarrow> reply_stored idx (recv_frame p (nrecv (os p))) w q))"
proof -
  let ?f = "recv_frame p (nrecv (os p))" and ?g = "got_frame (recv_frame p (nrecv (os p))) p"
  define z where "z = drop (length ?f) (tempinbuf (rx p))"
  have i: "unat idx < EC_MAXBUF" and n: "sized (txbuflength p ! unat idx)" using ld by (simp_all add: loaded_def)
  have fo: "frame_ok (recv_at (os p) (nrecv (os p)))" using inv by (simp add: nic_inv_def bus_ok_def)
  have "temp_ok (tempinbuf (rx p))" using inv by (simp add: nic_inv_def side_ok_def)
  from temp_ok_recv [OF fo this] have tk: "temp_ok (?f @ z)" by (simp add: z_def recv_frame_def)
  then have s: "side_ok (rx ?g)" and l: "length (txbuflength ?g) = EC_MAXBUF"
    using inv by (simp_all add: got_frame_def nic_inv_def side_ok_def z_def)
  have g: "txbuflength ?g = txbuflength p" "tempinbuf (rx ?g) = ?f @ z" "rxbufstat (rx ?g) = rxbufstat (rx p)"
    "nrecv (os ?g) = Suc (nrecv (os p))"
    by (simp_all add: got_frame_def z_def)
  have len: "length (rxbufstat (rx p)) = EC_MAXBUF" using inv by (simp add: nic_inv_def side_ok_def)
  have tl: "length (?f @ z) = EC_BUFSIZE" using tk by (simp add: temp_ok_def)
  have ty: "get16 (?f @ z) OFF_etype = Some (le_word (take 2 (drop 12 (?f @ z))))"
    using tl by (simp add: get16_def mem_read_def)
  have r: "ecx_inframe idx 0 p = (if ?f \<noteq> [] then
      (if le_word (take 2 (drop 12 (?f @ z))) = htons ETH_P_ECAT then inframe_ecat 0 idx ?g else Some (EC_OTHERFRAME, ?g))
     else Some (EC_NOFRAME, ?g))"
    using st len i ty by (simp add: ecx_inframe_def stack_of_def recv_any [OF inv] aget_def g(2))
  show ?thesis
  proof (cases "?f \<noteq> [] \<and> le_word (take 2 (drop 12 (?f @ z))) = htons ETH_P_ECAT")
    case True
    then have f: "16 \<le> length ?f" using fo by (auto simp: frame_ok_def recv_frame_def)
    show ?thesis
    proof (cases "get8 (?f @ z) 17 = Some idx")
      case hit: True
      from inframe_ecat_read [OF s i _ l g(2) f _ hit] True n g(1)
      have "par (inframe_ecat 0 idx ?g) (\<lambda>(w, q). os q = os ?g \<and> txbuflength q = txbuflength ?g \<and> reply_stored idx ?f w q)"
        by simp
      then show ?thesis using True unfolding r by (auto elim!: par_conseq simp: g reply_stored_def)
    next
      case False
      from inframe_ecat_skip [of ?g idx] False st
      have "par (inframe_ecat 0 idx ?g) (\<lambda>(w, q). os q = os ?g \<and> w = EC_OTHERFRAME \<and> rxbufstat (rx q) ! unat idx \<noteq> EC_BUF_RCVD)"
        by (simp add: g)
      then show ?thesis using True unfolding r by (auto elim!: par_conseq simp: g)
    qed
  next
    case False
    then show ?thesis unfolding r using st by (auto simp: got_frame_def)
  qed
qed

text \<open>The reply was read after the exchange began, which was with the \<open>N\<close>-th frame.\<close>

definition delivered :: "byte \<Rightarrow> nat \<Rightarrow> int \<Rightarrow> ecx_portt \<Rightarrow> bool" where
  "delivered idx N w p \<longleftrightarrow> (\<exists>k. N \<le> k \<and> k < nrecv (os p) \<and> reply_stored idx (recv_frame p k) w p)"

lemma env_expired: "recv_at (os (snd (and_not_expired c t p))) = recv_at (os p)"
  "nrecv (os (snd (and_not_expired c t p))) = nrecv (os p)" "rx (snd (and_not_expired c t p)) = rx p"
  "txbuflength (snd (and_not_expired c t p)) = txbuflength p"
  by (simp_all add: and_not_expired_def timer_expired_def osal_timer_is_expired_def osal_getrelativetime_def os_clock_def
      case_prod_unfold Let_def)

lemma delivered_and_not_expired [simp]:
  "delivered idx N w (snd (and_not_expired c t p)) = delivered idx N w p"
  by (simp add: delivered_def reply_stored_def recv_frame_def env_expired)

text \<open>Without redundancy, a wait ends with the reply stored in the buffer of the index.\<close>

definition single :: "ecx_portt \<Rightarrow> byte \<Rightarrow> ecx_portt \<Rightarrow> bool" where
  "single p0 idx p \<longleftrightarrow> keeps p0 p \<and> loaded idx p0 \<and> redstate p0 = ECT_RED_NONE \<and> nrecv (os p0) \<le> nrecv (os p)"

definition awaits :: "ecx_portt \<Rightarrow> byte \<Rightarrow> ecx_portt \<Rightarrow> bool" where
  "awaits p0 idx p \<longleftrightarrow> single p0 idx p \<and> rxbufstat (rx p) ! unat idx \<noteq> EC_BUF_RCVD"

abbreviation waited :: "ecx_portt \<Rightarrow> byte \<Rightarrow> int \<Rightarrow> ecx_portt \<Rightarrow> bool" where
  "waited p0 idx w q \<equiv> awaits p0 idx q \<and> (EC_NOFRAME < w \<longrightarrow> delivered idx (nrecv (os p0)) w q)"

lemma single_red: "single p0 idx p \<Longrightarrow> redstate p = ECT_RED_NONE"
  by (simp add: single_def keeps_def)

lemma single_expired: "single p0 idx q \<Longrightarrow> single p0 idx (snd (and_not_expired c t q))"
  unfolding single_def env_expired using and_not_expired_keeps [OF keeps_inv] keeps_trans by blast

lemma awaits_expired: "awaits p0 idx q \<Longrightarrow> awaits p0 idx (snd (and_not_expired c t q))"
  unfolding awaits_def by (simp add: single_expired env_expired)

lemma awaits_red: "awaits p0 idx p \<Longrightarrow> redstate p = ECT_RED_NONE"
  unfolding awaits_def by (elim conjE, rule single_red)

lemma single_inframe:
  assumes "awaits p0 idx p"
  shows "par (ecx_inframe idx 0 p) (\<lambda>(w, q). waited p0 idx w q)"
proof -
  have k: "keeps p0 p" and ld: "loaded idx p0" and st: "rxbufstat (rx p) ! unat idx \<noteq> EC_BUF_RCVD"
    and n: "nrecv (os p0) \<le> nrecv (os p)" "redstate p0 = ECT_RED_NONE"
    using assms by (simp_all add: awaits_def single_def)
  have "ret (ecx_inframe idx 0 p) (\<lambda>(w, q). keeps p q)"
    by (rule ecx_inframe_wp [OF keeps_refl [OF keeps_inv [OF k]]]) (simp_all add: side_at_def keeps_loaded [OF k] ld)
  note both = par_conj [OF ret_imp_par [OF this] inframe_reads [OF keeps_inv [OF k] keeps_loaded [OF k, THEN iffD2, OF ld] st]]
  show ?thesis
  proof (rule par_conseq [OF both], goal_cases)
    case (1 x)
    obtain w q where x: "x = (w, q)" by (cases x)
    have kq: "keeps p q" and q: "nrecv (os q) = Suc (nrecv (os p))" "rxbufstat (rx q) ! unat idx \<noteq> EC_BUF_RCVD"
      "EC_NOFRAME < w \<longrightarrow> reply_stored idx (recv_frame p (nrecv (os p))) w q"
      using 1 by (simp_all add: x)
    have f: "recv_frame q k = recv_frame p k" for k using kq by (simp add: recv_frame_def keeps_def env_ext_def)
    have "EC_NOFRAME < w \<longrightarrow> delivered idx (nrecv (os p0)) w q"
      using q n(1) by (auto simp: delivered_def f intro!: exI [of _ "nrecv (os p)"])
    then show ?case using q n ld keeps_trans [OF k kq] by (simp add: x awaits_def single_def)
  qed
qed

lemma single_poll:
  assumes "awaits p0 idx p"
  shows "par (waitinframe_poll idx t ((EC_NOFRAME, 0), p)) (\<lambda>((w, w2), q). waited p0 idx w q)"
proof -
  let ?J = "\<lambda>(w, w2) q. waited p0 idx w q"
  have "par (waitinframe_poll idx t ((EC_NOFRAME, 0), p))
     (\<lambda>(y, r). \<exists>q. ?J y q \<and> r = snd (and_not_expired (case y of (wkc, wkc2) \<Rightarrow> wkc \<le> EC_NOFRAME \<or> wkc2 \<le> EC_NOFRAME) t q)
        \<and> \<not> fst (and_not_expired (case y of (wkc, wkc2) \<Rightarrow> wkc \<le> EC_NOFRAME \<or> wkc2 \<le> EC_NOFRAME) t q))"
    unfolding waitinframe_poll_def
  proof (rule poll_par [where I = ?J], goal_cases)
    case (1 x p)
    obtain w w2 where x: "x = (w, w2)" by (cases x)
    have "par (if w \<le> EC_NOFRAME then ecx_inframe idx 0 p else Some (w, p)) (\<lambda>(w, q). waited p0 idx w q)"
      using 1 single_inframe by (auto simp: x)
    then show ?case
      unfolding x prod.case par_simps ret_case_prod
      by (rule par_conseq) (auto dest: awaits_red)
  next
    case (2 y q)
    then show ?case by (auto dest: awaits_expired)
  qed (use assms in auto)
  then show ?thesis
    by (rule par_conseq) (auto dest: awaits_expired)
qed

text \<open>Sending overwrites the mark of the index and reads nothing.\<close>

lemma outframe_marks:
  assumes "redstate p = ECT_RED_NONE"
  shows "par (ecx_outframe_red idx p) (\<lambda>(r, q). nrecv (os q) = nrecv (os p) \<and> rxbufstat (rx q) ! unat idx \<noteq> EC_BUF_RCVD)"
proof -
  have st: "par (stack_stat 0 idx v p) (\<lambda>q. nrecv (os q) = nrecv (os p) \<and> redstate q = redstate p \<and> rxbufstat (rx q) ! unat idx = v)" for v p
    by (auto simp: stack_stat_def stack_of_def set_stack_def bind_eq_Some_conv aset_def split: if_splits intro!: parI)
  have out: "par (ecx_outframe idx 0 p) (\<lambda>(r, q). nrecv (os q) = nrecv (os p) \<and> redstate q = redstate p \<and> rxbufstat (rx q) ! unat idx \<noteq> EC_BUF_RCVD)" for p
    by (auto simp: ecx_outframe_def stack_of_def sock_send_def os_send_def bind_eq_Some_conv Let_def case_prod_unfold
        split: if_splits dest!: parD [OF st] intro!: parI)
  then show ?thesis
    using assms by (auto simp: ecx_outframe_red_def bind_eq_Some_conv Let_def split: if_splits intro!: parI dest!: parD [OF out])
qed

lemma single_try:
  assumes "single p0 idx p"
  shows "par (srconfirm_try idx timeout p) (\<lambda>(w, q). waited p0 idx w q)"
proof -
  have k: "keeps p0 p" and ld: "loaded idx p0" and r: "redstate p0 = ECT_RED_NONE" and n: "nrecv (os p0) \<le> nrecv (os p)"
    using assms by (simp_all add: single_def)
  have wait: "par (ecx_waitinframe_red idx t q) (\<lambda>(w, q). waited p0 idx w q)" if "awaits p0 idx q" for t q
    using single_poll [OF that, of t] awaits_red [OF that]
    by (auto simp: ecx_waitinframe_red_def elim!: par_conseq dest: awaits_red)
  have "par (ecx_outframe_red idx p) (\<lambda>(x, q). keeps p0 q)"
    by (rule ret_imp_par, rule ecx_outframe_red_wp [OF k ld]) simp
  from par_conj [OF this outframe_marks [OF single_red [OF assms], of idx]] show ?thesis
    unfolding srconfirm_try_def Let_def par_simps
  proof (rule par_conseq, goal_cases)
    case (1 x)
    obtain a q where x: "x = (a, q)" by (cases x)
    have q: "keeps p0 q" "nrecv (os p0) \<le> nrecv (os q)" "rxbufstat (rx q) ! unat idx \<noteq> EC_BUF_RCVD"
      using 1 n by (simp_all add: x)
    have "awaits p0 idx (snd (timer_start us q))" for us
      using timer_start_wp [OF q(1), of "\<lambda>t q. keeps p0 q" us] q ld r
      by (simp add: awaits_def single_def timer_start_def osal_timer_start_def osal_getrelativetime_def os_clock_def
          case_prod_unfold Let_def)
    then show ?case using wait unfolding x prod.case ret_case_prod by (simp add: case_prod_unfold)
  qed
qed

text \<open>What the timer says when the exchange has given up.\<close>

lemma and_not_expired_stop:
  assumes "\<not> fst (and_not_expired True t q)"
  shows "fst (osal_timer_is_expired t (os q))"
    and "nclock (os (snd (and_not_expired True t q))) = Suc (nclock (os q))"
  using assms by (auto simp: and_not_expired_def timer_expired_def case_prod_unfold Let_def)

lemma srconfirm_outcome:
  assumes inv: "nic_inv p" and ld: "loaded idx p" and red: "redstate p = ECT_RED_NONE"
    and norm: "\<forall>n. snd (clock_at (os p) n) < 1000000000"
    and us: "0 \<le> timeout" "timeout < 2 ^ 31"
    and fits: "fst (clock_at (os p) (nclock (os p))) + nat timeout div 1000000 + 1 < 2 ^ 32"
  shows "ret (ecx_srconfirm idx timeout p) (\<lambda>(w, q). keeps p q
     \<and> (EC_NOFRAME < w \<longrightarrow> delivered idx (nrecv (os p)) w q)
     \<and> (w \<le> EC_NOFRAME \<longrightarrow>
          clock_us (os p) (nclock (os p)) + nat timeout \<le> clock_us (os p) (nclock (os q) - 1)))"
proof -
  obtain t e where te: "osal_timer_start (nat timeout) (os p) = (t, e)" by force
  have e: "env_ext (os p) e" using osal_ext(4) [of "os p" "nat timeout"] by (simp add: te)
  let ?p = "p\<lparr>os := e\<rparr>"
  have kp: "keeps p ?p" by (rule keeps_os [OF inv e])
  have st: "timer_start timeout p = (t, ?p)" using us by (simp add: timer_start_def te)
  have nr: "nrecv e = nrecv (os p)"
    using te by (auto simp: osal_timer_start_def osal_getrelativetime_def os_clock_def Let_def)
  have single: "single ?p idx ?p" using kp ld red by (simp add: single_def keeps_from loaded_def)
  let ?J = "\<lambda>w q. single ?p idx q \<and> (EC_NOFRAME < w \<longrightarrow> delivered idx (nrecv (os p)) w q)"
  let ?next = "\<lambda>w q. and_not_expired (w \<le> EC_NOFRAME) t q"
  have "par (ecx_srconfirm idx timeout p)
      (\<lambda>(w, r). \<exists>q. ?J w q \<and> r = snd (?next w q) \<and> \<not> fst (?next w q))"
    unfolding ecx_srconfirm_def st Let_def prod.case
    by (rule poll_par [where I = "\<lambda>w q. single ?p idx q"])
      (auto intro: single_expired single par_conseq [OF single_try] simp: awaits_def nr)
  moreover have "ret (ecx_srconfirm idx timeout p) (\<lambda>_. True)"
    by (rule ecx_srconfirm_wp [OF keeps_refl [OF inv] ld]) simp
  ultimately have "ret (ecx_srconfirm idx timeout p)
      (\<lambda>r. True \<and> (case r of (w, r) \<Rightarrow> \<exists>q. ?J w q \<and> r = snd (?next w q) \<and> \<not> fst (?next w q)))"
    by (rule ret_par [rotated])
  then show ?thesis
  proof (rule ret_conseq, goal_cases)
    case (1 x)
    then obtain w r q where x: "x = (w, r)" and J: "?J w q" and r: "r = snd (?next w q)"
      and stop: "\<not> fst (?next w q)" by (cases x) auto
    have kq: "keeps ?p q" using J by (simp add: single_def)
    have "keeps ?p r" unfolding r by (rule keeps_trans [OF kq and_not_expired_keeps [OF keeps_inv [OF kq]]])
    then have "keeps p r" by (rule keeps_trans [OF kp])
    moreover have "EC_NOFRAME < w \<longrightarrow> delivered idx (nrecv (os p)) w r" using J by (simp add: r)
    moreover have "clock_us (os p) (nclock (os p)) + nat timeout \<le> clock_us (os p) (nclock (os r) - 1)"
      if w: "w \<le> EC_NOFRAME"
    proof -
      have "env_ext e (os q)" using kq by (simp add: keeps_def)
      from timer_expired_iff [OF norm fits te this]
      show ?thesis using and_not_expired_stop [of t q] stop w by (simp add: r)
    qed
    ultimately show ?case by (simp add: x)
  qed
qed

section \<open>Transmission\<close>

text \<open>A frame with the second word of its source address, and a dummy frame with its index, set.\<close>

definition with_sa1 :: "bytes \<Rightarrow> byte \<Rightarrow> bytes" where
  "with_sa1 b x = take 8 b @ [x, x] @ drop 10 b"

definition with_index :: "bytes \<Rightarrow> byte \<Rightarrow> bytes" where
  "with_index b idx = take 17 b @ [idx] @ drop 18 b"

lemma put_sa1:
  "10 \<le> length b \<Longrightarrow> put16 b OFF_sa1 (htons 0x0101) = Some (with_sa1 b 1)"
  "10 \<le> length b \<Longrightarrow> put16 b OFF_sa1 (htons 0x0404) = Some (with_sa1 b 4)"
proof -
  have "le_bytes 2 (htons 0x0101) = [1, 1]" "le_bytes 2 (htons 0x0404) = [4, 4]"
    by (simp_all add: le_bytes_def htons_def One_nat_def upt_rec)
  then show "10 \<le> length b \<Longrightarrow> put16 b OFF_sa1 (htons 0x0101) = Some (with_sa1 b 1)"
    "10 \<le> length b \<Longrightarrow> put16 b OFF_sa1 (htons 0x0404) = Some (with_sa1 b 4)"
    by (simp_all add: put16_def mem_write_def with_sa1_def)
qed

lemma put_index: "18 \<le> length b \<Longrightarrow> put8 b 17 idx = Some (with_index b idx)"
  by (simp add: put8_def mem_write_def with_index_def)

lemma with_lengths [simp]:
  "10 \<le> length b \<Longrightarrow> length (with_sa1 b x) = length b"
  "18 \<le> length b \<Longrightarrow> length (with_index b idx) = length b"
  by (simp_all add: with_sa1_def with_index_def)

text \<open>The frames one \<open>ecx_outframe_red\<close> puts on the wires, newest first.\<close>

definition frames_out :: "byte \<Rightarrow> ecx_portt \<Rightarrow> (int \<times> bytes) list" where
  "frames_out idx p =
     (let prim = (sockhandle (rx p), take (txbuflength p ! unat idx) (with_sa1 (txbuf p ! unat idx) 1))
      in case redport p of
           Some red \<Rightarrow>
             if redstate p = ECT_RED_NONE then [prim]
             else [(sockhandle red, take (txbuflength2 p) (with_sa1 (with_index (txbuf2 p) idx) 4)), prim]
         | None \<Rightarrow> [prim])"

lemma outframe_prim:
  assumes inv: "nic_inv p" and ld: "loaded idx p"
  shows "par (ecx_outframe idx 0 p) (\<lambda>(r, q).
     sent (os q) = (sockhandle (rx p), take (txbuflength p ! unat idx) (txbuf p ! unat idx)) # sent (os p)
     \<and> redport q = redport p \<and> redstate q = redstate p \<and> txbuf2 q = txbuf2 p
     \<and> txbuflength2 q = txbuflength2 p)"
  by (auto simp: ecx_outframe_def stack_stat_def stack_of_def set_stack_def sock_send_def os_send_def
      Let_def mem_read_Some bind_eq_Some_conv intro!: parI split: if_splits)

lemma outframe_dummy_sent:
  assumes "redport p = Some red" and "length (txbuf2 p) = EC_BUFSIZE"
  shows "par (outframe_dummy idx p) (\<lambda>q. sent (os q) =
     (sockhandle red, take (txbuflength2 p) (with_sa1 (with_index (txbuf2 p) idx) 4)) # sent (os p))"
  using assms
  by (auto simp: outframe_dummy_def put_index put_sa1 stack_stat_def stack_of_def set_stack_def
      sock_send_def os_send_def Let_def mem_read_Some bind_eq_Some_conv intro!: parI split: if_splits)

lemma outframe_red_sent:
  assumes inv: "nic_inv p" and ld: "loaded idx p"
  shows "par (ecx_outframe_red idx p) (\<lambda>(r, q). sent (os q) = frames_out idx p @ sent (os p))"
proof -
  note i = loadedD(1) [OF ld] and k = keeps_refl [OF inv]
  have b: "length (txbuf p ! unat idx) = EC_BUFSIZE" "unat idx < length (txbuf p)"
    using keeps_sizes [OF k] i by simp_all
  let ?p = "p\<lparr>txbuf := (txbuf p)[unat idx := with_sa1 (txbuf p ! unat idx) 1]\<rparr>"
  have kp: "keeps p ?p" using i b by (intro set_txbuf_wp [OF k]) simp_all
  have ldp: "loaded idx ?p" using ld by (simp add: loaded_def)
  have t2: "length (txbuf2 p) = EC_BUFSIZE" using keeps_sizes [OF k] by simp
  show ?thesis
    unfolding ecx_outframe_red_def
    apply (simp add: par_aget b put_sa1 par_aset)
    apply (rule par_conseq [OF outframe_prim [OF keeps_inv [OF kp] ldp]])
    apply (auto simp: ret_if frames_out_def Let_def b split: option.splits)
    subgoal using inv by (auto simp: nic_inv_def)
    subgoal for q red using outframe_dummy_sent [of q red idx] t2 by simp
    done
qed

section \<open>Properties\<close>

text \<open>A port that awaits the reply to index 1, on a bus where every frame is that reply.\<close>

definition demo_reply :: bytes where
  "demo_reply = replicate 12 0 @ [0x88, 0xA4, 12, 0x10, 0, 1] @ replicate 8 0 @ [7, 0]"

definition demo_port :: ecx_portt where
  "demo_port = (zero_port False (idle_kernel\<lparr>recv_at := \<lambda>_. demo_reply\<rparr>))
     \<lparr>txbuflength := (replicate 16 0)[1 := 28],
      rx := zero_side\<lparr>rxbufstat := (replicate 16 EC_BUF_EMPTY)[1 := EC_BUF_TX]\<rparr>\<rparr>"

lemma demo_bus: "bus_ok (idle_kernel\<lparr>recv_at := \<lambda>_. demo_reply\<rparr>)"
proof -
  have "env_ext idle_kernel idle_kernel" by simp
  have "clock_live (idle_kernel\<lparr>recv_at := \<lambda>_. demo_reply\<rparr>)"
    using idle_kernel_live by (simp add: clock_live_def)
  moreover have "frame_ok demo_reply"
    by (simp add: frame_ok_def demo_reply_def hdr_len_def unat_and_low nth_append)
  ultimately show ?thesis by (simp add: bus_ok_def)
qed

lemma demo_port_inv: "nic_inv demo_port"
proof -
  have "nic_inv (zero_port False (idle_kernel\<lparr>recv_at := \<lambda>_. demo_reply\<rparr>))"
    by (rule zero_port_inv [OF demo_bus])
  then show ?thesis
    by (auto simp: nic_inv_def demo_port_def zero_port_def side_ok_def zero_side_def tx_sized_def
        sized_def nth_list_update dest!: set_update_subset_insert [THEN subsetD] split: if_splits)
qed

lemma demo_port_busy: "card (busy_indices demo_port) \<le> 1"
proof -
  have "busy_indices demo_port \<subseteq> {1}"
    by (auto simp: busy_indices_def demo_port_def zero_side_def nth_list_update word_unat_eq_iff split: if_splits)
  then show ?thesis
    using card_mono [of "{1}" "busy_indices demo_port"] by simp
qed

text \<open>
  C20: indices handed out in a row are pairwise distinct, were free before and are busy after, as
  long as the pool of sixteen has that many left.
\<close>

theorem getindex_distinct:
  assumes "nic_inv p" and "card (busy_indices p) + n \<le> EC_MAXBUF"
  shows "\<exists>is q. acquire_many ecx_getindex n p = Some (is, q) \<and> length is = n \<and> distinct is
           \<and> set is \<inter> busy_indices p = {} \<and> busy_indices q = set is \<union> busy_indices p"
  using ip.acquire_many_distinct [OF assms] by blast

theorem getindex_distinct_witness:
  "\<exists>is q. acquire_many ecx_getindex 15 demo_port = Some (is, q) \<and> length is = 15 \<and> distinct is
     \<and> set is \<inter> busy_indices demo_port = {} \<and> busy_indices q = set is \<union> busy_indices demo_port"
proof -
  show ?thesis
    by (rule getindex_distinct [OF demo_port_inv]) (use demo_port_busy in simp)
qed

text \<open>
  C21: a transmission puts the frame built for the index on the primary wire, marked with the
  primary source address, and in redundant mode the dummy frame with the same index on the
  secondary wire; nothing else is sent.
\<close>

theorem outframe_red_transmits:
  assumes "nic_inv p" and "loaded idx p"
  shows "ret (ecx_outframe_red idx p) (\<lambda>(r, q). sent (os q) = frames_out idx p @ sent (os p))"
proof -
  have "ret (ecx_outframe_red idx p) (\<lambda>_. True)"
    by (rule ecx_outframe_red_wp [OF keeps_refl [OF assms(1)] assms(2)]) simp
  from ret_par [OF this outframe_red_sent [OF assms]] show ?thesis by simp
qed

theorem outframe_red_transmits_witness:
  "ret (ecx_outframe_red 1 demo_port) (\<lambda>(r, q). sent (os q) = frames_out 1 demo_port @ sent (os demo_port))"
  by (rule outframe_red_transmits [OF demo_port_inv]) (simp add: loaded_def demo_port_def sized_def)

text \<open>
  C18: with or without redundancy, a confirmed exchange returns, without an access outside any
  buffer, and leaves the port well-formed with the same frame lengths, index and mode.
\<close>

theorem srconfirm_safe:
  assumes "nic_inv p" and "loaded idx p"
  shows "ret (ecx_srconfirm idx timeout p) (\<lambda>(w, q). keeps p q)"
  by (rule ecx_srconfirm_wp [OF keeps_refl [OF assms(1)] assms(2)]) simp

theorem srconfirm_safe_witness:
  "ret (ecx_srconfirm 1 2000 demo_port) (\<lambda>(w, q). keeps demo_port q)"
  by (rule srconfirm_safe [OF demo_port_inv]) (simp add: loaded_def demo_port_def sized_def)

text \<open>
  C6: without redundancy a confirmed exchange ends in one of two ways. Either it returns the working counter of a
  reply read from the socket during the exchange: an EtherCAT frame, with the exchange's
  index if it has an index byte at all, whose bytes behind the ethernet header are in the receive buffer of the
  index as far as the request was long, and whose working counter stands where its length field says. Or it returns
  no earlier than its timeout. Conditions: the clock's nanoseconds are below \<open>10\<^sup>9\<close>, the timeout is
  below \<open>2\<^sup>3\<^sup>1\<close> us and the stop time fits the 32-bit seconds of the timer.
\<close>

theorem srconfirm_reply_or_timeout:
  assumes "nic_inv p" and "loaded idx p" and "redstate p = ECT_RED_NONE"
    and "\<forall>n. snd (clock_at (os p) n) < 1000000000"
    and "0 \<le> timeout" "timeout < 2 ^ 31"
    and "fst (clock_at (os p) (nclock (os p))) + nat timeout div 1000000 + 1 < 2 ^ 32"
  shows "ret (ecx_srconfirm idx timeout p) (\<lambda>(w, q).
     (EC_NOFRAME < w \<longrightarrow> (\<exists>k f. nrecv (os p) \<le> k \<and> k < nrecv (os q) \<and> f = take EC_BUFSIZE (recv_at (os p) k) \<and>
        rxbufstat (rx q) ! unat idx = EC_BUF_COMPLETE \<and>
        16 \<le> length f \<and> f ! 12 = 0x88 \<and> f ! 13 = 0xA4 \<and> (18 \<le> length f \<longrightarrow> f ! 17 = idx) \<and>
        (\<forall>i. 14 + i < min (length f) (txbuflength p ! unat idx) \<longrightarrow> rxbuf (rx q) ! unat idx ! i = f ! (14 + i)) \<and>
        wkc_at (rxbuf (rx q) ! unat idx) (reply_len f) = Some w)) \<and>
     (w \<le> EC_NOFRAME \<longrightarrow>
        clock_us (os p) (nclock (os p)) + nat timeout \<le> clock_us (os p) (nclock (os q) - 1)))"
  using srconfirm_outcome [OF assms]
proof (rule ret_conseq, goal_cases)
  case (1 x)
  obtain w q where x: "x = (w, q)" by (cases x)
  have k: "recv_at (os q) = recv_at (os p)" "txbuflength q = txbuflength p" using 1 by (auto simp: x keeps_def env_ext_def)
  show ?case using 1 unfolding x prod.case delivered_def reply_stored_def recv_frame_def k by blast
qed

theorem srconfirm_reply_or_timeout_witness:
  "\<exists>w q. ecx_srconfirm 1 2000 demo_port = Some (w, q) \<and>
     (EC_NOFRAME < w \<longrightarrow> rxbufstat (rx q) ! 1 = EC_BUF_COMPLETE \<and> rxbuf (rx q) ! 1 ! 12 = 7 \<and> w = 7) \<and>
     (w \<le> EC_NOFRAME \<longrightarrow>
        clock_us (os demo_port) (nclock (os demo_port)) + nat 2000 \<le> clock_us (os demo_port) (nclock (os q) - 1))"
proof -
  have f: "take EC_BUFSIZE (recv_at (os demo_port) k) = demo_reply" for k
    by (simp add: demo_port_def zero_port_def demo_reply_def)
  have n: "txbuflength demo_port ! unat (1 :: byte) = 28" by (simp add: demo_port_def)
  have l: "reply_len demo_reply = 12"
    by (simp add: reply_len_def demo_reply_def hdr_len_def unat_and_low nth_append)
  have b: "length demo_reply = 28" "demo_reply ! 26 = 7" "demo_reply ! 27 = 0" by (simp_all add: demo_reply_def nth_append)
  have w: "b ! 12 = 7 \<and> w = 7" if "\<forall>i. 14 + i < (28 :: nat) \<longrightarrow> b ! i = demo_reply ! (14 + i)" "wkc_at b 12 = Some w" for b w
  proof -
    have "b ! 12 = 7" "b ! 13 = 0" using that(1) [rule_format, of 12] that(1) [rule_format, of 13] b by simp_all
    then show ?thesis using that(2) by (auto simp: wkc_at_def get8_def aget_def split: if_splits)
  qed
  have "ret (ecx_srconfirm 1 2000 demo_port) (\<lambda>(w, q).
     (EC_NOFRAME < w \<longrightarrow> (\<exists>k f. nrecv (os demo_port) \<le> k \<and> k < nrecv (os q) \<and> f = take EC_BUFSIZE (recv_at (os demo_port) k) \<and>
        rxbufstat (rx q) ! unat (1 :: byte) = EC_BUF_COMPLETE \<and>
        16 \<le> length f \<and> f ! 12 = 0x88 \<and> f ! 13 = 0xA4 \<and> (18 \<le> length f \<longrightarrow> f ! 17 = 1) \<and>
        (\<forall>i. 14 + i < min (length f) (txbuflength demo_port ! unat (1 :: byte)) \<longrightarrow>
           rxbuf (rx q) ! unat (1 :: byte) ! i = f ! (14 + i)) \<and>
        wkc_at (rxbuf (rx q) ! unat (1 :: byte)) (reply_len f) = Some w)) \<and>
     (w \<le> EC_NOFRAME \<longrightarrow>
        clock_us (os demo_port) (nclock (os demo_port)) + nat 2000 \<le> clock_us (os demo_port) (nclock (os q) - 1)))"
    by (rule srconfirm_reply_or_timeout [OF demo_port_inv])
      (simp_all add: loaded_def demo_port_def sized_def zero_port_def idle_kernel_def)
  then obtain w q where r: "ecx_srconfirm 1 2000 demo_port = Some (w, q)"
    "EC_NOFRAME < w \<longrightarrow> rxbufstat (rx q) ! 1 = EC_BUF_COMPLETE \<and>
       (\<forall>i. 14 + i < (28 :: nat) \<longrightarrow> rxbuf (rx q) ! 1 ! i = demo_reply ! (14 + i)) \<and> wkc_at (rxbuf (rx q) ! 1) 12 = Some w"
    "w \<le> EC_NOFRAME \<longrightarrow>
        clock_us (os demo_port) (nclock (os demo_port)) + nat 2000 \<le> clock_us (os demo_port) (nclock (os q) - 1)"
    unfolding ret_def f n by (auto simp: l b)
  then show ?thesis using w by blast
qed

theorem reply_out_of_order_witness:
  "\<exists>q r. ecx_inframe 0 0 demo_port = Some (EC_OTHERFRAME, q) \<and> ecx_inframe 1 0 q = Some (7, r)"
proof -
  have f: "next_frame demo_port = demo_reply"
    by (simp add: next_frame_def demo_port_def zero_port_def)
  have "reply_len demo_reply = 12"
    by (simp add: reply_len_def demo_reply_def hdr_len_def unat_and_low nth_append)
  then have w: "reply_wkc demo_reply = 7" and a: "answers 28 1 demo_reply"
    by (simp_all add: reply_wkc_def answers_def ecat_reply_def demo_reply_def nth_append)
  have s: "rxbufstat (rx demo_port) ! unat (0 :: byte) \<noteq> EC_BUF_RCVD"
    "rxbufstat (rx demo_port) ! unat (1 :: byte) = EC_BUF_TX"
    "answers (txbuflength demo_port ! unat (1 :: byte)) 1 (next_frame demo_port)"
    using a f by (simp_all add: demo_port_def zero_side_def)
  have "\<exists>q r. ecx_inframe 0 0 demo_port = Some (EC_OTHERFRAME, q)
           \<and> ecx_inframe 1 0 q = Some (reply_wkc (next_frame demo_port), r)"
    using reply_out_of_order [OF demo_port_inv _ _ _ s] by auto
  then show ?thesis by (simp add: f w)
qed

theorem setupnic_establishes_witness:
  "ret (ecx_setupnic ''eth0'' False demo_port) (\<lambda>(r, q). nic_inv q \<and> busy_indices q = {}
     \<and> redstate q = ECT_RED_NONE \<and> (r = 1 \<longleftrightarrow> bind_at (os demo_port) (nsocket (os demo_port)) = 0))"
  by (rule setupnic_establishes [OF demo_port_inv]) simp

end
