(* ===== verification/Ecat_Base.thy ===== *)
theory Ecat_Base
  imports Nic_Props
begin

text \<open>
  Datagrams and the blocking EtherCAT primitives (\<open>soem_lib/soem/ethercatbase.c\<close>).

  A caller's buffer \<open>data\<close> is the byte list behind the pointer, from the pointer to the end of
  the object; a routine that writes through the pointer returns the new contents.
\<close>

section \<open>Commands\<close>

abbreviation (input) EC_CMD_NOP :: byte where "EC_CMD_NOP \<equiv> 0"
abbreviation (input) EC_CMD_APRD :: byte where "EC_CMD_APRD \<equiv> 1"
abbreviation (input) EC_CMD_APWR :: byte where "EC_CMD_APWR \<equiv> 2"
abbreviation (input) EC_CMD_FPRD :: byte where "EC_CMD_FPRD \<equiv> 4"
abbreviation (input) EC_CMD_FPWR :: byte where "EC_CMD_FPWR \<equiv> 5"
abbreviation (input) EC_CMD_BRD :: byte where "EC_CMD_BRD \<equiv> 7"
abbreviation (input) EC_CMD_BWR :: byte where "EC_CMD_BWR \<equiv> 8"
abbreviation (input) EC_CMD_LRD :: byte where "EC_CMD_LRD \<equiv> 10"
abbreviation (input) EC_CMD_LWR :: byte where "EC_CMD_LWR \<equiv> 11"
abbreviation (input) EC_CMD_LRW :: byte where "EC_CMD_LRW \<equiv> 12"
abbreviation (input) EC_CMD_ARMW :: byte where "EC_CMD_ARMW \<equiv> 13"
abbreviation (input) EC_CMD_FRMW :: byte where "EC_CMD_FRMW \<equiv> 14"
abbreviation (input) EC_ECATTYPE :: u16 where "EC_ECATTYPE \<equiv> 0x1000"
abbreviation (input) EC_DATAGRAMFOLLOWS :: u16 where "EC_DATAGRAMFOLLOWS \<equiv> 0x8000"
abbreviation (input) ECT_REG_DCSYSTIME :: u16 where "ECT_REG_DCSYSTIME \<equiv> 0x0910"

definition LO_WORD :: "u32 \<Rightarrow> u16" where "LO_WORD l = ucast l"
definition HI_WORD :: "u32 \<Rightarrow> u16" where "HI_WORD l = ucast (drop_bit 16 l)"

section \<open>Building frames\<close>

text \<open>\<open>frame\<close> with its data area written at \<open>off\<close>, as \<open>ecx_writedatagramdata\<close> does.\<close>

definition ecx_writedatagramdata :: "bytes \<Rightarrow> nat \<Rightarrow> byte \<Rightarrow> u16 \<Rightarrow> bytes \<Rightarrow> bytes option" where
  "ecx_writedatagramdata frame off com len data =
     (if 0 < len
      then if com \<in> {EC_CMD_NOP, EC_CMD_APRD, EC_CMD_FPRD, EC_CMD_BRD, EC_CMD_LRD}
           then mem_write frame off (replicate (unat len) 0)
           else do { d \<leftarrow> mem_read data 0 (unat len); mem_write frame off d }
      else Some frame)"

text \<open>The \<open>frame\<close> argument is the transmit buffer of an index or the dummy buffer.\<close>

datatype framebuf = TxBuf byte | TxBuf2

definition frame_at :: "framebuf \<Rightarrow> ecx_portt \<Rightarrow> bytes option" where
  "frame_at fb p = (case fb of TxBuf i \<Rightarrow> aget (txbuf p) (unat i) | TxBuf2 \<Rightarrow> Some (txbuf2 p))"

definition set_frame :: "framebuf \<Rightarrow> bytes \<Rightarrow> ecx_portt \<Rightarrow> ecx_portt option" where
  "set_frame fb b p =
     (case fb of
        TxBuf i \<Rightarrow> do { bs \<leftarrow> aset (txbuf p) (unat i) b; Some (p\<lparr>txbuf := bs\<rparr>) }
      | TxBuf2 \<Rightarrow> Some (p\<lparr>txbuf2 := b\<rparr>))"

text \<open>The fields of the header \<open>ec_comt\<close> at offset \<open>h\<close> from the command on, the data after it and
  a zero working counter.\<close>

definition put_datagram ::
  "bytes \<Rightarrow> nat \<Rightarrow> byte \<Rightarrow> byte \<Rightarrow> u16 \<Rightarrow> u16 \<Rightarrow> u16 \<Rightarrow> u16 \<Rightarrow> bytes \<Rightarrow> bytes option" where
  "put_datagram f h com idx ADP ADO dlength len data = do {
     f \<leftarrow> put8 f (h + OFF_command) com;
     f \<leftarrow> put8 f (h + OFF_index) idx;
     f \<leftarrow> put16 f (h + OFF_ADP) ADP;
     f \<leftarrow> put16 f (h + OFF_ADO) ADO;
     f \<leftarrow> put16 f (h + OFF_dlength) dlength;
     f \<leftarrow> ecx_writedatagramdata f (h + EC_HEADERSIZE) com len data;
     f \<leftarrow> put8 f (h + EC_HEADERSIZE + unat len) 0;
     put8 f (h + EC_HEADERSIZE + unat len + 1) 0 }"

definition setup_frame :: "bytes \<Rightarrow> byte \<Rightarrow> byte \<Rightarrow> u16 \<Rightarrow> u16 \<Rightarrow> u16 \<Rightarrow> bytes \<Rightarrow> bytes option" where
  "setup_frame f com idx ADP ADO len data = do {
     f \<leftarrow> put16 f (ETH_HEADERSIZE + OFF_elength) (EC_ECATTYPE + 12 + len);
     put_datagram f ETH_HEADERSIZE com idx ADP ADO len len data }"

definition ecx_setupdatagram ::
  "framebuf \<Rightarrow> byte \<Rightarrow> byte \<Rightarrow> u16 \<Rightarrow> u16 \<Rightarrow> u16 \<Rightarrow> bytes \<Rightarrow> ecx_portt \<Rightarrow> ecx_portt option" where
  "ecx_setupdatagram frame com idx ADP ADO len data p = do {
     f \<leftarrow> frame_at frame p;
     f \<leftarrow> setup_frame f com idx ADP ADO len data;
     p \<leftarrow> set_frame frame f p;
     ls \<leftarrow> aset (txbuflength p) (unat idx)
             (ETH_HEADERSIZE + EC_HEADERSIZE + EC_WKCSIZE + unat len);
     Some (p\<lparr>txbuflength := ls\<rparr>) }"

definition add_frame ::
  "bytes \<Rightarrow> nat \<Rightarrow> byte \<Rightarrow> byte \<Rightarrow> bool \<Rightarrow> u16 \<Rightarrow> u16 \<Rightarrow> u16 \<Rightarrow> bytes \<Rightarrow> bytes option" where
  "add_frame f prevlength com idx follows ADP ADO len data = do {
     el \<leftarrow> get16 f (ETH_HEADERSIZE + OFF_elength);
     f \<leftarrow> put16 f (ETH_HEADERSIZE + OFF_elength) (el + 12 + len);
     dl \<leftarrow> get16 f (ETH_HEADERSIZE + OFF_dlength);
     f \<leftarrow> put16 f (ETH_HEADERSIZE + OFF_dlength) (dl OR EC_DATAGRAMFOLLOWS);
     put_datagram f (prevlength - EC_ELENGTHSIZE) com idx ADP ADO
       (if follows then len OR EC_DATAGRAMFOLLOWS else len) len data }"

definition ecx_adddatagram ::
  "framebuf \<Rightarrow> byte \<Rightarrow> byte \<Rightarrow> bool \<Rightarrow> u16 \<Rightarrow> u16 \<Rightarrow> u16 \<Rightarrow> bytes \<Rightarrow> ecx_portt \<Rightarrow> (u16 \<times> ecx_portt) option" where
  "ecx_adddatagram frame com idx follows ADP ADO len data p = do {
     n \<leftarrow> aget (txbuflength p) (unat idx);
     let prevlength = n mod 65536;
     f \<leftarrow> frame_at frame p;
     f \<leftarrow> (if EC_ELENGTHSIZE \<le> prevlength
          then add_frame f prevlength com idx follows ADP ADO len data else None);
     p \<leftarrow> set_frame frame f p;
     ls \<leftarrow> aset (txbuflength p) (unat idx)
             (prevlength + EC_HEADERSIZE - EC_ELENGTHSIZE + EC_WKCSIZE + unat len);
     Some (of_nat (prevlength + EC_HEADERSIZE - EC_ELENGTHSIZE) - 14, p\<lparr>txbuflength := ls\<rparr>) }"

section \<open>Primitives\<close>

text \<open>A fresh index, its frame and the confirmed exchange: the start of every primitive.\<close>

definition exchange ::
  "byte \<Rightarrow> u16 \<Rightarrow> u16 \<Rightarrow> u16 \<Rightarrow> bytes \<Rightarrow> int \<Rightarrow> ecx_portt \<Rightarrow> (byte \<times> int \<times> ecx_portt) option" where
  "exchange com ADP ADO len data timeout p = do {
     (idx, p) \<leftarrow> ecx_getindex p;
     p \<leftarrow> ecx_setupdatagram (TxBuf idx) com idx ADP ADO len data p;
     (wkc, p) \<leftarrow> ecx_srconfirm idx timeout p;
     Some (idx, wkc, p) }"

text \<open>\<open>memcpy(data, &(port->rxbuf[idx][off]), n)\<close>\<close>

definition copy_rx :: "byte \<Rightarrow> nat \<Rightarrow> nat \<Rightarrow> bytes \<Rightarrow> ecx_portt \<Rightarrow> bytes option" where
  "copy_rx idx off n data p = do {
     b \<leftarrow> aget (rxbuf (rx p)) (unat idx);
     d \<leftarrow> mem_read b off n;
     mem_write data 0 d }"

definition write_prim ::
  "byte \<Rightarrow> u16 \<Rightarrow> u16 \<Rightarrow> u16 \<Rightarrow> bytes \<Rightarrow> int \<Rightarrow> ecx_portt \<Rightarrow> (int \<times> ecx_portt) option" where
  "write_prim com ADP ADO len data timeout p = do {
     (idx, wkc, p) \<leftarrow> exchange com ADP ADO len data timeout p;
     p \<leftarrow> ecx_setbufstat idx EC_BUF_EMPTY p;
     Some (wkc, p) }"

definition read_prim ::
  "byte \<Rightarrow> u16 \<Rightarrow> u16 \<Rightarrow> u16 \<Rightarrow> bytes \<Rightarrow> int \<Rightarrow> ecx_portt \<Rightarrow> (int \<times> bytes \<times> ecx_portt) option" where
  "read_prim com ADP ADO len data timeout p = do {
     (idx, wkc, p) \<leftarrow> exchange com ADP ADO len data timeout p;
     data \<leftarrow> (if 0 < wkc then copy_rx idx EC_HEADERSIZE (unat len) data p else Some data);
     p \<leftarrow> ecx_setbufstat idx EC_BUF_EMPTY p;
     Some (wkc, data, p) }"

text \<open>The logical read primitives also check that the reply carries their command.\<close>

definition logical_prim ::
  "byte \<Rightarrow> u32 \<Rightarrow> u16 \<Rightarrow> bytes \<Rightarrow> int \<Rightarrow> ecx_portt \<Rightarrow> (int \<times> bytes \<times> ecx_portt) option" where
  "logical_prim com LogAdr len data timeout p = do {
     (idx, wkc, p) \<leftarrow> exchange com (LO_WORD LogAdr) (HI_WORD LogAdr) len data timeout p;
     b \<leftarrow> aget (rxbuf (rx p)) (unat idx);
     c \<leftarrow> get8 b EC_CMDOFFSET;
     data \<leftarrow> (if 0 < wkc \<and> c = com then copy_rx idx EC_HEADERSIZE (unat len) data p
             else Some data);
     p \<leftarrow> ecx_setbufstat idx EC_BUF_EMPTY p;
     Some (wkc, data, p) }"

definition ecx_BWR where
  "ecx_BWR ADP ADO len data timeout p = write_prim EC_CMD_BWR ADP ADO len data timeout p"

definition ecx_BRD where
  "ecx_BRD ADP ADO len data timeout p = read_prim EC_CMD_BRD ADP ADO len data timeout p"

definition ecx_APRD where
  "ecx_APRD ADP ADO len data timeout p = read_prim EC_CMD_APRD ADP ADO len data timeout p"

definition ecx_ARMW where
  "ecx_ARMW ADP ADO len data timeout p = read_prim EC_CMD_ARMW ADP ADO len data timeout p"

definition ecx_FRMW where
  "ecx_FRMW ADP ADO len data timeout p = read_prim EC_CMD_FRMW ADP ADO len data timeout p"

definition ecx_FPRD where
  "ecx_FPRD ADP ADO len data timeout p = read_prim EC_CMD_FPRD ADP ADO len data timeout p"

definition ecx_APWR where
  "ecx_APWR ADP ADO len data timeout p = write_prim EC_CMD_APWR ADP ADO len data timeout p"

definition ecx_FPWR where
  "ecx_FPWR ADP ADO len data timeout p = write_prim EC_CMD_FPWR ADP ADO len data timeout p"

text \<open>The word primitives: a \<open>uint16\<close> in memory is its two bytes.\<close>

definition ecx_APRDw :: "u16 \<Rightarrow> u16 \<Rightarrow> int \<Rightarrow> ecx_portt \<Rightarrow> (u16 \<times> ecx_portt) option" where
  "ecx_APRDw ADP ADO timeout p = do {
     (wkc, w, p) \<leftarrow> ecx_APRD ADP ADO 2 (le_bytes 2 (0 :: u16)) timeout p;
     Some (le_word w, p) }"

definition ecx_FPRDw :: "u16 \<Rightarrow> u16 \<Rightarrow> int \<Rightarrow> ecx_portt \<Rightarrow> (u16 \<times> ecx_portt) option" where
  "ecx_FPRDw ADP ADO timeout p = do {
     (wkc, w, p) \<leftarrow> ecx_FPRD ADP ADO 2 (le_bytes 2 (0 :: u16)) timeout p;
     Some (le_word w, p) }"

definition ecx_APWRw :: "u16 \<Rightarrow> u16 \<Rightarrow> u16 \<Rightarrow> int \<Rightarrow> ecx_portt \<Rightarrow> (int \<times> ecx_portt) option" where
  "ecx_APWRw ADP ADO data timeout p = ecx_APWR ADP ADO 2 (le_bytes 2 data) timeout p"

definition ecx_FPWRw :: "u16 \<Rightarrow> u16 \<Rightarrow> u16 \<Rightarrow> int \<Rightarrow> ecx_portt \<Rightarrow> (int \<times> ecx_portt) option" where
  "ecx_FPWRw ADP ADO data timeout p = ecx_FPWR ADP ADO 2 (le_bytes 2 data) timeout p"

definition ecx_LRW where
  "ecx_LRW LogAdr len data timeout p = logical_prim EC_CMD_LRW LogAdr len data timeout p"

definition ecx_LRD where
  "ecx_LRD LogAdr len data timeout p = logical_prim EC_CMD_LRD LogAdr len data timeout p"

definition ecx_LWR where
  "ecx_LWR LogAdr len data timeout p =
     write_prim EC_CMD_LWR (LO_WORD LogAdr) (HI_WORD LogAdr) len data timeout p"

text \<open>\<open>sizeof(DCtime)\<close> is the size of the pointer, eight bytes on the 64-bit target like the value.\<close>

definition lrwdc_result ::
  "byte \<Rightarrow> nat \<Rightarrow> nat \<Rightarrow> bytes \<Rightarrow> ecx_portt \<Rightarrow> (int \<times> bytes \<times> u64) option" where
  "lrwdc_result idx len DCtO data p = do {
     data \<leftarrow> copy_rx idx EC_HEADERSIZE len data p;
     w \<leftarrow> copy_rx idx (EC_HEADERSIZE + len) EC_WKCSIZE (replicate 2 0) p;
     t \<leftarrow> copy_rx idx DCtO 8 (replicate 8 0) p;
     Some (uint (le_word w :: u16), data, le_word t) }"

definition ecx_LRWDC ::
  "u32 \<Rightarrow> u16 \<Rightarrow> bytes \<Rightarrow> u16 \<Rightarrow> u64 \<Rightarrow> int \<Rightarrow> ecx_portt \<Rightarrow> (int \<times> bytes \<times> u64 \<times> ecx_portt) option" where
  "ecx_LRWDC LogAdr len data DCrs DCtime timeout p = do {
     (idx, p) \<leftarrow> ecx_getindex p;
     p \<leftarrow> ecx_setupdatagram (TxBuf idx) EC_CMD_LRW idx (LO_WORD LogAdr) (HI_WORD LogAdr) len data p;
     (DCtO, p) \<leftarrow> ecx_adddatagram (TxBuf idx) EC_CMD_FRMW idx False DCrs ECT_REG_DCSYSTIME 8
                    (le_bytes 8 DCtime) p;
     (wkc, p) \<leftarrow> ecx_srconfirm idx timeout p;
     b \<leftarrow> aget (rxbuf (rx p)) (unat idx);
     c \<leftarrow> get8 b EC_CMDOFFSET;
     (wkc, data, DCtime) \<leftarrow> (if 0 < wkc \<and> c = EC_CMD_LRW
                             then lrwdc_result idx (unat len) (unat DCtO) data p
                             else Some (wkc, data, DCtime));
     p \<leftarrow> ecx_setbufstat idx EC_BUF_EMPTY p;
     Some (wkc, data, DCtime, p) }"

end
