(* ===== verification/Base_Safety.thy ===== *)
theory Base_Safety
  imports Ecat_Base
begin

text \<open>
  The primitives return, keep the port well-formed and give their index back. \<open>steady p0 p\<close> is
  what a caller of primitives may rely on: it is \<open>keeps\<close> without the frame lengths and the last
  index, which every primitive changes.
\<close>

definition steady :: "ecx_portt \<Rightarrow> ecx_portt \<Rightarrow> bool" where
  "steady p0 p \<longleftrightarrow> nic_inv p \<and> env_ext (os p0) (os p) \<and> redstate p = redstate p0
     \<and> (redport p = None \<longleftrightarrow> redport p0 = None)"

lemma steady_refl [intro]: "nic_inv p \<Longrightarrow> steady p p"
  by (simp add: steady_def)

lemma steady_trans [trans]: "steady p q \<Longrightarrow> steady q r \<Longrightarrow> steady p r"
  by (auto simp: steady_def intro: env_ext_trans)

lemma steady_inv: "steady p q \<Longrightarrow> nic_inv q"
  by (simp add: steady_def)

lemma keeps_steady: "keeps p q \<Longrightarrow> steady p q"
  by (simp add: keeps_def steady_def)

lemma steady_keeps: "steady p0 p \<Longrightarrow> keeps p q \<Longrightarrow> steady p0 q"
  using steady_trans keeps_steady by blast

section \<open>Building frames\<close>

lemma writedata_ok:
  assumes "off + unat n \<le> length f" and "unat n \<le> length data"
    and "\<And>g. length g = length f \<Longrightarrow> Q g"
  shows "ret (ecx_writedatagramdata f off com n data) Q"
  using assms by (auto simp: ecx_writedatagramdata_def ret_if ret_mem_read ret_mem_write)

lemma put_datagram_ok:
  assumes "h + 14 + unat n \<le> length f" and "unat n \<le> length data"
    and "\<And>g. length g = length f \<Longrightarrow> Q g"
  shows "ret (put_datagram f h com idx adp ado dl n data) Q"
  unfolding put_datagram_def ret_simps
  by (intro put16_wp put8_wp writedata_ok assms(3)) (use assms(1,2) in simp_all)

lemma setup_frame_ok:
  assumes "28 + unat n \<le> length f" and "unat n \<le> length data"
    and "\<And>g. length g = length f \<Longrightarrow> Q g"
  shows "ret (setup_frame f com idx adp ado n data) Q"
  unfolding setup_frame_def ret_simps
  by (intro put16_wp put_datagram_ok assms(3)) (use assms(1,2) in simp_all)

lemma add_frame_ok:
  assumes "28 \<le> m" and "m + 12 + unat n \<le> length f" and "unat n \<le> length data"
    and "\<And>g. length g = length f \<Longrightarrow> Q g"
  shows "ret (add_frame f m com idx follows adp ado n data) Q"
  unfolding add_frame_def ret_simps ret_get16
  apply (intro conjI put16_wp put_datagram_ok assms(4))
  using assms(1-3) by simp_all

lemma inv_sizes:
  assumes "nic_inv p"
  shows "length (txbuf p) = EC_MAXBUF" "length (txbuflength p) = EC_MAXBUF"
    "length (txbuf2 p) = EC_BUFSIZE" "i < EC_MAXBUF \<Longrightarrow> length (txbuf p ! i) = EC_BUFSIZE"
  using assms by (auto simp: nic_inv_def)

text \<open>The port after a frame of \<open>n\<close> bytes was built for index \<open>idx\<close>.\<close>

lemma set_len_inv:
  assumes inv: "nic_inv p" and sz: "sized n"
  shows "nic_inv (p\<lparr>txbuflength := (txbuflength p)[i := n]\<rparr>)"
proof -
  have tx: "tx_sized ((txbuflength p)[i := n]) s"
    if "tx_sized (txbuflength p) s" for s
    using that sz inv unfolding tx_sized_def nic_inv_def
    by (metis nth_list_update_eq nth_list_update_neq)
  have "\<forall>m \<in> set ((txbuflength p)[i := n]). m = 0 \<or> sized m"
    using inv sz set_update_subset_insert [of "txbuflength p" i n] by (auto simp: nic_inv_def)
  then show ?thesis using inv tx by (simp add: nic_inv_def)
qed

lemma setupdatagram_wp:
  assumes k: "steady p0 p" and i: "unat idx < EC_MAXBUF" and n: "unat n \<le> 1490" "unat n \<le> length data"
    and Q: "\<And>q. steady p0 q \<Longrightarrow> loaded idx q \<Longrightarrow> txbuflength q ! unat idx = 28 + unat n \<Longrightarrow>
        length (txbuf q) = EC_MAXBUF \<Longrightarrow> rx q = rx p \<Longrightarrow> Q q"
  shows "ret (ecx_setupdatagram (TxBuf idx) com idx adp ado n data p) Q"
proof -
  have inv: "nic_inv p" using k by (rule steady_inv)
  note sizes = inv_sizes [OF inv]
  have "ret (setup_frame (txbuf p ! unat idx) com idx adp ado n data) (\<lambda>g. length g = EC_BUFSIZE)"
    by (rule setup_frame_ok) (use n i sizes in simp_all)
  then show ?thesis
    unfolding ecx_setupdatagram_def
    apply (simp add: frame_at_def set_frame_def sizes i)
    apply (erule ret_conseq)
    subgoal premises g for g
    proof -
      have "keeps p (p\<lparr>txbuf := (txbuf p)[unat idx := g]\<rparr>)"
        using g i by (intro set_txbuf_wp [OF keeps_refl [OF inv]])
      then have "nic_inv (p\<lparr>txbuf := (txbuf p)[unat idx := g]\<rparr>)" by (rule keeps_inv)
      from set_len_inv [OF this, of "28 + unat n" "unat idx"] n
      have "nic_inv (p\<lparr>txbuf := (txbuf p)[unat idx := g], txbuflength := (txbuflength p)[unat idx := 28 + unat n]\<rparr>)"
        by (simp add: sized_def)
      then show ?thesis
        using k i n sizes by (intro Q) (simp_all add: steady_def loaded_def sized_def)
    qed
    done
qed

lemma adddatagram_wp:
  assumes k: "steady p0 p" and ld: "loaded idx p" and n: "unat n \<le> length data"
    and room: "txbuflength p ! unat idx + 12 + unat n \<le> EC_BUFSIZE"
    and Q: "\<And>off q. steady p0 q \<Longrightarrow> loaded idx q \<Longrightarrow>
        txbuflength q ! unat idx = txbuflength p ! unat idx + 12 + unat n \<Longrightarrow>
        unat off = txbuflength p ! unat idx - 4 \<Longrightarrow> rx q = rx p \<Longrightarrow> Q (off, q)"
  shows "ret (ecx_adddatagram (TxBuf idx) com idx follows adp ado n data p) Q"
proof -
  let ?m = "txbuflength p ! unat idx"
  have inv: "nic_inv p" using k by (rule steady_inv)
  note sizes = inv_sizes [OF inv] and ldD = loadedD [OF ld]
  have m: "?m mod 65536 = ?m" "2 \<le> ?m" "28 \<le> ?m" using ldD by simp_all
  have "unat (of_nat (?m + 10) - 14 :: u16) = ?m - 4"
  proof -
    have "?m + 10 = (?m - 4) + 14" using m by simp
    then have "(of_nat (?m + 10) :: u16) = of_nat (?m - 4) + 14" by (metis of_nat_add of_nat_numeral)
    then have "(of_nat (?m + 10) - 14 :: u16) = of_nat (?m - 4)" by simp
    then have "unat (of_nat (?m + 10) - 14 :: u16) = unat (of_nat (?m - 4) :: u16)" by argo
    also have "\<dots> = ?m - 4" using ldD by (simp only: unat_of_nat) simp
    finally show ?thesis .
  qed
  then have off: "unat (of_nat (?m + 12 - 2) - 14 :: u16) = ?m - 4" by simp
  have "ret (add_frame (txbuf p ! unat idx) ?m com idx follows adp ado n data) (\<lambda>g. length g = EC_BUFSIZE)"
    by (rule add_frame_ok) (use n room ldD sizes in simp_all)
  then show ?thesis
    unfolding ecx_adddatagram_def
    apply (simp add: frame_at_def set_frame_def sizes ldD m Let_def)
    apply (erule ret_conseq)
    subgoal premises g for g
    proof -
      have "keeps p (p\<lparr>txbuf := (txbuf p)[unat idx := g]\<rparr>)"
        using g ldD by (intro set_txbuf_wp [OF keeps_refl [OF inv]])
      then have "nic_inv (p\<lparr>txbuf := (txbuf p)[unat idx := g]\<rparr>)" by (rule keeps_inv)
      from set_len_inv [OF this, of "?m + 12 + unat n" "unat idx"] room m
      have "nic_inv (p\<lparr>txbuf := (txbuf p)[unat idx := g], txbuflength := (txbuflength p)[unat idx := ?m + 12 + unat n]\<rparr>)"
        by (simp add: sized_def)
      then show ?thesis
        using k ldD n sizes room off by (intro Q) (simp_all add: steady_def loaded_def sized_def ac_simps)
    qed
    done
qed

section \<open>Primitives\<close>

lemma getindex_wp:
  assumes k: "steady p0 p"
    and Q: "\<And>i q. unat i < EC_MAXBUF \<Longrightarrow> steady p0 q \<Longrightarrow> Q (i, q)"
  shows "ret (ecx_getindex p) Q"
proof -
  have inv: "nic_inv p" using k by (rule steady_inv)
  have st: "length (rxbufstat (rx p)) = EC_MAXBUF" and li: "unat (lastidx p) < EC_MAXBUF"
    using inv by (simp_all add: nic_inv_def side_ok_def)
  have ni: "unat (next_idx (lastidx p)) < EC_MAXBUF" using next_idx_unat [OF li] by simp
  show ?thesis
    unfolding ecx_getindex_def ret_simps
  proof (rule ret_conseq [OF getindex_scan_spec [OF st ni]], goal_cases)
    case (1 r)
    then have r: "unat r < EC_MAXBUF" by simp
    show ?case
    proof (rule ecx_setbufstat_wp [OF keeps_refl [OF inv] r], simp)
      fix q
      assume q: "keeps p q"
      then have "nic_inv (q\<lparr>lastidx := r\<rparr>)" using r keeps_inv [OF q] by (simp add: nic_inv_def)
      then have "steady p0 (q\<lparr>lastidx := r\<rparr>)"
        using steady_keeps [OF k q] by (simp add: steady_def)
      then show "Q (r, q\<lparr>lastidx := r\<rparr>)" by (rule Q [OF r])
    qed
  qed
qed

lemma srconfirm_wp:
  assumes k: "steady p0 p" and ld: "loaded idx p"
    and Q: "\<And>w q. steady p0 q \<Longrightarrow> loaded idx q \<Longrightarrow> txbuflength q = txbuflength p \<Longrightarrow> Q (w, q)"
  shows "ret (ecx_srconfirm idx timeout p) Q"
proof (rule ecx_srconfirm_wp [OF keeps_refl [OF steady_inv [OF k]] ld])
  fix w q
  assume q: "keeps p q"
  then have "loaded idx q" "txbuflength q = txbuflength p"
    using ld by (simp_all add: keeps_loaded keeps_def loaded_def)
  with q show "Q (w, q)" by (intro Q steady_keeps [OF k])
qed

lemma release_wp:
  assumes k: "steady p0 p" and i: "unat idx < EC_MAXBUF" and Q: "\<And>q. steady p0 q \<Longrightarrow> Q q"
  shows "ret (ecx_setbufstat idx EC_BUF_EMPTY p) Q"
  by (rule ecx_setbufstat_wp [OF keeps_refl [OF steady_inv [OF k]] i])
    (use Q steady_keeps [OF k] in auto)

lemma exchange_wp:
  assumes k: "steady p0 p" and n: "unat n \<le> 1490" "unat n \<le> length data"
    and Q: "\<And>i w q. steady p0 q \<Longrightarrow> unat i < EC_MAXBUF \<Longrightarrow> Q (i, w, q)"
  shows "ret (exchange com adp ado n data timeout p) Q"
  unfolding exchange_def ret_simps
  apply (rule getindex_wp [OF k])
  subgoal for i q
    apply simp
    apply (rule setupdatagram_wp [OF _ _ n], assumption, assumption)
    apply (rule srconfirm_wp, assumption, assumption)
    apply (auto intro: Q)
    done
  done

lemma copy_rx_wp2:
  assumes k: "steady p0 p" and i: "unat idx < EC_MAXBUF" and n: "off + n \<le> EC_BUFSIZE" "n \<le> length data"
    and Q: "\<And>d. length d = length data \<Longrightarrow> Q d"
  shows "ret (copy_rx idx off n data p) Q"
proof -
  have s: "side_ok (rx p)" using steady_inv [OF k] by (simp add: nic_inv_def)
  then show ?thesis
    using side_ok_lengths [OF s] hdr_ok_length [OF side_ok_nth [OF s i]] i n
    by (auto simp: copy_rx_def ret_mem_read ret_mem_write intro!: Q)
qed

text \<open>The largest data area of a single datagram: \<open>EC_MAXLRWDATA\<close> and less.\<close>

lemma write_prim_wp:
  assumes k: "steady p0 p" and n: "unat n \<le> 1490" "unat n \<le> length data"
    and Q: "\<And>w q. steady p0 q \<Longrightarrow> Q (w, q)"
  shows "ret (write_prim com adp ado n data timeout p) Q"
  unfolding write_prim_def ret_simps
  by (rule exchange_wp [OF k n]) (auto intro!: Q release_wp)

lemma read_prim_wp:
  assumes k: "steady p0 p" and n: "unat n \<le> 1490" "unat n \<le> length data"
    and Q: "\<And>w d q. steady p0 q \<Longrightarrow> length d = length data \<Longrightarrow> Q (w, d, q)"
  shows "ret (read_prim com adp ado n data timeout p) Q"
  unfolding read_prim_def ret_simps
  apply (rule exchange_wp [OF k n])
  using n by (auto simp: ret_if intro!: Q release_wp copy_rx_wp2)

lemma logical_prim_wp:
  assumes k: "steady p0 p" and n: "unat n \<le> 1490" "unat n \<le> length data"
    and Q: "\<And>w d q. steady p0 q \<Longrightarrow> length d = length data \<Longrightarrow> Q (w, d, q)"
  shows "ret (logical_prim com a n data timeout p) Q"
  unfolding logical_prim_def ret_simps
proof (rule exchange_wp [OF k n], goal_cases)
  case (1 i w q)
  then have s: "side_ok (rx q)" by (simp add: steady_def nic_inv_def)
  show ?case
    using 1 n side_ok_lengths [OF s] hdr_ok_length [OF side_ok_nth [OF s 1(2)]]
    by (auto simp: ret_if intro!: Q release_wp copy_rx_wp2)
qed

lemmas prim_defs = ecx_BWR_def ecx_BRD_def ecx_APRD_def ecx_ARMW_def ecx_FRMW_def ecx_FPRD_def
  ecx_APWR_def ecx_FPWR_def ecx_LRW_def ecx_LRD_def ecx_LWR_def

lemma word_prims_wp:
  assumes k: "steady p0 p"
  shows "(\<And>w q. steady p0 q \<Longrightarrow> Q (w, q)) \<Longrightarrow> ret (ecx_APRDw adp ado timeout p) Q"
    and "(\<And>w q. steady p0 q \<Longrightarrow> Q (w, q)) \<Longrightarrow> ret (ecx_FPRDw adp ado timeout p) Q"
    and "(\<And>w q. steady p0 q \<Longrightarrow> R (w, q)) \<Longrightarrow> ret (ecx_APWRw adp ado d timeout p) R"
    and "(\<And>w q. steady p0 q \<Longrightarrow> R (w, q)) \<Longrightarrow> ret (ecx_FPWRw adp ado d timeout p) R"
  unfolding ecx_APRDw_def ecx_FPRDw_def ecx_APWRw_def ecx_FPWRw_def prim_defs ret_simps
  by (rule read_prim_wp [OF k] write_prim_wp [OF k]; simp)+

lemma LRWDC_wp:
  assumes k: "steady p0 p" and n: "unat n \<le> 1470" "unat n \<le> length data"
    and Q: "\<And>w d t q. steady p0 q \<Longrightarrow> length d = length data \<Longrightarrow> Q (w, d, t, q)"
  shows "ret (ecx_LRWDC a n data dcrs dctime timeout p) Q"
  unfolding ecx_LRWDC_def ret_simps
  apply (rule getindex_wp [OF k], simp)
  apply (rule setupdatagram_wp, assumption, assumption, use n in simp, use n in simp)
  apply (rule adddatagram_wp, assumption, assumption, simp, use n in simp, simp)
  apply (rule srconfirm_wp, assumption, assumption, simp)
  subgoal premises prems for i q1 q2 off q3 w q
  proof -
    have q: "steady p0 q" "unat i < EC_MAXBUF" using prems by simp_all
    then have s: "side_ok (rx q)" by (simp add: steady_def nic_inv_def)
    have off: "unat off = 24 + unat n" using prems by simp
    show ?thesis
      using q n side_ok_lengths [OF s] hdr_ok_length [OF side_ok_nth [OF s q(2)]]
      by (auto simp: ret_if lrwdc_result_def off intro!: Q release_wp copy_rx_wp2 [OF q(1)])
  qed
  done

end

