(* ===== verification/Base_Props.thy ===== *)
theory Base_Props
  imports Base_Safety
begin

text \<open>
  What the primitives guarantee: no index leaks, the frame they build is the datagram sequence
  asked for, and the data handed back is that of the reply.
\<close>

section \<open>No index leaks\<close>

text \<open>The other indices are as free or busy as before.\<close>

definition others :: "byte \<Rightarrow> ecx_portt \<Rightarrow> ecx_portt \<Rightarrow> bool" where
  "others idx p q \<longleftrightarrow> length (rxbufstat (rx q)) = length (rxbufstat (rx p)) \<and>
     (\<forall>j. j \<noteq> unat idx \<longrightarrow> j < length (rxbufstat (rx p)) \<longrightarrow>
        (rxbufstat (rx q) ! j = EC_BUF_EMPTY \<longleftrightarrow> rxbufstat (rx p) ! j = EC_BUF_EMPTY))"

lemma others_refl [simp]: "others idx p p"
  by (simp add: others_def)

lemma others_trans [trans]: "others idx p q \<Longrightarrow> others idx q r \<Longrightarrow> others idx p r"
  by (simp add: others_def)

lemma others_stat: "rxbufstat (rx q) = rxbufstat (rx p) \<Longrightarrow> others idx p q"
  by (simp add: others_def)

lemma others_os [simp]:
  "others idx p (q\<lparr>os := e\<rparr>) = others idx p q"
  "others idx (p\<lparr>os := e\<rparr>) q = others idx p q"
  "others idx (p\<lparr>txbuf2 := b\<rparr>) q = others idx p q"
  "others idx (p\<lparr>txbuf := bs\<rparr>) q = others idx p q"
  "others idx p (q\<lparr>txbuf := bs\<rparr>) = others idx p q"
  "others idx p (q\<lparr>txbuflength := ls\<rparr>) = others idx p q"
  by (simp_all add: others_def)

lemma timer_others:
  "others idx p q \<Longrightarrow> others idx p (snd (timer_start us q))"
  "others idx p q \<Longrightarrow> others idx p (snd (and_not_expired c t q))"
  by (simp_all add: timer_start_def and_not_expired_def timer_expired_def case_prod_unfold Let_def)

lemma stack_stat_others:
  "par (stack_stat sn idx v p) (others idx p)"
  by (auto simp: stack_stat_def stack_of_def set_stack_def bind_eq_Some_conv others_def intro!: parI)

lemma par_trans:
  assumes "par m (\<lambda>(x, q). others idx p q)" "\<And>x q. others idx p q \<Longrightarrow> par (f x q) Q"
  shows "par (m \<bind> (\<lambda>(x, q). f x q)) Q"
  using assms by (auto simp: par_def bind_eq_Some_conv)

lemma outframe_others: "par (ecx_outframe idx sn p) (\<lambda>(r, q). others idx p q)"
  by (auto simp: ecx_outframe_def sock_send_def case_prod_unfold Let_def bind_eq_Some_conv ret_if
      intro!: parI split: if_splits dest!: parD [OF stack_stat_others] intro: others_trans)

lemma outframe_dummy_others: "par (outframe_dummy idx p) (others idx p)"
  by (auto simp: outframe_dummy_def sock_send_def case_prod_unfold Let_def bind_eq_Some_conv ret_if
      intro!: parI split: if_splits dest!: parD [OF stack_stat_others] intro: others_trans)

lemma outframe_red_others: "par (ecx_outframe_red idx p) (\<lambda>(r, q). others idx p q)"
  by (auto simp: ecx_outframe_red_def bind_eq_Some_conv intro!: parI split: if_splits
      dest!: parD [OF outframe_others] parD [OF outframe_dummy_others] intro: others_trans)

text \<open>Receiving: a frame of another index turns \<open>EC_BUF_TX\<close> into \<open>EC_BUF_RCVD\<close>, busy both.\<close>

lemma store_rx_stat: "par (store_rx sn i p) (\<lambda>(b, q). rxbufstat (rx q) = rxbufstat (rx p)
     \<and> (sn \<noteq> 0 \<longrightarrow> rx q = rx p))"
  by (auto simp: store_rx_def stack_of_def set_stack_def bind_eq_Some_conv intro!: parI)

lemma store_sa_stat: "par (store_sa sn i p) (\<lambda>q. rxbufstat (rx q) = rxbufstat (rx p))"
  by (auto simp: store_sa_def stack_of_def set_stack_def bind_eq_Some_conv intro!: parI)

lemma recvpkt_stat: "par (ecx_recvpkt sn p) (\<lambda>(g, q). rxbufstat (rx q) = rxbufstat (rx p))"
  by (auto simp: ecx_recvpkt_def stack_of_def set_stack_def os_recv_def Let_def bind_eq_Some_conv
      intro!: parI)

lemma store_rx_stack:
  "par (store_rx sn i p) (\<lambda>(b, q). map_option rxbufstat (stack_of sn q) = map_option rxbufstat (stack_of sn p))"
  by (auto simp: store_rx_def stack_of_def set_stack_def bind_eq_Some_conv intro!: parI)

lemma stack_stat_busy:
  assumes "map_option rxbufstat (stack_of sn p) = Some st" and "st ! unat j = EC_BUF_TX"
  shows "par (stack_stat sn j EC_BUF_RCVD p) (others idx p)"
  using assms
  by (auto simp: stack_stat_def stack_of_def set_stack_def bind_eq_Some_conv others_def nth_list_update
      intro!: parI split: if_splits)

lemma inframe_ecat_others: "par (inframe_ecat sn idx p) (\<lambda>(w, q). others idx p q)"
proof -
  have sa: "others idx p r" if "others idx p q" "store_sa sn i q = Some r" for i q r
    using that parD [OF store_sa_stat that(2)] by (auto intro: others_trans others_stat)
  have rxq: "others idx p q" if "store_rx sn i p = Some (b, q)" for i b q
    using parD [OF store_rx_stat that] by (auto intro: others_stat)
  have hit: "others idx p r" if "store_rx sn i p = Some (b, q)" "stack_stat sn idx v q = Some r" for i b q r v
    by (rule others_trans [OF rxq [OF that(1)] parD [OF stack_stat_others that(2)]])
  have miss: "others idx p r" if st: "stack_of sn p = Some s" "rxbufstat s ! unat j = EC_BUF_TX"
    and "store_rx sn i p = Some (b, q)" "stack_stat sn j EC_BUF_RCVD q = Some r" for i b q r j s
  proof -
    have "map_option rxbufstat (stack_of sn q) = Some (rxbufstat s)"
      using parD [OF store_rx_stack that(3)] st by simp
    from parD [OF stack_stat_busy [OF this st(2)] that(4)] show ?thesis
      by (rule others_trans [OF rxq [OF that(3)]])
  qed
  show ?thesis
    by (auto simp: inframe_ecat_def Let_def bind_eq_Some_conv intro!: parI split: if_splits
        intro: sa [OF hit] sa [OF miss])
qed

lemma inframe_others: "par (ecx_inframe idx sn p) (\<lambda>(w, q). others idx p q)"
proof -
  have buffered: "par (inframe_buffered sn idx p) (\<lambda>(w, q). others idx p q)"
    by (auto simp: inframe_buffered_def bind_eq_Some_conv intro!: parI dest: parD [OF stack_stat_others])
  have "others idx p r" if "ecx_recvpkt sn p = Some (g, q)" "others idx q r" for g q r
    using that parD [OF recvpkt_stat that(1)] by (auto intro: others_trans others_stat)
  then show ?thesis
    by (auto simp: ecx_inframe_def bind_eq_Some_conv intro!: parI split: if_splits
        dest: parD [OF buffered] parD [OF inframe_ecat_others] intro: others_stat parD [OF recvpkt_stat])
qed

lemma poll_others:
  assumes "\<And>y q. par (body (y, q)) (\<lambda>(z, r). others idx q r)"
  shows "par (poll t c body (x, p)) (\<lambda>(y, r). others idx p r)"
proof -
  have "par (poll t c body (x, p)) (\<lambda>(y, r). \<exists>q. others idx p q \<and> r = snd (and_not_expired (c y) t q)
     \<and> \<not> fst (and_not_expired (c y) t q))"
    by (rule poll_par [where I = "\<lambda>y q. others idx p q"])
      (auto intro: timer_others par_conseq [OF assms] others_trans)
  then show ?thesis by (rule par_conseq) (auto intro: timer_others)
qed

lemma copy_others:
  "par (copy_red_rx i p) (others idx p)" "par (copy_rx_tx i p) (others idx p)"
  by (auto simp: copy_red_rx_def copy_rx_tx_def bind_eq_Some_conv intro!: parI others_stat split: if_splits)

lemma waitinframe_poll_others: "par (waitinframe_poll idx t (x, p)) (\<lambda>(y, q). others idx p q)"
  unfolding waitinframe_poll_def
  by (rule poll_others)
    (auto simp: bind_eq_Some_conv intro!: parI split: if_splits dest!: parD [OF inframe_others] intro: others_trans)

lemma resend_poll_others: "par (resend_poll idx t (x, p)) (\<lambda>(y, q). others idx p q)"
  unfolding resend_poll_def by (rule poll_others) (auto intro: inframe_others)

lemma timer_start_others: "timer_start us p = (t, q) \<Longrightarrow> others idx p q"
  using timer_others(1) [OF others_refl, of idx p us] by simp

text \<open>The same as backward steps: what holds since \<open>p\<close> before an operation holds after it.\<close>

lemma since_others:
  "copy_red_rx i q = Some r \<Longrightarrow> others idx p q \<Longrightarrow> others idx p r"
  "copy_rx_tx i q = Some r \<Longrightarrow> others idx p q \<Longrightarrow> others idx p r"
  "ecx_outframe idx sn q = Some (x, r) \<Longrightarrow> others idx p q \<Longrightarrow> others idx p r"
  "ecx_outframe_red idx q = Some (x, r) \<Longrightarrow> others idx p q \<Longrightarrow> others idx p r"
  "resend_poll idx t (w, q) = Some (y, r) \<Longrightarrow> others idx p q \<Longrightarrow> others idx p r"
  "timer_start us q = (t, r) \<Longrightarrow> others idx p q \<Longrightarrow> others idx p r"
  using parD [OF copy_others(1), of i q r] parD [OF copy_others(2), of i q r]
    parD [OF outframe_others] parD [OF outframe_red_others] parD [OF resend_poll_others]
    timer_start_others by (blast intro: others_trans | fastforce intro: others_trans)+

lemma waitinframe_resend_others: "par (waitinframe_resend idx a w w2 p) (\<lambda>(x, q). others idx p q)"
  by (auto simp: waitinframe_resend_def Let_def bind_eq_Some_conv intro!: parI
      split: if_splits prod.splits)
    ((rule others_refl | rule since_others, assumption)+)

lemma waitinframe_route_others: "par (waitinframe_route idx w w2 p) (\<lambda>(x, q). others idx p q)"
  by (auto simp: waitinframe_route_def bind_eq_Some_conv intro!: parI split: if_splits
      dest!: parD [OF copy_others(1) [where idx = idx]] parD [OF waitinframe_resend_others]
      intro: others_trans)

lemma waitinframe_red_others: "par (ecx_waitinframe_red idx t p) (\<lambda>(x, q). others idx p q)"
  by (auto simp: ecx_waitinframe_red_def bind_eq_Some_conv intro!: parI split: if_splits
      dest!: parD [OF waitinframe_poll_others] parD [OF waitinframe_route_others] intro: others_trans)

lemma since_wait: "ecx_waitinframe_red idx t q = Some (x, r) \<Longrightarrow> others idx p q \<Longrightarrow> others idx p r"
  using parD [OF waitinframe_red_others] by (fastforce intro: others_trans)

lemma srconfirm_others: "par (ecx_srconfirm idx timeout p) (\<lambda>(w, q). others idx p q)"
proof -
  have attempt: "par (srconfirm_try idx timeout p) (\<lambda>(x, q). others idx p q)" for p
    by (auto simp: srconfirm_try_def Let_def bind_eq_Some_conv intro!: parI split: if_splits prod.splits)
      ((rule others_refl | rule since_wait, assumption | rule since_others, assumption)+)
  obtain t q where tq: "timer_start timeout p = (t, q)" by force
  have "par (poll t (\<lambda>wkc. wkc \<le> EC_NOFRAME) (\<lambda>(wkc, p). srconfirm_try idx timeout p) (EC_NOFRAME, q))
      (\<lambda>(w, r). others idx q r)"
    by (rule poll_others) (simp add: attempt)
  then have "par (poll t (\<lambda>wkc. wkc \<le> EC_NOFRAME) (\<lambda>(wkc, p). srconfirm_try idx timeout p) (EC_NOFRAME, q))
      (\<lambda>(w, r). others idx p r)"
    by (rule par_conseq) (auto intro: others_trans timer_start_others [OF tq])
  then show ?thesis by (simp add: ecx_srconfirm_def tq)
qed

lemma setupdatagram_others: "par (ecx_setupdatagram f com i adp ado n d p) (others idx p)"
  by (auto simp: ecx_setupdatagram_def set_frame_def bind_eq_Some_conv intro!: parI others_stat
      split: framebuf.splits)

lemma setbufstat_others: "par (ecx_setbufstat idx v p) (others idx p)"
  by (rule par_conseq [OF stat_setbufstat]) (simp add: others_def)

text \<open>An exchange takes a fresh index and the caller releases it.\<close>

lemma busy_others:
  assumes "others i q r" and "length (rxbufstat (rx q)) = EC_MAXBUF"
  shows "busy_indices r - {i} = busy_indices q - {i}"
  using assms by (auto simp: others_def busy_indices_def dest: unsigned_word_eqI)

lemma exchange_busy:
  assumes inv: "nic_inv p" and free: "card (busy_indices p) < EC_MAXBUF"
  shows "par (exchange com adp ado n d timeout p)
     (\<lambda>(i, w, q). i \<notin> busy_indices p \<and> busy_indices q - {i} = busy_indices p)"
proof (rule parI, clarify)
  fix i w r
  assume x: "exchange com adp ado n d timeout p = Some (i, w, r)"
  then obtain q s where g: "ecx_getindex p = Some (i, q)"
    and su: "ecx_setupdatagram (TxBuf i) com i adp ado n d q = Some s"
    and sr: "ecx_srconfirm i timeout s = Some (w, r)"
    by (auto simp: exchange_def bind_eq_Some_conv)
  from getindex_ok [OF inv free] g have q: "i \<notin> busy_indices p" "busy_indices q = insert i (busy_indices p)"
    "nic_inv q" by (simp_all add: ret_def)
  have "others i q r"
    using parD [OF setupdatagram_others su] parD [OF srconfirm_others sr] by (auto intro: others_trans)
  then have "busy_indices r - {i} = busy_indices q - {i}"
    by (rule busy_others) (use q in \<open>simp add: nic_inv_def side_ok_def\<close>)
  with q show "i \<notin> busy_indices p \<and> busy_indices r - {i} = busy_indices p" by auto
qed

lemma setbufstat_release:
  assumes "nic_inv q" and "unat i < EC_MAXBUF"
  shows "par (ecx_setbufstat i EC_BUF_EMPTY q) (\<lambda>r. busy_indices r = busy_indices q - {i})"
  by (rule par_conseq [OF stat_setbufstat])
    (use assms busy_index_update [of q i] in \<open>auto simp: nic_inv_def side_ok_def\<close>)

lemma prim_busy:
  assumes inv: "nic_inv p" and free: "card (busy_indices p) < EC_MAXBUF"
    and n: "unat n \<le> 1490" "unat n \<le> length d"
  shows "par (read_prim com adp ado n d timeout p) (\<lambda>(w, d, q). busy_indices q = busy_indices p)"
    and "par (write_prim com adp ado n d timeout p) (\<lambda>(w, q). busy_indices q = busy_indices p)"
    and "par (logical_prim com a n d timeout p) (\<lambda>(w, d, q). busy_indices q = busy_indices p)"
proof -
  have x: "par (exchange com adp ado n d timeout p) (\<lambda>(i, w, q). (nic_inv q \<and> unat i < EC_MAXBUF)
      \<and> i \<notin> busy_indices p \<and> busy_indices q - {i} = busy_indices p)" for adp ado
  proof -
    have "ret (exchange com adp ado n d timeout p) (\<lambda>(i, w, q). nic_inv q \<and> unat i < EC_MAXBUF)"
      by (rule exchange_wp [OF steady_refl [OF inv] n]) (simp add: steady_def)
    from par_conj [OF ret_imp_par [OF this] exchange_busy [OF inv free]] show ?thesis
      by (rule par_conseq) auto
  qed
  have rel: "busy_indices r = busy_indices p" if "ecx_setbufstat i EC_BUF_EMPTY q = Some r"
    "exchange com adp ado n d timeout p = Some (i, w, q)" for i w q r adp ado
    using parD [OF x that(2)] parD [OF setbufstat_release that(1)] by auto
  show "par (read_prim com adp ado n d timeout p) (\<lambda>(w, d, q). busy_indices q = busy_indices p)"
    "par (write_prim com adp ado n d timeout p) (\<lambda>(w, q). busy_indices q = busy_indices p)"
    "par (logical_prim com a n d timeout p) (\<lambda>(w, d, q). busy_indices q = busy_indices p)"
    by (auto simp: read_prim_def write_prim_def logical_prim_def bind_eq_Some_conv intro!: parI
        dest: rel split: if_splits)
qed

section \<open>Properties\<close>

text \<open>
  C24: the blocking primitives return within memory, hand back a data buffer of the caller's size
  and release the index they took: while one index is free, the set of busy indices is the same
  before and after a read, a write and a logical read-write.
\<close>

theorem primitives_release_index:
  assumes inv: "nic_inv p" and free: "card (busy_indices p) < EC_MAXBUF"
    and n: "unat n \<le> 1490" "unat n \<le> length d"
  shows "ret (ecx_FPRD adp ado n d timeout p)
           (\<lambda>(w, d', q). nic_inv q \<and> busy_indices q = busy_indices p \<and> length d' = length d)
     \<and> ret (ecx_FPWR adp ado n d timeout p) (\<lambda>(w, q). nic_inv q \<and> busy_indices q = busy_indices p)
     \<and> ret (ecx_LRW a n d timeout p)
           (\<lambda>(w, d', q). nic_inv q \<and> busy_indices q = busy_indices p \<and> length d' = length d)"
proof (intro conjI)
  note s = steady_refl [OF inv] and b = prim_busy [OF inv free n]
  show "ret (ecx_FPRD adp ado n d timeout p)
      (\<lambda>(w, d', q). nic_inv q \<and> busy_indices q = busy_indices p \<and> length d' = length d)"
    unfolding prim_defs
    by (rule ret_conseq [OF ret_par [OF read_prim_wp [OF s n, of "\<lambda>(w, d', q). nic_inv q \<and> length d' = length d"] b(1)]])
      (auto simp: steady_def)
  show "ret (ecx_FPWR adp ado n d timeout p) (\<lambda>(w, q). nic_inv q \<and> busy_indices q = busy_indices p)"
    unfolding prim_defs
    by (rule ret_conseq [OF ret_par [OF write_prim_wp [OF s n, of "\<lambda>(w, q). nic_inv q"] b(2)]])
      (auto simp: steady_def)
  show "ret (ecx_LRW a n d timeout p)
      (\<lambda>(w, d', q). nic_inv q \<and> busy_indices q = busy_indices p \<and> length d' = length d)"
    unfolding prim_defs
    by (rule ret_conseq [OF ret_par [OF logical_prim_wp [OF s n, of "\<lambda>(w, d', q). nic_inv q \<and> length d' = length d"] b(3)]])
      (auto simp: steady_def)
qed

theorem primitives_release_index_witness:
  "ret (ecx_FPRD 0x1001 0x130 6 (replicate 6 0) 2000 demo_port)
     (\<lambda>(w, d', q). nic_inv q \<and> busy_indices q = busy_indices demo_port \<and> length d' = 6)"
  using primitives_release_index [OF demo_port_inv, where n = 6 and d = "replicate 6 0"] demo_port_busy
  by simp

end
