(* ===== verification/Frame_Format.thy ===== *)
theory Frame_Format
  imports Base_Props
begin

text \<open>
  The frames that \<open>ecx_setupdatagram\<close> and \<open>ecx_adddatagram\<close> build, read back by a reader that
  walks the datagrams as an EtherCAT slave does: by the length and the \<open>follows\<close> bit of each header.
\<close>

section \<open>The reader\<close>

record datagram =
  d_cmd :: byte
  d_idx :: byte
  d_adp :: u16
  d_ado :: u16
  d_data :: bytes

definition read16 :: "bytes \<Rightarrow> nat \<Rightarrow> u16" where
  "read16 f off = le_word [f ! off, f ! (off + 1)]"

fun read_datagrams :: "nat \<Rightarrow> bytes \<Rightarrow> nat \<Rightarrow> datagram list option" where
  "read_datagrams 0 f off = None"
| "read_datagrams (Suc k) f off =
     (let dl = read16 f (off + 6); n = unat (dl AND 0x07ff)
      in if off + 12 + n \<le> length f
         then let d = \<lparr>d_cmd = f ! off, d_idx = f ! (off + 1), d_adp = read16 f (off + 2),
                       d_ado = read16 f (off + 4), d_data = take n (drop (off + 10) f)\<rparr>
              in if bit dl 15 then map_option ((#) d) (read_datagrams k f (off + 12 + n))
                 else Some [d]
         else None)"

section \<open>What is in a buffer\<close>

definition header_at :: "bytes \<Rightarrow> nat \<Rightarrow> datagram \<Rightarrow> bool \<Rightarrow> bool" where
  "header_at f off d follows \<longleftrightarrow>
     off + 12 + length (d_data d) \<le> length f \<and> length (d_data d) < 2048
     \<and> f ! off = d_cmd d \<and> f ! (off + 1) = d_idx d
     \<and> read16 f (off + 2) = d_adp d \<and> read16 f (off + 4) = d_ado d
     \<and> read16 f (off + 6) = (if follows then of_nat (length (d_data d)) OR EC_DATAGRAMFOLLOWS
                             else of_nat (length (d_data d)))
     \<and> take (length (d_data d)) (drop (off + 10) f) = d_data d"

fun chain :: "bytes \<Rightarrow> nat \<Rightarrow> datagram list \<Rightarrow> bool \<Rightarrow> bool" where
  "chain f off [] follows = False"
| "chain f off [d] follows = header_at f off d follows"
| "chain f off (d # e # ds) follows =
     (header_at f off d True \<and> chain f (off + 12 + length (d_data d)) (e # ds) follows)"

definition size_of :: "datagram list \<Rightarrow> nat" where
  "size_of ds = sum_list (map (\<lambda>d. 12 + length (d_data d)) ds)"

lemma size_of_simps [simp]:
  "size_of [] = 0" "size_of (d # ds) = 12 + length (d_data d) + size_of ds"
  "size_of (ds @ es) = size_of ds + size_of es"
  by (simp_all add: size_of_def)

lemma flag_bits:
  assumes "n < 2048"
  shows "unat ((of_nat n OR 0x8000 :: u16) AND 0x07ff) = n" "bit (of_nat n OR 0x8000 :: u16) 15"
    "unat ((of_nat n :: u16) AND 0x07ff) = n" "\<not> bit (of_nat n :: u16) 15"
proof -
  have m: "(0x07ff :: u16) = mask 11" by (simp add: mask_eq_exp_minus_1)
  have s: "take_bit 11 (0x8000 :: u16) = 0" "bit (0x8000 :: u16) 15" 
    by (simp_all add: One_nat_def)
  have u: "unat (take_bit 11 (of_nat n :: u16)) = n"
    using assms by (simp add: unsigned_take_bit_eq unat_of_nat take_bit_nat_eq_self)
  show "unat ((of_nat n OR 0x8000 :: u16) AND 0x07ff) = n"  "unat ((of_nat n :: u16) AND 0x07ff) = n"
    unfolding m take_bit_eq_mask [symmetric] take_bit_or s using u by simp_all
  show "bit (of_nat n OR 0x8000 :: u16) 15" using s by (simp add: bit_or_iff)
  have "\<not> bit n 15" using assms by (simp add: bit_iff_odd)
  then show "\<not> bit (of_nat n :: u16) 15" by (simp add: bit_of_nat_iff)
qed

text \<open>A buffer with a well-formed chain of datagrams is read back.\<close>

lemma read_chain:
  assumes "chain f off ds False" and "length ds \<le> k"
  shows "read_datagrams k f off = Some ds"
  using assms
proof (induction ds arbitrary: off k rule: induct_list012)
  case 1
  then show ?case by simp
next
  case (2 d)
  then obtain k' where k: "k = Suc k'" by (cases k) auto
  have h: "header_at f off d False" using 2 by simp
  then have "unat (read16 f (off + 6) AND 0x07ff) = length (d_data d)" "\<not> bit (read16 f (off + 6)) 15"
    by (simp_all add: header_at_def flag_bits)
  then show ?case using h by (simp add: k Let_def header_at_def)
next
  case (3 d e ds)
  then obtain k' where k: "k = Suc k'" "length (e # ds) \<le> k'" by (cases k) auto
  have h: "header_at f off d True" and c: "chain f (off + 12 + length (d_data d)) (e # ds) False"
    using 3 by simp_all
  then have u: "unat (read16 f (off + 6) AND 0x07ff) = length (d_data d)" "bit (read16 f (off + 6)) 15"
    by (simp_all add: header_at_def flag_bits)
  have "read_datagrams k' f (off + 12 + length (d_data d)) = Some (e # ds)"
    by (rule "3.IH"(2) [OF c k(2)])
  then show ?case using h u by (simp add: k Let_def header_at_def)
qed

section \<open>What the writers leave behind\<close>

lemma mem_write_nth:
  "mem_write b off xs = Some c \<Longrightarrow> i < length b \<Longrightarrow>
     c ! i = (if off \<le> i \<and> i < off + length xs then xs ! (i - off) else b ! i)"
  by (auto simp: mem_write_Some nth_append)

definition written :: "byte \<Rightarrow> u16 \<Rightarrow> bytes \<Rightarrow> bytes" where
  "written com n data =
     (if com \<in> {EC_CMD_NOP, EC_CMD_APRD, EC_CMD_FPRD, EC_CMD_BRD, EC_CMD_LRD}
      then replicate (unat n) 0 else take (unat n) data)"

lemma writes_nth:
  "put8 f off v = Some g \<Longrightarrow> length g = length f \<and> (\<forall>i < length f. g ! i = (if i = off then v else f ! i))"
  "put16 f off w = Some g \<Longrightarrow> length g = length f \<and>
     (\<forall>i < length f. g ! i = (if i = off then ucast w else if i = off + 1 then ucast (drop_bit 8 w) else f ! i))"
  "ecx_writedatagramdata f off com n data = Some g \<Longrightarrow> unat n \<le> length data \<Longrightarrow> length g = length f \<and>
     (\<forall>i < length f. g ! i = (if off \<le> i \<and> i < off + unat n then written com n data ! (i - off) else f ! i))"
proof -
  show "put8 f off v = Some g \<Longrightarrow> length g = length f \<and> (\<forall>i < length f. g ! i = (if i = off then v else f ! i))"
    unfolding put8_def by (auto simp: mem_write_nth dest: mem_write_length)
  assume w: "put16 f off w = Some g"
  have b: "le_bytes 2 w = [ucast w, ucast (drop_bit 8 w)]"
    by (simp add: le_bytes_def numeral_2_eq_2)
  have "i = off \<or> i = off + 1 \<or> \<not> (off \<le> i \<and> i < off + 2)" for i by linarith
  with w show "length g = length f \<and> (\<forall>i < length f. g ! i =
      (if i = off then ucast w else if i = off + 1 then ucast (drop_bit 8 w) else f ! i))"
    unfolding put16_def b by (auto simp: mem_write_nth dest: mem_write_length)
next
  assume w: "ecx_writedatagramdata f off com n data = Some g" and n: "unat n \<le> length data"
  show "length g = length f \<and> (\<forall>i < length f. g ! i =
      (if off \<le> i \<and> i < off + unat n then written com n data ! (i - off) else f ! i))"
  proof (cases "0 < n")
    case False
    then have "n = 0" by (simp add: word_gt_0)
    with w show ?thesis by (auto simp: ecx_writedatagramdata_def)
  next
    case True
    then have "mem_write f off (written com n data) = Some g"
      using w by (auto simp: ecx_writedatagramdata_def written_def mem_read_Some bind_eq_Some_conv split: if_splits)
    moreover have "length (written com n data) = unat n" using n by (simp add: written_def)
    ultimately show ?thesis by (auto simp: mem_write_nth dest: mem_write_length)
  qed
qed

lemma split16: "le_word [ucast w, ucast (drop_bit 8 w)] = (w :: u16)"
proof -
  have "le_bytes 2 w = [ucast w, ucast (drop_bit 8 w)]"
    by (simp add: le_bytes_def numeral_2_eq_2)
  then show ?thesis using le16 [of w] by simp
qed

lemma length_written: "unat n \<le> length data \<Longrightarrow> length (written com n data) = unat n"
  by (simp add: written_def)

lemma put_datagram_header:
  assumes w: "put_datagram f h com idx adp ado dl n data = Some g" and n: "unat n \<le> length data"
    and room: "h + 14 + unat n \<le> length f"
  shows "length g = length f" "\<forall>i < h + 2. g ! i = f ! i" "g ! (h + 2) = com" "g ! (h + 3) = idx"
    "read16 g (h + 4) = adp" "read16 g (h + 6) = ado" "read16 g (h + 8) = dl"
    "take (unat n) (drop (h + 12) g) = written com n data"
proof -
  from w obtain f1 f2 f3 f4 f5 f6 f7 where
    "put8 f (h + 2) com = Some f1" "put8 f1 (h + 3) idx = Some f2" "put16 f2 (h + 4) adp = Some f3"
    "put16 f3 (h + 6) ado = Some f4" "put16 f4 (h + 8) dl = Some f5"
    "ecx_writedatagramdata f5 (h + 12) com n data = Some f6"
    "put8 f6 (h + 12 + unat n) 0 = Some f7" "put8 f7 (h + 12 + unat n + 1) 0 = Some g"
    by (auto simp: put_datagram_def bind_eq_Some_conv)
  note s = writes_nth(1) [OF this(1)] writes_nth(1) [OF this(2)] writes_nth(2) [OF this(3)]
    writes_nth(2) [OF this(4)] writes_nth(2) [OF this(5)] writes_nth(3) [OF this(6) n]
    writes_nth(1) [OF this(7)] writes_nth(1) [OF this(8)]
  have len: "length f1 = length f" "length f2 = length f" "length f3 = length f" "length f4 = length f"
    "length f5 = length f" "length f6 = length f" "length f7 = length f" "length g = length f"
    using s by simp_all
  have nth: "g ! i =
     (if i = h + 12 + unat n + 1 \<or> i = h + 12 + unat n then 0
      else if h + 12 \<le> i \<and> i < h + 12 + unat n then written com n data ! (i - (h + 12))
      else if i = h + 8 then ucast dl else if i = h + 9 then ucast (drop_bit 8 dl)
      else if i = h + 6 then ucast ado else if i = h + 7 then ucast (drop_bit 8 ado)
      else if i = h + 4 then ucast adp else if i = h + 5 then ucast (drop_bit 8 adp)
      else if i = h + 3 then idx else if i = h + 2 then com else f ! i)" if "i < length f" for i
    using that s len by simp
  show "length g = length f" by (rule len)
  show "\<forall>i < h + 2. g ! i = f ! i" using room by (simp add: nth)
  show "g ! (h + 2) = com" "g ! (h + 3) = idx" using room by (simp_all add: nth)
  show "read16 g (h + 4) = adp" "read16 g (h + 6) = ado" "read16 g (h + 8) = dl"
    using room by (simp_all add: read16_def nth split16)
  show "take (unat n) (drop (h + 12) g) = written com n data"
    using room n len by (intro nth_equalityI) (simp_all add: nth length_written)
qed

section \<open>Chains of datagrams\<close>

lemma take_drop_cong:
  assumes "a + n \<le> length f" and "length g = length f"
    and "\<And>i. a \<le> i \<Longrightarrow> i < a + n \<Longrightarrow> g ! i = f ! i"
  shows "take n (drop a g) = take n (drop a f)"
  using assms by (intro nth_equalityI) simp_all

lemma header_at_cong:
  assumes "header_at f off d fl" and "length g = length f"
    and eq: "\<And>i. off \<le> i \<Longrightarrow> i < off + 12 + length (d_data d) \<Longrightarrow> g ! i = f ! i"
  shows "header_at g off d fl"
proof -
  let ?n = "length (d_data d)"
  have "take ?n (drop (off + 10) g) = take ?n (drop (off + 10) f)"
  proof (rule take_drop_cong)
    show "off + 10 + ?n \<le> length f" using assms(1) by (simp add: header_at_def)
  qed (use assms(2) eq in simp_all)
  with assms show ?thesis by (simp add: header_at_def read16_def)
qed

lemma chain_cong:
  assumes "chain f off ds fl" and "length g = length f"
    and "\<And>i. off \<le> i \<Longrightarrow> i < off + size_of ds \<Longrightarrow> g ! i = f ! i"
  shows "chain g off ds fl"
  using assms
proof (induction ds arbitrary: off rule: induct_list012)
  case 1
  then show ?case by simp
next
  case (2 d)
  then show ?case by (auto intro!: header_at_cong [of f])
next
  case (3 d e ds)
  have "header_at g off d True" using 3 by (auto intro!: header_at_cong [of f])
  moreover have "chain g (off + 12 + length (d_data d)) (e # ds) fl"
    using 3 by (intro "3.IH"(2)) auto
  ultimately show ?case by simp
qed

lemma chain_append:
  "chain f off ds True \<Longrightarrow> header_at f (off + size_of ds) d fl \<Longrightarrow> chain f off (ds @ [d]) fl"
  by (induction ds arbitrary: off rule: induct_list012) (auto simp: ac_simps)

text \<open>Setting the \<open>follows\<close> flag of the first datagram completes the chain.\<close>

lemma chain_flag:
  assumes c: "chain f off ds fl" and one: "length ds = 1 \<or> fl" and len: "length g = length f"
    and eq: "\<And>i. off \<le> i \<Longrightarrow> i < off + size_of ds \<Longrightarrow> i \<noteq> off + 6 \<Longrightarrow> i \<noteq> off + 7 \<Longrightarrow> g ! i = f ! i"
    and flag: "read16 g (off + 6) = read16 f (off + 6) OR EC_DATAGRAMFOLLOWS"
  shows "chain g off ds True"
proof -
  have head: "header_at g off d True" if h: "header_at f off d b" and i: "size_of ds \<ge> 12 + length (d_data d)" for d b
  proof -
    let ?n = "length (d_data d)"
    have "take ?n (drop (off + 10) g) = take ?n (drop (off + 10) f)"
    proof (rule take_drop_cong)
      show "off + 10 + ?n \<le> length f" using h by (simp add: header_at_def)
    qed (use len eq i in simp_all)
    moreover have "read16 g (off + 6) = of_nat ?n OR EC_DATAGRAMFOLLOWS"
      using h flag by (cases b) (simp_all add: header_at_def or.assoc)
    moreover have "g ! (off + j) = f ! (off + j)" if "j < 6" for j
      using that i by (intro eq) simp_all
    from this [of 0] this [of 1] this [of 2] this [of 3] this [of 4] this [of 5]
    have "g ! off = f ! off" "g ! (off + 1) = f ! (off + 1)" "read16 g (off + 2) = read16 f (off + 2)"
      "read16 g (off + 4) = read16 f (off + 4)" by (simp_all add: read16_def add.assoc)
    ultimately show ?thesis using h len by (simp add: header_at_def)
  qed
  show ?thesis
  proof (cases ds rule: remdups_adj.cases)
    case 1
    with c show ?thesis by simp
  next
    case (2 d)
    with c head show ?thesis by simp
  next
    case (3 d e es)
    then have fl using one by simp
    have "chain g (off + 12 + length (d_data d)) (e # es) True"
    proof (rule chain_cong [of f])
      show "chain f (off + 12 + length (d_data d)) (e # es) True" using c 3 \<open>fl\<close> by simp
      show "g ! i = f ! i" if "off + 12 + length (d_data d) \<le> i"
        "i < off + 12 + length (d_data d) + size_of (e # es)" for i
        by (rule eq) (use that 3 in simp_all)
    qed (rule len)
    moreover have "header_at g off d True" by (rule head [of d True]) (use c 3 in simp_all)
    ultimately show ?thesis using 3 by simp
  qed
qed

text \<open>What the two builders leave in the frame buffer.\<close>

definition dgram :: "byte \<Rightarrow> byte \<Rightarrow> u16 \<Rightarrow> u16 \<Rightarrow> u16 \<Rightarrow> bytes \<Rightarrow> datagram" where
  "dgram com idx adp ado n data =
     \<lparr>d_cmd = com, d_idx = idx, d_adp = adp, d_ado = ado, d_data = written com n data\<rparr>"

lemma setup_frame_chain:
  assumes w: "setup_frame f com idx adp ado n data = Some g"
    and n: "unat n \<le> length data" "unat n < 2048" and room: "28 + unat n \<le> length f"
  shows "chain g 16 [dgram com idx adp ado n data] False" and "length g = length f"
proof -
  from w obtain f1 where f1: "put16 f 14 (EC_ECATTYPE + 12 + n) = Some f1"
    and p: "put_datagram f1 14 com idx adp ado n n data = Some g"
    by (auto simp: setup_frame_def bind_eq_Some_conv)
  from f1 have l1: "length f1 = length f" by (rule put16_length)
  note h = put_datagram_header [OF p n(1)]
  show "length g = length f" using h room l1 by simp
  then show "chain g 16 [dgram com idx adp ado n data] False"
    using h room l1 n by (simp add: header_at_def dgram_def length_written)
qed

lemma add_frame_chain:
  assumes w: "add_frame f m com idx follows adp ado n data = Some g"
    and c: "chain f 16 ds fl" "length ds = 1 \<or> fl" and m: "m = 16 + size_of ds"
    and n: "unat n \<le> length data" "unat n < 2048" and room: "m + 12 + unat n \<le> length f"
  shows "chain g 16 (ds @ [dgram com idx adp ado n data]) follows" and "length g = length f"
proof -
  have m28: "28 \<le> m" using c m by (cases ds) auto
  from w obtain el f1 dl f2 where f1: "put16 f 14 el = Some f1" and dl: "get16 f1 22 = Some dl"
    and f2: "put16 f1 22 (dl OR EC_DATAGRAMFOLLOWS) = Some f2"
    and p: "put_datagram f2 (m - 2) com idx adp ado (if follows then n OR EC_DATAGRAMFOLLOWS else n) n data = Some g"
    by (auto simp: add_frame_def bind_eq_Some_conv)
  obtain w where w: "w = dl OR EC_DATAGRAMFOLLOWS" by simp
  note s1 = writes_nth(2) [OF f1] and s2 = writes_nth(2) [OF f2 [folded w]]
  then have len: "length f1 = length f" "length f2 = length f" by simp_all
  have "m - 2 + 14 + unat n \<le> length f2" using room m28 len by simp
  note h = put_datagram_header [OF p n(1) this]
  have hm: "m - 2 + 2 = m" "m - 2 + 3 = m + 1" "m - 2 + 4 = m + 2" "m - 2 + 6 = m + 4"
    "m - 2 + 8 = m + 6" "m - 2 + 12 = m + 10" using m28 by simp_all
  note h = h [unfolded hm]
  show lg: "length g = length f" using h len by simp
  have head: "header_at g m (dgram com idx adp ado n data) follows"
    using h room n lg by (simp add: header_at_def dgram_def length_written)
  have "dl = read16 f 22"
    using dl s1 room m28 by (auto simp: get16_def mem_read_Some take_2_drop read16_def)
  moreover have "read16 g 22 = read16 f2 22" using h(2) m28 by (simp add: read16_def)
  moreover have "read16 f2 22 = w"
    using s2 len room m28 by (simp add: read16_def split16)
  ultimately have flag: "read16 g (16 + 6) = read16 f (16 + 6) OR EC_DATAGRAMFOLLOWS" by (simp add: w)
  have "g ! i = f ! i" if "16 \<le> i" "i < 16 + size_of ds" "i \<noteq> 16 + 6" "i \<noteq> 16 + 7" for i
    using that h(2) s1 s2 len m room by auto
  from chain_append [OF chain_flag [OF c lg this flag]] head m
  show "chain g 16 (ds @ [dgram com idx adp ado n data]) follows" by simp
qed

section \<open>Frames of several datagrams\<close>

text \<open>The calling pattern of \<open>ecx_LRWDC\<close>, \<open>ecx_FPRD_multi\<close> and the process data: the first datagram
  by \<open>ecx_setupdatagram\<close>, the others by \<open>ecx_adddatagram\<close>, all but the last with \<open>more\<close> set.\<close>

record request =
  r_com :: byte
  r_adp :: u16
  r_ado :: u16
  r_len :: u16
  r_data :: bytes

fun add_requests :: "byte \<Rightarrow> request list \<Rightarrow> ecx_portt \<Rightarrow> ecx_portt option" where
  "add_requests idx [] p = Some p"
| "add_requests idx (r # rs) p = do {
     (off, p) \<leftarrow> ecx_adddatagram (TxBuf idx) (r_com r) idx (rs \<noteq> []) (r_adp r) (r_ado r) (r_len r) (r_data r) p;
     add_requests idx rs p }"

fun build_requests :: "byte \<Rightarrow> request list \<Rightarrow> ecx_portt \<Rightarrow> ecx_portt option" where
  "build_requests idx [] p = None"
| "build_requests idx (r # rs) p = do {
     p \<leftarrow> ecx_setupdatagram (TxBuf idx) (r_com r) idx (r_adp r) (r_ado r) (r_len r) (r_data r) p;
     add_requests idx rs p }"

definition asked :: "byte \<Rightarrow> request \<Rightarrow> datagram" where
  "asked idx r = dgram (r_com r) idx (r_adp r) (r_ado r) (r_len r) (r_data r)"

definition fits :: "request \<Rightarrow> bool" where
  "fits r \<longleftrightarrow> unat (r_len r) \<le> length (r_data r)"

definition frame_size :: "request list \<Rightarrow> nat" where
  "frame_size rs = 16 + sum_list (map (\<lambda>r. 12 + unat (r_len r)) rs)"

lemma size_asked: "fits r \<Longrightarrow> length (d_data (asked idx r)) = unat (r_len r)"
  by (simp add: asked_def dgram_def fits_def length_written)

lemma setup_txbuf:
  "ecx_setupdatagram (TxBuf i) com idx adp ado n d p = Some q \<Longrightarrow>
     \<exists>g. setup_frame (txbuf p ! unat i) com idx adp ado n d = Some g \<and> txbuf q ! unat i = g"
  by (auto simp: ecx_setupdatagram_def frame_at_def set_frame_def bind_eq_Some_conv)

lemma add_txbuf:
  "ecx_adddatagram (TxBuf i) com idx fl adp ado n d p = Some (off, q) \<Longrightarrow> txbuflength p ! unat idx < 65536 \<Longrightarrow>
     \<exists>g. add_frame (txbuf p ! unat i) (txbuflength p ! unat idx) com idx fl adp ado n d = Some g
        \<and> txbuf q ! unat i = g"
  by (auto simp: ecx_adddatagram_def frame_at_def set_frame_def bind_eq_Some_conv Let_def split: if_splits)

lemma add_requests_chain:
  assumes "steady p0 p" and "loaded idx p" and "txbuflength p ! unat idx = 16 + size_of ds"
    and "chain (txbuf p ! unat idx) 16 ds fl" and "if rs = [] then \<not> fl else length ds = 1 \<or> fl"
    and "\<forall>r \<in> set rs. fits r" and "size_of ds + frame_size rs \<le> EC_BUFSIZE"
  shows "ret (add_requests idx rs p) (\<lambda>q. steady p0 q \<and> loaded idx q
     \<and> txbuflength q ! unat idx = size_of ds + frame_size rs
     \<and> chain (txbuf q ! unat idx) 16 (ds @ map (asked idx) rs) False)"
  using assms
proof (induction rs arbitrary: p ds fl)
  case Nil
  then show ?case by (simp add: frame_size_def)
next
  case (Cons r rs)
  let ?m = "16 + size_of ds"
  have r: "fits r" using Cons.prems by simp
  have room: "?m + 12 + unat (r_len r) \<le> EC_BUFSIZE" using Cons.prems by (simp add: frame_size_def)
  then have n2: "unat (r_len r) < 2048" by simp
  have len: "length (txbuf p ! unat idx) = EC_BUFSIZE"
    using inv_sizes(4) [OF steady_inv [OF Cons.prems(1)]] loadedD(1) [OF Cons.prems(2)] by simp
  let ?add = "ecx_adddatagram (TxBuf idx) (r_com r) idx (rs \<noteq> []) (r_adp r) (r_ado r) (r_len r) (r_data r) p"
  have "ret ?add (\<lambda>(off, q). steady p0 q \<and> loaded idx q
      \<and> txbuflength q ! unat idx = ?m + 12 + unat (r_len r))"
    by (rule adddatagram_wp [OF Cons.prems(1,2)]) (use r room Cons.prems(3) in \<open>simp_all add: fits_def\<close>)
  then obtain off q where add: "?add = Some (off, q)" and q: "steady p0 q" "loaded idx q"
    "txbuflength q ! unat idx = ?m + 12 + unat (r_len r)" by (auto simp: ret_def)
  have "txbuflength p ! unat idx < 65536" using Cons.prems(3) room by simp
  with add_txbuf [OF add] Cons.prems(3)
  have g: "add_frame (txbuf p ! unat idx) ?m (r_com r) idx (rs \<noteq> []) (r_adp r) (r_ado r) (r_len r) (r_data r)
      = Some (txbuf q ! unat idx)" by auto
  have "chain (txbuf q ! unat idx) 16 (ds @ [asked idx r]) (rs \<noteq> [])"
    unfolding asked_def
    by (rule add_frame_chain [OF g Cons.prems(4) _ refl _ n2])
      (use Cons.prems(5) r room len in \<open>simp_all add: fits_def\<close>)
  moreover have "size_of (ds @ [asked idx r]) + frame_size rs \<le> EC_BUFSIZE"
    using Cons.prems(7) by (simp add: size_asked [OF r] frame_size_def)
  moreover have "txbuflength q ! unat idx = 16 + size_of (ds @ [asked idx r])"
    by (simp add: q size_asked [OF r])
  moreover have "if rs = [] then \<not> rs \<noteq> [] else length (ds @ [asked idx r]) = 1 \<or> rs \<noteq> []" by simp
  moreover have "\<forall>r \<in> set rs. fits r" using Cons.prems(6) by simp
  ultimately have "ret (add_requests idx rs q) (\<lambda>q. steady p0 q \<and> loaded idx q
     \<and> txbuflength q ! unat idx = size_of (ds @ [asked idx r]) + frame_size rs
     \<and> chain (txbuf q ! unat idx) 16 ((ds @ [asked idx r]) @ map (asked idx) rs) False)"
    using q(1,2) by (intro Cons.IH)
  then show ?case
    by (simp add: add) (erule ret_conseq, simp add: size_asked [OF r] frame_size_def)
qed

lemma build_requests_chain:
  assumes inv: "nic_inv p" and i: "unat idx < EC_MAXBUF" and f: "\<forall>r \<in> set (r # rs). fits r"
    and size: "frame_size (r # rs) \<le> EC_BUFSIZE"
  shows "ret (build_requests idx (r # rs) p) (\<lambda>q. steady p q
     \<and> txbuflength q ! unat idx = frame_size (r # rs)
     \<and> chain (txbuf q ! unat idx) 16 (map (asked idx) (r # rs)) False)"
proof -
  have r: "fits r" and n: "unat (r_len r) \<le> 1490" using f size by (simp_all add: frame_size_def)
  let ?set = "ecx_setupdatagram (TxBuf idx) (r_com r) idx (r_adp r) (r_ado r) (r_len r) (r_data r) p"
  have "ret ?set (\<lambda>q. steady p q \<and> loaded idx q \<and> txbuflength q ! unat idx = 28 + unat (r_len r))"
    by (rule setupdatagram_wp [OF steady_refl [OF inv] i n]) (use r in \<open>simp_all add: fits_def\<close>)
  then obtain q where st: "?set = Some q" and q: "steady p q" "loaded idx q"
    "txbuflength q ! unat idx = 28 + unat (r_len r)" by (auto simp: ret_def)
  have "setup_frame (txbuf p ! unat idx) (r_com r) idx (r_adp r) (r_ado r) (r_len r) (r_data r)
      = Some (txbuf q ! unat idx)" using setup_txbuf [OF st] by auto
  from setup_frame_chain(1) [OF this] r n inv_sizes(4) [OF inv i]
  have c: "chain (txbuf q ! unat idx) 16 [asked idx r] False"
    by (simp add: asked_def fits_def)
  have "ret (add_requests idx rs q) (\<lambda>q'. steady p q' \<and> loaded idx q'
     \<and> txbuflength q' ! unat idx = size_of [asked idx r] + frame_size rs
     \<and> chain (txbuf q' ! unat idx) 16 ([asked idx r] @ map (asked idx) rs) False)"
    by (rule add_requests_chain [OF q(1,2) _ c])
      (use q(3) f size in \<open>simp_all add: size_asked [OF r] frame_size_def\<close>)
  then show ?thesis
    by (simp add: st) (erule ret_conseq, simp add: size_asked [OF r] frame_size_def)
qed

text \<open>
  C23: a frame built from any sequence of datagrams that fits is read back by a slave as exactly that
  sequence: commands, index, addresses, lengths and data (zeros for the read commands).
\<close>

theorem frame_roundtrip:
  assumes "nic_inv p" and "unat idx < EC_MAXBUF" and "\<forall>r \<in> set (r # rs). fits r"
    and "frame_size (r # rs) \<le> EC_BUFSIZE"
  shows "\<exists>q. build_requests idx (r # rs) p = Some q
     \<and> txbuflength q ! unat idx = frame_size (r # rs)
     \<and> read_datagrams (length (r # rs)) (txbuf q ! unat idx) 16 = Some (map (asked idx) (r # rs))"
proof -
  from build_requests_chain [OF assms] obtain q where
    b: "build_requests idx (r # rs) p = Some q" "txbuflength q ! unat idx = frame_size (r # rs)"
    and c: "chain (txbuf q ! unat idx) 16 (map (asked idx) (r # rs)) False"
    by (elim retE) auto
  have "length (map (asked idx) (r # rs)) \<le> length (r # rs)" by simp
  with b read_chain [OF c this] show ?thesis by blast
qed

definition demo_requests :: "request list" where
  "demo_requests = [\<lparr>r_com = EC_CMD_LRW, r_adp = 0, r_ado = 1, r_len = 2, r_data = [7, 8]\<rparr>,
     \<lparr>r_com = EC_CMD_FPRD, r_adp = 0x1001, r_ado = 0x130, r_len = 1, r_data = [9]\<rparr>,
     \<lparr>r_com = EC_CMD_FRMW, r_adp = 0x1001, r_ado = ECT_REG_DCSYSTIME, r_len = 8, r_data = replicate 8 5\<rparr>]"

theorem frame_roundtrip_witness:
  "\<exists>q. build_requests 3 demo_requests demo_port = Some q
     \<and> read_datagrams 3 (txbuf q ! 3) 16 = Some
         [\<lparr>d_cmd = EC_CMD_LRW, d_idx = 3, d_adp = 0, d_ado = 1, d_data = [7, 8]\<rparr>,
          \<lparr>d_cmd = EC_CMD_FPRD, d_idx = 3, d_adp = 0x1001, d_ado = 0x130, d_data = [0]\<rparr>,
          \<lparr>d_cmd = EC_CMD_FRMW, d_idx = 3, d_adp = 0x1001, d_ado = ECT_REG_DCSYSTIME, d_data = replicate 8 5\<rparr>]"
proof -
  obtain r rs where rs: "demo_requests = r # rs" by (simp add: demo_requests_def)
  have "\<exists>q. build_requests 3 (r # rs) demo_port = Some q
     \<and> txbuflength q ! unat (3 :: byte) = frame_size (r # rs)
     \<and> read_datagrams (length (r # rs)) (txbuf q ! unat (3 :: byte)) 16 = Some (map (asked 3) (r # rs))"
    by (rule frame_roundtrip [OF demo_port_inv])
      (simp_all add: rs [symmetric] demo_requests_def fits_def frame_size_def)
  then obtain q where "build_requests 3 demo_requests demo_port = Some q"
    "read_datagrams (length demo_requests) (txbuf q ! unat (3 :: byte)) 16 = Some (map (asked 3) demo_requests)"
    unfolding rs by blast
  moreover have "length demo_requests = 3" "unat (3 :: byte) = 3" by (simp_all add: demo_requests_def)
  moreover have "map (asked 3) demo_requests =
         [\<lparr>d_cmd = EC_CMD_LRW, d_idx = 3, d_adp = 0, d_ado = 1, d_data = [7, 8]\<rparr>,
          \<lparr>d_cmd = EC_CMD_FPRD, d_idx = 3, d_adp = 0x1001, d_ado = 0x130, d_data = [0]\<rparr>,
          \<lparr>d_cmd = EC_CMD_FRMW, d_idx = 3, d_adp = 0x1001, d_ado = ECT_REG_DCSYSTIME, d_data = replicate 8 5\<rparr>]"
    by (simp add: demo_requests_def asked_def dgram_def written_def One_nat_def)
  ultimately show ?thesis by metis
qed

end
