(* ===== verification/Ecat_Types.thy ===== *)
theory Ecat_Types
  imports Frame_Format
begin

text \<open>
  The master's data (\<open>soem_lib/soem/ethercatmain.h\<close>, \<open>ethercattype.h\<close>): slave and group lists,
  error ring, index stack, EEPROM cache, and the context all \<open>ecx_\<close> functions work on.

  A pointer into the application's process image is an offset into \<open>iomap\<close>, \<open>None\<close> for the null
  pointer. A hook the application may register is a function of its data arguments that returns the
  hook's result; hooks do not change the context.
\<close>

section \<open>Constants\<close>

abbreviation (input) EC_MAXELIST :: nat where "EC_MAXELIST \<equiv> 64"
abbreviation (input) EC_MAXNAME :: nat where "EC_MAXNAME \<equiv> 40"
abbreviation (input) EC_MAXSLAVE :: nat where "EC_MAXSLAVE \<equiv> 200"
abbreviation (input) EC_MAXGROUP :: nat where "EC_MAXGROUP \<equiv> 2"
abbreviation (input) EC_MAXIOSEGMENTS :: nat where "EC_MAXIOSEGMENTS \<equiv> 64"
abbreviation (input) EC_MAXMBX :: nat where "EC_MAXMBX \<equiv> 1486"
abbreviation (input) EC_MAXEEPDO :: nat where "EC_MAXEEPDO \<equiv> 512"
abbreviation (input) EC_MAXSM :: nat where "EC_MAXSM \<equiv> 8"
abbreviation (input) EC_MAXFMMU :: nat where "EC_MAXFMMU \<equiv> 4"
abbreviation (input) EC_MAXEEPBITMAP :: nat where "EC_MAXEEPBITMAP \<equiv> 128"
abbreviation (input) EC_MAXEEPBUF :: nat where "EC_MAXEEPBUF \<equiv> 4096"
abbreviation (input) EC_MAXLRWDATA :: nat where "EC_MAXLRWDATA \<equiv> 1486"
abbreviation (input) EC_FIRSTDCDATAGRAM :: nat where "EC_FIRSTDCDATAGRAM \<equiv> 20"
abbreviation (input) EC_DEFAULTRETRIES :: nat where "EC_DEFAULTRETRIES \<equiv> 3"
abbreviation (input) EC_TIMEOUTSAFE :: int where "EC_TIMEOUTSAFE \<equiv> 20000"
abbreviation (input) EC_TIMEOUTEEP :: int where "EC_TIMEOUTEEP \<equiv> 20000"
abbreviation (input) EC_TIMEOUTTXM :: int where "EC_TIMEOUTTXM \<equiv> 20000"
abbreviation (input) EC_TIMEOUTRXM :: int where "EC_TIMEOUTRXM \<equiv> 700000"
abbreviation (input) EC_TIMEOUTSTATE :: int where "EC_TIMEOUTSTATE \<equiv> 2000000"
abbreviation (input) EC_LOCALDELAY :: nat where "EC_LOCALDELAY \<equiv> 200"

abbreviation (input) EC_STATE_NONE :: u16 where "EC_STATE_NONE \<equiv> 0"
abbreviation (input) EC_STATE_INIT :: u16 where "EC_STATE_INIT \<equiv> 1"
abbreviation (input) EC_STATE_PRE_OP :: u16 where "EC_STATE_PRE_OP \<equiv> 2"
abbreviation (input) EC_STATE_BOOT :: u16 where "EC_STATE_BOOT \<equiv> 3"
abbreviation (input) EC_STATE_SAFE_OP :: u16 where "EC_STATE_SAFE_OP \<equiv> 4"
abbreviation (input) EC_STATE_OPERATIONAL :: u16 where "EC_STATE_OPERATIONAL \<equiv> 8"
abbreviation (input) EC_STATE_ERROR :: u16 where "EC_STATE_ERROR \<equiv> 0x10"
abbreviation (input) EC_STATE_ACK :: u16 where "EC_STATE_ACK \<equiv> 0x10"

abbreviation (input) ECT_REG_ALCTL :: u16 where "ECT_REG_ALCTL \<equiv> 0x0120"
abbreviation (input) ECT_REG_ALSTAT :: u16 where "ECT_REG_ALSTAT \<equiv> 0x0130"
abbreviation (input) ECT_REG_EEPCFG :: u16 where "ECT_REG_EEPCFG \<equiv> 0x0500"
abbreviation (input) ECT_REG_EEPCTL :: u16 where "ECT_REG_EEPCTL \<equiv> 0x0502"
abbreviation (input) ECT_REG_EEPSTAT :: u16 where "ECT_REG_EEPSTAT \<equiv> 0x0502"
abbreviation (input) ECT_REG_EEPDAT :: u16 where "ECT_REG_EEPDAT \<equiv> 0x0508"

section \<open>Errors\<close>

datatype ec_err_type =
  EC_ERR_TYPE_SDO_ERROR | EC_ERR_TYPE_EMERGENCY | EC_ERR_TYPE_PACKET_ERROR
| EC_ERR_TYPE_SDOINFO_ERROR | EC_ERR_TYPE_FOE_ERROR | EC_ERR_TYPE_FOE_BUF2SMALL
| EC_ERR_TYPE_FOE_PACKETNUMBER | EC_ERR_TYPE_SOE_ERROR | EC_ERR_TYPE_MBX_ERROR
| EC_ERR_TYPE_FOE_FILE_NOTFOUND | EC_ERR_TYPE_EOE_INVALID_RX_DATA

text \<open>The union is its eight bytes seen as the fields of the emergency; \<open>AbortCode\<close> is the first
  four of them.\<close>

record ec_errort =
  Time :: ec_timet
  Signal :: bool
  Slave :: u16
  Index :: u16
  SubIdx :: byte
  Etype :: ec_err_type
  ErrorCode :: u16
  ErrorReg :: byte
  b1 :: byte
  w1 :: u16
  w2 :: u16

definition AbortCode :: "ec_errort \<Rightarrow> u32" where
  "AbortCode Ec = le_word (le_bytes 2 (ErrorCode Ec) @ [ErrorReg Ec, b1 Ec])"

definition set_AbortCode :: "u32 \<Rightarrow> ec_errort \<Rightarrow> ec_errort" where
  "set_AbortCode a Ec = Ec\<lparr>ErrorCode := ucast a, ErrorReg := ucast (drop_bit 16 a),
     b1 := ucast (drop_bit 24 a)\<rparr>"

text \<open>\<open>memset(&Ec, 0, sizeof(Ec))\<close>\<close>

definition zero_error :: ec_errort where
  "zero_error = \<lparr>Time = \<lparr>sec = 0, usec = 0\<rparr>, Signal = False, Slave = 0, Index = 0, SubIdx = 0,
     Etype = EC_ERR_TYPE_SDO_ERROR, ErrorCode = 0, ErrorReg = 0, b1 = 0, w1 = 0, w2 = 0\<rparr>"

record ec_eringt =
  head :: nat
  tail :: nat
  Error :: "ec_errort list"

section \<open>Slaves and groups\<close>

record ec_fmmut =
  LogStart :: u32
  LogLength :: u16
  LogStartbit :: byte
  LogEndbit :: byte
  PhysStart :: u16
  PhysStartBit :: byte
  FMMUtype :: byte
  FMMUactive :: byte
  unused1 :: byte
  unused2 :: u16

record ec_smt =
  StartAddr :: u16
  SMlength :: u16
  SMflags :: u32

record ec_slavet =
  state :: u16
  ALstatuscode :: u16
  configadr :: u16
  aliasadr :: u16
  eep_man :: u32
  eep_id :: u32
  eep_rev :: u32
  Itype :: u16
  Dtype :: u16
  Obits :: u16
  Obytes :: u32
  outputs :: "nat option"
  Ostartbit :: byte
  Ibits :: u16
  Ibytes :: u32
  inputs :: "nat option"
  Istartbit :: byte
  SM :: "ec_smt list"
  SMtype :: bytes
  FMMU :: "ec_fmmut list"
  FMMU0func :: byte
  FMMU1func :: byte
  FMMU2func :: byte
  FMMU3func :: byte
  mbx_l :: u16
  mbx_wo :: u16
  mbx_rl :: u16
  mbx_ro :: u16
  mbx_proto :: u16
  mbx_cnt :: byte
  hasdc :: bool
  ptype :: byte
  topology :: byte
  activeports :: byte
  consumedports :: byte
  parent :: u16
  parentport :: byte
  entryport :: byte
  DCrtA :: u32
  DCrtB :: u32
  DCrtC :: u32
  DCrtD :: u32
  pdelay :: u32
  DCnext :: u16
  DCprevious :: u16
  DCcycle :: u32
  DCshift :: u32
  DCactive :: byte
  configindex :: u16
  SIIindex :: u16
  eep_8byte :: byte
  eep_pdi :: byte
  CoEdetails :: byte
  FoEdetails :: byte
  EoEdetails :: byte
  SoEdetails :: byte
  Ebuscurrent :: u16
  blockLRW :: byte
  group :: byte
  FMMUunused :: byte
  islost :: bool
  PO2SOconfig :: bool
  PO2SOconfigx :: bool
  name :: bytes

record ec_groupt =
  logstartaddr :: u32
  g_Obytes :: u32
  g_outputs :: "nat option"
  g_Ibytes :: u32
  g_inputs :: "nat option"
  g_hasdc :: bool
  g_DCnext :: u16
  g_Ebuscurrent :: u16
  g_blockLRW :: byte
  nsegments :: u16
  Isegment :: u16
  Ioffset :: u16
  outputsWKC :: u16
  inputsWKC :: u16
  docheckstate :: bool
  IOsegment :: "u32 list"

section \<open>EEPROM information and mailbox structures\<close>

record ec_eepromFMMUt =
  f_Startpos :: u16
  nFMMU :: byte
  FMMU0 :: byte
  FMMU1 :: byte
  FMMU2 :: byte
  FMMU3 :: byte

record ec_eepromSMt =
  s_Startpos :: u16
  nSM :: byte
  PhStart :: u16
  Plength :: u16
  Creg :: byte
  Sreg :: byte
  Activate :: byte
  PDIctrl :: byte

record ec_eepromPDOt =
  p_Startpos :: u16
  p_Length :: u16
  nPDO :: u16
  p_Index :: "u16 list"
  SyncM :: "u16 list"
  BitSize :: "u16 list"
  SMbitsize :: "u16 list"

record ec_idxstackT =
  pushed :: nat
  pulled :: nat
  i_idx :: bytes
  i_data :: "nat list"
  i_length :: "u16 list"
  dcoffset :: "u16 list"

record ec_SMcommtypet =
  n_SMcomm :: byte
  SMcomm :: bytes

record ec_PDOassignt =
  n_PDOassign :: byte
  PDOassign_index :: "u16 list"

record ec_PDOdesct =
  n_PDOdesc :: byte
  PDOdesc_PDO :: "u32 list"

section \<open>The context\<close>

text \<open>\<open>iomap\<close> is the process image of the application, which the slave and group lists and the
  index stack point into.\<close>

record ecx_contextt =
  port :: ecx_portt
  slavelist :: "ec_slavet list"
  slavecount :: int
  maxslave :: int
  grouplist :: "ec_groupt list"
  maxgroup :: int
  esibuf :: bytes
  esimap :: "u32 list"
  esislave :: u16
  elist :: ec_eringt
  idxstack :: ec_idxstackT
  ecaterror :: bool
  DCtime :: u64
  SMcommtype :: "ec_SMcommtypet list"
  PDOassign :: "ec_PDOassignt list"
  PDOdesc :: "ec_PDOdesct list"
  eepSM :: ec_eepromSMt
  eepFMMU :: ec_eepromFMMUt
  FOEhook :: "(u16 \<Rightarrow> int \<Rightarrow> int \<Rightarrow> int) option"
  EOEhook :: "(u16 \<Rightarrow> bytes \<Rightarrow> int) option"
  manualstatechange :: bool
  iomap :: bytes

text \<open>The zeroed static data of \<open>ethercatmain.c\<close> and the initial \<open>ecx_context\<close> over it; the port and
  the process image are the application's.\<close>

definition zero_fmmu :: ec_fmmut where
  "zero_fmmu = \<lparr>LogStart = 0, LogLength = 0, LogStartbit = 0, LogEndbit = 0, PhysStart = 0,
     PhysStartBit = 0, FMMUtype = 0, FMMUactive = 0, unused1 = 0, unused2 = 0\<rparr>"

definition zero_sm :: ec_smt where
  "zero_sm = \<lparr>StartAddr = 0, SMlength = 0, SMflags = 0\<rparr>"

definition zero_slave :: ec_slavet where
  "zero_slave = \<lparr>state = 0, ALstatuscode = 0, configadr = 0, aliasadr = 0, eep_man = 0, eep_id = 0,
     eep_rev = 0, Itype = 0, Dtype = 0, Obits = 0, Obytes = 0, outputs = None, Ostartbit = 0,
     Ibits = 0, Ibytes = 0, inputs = None, Istartbit = 0, SM = replicate EC_MAXSM zero_sm,
     SMtype = replicate EC_MAXSM 0, FMMU = replicate EC_MAXFMMU zero_fmmu, FMMU0func = 0,
     FMMU1func = 0, FMMU2func = 0, FMMU3func = 0, mbx_l = 0, mbx_wo = 0, mbx_rl = 0, mbx_ro = 0,
     mbx_proto = 0, mbx_cnt = 0, hasdc = False, ptype = 0, topology = 0, activeports = 0,
     consumedports = 0, parent = 0, parentport = 0, entryport = 0, DCrtA = 0, DCrtB = 0, DCrtC = 0,
     DCrtD = 0, pdelay = 0, DCnext = 0, DCprevious = 0, DCcycle = 0, DCshift = 0, DCactive = 0,
     configindex = 0, SIIindex = 0, eep_8byte = 0, eep_pdi = 0, CoEdetails = 0, FoEdetails = 0,
     EoEdetails = 0, SoEdetails = 0, Ebuscurrent = 0, blockLRW = 0, group = 0, FMMUunused = 0,
     islost = False, PO2SOconfig = False, PO2SOconfigx = False, name = replicate (EC_MAXNAME + 1) 0\<rparr>"

definition zero_group :: ec_groupt where
  "zero_group = \<lparr>logstartaddr = 0, g_Obytes = 0, g_outputs = None, g_Ibytes = 0, g_inputs = None,
     g_hasdc = False, g_DCnext = 0, g_Ebuscurrent = 0, g_blockLRW = 0, nsegments = 0, Isegment = 0,
     Ioffset = 0, outputsWKC = 0, inputsWKC = 0, docheckstate = False,
     IOsegment = replicate EC_MAXIOSEGMENTS 0\<rparr>"

definition ecx_context :: "ecx_portt \<Rightarrow> bytes \<Rightarrow> ecx_contextt" where
  "ecx_context p m = \<lparr>port = p, slavelist = replicate EC_MAXSLAVE zero_slave, slavecount = 0,
     maxslave = int EC_MAXSLAVE, grouplist = replicate EC_MAXGROUP zero_group,
     maxgroup = int EC_MAXGROUP, esibuf = replicate EC_MAXEEPBUF 0,
     esimap = replicate EC_MAXEEPBITMAP 0, esislave = 0,
     elist = \<lparr>head = 0, tail = 0, Error = replicate (EC_MAXELIST + 1) zero_error\<rparr>,
     idxstack = \<lparr>pushed = 0, pulled = 0, i_idx = replicate 16 0, i_data = replicate 16 0,
       i_length = replicate 16 0, dcoffset = replicate 16 0\<rparr>,
     ecaterror = False, DCtime = 0,
     SMcommtype = [\<lparr>n_SMcomm = 0, SMcomm = replicate EC_MAXSM 0\<rparr>],
     PDOassign = [\<lparr>n_PDOassign = 0, PDOassign_index = replicate 256 0\<rparr>],
     PDOdesc = [\<lparr>n_PDOdesc = 0, PDOdesc_PDO = replicate 256 0\<rparr>],
     eepSM = \<lparr>s_Startpos = 0, nSM = 0, PhStart = 0, Plength = 0, Creg = 0, Sreg = 0, Activate = 0, PDIctrl = 0\<rparr>,
     eepFMMU = \<lparr>f_Startpos = 0, nFMMU = 0, FMMU0 = 0, FMMU1 = 0, FMMU2 = 0, FMMU3 = 0\<rparr>,
     FOEhook = None, EOEhook = None, manualstatechange = False, iomap = m\<rparr>"

definition slave_at :: "u16 \<Rightarrow> ecx_contextt \<Rightarrow> ec_slavet option" where
  "slave_at i c = aget (slavelist c) (unat i)"

definition set_slave :: "u16 \<Rightarrow> ec_slavet \<Rightarrow> ecx_contextt \<Rightarrow> ecx_contextt option" where
  "set_slave i s c = do { ss \<leftarrow> aset (slavelist c) (unat i) s; Some (c\<lparr>slavelist := ss\<rparr>) }"

text \<open>\<open>context->slavelist[i].field = \<dots>\<close>\<close>

definition upd_slave :: "u16 \<Rightarrow> (ec_slavet \<Rightarrow> ec_slavet) \<Rightarrow> ecx_contextt \<Rightarrow> ecx_contextt option" where
  "upd_slave i f c = do { s \<leftarrow> slave_at i c; set_slave i (f s) c }"

definition group_at :: "byte \<Rightarrow> ecx_contextt \<Rightarrow> ec_groupt option" where
  "group_at i c = aget (grouplist c) (unat i)"

section \<open>Port operations on the context\<close>

text \<open>Running a driver or base routine on the context's port.\<close>

definition on_port :: "(ecx_portt \<Rightarrow> ('a \<times> ecx_portt) option) \<Rightarrow> ecx_contextt \<Rightarrow> ('a \<times> ecx_contextt) option" where
  "on_port f c = do { (r, p) \<leftarrow> f (port c); Some (r, c\<lparr>port := p\<rparr>) }"

definition upd_port :: "(ecx_portt \<Rightarrow> ecx_portt) \<Rightarrow> ecx_contextt \<Rightarrow> ecx_contextt" where
  "upd_port f c = c\<lparr>port := f (port c)\<rparr>"

definition read_BRD :: "u16 \<Rightarrow> u16 \<Rightarrow> u16 \<Rightarrow> bytes \<Rightarrow> int \<Rightarrow> ecx_contextt \<Rightarrow> (int \<times> bytes \<times> ecx_contextt) option" where
  "read_BRD adp ado len data timeout c = do {
     (w, d, p) \<leftarrow> ecx_BRD adp ado len data timeout (port c); Some (w, d, c\<lparr>port := p\<rparr>) }"

definition read_FPRD :: "u16 \<Rightarrow> u16 \<Rightarrow> u16 \<Rightarrow> bytes \<Rightarrow> int \<Rightarrow> ecx_contextt \<Rightarrow> (int \<times> bytes \<times> ecx_contextt) option" where
  "read_FPRD adp ado len data timeout c = do {
     (w, d, p) \<leftarrow> ecx_FPRD adp ado len data timeout (port c); Some (w, d, c\<lparr>port := p\<rparr>) }"

definition read_APRD :: "u16 \<Rightarrow> u16 \<Rightarrow> u16 \<Rightarrow> bytes \<Rightarrow> int \<Rightarrow> ecx_contextt \<Rightarrow> (int \<times> bytes \<times> ecx_contextt) option" where
  "read_APRD adp ado len data timeout c = do {
     (w, d, p) \<leftarrow> ecx_APRD adp ado len data timeout (port c); Some (w, d, c\<lparr>port := p\<rparr>) }"

definition write_BWR :: "u16 \<Rightarrow> u16 \<Rightarrow> u16 \<Rightarrow> bytes \<Rightarrow> int \<Rightarrow> ecx_contextt \<Rightarrow> (int \<times> ecx_contextt) option" where
  "write_BWR adp ado len data timeout = on_port (ecx_BWR adp ado len data timeout)"

definition write_FPWR :: "u16 \<Rightarrow> u16 \<Rightarrow> u16 \<Rightarrow> bytes \<Rightarrow> int \<Rightarrow> ecx_contextt \<Rightarrow> (int \<times> ecx_contextt) option" where
  "write_FPWR adp ado len data timeout = on_port (ecx_FPWR adp ado len data timeout)"

definition write_APWR :: "u16 \<Rightarrow> u16 \<Rightarrow> u16 \<Rightarrow> bytes \<Rightarrow> int \<Rightarrow> ecx_contextt \<Rightarrow> (int \<times> ecx_contextt) option" where
  "write_APWR adp ado len data timeout = on_port (ecx_APWR adp ado len data timeout)"

definition c_timer_start :: "int \<Rightarrow> ecx_contextt \<Rightarrow> osal_timert \<times> ecx_contextt" where
  "c_timer_start timeout c = (let (t, p) = timer_start timeout (port c) in (t, c\<lparr>port := p\<rparr>))"

definition c_usleep :: "nat \<Rightarrow> ecx_contextt \<Rightarrow> ecx_contextt" where
  "c_usleep us c = c\<lparr>port := usleep us (port c)\<rparr>"

definition c_and_not_expired :: "bool \<Rightarrow> osal_timert \<Rightarrow> ecx_contextt \<Rightarrow> bool \<times> ecx_contextt" where
  "c_and_not_expired b t c = (let (r, p) = and_not_expired b t (port c) in (r, c\<lparr>port := p\<rparr>))"

text \<open>\<open>do body while (cond && !expired(timer))\<close> over local variables and the context.\<close>

definition c_poll ::
  "osal_timert \<Rightarrow> ('x \<Rightarrow> bool) \<Rightarrow> ('x \<times> ecx_contextt \<Rightarrow> ('x \<times> ecx_contextt) option) \<Rightarrow>
     'x \<times> ecx_contextt \<Rightarrow> ('x \<times> ecx_contextt) option" where
  "c_poll timer cond body =
     do_while body (\<lambda>(x, c). let (b, c) = c_and_not_expired (cond x) timer c in Some (b, x, c))"

text \<open>\<open>do { wkc = body } while ((wkc <= 0) && (cnt++ < EC_DEFAULTRETRIES))\<close>, from \<open>cnt = 0\<close>: the body
  runs at most \<open>EC_DEFAULTRETRIES + 1\<close> times.\<close>

fun retry :: "nat \<Rightarrow> ('x \<times> ecx_contextt \<Rightarrow> (int \<times> 'x \<times> ecx_contextt) option) \<Rightarrow>
    'x \<times> ecx_contextt \<Rightarrow> (int \<times> 'x \<times> ecx_contextt) option" where
  "retry 0 body s = body s"
| "retry (Suc k) body s = do {
     (wkc, s) \<leftarrow> body s;
     if wkc \<le> 0 then retry k body s else Some (wkc, s) }"

end

