(* ===== verification/Error_List.thy ===== *)
theory Error_List
  imports Ecat_Types
begin

text \<open>
  The error list (\<open>ecx_pusherror\<close>, \<open>ecx_poperror\<close> and the reporting functions of
  \<open>ethercatmain.c\<close>): a ring of \<open>EC_MAXELIST + 1\<close> slots that holds the last \<open>EC_MAXELIST\<close> errors. The
  contract is a bounded queue that forgets its oldest entry.
\<close>

section \<open>Operations\<close>

definition ecx_pusherror :: "ec_errort \<Rightarrow> ecx_contextt \<Rightarrow> ecx_contextt option" where
  "ecx_pusherror Ec c = do {
     let r = elist c;
     es \<leftarrow> aset (Error r) (head r) (Ec\<lparr>Signal := True\<rparr>);
     let h = head r + 1;
     let h = (if EC_MAXELIST < h then 0 else h);
     let t = (if h = tail r then tail r + 1 else tail r);
     let t = (if EC_MAXELIST < t then 0 else t);
     Some (c\<lparr>elist := \<lparr>head = h, tail = t, Error = es\<rparr>, ecaterror := True\<rparr>) }"

definition ecx_poperror :: "ecx_contextt \<Rightarrow> (bool \<times> ec_errort \<times> ecx_contextt) option" where
  "ecx_poperror c = do {
     let r = elist c;
     let notEmpty = (head r \<noteq> tail r);
     Ec \<leftarrow> aget (Error r) (tail r);
     es \<leftarrow> aset (Error r) (tail r) (Ec\<lparr>Signal := False\<rparr>);
     if notEmpty
     then do {
       let t = tail r + 1;
       let t = (if EC_MAXELIST < t then 0 else t);
       Some (notEmpty, Ec, c\<lparr>elist := r\<lparr>Error := es, tail := t\<rparr>\<rparr>) }
     else Some (notEmpty, Ec, c\<lparr>elist := r\<lparr>Error := es\<rparr>, ecaterror := False\<rparr>) }"

definition ecx_iserror :: "ecx_contextt \<Rightarrow> bool" where
  "ecx_iserror c = (head (elist c) \<noteq> tail (elist c))"

definition error_time :: "ecx_contextt \<Rightarrow> ec_timet \<times> ecx_contextt" where
  "error_time c = (let (t, e) = osal_current_time (os (port c)) in (t, c\<lparr>port := (port c)\<lparr>os := e\<rparr>\<rparr>))"

definition ecx_packeterror :: "u16 \<Rightarrow> u16 \<Rightarrow> byte \<Rightarrow> u16 \<Rightarrow> ecx_contextt \<Rightarrow> ecx_contextt option" where
  "ecx_packeterror slave idx subidx code c =
     (let (t, c) = error_time c
      in ecx_pusherror (zero_error\<lparr>Time := t, Slave := slave, Index := idx, SubIdx := subidx,
           Etype := EC_ERR_TYPE_PACKET_ERROR, ErrorCode := code\<rparr>) (c\<lparr>ecaterror := True\<rparr>))"

definition ecx_mbxerror :: "u16 \<Rightarrow> u16 \<Rightarrow> ecx_contextt \<Rightarrow> ecx_contextt option" where
  "ecx_mbxerror slave detail c =
     (let (t, c) = error_time c
      in ecx_pusherror (zero_error\<lparr>Time := t, Slave := slave, Index := 0, SubIdx := 0,
           Etype := EC_ERR_TYPE_MBX_ERROR, ErrorCode := detail\<rparr>) c)"

definition ecx_mbxemergencyerror ::
  "u16 \<Rightarrow> u16 \<Rightarrow> u16 \<Rightarrow> byte \<Rightarrow> u16 \<Rightarrow> u16 \<Rightarrow> ecx_contextt \<Rightarrow> ecx_contextt option" where
  "ecx_mbxemergencyerror slave code reg eb1 ew1 ew2 c =
     (let (t, c) = error_time c
      in ecx_pusherror (zero_error\<lparr>Time := t, Slave := slave, Index := 0, SubIdx := 0,
           Etype := EC_ERR_TYPE_EMERGENCY, ErrorCode := code, ErrorReg := ucast reg,
           b1 := eb1, w1 := ew1, w2 := ew2\<rparr>) c)"

section \<open>The contract: a bounded queue that forgets its oldest entry\<close>

definition keep_last :: "nat \<Rightarrow> 'e list \<Rightarrow> 'e list" where
  "keep_last n xs = drop (length xs - n) xs"

lemma keep_last_rev: "keep_last n xs = rev (take n (rev xs))"
  by (simp add: keep_last_def take_rev)

lemma keep_last_append: "keep_last n (keep_last n xs @ ys) = keep_last n (xs @ ys)"
  by (simp add: keep_last_rev min_def)

lemma keep_last_id: "length xs \<le> n \<Longrightarrow> keep_last n xs = xs"
  by (simp add: keep_last_def)

lemma last_keep_last: "0 < n \<Longrightarrow> keep_last n (xs @ [x]) \<noteq> [] \<and> last (keep_last n (xs @ [x])) = x"
  by (simp add: keep_last_def)

lemma keep_last_length [simp]: "length (keep_last n xs) = min n (length xs)"
  by (simp add: keep_last_def)

fun push_all :: "('e \<Rightarrow> 's \<Rightarrow> 's option) \<Rightarrow> 'e list \<Rightarrow> 's \<Rightarrow> 's option" where
  "push_all push [] s = Some s"
| "push_all push (e # es) s = do { s \<leftarrow> push e s; push_all push es s }"

fun pop_all :: "('s \<Rightarrow> (bool \<times> 'e \<times> 's) option) \<Rightarrow> nat \<Rightarrow> 's \<Rightarrow> ('e list \<times> 's) option" where
  "pop_all pop 0 s = Some ([], s)"
| "pop_all pop (Suc k) s = do {
     (ok, e, s) \<leftarrow> pop s;
     if ok then do { (es, s) \<leftarrow> pop_all pop k s; Some (e # es, s) } else Some ([], s) }"

locale forgetful_queue =
  fixes push :: "'e \<Rightarrow> 's \<Rightarrow> 's option"
    and pop :: "'s \<Rightarrow> (bool \<times> 'e \<times> 's) option"
    and contents :: "'s \<Rightarrow> 'e list"
    and mark :: "'e \<Rightarrow> 'e"
    and cap :: nat
    and good :: "'s \<Rightarrow> bool"
  assumes push_law: "good s \<Longrightarrow> ret (push e s) (\<lambda>t. good t \<and> contents t = keep_last cap (contents s @ [mark e]))"
    and pop_law: "good s \<Longrightarrow> ret (pop s) (\<lambda>(ok, e, t). good t \<and>
      (if contents s = [] then \<not> ok \<and> contents t = [] else ok \<and> contents s = e # contents t))"
begin

lemma push_all_contents:
  "good s \<Longrightarrow> length (contents s) \<le> cap \<Longrightarrow>
     ret (push_all push es s) (\<lambda>t. good t \<and> contents t = keep_last cap (contents s @ map mark es))"
proof (induction es arbitrary: s)
  case Nil
  then show ?case by (simp add: keep_last_id)
next
  case (Cons e es)
  from push_law [OF Cons.prems(1), of e] obtain t where
    t: "push e s = Some t" "good t" "contents t = keep_last cap (contents s @ [mark e])"
    by (auto simp: ret_def)
  have "length (contents t) \<le> cap" by (simp add: t)
  from Cons.IH [OF t(2) this] show ?case
    by (simp add: t keep_last_append)
qed

lemma pop_all_contents:
  "good s \<Longrightarrow> length (contents s) \<le> k \<Longrightarrow>
     ret (pop_all pop k s) (\<lambda>(es, t). good t \<and> es = contents s \<and> contents t = [])"
proof (induction k arbitrary: s)
  case 0
  then show ?case by simp
next
  case (Suc k)
  from pop_law [OF Suc.prems(1)] obtain ok e t where p: "pop s = Some (ok, e, t)" "good t"
    and c: "if contents s = [] then \<not> ok \<and> contents t = [] else ok \<and> contents s = e # contents t"
    by (auto simp: ret_def)
  show ?case
  proof (cases "contents s = []")
    case True
    with p c show ?thesis by simp
  next
    case False
    with c Suc.prems(2) have "length (contents t) \<le> k" by simp
    from Suc.IH [OF p(2) this] False p c show ?thesis
      by (simp add: case_prod_unfold)
  qed
qed

text \<open>What is pushed onto an empty queue and popped again is the end of what was pushed, in order.\<close>

lemma push_pop_all:
  assumes "good s" and "contents s = []"
  shows "ret (push_all push es s) (\<lambda>t. ret (pop_all pop cap t)
           (\<lambda>(fs, u). fs = keep_last cap (map mark es) \<and> good u \<and> contents u = []))"
proof -
  have "ret (push_all push es s) (\<lambda>t. good t \<and> contents t = keep_last cap (map mark es))"
    using push_all_contents [of s es] assms by simp
  then show ?thesis
  proof (rule ret_conseq)
    fix t
    assume t: "good t \<and> contents t = keep_last cap (map mark es)"
    then have "length (contents t) \<le> cap" by simp
    with t show "ret (pop_all pop cap t) (\<lambda>(fs, u). fs = keep_last cap (map mark es) \<and> good u \<and> contents u = [])"
      using pop_all_contents [of t cap] by (auto elim!: ret_conseq)
  qed
qed

end

section \<open>The ring implements it\<close>

definition ring_ok :: "ec_eringt \<Rightarrow> bool" where
  "ring_ok r \<longleftrightarrow> head r \<le> EC_MAXELIST \<and> tail r \<le> EC_MAXELIST \<and> length (Error r) = 65"

definition ring_size :: "ec_eringt \<Rightarrow> nat" where
  "ring_size r = (if tail r \<le> head r then head r - tail r else head r + 65 - tail r)"

definition errors :: "ec_eringt \<Rightarrow> ec_errort list" where
  "errors r = map (\<lambda>k. Error r ! ((tail r + k) mod 65)) [0..<ring_size r]"

definition signal :: "ec_errort \<Rightarrow> ec_errort" where
  "signal Ec = Ec\<lparr>Signal := True\<rparr>"

text \<open>Arithmetic of the slots, and the head as the slot after the last entry.\<close>

lemma mod_65: "m < 130 \<Longrightarrow> m mod 65 = (if m < 65 then m else m - (65 :: nat))"
  by (simp add: mod_if)

lemma ring_head:
  assumes "ring_ok r"
  shows "head r = (tail r + ring_size r) mod 65" "ring_size r \<le> 64"
  using assms by (auto simp: ring_ok_def ring_size_def)

lemma slot_neq: "k < n \<Longrightarrow> n \<le> 64 \<Longrightarrow> t \<le> 64 \<Longrightarrow> (t + k) mod 65 \<noteq> (t + n) mod (65 :: nat)"
  by (simp add: mod_65) arith

lemma ring_slots:
  assumes ok: "ring_ok r"
  shows "map (\<lambda>k. (Error r)[head r := e] ! ((tail r + k) mod 65)) [0..<Suc (ring_size r)] = errors r @ [e]"
proof -
  let ?n = "ring_size r"
  have h: "head r = (tail r + ?n) mod 65" and n: "?n \<le> 64" by (rule ring_head [OF ok])+
  have len: "length (Error r) = 65" using ok by (simp add: ring_ok_def)
  have "(Error r)[head r := e] ! ((tail r + k) mod 65) = Error r ! ((tail r + k) mod 65)" if "k < ?n" for k
    using slot_neq [OF that n, of "tail r"] ok by (simp add: h ring_ok_def)
  then have "map (\<lambda>k. (Error r)[head r := e] ! ((tail r + k) mod 65)) [0..<?n] = errors r"
    by (simp add: errors_def)
  then show ?thesis using len by (simp add: h)
qed

lemma errors_alt:
  assumes "ring_size r = n"
  shows "errors r = map (\<lambda>k. Error r ! ((tail r + k) mod 65)) [0..<n]"
  using assms by (simp add: errors_def)


text \<open>The ring after one more entry at the head: the tail gives way when the ring is full.\<close>

definition ring_push :: "ec_errort \<Rightarrow> ec_eringt \<Rightarrow> ec_eringt" where
  "ring_push e r =
     \<lparr>head = (head r + 1) mod 65,
      tail = (if (head r + 1) mod 65 = tail r then (tail r + 1) mod 65 else tail r),
      Error = (Error r)[head r := e]\<rparr>"

lemma pusherror_run:
  assumes "ring_ok (elist c)"
  shows "ecx_pusherror Ec c = Some (c\<lparr>elist := ring_push (signal Ec) (elist c), ecaterror := True\<rparr>)"
proof -
  have b: "head (elist c) \<le> 64" "tail (elist c) \<le> 64" "length (Error (elist c)) = 65"
    using assms by (simp_all add: ring_ok_def)
  have t: "(if 64 < (if h = tail (elist c) then tail (elist c) + 1 else tail (elist c)) then 0
        else (if h = tail (elist c) then tail (elist c) + 1 else tail (elist c)))
      = (if h = tail (elist c) then (tail (elist c) + 1) mod 65 else tail (elist c))" for h
    using b(2) by (simp add: mod_65)
  have h: "(if 64 < head (elist c) + 1 then 0 else head (elist c) + 1) = (head (elist c) + 1) mod 65"
    using b(1) by (simp add: mod_65)
  show ?thesis
    unfolding ecx_pusherror_def Let_def t h
    using b by (simp add: aset_def ring_push_def signal_def)
qed

lemma ring_push_ok: "ring_ok r \<Longrightarrow> ring_ok (ring_push e r)"
  by (simp add: ring_ok_def ring_push_def mod_65)

lemma ring_push_full:
  assumes "ring_ok r"
  shows "(head r + 1) mod 65 = tail r \<longleftrightarrow> ring_size r = 64"
  using assms by (simp add: ring_ok_def ring_size_def mod_65) arith

lemma ring_push_size:
  assumes ok: "ring_ok r"
  shows "ring_size (ring_push e r) = min 64 (Suc (ring_size r))"
  using assms by (simp add: ring_ok_def ring_size_def ring_push_def mod_65) arith

lemma ring_push_slots:
  assumes ok: "ring_ok r"
  shows "tail (ring_push e r) = (if ring_size r = 64 then (tail r + 1) mod 65 else tail r)"
    "Error (ring_push e r) = (Error r)[head r := e]"
  using ring_push_full [OF ok] by (simp_all add: ring_push_def)

lemma ring_push_errors:
  assumes ok: "ring_ok r"
  shows "errors (ring_push e r) = keep_last 64 (errors r @ [e])"
proof -
  let ?n = "ring_size r" and ?E = "(Error r)[head r := e]"
  have n: "?n \<le> 64" by (rule ring_head(2) [OF ok])
  have slots: "map (\<lambda>k. ?E ! ((tail r + k) mod 65)) [0..<Suc ?n] = errors r @ [e]"
    by (rule ring_slots [OF ok])
  have len: "length (errors r) = ?n" by (simp add: errors_def)
  show ?thesis
  proof (cases "?n = 64")
    case True
    have "(tail r + 1 + k) mod 65 = (tail r + Suc k) mod 65" for k by (simp add: One_nat_def)
    then have "errors (ring_push e r) = map (\<lambda>k. ?E ! ((tail r + Suc k) mod 65)) [0..<64]"
      by (simp add: errors_def ring_push_size [OF ok] True ring_push_slots [OF ok] mod_simps)
    also have "\<dots> = tl (map (\<lambda>k. ?E ! ((tail r + k) mod 65)) [0..<Suc 64])"
      by (simp add: map_Suc_upt [symmetric] upt_conv_Cons del: upt_Suc)
    also have "\<dots> = drop 1 (errors r @ [e])"
      unfolding slots [unfolded True] by (cases "errors r @ [e]") (simp_all add: One_nat_def)
    also have "\<dots> = keep_last 64 (errors r @ [e])" by (simp add: keep_last_def len True One_nat_def)
    finally show ?thesis .
  next
    case False
    then have m: "min 64 (Suc ?n) = Suc ?n" using n by simp
    have "errors (ring_push e r) = map (\<lambda>k. ?E ! ((tail r + k) mod 65)) [0..<Suc ?n]"
      unfolding errors_def [of "ring_push e r"] ring_push_size [OF ok] m
      using False by (simp add: ring_push_slots [OF ok])
    then show ?thesis unfolding slots using m by (simp add: keep_last_id len)
  qed
qed

lemma pusherror_law:
  assumes ok: "ring_ok (elist c)"
  shows "ret (ecx_pusherror Ec c) (\<lambda>d. ring_ok (elist d)
     \<and> errors (elist d) = keep_last 64 (errors (elist c) @ [signal Ec]))"
  by (simp add: pusherror_run [OF ok] ring_push_ok [OF ok] ring_push_errors [OF ok])

text \<open>Taking the entry at the tail.\<close>

definition ring_pop :: "ec_eringt \<Rightarrow> ec_eringt" where
  "ring_pop r = r\<lparr>tail := (if head r = tail r then tail r else (tail r + 1) mod 65),
     Error := (Error r)[tail r := (Error r ! tail r)\<lparr>Signal := False\<rparr>]\<rparr>"

lemma poperror_run:
  assumes "ring_ok (elist c)"
  shows "ecx_poperror c = Some (head (elist c) \<noteq> tail (elist c), Error (elist c) ! tail (elist c),
     if head (elist c) = tail (elist c) then c\<lparr>elist := ring_pop (elist c), ecaterror := False\<rparr>
     else c\<lparr>elist := ring_pop (elist c)\<rparr>)"
proof -
  have b: "tail (elist c) \<le> 64" "length (Error (elist c)) = 65"
    using assms by (simp_all add: ring_ok_def)
  have t: "(if 64 < tail (elist c) + 1 then 0 else tail (elist c) + 1) = (tail (elist c) + 1) mod 65"
    using b(1) by (simp add: mod_65)
  show ?thesis
    unfolding ecx_poperror_def Let_def t
    using b by (simp add: aget_def aset_def ring_pop_def)
qed

lemma ring_pop_ok: "ring_ok r \<Longrightarrow> ring_ok (ring_pop r)"
  by (simp add: ring_ok_def ring_pop_def mod_65)

lemma errors_empty: "ring_ok r \<Longrightarrow> errors r = [] \<longleftrightarrow> head r = tail r"
  by (auto simp: errors_def ring_size_def ring_ok_def)

lemma ring_pop_errors:
  assumes ok: "ring_ok r" and ne: "head r \<noteq> tail r"
  shows "errors r = Error r ! tail r # errors (ring_pop r)"
proof -
  obtain n where n: "ring_size r = Suc n"
    using ok ne by (cases "ring_size r") (auto simp: ring_size_def ring_ok_def split: if_splits)
  have n64: "Suc n \<le> 64" and t: "tail r \<le> 64" using ring_head(2) [OF ok] ok n by (simp_all add: ring_ok_def)
  have size: "ring_size (ring_pop r) = n"
    using ok ne n by (simp add: ring_ok_def ring_size_def ring_pop_def mod_65 split: if_splits) arith
  let ?E = "Error (ring_pop r)"
  have "?E ! (((tail r + 1) mod 65 + k) mod 65) = Error r ! ((tail r + Suc k) mod 65)" if "k < n" for k
  proof -
    have "((tail r + 1) mod 65 + k) mod 65 = (tail r + Suc k) mod 65" by (simp add: mod_simps One_nat_def)
    moreover have "(tail r + Suc k) mod 65 \<noteq> tail r"
      using slot_neq [of 0 "Suc k" "tail r"] that n64 t by (simp add: mod_65)
    ultimately show ?thesis by (simp add: ring_pop_def)
  qed
  then have "errors (ring_pop r) = map (\<lambda>k. Error r ! ((tail r + Suc k) mod 65)) [0..<n]"
    using ne by (simp add: errors_def size) (simp add: ring_pop_def)
  moreover have "errors r = Error r ! (tail r mod 65) # map (\<lambda>k. Error r ! ((tail r + Suc k) mod 65)) [0..<n]"
    by (simp add: errors_def n map_upt_Suc del: upt_Suc)
  ultimately show ?thesis using t by (simp add: mod_65)
qed

lemma poperror_law:
  assumes ok: "ring_ok (elist c)"
  shows "ret (ecx_poperror c) (\<lambda>(some, Ec, d). ring_ok (elist d)
     \<and> (if errors (elist c) = [] then \<not> some \<and> errors (elist d) = []
        else some \<and> errors (elist c) = Ec # errors (elist d)))"
proof (cases "head (elist c) = tail (elist c)")
  case True
  then have "head (ring_pop (elist c)) = tail (ring_pop (elist c))" by (simp add: ring_pop_def)
  then have "errors (ring_pop (elist c)) = []" using errors_empty [OF ring_pop_ok [OF ok]] by blast
  then show ?thesis using True ok by (simp add: poperror_run errors_empty ring_pop_ok)
next
  case False
  then show ?thesis
    using ok ring_pop_errors [OF ok False] by (simp add: poperror_run errors_empty ring_pop_ok)
qed

interpretation er: forgetful_queue ecx_pusherror ecx_poperror "\<lambda>c. errors (elist c)" signal 64
    "\<lambda>c. ring_ok (elist c)"
  using pusherror_law poperror_law by unfold_locales auto

section \<open>Properties\<close>

lemma ecx_context_ring: "ring_ok (elist (ecx_context p m))" "head (elist (ecx_context p m)) = tail (elist (ecx_context p m))"
  by (simp_all add: ecx_context_def ring_ok_def)

text \<open> C25: The error list is a queue of the last 64 errors: whatever sequence of errors is pushed onto an
  empty list, popping 64 times succeeds and returns the last 64 of them (all of them when there are
  fewer) in the order they were pushed, each with its \<open>Signal\<close> flag set; the list is then empty and
  \<open>ecx_iserror\<close> says so. \<close>

theorem error_list_fifo:
  assumes "ring_ok (elist c)" and "head (elist c) = tail (elist c)"
  shows "ret (push_all ecx_pusherror es c) (\<lambda>d. ret (pop_all ecx_poperror 64 d)
           (\<lambda>(fs, u). fs = keep_last 64 (map signal es) \<and> \<not> ecx_iserror u))"
proof -
  have "errors (elist c) = []" using assms by (simp add: errors_empty)
  from er.push_pop_all [OF assms(1) this, of es] show ?thesis
    by (auto elim!: ret_conseq simp: ecx_iserror_def errors_empty)
qed

theorem error_list_fifo_witness:
  "ret (push_all ecx_pusherror (replicate 70 zero_error) (ecx_context demo_port []))
     (\<lambda>d. ret (pop_all ecx_poperror 64 d)
        (\<lambda>(fs, u). fs = keep_last 64 (map signal (replicate 70 zero_error)) \<and> \<not> ecx_iserror u))"
  by (rule error_list_fifo [OF ecx_context_ring])

text \<open> Reporting a packet error always succeeds on a well-formed list: \<open>EcatError\<close> is raised, and the
  newest entry carries the slave, index, sub-index and code passed in, the type packet error and the
  \<open>Signal\<close> flag. \<close>

theorem packeterror_recorded:
  assumes "ring_ok (elist c)"
  shows "ret (ecx_packeterror sl idx subidx code c) (\<lambda>d. ring_ok (elist d) \<and> ecaterror d \<and> ecx_iserror d
     \<and> (let Ec = last (errors (elist d)) in Slave Ec = sl \<and> Index Ec = idx \<and> SubIdx Ec = subidx
         \<and> ErrorCode Ec = code \<and> Etype Ec = EC_ERR_TYPE_PACKET_ERROR \<and> Signal Ec))"
proof -
  obtain t c1 where t: "error_time c = (t, c1)" by (cases "error_time c")
  then have e: "elist c1 = elist c" by (auto simp: error_time_def split: prod.splits)
  let ?d = "c1\<lparr>ecaterror := True\<rparr>"
  have ok: "ring_ok (elist ?d)" using assms e by simp
  have "errors (ring_push x (elist ?d)) \<noteq> []" "last (errors (ring_push x (elist ?d))) = x" for x
    unfolding ring_push_errors [OF ok] by (simp_all add: last_keep_last)
  moreover from this(1) have "head (ring_push x (elist ?d)) \<noteq> tail (ring_push x (elist ?d))" for x
    using errors_empty [OF ring_push_ok [OF ok]] by blast
  ultimately show ?thesis
    unfolding ecx_packeterror_def t
    using ring_push_ok [OF ok] by (simp add: pusherror_run [OF ok] signal_def ecx_iserror_def)
qed

theorem packeterror_recorded_witness:
  "ret (ecx_packeterror 3 0x1c12 1 2 (ecx_context demo_port [])) (\<lambda>d. ring_ok (elist d) \<and> ecaterror d
     \<and> ecx_iserror d \<and> (let Ec = last (errors (elist d)) in Slave Ec = 3 \<and> Index Ec = 0x1c12
         \<and> SubIdx Ec = 1 \<and> ErrorCode Ec = 2 \<and> Etype Ec = EC_ERR_TYPE_PACKET_ERROR \<and> Signal Ec))"
  by (rule packeterror_recorded [OF ecx_context_ring(1)])

end
