(* ===== verification/Ecat_State.thy ===== *)
theory Ecat_State
  imports Error_List
begin

text \<open>
  Start-up, shut-down and the application-layer state of the slaves (\<open>ecx_init\<close>, \<open>ecx_readstate\<close>,
  \<open>ecx_writestate\<close>, \<open>ecx_statecheck\<close> in \<open>ethercatmain.c\<close>).

  An entry of a local array that has not been written is no entry of the list that models it:
  reading it is \<open>None\<close>, like any read outside an array.
\<close>

section \<open>Start and stop\<close>

definition ecx_init :: "string \<Rightarrow> ecx_contextt \<Rightarrow> (int \<times> ecx_contextt) option" where
  "ecx_init ifname = on_port (ecx_setupnic ifname False)"

definition ecx_init_redundant ::
  "ec_rxside \<Rightarrow> string \<Rightarrow> string \<Rightarrow> ecx_contextt \<Rightarrow> (int \<times> ecx_contextt) option" where
  "ecx_init_redundant redp ifname if2name = on_port (\<lambda>p. do {
     let p = p\<lparr>redport := Some redp\<rparr>;
     (_, p) \<leftarrow> ecx_setupnic ifname False p;
     (rval, p) \<leftarrow> ecx_setupnic if2name True p;
     b \<leftarrow> put16 (txbuf2 p) OFF_sa1 (htons 0x0404);
     p \<leftarrow> ecx_setupdatagram TxBuf2 EC_CMD_BRD 0 0x0000 0x0000 2 (replicate 4 0) (p\<lparr>txbuf2 := b\<rparr>);
     Some (rval, p\<lparr>txbuflength2 := ETH_HEADERSIZE + EC_HEADERSIZE + EC_WKCSIZE + 2\<rparr>) })"

definition ecx_close :: "ecx_contextt \<Rightarrow> ecx_contextt" where
  "ecx_close = upd_port (\<lambda>p. snd (ecx_closenic p))"

section \<open>Reading the states of several slaves in one frame\<close>

abbreviation (input) MAX_FPRD_MULTI :: nat where "MAX_FPRD_MULTI \<equiv> 64"

record ec_alstatust =
  alstatus :: u16
  alunused :: u16
  alstatuscode :: u16

definition alstatus_bytes :: "ec_alstatust \<Rightarrow> bytes" where
  "alstatus_bytes s = le_bytes 2 (alstatus s) @ le_bytes 2 (alunused s) @ le_bytes 2 (alstatuscode s)"

definition bytes_alstatus :: "bytes \<Rightarrow> ec_alstatust" where
  "bytes_alstatus b = \<lparr>alstatus = le_word (take 2 b), alunused = le_word (take 2 (drop 2 b)),
     alstatuscode = le_word (take 2 (drop 4 b))\<rparr>"

definition zero_alstatus :: ec_alstatust where
  "zero_alstatus = \<lparr>alstatus = 0, alunused = 0, alstatuscode = 0\<rparr>"

text \<open>The next entry of a local array of \<open>MAX_FPRD_MULTI\<close> elements.\<close>

definition local_push :: "'a list \<Rightarrow> 'a \<Rightarrow> 'a list option" where
  "local_push xs x = (if length xs < MAX_FPRD_MULTI then Some (xs @ [x]) else None)"

definition fprd_add ::
  "byte \<Rightarrow> u16 list \<Rightarrow> ec_alstatust list \<Rightarrow> bool \<Rightarrow> nat \<Rightarrow> u16 list \<times> ecx_portt \<Rightarrow> (u16 list \<times> ecx_portt) option" where
  "fprd_add idx configlst slstatlst follows slcnt = (\<lambda>(sldatapos, p). do {
     a \<leftarrow> aget configlst slcnt;
     st \<leftarrow> aget slstatlst slcnt;
     (off, p) \<leftarrow> ecx_adddatagram (TxBuf idx) EC_CMD_FPRD idx follows a ECT_REG_ALSTAT 6 (alstatus_bytes st) p;
     sldatapos \<leftarrow> local_push sldatapos off;
     Some (sldatapos, p) })"

definition fprd_copy ::
  "byte \<Rightarrow> u16 list \<Rightarrow> ecx_portt \<Rightarrow> nat \<Rightarrow> ec_alstatust list \<Rightarrow> ec_alstatust list option" where
  "fprd_copy idx sldatapos p slcnt slstatlst = do {
     off \<leftarrow> aget sldatapos slcnt;
     d \<leftarrow> copy_rx idx (unat off) 6 (replicate 6 0) p;
     aset slstatlst slcnt (bytes_alstatus d) }"

text \<open>The frame: one datagram for each slave, all but the last followed by another. A negative \<open>n\<close>
  behaves like \<open>0\<close>: the first datagram is always sent.\<close>

definition fprd_build ::
  "nat \<Rightarrow> byte \<Rightarrow> u16 list \<Rightarrow> ec_alstatust list \<Rightarrow> ecx_portt \<Rightarrow> (u16 list \<times> ecx_portt) option" where
  "fprd_build n idx configlst slstatlst p = do {
     a \<leftarrow> aget configlst 0;
     st \<leftarrow> aget slstatlst 0;
     p \<leftarrow> ecx_setupdatagram (TxBuf idx) EC_CMD_FPRD idx a ECT_REG_ALSTAT 6 (alstatus_bytes st) p;
     s \<leftarrow> for_each (fprd_add idx configlst slstatlst True) [1..<n - 1] ([of_nat EC_HEADERSIZE], p);
     if 1 < n then fprd_add idx configlst slstatlst False (n - 1) s else Some s }"

definition ecx_FPRD_multi ::
  "nat \<Rightarrow> u16 list \<Rightarrow> ec_alstatust list \<Rightarrow> int \<Rightarrow> ecx_contextt \<Rightarrow> (int \<times> ec_alstatust list \<times> ecx_contextt) option" where
  "ecx_FPRD_multi n configlst slstatlst timeout c = do {
     (idx, p) \<leftarrow> ecx_getindex (port c);
     (sldatapos, p) \<leftarrow> fprd_build n idx configlst slstatlst p;
     (wkc, p) \<leftarrow> ecx_srconfirm idx timeout p;
     slstatlst \<leftarrow> (if 0 \<le> wkc then for_each (fprd_copy idx sldatapos p) [0..<n] slstatlst
                  else Some slstatlst);
     p \<leftarrow> ecx_setbufstat idx EC_BUF_EMPTY p;
     Some (wkc, slstatlst, c\<lparr>port := p\<rparr>) }"

section \<open>Reading all states\<close>

definition same_state :: "u16 \<Rightarrow> bool" where
  "same_state bitwisestate \<longleftrightarrow>
     bitwisestate \<in> {EC_STATE_INIT, EC_STATE_PRE_OP, EC_STATE_SAFE_OP, EC_STATE_OPERATIONAL}"

definition readstate_request :: "nat \<Rightarrow> ecx_contextt \<Rightarrow> u16 list \<times> ec_alstatust list \<Rightarrow>
    (u16 list \<times> ec_alstatust list) option" where
  "readstate_request slave c = (\<lambda>(slca, sl). do {
     s \<leftarrow> slave_at (of_nat slave) c;
     slca \<leftarrow> local_push slca (configadr s);
     sl \<leftarrow> local_push sl zero_alstatus;
     Some (slca, sl) })"

definition readstate_take ::
  "nat \<Rightarrow> ec_alstatust list \<Rightarrow> nat \<Rightarrow> u16 \<times> ecx_contextt \<Rightarrow> (u16 \<times> ecx_contextt) option" where
  "readstate_take fslave sl slave = (\<lambda>(lowest, c). do {
     st \<leftarrow> aget sl (slave - fslave);
     let rval = alstatus st;
     c \<leftarrow> upd_slave (of_nat slave) (\<lambda>s. s\<lparr>ALstatuscode := alstatuscode st\<rparr>) c;
     let lowest = (if rval AND 0xf < lowest then rval AND 0xf else lowest);
     c \<leftarrow> upd_slave (of_nat slave) (\<lambda>s. s\<lparr>state := rval\<rparr>) c;
     s \<leftarrow> slave_at (of_nat slave) c;
     c \<leftarrow> upd_slave 0 (\<lambda>m. m\<lparr>ALstatuscode := ALstatuscode m OR ALstatuscode s\<rparr>) c;
     Some (lowest, c) })"

text \<open>One round of the loop over blocks of slaves: \<open>fslave\<close> is its first one; the result is the
  block's last slave.\<close>

definition readstate_block :: "u16 \<times> u16 \<times> ecx_contextt \<Rightarrow> (u16 \<times> u16 \<times> ecx_contextt) option" where
  "readstate_block = (\<lambda>(fslave, lowest, c). do {
     let lslave = (of_int (slavecount c) :: u16);
     let lslave = (if int MAX_FPRD_MULTI \<le> uint lslave - uint fslave
                   then fslave + of_nat MAX_FPRD_MULTI - 1 else lslave);
     let slaves = [unat fslave..<Suc (unat lslave)];
     (slca, sl) \<leftarrow> for_each (\<lambda>slave. readstate_request slave c) slaves ([], []);
     (_, sl, c) \<leftarrow> ecx_FPRD_multi (Suc (unat lslave) - unat fslave) slca sl EC_TIMEOUTRET3 c;
     (lowest, c) \<leftarrow> for_each (readstate_take (unat fslave) sl) slaves (lowest, c);
     Some (lslave, lowest, c) })"

definition ecx_readstate :: "ecx_contextt \<Rightarrow> (u16 \<times> ecx_contextt) option" where
  "ecx_readstate c = do {
     (wkc, d, c) \<leftarrow> read_BRD 0 ECT_REG_ALSTAT 2 (le_bytes 2 (0 :: u16)) EC_TIMEOUTRET c;
     let allslavespresent = (slavecount c \<le> wkc);
     let rval = (le_word d :: u16);
     let bitwisestate = rval AND 0x0f;
     let noerrorflag = (rval AND EC_STATE_ERROR = 0);
     c \<leftarrow> (if noerrorflag then upd_slave 0 (\<lambda>s. s\<lparr>ALstatuscode := 0\<rparr>) c else Some c);
     let allslavessamestate = same_state bitwisestate;
     c \<leftarrow> (if allslavessamestate then upd_slave 0 (\<lambda>s. s\<lparr>state := bitwisestate\<rparr>) c else Some c);
     if noerrorflag \<and> allslavessamestate \<and> allslavespresent
     then do {
       c \<leftarrow> for_each (\<lambda>i. upd_slave (of_nat i) (\<lambda>s. s\<lparr>ALstatuscode := 0, state := bitwisestate\<rparr>))
             [1..<Suc (nat (slavecount c))] c;
       Some (bitwisestate, c) }
     else do {
       c \<leftarrow> upd_slave 0 (\<lambda>s. s\<lparr>ALstatuscode := 0\<rparr>) c;
       (_, lowest, c) \<leftarrow> do_while readstate_block
          (\<lambda>(lslave, lowest, c). Some (uint lslave < slavecount c,
             (if uint lslave < slavecount c then lslave + 1 else lslave), lowest, c))
          (1, 0xff, c);
       c \<leftarrow> upd_slave 0 (\<lambda>s. s\<lparr>state := lowest\<rparr>) c;
       Some (lowest, c) } }"

section \<open>Writing and awaiting a state\<close>

definition ecx_writestate :: "u16 \<Rightarrow> ecx_contextt \<Rightarrow> (int \<times> ecx_contextt) option" where
  "ecx_writestate slave c = do {
     s \<leftarrow> slave_at slave c;
     if slave = 0
     then write_BWR 0 ECT_REG_ALCTL 2 (le_bytes 2 (state s)) EC_TIMEOUTRET3 c
     else on_port (ecx_FPWRw (configadr s) ECT_REG_ALCTL (state s) EC_TIMEOUTRET3) c }"

definition statecheck_read :: "u16 \<Rightarrow> u16 \<Rightarrow> ecx_contextt \<Rightarrow> (u16 \<times> ecx_contextt) option" where
  "statecheck_read slave cadr c =
     (if slave < 1
      then do {
        (_, d, c) \<leftarrow> read_BRD 0 ECT_REG_ALSTAT 2 (le_bytes 2 (0 :: u16)) EC_TIMEOUTRET c;
        Some (le_word d, c) }
      else do {
        (_, d, c) \<leftarrow> read_FPRD cadr ECT_REG_ALSTAT 6 (alstatus_bytes zero_alstatus) EC_TIMEOUTRET c;
        let slstat = bytes_alstatus d;
        c \<leftarrow> upd_slave slave (\<lambda>s. s\<lparr>ALstatuscode := alstatuscode slstat\<rparr>) c;
        Some (alstatus slstat, c) })"

definition ecx_statecheck :: "u16 \<Rightarrow> u16 \<Rightarrow> int \<Rightarrow> ecx_contextt \<Rightarrow> (u16 \<times> ecx_contextt) option" where
  "ecx_statecheck slave reqstate timeout c =
     (if slavecount c < uint slave then Some (0, c)
      else do {
        let (timer, c) = c_timer_start timeout c;
        s \<leftarrow> slave_at slave c;
        (rval, c) \<leftarrow> c_poll timer (\<lambda>rval. rval AND 0x000f \<noteq> reqstate)
          (\<lambda>(_, c). do {
             (rval, c) \<leftarrow> statecheck_read slave (configadr s) c;
             Some (rval, if rval AND 0x000f \<noteq> reqstate then c_usleep 1000 c else c) })
          (0, c);
        c \<leftarrow> upd_slave slave (\<lambda>s. s\<lparr>state := rval\<rparr>) c;
        Some (rval AND 0x000f, c) })"

end
