(* ===== verification/Ctx_Safety.thy ===== *)
theory Ctx_Safety
  imports Ecat_State
begin

text \<open>
  The invariant of the master's context and how the operations on its port move it: \<open>ctx_ok\<close> is the
  well-formedness every operation relies on, \<open>evolves c0 c\<close> that a context reached from \<open>c0\<close> is
  well formed and still the same master on the same wire. The rules lift those of the port.
\<close>

section \<open>Well-formed contexts\<close>

definition slave_ok :: "ec_slavet \<Rightarrow> bool" where
  "slave_ok s \<longleftrightarrow> length (SM s) = EC_MAXSM \<and> length (SMtype s) = EC_MAXSM
     \<and> length (FMMU s) = EC_MAXFMMU \<and> length (name s) = EC_MAXNAME + 1"

definition group_ok :: "ec_groupt \<Rightarrow> bool" where
  "group_ok g \<longleftrightarrow> length (IOsegment g) = EC_MAXIOSEGMENTS"

definition stack_ok :: "ec_idxstackT \<Rightarrow> bool" where
  "stack_ok k \<longleftrightarrow> pulled k \<le> pushed k \<and> pushed k \<le> EC_MAXBUF \<and> length (i_idx k) = EC_MAXBUF
     \<and> length (i_data k) = EC_MAXBUF \<and> length (i_length k) = EC_MAXBUF \<and> length (dcoffset k) = EC_MAXBUF
     \<and> (\<forall>i \<in> set (i_idx k). unat i < EC_MAXBUF)"

definition maps_ok :: "ecx_contextt \<Rightarrow> bool" where
  "maps_ok c \<longleftrightarrow> SMcommtype c \<noteq> [] \<and> (\<forall>m \<in> set (SMcommtype c). length (SMcomm m) = EC_MAXSM)
     \<and> PDOassign c \<noteq> [] \<and> (\<forall>m \<in> set (PDOassign c). length (PDOassign_index m) = 256)
     \<and> PDOdesc c \<noteq> [] \<and> (\<forall>m \<in> set (PDOdesc c). length (PDOdesc_PDO m) = 256)"

definition ctx_ok :: "ecx_contextt \<Rightarrow> bool" where
  "ctx_ok c \<longleftrightarrow> nic_inv (port c)
     \<and> length (slavelist c) = EC_MAXSLAVE \<and> (\<forall>s \<in> set (slavelist c). slave_ok s)
     \<and> 0 \<le> slavecount c \<and> slavecount c < int EC_MAXSLAVE
     \<and> length (grouplist c) = EC_MAXGROUP \<and> (\<forall>g \<in> set (grouplist c). group_ok g)
     \<and> ring_ok (elist c) \<and> stack_ok (idxstack c)
     \<and> length (esibuf c) = EC_MAXEEPBUF \<and> length (esimap c) = EC_MAXEEPBITMAP \<and> maps_ok c"

definition evolves :: "ecx_contextt \<Rightarrow> ecx_contextt \<Rightarrow> bool" where
  "evolves c0 c \<longleftrightarrow> ctx_ok c \<and> steady (port c0) (port c) \<and> slavecount c = slavecount c0
     \<and> length (iomap c) = length (iomap c0) \<and> EOEhook c = EOEhook c0 \<and> FOEhook c = FOEhook c0"

lemma evolves_refl [intro]: "ctx_ok c \<Longrightarrow> evolves c c"
  by (auto simp: evolves_def ctx_ok_def)

lemma evolves_trans [trans]: "evolves c d \<Longrightarrow> evolves d e \<Longrightarrow> evolves c e"
  by (auto simp: evolves_def intro: steady_trans)

lemma evolves_ok: "evolves c0 c \<Longrightarrow> ctx_ok c"
  by (simp add: evolves_def)

lemma evolves_inv: "evolves c0 c \<Longrightarrow> nic_inv (port c)"
  by (simp add: evolves_def ctx_ok_def)

lemma evolves_sizes:
  assumes "evolves c0 c"
  shows "length (slavelist c) = EC_MAXSLAVE" "length (grouplist c) = EC_MAXGROUP"
    "length (esibuf c) = EC_MAXEEPBUF" "length (esimap c) = EC_MAXEEPBITMAP"
    "slavecount c = slavecount c0" "0 \<le> slavecount c" "slavecount c < int EC_MAXSLAVE"
    "length (iomap c) = length (iomap c0)"
  using assms by (simp_all add: evolves_def ctx_ok_def)

text \<open>Updates of the parts of the context that keep it well formed.\<close>

lemma evolves_port:
  "evolves c0 c \<Longrightarrow> steady (port c) p \<Longrightarrow> evolves c0 (c\<lparr>port := p\<rparr>)"
  by (auto simp: evolves_def ctx_ok_def maps_ok_def intro: steady_trans steady_inv)

lemma evolves_slave:
  assumes "evolves c0 c" and "slave_ok s"
  shows "evolves c0 (c\<lparr>slavelist := (slavelist c)[i := s]\<rparr>)"
  using assms set_update_subset_insert [of "slavelist c" i s]
  by (auto simp: evolves_def ctx_ok_def maps_ok_def)

lemma evolves_group:
  assumes "evolves c0 c" and "group_ok g"
  shows "evolves c0 (c\<lparr>grouplist := (grouplist c)[i := g]\<rparr>)"
  using assms set_update_subset_insert [of "grouplist c" i g]
  by (auto simp: evolves_def ctx_ok_def maps_ok_def)

lemma evolves_parts:
  assumes "evolves c0 c"
  shows "ring_ok r \<Longrightarrow> evolves c0 (c\<lparr>elist := r\<rparr>)"
    "evolves c0 (c\<lparr>ecaterror := b\<rparr>)"
    "length e = EC_MAXEEPBUF \<Longrightarrow> evolves c0 (c\<lparr>esibuf := e\<rparr>)"
    "length m = EC_MAXEEPBITMAP \<Longrightarrow> evolves c0 (c\<lparr>esimap := m\<rparr>)"
    "evolves c0 (c\<lparr>esislave := w\<rparr>)"
    "stack_ok k \<Longrightarrow> evolves c0 (c\<lparr>idxstack := k\<rparr>)"
    "evolves c0 (c\<lparr>DCtime := t\<rparr>)"
    "length io = length (iomap c) \<Longrightarrow> evolves c0 (c\<lparr>iomap := io\<rparr>)"
    "evolves c0 (c\<lparr>eepSM := sm\<rparr>)"
    "evolves c0 (c\<lparr>eepFMMU := fm\<rparr>)"
  using assms by (auto simp: evolves_def ctx_ok_def maps_ok_def)

lemma slave_ok_updates [simp]:
  "slave_ok (s\<lparr>state := w\<rparr>) = slave_ok s" "slave_ok (s\<lparr>ALstatuscode := w\<rparr>) = slave_ok s"
  "slave_ok (s\<lparr>eep_8byte := b\<rparr>) = slave_ok s" "slave_ok (s\<lparr>eep_pdi := b\<rparr>) = slave_ok s"
  "slave_ok (s\<lparr>mbx_cnt := b\<rparr>) = slave_ok s"
  by (simp_all add: slave_ok_def)

section \<open>Rules\<close>

text \<open>The simplification set that only moves \<open>ret\<close> through a program, leaving its conditionals alone.\<close>

lemmas ret_step = ret_simps ret_case_prod prod.case Let_def

lemma slave_at_wp:
  assumes "evolves c0 c" and "unat i < EC_MAXSLAVE" and "\<And>s. slave_ok s \<Longrightarrow> s = slavelist c ! unat i \<Longrightarrow> Q s"
  shows "ret (slave_at i c) Q"
  using assms by (simp add: slave_at_def evolves_def ctx_ok_def)

lemma upd_slave_wp:
  assumes "evolves c0 c" and "unat i < EC_MAXSLAVE" and "\<And>s. slave_ok s \<Longrightarrow> slave_ok (f s)"
    and "evolves c0 (c\<lparr>slavelist := (slavelist c)[unat i := f (slavelist c ! unat i)]\<rparr>) \<Longrightarrow>
         Q (c\<lparr>slavelist := (slavelist c)[unat i := f (slavelist c ! unat i)]\<rparr>)"
  shows "ret (upd_slave i f c) Q"
proof -
  have "slave_ok (slavelist c ! unat i)" using assms(1,2) by (simp add: evolves_def ctx_ok_def)
  then show ?thesis
    using assms evolves_slave [OF assms(1)]
    by (simp add: upd_slave_def slave_at_def set_slave_def evolves_sizes [OF assms(1)])
qed

lemma on_port_wp:
  assumes "ret (f (port c)) (\<lambda>(r, p). Q (r, c\<lparr>port := p\<rparr>))"
  shows "ret (on_port f c) Q"
  using assms by (simp add: on_port_def case_prod_unfold)

text \<open>The primitives on the context: only the port changes, and it stays steady.\<close>

lemma read_wps:
  assumes k: "evolves c0 c" and n: "unat n \<le> 1490" "unat n \<le> length data"
    and Q: "\<And>w d p. steady (port c) p \<Longrightarrow> evolves c0 (c\<lparr>port := p\<rparr>) \<Longrightarrow> length d = length data \<Longrightarrow>
        Q (w, d, c\<lparr>port := p\<rparr>)"
  shows "ret (read_BRD adp ado n data timeout c) Q" "ret (read_FPRD adp ado n data timeout c) Q"
    "ret (read_APRD adp ado n data timeout c) Q"
proof -
  have s: "steady (port c) (port c)" using evolves_inv [OF k] by (rule steady_refl)
  show "ret (read_BRD adp ado n data timeout c) Q" "ret (read_FPRD adp ado n data timeout c) Q"
    "ret (read_APRD adp ado n data timeout c) Q"
    unfolding read_BRD_def read_FPRD_def read_APRD_def prim_defs ret_simps
    by (rule read_prim_wp [OF s n]; use Q evolves_port [OF k] in simp)+
qed

lemma write_wps:
  assumes k: "evolves c0 c" and n: "unat n \<le> 1490" "unat n \<le> length data"
    and Q: "\<And>w p. steady (port c) p \<Longrightarrow> evolves c0 (c\<lparr>port := p\<rparr>) \<Longrightarrow> Q (w, c\<lparr>port := p\<rparr>)"
  shows "ret (write_BWR adp ado n data timeout c) Q" "ret (write_FPWR adp ado n data timeout c) Q"
    "ret (write_APWR adp ado n data timeout c) Q"
proof -
  have s: "steady (port c) (port c)" using evolves_inv [OF k] by (rule steady_refl)
  show "ret (write_BWR adp ado n data timeout c) Q" "ret (write_FPWR adp ado n data timeout c) Q"
    "ret (write_APWR adp ado n data timeout c) Q"
    unfolding write_BWR_def write_FPWR_def write_APWR_def prim_defs
    by (rule on_port_wp, rule write_prim_wp [OF s n]; use Q evolves_port [OF k] in simp)+
qed

lemma word_wps:
  assumes k: "evolves c0 c"
    and Q: "\<And>w p. steady (port c) p \<Longrightarrow> evolves c0 (c\<lparr>port := p\<rparr>) \<Longrightarrow> Q (w, c\<lparr>port := p\<rparr>)"
  shows "ret (on_port (ecx_FPWRw adp ado d timeout) c) Q" "ret (on_port (ecx_APWRw adp ado d timeout) c) Q"
proof -
  have s: "steady (port c) (port c)" using evolves_inv [OF k] by (rule steady_refl)
  show "ret (on_port (ecx_FPWRw adp ado d timeout) c) Q" "ret (on_port (ecx_APWRw adp ado d timeout) c) Q"
    by (rule on_port_wp, rule word_prims_wp(4,3) [OF s]; use Q evolves_port [OF k] in simp)+
qed

lemma word_read_wps:
  assumes k: "evolves c0 c"
    and Q: "\<And>w p. steady (port c) p \<Longrightarrow> evolves c0 (c\<lparr>port := p\<rparr>) \<Longrightarrow> Q (w, c\<lparr>port := p\<rparr>)"
  shows "ret (on_port (ecx_FPRDw adp ado timeout) c) Q" "ret (on_port (ecx_APRDw adp ado timeout) c) Q"
proof -
  have s: "steady (port c) (port c)" using evolves_inv [OF k] by (rule steady_refl)
  show "ret (on_port (ecx_FPRDw adp ado timeout) c) Q" "ret (on_port (ecx_APRDw adp ado timeout) c) Q"
    by (rule on_port_wp, rule word_prims_wp(2,1) [OF s]; use Q evolves_port [OF k] in simp)+
qed

text \<open>Timers: starting one, sleeping, and the polling loop, which ends with its condition false or
  with the timer expired.\<close>

lemma c_timer_start_wp:
  assumes k: "evolves c0 c"
    and Q: "\<And>t p. osal_timer_start (uint32_of timeout) (os (port c)) = (t, os p) \<Longrightarrow>
        steady (port c) p \<Longrightarrow> evolves c0 (c\<lparr>port := p\<rparr>) \<Longrightarrow> Q t (c\<lparr>port := p\<rparr>)"
  shows "case c_timer_start timeout c of (t, d) \<Rightarrow> Q t d"
proof -
  obtain t e where e: "osal_timer_start (uint32_of timeout) (os (port c)) = (t, e)" by force
  let ?p = "(port c)\<lparr>os := e\<rparr>"
  have "keeps (port c) ?p"
    using timer_start_keeps [OF evolves_inv [OF k], of timeout] e by (simp add: timer_start_def)
  then have s: "steady (port c) ?p" by (rule keeps_steady)
  have "osal_timer_start (uint32_of timeout) (os (port c)) = (t, os ?p)" using e by simp
  from Q [OF this s evolves_port [OF k s]] show ?thesis
    by (simp add: c_timer_start_def timer_start_def e)
qed

lemma evolves_usleep: "evolves c0 c \<Longrightarrow> evolves c0 (c_usleep us c)"
  unfolding c_usleep_def usleep_def
  by (rule evolves_port) (auto intro!: keeps_steady keeps_os dest: evolves_inv)

definition timed_out :: "osal_timert \<Rightarrow> osenv \<Rightarrow> osenv \<Rightarrow> bool" where
  "timed_out t e0 e1 \<longleftrightarrow>
     (\<exists>e. env_ext e0 e \<and> nclock e1 = Suc (nclock e) \<and> fst (osal_timer_is_expired t e))"

lemma timed_out_elapsed:
  assumes "\<forall>n. snd (clock_at e n) < 1000000000"
    and "fst (clock_at e (nclock e)) + us div 1000000 + 1 < 2 ^ 32"
    and "osal_timer_start us e = (t, e1)" and "timed_out t e1 e2"
  shows "clock_us e (nclock e) + us \<le> clock_us e (nclock e2 - 1)"
  using timer_expired_iff [OF assms(1-3)] assms(4) by (auto simp: timed_out_def)

lemma c_and_not_expired_wp:
  assumes k: "evolves c0 c" and e0: "env_ext e0 (os (port c))"
    and Q: "\<And>b p. steady (port c) p \<Longrightarrow> evolves c0 (c\<lparr>port := p\<rparr>) \<Longrightarrow>
        (b \<Longrightarrow> x \<and> fuel_left t p < fuel_left t (port c)) \<Longrightarrow>
        (\<not> b \<Longrightarrow> x \<Longrightarrow> timed_out t e0 (os p)) \<Longrightarrow> Q b (c\<lparr>port := p\<rparr>)"
  shows "case c_and_not_expired x t c of (b, d) \<Rightarrow> Q b d"
proof -
  obtain b p where r: "and_not_expired x t (port c) = (b, p)" by force
  have inv: "nic_inv (port c)" using k by (rule evolves_inv)
  have s: "steady (port c) p"
    using keeps_steady [OF and_not_expired_keeps [OF inv, of x t]] r by simp
  have "x \<and> fuel_left t p < fuel_left t (port c)" if b
    using fuel_step [OF inv, of x t] r that by (auto simp: and_not_expired_def split: if_splits)
  moreover have "timed_out t e0 (os p)" if "\<not> b" x
    unfolding timed_out_def using e0 that r and_not_expired_stop [of t "port c"] by auto
  ultimately show ?thesis
    using Q [OF s evolves_port [OF k s]] by (simp add: c_and_not_expired_def r)
qed

lemma c_poll_inv_wp:
  assumes k: "evolves c0 c" and K: "K x"
    and body: "\<And>x d. K x \<Longrightarrow> evolves c0 d \<Longrightarrow> env_ext (os (port c)) (os (port d)) \<Longrightarrow>
        ret (body (x, d)) (\<lambda>(y, e). evolves d e \<and> K y \<and> J y e)"
    and J: "\<And>y e p. J y e \<Longrightarrow> J y (e\<lparr>port := p\<rparr>)"
    and Q: "\<And>y d. evolves c0 d \<Longrightarrow> K y \<Longrightarrow> J y d \<Longrightarrow> (cond y \<Longrightarrow> timed_out t (os (port c)) (os (port d))) \<Longrightarrow> Q (y, d)"
  shows "ret (c_poll t cond body (x, c)) Q"
  unfolding c_poll_def
proof (rule do_while_ret [where I = "\<lambda>s. K (fst s) \<and> evolves c0 (snd s) \<and> env_ext (os (port c)) (os (port (snd s)))"
      and m = "\<lambda>s. fuel_left t (port (snd s))"])
  fix s :: "'a \<times> ecx_contextt"
  assume "K (fst s) \<and> evolves c0 (snd s) \<and> env_ext (os (port c)) (os (port (snd s)))"
  then obtain x d where s: "s = (x, d)" and Kx: "K x" and kd: "evolves c0 d" and ed: "env_ext (os (port c)) (os (port d))"
    by (cases s) auto
  have "case c_and_not_expired (cond y) t e of (b, r) \<Rightarrow>
      (if b then (K y \<and> evolves c0 r \<and> env_ext (os (port c)) (os (port r))) \<and> fuel_left t (port r) < fuel_left t (port d)
       else Q (y, r))"
    if e: "evolves d e" and j: "K y" "J y e" for y e
  proof (rule c_and_not_expired_wp [where ?e0.0 = "os (port c)"])
    show ke: "evolves c0 e" using kd e by (rule evolves_trans)
    have st: "steady (port d) (port e)" using e by (simp add: evolves_def)
    then show ee: "env_ext (os (port c)) (os (port e))"
      using ed env_ext_trans by (auto simp: steady_def)
    have le: "fuel_left t (port e) \<le> fuel_left t (port d)"
      using st by (simp add: fuel_left_def steady_def reads_left_mono)
    fix b p
    assume p: "steady (port e) p" "evolves c0 (e\<lparr>port := p\<rparr>)"
      and fuel: "b \<Longrightarrow> cond y \<and> fuel_left t p < fuel_left t (port e)"
      and out: "\<not> b \<Longrightarrow> cond y \<Longrightarrow> timed_out t (os (port c)) (os p)"
    have "env_ext (os (port c)) (os p)" using ee p(1) env_ext_trans by (auto simp: steady_def)
    then show "if b then (K y \<and> evolves c0 (e\<lparr>port := p\<rparr>) \<and> env_ext (os (port c)) (os (port (e\<lparr>port := p\<rparr>))))
        \<and> fuel_left t (port (e\<lparr>port := p\<rparr>)) < fuel_left t (port d) else Q (y, e\<lparr>port := p\<rparr>)"
      using p fuel le out j(1) Q [OF p(2) j(1) J [OF j(2)]] by auto
  qed
  with body [OF Kx kd ed]
  show "ret (body s) (\<lambda>s1. ret (case s1 of (x, c) \<Rightarrow> let (b, c) = c_and_not_expired (cond x) t c in Some (b, x, c))
      (\<lambda>(b, s'). if b then (K (fst s') \<and> evolves c0 (snd s') \<and> env_ext (os (port c)) (os (port (snd s'))))
         \<and> fuel_left t (port (snd s')) < fuel_left t (port (snd s)) else Q s'))"
    unfolding s by (elim ret_conseq) (auto simp: case_prod_unfold Let_def)
qed (use k K in \<open>auto simp: evolves_def steady_def\<close>)

lemma c_poll_wp:
  assumes k: "evolves c0 c"
    and body: "\<And>x d. evolves c0 d \<Longrightarrow> env_ext (os (port c)) (os (port d)) \<Longrightarrow>
        ret (body (x, d)) (\<lambda>(y, e). evolves d e \<and> J y e)"
    and J: "\<And>y e p. J y e \<Longrightarrow> J y (e\<lparr>port := p\<rparr>)"
    and Q: "\<And>y d. evolves c0 d \<Longrightarrow> J y d \<Longrightarrow> (cond y \<Longrightarrow> timed_out t (os (port c)) (os (port d))) \<Longrightarrow> Q (y, d)"
  shows "ret (c_poll t cond body (x, c)) Q"
  by (rule c_poll_inv_wp [OF k, where K = "\<lambda>_. True" and J = J]) (use body J Q in auto)

section \<open>A master for the examples\<close>

definition demo_master :: ecx_contextt where
  "demo_master = (ecx_context demo_port (replicate 64 0))\<lparr>slavecount := 3\<rparr>"

lemma demo_master_ok: "ctx_ok demo_master"
  using demo_port_inv
  by (auto simp: demo_master_def ecx_context_def ctx_ok_def maps_ok_def slave_ok_def group_ok_def
      stack_ok_def ring_ok_def zero_slave_def zero_group_def)

lemma demo_master_clock:
  "\<forall>n. snd (clock_at (os (port demo_master)) n) < 1000000000"
  "fst (clock_at (os (port demo_master)) (nclock (os (port demo_master)))) + 2000 div 1000000 + 1 < 2 ^ 32"
  "slavecount demo_master = 3" "slavelist demo_master = replicate EC_MAXSLAVE zero_slave"
  by (simp_all add: demo_master_def ecx_context_def demo_port_def zero_port_def idle_kernel_def)

end
