(* ===== verification/State_Props.thy ===== *)
theory State_Props
  imports Ctx_Safety
begin

text \<open>
  The application-layer state services are safe on a well-formed context and do what they say:
  reading all states in one broadcast or in blocks of 64, awaiting a state.
\<close>

section \<open>Several slaves in one frame\<close>

lemma length_alstatus_bytes [simp]: "length (alstatus_bytes s) = 6"
  by (simp add: alstatus_bytes_def)

text \<open>While datagrams are added, the frame grows by 18 bytes each and the recorded positions stay
  where their data fits.\<close>

definition multi_inv :: "ecx_portt \<Rightarrow> byte \<Rightarrow> nat \<Rightarrow> u16 list \<times> ecx_portt \<Rightarrow> bool" where
  "multi_inv p0 idx k = (\<lambda>(pos, p). steady p0 p \<and> loaded idx p \<and> length pos = k
     \<and> txbuflength p ! unat idx = 16 + 18 * k \<and> (\<forall>off \<in> set pos. unat off \<le> 16 + 18 * k))"

lemma fprd_add_wp:
  assumes i: "multi_inv p0 idx k s" and k: "k < MAX_FPRD_MULTI"
    and len: "k < length configlst" "k < length sl"
  shows "ret (fprd_add idx configlst sl follows k s) (multi_inv p0 idx (Suc k))"
proof -
  obtain pos p where s: "s = (pos, p)" by (cases s)
  have inv: "steady p0 p" "loaded idx p" "length pos = k" "txbuflength p ! unat idx = 16 + 18 * k"
    "\<forall>off \<in> set pos. unat off \<le> 16 + 18 * k"
    using i by (auto simp: s multi_inv_def)
  show ?thesis
    unfolding fprd_add_def s using k len
    by (auto intro!: adddatagram_wp [OF inv(1,2)] simp: inv local_push_def multi_inv_def dest: bspec [OF inv(5)])
qed

lemma fprd_copy_wp:
  assumes k: "steady p0 p" and idx: "unat idx < EC_MAXBUF"
    and pos: "i < length pos" "\<forall>off \<in> set pos. unat off \<le> 1512" and len: "i < length sl"
  shows "ret (fprd_copy idx pos p i sl) (\<lambda>sl'. length sl' = length sl)"
proof -
  have "unat (pos ! i) \<le> 1512" using pos by simp
  then show ?thesis
    unfolding fprd_copy_def using pos(1) len
    by (auto intro!: copy_rx_wp2 [OF k idx])
qed

lemma fprd_build_wp:
  assumes k: "steady p0 p" and idx: "unat idx < EC_MAXBUF" and n: "1 \<le> n" "n \<le> MAX_FPRD_MULTI"
    and len: "n \<le> length configlst" "n \<le> length sl"
  shows "ret (fprd_build n idx configlst sl p) (multi_inv p0 idx n)"
proof -
  have add: "ret (for_each (fprd_add idx configlst sl True) [1..<n - 1] st) (\<lambda>st.
      ret (if 1 < n then fprd_add idx configlst sl False (n - 1) st else Some st) (multi_inv p0 idx n))"
    if st: "multi_inv p0 idx 1 st" for st
  proof (cases "n = 1")
    case True
    then show ?thesis using st by simp
  next
    case False
    have "ret (for_each (fprd_add idx configlst sl True) [1..<n - 1] st) (multi_inv p0 idx (n - 1))"
      using False n len st by (intro for_each_range) (auto intro!: fprd_add_wp)
    then show ?thesis
    proof (rule ret_conseq)
      fix st' assume "multi_inv p0 idx (n - 1) st'"
      from fprd_add_wp [OF this, of configlst sl False] n len False
      show "ret (if 1 < n then fprd_add idx configlst sl False (n - 1) st' else Some st') (multi_inv p0 idx n)"
        by simp
    qed
  qed
  have "configlst \<noteq> []" "sl \<noteq> []" using n len by auto
  then show ?thesis
    unfolding fprd_build_def ret_simps ret_aget
    by (intro conjI setupdatagram_wp [OF k idx] add) (simp_all add: multi_inv_def)
qed

lemma FPRD_multi_wp:
  assumes k: "evolves c0 c" and n: "1 \<le> n" "n \<le> MAX_FPRD_MULTI"
    and len: "n \<le> length configlst" "n \<le> length sl"
    and Q: "\<And>w sl' p. evolves c0 (c\<lparr>port := p\<rparr>) \<Longrightarrow> length sl' = length sl \<Longrightarrow> Q (w, sl', c\<lparr>port := p\<rparr>)"
  shows "ret (ecx_FPRD_multi n configlst sl timeout c) Q"
proof -
  let ?P = "port c"
  have s: "steady ?P ?P" using evolves_inv [OF k] by (rule steady_refl)
  have rest: "ret (ecx_srconfirm idx timeout q) (\<lambda>(wkc, p).
      ret (if 0 \<le> wkc then for_each (fprd_copy idx pos p) [0..<n] sl else Some sl) (\<lambda>sl'.
        ret (ecx_setbufstat idx EC_BUF_EMPTY p) (\<lambda>p. Q (wkc, sl', c\<lparr>port := p\<rparr>))))"
    if m: "multi_inv ?P idx n (pos, q)" for idx pos q
  proof -
    have inv: "steady ?P q" "loaded idx q" "length pos = n" "\<forall>off \<in> set pos. unat off \<le> 1512"
      using m n by (auto simp: multi_inv_def)
    have i: "unat idx < EC_MAXBUF" using inv(2) by (simp add: loaded_def)
    have copy: "ret (for_each (fprd_copy idx pos p) [0..<n] sl) (\<lambda>sl'. length sl' = length sl)"
      if "steady ?P p" for p
    proof (rule for_each_ret)
      fix j and s :: "ec_alstatust list"
      assume "j \<in> set [0..<n]" "length s = length sl"
      then show "ret (fprd_copy idx pos p j s) (\<lambda>sl'. length sl' = length sl)"
        using fprd_copy_wp [OF that i _ inv(4), of j s] inv(3) len by simp
    qed simp
    show ?thesis
      by (rule srconfirm_wp [OF inv(1,2)])
        (auto intro!: copy [THEN ret_conseq] release_wp i Q evolves_port [OF k])
  qed
  show ?thesis
    unfolding ecx_FPRD_multi_def ret_simps
    apply (rule getindex_wp [OF s])
    apply (simp only: ret_step)
    apply (rule fprd_build_wp [THEN ret_conseq, OF _ _ n len], assumption, assumption)
    subgoal for i q x
      using rest [of i "fst x" "snd x"] by (cases x) (simp only: ret_step fst_conv snd_conv)
    done
qed

section \<open>Reading all states\<close>

lemma readstate_request_wp:
  assumes k: "evolves c0 c" and i: "i < EC_MAXSLAVE"
    and len: "length (fst xs) < MAX_FPRD_MULTI" "length (snd xs) = length (fst xs)"
  shows "ret (readstate_request i c xs) (\<lambda>ys. length (fst ys) = Suc (length (fst xs))
           \<and> length (snd ys) = length (fst ys))"
  using i len
  by (auto simp: readstate_request_def case_prod_unfold local_push_def unsigned_of_nat take_bit_nat_eq_self
      intro!: slave_at_wp [OF k])

lemma readstate_requests_wp:
  assumes k: "evolves c0 c" and b: "b \<le> EC_MAXSLAVE" and a: "a \<le> b" "b - a \<le> MAX_FPRD_MULTI"
  shows "ret (for_each (\<lambda>i. readstate_request i c) [a..<b] ([], []))
    (\<lambda>ys. length (fst ys) = b - a \<and> length (snd ys) = b - a)"
proof -
  have "ret (for_each (\<lambda>i. readstate_request i c) [a..<b] ([], []))
    ((\<lambda>i ys. length (fst ys) = i - a \<and> length (snd ys) = length (fst ys)) b)"
  proof (rule for_each_range)
    fix i and xs :: "u16 list \<times> ec_alstatust list"
    assume i: "a \<le> i" "i < b" and len: "length (fst xs) = i - a \<and> length (snd xs) = length (fst xs)"
    have "ret (readstate_request i c xs) (\<lambda>ys. length (fst ys) = Suc (length (fst xs))
           \<and> length (snd ys) = length (fst ys))"
      by (rule readstate_request_wp [OF k]) (use i len b a in auto)
    then show "ret (readstate_request i c xs) (\<lambda>ys. length (fst ys) = Suc i - a \<and> length (snd ys) = length (fst ys))"
      by (rule ret_conseq) (use i len in auto)
  qed (use a in auto)
  then show ?thesis by (rule ret_conseq) auto
qed

text \<open>What the loop over the slaves computes: after \<open>m\<close> slaves, the lowest state and all status codes
  combined in the master's entry.\<close>

definition slaves_upto :: "nat \<Rightarrow> ecx_contextt \<Rightarrow> ec_slavet list" where
  "slaves_upto m c = take m (drop 1 (slavelist c))"

definition lowest_state :: "ec_slavet list \<Rightarrow> u16" where
  "lowest_state ss = fold min (map (\<lambda>s. state s AND 0xf) ss) 0xff"

definition all_codes :: "ec_slavet list \<Rightarrow> u16" where
  "all_codes ss = fold (OR) (map ALstatuscode ss) 0"

definition summary :: "nat \<Rightarrow> u16 \<Rightarrow> ecx_contextt \<Rightarrow> bool" where
  "summary m l c \<longleftrightarrow> l = lowest_state (slaves_upto m c)
     \<and> ALstatuscode (slavelist c ! 0) = all_codes (slaves_upto m c)"

lemma take_Suc_update: "m < length xs \<Longrightarrow> take (Suc m) (xs[m := x]) = take m xs @ [x]"
  by (simp add: take_Suc_conv_app_nth)

lemma slaves_upto_update:
  assumes "Suc m < length ss"
  shows "take (Suc m) (drop 1 (ss[Suc m := s, 0 := t])) = take m (drop 1 ss) @ [s]"
    "take (Suc m) (drop 1 (ss[0 := t, Suc m := s])) = take m (drop 1 ss) @ [s]"
  using assms take_Suc_update [of m "drop 1 ss" s]
  by (simp_all add: drop_update_swap drop_update_cancel)

lemma readstate_take_wp:
  assumes k: "evolves c0 c" and i: "Suc m < EC_MAXSLAVE" and len: "Suc m - f < length sl"
    and sum: "summary m l c"
  shows "ret (readstate_take f sl (Suc m) (l, c)) (\<lambda>(l, d). evolves c0 d \<and> summary (Suc m) l d)"
proof -
  have i': "unat (of_nat (Suc m) :: u16) = Suc m"
    using i by (simp add: unsigned_of_nat take_bit_nat_eq_self del: of_nat_Suc)
  have len2: "Suc m < length (slavelist c)" using i evolves_sizes(1) [OF k] by simp
  then have ne: "slavelist c \<noteq> []" by auto
  let ?st = "sl ! (Suc m - f)"
  let ?s = "(slavelist c ! Suc m)\<lparr>ALstatuscode := alstatuscode ?st, state := alstatus ?st\<rparr>"
  let ?m = "(slavelist c ! 0)\<lparr>ALstatuscode := ALstatuscode (slavelist c ! 0) OR alstatuscode ?st\<rparr>"
  let ?d = "c\<lparr>slavelist := (slavelist c)[Suc m := ?s, 0 := ?m]\<rparr>"
  have "readstate_take f sl (Suc m) (l, c) = Some (min l (alstatus ?st AND 0xf), ?d)"
    using len len2
    by (auto simp: readstate_take_def upd_slave_def slave_at_def set_slave_def i' aget_def aset_def Let_def
        min_def simp del: of_nat_Suc)
  moreover have "evolves c0 ?d"
  proof -
    have ok: "slave_ok (slavelist c ! 0)" "slave_ok (slavelist c ! Suc m)"
      using k len2 by (auto simp: evolves_def ctx_ok_def)
    have "evolves c0 (c\<lparr>slavelist := (slavelist c)[Suc m := ?s]\<rparr>)"
      by (rule evolves_slave [OF k]) (simp add: ok)
    from evolves_slave [OF this, of ?m 0] show ?thesis by (simp add: ok)
  qed
  moreover have "summary (Suc m) (min l (alstatus ?st AND 0xf)) ?d"
    using sum slaves_upto_update(1) [OF len2] len2 ne
    by (simp add: summary_def slaves_upto_def lowest_state_def all_codes_def min.commute or.commute)
  ultimately show ?thesis by simp
qed

lemma readstate_takes_wp:
  assumes k: "evolves c0 c" and b: "Suc b \<le> EC_MAXSLAVE" and len: "Suc b - f \<le> length sl"
    and f: "1 \<le> f" "f \<le> Suc b" and sum: "summary (f - 1) l c"
  shows "ret (for_each (readstate_take f sl) [f..<Suc b] (l, c)) (\<lambda>(l, d). evolves c0 d \<and> summary b l d)"
proof -
  have "ret (for_each (readstate_take f sl) [f..<Suc b] (l, c))
    ((\<lambda>i (l, d). evolves c0 d \<and> summary (i - 1) l d) (Suc b))"
  proof (rule for_each_range)
    fix i and s :: "u16 \<times> ecx_contextt"
    assume i: "f \<le> i" "i < Suc b" and s: "case s of (l, d) \<Rightarrow> evolves c0 d \<and> summary (i - 1) l d"
    obtain m where m: "i = Suc m" using i f by (cases i) auto
    show "ret (readstate_take f sl i s) (\<lambda>(l, d). evolves c0 d \<and> summary (Suc i - 1) l d)"
      using s i b len readstate_take_wp [of c0 "snd s" m f sl "fst s"] by (cases s) (simp add: m)
  qed (use k f sum in auto)
  then show ?thesis by simp
qed

text \<open>Block by block, from slave 1 to the last.\<close>

definition block_inv :: "ecx_contextt \<Rightarrow> u16 \<times> u16 \<times> ecx_contextt \<Rightarrow> bool" where
  "block_inv c0 = (\<lambda>(f, l, d). evolves c0 d \<and> 1 \<le> unat f \<and> unat f \<le> nat (slavecount c0)
     \<and> summary (unat f - 1) l d)"

lemma readstate_block_wp:
  assumes i: "block_inv c0 (f, l, c)"
  shows "ret (readstate_block (f, l, c)) (\<lambda>(b, l, d). evolves c0 d \<and> unat f \<le> unat b
           \<and> unat b \<le> nat (slavecount c0) \<and> summary (unat b) l d)"
proof -
  have k: "evolves c0 c" and f: "1 \<le> unat f" and fn: "unat f \<le> nat (slavecount c0)"
    and sum: "summary (unat f - 1) l c"
    using i by (auto simp: block_inv_def)
  have n: "slavecount c = slavecount c0" "slavecount c0 < 200" "0 \<le> slavecount c0"
    using evolves_sizes(5-7) [OF k] by linarith+
  have fi: "int (unat f) \<le> slavecount c0" using fn n(3) by linarith
  define b where "b = (if int MAX_FPRD_MULTI \<le> uint (of_int (slavecount c) :: u16) - uint f
     then f + of_nat MAX_FPRD_MULTI - 1 else of_int (slavecount c))"
  have u: "uint (of_int (slavecount c) :: u16) = slavecount c0"
  proof -
    have "take_bit 16 (slavecount c0) = slavecount c0" using n by (intro take_bit_int_eq_self) simp_all
    then show ?thesis using n by (simp add: unsigned_of_int)
  qed
  have b: "unat f \<le> unat b" "unat b \<le> nat (slavecount c0)" "Suc (unat b) - unat f \<le> MAX_FPRD_MULTI"
  proof -
    have 1: "unat (f + 64 - 1) = unat f + 63" if "unat f < 200"
    proof -
      have "f + 64 - 1 = f + 63" by simp
      then show ?thesis using that by (simp add: unat_word_ariths)
    qed
    have 2: "int (unat b) = (if 64 \<le> slavecount c0 - int (unat f) then int (unat f) + 63 else slavecount c0)"
      using 1 f fi n u unfolding b_def uint_nat by (cases "64 \<le> slavecount c0 - int (unat f)") simp_all
    show "unat f \<le> unat b" "unat b \<le> nat (slavecount c0)" "Suc (unat b) - unat f \<le> MAX_FPRD_MULTI"
      using 2 f fi n by (cases "64 \<le> slavecount c0 - int (unat f)"; simp only: if_True if_False; linarith)+
  qed
  have len: "Suc (unat b) \<le> EC_MAXSLAVE" using b(2) n by linarith
  show ?thesis
    unfolding readstate_block_def ret_step b_def [symmetric]
    apply (rule readstate_requests_wp [THEN ret_conseq, OF k])
    using b len apply simp_all [3]
    apply (simp only: case_prod_unfold)
    apply (rule FPRD_multi_wp [OF k])
    using b apply simp_all [4]
    apply (simp only: ret_step fst_conv snd_conv)
    apply (rule readstate_takes_wp [THEN ret_conseq], assumption)
    using b f len sum by (simp_all add: case_prod_unfold summary_def slaves_upto_def)
qed

lemma readstate_blocks_wp:
  assumes k: "evolves c0 c" and n: "0 < slavecount c0" and sum: "summary 0 0xff c"
  shows "ret (do_while readstate_block
          (\<lambda>(lslave, lowest, c). Some (uint lslave < slavecount c,
             (if uint lslave < slavecount c then lslave + 1 else lslave), lowest, c)) (1, 0xff, c))
     (\<lambda>(_, l, d). evolves c0 d \<and> summary (nat (slavecount c0)) l d)"
proof (rule do_while_ret [where I = "block_inv c0" and m = "\<lambda>(f, l, d). nat (slavecount c0) - unat f"])
  fix s assume i: "block_inv c0 s"
  obtain f l d where s: "s = (f, l, d)" by (cases s)
  have n200: "slavecount c0 < 200" using evolves_sizes(5,7) [OF k] by simp
  have onward: "block_inv c0 (b + 1, l, d) \<and> nat (slavecount c0) - unat (b + 1) < nat (slavecount c0) - unat f"
    if "evolves c0 d" "unat f \<le> unat b" "unat b < nat (slavecount c0)" "summary (unat b) l d" for f b :: u16 and l d
  proof -
    have "unat b + 1 < 65536" using that(3) n200 by linarith
    then have "unat (b + 1) = unat b + 1" by (simp add: unat_word_ariths)
    then show ?thesis using that by (auto simp: block_inv_def)
  qed
  have less: "uint b < slavecount c0 \<longleftrightarrow> unat b < nat (slavecount c0)" for b :: u16
    unfolding uint_nat by linarith
  have same: "slavecount d = slavecount c0" if "evolves c0 d" for d using that by (simp add: evolves_def)
  from readstate_block_wp [OF i [unfolded s], folded s] show "ret (readstate_block s) (\<lambda>s1. ret (case s1 of
      (lslave, lowest, c) \<Rightarrow> Some (uint lslave < slavecount c,
             (if uint lslave < slavecount c then lslave + 1 else lslave), lowest, c))
      (\<lambda>(b, t). if b then block_inv c0 t
         \<and> (case t of (f, l, d) \<Rightarrow> nat (slavecount c0) - unat f) < (case s of (f, l, d) \<Rightarrow> nat (slavecount c0) - unat f)
        else case t of (_, l, d) \<Rightarrow> evolves c0 d \<and> summary (nat (slavecount c0)) l d))"
  proof (rule ret_conseq, goal_cases)
    case (1 t)
    then show ?case
      using onward [of "snd (snd t)" f "fst t" "fst (snd t)"] same [of "snd (snd t)"]
      by (auto simp: s less case_prod_unfold)
  qed
qed (use assms in \<open>simp add: block_inv_def\<close>)

lemma upd_slave_0_wp:
  assumes k: "evolves c0 c" and "\<And>s. slave_ok s \<Longrightarrow> slave_ok (f s)"
    and "evolves c0 (c\<lparr>slavelist := (slavelist c)[0 := f (slavelist c ! 0)]\<rparr>) \<Longrightarrow>
         Q (c\<lparr>slavelist := (slavelist c)[0 := f (slavelist c ! 0)]\<rparr>)"
  shows "ret (upd_slave 0 f c) Q"
  by (rule upd_slave_wp [OF k]) (use assms in simp_all)

text \<open>The loop of the broadcast case: every slave gets the common state.\<close>

lemma same_states_wp:
  assumes k: "evolves c0 c" and n: "n < EC_MAXSLAVE"
  shows "ret (for_each (\<lambda>i. upd_slave (of_nat i) (\<lambda>s. s\<lparr>ALstatuscode := 0, state := b\<rparr>)) [1..<Suc n] c)
    (\<lambda>d. evolves c0 d \<and> slavelist d ! 0 = slavelist c ! 0
       \<and> (\<forall>s \<in> set (slaves_upto n d). ALstatuscode s = 0 \<and> state s = b))"
proof -
  have "ret (for_each (\<lambda>i. upd_slave (of_nat i) (\<lambda>s. s\<lparr>ALstatuscode := 0, state := b\<rparr>)) [1..<Suc n] c)
    ((\<lambda>i d. evolves c0 d \<and> slavelist d ! 0 = slavelist c ! 0
       \<and> (\<forall>s \<in> set (slaves_upto (i - 1) d). ALstatuscode s = 0 \<and> state s = b)) (Suc n))"
  proof (rule for_each_range)
    fix i d
    assume i: "1 \<le> i" "i < Suc n" and d: "evolves c0 d \<and> slavelist d ! 0 = slavelist c ! 0
       \<and> (\<forall>s \<in> set (slaves_upto (i - 1) d). ALstatuscode s = 0 \<and> state s = b)"
    obtain m where m: "i = Suc m" using i by (cases i) auto
    have u: "unat (of_nat (Suc m) :: u16) = Suc m"
      using i n m by (simp add: unsigned_of_nat take_bit_nat_eq_self del: of_nat_Suc)
    have len: "Suc m < length (slavelist d)" using i n m evolves_sizes(1) [of c0 d] d by simp
    show "ret (upd_slave (of_nat i) (\<lambda>s. s\<lparr>ALstatuscode := 0, state := b\<rparr>) d)
      (\<lambda>d. evolves c0 d \<and> slavelist d ! 0 = slavelist c ! 0
       \<and> (\<forall>s \<in> set (slaves_upto (Suc i - 1) d). ALstatuscode s = 0 \<and> state s = b))"
      unfolding m
      by (rule upd_slave_wp [where ?c0.0 = c0])
        (use d m len i n u take_Suc_update [of m "drop 1 (slavelist d)"] in
          \<open>auto simp: slaves_upto_def drop_update_swap simp del: of_nat_Suc\<close>)
  qed (use k in \<open>auto simp: slaves_upto_def\<close>)
  then show ?thesis by simp
qed

lemma fold_min_same:
  assumes "xs \<noteq> []" and "\<forall>x \<in> set xs. x = (a :: u16)" and "a \<le> m"
  shows "fold min xs m = a"
  using assms by (induction xs arbitrary: m) (auto simp: min_def, metis fold_simps(1) order_refl)

lemma fold_or_zero: "\<forall>x \<in> set xs. x = (0 :: u16) \<Longrightarrow> fold (OR) xs 0 = 0"
  by (induction xs) auto

definition slaves :: "ecx_contextt \<Rightarrow> ec_slavet list" where
  "slaves c = slaves_upto (nat (slavecount c)) c"

lemma readstate_slow:
  assumes k: "evolves c0 c" and n: "0 < slavecount c0"
  shows "ret (do {
      c \<leftarrow> upd_slave 0 (\<lambda>s. s\<lparr>ALstatuscode := 0\<rparr>) c;
      (_, lowest, c) \<leftarrow> do_while readstate_block
          (\<lambda>(lslave, lowest, c). Some (uint lslave < slavecount c,
             (if uint lslave < slavecount c then lslave + 1 else lslave), lowest, c)) (1, 0xff, c);
      c \<leftarrow> upd_slave 0 (\<lambda>s. s\<lparr>state := lowest\<rparr>) c;
      Some (lowest, c) })
    (\<lambda>(l, d). evolves c0 d \<and> summary (nat (slavecount c0)) l d \<and> state (slavelist d ! 0) = l)"
  unfolding ret_step
  apply (rule upd_slave_0_wp [OF k], simp)
  apply (rule readstate_blocks_wp [THEN ret_conseq, OF _ n], assumption)
  using evolves_sizes(1) [OF k]
   apply (simp add: summary_def slaves_upto_def all_codes_def lowest_state_def)
  apply (clarsimp split: prod.splits)
  apply (rule upd_slave_0_wp, assumption, simp)
  apply (auto simp: summary_def slaves_upto_def dest: evolves_sizes(1))
  done

lemma readstate_fast:
  assumes k: "evolves c0 c" and n: "0 < slavecount c0" and b: "b = b AND 0xf"
    and m: "state (slavelist c ! 0) = b" "ALstatuscode (slavelist c ! 0) = 0"
  shows "ret (for_each (\<lambda>i. upd_slave (of_nat i) (\<lambda>s. s\<lparr>ALstatuscode := 0, state := b\<rparr>))
             [1..<Suc (nat (slavecount c))] c)
    (\<lambda>d. evolves c0 d \<and> summary (nat (slavecount c0)) b d \<and> state (slavelist d ! 0) = b)"
proof -
  let ?n = "nat (slavecount c0)"
  have same: "slavecount c = slavecount c0" and N: "?n < EC_MAXSLAVE"
    using evolves_sizes(5,7) [OF k] by auto
  have "b AND 0xf \<le> 0xf" by (rule word_and_le1)
  then have "b \<le> 0xf" by (simp only: b [symmetric])
  then have b255: "b \<le> 0xff" by (rule order_trans) simp
  show ?thesis
    unfolding same
  proof (rule same_states_wp [THEN ret_conseq, OF k N])
    fix d
    assume d: "evolves c0 d \<and> slavelist d ! 0 = slavelist c ! 0
      \<and> (\<forall>s \<in> set (slaves_upto ?n d). ALstatuscode s = 0 \<and> state s = b)"
    then have "slaves_upto ?n d \<noteq> []"
      using evolves_sizes(1) [of c0 d] n N by (simp add: slaves_upto_def)
    then have "lowest_state (slaves_upto ?n d) = b"
      unfolding lowest_state_def using d b b255 by (intro fold_min_same) auto
    moreover have "all_codes (slaves_upto ?n d) = 0"
      unfolding all_codes_def using d by (intro fold_or_zero) auto
    ultimately show "evolves c0 d \<and> summary ?n b d \<and> state (slavelist d ! 0) = b"
      using d m by (simp add: summary_def)
  qed
qed

lemma and_0xf_idem: "(w AND 0x0f) AND 0xf = (w AND 0x0f :: u16)"
  by (simp add: and.assoc)

lemma slaves_summary:
  "evolves c d \<Longrightarrow> summary (nat (slavecount c)) l d \<Longrightarrow> l = lowest_state (slaves d)
      \<and> ALstatuscode (slavelist d ! 0) = all_codes (slaves d)"
  by (simp add: summary_def slaves_def evolves_def)

lemma readstate_master:
  assumes k: "evolves c0 c"
  shows "ret (if noerr then upd_slave 0 (\<lambda>s. s\<lparr>ALstatuscode := 0\<rparr>) c else Some c) (\<lambda>d. evolves c0 d
      \<and> (noerr \<longrightarrow> ALstatuscode (slavelist d ! 0) = 0))"
    "ret (if same then upd_slave 0 (\<lambda>s. s\<lparr>state := b\<rparr>) c else Some c) (\<lambda>d. evolves c0 d
      \<and> ALstatuscode (slavelist d ! 0) = ALstatuscode (slavelist c ! 0) \<and> (same \<longrightarrow> state (slavelist d ! 0) = b))"
  using k evolves_sizes(1) [OF k] by (auto simp: ret_if intro!: upd_slave_0_wp [OF k])

text \<open> C27: Reading all states returns on every well-formed master with at least one slave, whatever the
  bus answers: no access outside an array, no endless loop, in particular with more than 64 slaves,
  where several frames are needed. The value returned is the lowest state of the slaves it has
  recorded (and at most 0xff), it is the state of the master's own entry, and that entry's status
  code is the OR of the slaves' status codes. \<close>

theorem readstate_summary:
  assumes ok: "ctx_ok c" and n: "0 < slavecount c"
  shows "ret (ecx_readstate c) (\<lambda>(lowest, d). evolves c d \<and> lowest = lowest_state (slaves d)
     \<and> state (slavelist d ! 0) = lowest \<and> ALstatuscode (slavelist d ! 0) = all_codes (slaves d))"
proof -
  have k: "evolves c c" using ok by (rule evolves_refl)
  show ?thesis
    unfolding ecx_readstate_def ret_step
  proof (rule read_wps(1) [OF k], goal_cases)
    case (3 w d p)
    let ?b = "le_word d AND 0x0f"
    show ?case
      unfolding ret_step
      apply (rule readstate_master(1) [OF 3(2), THEN ret_conseq])
      apply (elim conjE, rule readstate_master(2) [THEN ret_conseq], assumption)
      apply (simp only: ret_if, rule if_split [THEN iffD2], intro conjI impI)
      subgoal
        unfolding ret_step
        by (rule readstate_fast [THEN ret_conseq, OF _ n and_0xf_idem [symmetric]])
          (auto dest: slaves_summary)
      subgoal for x y
        by (rule readstate_slow [THEN ret_conseq, OF _ n]) (auto dest: slaves_summary)
      done
  qed simp_all
qed

theorem readstate_summary_witness:
  "ret (ecx_readstate demo_master) (\<lambda>(lowest, d). evolves demo_master d \<and> lowest = lowest_state (slaves d)
     \<and> state (slavelist d ! 0) = lowest \<and> ALstatuscode (slavelist d ! 0) = all_codes (slaves d))"
  by (rule readstate_summary [OF demo_master_ok]) (simp add: demo_master_clock)

section \<open>Writing and awaiting a state\<close>

lemma writestate_wp:
  assumes k: "evolves c0 c" and i: "unat i < EC_MAXSLAVE"
    and Q: "\<And>w p. evolves c0 (c\<lparr>port := p\<rparr>) \<Longrightarrow> Q (w, c\<lparr>port := p\<rparr>)"
  shows "ret (ecx_writestate i c) Q"
  unfolding ecx_writestate_def ret_step ret_if
  using Q by (auto intro!: slave_at_wp [OF k i] write_wps(1) [OF k] word_wps(1) [OF k])

lemma statecheck_read_wp:
  assumes k: "evolves c0 c" and i: "unat i < EC_MAXSLAVE"
  shows "ret (statecheck_read i a c) (\<lambda>(w, d). evolves c0 d)"
  unfolding statecheck_read_def ret_step ret_if
  using i by (auto intro!: read_wps [OF k] upd_slave_wp)

text \<open>
  One read of the AL status register of a slave, or of the register of all slaves at once for the
  master's entry; a read without an answer leaves zeros.
\<close>

definition status_read :: "u16 \<Rightarrow> u16 \<Rightarrow> ecx_contextt \<Rightarrow> (int \<times> bytes \<times> ecx_contextt) option" where
  "status_read i station c = (if i = 0 then read_BRD 0 0x0130 2 (replicate 2 0) EC_TIMEOUTRET c
     else read_FPRD station 0x0130 6 (replicate 6 0) EC_TIMEOUTRET c)"

definition was_read :: "ecx_contextt \<Rightarrow> u16 \<Rightarrow> u16 \<Rightarrow> u16 \<Rightarrow> ecx_contextt \<Rightarrow> bool" where
  "was_read c0 i station w d \<longleftrightarrow> (\<exists>c1 r data c2. evolves c0 c1 \<and> status_read i station c1 = Some (r, data, c2) \<and>
     nrecv (os (port d)) = nrecv (os (port c2)) \<and> (r \<le> 0 \<longrightarrow> (\<forall>b\<in>set data. b = 0)) \<and> w = le_word (take 2 data) \<and>
     (i \<noteq> 0 \<longrightarrow> ALstatuscode (slavelist d ! unat i) = le_word (take 2 (drop 4 data))))"

lemma read_prim_silent: "par (read_prim com a o' n data t p) (\<lambda>(w, d, q). w \<le> 0 \<longrightarrow> d = data)"
  by (auto simp: read_prim_def bind_eq_Some_conv split: if_splits intro!: parI)

lemma status_read_silent: "par (status_read i a c) (\<lambda>(r, data, d). r \<le> 0 \<longrightarrow> (\<forall>b\<in>set data. b = 0))"
  by (auto simp: status_read_def read_BRD_def read_FPRD_def prim_defs bind_eq_Some_conv intro!: parI
      dest!: parD [OF read_prim_silent])

lemma zero_bytes: "le_bytes 2 (0 :: u16) = replicate 2 0" "alstatus_bytes zero_alstatus = replicate 6 0"
  by (simp_all add: alstatus_bytes_def zero_alstatus_def le_bytes_def upt_rec numeral_eq_Suc)

lemma statecheck_read_reads:
  assumes "evolves c0 c" and "unat i < EC_MAXSLAVE"
  shows "par (statecheck_read i a c) (\<lambda>(w, d). evolves c0 d \<and> was_read c0 i a w d)"
proof -
  have ev: "par (statecheck_read i a c) (\<lambda>(w, d). evolves c0 d)"
    by (rule ret_imp_par [OF statecheck_read_wp [OF assms]])
  have len: "unat i < length (slavelist d)" if "evolves c0 d" for d
    using evolves_sizes(1) [OF that] assms(2) by simp
  have keep: "nrecv (os (port e)) = nrecv (os (port d)) \<and> length (slavelist e) = length (slavelist d) \<and>
      slavelist e ! unat i = f (slavelist d ! unat i)" if "upd_slave i f d = Some e" for f d e
    using that by (auto simp: upd_slave_def slave_at_def set_slave_def bind_eq_Some_conv aget_def aset_def split: if_splits)
  show ?thesis
  proof (rule parI, goal_cases)
    case (1 x)
    obtain w d where x: "x = (w, d)" by (cases x)
    have "evolves c0 d" using parD [OF ev 1] by (simp add: x)
    moreover have "was_read c0 i a w d"
    proof (cases "i = 0")
      case True
      then have "i < 1" by simp
      with 1 obtain r data where r: "read_BRD 0 ECT_REG_ALSTAT 2 (replicate 2 0) EC_TIMEOUTRET c = Some (r, data, d)"
        "w = le_word data"
        by (auto simp: statecheck_read_def zero_bytes x bind_eq_Some_conv)
      have l: "length data = 2" if "evolves c0 c"
      proof -
        have "ret (read_BRD 0 ECT_REG_ALSTAT 2 (replicate 2 0) EC_TIMEOUTRET c) (\<lambda>(w, d, c). length d = 2)"
          by (rule read_wps(1) [OF that]) simp_all
        then show ?thesis by (simp add: r)
      qed
      have "status_read i a c = Some (r, data, d)" using r by (simp add: status_read_def True)
      moreover from parD [OF status_read_silent this] have "r \<le> 0 \<longrightarrow> (\<forall>b\<in>set data. b = 0)" by simp
      moreover have "w = le_word (take 2 data)" using r(2) l [OF assms(1)] by simp
      ultimately show ?thesis using assms(1) True unfolding was_read_def by blast
    next
      case False
      then have "\<not> i < 1" by (metis word_less_1)
      with 1 obtain r data c2 where r: "read_FPRD a ECT_REG_ALSTAT 6 (replicate 6 0) EC_TIMEOUTRET c = Some (r, data, c2)"
        "upd_slave i (\<lambda>s. s\<lparr>ALstatuscode := alstatuscode (bytes_alstatus data)\<rparr>) c2 = Some d" "w = alstatus (bytes_alstatus data)"
        by (auto simp: statecheck_read_def zero_bytes x bind_eq_Some_conv Let_def)
      have "status_read i a c = Some (r, data, c2)" using r False by (simp add: status_read_def)
      moreover from parD [OF status_read_silent this] have "r \<le> 0 \<longrightarrow> (\<forall>b\<in>set data. b = 0)" by simp
      ultimately show ?thesis using keep [OF r(2)] r(3) assms(1) unfolding was_read_def bytes_alstatus_def
        by (intro exI [of _ c] exI [of _ r] exI [of _ data] exI [of _ c2]) simp
    qed
    ultimately show ?case by (simp add: x)
  qed
qed

lemma c_expired_keeps: "slavelist (snd (c_and_not_expired b t d)) = slavelist d"
  "nrecv (os (port (snd (c_and_not_expired b t d)))) = nrecv (os (port d))"
  "slavelist (c_usleep us d) = slavelist d" "nrecv (os (port (c_usleep us d))) = nrecv (os (port d))"
  by (simp_all add: c_and_not_expired_def c_usleep_def usleep_def osal_usleep_def env_expired case_prod_unfold Let_def)

lemma was_read_cong:
  "slavelist e = slavelist d \<Longrightarrow> nrecv (os (port e)) = nrecv (os (port d)) \<Longrightarrow> was_read c0 i a w e = was_read c0 i a w d"
  by (simp add: was_read_def)

lemma statecheck_reads:
  assumes k: "evolves c c" and sl: "uint i \<le> slavecount c" and i: "unat i < EC_MAXSLAVE"
  shows "par (ecx_statecheck i reqstate timeout c) (\<lambda>(w, d). \<exists>v. w = v AND 0x000f \<and>
    was_read c i (configadr (slavelist c ! unat i)) v d \<and> state (slavelist d ! unat i) = v)"
proof -
  let ?a = "configadr (slavelist c ! unat i)"
  have no: "\<not> slavecount c < uint i" using sl by simp
  have step: "evolves c (snd (c_and_not_expired b t d))" if "evolves c d" for b t d
  proof -
    have "case c_and_not_expired b t d of (b, e) \<Rightarrow> evolves c e"
      by (rule c_and_not_expired_wp [OF that env_ext_refl]) simp
    then show ?thesis by (simp add: case_prod_unfold)
  qed
  have poll: "par (c_poll t (\<lambda>rval. rval AND 0x000f \<noteq> reqstate) (\<lambda>(_, c). do {
             (rval, c) \<leftarrow> statecheck_read i ?a c;
             Some (rval, if rval AND 0x000f \<noteq> reqstate then c_usleep 1000 c else c) }) (0, d))
      (\<lambda>(w, e). evolves c e \<and> was_read c i ?a w e)" if "evolves c d" for t d
    unfolding c_poll_def
  proof (rule do_while_par [where I = "\<lambda>(x, d). evolves c d" and J = "\<lambda>(w, e). evolves c e \<and> was_read c i ?a w e"], goal_cases)
    case (1 s)
    obtain x e where s: "s = (x, e)" by (cases s)
    with 1 have "evolves c e" by simp
    from statecheck_read_reads [OF this i, of ?a] show ?case
      unfolding s prod.case par_simps ret_case_prod
      by (rule par_conseq) (auto intro: evolves_usleep simp: c_expired_keeps cong: was_read_cong
        simp: was_read_cong [of "c_usleep 1000 _"])
  next
    case (2 s)
    then show ?case using step
      by (cases s) (auto simp: case_prod_unfold Let_def was_read_cong [OF c_expired_keeps(1,2)])
  qed (use that in simp)
  show ?thesis
    unfolding ecx_statecheck_def if_not_P [OF no] Let_def
  proof (simp only: ret_case_prod, rule c_timer_start_wp [OF k], goal_cases)
    case (1 t p)
    have keep: "nrecv (os (port e)) = nrecv (os (port d)) \<and> slavelist e ! unat i = f (slavelist d ! unat i)"
      if "upd_slave i f d = Some e" for f d e
      using that by (auto simp: upd_slave_def slave_at_def set_slave_def bind_eq_Some_conv aget_def aset_def split: if_splits)
    show ?case
      unfolding par_simps
    proof (rule parI, goal_cases)
      case (1 s)
      then have s: "s = slavelist c ! unat i" by (simp add: slave_at_def aget_def split: if_splits)
      show ?case
        unfolding s ret_case_prod par_simps
        using poll [OF \<open>evolves c (c\<lparr>port := p\<rparr>)\<close>]
        by (rule par_conseq) (auto intro!: parI simp: was_read_def dest!: keep)
    qed
  qed
qed

text \<open> C28: Awaiting a state returns on every well-formed master. The state recorded in the slave's entry is
  the answer to the last thing read from the bus: the AL status register of that slave, addressed by its station
  address, or for entry 0 the same register of all slaves at once; a read without an answer counts as zero.
  The slave's status code comes from the same answer, the value returned is its low four bits, and when that is
  not the requested state, at least the timeout has passed on the clock. \<close>

theorem statecheck_awaits:
  assumes ok: "ctx_ok c" and sl: "uint i \<le> slavecount c"
    and clk: "\<forall>n. snd (clock_at (os (port c)) n) < 1000000000"
    and t: "0 \<le> timeout" "timeout < 2 ^ 31"
    and fits: "fst (clock_at (os (port c)) (nclock (os (port c)))) + nat timeout div 1000000 + 1 < 2 ^ 32"
  shows "ret (ecx_statecheck i reqstate timeout c) (\<lambda>(w, d). evolves c d
     \<and> (\<exists>c1 r data c2. evolves c c1 \<and> nrecv (os (port d)) = nrecv (os (port c2))
         \<and> (if i = 0 then read_BRD 0 0x0130 2 (replicate 2 0) EC_TIMEOUTRET c1
            else read_FPRD (configadr (slavelist c ! unat i)) 0x0130 6 (replicate 6 0) EC_TIMEOUTRET c1) = Some (r, data, c2)
         \<and> (r \<le> 0 \<longrightarrow> (\<forall>b\<in>set data. b = 0))
         \<and> state (slavelist d ! unat i) = le_word (take 2 data) \<and> w = le_word (take 2 data) AND 0x000f
         \<and> (i \<noteq> 0 \<longrightarrow> ALstatuscode (slavelist d ! unat i) = le_word (take 2 (drop 4 data))))
     \<and> (w \<noteq> reqstate \<longrightarrow> clock_us (os (port c)) (nclock (os (port c))) + nat timeout
          \<le> clock_us (os (port c)) (nclock (os (port d)) - 1)))"
proof -
  have k: "evolves c c" using ok by (rule evolves_refl)
  have i: "unat i < EC_MAXSLAVE"
    using sl evolves_sizes(7) [OF k] unfolding uint_nat by linarith
  have us: "uint32_of timeout = nat timeout" using t by simp
  have no: "\<not> slavecount c < uint i" using sl by simp
  have "ret (ecx_statecheck i reqstate timeout c) (\<lambda>(w, d). evolves c d
     \<and> (w \<noteq> reqstate \<longrightarrow> clock_us (os (port c)) (nclock (os (port c))) + nat timeout
          \<le> clock_us (os (port c)) (nclock (os (port d)) - 1)))"
    unfolding ecx_statecheck_def if_not_P [OF no] Let_def
  proof (simp only: ret_case_prod, rule c_timer_start_wp [OF k], goal_cases)
    case (1 t p)
    let ?late = "\<lambda>d. clock_us (os (port c)) (nclock (os (port c))) + nat timeout
          \<le> clock_us (os (port c)) (nclock (os (port d)) - 1)"
    have late: "?late d" if "timed_out t (os p) (os (port d))" for d
      using timed_out_elapsed [OF clk fits 1(1) [unfolded us] that] .
    show ?case
      unfolding ret_step
      apply (rule slave_at_wp [OF 1(3) i])
      apply (rule c_poll_wp [OF 1(3), where J = "\<lambda>_ _. True"])
      subgoal for s x d
        using i statecheck_read_wp [OF evolves_refl, OF evolves_ok, of c d i "configadr s"]
        by (auto elim!: ret_conseq intro: evolves_usleep)
      subgoal by simp
      subgoal for s y d
        using i evolves_sizes(1) [of c d] late
        by (auto intro!: upd_slave_wp)
      done
  qed
  from ret_par [OF this statecheck_reads [OF k sl i]] show ?thesis
    by (rule ret_conseq) (auto simp: was_read_def status_read_def)
qed

theorem statecheck_awaits_witness:
  "\<exists>w d c1 r data c2. ecx_statecheck 1 EC_STATE_SAFE_OP 2000 demo_master = Some (w, d)
     \<and> read_FPRD 0 0x0130 6 (replicate 6 0) EC_TIMEOUTRET c1 = Some (r, data, c2)
     \<and> state (slavelist d ! 1) = le_word (take 2 data) \<and> w = le_word (take 2 data) AND 0x000f
     \<and> (w \<noteq> EC_STATE_SAFE_OP \<longrightarrow> clock_us (os (port demo_master)) (nclock (os (port demo_master))) + nat 2000
          \<le> clock_us (os (port demo_master)) (nclock (os (port d)) - 1))"
proof -
  have a: "configadr (slavelist demo_master ! unat (1 :: u16)) = 0" by (simp add: demo_master_clock zero_slave_def)
  have "ret (ecx_statecheck 1 EC_STATE_SAFE_OP 2000 demo_master) (\<lambda>(w, d). evolves demo_master d
     \<and> (\<exists>c1 r data c2. evolves demo_master c1 \<and> nrecv (os (port d)) = nrecv (os (port c2))
         \<and> (if (1 :: u16) = 0 then read_BRD 0 0x0130 2 (replicate 2 0) EC_TIMEOUTRET c1
            else read_FPRD (configadr (slavelist demo_master ! unat (1 :: u16))) 0x0130 6 (replicate 6 0) EC_TIMEOUTRET c1)
             = Some (r, data, c2)
         \<and> (r \<le> 0 \<longrightarrow> (\<forall>b\<in>set data. b = 0))
         \<and> state (slavelist d ! unat (1 :: u16)) = le_word (take 2 data) \<and> w = le_word (take 2 data) AND 0x000f
         \<and> ((1 :: u16) \<noteq> 0 \<longrightarrow> ALstatuscode (slavelist d ! unat (1 :: u16)) = le_word (take 2 (drop 4 data))))
     \<and> (w \<noteq> EC_STATE_SAFE_OP \<longrightarrow> clock_us (os (port demo_master)) (nclock (os (port demo_master))) + nat 2000
          \<le> clock_us (os (port demo_master)) (nclock (os (port d)) - 1)))" (is "ret ?m ?P")
    by (rule statecheck_awaits [OF demo_master_ok]) (use demo_master_clock in simp_all)
  then obtain x where x: "?m = Some x" "?P x" unfolding ret_def by blast
  obtain w d where wd: "x = (w, d)" by (cases x)
  have "unat (1 :: u16) = 1" "(1 :: u16) \<noteq> 0" by simp_all
  then show ?thesis using x unfolding wd prod.case a by simp blast
qed

end
