(* ===== verification/Eeprom.thy ===== *)
theory Eeprom
  imports State_Props
begin

text \<open>
  Access to a slave's EEPROM (\<open>ethercatmain.c\<close>): who controls it, the busy wait, reading and writing
  words by auto-increment or configured address, and the byte cache in front of it.

  The auto-increment and the configured-address routines are the same code over different
  primitives; the shared definitions take the read and write primitive as arguments.
\<close>

abbreviation (input) EC_ECMD_NOP :: u16 where "EC_ECMD_NOP \<equiv> 0"
abbreviation (input) EC_ECMD_READ :: u16 where "EC_ECMD_READ \<equiv> 0x0100"
abbreviation (input) EC_ECMD_WRITE :: u16 where "EC_ECMD_WRITE \<equiv> 0x0201"
abbreviation (input) EC_ESTAT_R64 :: u16 where "EC_ESTAT_R64 \<equiv> 0x0040"
abbreviation (input) EC_ESTAT_BUSY :: u16 where "EC_ESTAT_BUSY \<equiv> 0x8000"
abbreviation (input) EC_ESTAT_EMASK :: u16 where "EC_ESTAT_EMASK \<equiv> 0x7800"
abbreviation (input) EC_ESTAT_NACK :: u16 where "EC_ESTAT_NACK \<equiv> 0x2000"

type_synonym reader = "u16 \<Rightarrow> u16 \<Rightarrow> u16 \<Rightarrow> bytes \<Rightarrow> int \<Rightarrow> ecx_contextt \<Rightarrow> (int \<times> bytes \<times> ecx_contextt) option"
type_synonym writer = "u16 \<Rightarrow> u16 \<Rightarrow> u16 \<Rightarrow> bytes \<Rightarrow> int \<Rightarrow> ecx_contextt \<Rightarrow> (int \<times> ecx_contextt) option"

section \<open>Retries\<close>

text \<open>The idiom \<open>do wkc = \<dots> while ((wkc <= 0) && (cnt++ < EC_DEFAULTRETRIES))\<close> around one primitive.\<close>

definition write_retry :: "writer \<Rightarrow> u16 \<Rightarrow> u16 \<Rightarrow> u16 \<Rightarrow> bytes \<Rightarrow> ecx_contextt \<Rightarrow> (int \<times> ecx_contextt) option" where
  "write_retry wr adr reg len data c = do {
     (wkc, _, c) \<leftarrow> retry EC_DEFAULTRETRIES
        (\<lambda>(u, c). do { (wkc, c) \<leftarrow> wr adr reg len data EC_TIMEOUTRET c; Some (wkc, u, c) }) ((), c);
     Some (wkc, c) }"

definition read_retry :: "reader \<Rightarrow> u16 \<Rightarrow> u16 \<Rightarrow> u16 \<Rightarrow> bytes \<Rightarrow> ecx_contextt \<Rightarrow> (int \<times> bytes \<times> ecx_contextt) option" where
  "read_retry rd adr reg len data c =
     retry EC_DEFAULTRETRIES (\<lambda>(data, c). rd adr reg len data EC_TIMEOUTRET c) (data, c)"

section \<open>Control of the EEPROM\<close>

definition ecx_eeprom2master :: "u16 \<Rightarrow> ecx_contextt \<Rightarrow> (int \<times> ecx_contextt) option" where
  "ecx_eeprom2master slave c = do {
     s \<leftarrow> slave_at slave c;
     if eep_pdi s \<noteq> 0
     then do {
       (_, c) \<leftarrow> write_retry write_FPWR (configadr s) ECT_REG_EEPCFG 1 [2] c;
       (wkc, c) \<leftarrow> write_retry write_FPWR (configadr s) ECT_REG_EEPCFG 1 [0] c;
       c \<leftarrow> upd_slave slave (\<lambda>s. s\<lparr>eep_pdi := 0\<rparr>) c;
       Some (wkc, c) }
     else Some (1, c) }"

definition ecx_eeprom2pdi :: "u16 \<Rightarrow> ecx_contextt \<Rightarrow> (int \<times> ecx_contextt) option" where
  "ecx_eeprom2pdi slave c = do {
     s \<leftarrow> slave_at slave c;
     if eep_pdi s = 0
     then do {
       (wkc, c) \<leftarrow> write_retry write_FPWR (configadr s) ECT_REG_EEPCFG 1 [1] c;
       c \<leftarrow> upd_slave slave (\<lambda>s. s\<lparr>eep_pdi := 1\<rparr>) c;
       Some (wkc, c) }
     else Some (1, c) }"

section \<open>Words\<close>

definition eeprom_wait :: "reader \<Rightarrow> u16 \<Rightarrow> int \<Rightarrow> ecx_contextt \<Rightarrow> (bool \<times> u16 \<times> ecx_contextt) option" where
  "eeprom_wait rd adr timeout c = (let (timer, c) = c_timer_start timeout c in do {
     ((_, _, estat), c) \<leftarrow> c_poll timer
        (\<lambda>(cnt, wkc, estat). wkc \<le> 0 \<or> 0 < estat AND EC_ESTAT_BUSY)
        (\<lambda>((cnt, _, _), c). do {
           let c = (if cnt \<noteq> 0 then c_usleep EC_LOCALDELAY c else c);
           (wkc, d, c) \<leftarrow> rd adr ECT_REG_EEPSTAT 2 (le_bytes 2 (0 :: u16)) EC_TIMEOUTRET c;
           Some ((cnt + 1, wkc, le_word d), c) })
        ((0 :: nat, 0, 0), c);
     Some (estat AND EC_ESTAT_BUSY = 0, estat, c) })"

definition ecx_eeprom_waitnotbusyAP where "ecx_eeprom_waitnotbusyAP = eeprom_wait read_APRD"
definition ecx_eeprom_waitnotbusyFP where "ecx_eeprom_waitnotbusyFP = eeprom_wait read_FPRD"

text \<open>\<open>if (estat & EC_ESTAT_EMASK)\<close> the error bits are cleared by a command without effect.\<close>

definition eeprom_clear :: "writer \<Rightarrow> u16 \<Rightarrow> u16 \<Rightarrow> ecx_contextt \<Rightarrow> ecx_contextt option" where
  "eeprom_clear wr adr estat c =
     (if estat AND EC_ESTAT_EMASK \<noteq> 0
      then do { (_, c) \<leftarrow> wr adr ECT_REG_EEPCTL 2 (le_bytes 2 EC_ECMD_NOP) EC_TIMEOUTRET3 c; Some c }
      else Some c)"

text \<open>The structure \<open>ec_eepromt\<close> of a command.\<close>

definition ec_eepromt :: "u16 \<Rightarrow> u16 \<Rightarrow> bytes" where
  "ec_eepromt comm addr = le_bytes 2 comm @ le_bytes 2 addr @ le_bytes 2 (0 :: u16)"

definition read_round ::
  "reader \<Rightarrow> writer \<Rightarrow> u16 \<Rightarrow> u16 \<Rightarrow> int \<Rightarrow> nat \<times> u32 \<times> u64 \<times> ecx_contextt \<Rightarrow>
     (nat \<times> u32 \<times> u64 \<times> ecx_contextt) option" where
  "read_round rd wr adr eeproma timeout = (\<lambda>(nackcnt, edat32, edat64, c). do {
     (wkc, c) \<leftarrow> write_retry wr adr ECT_REG_EEPCTL 6 (ec_eepromt EC_ECMD_READ eeproma) c;
     if wkc \<noteq> 0
     then do {
       (idle, estat, c) \<leftarrow> eeprom_wait rd adr timeout (c_usleep EC_LOCALDELAY c);
       if \<not> idle then Some (nackcnt, edat32, edat64, c)
       else if estat AND EC_ESTAT_NACK \<noteq> 0
       then Some (nackcnt + 1, edat32, edat64, c_usleep (EC_LOCALDELAY * 5) c)
       else if estat AND EC_ESTAT_R64 \<noteq> 0
       then do {
         (_, d, c) \<leftarrow> read_retry rd adr ECT_REG_EEPDAT 8 (le_bytes 8 edat64) c;
         Some (0, edat32, le_word d, c) }
       else do {
         (_, d, c) \<leftarrow> read_retry rd adr ECT_REG_EEPDAT 4 (le_bytes 4 edat32) c;
         Some (0, le_word d, ucast (le_word d :: u32), c) } }
     else Some (nackcnt, edat32, edat64, c) })"

definition nack_again :: "nat \<Rightarrow> bool" where
  "nack_again nackcnt \<longleftrightarrow> 0 < nackcnt \<and> nackcnt < 3"

definition eeprom_read :: "reader \<Rightarrow> writer \<Rightarrow> u16 \<Rightarrow> u16 \<Rightarrow> int \<Rightarrow> ecx_contextt \<Rightarrow> (u64 \<times> ecx_contextt) option" where
  "eeprom_read rd wr adr eeproma timeout c = do {
     (idle, estat, c) \<leftarrow> eeprom_wait rd adr timeout c;
     if idle
     then do {
       c \<leftarrow> eeprom_clear wr adr estat c;
       (_, _, edat64, c) \<leftarrow> do_while (read_round rd wr adr eeproma timeout)
          (\<lambda>s. Some (nack_again (fst s), s)) (0, 0, 0, c);
       Some (edat64, c) }
     else Some (0, c) }"

definition ecx_readeepromAP where "ecx_readeepromAP = eeprom_read read_APRD write_APWR"
definition ecx_readeepromFP where "ecx_readeepromFP = eeprom_read read_FPRD write_FPWR"

definition write_round ::
  "reader \<Rightarrow> writer \<Rightarrow> u16 \<Rightarrow> u16 \<Rightarrow> u16 \<Rightarrow> int \<Rightarrow> nat \<times> int \<times> ecx_contextt \<Rightarrow> (nat \<times> int \<times> ecx_contextt) option" where
  "write_round rd wr adr eeproma data timeout = (\<lambda>(nackcnt, rval, c). do {
     (_, c) \<leftarrow> write_retry wr adr ECT_REG_EEPDAT 2 (le_bytes 2 data) c;
     (wkc, c) \<leftarrow> write_retry wr adr ECT_REG_EEPCTL 6 (ec_eepromt EC_ECMD_WRITE eeproma) c;
     if wkc \<noteq> 0
     then do {
       (idle, estat, c) \<leftarrow> eeprom_wait rd adr timeout (c_usleep (EC_LOCALDELAY * 2) c);
       if \<not> idle then Some (nackcnt, rval, c)
       else if estat AND EC_ESTAT_NACK \<noteq> 0
       then Some (nackcnt + 1, rval, c_usleep (EC_LOCALDELAY * 5) c)
       else Some (0, 1, c) }
     else Some (nackcnt, rval, c) })"

definition eeprom_write ::
  "reader \<Rightarrow> writer \<Rightarrow> u16 \<Rightarrow> u16 \<Rightarrow> u16 \<Rightarrow> int \<Rightarrow> ecx_contextt \<Rightarrow> (int \<times> ecx_contextt) option" where
  "eeprom_write rd wr adr eeproma data timeout c = do {
     (idle, estat, c) \<leftarrow> eeprom_wait rd adr timeout c;
     if idle
     then do {
       c \<leftarrow> eeprom_clear wr adr estat c;
       (_, rval, c) \<leftarrow> do_while (write_round rd wr adr eeproma data timeout)
          (\<lambda>s. Some (nack_again (fst s), s)) (0, 0, c);
       Some (rval, c) }
     else Some (0, c) }"

definition ecx_writeeepromAP where "ecx_writeeepromAP = eeprom_write read_APRD write_APWR"
definition ecx_writeeepromFP where "ecx_writeeepromFP = eeprom_write read_FPRD write_FPWR"

section \<open>By slave number\<close>

definition ecx_readeeprom :: "u16 \<Rightarrow> u16 \<Rightarrow> int \<Rightarrow> ecx_contextt \<Rightarrow> (u32 \<times> ecx_contextt) option" where
  "ecx_readeeprom slave eeproma timeout c = do {
     (_, c) \<leftarrow> ecx_eeprom2master slave c;
     s \<leftarrow> slave_at slave c;
     (e, c) \<leftarrow> ecx_readeepromFP (configadr s) eeproma timeout c;
     Some (ucast e, c) }"

definition ecx_writeeeprom :: "u16 \<Rightarrow> u16 \<Rightarrow> u16 \<Rightarrow> int \<Rightarrow> ecx_contextt \<Rightarrow> (int \<times> ecx_contextt) option" where
  "ecx_writeeeprom slave eeproma data timeout c = do {
     (_, c) \<leftarrow> ecx_eeprom2master slave c;
     s \<leftarrow> slave_at slave c;
     ecx_writeeepromFP (configadr s) eeproma data timeout c }"

text \<open>The parallel read: the request, and later its answer.\<close>

definition ecx_readeeprom1 :: "u16 \<Rightarrow> u16 \<Rightarrow> ecx_contextt \<Rightarrow> ecx_contextt option" where
  "ecx_readeeprom1 slave eeproma c = do {
     (_, c) \<leftarrow> ecx_eeprom2master slave c;
     s \<leftarrow> slave_at slave c;
     (idle, estat, c) \<leftarrow> ecx_eeprom_waitnotbusyFP (configadr s) EC_TIMEOUTEEP c;
     if idle
     then do {
       c \<leftarrow> eeprom_clear write_FPWR (configadr s) estat c;
       (_, c) \<leftarrow> write_retry write_FPWR (configadr s) ECT_REG_EEPCTL 6 (ec_eepromt EC_ECMD_READ eeproma) c;
       Some c }
     else Some c }"

definition ecx_readeeprom2 :: "u16 \<Rightarrow> int \<Rightarrow> ecx_contextt \<Rightarrow> (u32 \<times> ecx_contextt) option" where
  "ecx_readeeprom2 slave timeout c = do {
     s \<leftarrow> slave_at slave c;
     (idle, _, c) \<leftarrow> ecx_eeprom_waitnotbusyFP (configadr s) timeout c;
     if idle
     then do {
       (_, d, c) \<leftarrow> read_retry read_FPRD (configadr s) ECT_REG_EEPDAT 4 (le_bytes 4 (0 :: u32)) c;
       Some (le_word d, c) }
     else Some (0, c) }"

text \<open>The dump into a caller's buffer \<open>buf\<close>, written through a pointer at \<open>off\<close>.\<close>

definition ecx_esidump :: "u16 \<Rightarrow> bytes \<Rightarrow> ecx_contextt \<Rightarrow> (bytes \<times> ecx_contextt) option" where
  "ecx_esidump slave buf c = do {
     s \<leftarrow> slave_at slave c;
     let eectl = eep_pdi s;
     (_, c) \<leftarrow> ecx_eeprom2master slave c;
     let incr = (if eep_8byte s \<noteq> 0 then 4 else 2 :: u16);
     (_, _, _, buf, c) \<leftarrow> do_while
        (\<lambda>(edat, off, address, buf, c). do {
           (edat, c) \<leftarrow> ecx_readeepromFP (configadr s) address EC_TIMEOUTEEP c;
           buf \<leftarrow> mem_write buf off (le_bytes 8 edat);
           Some (edat, off + 2 * unat incr, address + incr, buf, c) })
        (\<lambda>(edat, off, address, buf, c).
           Some (unat address \<le> EC_MAXEEPBUF div 2 \<and> (ucast edat :: u32) \<noteq> 0xffffffff,
                 edat, off, address, buf, c))
        (0, 0, 0x0040, buf, c);
     c \<leftarrow> (if eectl \<noteq> 0 then do { (_, c) \<leftarrow> ecx_eeprom2pdi slave c; Some c } else Some c);
     Some (buf, c) }"

section \<open>The byte cache\<close>

text \<open>Setting the bitmap for \<open>cnt\<close> bytes read.\<close>

definition mark_cached :: "nat \<Rightarrow> nat \<times> nat \<times> u32 list \<Rightarrow> (nat \<times> nat \<times> u32 list) option" where
  "mark_cached lp = (\<lambda>(mapw, mapb, m). do {
     w \<leftarrow> aget m mapw;
     m \<leftarrow> aset m mapw (w OR push_bit mapb 1);
     let mapb = mapb + 1;
     Some (if 31 < mapb then (mapw + 1, 0, m) else (mapw, mapb, m)) })"

definition sii_fill :: "u16 \<Rightarrow> u16 \<Rightarrow> ecx_contextt \<Rightarrow> ecx_contextt option" where
  "sii_fill slave address c = do {
     s \<leftarrow> slave_at slave c;
     (_, c) \<leftarrow> ecx_eeprom2master slave c;
     let eadr = unat address div 2;
     (edat64, c) \<leftarrow> ecx_readeepromFP (configadr s) (of_nat eadr) EC_TIMEOUTEEP c;
     s \<leftarrow> slave_at slave c;
     let cnt = (if eep_8byte s \<noteq> 0 then 8 else 4);
     e \<leftarrow> mem_write (esibuf c) (eadr * 2) (le_bytes cnt edat64);
     let mapw = eadr div 16;
     (_, _, m) \<leftarrow> for_each mark_cached [0..<cnt] (mapw, eadr * 2 - mapw * 32, esimap c);
     Some (c\<lparr>esibuf := e, esimap := m\<rparr>) }"

definition ecx_siigetbyte :: "u16 \<Rightarrow> u16 \<Rightarrow> ecx_contextt \<Rightarrow> (byte \<times> ecx_contextt) option" where
  "ecx_siigetbyte slave address c = do {
     let c = (if slave \<noteq> esislave c then c\<lparr>esimap := replicate EC_MAXEEPBITMAP 0, esislave := slave\<rparr> else c);
     if unat address < EC_MAXEEPBUF
     then do {
       let mapw = unat address div 32;
       let mapb = unat address - mapw * 32;
       w \<leftarrow> aget (esimap c) mapw;
       c \<leftarrow> (if w AND push_bit mapb 1 \<noteq> 0 then Some c else sii_fill slave address c);
       b \<leftarrow> aget (esibuf c) (unat address);
       Some (b, c) }
     else Some (0xff, c) }"

text \<open>Two bytes, low byte first.\<close>

definition sii_word :: "u16 \<Rightarrow> u16 \<Rightarrow> ecx_contextt \<Rightarrow> (u16 \<times> ecx_contextt) option" where
  "sii_word slave a c = do {
     (lo, c) \<leftarrow> ecx_siigetbyte slave a c;
     (hi, c) \<leftarrow> ecx_siigetbyte slave (a + 1) c;
     Some (ucast lo + push_bit 8 (ucast hi), c) }"

text \<open>\<open>if (eectl) ecx_eeprom2pdi(context, slave)\<close>\<close>

definition restore_pdi :: "byte \<Rightarrow> u16 \<Rightarrow> ecx_contextt \<Rightarrow> ecx_contextt option" where
  "restore_pdi eectl slave c =
     (if eectl \<noteq> 0 then do { (_, c) \<leftarrow> ecx_eeprom2pdi slave c; Some c } else Some c)"

end
