(* ===== verification/Sii.thy ===== *)
theory Sii
  imports Eeprom
begin

text \<open>
  The slave information interface (\<open>ecx_sii*\<close> in \<open>ethercatmain.c\<close>): finding a section of the EEPROM
  and reading its strings, FMMUs, sync managers and PDOs.

  The signed 16-bit address of \<open>ecx_siifind\<close> is a word: its sign is never looked at.
\<close>

abbreviation (input) ECT_SII_START :: u16 where "ECT_SII_START \<equiv> 0x0040"
abbreviation (input) ECT_SII_STRING :: u16 where "ECT_SII_STRING \<equiv> 10"
abbreviation (input) ECT_SII_GENERAL :: u16 where "ECT_SII_GENERAL \<equiv> 30"
abbreviation (input) ECT_SII_FMMU :: u16 where "ECT_SII_FMMU \<equiv> 40"
abbreviation (input) ECT_SII_SM :: u16 where "ECT_SII_SM \<equiv> 41"
abbreviation (input) ECT_SII_PDO :: u16 where "ECT_SII_PDO \<equiv> 50"

section \<open>Sections\<close>

definition siifind_step :: "u16 \<Rightarrow> u16 \<times> u16 \<times> ecx_contextt \<Rightarrow> (u16 \<times> u16 \<times> ecx_contextt) option" where
  "siifind_step slave = (\<lambda>(a, p, c). do {
     (p, c) \<leftarrow> sii_word slave a c;
     let a = a + 2 + p * 2;
     (p, c) \<leftarrow> sii_word slave a c;
     Some (a + 2, p, c) })"

definition ecx_siifind :: "u16 \<Rightarrow> u16 \<Rightarrow> ecx_contextt \<Rightarrow> (u16 \<times> ecx_contextt) option" where
  "ecx_siifind slave cat c = do {
     s \<leftarrow> slave_at slave c;
     let eectl = eep_pdi s;
     let a = ECT_SII_START * 2;
     (p, c) \<leftarrow> sii_word slave a c;
     (a, p, c) \<leftarrow> while_do (\<lambda>(a, p, c). p \<noteq> cat \<and> p \<noteq> 0xffff) (siifind_step slave) (a + 2, p, c);
     let a = (if p \<noteq> cat then 0 else a);
     c \<leftarrow> restore_pdi eectl slave c;
     Some (a, c) }"

section \<open>Strings\<close>

text \<open>Copying a string of \<open>l\<close> characters: the first \<open>EC_MAXNAME\<close> are stored, the others skipped.\<close>

definition siistring_char :: "u16 \<Rightarrow> nat \<Rightarrow> u16 \<times> nat \<times> bytes \<times> ecx_contextt \<Rightarrow>
    (u16 \<times> nat \<times> bytes \<times> ecx_contextt) option" where
  "siistring_char slave j = (\<lambda>(ba, ptr, str, c).
     if j \<le> EC_MAXNAME
     then do {
       (b, c) \<leftarrow> ecx_siigetbyte slave ba c;
       str \<leftarrow> aset str ptr b;
       Some (ba + 1, ptr + 1, str, c) }
     else Some (ba + 1, ptr, str, c))"

definition siistring_walk :: "u16 \<Rightarrow> nat \<Rightarrow> nat \<Rightarrow> u16 \<times> nat \<times> bytes \<times> ecx_contextt \<Rightarrow>
    (u16 \<times> nat \<times> bytes \<times> ecx_contextt) option" where
  "siistring_walk slave Sn i = (\<lambda>(ba, ptr, str, c). do {
     (l, c) \<leftarrow> ecx_siigetbyte slave ba c;
     let ba = ba + 1;
     if i < Sn then Some (ba + ucast l, ptr, str, c)
     else for_each (siistring_char slave) [1..<Suc (unat l)] (ba, 0, str, c) })"

definition ecx_siistring :: "bytes \<Rightarrow> u16 \<Rightarrow> u16 \<Rightarrow> ecx_contextt \<Rightarrow> (bytes \<times> ecx_contextt) option" where
  "ecx_siistring str slave Sn c = do {
     s \<leftarrow> slave_at slave c;
     let eectl = eep_pdi s;
     (a, c) \<leftarrow> ecx_siifind slave ECT_SII_STRING c;
     (str, c) \<leftarrow>
       (if 0 < a
        then do {
          (n, c) \<leftarrow> ecx_siigetbyte slave (a + 2) c;
          if Sn \<le> ucast n
          then do {
            (_, ptr, str, c) \<leftarrow> for_each (siistring_walk slave (unat Sn)) [1..<Suc (unat Sn)] (a + 3, 0, str, c);
            str \<leftarrow> aset str ptr 0;
            Some (str, c) }
          else do { str \<leftarrow> aset str 0 0; Some (str, c) } }
        else Some (str, c));
     c \<leftarrow> restore_pdi eectl slave c;
     Some (str, c) }"

section \<open>FMMUs and sync managers\<close>

text \<open>\<open>nFMMU\<close> is a byte: the high byte of the section length is lost in it.\<close>

definition ecx_siiFMMU :: "u16 \<Rightarrow> ec_eepromFMMUt \<Rightarrow> ecx_contextt \<Rightarrow> (u16 \<times> ec_eepromFMMUt \<times> ecx_contextt) option" where
  "ecx_siiFMMU slave F c = do {
     s \<leftarrow> slave_at slave c;
     let eectl = eep_pdi s;
     (st, c) \<leftarrow> ecx_siifind slave ECT_SII_FMMU c;
     let F = F\<lparr>nFMMU := 0, FMMU0 := 0, FMMU1 := 0, FMMU2 := 0, FMMU3 := 0, f_Startpos := st\<rparr>;
     (F, c) \<leftarrow>
       (if 0 < st
        then do {
          (w, c) \<leftarrow> sii_word slave st c;
          let n = ucast w * 2;
          (f0, c) \<leftarrow> ecx_siigetbyte slave (st + 2) c;
          (f1, c) \<leftarrow> ecx_siigetbyte slave (st + 3) c;
          let F = F\<lparr>nFMMU := n, FMMU0 := f0, FMMU1 := f1\<rparr>;
          if 2 < n
          then do {
            (f2, c) \<leftarrow> ecx_siigetbyte slave (st + 4) c;
            (f3, c) \<leftarrow> ecx_siigetbyte slave (st + 5) c;
            Some (F\<lparr>FMMU2 := f2, FMMU3 := f3\<rparr>, c) }
          else Some (F, c) }
        else Some (F, c));
     c \<leftarrow> restore_pdi eectl slave c;
     Some (ucast (nFMMU F), F, c) }"

text \<open>The eight bytes of one sync manager at \<open>a\<close>.\<close>

definition sii_sm :: "u16 \<Rightarrow> u16 \<Rightarrow> ec_eepromSMt \<times> ecx_contextt \<Rightarrow> (ec_eepromSMt \<times> ecx_contextt) option" where
  "sii_sm slave a = (\<lambda>(S, c). do {
     (st, c) \<leftarrow> sii_word slave a c;
     (ln, c) \<leftarrow> sii_word slave (a + 2) c;
     (cr, c) \<leftarrow> ecx_siigetbyte slave (a + 4) c;
     (sr, c) \<leftarrow> ecx_siigetbyte slave (a + 5) c;
     (ac, c) \<leftarrow> ecx_siigetbyte slave (a + 6) c;
     (pd, c) \<leftarrow> ecx_siigetbyte slave (a + 7) c;
     Some (S\<lparr>PhStart := st, Plength := ln, Creg := cr, Sreg := sr, Activate := ac, PDIctrl := pd\<rparr>, c) })"

definition ecx_siiSM :: "u16 \<Rightarrow> ec_eepromSMt \<Rightarrow> ecx_contextt \<Rightarrow> (u16 \<times> ec_eepromSMt \<times> ecx_contextt) option" where
  "ecx_siiSM slave S c = do {
     s \<leftarrow> slave_at slave c;
     let eectl = eep_pdi s;
     (st, c) \<leftarrow> ecx_siifind slave ECT_SII_SM c;
     let S = S\<lparr>nSM := 0, s_Startpos := st\<rparr>;
     (S, c) \<leftarrow>
       (if 0 < st
        then do {
          (w, c) \<leftarrow> sii_word slave st c;
          sii_sm slave (st + 2) (S\<lparr>nSM := ucast (w div 4)\<rparr>, c) }
        else Some (S, c));
     c \<leftarrow> restore_pdi eectl slave c;
     Some (ucast (nSM S), S, c) }"

definition ecx_siiSMnext ::
  "u16 \<Rightarrow> ec_eepromSMt \<Rightarrow> u16 \<Rightarrow> ecx_contextt \<Rightarrow> (u16 \<times> ec_eepromSMt \<times> ecx_contextt) option" where
  "ecx_siiSMnext slave S n c = do {
     s \<leftarrow> slave_at slave c;
     let eectl = eep_pdi s;
     (retVal, S, c) \<leftarrow>
       (if n < ucast (nSM S)
        then do { (S, c) \<leftarrow> sii_sm slave (s_Startpos S + 2 + n * 8) (S, c); Some (1, S, c) }
        else Some (0, S, c));
     c \<leftarrow> restore_pdi eectl slave c;
     Some (retVal, S, c) }"

section \<open>PDOs\<close>

text \<open>The entries of one PDO: their bit sizes are summed up in \<open>BitSize[nPDO]\<close>.\<close>

definition siiPDO_entry ::
  "u16 \<Rightarrow> nat \<Rightarrow> u16 \<times> u16 \<times> ec_eepromPDOt \<times> ecx_contextt \<Rightarrow> (u16 \<times> u16 \<times> ec_eepromPDOt \<times> ecx_contextt) option" where
  "siiPDO_entry slave er = (\<lambda>(a, cc, P, c). do {
     (b, c) \<leftarrow> ecx_siigetbyte slave (a + 5) c;
     old \<leftarrow> aget (BitSize P) (unat (nPDO P));
     bs \<leftarrow> aset (BitSize P) (unat (nPDO P)) (old + ucast b);
     Some (a + 8, cc + 4, P\<lparr>BitSize := bs\<rparr>, c) })"

text \<open>The header of a PDO: index, number of entries and sync manager.\<close>

definition siiPDO_header ::
  "u16 \<Rightarrow> u16 \<Rightarrow> ec_eepromPDOt \<times> ecx_contextt \<Rightarrow> (byte \<times> byte \<times> ec_eepromPDOt \<times> ecx_contextt) option" where
  "siiPDO_header slave a = (\<lambda>(P, c). do {
     let n = nPDO P + 1;
     (w, c) \<leftarrow> sii_word slave a c;
     ix \<leftarrow> aset (p_Index P) (unat n) w;
     bs \<leftarrow> aset (BitSize P) (unat n) 0;
     (e, c) \<leftarrow> ecx_siigetbyte slave (a + 2) c;
     (sm, c) \<leftarrow> ecx_siigetbyte slave (a + 3) c;
     sy \<leftarrow> aset (SyncM P) (unat n) (ucast sm);
     Some (e, sm, P\<lparr>nPDO := n, p_Index := ix, BitSize := bs, SyncM := sy\<rparr>, c) })"

definition siiPDO_round ::
  "u16 \<Rightarrow> u16 \<times> u16 \<times> u16 \<times> ec_eepromPDOt \<times> ecx_contextt \<Rightarrow>
     (u16 \<times> u16 \<times> u16 \<times> ec_eepromPDOt \<times> ecx_contextt) option" where
  "siiPDO_round slave = (\<lambda>(a, cc, Size, P, c). do {
     (e, sm, P, c) \<leftarrow> siiPDO_header slave a (P, c);
     let a = a + 8;
     let cc = cc + 3;
     (a, cc, Size, P, c) \<leftarrow>
       (if unat sm < EC_MAXSM
        then do {
          (a, cc, P, c) \<leftarrow> for_each (siiPDO_entry slave) [1..<Suc (unat e)] (a, cc, P, c);
          bits \<leftarrow> aget (BitSize P) (unat (nPDO P));
          old \<leftarrow> aget (SMbitsize P) (unat sm);
          sb \<leftarrow> aset (SMbitsize P) (unat sm) (old + bits);
          Some (a, cc + 1, Size + bits, P\<lparr>SMbitsize := sb\<rparr>, c) }
        else Some (a + 8 * ucast e, cc + 4 * ucast e + 1, Size, P, c));
     Some (a, if EC_MAXEEPDO - 1 \<le> unat (nPDO P) then p_Length P else cc, Size, P, c) })"

definition ecx_siiPDO ::
  "u16 \<Rightarrow> ec_eepromPDOt \<Rightarrow> byte \<Rightarrow> ecx_contextt \<Rightarrow> (u32 \<times> ec_eepromPDOt \<times> ecx_contextt) option" where
  "ecx_siiPDO slave P t c = do {
     s \<leftarrow> slave_at slave c;
     let eectl = eep_pdi s;
     ix \<leftarrow> aset (p_Index P) 1 0;
     let P = P\<lparr>nPDO := 0, p_Length := 0, p_Index := ix, SMbitsize := replicate EC_MAXSM 0\<rparr>;
     let t = (if 1 < t then 1 else t);
     (st, c) \<leftarrow> ecx_siifind slave (ECT_SII_PDO + ucast t) c;
     let P = P\<lparr>p_Startpos := st\<rparr>;
     (Size, P, c) \<leftarrow>
       (if 0 < st
        then do {
          (w, c) \<leftarrow> sii_word slave st c;
          let P = P\<lparr>p_Length := w\<rparr>;
          (_, _, Size, P, c) \<leftarrow> do_while (siiPDO_round slave)
             (\<lambda>(a, cc, Size, P, c). Some (cc < p_Length P, a, cc, Size, P, c)) (st + 2, 1, 0, P, c);
          Some (Size, P, c) }
        else Some (0, P, c));
     c \<leftarrow> restore_pdi eectl slave c;
     Some (ucast Size, P, c) }"

end
