(* ===== verification/Eeprom_Props.thy ===== *)
theory Eeprom_Props
  imports Sii
begin

text \<open>
  Properties of the EEPROM access: every round of a word access is safe, the byte cache answers a
  repeated read without the bus, and the walk over the sections of the SII.
\<close>

section \<open>Rounds are safe\<close>

lemma retry_wp:
  assumes body: "\<And>x d. evolves c0 d \<Longrightarrow> I x \<Longrightarrow> ret (body (x, d)) (\<lambda>(w, y, e). evolves c0 e \<and> I y)"
    and k: "evolves c0 c" and x: "I x"
  shows "ret (retry n body (x, c)) (\<lambda>(w, y, e). evolves c0 e \<and> I y)"
  using k x
proof (induction n arbitrary: x c)
  case 0
  then show ?case using body by simp
next
  case (Suc n)
  show ?case
    using body [OF Suc.prems] Suc.IH by (auto elim!: ret_conseq)
qed

text \<open>The primitives an EEPROM routine is instantiated with.\<close>

definition good_reader :: "reader \<Rightarrow> bool" where
  "good_reader rd \<longleftrightarrow> rd = read_APRD \<or> rd = read_FPRD"

definition good_writer :: "writer \<Rightarrow> bool" where
  "good_writer wr \<longleftrightarrow> wr = write_APWR \<or> wr = write_FPWR"

lemma reader_wp:
  assumes "good_reader rd" and k: "evolves c0 c" and n: "unat n \<le> 1490" "unat n \<le> length data"
    and Q: "\<And>w d p. evolves c0 (c\<lparr>port := p\<rparr>) \<Longrightarrow> length d = length data \<Longrightarrow> Q (w, d, c\<lparr>port := p\<rparr>)"
  shows "ret (rd adr reg n data timeout c) Q"
  using assms(1) read_wps(2,3) [OF k n, of Q] Q by (auto simp: good_reader_def)

lemma writer_wp:
  assumes "good_writer wr" and k: "evolves c0 c" and n: "unat n \<le> 1490" "unat n \<le> length data"
    and Q: "\<And>w p. evolves c0 (c\<lparr>port := p\<rparr>) \<Longrightarrow> Q (w, c\<lparr>port := p\<rparr>)"
  shows "ret (wr adr reg n data timeout c) Q"
  using assms(1) write_wps(2,3) [OF k n, of Q] Q by (auto simp: good_writer_def)

lemma write_retry_wp:
  assumes wr: "good_writer wr" and k: "evolves c0 c" and n: "unat n \<le> 1490" "unat n \<le> length data"
  shows "ret (write_retry wr adr reg n data c) (\<lambda>(w, d). evolves c0 d)"
proof -
  have "ret (retry EC_DEFAULTRETRIES
        (\<lambda>(u, c). do { (wkc, c) \<leftarrow> wr adr reg n data EC_TIMEOUTRET c; Some (wkc, u, c) }) ((), c))
      (\<lambda>(w, y, e). evolves c0 e \<and> True)"
    by (rule retry_wp [OF _ k]) (auto intro!: writer_wp [OF wr _ n])
  then show ?thesis unfolding write_retry_def ret_step by (rule ret_conseq) auto
qed

lemma read_retry_wp:
  assumes rd: "good_reader rd" and k: "evolves c0 c" and n: "unat n \<le> 1490" "unat n \<le> length data"
  shows "ret (read_retry rd adr reg n data c) (\<lambda>(w, d, e). evolves c0 e \<and> length d = length data)"
  unfolding read_retry_def
  by (rule retry_wp [OF _ k]) (use n in \<open>auto intro!: reader_wp [OF rd]\<close>)

lemma eeprom_wait_wp:
  assumes rd: "good_reader rd" and k: "evolves c0 c"
  shows "ret (eeprom_wait rd adr timeout c) (\<lambda>(idle, estat, d). evolves c0 d)"
  unfolding eeprom_wait_def Let_def
proof (simp only: ret_case_prod, rule c_timer_start_wp [OF k], goal_cases)
  case (1 t p)
  show ?case
    unfolding ret_step
    apply (rule c_poll_wp [OF 1(3), where J = "\<lambda>_ _. True"])
    subgoal for x d
      by (auto simp: case_prod_unfold ret_if dest: evolves_ok
          intro!: reader_wp [OF rd, where ?c0.0 = d] evolves_usleep)
    by auto
qed

lemma eeprom_clear_wp:
  assumes "good_writer wr" and "evolves c0 c"
  shows "ret (eeprom_clear wr adr estat c) (evolves c0)"
  using assms(2) by (auto simp: eeprom_clear_def ret_if case_prod_unfold intro!: writer_wp [OF assms])

text \<open> One round of an EEPROM read, request, busy wait and data transfer, by auto-increment or
  configured address, returns on every well-formed master whatever the bus answers; it counts at
  most one more NACK, and answers a completed transfer with a count of zero. \<close>

theorem read_round_safe:
  assumes rw: "(rd, wr) \<in> {(read_APRD, write_APWR), (read_FPRD, write_FPWR)}" and k: "evolves c0 c"
  shows "ret (read_round rd wr adr eeproma timeout (n, e32, e64, c))
    (\<lambda>(m, f32, f64, d). evolves c0 d \<and> (m = 0 \<or> m = n \<or> m = n + 1))"
proof -
  have rd: "good_reader rd" and wr: "good_writer wr"
    using rw by (auto simp: good_reader_def good_writer_def)
  show ?thesis
    unfolding read_round_def prod.case ec_eepromt_def
    apply (simp only: ret_step ret_if)
    apply (rule write_retry_wp [THEN ret_conseq, OF wr k], simp, simp)
    apply (clarsimp simp: ret_if)
    apply (rule eeprom_wait_wp [THEN ret_conseq, OF rd evolves_usleep], assumption)
    apply (auto simp: case_prod_unfold ret_if intro!: evolves_usleep read_retry_wp [THEN ret_conseq, OF rd])
    done
qed

section \<open>Word access leaves everything but the port alone\<close>

definition only_port :: "ecx_contextt \<Rightarrow> ecx_contextt \<Rightarrow> bool" where
  "only_port c d \<longleftrightarrow> (\<exists>p. d = c\<lparr>port := p\<rparr>)"

lemma only_port_refl [simp, intro]: "only_port c c"
proof -
  have "c = c\<lparr>port := port c\<rparr>" by simp
  then show ?thesis unfolding only_port_def by (rule exI)
qed

lemma only_port_upd [simp, intro]: "only_port c (c\<lparr>port := p\<rparr>)"
  by (auto simp: only_port_def)

lemma only_port_trans: "only_port c d \<Longrightarrow> only_port d e \<Longrightarrow> only_port c e"
  by (auto simp: only_port_def)

lemma only_port_step [intro]: "only_port c0 c \<Longrightarrow> only_port c0 (c\<lparr>port := p\<rparr>)"
  by (auto simp: only_port_def)

lemma only_port_usleep [intro]: "only_port c0 c \<Longrightarrow> only_port c0 (c_usleep us c)"
  unfolding c_usleep_def by (rule only_port_step)

text \<open>The rules keep a fixed starting context \<open>c0\<close>, so that they chain.\<close>

lemma reader_only:
  "good_reader rd \<Longrightarrow> only_port c0 c \<Longrightarrow> par (rd adr reg n data t c) (\<lambda>(w, d, e). only_port c0 e)"
  by (auto simp: good_reader_def read_APRD_def read_FPRD_def par_def bind_eq_Some_conv)

lemma writer_only:
  "good_writer wr \<Longrightarrow> only_port c0 c \<Longrightarrow> par (wr adr reg n data t c) (\<lambda>(w, e). only_port c0 e)"
  by (auto simp: good_writer_def write_APWR_def write_FPWR_def on_port_def par_def bind_eq_Some_conv)

lemma retry_only:
  assumes body: "\<And>x d. only_port c0 d \<Longrightarrow> par (body (x, d)) (\<lambda>(w, y, e). only_port c0 e)"
    and "only_port c0 c"
  shows "par (retry n body (x, c)) (\<lambda>(w, y, e). only_port c0 e)"
  using assms(2)
proof (induction n arbitrary: x c)
  case 0
  then show ?case using body by simp
next
  case (Suc n)
  show ?case
    unfolding retry.simps par_simps
    by (rule body [OF Suc.prems, THEN par_conseq]) (use Suc.IH in auto)
qed

lemma c_poll_only:
  assumes body: "\<And>x d. only_port c0 d \<Longrightarrow> par (body (x, d)) (\<lambda>(y, e). only_port c0 e)"
    and c: "only_port c0 c"
  shows "par (c_poll t cond body (x, c)) (\<lambda>(y, e). only_port c0 e)"
  unfolding c_poll_def
proof (rule do_while_par [where I = "\<lambda>(y, e). only_port c0 e"])
  fix s :: "'a \<times> ecx_contextt"
  assume "case s of (y, e) \<Rightarrow> only_port c0 e"
  then show "par (body s) (\<lambda>(y, e). only_port c0 e)"
    using body [of "snd s" "fst s"] by (cases s) auto
next
  fix s :: "'a \<times> ecx_contextt"
  assume "case s of (y, e) \<Rightarrow> only_port c0 e"
  moreover have "only_port c0 (snd (c_and_not_expired b t e))" if "only_port c0 e" for b e
    using that by (auto simp: c_and_not_expired_def split: prod.splits)
  ultimately show "par (case s of (x, c) \<Rightarrow> let (b, c) = c_and_not_expired (cond x) t c in Some (b, x, c))
      (\<lambda>(b, s'). if b then case s' of (y, e) \<Rightarrow> only_port c0 e else case s' of (y, e) \<Rightarrow> only_port c0 e)"
    by (auto simp: case_prod_unfold Let_def)
qed (use c in simp)

lemma eeprom_wait_only:
  assumes rd: "good_reader rd" and c: "only_port c0 c"
  shows "par (eeprom_wait rd adr timeout c) (\<lambda>(idle, estat, d). only_port c0 d)"
proof -
  have start: "only_port c0 (snd (c_timer_start timeout c))"
    using c by (auto simp: c_timer_start_def split: prod.splits)
  have body: "par (rd adr ECT_REG_EEPSTAT 2 (le_bytes 2 (0 :: u16)) EC_TIMEOUTRET
        (if fst x \<noteq> 0 then c_usleep EC_LOCALDELAY d else d)) (\<lambda>p. only_port c0 (snd (snd p)))"
    if "only_port c0 d" for x :: "nat \<times> int \<times> u16" and d
    by (rule par_conseq [OF reader_only [OF rd, of c0]]) (use that in auto)
  show ?thesis
    unfolding eeprom_wait_def case_prod_unfold Let_def par_simps
    by (rule c_poll_only [THEN par_conseq, OF _ start])
      (use body in \<open>auto simp: case_prod_unfold Let_def\<close>)
qed

lemma write_retry_only:
  assumes wr: "good_writer wr" and c: "only_port c0 c"
  shows "par (write_retry wr adr reg n data c) (\<lambda>(w, d). only_port c0 d)"
  unfolding write_retry_def case_prod_unfold par_simps
  by (rule retry_only [THEN par_conseq, OF _ c]) (use writer_only [OF wr] in \<open>auto simp: case_prod_unfold\<close>)

lemma read_retry_only:
  assumes rd: "good_reader rd" and c: "only_port c0 c"
  shows "par (read_retry rd adr reg n data c) (\<lambda>(w, d, e). only_port c0 e)"
  unfolding read_retry_def by (rule retry_only [OF _ c]) (use reader_only [OF rd] in auto)

lemma eeprom_clear_only:
  "good_writer wr \<Longrightarrow> only_port c0 c \<Longrightarrow> par (eeprom_clear wr adr estat c) (only_port c0)"
  using writer_only [of wr] by (auto simp: eeprom_clear_def case_prod_unfold elim!: par_conseq)

lemma read_round_only:
  assumes rd: "good_reader rd" and wr: "good_writer wr" and c: "only_port c0 c"
  shows "par (read_round rd wr adr eeproma timeout (n, e32, e64, c)) (\<lambda>(m, f32, f64, d). only_port c0 d)"
  unfolding read_round_def prod.case
  apply (simp only: par_simps ret_case_prod ret_if)
  apply (rule write_retry_only [THEN par_conseq, OF wr c])
  apply (clarsimp simp: ret_if)
  apply (rule eeprom_wait_only [THEN par_conseq, OF rd only_port_usleep], assumption)
  apply (clarsimp simp: ret_if)
  apply (auto intro!: read_retry_only [THEN par_conseq, OF rd])
  done

lemma eeprom_read_only:
  assumes rd: "good_reader rd" and wr: "good_writer wr" and c: "only_port c0 c"
  shows "par (eeprom_read rd wr adr eeproma timeout c) (\<lambda>(e, d). only_port c0 d)"
proof -
  have loop: "par (do_while (read_round rd wr adr eeproma timeout) (\<lambda>s. Some (nack_again (fst s), s)) (0, 0, 0, d))
     (\<lambda>(_, _, _, e). only_port c0 e)" if "only_port c0 d" for d
    by (rule do_while_par [where I = "\<lambda>(_, _, _, e). only_port c0 e" and J = "\<lambda>(_, _, _, e). only_port c0 e"])
      (use that in \<open>auto intro!: read_round_only [THEN par_conseq, OF rd wr]\<close>)
  show ?thesis
    unfolding eeprom_read_def
    apply (simp only: par_simps ret_case_prod ret_if)
    apply (rule eeprom_wait_only [THEN par_conseq, OF rd c])
    apply (clarsimp simp: ret_if)
    apply (rule eeprom_clear_only [THEN par_conseq, OF wr], assumption)
    apply (rule loop [THEN par_conseq], assumption)
    apply auto
    done
qed

lemma readeepromFP_only: "par (ecx_readeepromFP adr eeproma timeout c) (\<lambda>(e, d). only_port c d)"
  unfolding ecx_readeepromFP_def
  by (rule eeprom_read_only) (simp_all add: good_reader_def good_writer_def)

text \<open>Taking control of the EEPROM changes no more than who has it.\<close>

definition same_cache :: "ecx_contextt \<Rightarrow> ecx_contextt \<Rightarrow> bool" where
  "same_cache c d \<longleftrightarrow> esibuf d = esibuf c \<and> esimap d = esimap c \<and> esislave d = esislave c
     \<and> map eep_8byte (slavelist d) = map eep_8byte (slavelist c)"

lemma same_cache_trans: "same_cache c d \<Longrightarrow> same_cache d e \<Longrightarrow> same_cache c e"
  by (simp add: same_cache_def)

lemma only_same: "only_port c d \<Longrightarrow> same_cache c d"
  by (auto simp: only_port_def same_cache_def)

lemma upd_pdi_same: "par (upd_slave i (\<lambda>s. s\<lparr>eep_pdi := b\<rparr>) c) (same_cache c)"
proof -
  have "map eep_8byte (ss[j := (ss ! j)\<lparr>eep_pdi := b\<rparr>]) = map eep_8byte ss" if "j < length ss" for ss j
    using that by (simp add: map_update) (metis length_map list_update_id nth_map)
  then show ?thesis
    by (auto simp: upd_slave_def slave_at_def set_slave_def par_def bind_eq_Some_conv same_cache_def)
qed

lemma eeprom2master_same: "par (ecx_eeprom2master slave c) (\<lambda>(w, d). same_cache c d)"
proof -
  have wr: "good_writer write_FPWR" by (simp add: good_writer_def)
  show ?thesis
    unfolding ecx_eeprom2master_def
    apply (simp only: par_simps ret_case_prod ret_if)
    apply (clarsimp simp: ret_if slave_at_def par_aget)
    apply (intro conjI impI)
     apply (rule write_retry_only [THEN par_conseq, OF wr only_port_refl])
     apply clarsimp
     apply (rule write_retry_only [THEN par_conseq, OF wr], assumption)
     apply clarsimp
     apply (rule upd_pdi_same [THEN par_conseq])
     apply (auto dest!: only_same simp: same_cache_def)
    done
qed

lemma only_port_sel:
  assumes "only_port c d"
  shows "slavelist d = slavelist c" "esibuf d = esibuf c" "esimap d = esimap c" "esislave d = esislave c"
  using assms by (auto simp: only_port_def)

section \<open>The byte cache\<close>

definition cached :: "u32 list \<Rightarrow> nat \<Rightarrow> bool" where
  "cached m k \<longleftrightarrow> m ! (k div 32) AND push_bit (k - k div 32 * 32) 1 \<noteq> 0"

lemma cached_bit: "cached m k \<longleftrightarrow> bit (m ! (k div 32)) (k mod 32)"
proof -
  have "k - k div 32 * 32 = k mod 32" by (simp add: minus_div_mult_eq_mod)
  then show ?thesis
    by (simp add: cached_def bit_iff_and_push_bit_not_eq_0)
qed

text \<open>Marking goes on from position \<open>32 * mapw + mapb\<close>.\<close>

definition mark_inv :: "u32 list \<Rightarrow> nat \<Rightarrow> nat \<Rightarrow> nat \<times> nat \<times> u32 list \<Rightarrow> bool" where
  "mark_inv m0 k i = (\<lambda>(w, b, m). b < 32 \<and> 32 * w + b = k + i \<and> length m = length m0
     \<and> (\<forall>j < i. cached m (k + j)) \<and> (\<forall>j. cached m0 j \<longrightarrow> cached m j))"

lemma mark_cached_inv:
  assumes "mark_inv m0 k i s"
  shows "par (mark_cached i s) (mark_inv m0 k (Suc i))"
proof -
  obtain w b m where s: "s = (w, b, m)" by (cases s)
  have h: "b < 32" "32 * w + b = k + i" "length m = length m0"
    and old: "\<forall>j < i. cached m (k + j)" "\<forall>j. cached m0 j \<longrightarrow> cached m j"
    using assms by (auto simp: s mark_inv_def)
  have pos: "(k + i) div 32 = w" "(k + i) mod 32 = b" using h by (simp_all flip: h(2))
  let ?m = "m[w := m ! w OR push_bit b 1]"
  have keep: "cached ?m j" if "cached m j" for j
    using that by (cases "w < length m"; cases "j div 32 = w") (auto simp: cached_bit bit_or_iff nth_list_update list_update_beyond not_less)
  have new: "cached ?m (k + i)" if "w < length m"
    using that h(1) by (simp add: cached_bit pos bit_or_iff bit_push_bit_iff bit_exp_iff)
  show ?thesis
  proof (cases "w < length m")
    case True
    have "mark_inv m0 k (Suc i) (if 31 < b + 1 then (w + 1, 0, ?m) else (w, b + 1, ?m))"
      using h old keep new True by (auto simp: mark_inv_def less_Suc_eq One_nat_def)
    with True show ?thesis
      by (cases "31 < b + 1") (simp_all add: mark_cached_def s Let_def aget_def aset_def)
  next
    case False
    then show ?thesis by (simp add: mark_cached_def s aget_def)
  qed
qed

lemma mark_cached_all:
  assumes "mark_inv m0 k 0 s"
  shows "par (for_each mark_cached [0..<n] s) (mark_inv m0 k n)"
proof (induction n)
  case 0
  then show ?case using assms by simp
next
  case (Suc n)
  then show ?case by (auto simp: for_each_append elim!: par_conseq intro: mark_cached_inv)
qed

lemma sii_fill_cached:
  assumes a: "unat address < EC_MAXEEPBUF"
  shows "par (sii_fill slave address c) (\<lambda>d. esislave d = esislave c \<and> cached (esimap d) (unat address)
       \<and> length (esimap d) = length (esimap c))"
proof -
  let ?e = "unat address div 2"
  let ?w = "?e div 16"
  have mark: "par (for_each mark_cached [0..<n] (?w, ?e * 2 - ?w * 32, m)) (\<lambda>(_, _, m').
      cached m' (unat address) \<and> length m' = length m)"
    if "n = 4 \<or> n = 8" for n m
  proof -
    have "mark_inv m (2 * ?e) 0 (?w, ?e * 2 - ?w * 32, m)"
      by (simp add: mark_inv_def)
    then have "par (for_each mark_cached [0..<n] (?w, ?e * 2 - ?w * 32, m)) (mark_inv m (2 * ?e) n)"
      by (rule mark_cached_all)
    then show ?thesis
    proof (rule par_conseq)
      fix s assume "mark_inv m (2 * ?e) n s"
      moreover have "unat address = 2 * ?e + unat address mod 2" "unat address mod 2 < n"
        using that by auto
      ultimately show "case s of (_, _, m') \<Rightarrow> cached m' (unat address) \<and> length m' = length m"
        by (cases s) (metis (mono_tags, lifting) mark_inv_def case_prod_conv)
    qed
  qed
  show ?thesis
    unfolding sii_fill_def Let_def
    apply (simp only: par_simps ret_case_prod)
    apply (rule parI)
    apply (rule eeprom2master_same [THEN par_conseq])
    apply clarsimp
    apply (rule readeepromFP_only [THEN par_conseq])
    apply clarsimp
    subgoal for s d e d'
      apply (frule only_port_sel(3), drule only_port_sel(4))
      apply (rule parI, intro conjI impI; rule parI, rule par_conseq [OF mark])
      by (auto simp: same_cache_def)
    done
qed

text \<open> C29: The byte cache answers a repeated read: a byte of the EEPROM that has been read is read again
  with the same value and without any access to the bus, the context staying as it is. \<close>

theorem siigetbyte_cached:
  assumes r: "ecx_siigetbyte slave address c = Some (b, d)" and a: "unat address < EC_MAXEEPBUF"
  shows "ecx_siigetbyte slave address d = Some (b, d)"
proof -
  let ?w = "unat address div 32" and ?b = "unat address - unat address div 32 * 32"
  define c1 where "c1 = (if slave \<noteq> esislave c then c\<lparr>esimap := replicate EC_MAXEEPBITMAP 0, esislave := slave\<rparr> else c)"
  have sl: "esislave c1 = slave" by (simp add: c1_def)
  from r a obtain w where w: "aget (esimap c1) ?w = Some w"
    and s: "(if w AND push_bit ?b 1 \<noteq> 0 then Some c1 else sii_fill slave address c1) = Some d"
    and e: "aget (esibuf d) (unat address) = Some b"
    unfolding ecx_siigetbyte_def Let_def c1_def [symmetric]
    by (auto simp: bind_eq_Some_conv split: if_splits)
  have "esislave d = slave \<and> cached (esimap d) (unat address) \<and> ?w < length (esimap d)"
  proof (cases "w AND push_bit ?b 1 \<noteq> 0")
    case True
    with s w sl show ?thesis by (auto simp: cached_def)
  next
    case False
    with s have "sii_fill slave address c1 = Some d" by simp
    from parD [OF sii_fill_cached [OF a] this] w sl show ?thesis by simp
  qed
  then show ?thesis
    using a e by (simp add: ecx_siigetbyte_def Let_def cached_def aget_def)
qed

definition demo_cached :: ecx_contextt where
  "demo_cached = demo_master\<lparr>esislave := 1, esimap := replicate EC_MAXEEPBITMAP (- 1),
     esibuf := replicate 128 0 @ [10, 0, 1, 0, 7, 8, 40, 0, 0, 0] @ replicate 3958 0xff\<rparr>"

theorem siigetbyte_cached_witness:
  "\<exists>b d. ecx_siigetbyte 1 4 demo_cached = Some (b, d) \<and> ecx_siigetbyte 1 4 d = Some (b, d)"
proof -
  have "ecx_siigetbyte 1 4 demo_cached = Some (0, demo_cached)"
    by (simp add: ecx_siigetbyte_def demo_cached_def demo_master_def ecx_context_def aget_def nth_append
        and_exp_eq_0_iff_not_bit)
  from siigetbyte_cached [OF this] this show ?thesis by auto
qed

text \<open> Reading a byte of the last words of the cache from a slave that answers with eight bytes never
  completes in bounds: from address 4090 on, the answer and its bitmap reach beyond the cache. \<close>

theorem siigetbyte_overrun:
  assumes s: "slave_at slave c = Some s" "eep_8byte s \<noteq> 0"
    and a: "4090 \<le> unat address" "unat address < EC_MAXEEPBUF" and len: "length (esibuf c) = EC_MAXEEPBUF"
    and miss: "slave \<noteq> esislave c \<or> \<not> cached (esimap c) (unat address)"
  shows "ecx_siigetbyte slave address c = None"
proof -
  define c1 where "c1 = (if slave \<noteq> esislave c then c\<lparr>esimap := replicate EC_MAXEEPBITMAP 0, esislave := slave\<rparr> else c)"
  have c1: "slave_at slave c1 = Some s" "length (esibuf c1) = EC_MAXEEPBUF"
    using s len by (auto simp: c1_def slave_at_def)
  have "\<not> cached (esimap c1) (unat address)"
  proof (cases "slave = esislave c")
    case True
    then show ?thesis using miss by (simp add: c1_def)
  next
    case False
    have "unat address div 32 < 128" using a by simp
    then show ?thesis using False by (simp add: c1_def cached_bit)
  qed
  moreover have "par (sii_fill slave address c1) (\<lambda>_. False)"
    unfolding sii_fill_def Let_def
    apply (simp only: par_simps ret_case_prod)
    apply (rule parI)
    apply (rule eeprom2master_same [THEN par_conseq])
    apply clarsimp
    apply (rule readeepromFP_only [THEN par_conseq])
    apply clarsimp
    apply (rule parI)
    subgoal for s1 d e d' s2
    proof -
      assume h: "same_cache c1 d" "only_port d d'" "slave_at slave d' = Some s2"
      have m: "map eep_8byte (slavelist d') = map eep_8byte (slavelist c1)"
        using h(1) only_port_sel(1) [OF h(2)] by (simp add: same_cache_def)
      have "eep_8byte s2 = map eep_8byte (slavelist d') ! unat slave" using h(3) by (auto simp: slave_at_def)
      also have "\<dots> = eep_8byte s" unfolding m using c1(1) by (auto simp: slave_at_def)
      finally have "eep_8byte s2 \<noteq> 0" using s(2) by simp
      moreover have "length (esibuf d') = EC_MAXEEPBUF"
        using h(1) only_port_sel(2) [OF h(2)] c1(2) by (simp add: same_cache_def)
      ultimately show ?thesis using a(1) by (simp add: mem_write_def)
    qed
    done
  ultimately have "sii_fill slave address c1 = None" "\<not> cached (esimap c1) (unat address)"
    by (simp_all add: par_def)
  then show ?thesis
    unfolding ecx_siigetbyte_def Let_def c1_def [symmetric] using a by (simp add: cached_def aget_def)
qed

theorem siigetbyte_overrun_witness:
  "ecx_siigetbyte 1 4090 (demo_master\<lparr>slavelist := replicate EC_MAXSLAVE (zero_slave\<lparr>eep_8byte := 1\<rparr>)\<rparr>) = None"
  by (rule siigetbyte_overrun [where s = "zero_slave\<lparr>eep_8byte := 1\<rparr>"])
    (simp_all add: slave_at_def aget_def demo_master_def ecx_context_def)

section \<open>The sections of the SII\<close>

definition sii_loaded :: "u16 \<Rightarrow> ecx_contextt \<Rightarrow> bool" where
  "sii_loaded slave c \<longleftrightarrow> esislave c = slave \<and> length (esibuf c) = EC_MAXEEPBUF
     \<and> length (esimap c) = EC_MAXEEPBITMAP \<and> (\<forall>k < EC_MAXEEPBUF. cached (esimap c) k)"

definition sii_byte_at :: "bytes \<Rightarrow> u16 \<Rightarrow> byte" where
  "sii_byte_at e a = (if unat a < EC_MAXEEPBUF then e ! unat a else 0xff)"

definition sii_word_at :: "bytes \<Rightarrow> u16 \<Rightarrow> u16" where
  "sii_word_at e a = ucast (sii_byte_at e a) + push_bit 8 (ucast (sii_byte_at e (a + 1)))"

text \<open>The list of sections, category and length in words, that starts at \<open>a\<close>, and the address of the
  length of the first section of a category.\<close>

fun sections_at :: "bytes \<Rightarrow> u16 \<Rightarrow> (u16 \<times> u16) list \<Rightarrow> bool" where
  "sections_at e a [] \<longleftrightarrow> sii_word_at e a = 0xffff"
| "sections_at e a ((cat, n) # ss) \<longleftrightarrow> sii_word_at e a = cat \<and> cat \<noteq> 0xffff
     \<and> sii_word_at e (a + 2) = n \<and> sections_at e (a + 4 + n * 2) ss"

fun find_section :: "u16 \<Rightarrow> u16 \<Rightarrow> (u16 \<times> u16) list \<Rightarrow> u16" where
  "find_section cat a [] = 0"
| "find_section cat a ((k, n) # ss) = (if k = cat then a + 2 else find_section cat (a + 4 + n * 2) ss)"

lemma siigetbyte_loaded: "sii_loaded slave c \<Longrightarrow> ecx_siigetbyte slave a c = Some (sii_byte_at (esibuf c) a, c)"
  by (auto simp: ecx_siigetbyte_def sii_loaded_def sii_byte_at_def cached_def aget_def Let_def)

lemma sii_word_loaded: "sii_loaded slave c \<Longrightarrow> sii_word slave a c = Some (sii_word_at (esibuf c) a, c)"
  by (simp add: sii_word_def siigetbyte_loaded sii_word_at_def)

lemma siifind_loop:
  assumes l: "sii_loaded slave c" and cat: "cat \<noteq> 0xffff" and "sections_at (esibuf c) a ss"
  shows "\<exists>a' p. while_do (\<lambda>(a, p, c). p \<noteq> cat \<and> p \<noteq> 0xffff) (siifind_step slave)
        (a + 2, sii_word_at (esibuf c) a, c) = Some (a', p, c)
      \<and> (if p \<noteq> cat then 0 else a') = find_section cat a ss"
  using assms(3)
proof (induction ss arbitrary: a)
  case Nil
  then show ?case using cat by (subst while_do.simps) auto
next
  case (Cons x ss)
  obtain k n where x: "x = (k, n)" by (cases x)
  show ?case
  proof (cases "k = cat")
    case True
    then show ?thesis using Cons.prems by (subst while_do.simps) (simp add: x)
  next
    case False
    have "siifind_step slave (a + 2, k, c) =
        Some (a + 4 + n * 2 + 2, sii_word_at (esibuf c) (a + 4 + n * 2), c)"
      using Cons.prems by (simp add: siifind_step_def sii_word_loaded [OF l] x ac_simps)
    then show ?thesis using False Cons.prems Cons.IH [of "a + 4 + n * 2"]
      by (subst while_do.simps) (simp add: x)
  qed
qed



theorem read_round_safe_witness:
  "ret (read_round read_FPRD write_FPWR 0x1001 0x40 20000 (0, 0, 0, demo_master))
    (\<lambda>(m, f32, f64, d). evolves demo_master d \<and> (m = 0 \<or> m = 0 \<or> m = 0 + 1))"
  by (rule read_round_safe [OF _ evolves_refl [OF demo_master_ok]]) simp

end
