(* ===== verification/Mailbox.thy ===== *)
theory Mailbox
  imports State_Props
begin

text \<open>
  The mailbox link layer (\<open>ec_nextmbxcnt\<close>, \<open>ec_clearmbx\<close>, \<open>ecx_mbxempty\<close>, \<open>ecx_mbxsend\<close> and
  \<open>ecx_mbxreceive\<close> in \<open>ethercatmain.c\<close>). A mailbox buffer is its \<open>EC_MAXMBX + 1\<close> bytes.
\<close>

abbreviation (input) ECT_MBXT_ERR :: byte where "ECT_MBXT_ERR \<equiv> 0x00"
abbreviation (input) ECT_MBXT_EOE :: byte where "ECT_MBXT_EOE \<equiv> 0x02"
abbreviation (input) ECT_MBXT_COE :: byte where "ECT_MBXT_COE \<equiv> 0x03"
abbreviation (input) ECT_MBXT_FOE :: byte where "ECT_MBXT_FOE \<equiv> 0x04"
abbreviation (input) ECT_MBXT_SOE :: byte where "ECT_MBXT_SOE \<equiv> 0x05"
abbreviation (input) ECT_REG_SM0STAT :: u16 where "ECT_REG_SM0STAT \<equiv> 0x0805"
abbreviation (input) ECT_REG_SM1STAT :: u16 where "ECT_REG_SM1STAT \<equiv> 0x080d"
abbreviation (input) ECT_REG_SM1CONTR :: u16 where "ECT_REG_SM1CONTR \<equiv> 0x080f"
abbreviation (input) OFF_mbxtype :: nat where "OFF_mbxtype \<equiv> 5"
abbreviation (input) OFF_mbxdata :: nat where "OFF_mbxdata \<equiv> 6"

definition ec_nextmbxcnt :: "byte \<Rightarrow> byte" where
  "ec_nextmbxcnt cnt = (let cnt = cnt + 1 in if 7 < cnt then 1 else cnt)"

definition ec_clearmbx :: "bytes \<Rightarrow> bytes option" where
  "ec_clearmbx Mbx = mem_write Mbx 0 (replicate EC_MAXMBX 0)"

section \<open>Sending\<close>

definition ecx_mbxempty :: "u16 \<Rightarrow> int \<Rightarrow> ecx_contextt \<Rightarrow> (int \<times> ecx_contextt) option" where
  "ecx_mbxempty slave timeout c = (let (timer, c) = c_timer_start timeout c in do {
     s \<leftarrow> slave_at slave c;
     ((wkc, SMstat), c) \<leftarrow> c_poll timer (\<lambda>(wkc, SMstat). wkc \<le> 0 \<or> SMstat AND 0x08 \<noteq> 0)
        (\<lambda>(_, c). do {
           (wkc, d, c) \<leftarrow> read_FPRD (configadr s) ECT_REG_SM0STAT 1 [0] EC_TIMEOUTRET c;
           SMstat \<leftarrow> aget d 0;
           Some ((wkc, SMstat), if SMstat AND 0x08 \<noteq> 0 \<and> int EC_LOCALDELAY < timeout
                                then c_usleep EC_LOCALDELAY c else c) })
        ((0, 0), c);
     Some (if 0 < wkc \<and> SMstat AND 0x08 = 0 then 1 else 0, c) })"

definition ecx_mbxsend :: "u16 \<Rightarrow> bytes \<Rightarrow> int \<Rightarrow> ecx_contextt \<Rightarrow> (int \<times> ecx_contextt) option" where
  "ecx_mbxsend slave mbx timeout c = do {
     s \<leftarrow> slave_at slave c;
     let mbxl = mbx_l s;
     if 0 < mbxl \<and> unat mbxl \<le> EC_MAXMBX
     then do {
       (ready, c) \<leftarrow> ecx_mbxempty slave timeout c;
       if ready \<noteq> 0
       then do {
         s2 \<leftarrow> slave_at slave c;
         write_FPWR (configadr s) (mbx_wo s2) mbxl mbx EC_TIMEOUTRET3 c }
       else Some (0, c) }
     else Some (0, c) }"

section \<open>Receiving\<close>

text \<open>Waiting for a full mailbox: \<open>clear\<close> says whether \<open>SMstat\<close> is zeroed before each read, as only
  the first of the two loops does.\<close>

definition mbx_await ::
  "bool \<Rightarrow> u16 \<Rightarrow> osal_timert \<Rightarrow> int \<Rightarrow> (int \<times> u16) \<times> ecx_contextt \<Rightarrow> ((int \<times> u16) \<times> ecx_contextt) option" where
  "mbx_await clear cadr timer timeout =
     c_poll timer (\<lambda>(wkc, SMstat). wkc \<le> 0 \<or> SMstat AND 0x08 = 0)
       (\<lambda>((_, SMstat), c). do {
          (wkc, d, c) \<leftarrow> read_FPRD cadr ECT_REG_SM1STAT 2 (le_bytes 2 (if clear then 0 else SMstat)) EC_TIMEOUTRET c;
          let SMstat = le_word d;
          Some ((wkc, SMstat), if SMstat AND 0x08 = 0 \<and> int EC_LOCALDELAY < timeout
                               then c_usleep EC_LOCALDELAY c else c) })"

text \<open>The repeat request after a lost mailbox: toggle, wait for the acknowledgement, wait again.\<close>

definition mbx_toggle_ack ::
  "u16 \<Rightarrow> u16 \<Rightarrow> osal_timert \<Rightarrow> (int \<times> byte) \<times> ecx_contextt \<Rightarrow> ((int \<times> byte) \<times> ecx_contextt) option" where
  "mbx_toggle_ack cadr SMstat timer =
     c_poll timer (\<lambda>(wkc2, SMcontr). wkc2 \<le> 0 \<or> SMcontr AND 0x02 \<noteq> ucast (drop_bit 8 SMstat) AND 0x02)
       (\<lambda>((_, SMcontr), c). do {
          (wkc2, d, c) \<leftarrow> read_FPRD cadr ECT_REG_SM1CONTR 1 [SMcontr] EC_TIMEOUTRET c;
          SMcontr \<leftarrow> aget d 0;
          Some ((wkc2, SMcontr), c) })"

definition mbx_repeat :: "u16 \<Rightarrow> osal_timert \<Rightarrow> int \<Rightarrow> u16 \<Rightarrow> ecx_contextt \<Rightarrow> (u16 \<times> ecx_contextt) option" where
  "mbx_repeat cadr timer timeout SMstat c = do {
     let SMstat = SMstat XOR 0x0200;
     (wkc2, c) \<leftarrow> write_FPWR cadr ECT_REG_SM1STAT 2 (le_bytes 2 SMstat) EC_TIMEOUTRET c;
     ((wkc2, _), c) \<leftarrow> mbx_toggle_ack cadr SMstat timer ((wkc2, 0), c);
     ((_, SMstat), c) \<leftarrow> mbx_await False cadr timer timeout ((wkc2, SMstat), c);
     Some (SMstat, c) }"

text \<open>What is done with a mailbox that was read: errors, emergencies and handled EoE fragments do not
  reach the caller.\<close>

definition mbx_sort :: "u16 \<Rightarrow> int \<Rightarrow> bytes \<Rightarrow> ecx_contextt \<Rightarrow> (int \<times> ecx_contextt) option" where
  "mbx_sort slave wkc mbx c = do {
     ty \<leftarrow> get8 mbx OFF_mbxtype;
     let ty = ty AND 0x0f;
     if ty = ECT_MBXT_ERR
     then do {
       detail \<leftarrow> get16 mbx 8;
       c \<leftarrow> ecx_mbxerror slave detail c;
       Some (0, c) }
     else if ty = ECT_MBXT_COE
     then do {
       CANOpen \<leftarrow> get16 mbx 6;
       if drop_bit 12 CANOpen = 0x01
       then do {
         ErrorCode \<leftarrow> get16 mbx 8;
         ErrorReg \<leftarrow> get8 mbx 10;
         bData \<leftarrow> get8 mbx 11;
         w1 \<leftarrow> get16 mbx 12;
         w2 \<leftarrow> get16 mbx 14;
         c \<leftarrow> ecx_mbxemergencyerror slave ErrorCode (ucast ErrorReg) bData w1 w2 c;
         Some (0, c) }
       else Some (wkc, c) }
     else if ty = ECT_MBXT_EOE
     then do {
       frameinfo1 \<leftarrow> get16 mbx 6;
       if frameinfo1 AND 0xf = 0
       then (case EOEhook c of
               Some hook \<Rightarrow> Some (if 0 < hook slave mbx then 0 else wkc, c)
             | None \<Rightarrow> Some (wkc, c))
       else Some (wkc, c) }
     else Some (wkc, c) }"

definition mbx_read ::
  "u16 \<Rightarrow> u16 \<Rightarrow> u16 \<Rightarrow> u16 \<Rightarrow> osal_timert \<Rightarrow> int \<Rightarrow> (int \<times> u16 \<times> bytes) \<times> ecx_contextt \<Rightarrow>
     ((int \<times> u16 \<times> bytes) \<times> ecx_contextt) option" where
  "mbx_read slave cadr mbxro mbxl timer timeout = (\<lambda>((_, SMstat, mbx), c). do {
     (wkc, mbx, c) \<leftarrow> read_FPRD cadr mbxro mbxl mbx EC_TIMEOUTRET c;
     if 0 < wkc
     then do {
       (wkc, c) \<leftarrow> mbx_sort slave wkc mbx c;
       Some ((wkc, SMstat, mbx), c) }
     else do {
       (SMstat, c) \<leftarrow> mbx_repeat cadr timer timeout SMstat c;
       Some ((wkc, SMstat, mbx), c) } })"

definition ecx_mbxreceive :: "u16 \<Rightarrow> bytes \<Rightarrow> int \<Rightarrow> ecx_contextt \<Rightarrow> (int \<times> bytes \<times> ecx_contextt) option" where
  "ecx_mbxreceive slave mbx timeout c = do {
     s \<leftarrow> slave_at slave c;
     let mbxl = mbx_rl s;
     if 0 < mbxl \<and> unat mbxl \<le> EC_MAXMBX
     then do {
       let (timer, c) = c_timer_start timeout c;
       ((wkc, SMstat), c) \<leftarrow> mbx_await True (configadr s) timer timeout ((0, 0), c);
       if 0 < wkc \<and> SMstat AND 0x08 \<noteq> 0
       then do {
         s2 \<leftarrow> slave_at slave c;
         ((wkc, _, mbx), c) \<leftarrow> c_poll timer (\<lambda>(wkc, _, _). wkc \<le> 0)
            (mbx_read slave (configadr s) (mbx_ro s2) mbxl timer timeout) ((wkc, SMstat, mbx), c);
         Some (wkc, mbx, c) }
       else Some (if 0 < wkc then EC_TIMEOUT else wkc, mbx, c) }
     else Some (0, mbx, c) }"

section \<open>Safety\<close>

lemma ecx_pusherror_wp:
  assumes k: "evolves c0 c" and Q: "\<And>d. evolves c0 d \<Longrightarrow> slavelist d = slavelist c \<Longrightarrow> Q d"
  shows "ret (ecx_pusherror Ec c) Q"
proof -
  have ok: "ring_ok (elist c)" using k by (simp add: evolves_def ctx_ok_def)
  have "evolves c0 (c\<lparr>elist := ring_push (signal Ec) (elist c), ecaterror := True\<rparr>)"
    using evolves_parts(2) [OF evolves_parts(1) [OF k ring_push_ok [OF ok]]] by simp
  from Q [OF this] show ?thesis by (simp add: pusherror_run [OF ok])
qed

lemma error_time_wp:
  assumes k: "evolves c0 c"
    and Q: "\<And>t p. evolves c0 (c\<lparr>port := p\<rparr>) \<Longrightarrow> Q t (c\<lparr>port := p\<rparr>)"
  shows "case error_time c of (t, d) \<Rightarrow> Q t d"
proof -
  have "steady (port c) ((port c)\<lparr>os := snd (osal_current_time (os (port c)))\<rparr>)"
    by (intro keeps_steady keeps_os evolves_inv [OF k]) simp
  from Q [OF evolves_port [OF k this]] show ?thesis
    by (simp add: error_time_def case_prod_unfold Let_def)
qed

lemma mbxerror_wp:
  assumes k: "evolves c0 c" and Q: "\<And>d. evolves c0 d \<Longrightarrow> slavelist d = slavelist c \<Longrightarrow> Q d"
  shows "ret (ecx_mbxerror slave detail c) Q"
    "ret (ecx_mbxemergencyerror slave code reg eb1 ew1 ew2 c) Q"
    "ret (ecx_packeterror slave idx subidx code c) Q"
proof -
  have time: "ret (ecx_pusherror (f t) d) Q" if "evolves c0 (c\<lparr>port := p\<rparr>)" "d = c\<lparr>port := p\<rparr>" for p d t and f :: "ec_timet \<Rightarrow> ec_errort"
    using that Q by (auto intro!: ecx_pusherror_wp)
  show "ret (ecx_mbxerror slave detail c) Q"
    "ret (ecx_mbxemergencyerror slave code reg eb1 ew1 ew2 c) Q"
    unfolding ecx_mbxerror_def ecx_mbxemergencyerror_def ret_step
    by (rule error_time_wp [OF k]; erule ecx_pusherror_wp; auto intro: Q)+
  show "ret (ecx_packeterror slave idx subidx code c) Q"
    unfolding ecx_packeterror_def ret_step
    by (rule error_time_wp [OF k], drule evolves_parts(2) [where b = True], erule ecx_pusherror_wp) (auto intro: Q)
qed

text \<open>A mailbox the caller gets to see.\<close>

definition ordinary :: "bytes \<Rightarrow> bool" where
  "ordinary mbx \<longleftrightarrow> mbx ! OFF_mbxtype AND 0x0f \<noteq> ECT_MBXT_ERR
     \<and> (mbx ! OFF_mbxtype AND 0x0f = ECT_MBXT_COE \<longrightarrow>
          drop_bit 12 (le_word (take 2 (drop 6 mbx)) :: u16) \<noteq> 1)"

lemma mbx_sort_wp:
  assumes k: "evolves c0 c" and len: "16 \<le> length mbx" and w: "0 < w"
  shows "ret (mbx_sort slave w mbx c) (\<lambda>(v, d). evolves c0 d \<and> (0 < v \<longrightarrow> ordinary mbx))"
  unfolding mbx_sort_def ret_step ret_if ret_get16 ret_get8
  using k len w by (auto simp: ordinary_def ret_if intro!: mbxerror_wp split: option.splits)

lemma timed_out_mono: "env_ext e0 e1 \<Longrightarrow> timed_out t e1 e2 \<Longrightarrow> timed_out t e0 e2"
  by (auto simp: timed_out_def intro: env_ext_trans)

lemma evolves_env: "evolves c d \<Longrightarrow> env_ext (os (port c)) (os (port d))"
  by (simp add: evolves_def steady_def)

lemma mbx_await_wp:
  assumes k: "evolves c0 c"
    and Q: "\<And>w st d. evolves c0 d \<Longrightarrow>
        (w \<le> 0 \<or> st AND 0x08 = 0 \<Longrightarrow> timed_out t (os (port c)) (os (port d))) \<Longrightarrow> Q ((w, st), d)"
  shows "ret (mbx_await clear cadr t timeout (x, c)) Q"
  unfolding mbx_await_def
proof (rule c_poll_wp [OF k, where J = "\<lambda>_ _. True"], goal_cases)
  case (1 x d)
  then show ?case
    by (auto simp: case_prod_unfold Let_def ret_if dest: evolves_ok intro!: read_wps(2) [where ?c0.0 = d] evolves_usleep)
next
  case (3 y d)
  then show ?case using Q by (cases y) auto
qed simp

lemma mbx_repeat_wp:
  assumes k: "evolves c0 c"
  shows "ret (mbx_repeat cadr t timeout st c) (\<lambda>(st, d). evolves c0 d)"
  unfolding mbx_repeat_def ret_step
proof (rule write_wps(2) [OF k], simp, simp, unfold ret_step mbx_toggle_ack_def, goal_cases)
  case (1 w p)
  show ?case
    apply (rule c_poll_wp [OF 1(2), where J = "\<lambda>_ _. True"])
    subgoal for x d
      by (auto simp: case_prod_unfold dest: evolves_ok intro!: read_wps(2) [where ?c0.0 = d])
    subgoal by simp
    subgoal for y d
      by (cases y) (auto intro!: mbx_await_wp)
    done
qed

lemma mbx_read_wp:
  assumes k: "evolves c0 c" and l: "unat l \<le> EC_MAXMBX" "length mbx = EC_MAXMBX + 1"
  shows "ret (mbx_read slave cadr ro l t timeout ((w, st, mbx), c)) (\<lambda>((w, st, m), d). evolves c0 d
           \<and> length m = EC_MAXMBX + 1 \<and> (0 < w \<longrightarrow> ordinary m))"
  unfolding mbx_read_def ret_step ret_if
  apply (rule read_wps(2) [OF k])
  using l apply simp
  using l apply simp
  using l apply (auto intro!: mbx_sort_wp [THEN ret_conseq] mbx_repeat_wp [THEN ret_conseq])
  done

text \<open> C31: Receiving a mailbox returns on every well-formed master whatever the bus answers. A positive
  working counter comes only with an ordinary message: mailbox errors and emergencies are taken out
  into the error list and never reach the caller. When a configured mailbox yields no message, at
  least the timeout has passed. \<close>

theorem mbxreceive_ordinary:
  assumes ok: "ctx_ok c" and s: "slave_at i c = Some s" and m: "length mbx = EC_MAXMBX + 1"
    and clk: "\<forall>n. snd (clock_at (os (port c)) n) < 1000000000"
    and t: "0 \<le> timeout" "timeout < 2 ^ 31"
    and fits: "fst (clock_at (os (port c)) (nclock (os (port c)))) + nat timeout div 1000000 + 1 < 2 ^ 32"
  shows "ret (ecx_mbxreceive i mbx timeout c) (\<lambda>(w, m, d). evolves c d \<and> length m = EC_MAXMBX + 1
     \<and> (0 < w \<longrightarrow> ordinary m)
     \<and> (w \<le> 0 \<longrightarrow> 0 < mbx_rl s \<and> unat (mbx_rl s) \<le> EC_MAXMBX \<longrightarrow>
          clock_us (os (port c)) (nclock (os (port c))) + nat timeout
            \<le> clock_us (os (port c)) (nclock (os (port d)) - 1)))"
proof (cases "0 < mbx_rl s \<and> unat (mbx_rl s) \<le> EC_MAXMBX")
  case False
  then show ?thesis using s m ok by (auto simp: ecx_mbxreceive_def)
next
  case True
  have k: "evolves c c" using ok by (rule evolves_refl)
  have us: "uint32_of timeout = nat timeout" using t by simp
  have i: "unat i < EC_MAXSLAVE" using s ok by (auto simp: slave_at_def ctx_ok_def)
  show ?thesis
    unfolding ecx_mbxreceive_def s ret_step if_P [OF True]
  proof (rule c_timer_start_wp [OF k], goal_cases)
    case (1 t p)
    let ?late = "\<lambda>d. clock_us (os (port c)) (nclock (os (port c))) + nat timeout
            \<le> clock_us (os (port c)) (nclock (os (port d)) - 1)"
    have late: "?late d" if "timed_out t (os p) (os (port d))" for d
      using timed_out_elapsed [OF clk fits 1(1) [unfolded us] that] .
    let ?c = "c\<lparr>port := p\<rparr>"
    have k1: "evolves ?c ?c" using 1(3) by (intro evolves_refl evolves_ok)
    have tr: "evolves c d" if "evolves ?c d" for d using evolves_trans [OF 1(3) that] .
    have late2: "?late e" if "evolves ?c d" "timed_out t (os (port d)) (os (port e))" for d e
      using late timed_out_mono [OF evolves_env [OF that(1)] that(2)] by simp
    show ?case
      unfolding ret_step
      apply (rule mbx_await_wp [OF k1])
      apply (simp only: ret_step ret_if)
      apply (rule if_split [THEN iffD2], rule conjI; rule impI)
      subgoal for w st d
        apply (rule slave_at_wp [OF _ i], assumption)
        subgoal for s2
          apply (rule c_poll_inv_wp [where ?c0.0 = ?c and K = "\<lambda>(w, st, m). length m = EC_MAXMBX + 1"
              and J = "\<lambda>(w, st, m) _. 0 < w \<longrightarrow> ordinary m"])
              apply assumption
             apply (simp add: m)
          subgoal for x e
            apply (cases x, clarsimp)
            apply (rule mbx_read_wp [THEN ret_conseq, OF evolves_refl])
               apply (rule evolves_ok, assumption)
            using True by auto
           apply (simp split: prod.splits)
          subgoal for y e
            using tr late2 by (cases y) auto
          done
        done
      subgoal for w st d
        using late m tr by auto
      done
  qed
qed

definition demo_mailbox :: ecx_contextt where
  "demo_mailbox = demo_master\<lparr>slavelist := replicate EC_MAXSLAVE (zero_slave\<lparr>mbx_rl := 128\<rparr>)\<rparr>"

lemma demo_mailbox_ok: "ctx_ok demo_mailbox"
  using demo_master_ok by (auto simp: demo_mailbox_def ctx_ok_def maps_ok_def slave_ok_def zero_slave_def)

theorem mbxreceive_ordinary_witness:
  "ret (ecx_mbxreceive 1 (replicate (EC_MAXMBX + 1) 0) 2000 demo_mailbox) (\<lambda>(w, m, d). evolves demo_mailbox d
     \<and> length m = EC_MAXMBX + 1 \<and> (0 < w \<longrightarrow> ordinary m)
     \<and> (w \<le> 0 \<longrightarrow> clock_us (os (port demo_mailbox)) (nclock (os (port demo_mailbox))) + nat 2000
            \<le> clock_us (os (port demo_mailbox)) (nclock (os (port d)) - 1)))"
  using mbxreceive_ordinary [OF demo_mailbox_ok, of 1 "zero_slave\<lparr>mbx_rl := 128\<rparr>" "replicate (EC_MAXMBX + 1) 0" 2000]
    demo_master_clock
  by (simp add: slave_at_def aget_def demo_mailbox_def)

end
