(* ===== verification/Coe_Sdo.thy ===== *)
theory Coe_Sdo
  imports Mailbox
begin

text \<open>
  CANopen over EtherCAT (\<open>soem_lib/soem/ethercatcoe.c\<close>): reading and writing service data objects,
  and process data objects by mailbox.

  \<open>ec_SDOt\<close> is a view of a mailbox: command at byte 8, index at 9, sub-index at 11, data from 12. A
  caller's buffer \<open>p\<close> is the bytes it really has; \<open>psize\<close> is what the caller says it has. A
  \<open>memcpy\<close> of a negative length, or past either buffer, is \<open>None\<close>. The last byte of a local
  mailbox, which \<open>ec_clearmbx\<close> leaves alone, is taken to be zero at first.
\<close>

abbreviation (input) ECT_COES_SDOREQ :: u16 where "ECT_COES_SDOREQ \<equiv> 2"
abbreviation (input) ECT_COES_SDORES :: u16 where "ECT_COES_SDORES \<equiv> 3"
abbreviation (input) ECT_COES_TXPDO :: u16 where "ECT_COES_TXPDO \<equiv> 4"
abbreviation (input) ECT_COES_RXPDO :: u16 where "ECT_COES_RXPDO \<equiv> 5"
abbreviation (input) ECT_COES_TXPDO_RR :: u16 where "ECT_COES_TXPDO_RR \<equiv> 6"
abbreviation (input) ECT_COES_SDOINFO :: u16 where "ECT_COES_SDOINFO \<equiv> 8"
abbreviation (input) ECT_SDO_DOWN_INIT :: byte where "ECT_SDO_DOWN_INIT \<equiv> 0x21"
abbreviation (input) ECT_SDO_DOWN_EXP :: byte where "ECT_SDO_DOWN_EXP \<equiv> 0x23"
abbreviation (input) ECT_SDO_DOWN_INIT_CA :: byte where "ECT_SDO_DOWN_INIT_CA \<equiv> 0x31"
abbreviation (input) ECT_SDO_UP_REQ :: byte where "ECT_SDO_UP_REQ \<equiv> 0x40"
abbreviation (input) ECT_SDO_UP_REQ_CA :: byte where "ECT_SDO_UP_REQ_CA \<equiv> 0x50"
abbreviation (input) ECT_SDO_SEG_UP_REQ :: byte where "ECT_SDO_SEG_UP_REQ \<equiv> 0x60"
abbreviation (input) ECT_SDO_ABORT :: byte where "ECT_SDO_ABORT \<equiv> 0x80"
abbreviation (input) OFF_CANOpen :: nat where "OFF_CANOpen \<equiv> 6"
abbreviation (input) OFF_Command :: nat where "OFF_Command \<equiv> 8"
abbreviation (input) OFF_Index :: nat where "OFF_Index \<equiv> 9"
abbreviation (input) OFF_SubIndex :: nat where "OFF_SubIndex \<equiv> 11"
abbreviation (input) OFF_ldata :: nat where "OFF_ldata \<equiv> 12"
abbreviation (input) OFF_ldata1 :: nat where "OFF_ldata1 \<equiv> 16"

section \<open>Errors\<close>

definition ecx_SDOerror :: "u16 \<Rightarrow> u16 \<Rightarrow> byte \<Rightarrow> u32 \<Rightarrow> ecx_contextt \<Rightarrow> ecx_contextt option" where
  "ecx_SDOerror slave index subidx abort c =
     (let (t, c) = error_time c
      in ecx_pusherror (set_AbortCode abort (zero_error\<lparr>Time := t, Slave := slave, Index := index,
           SubIdx := subidx, Etype := EC_ERR_TYPE_SDO_ERROR\<rparr>)) (c\<lparr>ecaterror := True\<rparr>))"

definition ecx_SDOinfoerror :: "u16 \<Rightarrow> u16 \<Rightarrow> byte \<Rightarrow> u32 \<Rightarrow> ecx_contextt \<Rightarrow> ecx_contextt option" where
  "ecx_SDOinfoerror slave index subidx abort c =
     ecx_pusherror (set_AbortCode abort (zero_error\<lparr>Slave := slave, Index := index,
       SubIdx := subidx, Etype := EC_ERR_TYPE_SDOINFO_ERROR\<rparr>)) (c\<lparr>ecaterror := True\<rparr>)"

section \<open>A mailbox conversation\<close>

definition new_mbx :: bytes where
  "new_mbx = replicate (EC_MAXMBX + 1) 0"

definition get32 :: "bytes \<Rightarrow> nat \<Rightarrow> u32 option" where
  "get32 b off = map_option le_word (mem_read b off 4)"

definition put32 :: "bytes \<Rightarrow> nat \<Rightarrow> u32 \<Rightarrow> bytes option" where
  "put32 b off w = mem_write b off (le_bytes 4 w)"

text \<open>\<open>memcpy\<close> from a buffer with an \<open>int\<close> length: a negative one is a huge \<open>size_t\<close>.\<close>

definition mem_copy :: "bytes \<Rightarrow> nat \<Rightarrow> int \<Rightarrow> bytes option" where
  "mem_copy b off n = (if n < 0 then None else mem_read b off (nat n))"

text \<open>\<open>ec_clearmbx(&MbxIn)\<close> and emptying the slave's out mailbox without waiting.\<close>

definition mbx_drain :: "u16 \<Rightarrow> ecx_contextt \<Rightarrow> (bytes \<times> ecx_contextt) option" where
  "mbx_drain slave c = do {
     MbxIn \<leftarrow> ec_clearmbx new_mbx;
     (_, MbxIn, c) \<leftarrow> ecx_mbxreceive slave MbxIn 0 c;
     Some (MbxIn, c) }"

text \<open>The next mailbox counter, which serves as session handle.\<close>

definition mbx_session :: "u16 \<Rightarrow> ecx_contextt \<Rightarrow> (byte \<times> ecx_contextt) option" where
  "mbx_session slave c = do {
     s \<leftarrow> slave_at slave c;
     let cnt = ec_nextmbxcnt (mbx_cnt s);
     c \<leftarrow> upd_slave slave (\<lambda>s. s\<lparr>mbx_cnt := cnt\<rparr>) c;
     Some (cnt, c) }"

text \<open>The mailbox header, with the type \<open>ty\<close> of the protocol.\<close>

definition mbx_header :: "byte \<Rightarrow> u16 \<Rightarrow> byte \<Rightarrow> bytes \<Rightarrow> bytes option" where
  "mbx_header ty len cnt Mbx = do {
     Mbx \<leftarrow> put16 Mbx 0 len;
     Mbx \<leftarrow> put16 Mbx 2 0x0000;
     Mbx \<leftarrow> put8 Mbx 4 0x00;
     put8 Mbx OFF_mbxtype (ty + push_bit 4 cnt) }"

text \<open>Sending a request and, when the slave took it, waiting for the answer in a cleared mailbox.\<close>

definition mbx_exchange ::
  "u16 \<Rightarrow> bytes \<Rightarrow> int \<Rightarrow> bytes \<Rightarrow> ecx_contextt \<Rightarrow> (int \<times> bytes \<times> ecx_contextt) option" where
  "mbx_exchange slave MbxOut timeout MbxIn c = do {
     (wkc, c) \<leftarrow> ecx_mbxsend slave MbxOut EC_TIMEOUTTXM c;
     if 0 < wkc
     then do {
       MbxIn \<leftarrow> ec_clearmbx MbxIn;
       ecx_mbxreceive slave MbxIn timeout c }
     else Some (wkc, MbxIn, c) }"

definition sdo_request ::
  "u16 \<Rightarrow> byte \<Rightarrow> byte \<Rightarrow> u16 \<Rightarrow> byte \<Rightarrow> u32 \<Rightarrow> bytes \<Rightarrow> bytes option" where
  "sdo_request len cnt command index subindex v Mbx = do {
     Mbx \<leftarrow> mbx_header ECT_MBXT_COE len cnt Mbx;
     Mbx \<leftarrow> put16 Mbx OFF_CANOpen (push_bit 12 ECT_COES_SDOREQ);
     Mbx \<leftarrow> put8 Mbx OFF_Command command;
     Mbx \<leftarrow> put16 Mbx OFF_Index index;
     Mbx \<leftarrow> put8 Mbx OFF_SubIndex subindex;
     put32 Mbx OFF_ldata v }"

text \<open>Is the answer of protocol CoE and the given service?\<close>

definition coe_service :: "u16 \<Rightarrow> bytes \<Rightarrow> bool option" where
  "coe_service service MbxIn = do {
     ty \<leftarrow> get8 MbxIn OFF_mbxtype;
     can \<leftarrow> get16 MbxIn OFF_CANOpen;
     Some (ty AND 0x0f = ECT_MBXT_COE \<and> drop_bit 12 can = service) }"

text \<open>An answer that is none of the expected ones: an abort, or any other frame.\<close>

definition sdo_refused :: "u16 \<Rightarrow> u16 \<Rightarrow> byte \<Rightarrow> bytes \<Rightarrow> ecx_contextt \<Rightarrow> ecx_contextt option" where
  "sdo_refused slave index subindex MbxIn c = do {
     command \<leftarrow> get8 MbxIn OFF_Command;
     if command = ECT_SDO_ABORT
     then do {
       abort \<leftarrow> get32 MbxIn OFF_ldata;
       ecx_SDOerror slave index subindex abort c }
     else ecx_packeterror slave index subindex 1 c }"

section \<open>Upload\<close>

definition sdo_expedited ::
  "u16 \<Rightarrow> u16 \<Rightarrow> byte \<Rightarrow> int \<Rightarrow> bytes \<Rightarrow> int \<Rightarrow> bytes \<Rightarrow> ecx_contextt \<Rightarrow> (int \<times> int \<times> bytes \<times> ecx_contextt) option" where
  "sdo_expedited slave index subindex wkc MbxIn psize p c = do {
     command \<leftarrow> get8 MbxIn OFF_Command;
     let bytesize = 4 - unat (drop_bit 2 command AND 0x03);
     if int bytesize \<le> psize
     then do {
       d \<leftarrow> mem_read MbxIn OFF_ldata bytesize;
       p \<leftarrow> mem_write p 0 d;
       Some (wkc, int bytesize, p, c) }
     else do {
       c \<leftarrow> ecx_packeterror slave index subindex 3 c;
       Some (0, psize, p, c) } }"

text \<open>One segment that was received; the result starts with \<open>NotLast\<close>.\<close>

definition sdo_segment ::
  "u16 \<Rightarrow> u16 \<Rightarrow> byte \<Rightarrow> int \<Rightarrow> bytes \<Rightarrow> nat \<Rightarrow> int \<Rightarrow> bytes \<Rightarrow> ecx_contextt \<Rightarrow>
     (bool \<times> int \<times> nat \<times> int \<times> bytes \<times> ecx_contextt) option" where
  "sdo_segment slave index subindex wkc MbxIn hp psize p c = do {
     ok \<leftarrow> coe_service ECT_COES_SDORES MbxIn;
     command \<leftarrow> get8 MbxIn OFF_Command;
     if ok \<and> command AND 0xe0 = 0x00
     then do {
       len \<leftarrow> get16 MbxIn 0;
       let last = (0 < command AND 0x01);
       let n = len - 3;
       let n = (if last \<and> n = 7 then n - ucast (drop_bit 1 (command AND 0x0e)) else n);
       d \<leftarrow> mem_read MbxIn OFF_Index (unat n);
       p \<leftarrow> mem_write p hp d;
       Some (\<not> last, wkc, if last then hp else hp + unat n, psize + uint n, p, c) }
     else do {
       c \<leftarrow> sdo_refused slave index subindex MbxIn c;
       Some (False, 0, hp, psize, p, c) } }"

definition sdo_segment_round ::
  "u16 \<Rightarrow> u16 \<Rightarrow> byte \<Rightarrow> int \<Rightarrow> bool \<times> byte \<times> bytes \<times> bytes \<times> int \<times> nat \<times> int \<times> bytes \<times> ecx_contextt \<Rightarrow>
     (bool \<times> byte \<times> bytes \<times> bytes \<times> int \<times> nat \<times> int \<times> bytes \<times> ecx_contextt) option" where
  "sdo_segment_round slave index subindex timeout = (\<lambda>(NotLast, toggle, MbxIn, MbxOut, _, hp, psize, p, c). do {
     (cnt, c) \<leftarrow> mbx_session slave c;
     MbxOut \<leftarrow> sdo_request 0x000a cnt (ECT_SDO_SEG_UP_REQ + toggle) index subindex 0 MbxOut;
     (wkc, MbxIn, c) \<leftarrow> mbx_exchange slave MbxOut timeout MbxIn c;
     (NotLast, wkc, hp, psize, p, c) \<leftarrow>
       (if 0 < wkc then sdo_segment slave index subindex wkc MbxIn hp psize p c
        else Some (NotLast, wkc, hp, psize, p, c));
     Some (NotLast, toggle XOR 0x10, MbxIn, MbxOut, wkc, hp, psize, p, c) })"

text \<open>The loop over segments goes on while no last segment has been seen, also when the slave does
  not answer.\<close>

definition sdo_segmented ::
  "u16 \<Rightarrow> u16 \<Rightarrow> byte \<Rightarrow> int \<Rightarrow> bytes \<Rightarrow> bytes \<Rightarrow> int \<Rightarrow> u16 \<Rightarrow> bytes \<Rightarrow> ecx_contextt \<Rightarrow>
     (int \<times> int \<times> bytes \<times> ecx_contextt) option" where
  "sdo_segmented slave index subindex timeout MbxIn MbxOut wkc n p c = do {
     d \<leftarrow> mem_read MbxIn OFF_ldata1 (unat n);
     p \<leftarrow> mem_write p 0 d;
     (_, _, _, _, wkc, _, psize, p, c) \<leftarrow> while_do fst (sdo_segment_round slave index subindex timeout)
        (True, 0x00, MbxIn, MbxOut, wkc, unat n, uint n, p, c);
     Some (wkc, psize, p, c) }"

definition sdo_normal ::
  "u16 \<Rightarrow> u16 \<Rightarrow> byte \<Rightarrow> int \<Rightarrow> bytes \<Rightarrow> bytes \<Rightarrow> int \<Rightarrow> int \<Rightarrow> bytes \<Rightarrow> ecx_contextt \<Rightarrow>
     (int \<times> int \<times> bytes \<times> ecx_contextt) option" where
  "sdo_normal slave index subindex timeout MbxIn MbxOut wkc psize p c = do {
     l \<leftarrow> get32 MbxIn OFF_ldata;
     let SDOlen = sint l;
     if SDOlen \<le> psize
     then do {
       len \<leftarrow> get16 MbxIn 0;
       let n = len - 10;
       if uint n < SDOlen
       then sdo_segmented slave index subindex timeout MbxIn MbxOut wkc n p c
       else do {
         d \<leftarrow> mem_copy MbxIn OFF_ldata1 SDOlen;
         p \<leftarrow> mem_write p 0 d;
         Some (wkc, SDOlen, p, c) } }
     else do {
       c \<leftarrow> ecx_packeterror slave index subindex 3 c;
       Some (0, psize, p, c) } }"

definition sdo_upload_reply ::
  "u16 \<Rightarrow> u16 \<Rightarrow> byte \<Rightarrow> int \<Rightarrow> bytes \<Rightarrow> bytes \<Rightarrow> int \<Rightarrow> int \<Rightarrow> bytes \<Rightarrow> ecx_contextt \<Rightarrow>
     (int \<times> int \<times> bytes \<times> ecx_contextt) option" where
  "sdo_upload_reply slave index subindex timeout MbxIn MbxOut wkc psize p c = do {
     ok \<leftarrow> coe_service ECT_COES_SDORES MbxIn;
     i \<leftarrow> get16 MbxIn OFF_Index;
     if ok \<and> i = index
     then do {
       command \<leftarrow> get8 MbxIn OFF_Command;
       if 0 < command AND 0x02
       then sdo_expedited slave index subindex wkc MbxIn psize p c
       else sdo_normal slave index subindex timeout MbxIn MbxOut wkc psize p c }
     else do {
       c \<leftarrow> sdo_refused slave index subindex MbxIn c;
       Some (0, psize, p, c) } }"

definition ecx_SDOread ::
  "u16 \<Rightarrow> u16 \<Rightarrow> byte \<Rightarrow> bool \<Rightarrow> int \<Rightarrow> bytes \<Rightarrow> int \<Rightarrow> ecx_contextt \<Rightarrow> (int \<times> int \<times> bytes \<times> ecx_contextt) option" where
  "ecx_SDOread slave index subindex CA psize p timeout c = do {
     (MbxIn, c) \<leftarrow> mbx_drain slave c;
     MbxOut \<leftarrow> ec_clearmbx new_mbx;
     (cnt, c) \<leftarrow> mbx_session slave c;
     let subindex = (if CA \<and> 1 < subindex then 1 else subindex);
     MbxOut \<leftarrow> sdo_request 0x000a cnt (if CA then ECT_SDO_UP_REQ_CA else ECT_SDO_UP_REQ) index subindex 0 MbxOut;
     (wkc, MbxIn, c) \<leftarrow> mbx_exchange slave MbxOut timeout MbxIn c;
     if 0 < wkc then sdo_upload_reply slave index subindex timeout MbxIn MbxOut wkc psize p c
     else Some (wkc, psize, p, c) }"

section \<open>Download\<close>

text \<open>The answer to the first request of a download.\<close>

definition sdo_accepted :: "u16 \<Rightarrow> byte \<Rightarrow> bytes \<Rightarrow> bool option" where
  "sdo_accepted index subindex MbxIn = do {
     ok \<leftarrow> coe_service ECT_COES_SDORES MbxIn;
     i \<leftarrow> get16 MbxIn OFF_Index;
     j \<leftarrow> get8 MbxIn OFF_SubIndex;
     Some (ok \<and> i = index \<and> j = subindex) }"

definition sdo_write_expedited ::
  "u16 \<Rightarrow> u16 \<Rightarrow> byte \<Rightarrow> int \<Rightarrow> bytes \<Rightarrow> int \<Rightarrow> bytes \<Rightarrow> bytes \<Rightarrow> ecx_contextt \<Rightarrow> (int \<times> ecx_contextt) option" where
  "sdo_write_expedited slave index subindex psize p timeout MbxIn MbxOut c = do {
     (cnt, c) \<leftarrow> mbx_session slave c;
     let command = ECT_SDO_DOWN_EXP OR (push_bit 2 (of_int (4 - psize)) AND 0x0c);
     MbxOut \<leftarrow> sdo_request 0x000a cnt command index subindex 0 MbxOut;
     d \<leftarrow> mem_copy p 0 psize;
     MbxOut \<leftarrow> mem_write MbxOut OFF_ldata d;
     (wkc, MbxIn, c) \<leftarrow> mbx_exchange slave MbxOut timeout MbxIn c;
     if 0 < wkc
     then do {
       ok \<leftarrow> sdo_accepted index subindex MbxIn;
       if ok then Some (wkc, c)
       else do {
         c \<leftarrow> sdo_refused slave index subindex MbxIn c;
         Some (0, c) } }
     else Some (wkc, c) }"

text \<open>One more segment: \<open>hp\<close> is how much of the data has been sent, \<open>psize\<close> what is left of it.\<close>

definition sdo_write_segment ::
  "u16 \<Rightarrow> u16 \<Rightarrow> byte \<Rightarrow> bytes \<Rightarrow> int \<Rightarrow> int \<Rightarrow> bool \<times> byte \<times> bytes \<times> bytes \<times> int \<times> nat \<times> int \<times> ecx_contextt \<Rightarrow>
     (bool \<times> byte \<times> bytes \<times> bytes \<times> int \<times> nat \<times> int \<times> ecx_contextt) option" where
  "sdo_write_segment slave index subindex p timeout maxdata = (\<lambda>(_, toggle, MbxIn, MbxOut, _, hp, psize, c). do {
     let NotLast = (maxdata < psize);
     let framedatasize = (if NotLast then maxdata else psize);
     let short = (\<not> NotLast \<and> framedatasize < 7);
     let len = (if short then 0x0a else of_int (framedatasize + 3));
     let command = (if short then of_int (0x01 + (7 - framedatasize) * 2) else if NotLast then 0x00 else 0x01);
     (cnt, c) \<leftarrow> mbx_session slave c;
     MbxOut \<leftarrow> mbx_header ECT_MBXT_COE len cnt MbxOut;
     MbxOut \<leftarrow> put16 MbxOut OFF_CANOpen (push_bit 12 ECT_COES_SDOREQ);
     MbxOut \<leftarrow> put8 MbxOut OFF_Command (command + toggle);
     d \<leftarrow> mem_copy p hp framedatasize;
     MbxOut \<leftarrow> mem_write MbxOut OFF_Index d;
     (wkc, MbxIn, c) \<leftarrow> mbx_exchange slave MbxOut timeout MbxIn c;
     (NotLast, wkc, c) \<leftarrow>
       (if 0 < wkc
        then do {
          ok \<leftarrow> coe_service ECT_COES_SDORES MbxIn;
          answer \<leftarrow> get8 MbxIn OFF_Command;
          if ok \<and> answer AND 0xe0 = 0x20 then Some (NotLast, wkc, c)
          else do {
            c \<leftarrow> sdo_refused slave index subindex MbxIn c;
            Some (False, 0, c) } }
        else Some (NotLast, wkc, c));
     Some (NotLast, toggle XOR 0x10, MbxIn, MbxOut, wkc, hp + nat framedatasize, psize - framedatasize, c) })"

definition sdo_write_normal ::
  "u16 \<Rightarrow> u16 \<Rightarrow> byte \<Rightarrow> bool \<Rightarrow> int \<Rightarrow> bytes \<Rightarrow> int \<Rightarrow> int \<Rightarrow> bytes \<Rightarrow> bytes \<Rightarrow> ecx_contextt \<Rightarrow>
     (int \<times> ecx_contextt) option" where
  "sdo_write_normal slave index subindex CA psize p timeout maxdata MbxIn MbxOut c = do {
     let NotLast = (maxdata < psize);
     let framedatasize = (if NotLast then maxdata else psize);
     (cnt, c) \<leftarrow> mbx_session slave c;
     let sub = (if CA \<and> 1 < subindex then 1 else subindex);
     MbxOut \<leftarrow> sdo_request (of_int (0x0a + framedatasize)) cnt (if CA then ECT_SDO_DOWN_INIT_CA else ECT_SDO_DOWN_INIT)
                index sub (of_int psize) MbxOut;
     d \<leftarrow> mem_copy p 0 framedatasize;
     MbxOut \<leftarrow> mem_write MbxOut OFF_ldata1 d;
     (wkc, MbxIn, c) \<leftarrow> mbx_exchange slave MbxOut timeout MbxIn c;
     if 0 < wkc
     then do {
       ok \<leftarrow> sdo_accepted index sub MbxIn;
       if ok
       then do {
         (_, _, _, _, wkc, _, _, c) \<leftarrow> while_do fst (sdo_write_segment slave index subindex p timeout (maxdata + 7))
            (NotLast, 0, MbxIn, MbxOut, wkc, nat framedatasize, psize - framedatasize, c);
         Some (wkc, c) }
       else do {
         c \<leftarrow> sdo_refused slave index subindex MbxIn c;
         Some (0, c) } }
     else Some (wkc, c) }"

definition ecx_SDOwrite ::
  "u16 \<Rightarrow> u16 \<Rightarrow> byte \<Rightarrow> bool \<Rightarrow> int \<Rightarrow> bytes \<Rightarrow> int \<Rightarrow> ecx_contextt \<Rightarrow> (int \<times> ecx_contextt) option" where
  "ecx_SDOwrite slave index subindex CA psize p timeout c = do {
     (MbxIn, c) \<leftarrow> mbx_drain slave c;
     MbxOut \<leftarrow> ec_clearmbx new_mbx;
     s \<leftarrow> slave_at slave c;
     let maxdata = uint (mbx_l s) - 0x10;
     if psize \<le> 4 \<and> \<not> CA
     then sdo_write_expedited slave index subindex psize p timeout MbxIn MbxOut c
     else sdo_write_normal slave index subindex CA psize p timeout maxdata MbxIn MbxOut c }"

section \<open>Process data by mailbox\<close>

definition ecx_RxPDO :: "u16 \<Rightarrow> u16 \<Rightarrow> int \<Rightarrow> bytes \<Rightarrow> ecx_contextt \<Rightarrow> (int \<times> ecx_contextt) option" where
  "ecx_RxPDO slave RxPDOnumber psize p c = do {
     (_, c) \<leftarrow> mbx_drain slave c;
     MbxOut \<leftarrow> ec_clearmbx new_mbx;
     s \<leftarrow> slave_at slave c;
     let maxdata = uint (mbx_l s) - 0x08;
     let framedatasize = (if maxdata < psize then maxdata else psize);
     (cnt, c) \<leftarrow> mbx_session slave c;
     MbxOut \<leftarrow> mbx_header ECT_MBXT_COE (of_int (0x02 + framedatasize)) cnt MbxOut;
     MbxOut \<leftarrow> put16 MbxOut OFF_CANOpen ((RxPDOnumber AND 0x01ff) + push_bit 12 ECT_COES_RXPDO);
     d \<leftarrow> mem_copy p 0 framedatasize;
     MbxOut \<leftarrow> mem_write MbxOut OFF_Command d;
     ecx_mbxsend slave MbxOut EC_TIMEOUTTXM c }"

definition ecx_TxPDO ::
  "u16 \<Rightarrow> u16 \<Rightarrow> int \<Rightarrow> bytes \<Rightarrow> int \<Rightarrow> ecx_contextt \<Rightarrow> (int \<times> int \<times> bytes \<times> ecx_contextt) option" where
  "ecx_TxPDO slave TxPDOnumber psize p timeout c = do {
     (MbxIn, c) \<leftarrow> mbx_drain slave c;
     MbxOut \<leftarrow> ec_clearmbx new_mbx;
     (cnt, c) \<leftarrow> mbx_session slave c;
     MbxOut \<leftarrow> mbx_header ECT_MBXT_COE 0x02 cnt MbxOut;
     MbxOut \<leftarrow> put16 MbxOut OFF_CANOpen ((TxPDOnumber AND 0x01ff) + push_bit 12 ECT_COES_TXPDO_RR);
     (wkc, MbxIn, c) \<leftarrow> mbx_exchange slave MbxOut timeout MbxIn c;
     if 0 < wkc
     then do {
       ok \<leftarrow> coe_service ECT_COES_TXPDO MbxIn;
       if ok
       then do {
         len \<leftarrow> get16 MbxIn 0;
         let framedatasize = len - 2;
         if uint framedatasize \<le> psize
         then do {
           d \<leftarrow> mem_read MbxIn OFF_Command (unat framedatasize);
           p \<leftarrow> mem_write p 0 d;
           Some (wkc, uint framedatasize, p, c) }
         else do {
           c \<leftarrow> ecx_packeterror slave 0 0 3 c;
           Some (0, psize, p, c) } }
       else do {
         c \<leftarrow> sdo_refused slave 0 0 MbxIn c;
         Some (0, psize, p, c) } }
     else Some (wkc, psize, p, c) }"

end
