(* ===== verification/Mbx_Safety.thy ===== *)
theory Mbx_Safety
  imports Coe_Sdo
begin

text \<open>
  Total-correctness rules for a mailbox conversation: sending, receiving, the session counter and the
  messages a protocol writes. Each keeps the master well formed (\<open>evolves\<close>) and the mailbox sizes of
  the slaves (\<open>boxes\<close>), whatever the bus answers, so that CoE and EoE transfers can be shown safe.
\<close>

section \<open>Mailbox sizes\<close>

definition boxes :: "ecx_contextt \<Rightarrow> u16 list" where
  "boxes c = map mbx_l (slavelist c)"

lemma boxes_nth: "evolves c0 c \<Longrightarrow> unat i < EC_MAXSLAVE \<Longrightarrow> boxes c ! unat i = mbx_l (slavelist c ! unat i)"
  by (simp add: boxes_def evolves_sizes)

lemma c_poll_par:
  assumes body: "\<And>x d. P d \<Longrightarrow> par (body (x, d)) (\<lambda>(y, e). P e)"
    and port: "\<And>d p. P d \<Longrightarrow> P (d\<lparr>port := p\<rparr>)" and c: "P c"
  shows "par (c_poll t cond body (x, c)) (\<lambda>(y, d). P d)"
  unfolding c_poll_def
proof (rule do_while_par [where I = "\<lambda>(x, d). P d" and J = "\<lambda>(x, d). P d"])
  show "par (case s of (x, c) \<Rightarrow> let (b, c) = c_and_not_expired (cond x) t c in Some (b, x, c))
      (\<lambda>(b, s'). if b then case s' of (y, e) \<Rightarrow> P e else case s' of (y, e) \<Rightarrow> P e)"
    if "case s of (x, d) \<Rightarrow> P d" for s
    using that port by (cases s) (auto simp: c_and_not_expired_def Let_def split: prod.splits)
qed (use body c in auto)

section \<open>The transport leaves the slave list alone\<close>

definition slaves :: "ec_slavet list \<Rightarrow> ecx_contextt \<Rightarrow> bool" where
  "slaves L c \<longleftrightarrow> slavelist c = L"

lemma slaves_port [simp]: "slaves L (c\<lparr>port := p\<rparr>) = slaves L c"
  "slaves L (c_usleep us c) = slaves L c" "slaves L (c\<lparr>ecaterror := b\<rparr>) = slaves L c"
  by (simp_all add: slaves_def c_usleep_def)

lemma slaves_timer: "slaves L c \<Longrightarrow> case c_timer_start t c of (u, d) \<Rightarrow> slaves L d"
  by (simp add: c_timer_start_def case_prod_unfold Let_def)

lemma prims_slaves:
  assumes "slaves L c"
  shows "par (read_FPRD adp ado n data timeout c) (\<lambda>(w, d, c). slaves L c)"
    "par (write_FPWR adp ado n data timeout c) (\<lambda>(w, c). slaves L c)"
    "par (ecx_pusherror Ec c) (slaves L)"
    "par (slave_at i c) (\<lambda>s. True)"
  using assms
  by (auto simp: read_FPRD_def write_FPWR_def on_port_def par_def bind_eq_Some_conv ecx_pusherror_def slaves_def
      Let_def split: if_splits)

lemma errors_slaves:
  assumes "slaves L c"
  shows "par (ecx_mbxerror slave detail c) (slaves L)"
    "par (ecx_mbxemergencyerror slave code reg eb1 ew1 ew2 c) (slaves L)"
    "par (ecx_packeterror slave idx subidx pcode c) (slaves L)"
    "par (ecx_SDOerror slave idx subidx abort c) (slaves L)"
  using assms
  by (auto simp: ecx_mbxerror_def ecx_mbxemergencyerror_def ecx_packeterror_def ecx_SDOerror_def error_time_def
      case_prod_unfold Let_def intro!: prims_slaves(3))

lemma mbxempty_slaves:
  assumes "slaves L c"
  shows "par (ecx_mbxempty slave timeout c) (\<lambda>(w, c). slaves L c)"
  unfolding ecx_mbxempty_def c_timer_start_def case_prod_unfold Let_def par_simps
  apply (rule parI)
  apply (rule c_poll_par [where P = "slaves L", THEN par_conseq])
  using assms
     apply (auto simp: case_prod_unfold intro!: prims_slaves(1) [THEN par_conseq] parI [where m = "aget _ _"])
  done

lemma mbxsend_slaves:
  assumes "slaves L c"
  shows "par (ecx_mbxsend slave mbx timeout c) (\<lambda>(w, c). slaves L c)"
  unfolding ecx_mbxsend_def Let_def par_simps
  apply (rule parI)
  using assms
  apply (auto simp: ret_if case_prod_unfold intro!: mbxempty_slaves [THEN par_conseq] parI [where m = "slave_at _ _"]
      prims_slaves(2) [THEN par_conseq])
  done

lemma mbx_await_slaves:
  assumes "slaves L c"
  shows "par (mbx_await clear cadr t timeout (x, c)) (\<lambda>(y, c). slaves L c)"
  unfolding mbx_await_def
  apply (rule c_poll_par [where P = "slaves L", THEN par_conseq])
  using assms
     apply (auto simp: case_prod_unfold Let_def intro!: prims_slaves(1) [THEN par_conseq])
  done

lemma mbx_repeat_slaves:
  assumes "slaves L c"
  shows "par (mbx_repeat cadr t timeout st c) (\<lambda>(st, c). slaves L c)"
  unfolding mbx_repeat_def Let_def par_simps mbx_toggle_ack_def
  apply (rule prims_slaves(2) [OF assms, THEN par_conseq], clarsimp)
  apply (rule c_poll_par [where P = "slaves L", THEN par_conseq])
     apply (auto simp: case_prod_unfold intro!: prims_slaves(1) [THEN par_conseq] parI [where m = "aget _ _"]
      mbx_await_slaves [THEN par_conseq])
  done

lemma mbx_sort_slaves:
  assumes "slaves L c"
  shows "par (mbx_sort slave w mbx c) (\<lambda>(v, c). slaves L c)"
  unfolding mbx_sort_def Let_def par_simps
  using assms
  by (auto simp: ret_if intro!: parI [where m = "get8 _ _"] parI [where m = "get16 _ _"] errors_slaves [THEN par_conseq]
      split: option.splits)

lemma mbxreceive_slaves:
  assumes "slaves L c"
  shows "par (ecx_mbxreceive slave mbx timeout c) (\<lambda>(w, m, c). slaves L c)"
  unfolding ecx_mbxreceive_def Let_def c_timer_start_def case_prod_unfold par_simps ret_if
  apply (rule parI)
  using assms apply (auto intro!: mbx_await_slaves [THEN par_conseq] parI [where m = "slave_at _ _"] simp: ret_if)
  apply (rule c_poll_par [where P = "slaves L", THEN par_conseq])
     apply (auto simp: mbx_read_def case_prod_unfold ret_if intro!: prims_slaves(1) [THEN par_conseq]
      mbx_sort_slaves [THEN par_conseq] mbx_repeat_slaves [THEN par_conseq])
  done

section \<open>The transport returns\<close>

lemma mbxempty_wp:
  assumes k: "evolves c0 c" and i: "unat i < EC_MAXSLAVE"
  shows "ret (ecx_mbxempty i timeout c) (\<lambda>(w, d). evolves c0 d)"
  unfolding ecx_mbxempty_def Let_def
proof (simp only: ret_step, rule c_timer_start_wp [OF k], goal_cases)
  case (1 t p)
  show ?case
    apply (rule slave_at_wp [OF 1(3) i])
    apply (rule c_poll_wp [OF 1(3), where J = "\<lambda>_ _. True"])
    subgoal for s x d
      by (auto simp: case_prod_unfold dest: evolves_ok intro!: read_wps(2) [where ?c0.0 = d] evolves_usleep)
    by auto
qed

lemma mbxsend_wp:
  assumes k: "evolves c0 c" and i: "unat i < EC_MAXSLAVE" and m: "length mbx = EC_MAXMBX + 1"
    and Q: "\<And>w d. evolves c0 d \<Longrightarrow> boxes d = boxes c \<Longrightarrow> Q (w, d)"
  shows "ret (ecx_mbxsend i mbx timeout c) Q"
proof -
  have "ret (ecx_mbxsend i mbx timeout c) (\<lambda>(w, d). evolves c0 d)"
    unfolding ecx_mbxsend_def Let_def
    apply (simp only: ret_step)
    apply (rule slave_at_wp [OF k i])
    apply (simp only: ret_step ret_if)
    apply (rule if_split [THEN iffD2], rule conjI; rule impI)
    subgoal for s
      apply (rule mbxempty_wp [OF k i, THEN ret_conseq])
      apply (clarsimp simp: ret_if)
      subgoal for w d
        apply (rule slave_at_wp [OF _ i], assumption)
        by (rule write_wps(2)) (use m in auto)
      done
    using k by simp
  from ret_par [OF this mbxsend_slaves [of "slavelist c" c i mbx timeout]]
  show ?thesis by (rule ret_conseq) (auto simp: slaves_def boxes_def intro!: Q)
qed

lemma mbxreceive_wp:
  assumes k: "evolves c0 c" and i: "unat i < EC_MAXSLAVE" and m: "length mbx = EC_MAXMBX + 1"
    and Q: "\<And>w m d. evolves c0 d \<Longrightarrow> boxes d = boxes c \<Longrightarrow> length m = EC_MAXMBX + 1 \<Longrightarrow> Q (w, m, d)"
  shows "ret (ecx_mbxreceive i mbx timeout c) Q"
proof -
  have "ret (ecx_mbxreceive i mbx timeout c) (\<lambda>(w, m, d). evolves c0 d \<and> length m = EC_MAXMBX + 1)"
    unfolding ecx_mbxreceive_def Let_def
    apply (simp only: ret_step)
    apply (rule slave_at_wp [OF k i])
    apply (simp only: ret_step ret_if)
    apply (rule if_split [THEN iffD2], rule conjI; rule impI)
    subgoal premises s for s
    proof (rule c_timer_start_wp [OF k], goal_cases)
      case (1 t p)
      show ?case
        apply (rule mbx_await_wp [OF 1(3)])
        apply (simp only: ret_step ret_if)
        apply (rule if_split [THEN iffD2], rule conjI; rule impI)
        subgoal for w st d
          apply (rule slave_at_wp [OF _ i], assumption)
          apply (rule c_poll_inv_wp [where ?c0.0 = c0 and K = "\<lambda>(w, st, m). length m = EC_MAXMBX + 1"
              and J = "\<lambda>_ _. True"])
              apply assumption
             apply (simp add: m)
          subgoal for s2 x e
            apply (cases x, clarsimp)
            apply (rule mbx_read_wp [THEN ret_conseq, OF evolves_refl])
               apply (rule evolves_ok, assumption)
            using s by auto
          by auto
        using m by auto
    qed
    using k m by simp
  from ret_par [OF this mbxreceive_slaves [of "slavelist c" c i mbx timeout]]
  show ?thesis by (rule ret_conseq) (auto simp: slaves_def boxes_def intro!: Q)
qed

section \<open>A conversation\<close>

lemma mbx_session_wp:
  assumes k: "evolves c0 c" and i: "unat i < EC_MAXSLAVE"
    and Q: "\<And>cnt d. evolves c0 d \<Longrightarrow> boxes d = boxes c \<Longrightarrow> Q (cnt, d)"
  shows "ret (mbx_session i c) Q"
  unfolding mbx_session_def ret_step
proof (rule slave_at_wp [OF k i], rule upd_slave_wp [OF k i], goal_cases)
  case (1 s s')
  then show ?case by simp
next
  case (2 s)
  have "boxes (c\<lparr>slavelist := (slavelist c)[unat i := (slavelist c ! unat i)\<lparr>mbx_cnt := ec_nextmbxcnt (mbx_cnt s)\<rparr>]\<rparr>) = boxes c"
    using i evolves_sizes(1) [OF k] by (simp add: boxes_def map_update list_update_same_conv)
  from Q [OF 2(3) this] show ?case .
qed

lemma ec_clearmbx_wp:
  "length m = EC_MAXMBX + 1 \<Longrightarrow> (\<And>m. length m = EC_MAXMBX + 1 \<Longrightarrow> Q m) \<Longrightarrow> ret (ec_clearmbx m) Q"
  by (simp add: ec_clearmbx_def ret_mem_write)

lemma length_new_mbx [simp]: "length new_mbx = EC_MAXMBX + 1"
  by (simp add: new_mbx_def)

lemma mbx_drain_wp:
  assumes k: "evolves c0 c" and i: "unat i < EC_MAXSLAVE"
    and Q: "\<And>m d. evolves c0 d \<Longrightarrow> boxes d = boxes c \<Longrightarrow> length m = EC_MAXMBX + 1 \<Longrightarrow> Q (m, d)"
  shows "ret (mbx_drain i c) Q"
  unfolding mbx_drain_def ret_step
  by (rule ec_clearmbx_wp, simp, rule mbxreceive_wp [OF k i]) (auto intro: Q)

lemma mbx_exchange_wp:
  assumes k: "evolves c0 c" and i: "unat i < EC_MAXSLAVE"
    and m: "length out = EC_MAXMBX + 1" "length m = EC_MAXMBX + 1"
    and Q: "\<And>w m d. evolves c0 d \<Longrightarrow> boxes d = boxes c \<Longrightarrow> length m = EC_MAXMBX + 1 \<Longrightarrow> Q (w, m, d)"
  shows "ret (mbx_exchange i out timeout m c) Q"
  unfolding mbx_exchange_def ret_step
  apply (rule mbxsend_wp [OF k i m(1)])
  apply (simp only: prod.case ret_if)
  apply (rule if_split [THEN iffD2], rule conjI; rule impI)
   apply (simp only: ret_step)
   apply (rule ec_clearmbx_wp [OF m(2)])
   apply (rule mbxreceive_wp [OF _ i], assumption, assumption, rule Q, assumption, simp, assumption)
  apply (simp add: Q m)
  done

text \<open>Messages keep the length of the buffer they are written into.\<close>

lemma put_wps:
  "off + 2 \<le> length b \<Longrightarrow> (\<And>m. length m = length b \<Longrightarrow> Q m) \<Longrightarrow> ret (put16 b off w) Q"
  "off < length b \<Longrightarrow> (\<And>m. length m = length b \<Longrightarrow> Q m) \<Longrightarrow> ret (put8 b off v) Q"
  "off + 4 \<le> length b \<Longrightarrow> (\<And>m. length m = length b \<Longrightarrow> Q m) \<Longrightarrow> ret (put32 b off u) Q"
  "off + length xs \<le> length b \<Longrightarrow> (\<And>m. length m = length b \<Longrightarrow> Q m) \<Longrightarrow> ret (mem_write b off xs) Q"
  by (simp_all add: put16_def put8_def put32_def ret_mem_write)

lemma mbx_header_wp:
  "6 \<le> length b \<Longrightarrow> (\<And>m. length m = length b \<Longrightarrow> Q m) \<Longrightarrow> ret (mbx_header ty len cnt b) Q"
  unfolding mbx_header_def ret_step
  by (rule put_wps(1), simp, rule put_wps(1), simp, rule put_wps(2), simp, rule put_wps(2)) simp_all

lemma sdo_request_wp:
  "16 \<le> length b \<Longrightarrow> (\<And>m. length m = length b \<Longrightarrow> Q m) \<Longrightarrow> ret (sdo_request len cnt command idx sub v b) Q"
  unfolding sdo_request_def ret_step
  by (rule mbx_header_wp, simp, rule put_wps(1), simp, rule put_wps(2), simp, rule put_wps(1), simp,
      rule put_wps(2), simp, rule put_wps(3)) simp_all

lemma mem_copy_wp:
  "0 \<le> n \<Longrightarrow> int off + n \<le> int (length p) \<Longrightarrow> (\<And>d. int (length d) = n \<Longrightarrow> Q d) \<Longrightarrow> ret (mem_copy p off n) Q"
  by (auto simp: mem_copy_def ret_mem_read)

lemma coe_service_wp:
  "8 \<le> length m \<Longrightarrow> (\<And>b. Q b) \<Longrightarrow> ret (coe_service s m) Q"
  by (simp add: coe_service_def)

lemma sdo_accepted_wp:
  "16 \<le> length m \<Longrightarrow> (\<And>b. Q b) \<Longrightarrow> ret (sdo_accepted idx sub m) Q"
  by (auto simp: sdo_accepted_def intro!: coe_service_wp)

lemma SDOerror_wp:
  assumes k: "evolves c0 c" and Q: "\<And>d. evolves c0 d \<Longrightarrow> slavelist d = slavelist c \<Longrightarrow> Q d"
  shows "ret (ecx_SDOerror slave idx sub abort c) Q"
  unfolding ecx_SDOerror_def ret_step
  by (rule error_time_wp [OF k], drule evolves_parts(2) [where b = True], erule ecx_pusherror_wp) (auto intro: Q)

lemma sdo_refused_wp:
  assumes k: "evolves c0 c" and m: "16 \<le> length m" and Q: "\<And>d. evolves c0 d \<Longrightarrow> boxes d = boxes c \<Longrightarrow> Q d"
  shows "ret (sdo_refused slave idx sub m c) Q"
  unfolding sdo_refused_def ret_step ret_get8 ret_if get32_def
  using m by (auto simp: mem_read_def boxes_def intro!: SDOerror_wp [OF k] mbxerror_wp(3) [OF k] Q)

end
