(* ===== verification/Foe.thy ===== *)
theory Foe
  imports Coe_Sdo
begin

text \<open>
  File access over EtherCAT (\<open>soem_lib/soem/ethercatfoe.c\<close>): reading and writing a file.

  \<open>ec_FOEt\<close> is a view of a mailbox: operation code at byte 6, packet number (password, error code) at
  8, data from 12. The file name is its bytes up to, without, the terminating zero.
\<close>

abbreviation (input) ECT_FOE_READ :: byte where "ECT_FOE_READ \<equiv> 1"
abbreviation (input) ECT_FOE_WRITE :: byte where "ECT_FOE_WRITE \<equiv> 2"
abbreviation (input) ECT_FOE_DATA :: byte where "ECT_FOE_DATA \<equiv> 3"
abbreviation (input) ECT_FOE_ACK :: byte where "ECT_FOE_ACK \<equiv> 4"
abbreviation (input) ECT_FOE_ERROR :: byte where "ECT_FOE_ERROR \<equiv> 5"
abbreviation (input) ECT_FOE_BUSY :: byte where "ECT_FOE_BUSY \<equiv> 6"
abbreviation (input) OFF_OpCode :: nat where "OFF_OpCode \<equiv> 6"
abbreviation (input) OFF_Packet :: nat where "OFF_Packet \<equiv> 8"
abbreviation (input) OFF_Data :: nat where "OFF_Data \<equiv> 12"
abbreviation (input) EC_ERR_FOE_ERROR :: int where "EC_ERR_FOE_ERROR \<equiv> 5"
abbreviation (input) EC_ERR_FOE_BUF2SMALL :: int where "EC_ERR_FOE_BUF2SMALL \<equiv> 6"
abbreviation (input) EC_ERR_FOE_PACKETNUMBER :: int where "EC_ERR_FOE_PACKETNUMBER \<equiv> 7"
abbreviation (input) EC_ERR_FOE_FILE_NOTFOUND :: int where "EC_ERR_FOE_FILE_NOTFOUND \<equiv> 10"
abbreviation (input) EC_ERR_PACKET_ERROR :: int where "EC_ERR_PACKET_ERROR \<equiv> 3"

text \<open>The progress hook gets numbers only and its result is ignored: its calls leave no trace here.\<close>

definition ecx_FOEdefinehook :: "(u16 \<Rightarrow> int \<Rightarrow> int \<Rightarrow> int) option \<Rightarrow> ecx_contextt \<Rightarrow> int \<times> ecx_contextt" where
  "ecx_FOEdefinehook hook c = (1, c\<lparr>FOEhook := hook\<rparr>)"

section \<open>Requests\<close>

text \<open>Header, operation and packet number; the reserved byte and the data stay as they are.\<close>

definition foe_header :: "u16 \<Rightarrow> byte \<Rightarrow> byte \<Rightarrow> u32 \<Rightarrow> bytes \<Rightarrow> bytes option" where
  "foe_header len cnt OpCode packet Mbx = do {
     Mbx \<leftarrow> mbx_header ECT_MBXT_FOE len cnt Mbx;
     Mbx \<leftarrow> put8 Mbx OFF_OpCode OpCode;
     put32 Mbx OFF_Packet packet }"

text \<open>The data of a packet has room for \<open>mbx_l - 12\<close> bytes, a 16-bit difference.\<close>

definition foe_maxdata :: "u16 \<Rightarrow> ecx_contextt \<Rightarrow> u16 option" where
  "foe_maxdata slave c = do { s \<leftarrow> slave_at slave c; Some (mbx_l s - 12) }"

text \<open>Opening a file, for both directions.\<close>

definition foe_open :: "byte \<Rightarrow> u16 \<Rightarrow> bytes \<Rightarrow> u32 \<Rightarrow> ecx_contextt \<Rightarrow> (bytes \<times> ecx_contextt) option" where
  "foe_open OpCode slave filename password c = do {
     MbxOut \<leftarrow> ec_clearmbx new_mbx;
     maxdata \<leftarrow> foe_maxdata slave c;
     let fnsize = (of_nat (length filename) :: u16);
     let fnsize = (if maxdata < fnsize then maxdata else fnsize);
     (cnt, c) \<leftarrow> mbx_session slave c;
     MbxOut \<leftarrow> foe_header (0x0006 + fnsize) cnt OpCode password MbxOut;
     d \<leftarrow> mem_read (filename @ [0]) 0 (unat fnsize);
     MbxOut \<leftarrow> mem_write MbxOut OFF_Data d;
     Some (MbxOut, c) }"

section \<open>Reading\<close>

text \<open>The state of a read: the packets seen, the bytes read, which is also where the next go, and the
  file buffer.\<close>

record foe_reading =
  fr_prev :: u32
  fr_read :: int
  fr_buf :: bytes

text \<open>A data packet that fits: it is stored and acknowledged. The flag says whether more is expected.\<close>

definition foe_accept ::
  "u16 \<Rightarrow> u16 \<Rightarrow> u16 \<Rightarrow> u32 \<Rightarrow> bytes \<Rightarrow> bytes \<Rightarrow> foe_reading \<Rightarrow> ecx_contextt \<Rightarrow>
     (bool \<times> int \<times> bytes \<times> foe_reading \<times> ecx_contextt) option" where
  "foe_accept slave maxdata segmentdata packetnumber MbxIn MbxOut R c = do {
     d \<leftarrow> mem_read MbxIn OFF_Data (unat segmentdata);
     p \<leftarrow> mem_write (fr_buf R) (nat (fr_read R)) d;
     let R = R\<lparr>fr_read := fr_read R + uint segmentdata, fr_buf := p\<rparr>;
     (cnt, c) \<leftarrow> mbx_session slave c;
     MbxOut \<leftarrow> foe_header 0x0006 cnt ECT_FOE_ACK packetnumber MbxOut;
     (wkc, c) \<leftarrow> ecx_mbxsend slave MbxOut EC_TIMEOUTTXM c;
     Some (segmentdata = maxdata \<and> 0 < wkc, wkc, MbxOut, R, c) }"

definition foe_receive ::
  "u16 \<Rightarrow> u16 \<Rightarrow> int \<Rightarrow> int \<Rightarrow> bytes \<Rightarrow> bytes \<Rightarrow> foe_reading \<Rightarrow> ecx_contextt \<Rightarrow>
     (bool \<times> int \<times> bytes \<times> foe_reading \<times> ecx_contextt) option" where
  "foe_receive slave maxdata buffersize wkc MbxIn MbxOut R c = do {
     ty \<leftarrow> get8 MbxIn OFF_mbxtype;
     op \<leftarrow> get8 MbxIn OFF_OpCode;
     if ty AND 0x0f = ECT_MBXT_FOE
     then if op = ECT_FOE_DATA
          then do {
            len \<leftarrow> get16 MbxIn 0;
            packetnumber \<leftarrow> get32 MbxIn OFF_Packet;
            let segmentdata = len - 0x0006;
            let R = R\<lparr>fr_prev := fr_prev R + 1\<rparr>;
            if packetnumber = fr_prev R \<and> fr_read R + uint segmentdata \<le> buffersize
            then foe_accept slave maxdata segmentdata packetnumber MbxIn MbxOut R c
            else Some (False, - EC_ERR_FOE_BUF2SMALL, MbxOut, R, c) }
          else if op = ECT_FOE_ERROR then Some (False, - EC_ERR_FOE_ERROR, MbxOut, R, c)
          else Some (False, - EC_ERR_PACKET_ERROR, MbxOut, R, c)
     else Some (False, - EC_ERR_PACKET_ERROR, MbxOut, R, c) }"

definition foe_read_round ::
  "u16 \<Rightarrow> u16 \<Rightarrow> int \<Rightarrow> int \<Rightarrow> bool \<times> int \<times> int \<times> bytes \<times> bytes \<times> foe_reading \<times> ecx_contextt \<Rightarrow>
     (bool \<times> int \<times> int \<times> bytes \<times> bytes \<times> foe_reading \<times> ecx_contextt) option" where
  "foe_read_round slave maxdata buffersize timeout = (\<lambda>(_, _, psize, MbxIn, MbxOut, R, c). do {
     MbxIn \<leftarrow> ec_clearmbx MbxIn;
     (wkc, MbxIn, c) \<leftarrow> ecx_mbxreceive slave MbxIn timeout c;
     if 0 < wkc
     then do {
       (worktodo, wkc, MbxOut, R, c) \<leftarrow> foe_receive slave maxdata buffersize wkc MbxIn MbxOut R c;
       Some (worktodo, wkc, fr_read R, MbxIn, MbxOut, R, c) }
     else Some (False, wkc, psize, MbxIn, MbxOut, R, c) })"

text \<open>The result: working counter or error, the bytes read, and the file buffer.\<close>

definition ecx_FOEread ::
  "u16 \<Rightarrow> bytes \<Rightarrow> u32 \<Rightarrow> int \<Rightarrow> bytes \<Rightarrow> int \<Rightarrow> ecx_contextt \<Rightarrow> (int \<times> int \<times> bytes \<times> ecx_contextt) option" where
  "ecx_FOEread slave filename password psize p timeout c = do {
     (MbxIn, c) \<leftarrow> mbx_drain slave c;
     maxdata \<leftarrow> foe_maxdata slave c;
     (MbxOut, c) \<leftarrow> foe_open ECT_FOE_READ slave filename password c;
     (wkc, c) \<leftarrow> ecx_mbxsend slave MbxOut EC_TIMEOUTTXM c;
     if 0 < wkc
     then do {
       (_, wkc, psize, _, _, R, c) \<leftarrow> do_while (foe_read_round slave maxdata psize timeout)
          (\<lambda>s. Some (fst s, s)) (True, wkc, psize, MbxIn, MbxOut, \<lparr>fr_prev = 0, fr_read = 0, fr_buf = p\<rparr>, c);
       Some (wkc, psize, fr_buf R, c) }
     else Some (wkc, psize, p, c) }"

section \<open>Writing\<close>

text \<open>The state of a write: what is left of the file and where in it, the number of the last packet,
  its size, and whether an empty packet must still mark the end. \<open>segmentdata\<close> is uninitialised until
  a packet was sent.\<close>

record foe_writing =
  fw_left :: int
  fw_pos :: int
  fw_packet :: u32
  fw_segment :: "int option"
  fw_final :: bool

text \<open>The data to put into the next packet.\<close>

definition foe_tsize :: "u16 \<Rightarrow> foe_writing \<Rightarrow> int" where
  "foe_tsize maxdata F = (if uint maxdata < fw_left F then uint maxdata else fw_left F)"

definition foe_next :: "u16 \<Rightarrow> foe_writing \<Rightarrow> foe_writing" where
  "foe_next maxdata F =
     (let tsize = foe_tsize maxdata F;
          left = fw_left F - tsize
      in F\<lparr>fw_left := left, fw_segment := Some tsize, fw_packet := fw_packet F + 1,
           fw_final := (left = 0 \<and> tsize = uint maxdata)\<rparr>)"

definition foe_send_data ::
  "u16 \<Rightarrow> u16 \<Rightarrow> bytes \<Rightarrow> int \<Rightarrow> bytes \<Rightarrow> foe_writing \<Rightarrow> ecx_contextt \<Rightarrow>
     (bool \<times> int \<times> bytes \<times> foe_writing \<times> ecx_contextt) option" where
  "foe_send_data slave maxdata p wkc MbxOut F c =
     (if foe_tsize maxdata F \<noteq> 0 \<or> fw_final F
      then do {
        let F = foe_next maxdata F;
        segmentdata \<leftarrow> fw_segment F;
        (cnt, c) \<leftarrow> mbx_session slave c;
        MbxOut \<leftarrow> foe_header (of_int (0x0006 + segmentdata)) cnt ECT_FOE_DATA (fw_packet F) MbxOut;
        d \<leftarrow> (if fw_pos F < 0 then None else mem_copy p (nat (fw_pos F)) segmentdata);
        MbxOut \<leftarrow> mem_write MbxOut OFF_Data d;
        (wkc, c) \<leftarrow> ecx_mbxsend slave MbxOut EC_TIMEOUTTXM c;
        Some (0 < wkc, wkc, MbxOut, F\<lparr>fw_pos := fw_pos F + segmentdata\<rparr>, c) }
      else Some (False, wkc, MbxOut, F, c))"

text \<open>A busy slave: the packet sent last is taken back.\<close>

definition foe_busy :: "foe_writing \<Rightarrow> foe_writing option" where
  "foe_busy F =
     (if fw_packet F \<noteq> 0
      then do {
        segmentdata \<leftarrow> fw_segment F;
        Some (F\<lparr>fw_final := (if fw_left F = 0 then True else fw_final F), fw_left := fw_left F + segmentdata,
                fw_pos := fw_pos F - segmentdata, fw_packet := fw_packet F - 1\<rparr>) }
      else Some F)"

definition foe_reply ::
  "u16 \<Rightarrow> u16 \<Rightarrow> bytes \<Rightarrow> int \<Rightarrow> bytes \<Rightarrow> bytes \<Rightarrow> foe_writing \<Rightarrow> ecx_contextt \<Rightarrow>
     (bool \<times> int \<times> bytes \<times> foe_writing \<times> ecx_contextt) option" where
  "foe_reply slave maxdata p wkc MbxIn MbxOut F c = do {
     ty \<leftarrow> get8 MbxIn OFF_mbxtype;
     op \<leftarrow> get8 MbxIn OFF_OpCode;
     packetnumber \<leftarrow> get32 MbxIn OFF_Packet;
     if ty AND 0x0f = ECT_MBXT_FOE
     then if op = ECT_FOE_ACK
          then if packetnumber = fw_packet F then foe_send_data slave maxdata p wkc MbxOut F c
               else Some (False, - EC_ERR_FOE_PACKETNUMBER, MbxOut, F, c)
          else if op = ECT_FOE_BUSY then do { F \<leftarrow> foe_busy F; Some (False, wkc, MbxOut, F, c) }
          else if op = ECT_FOE_ERROR
          then Some (False, if packetnumber = 0x8001 then - EC_ERR_FOE_FILE_NOTFOUND else - EC_ERR_FOE_ERROR,
                     MbxOut, F, c)
          else Some (False, - EC_ERR_PACKET_ERROR, MbxOut, F, c)
     else Some (False, - EC_ERR_PACKET_ERROR, MbxOut, F, c) }"

definition foe_write_round ::
  "u16 \<Rightarrow> u16 \<Rightarrow> bytes \<Rightarrow> int \<Rightarrow> bool \<times> int \<times> bytes \<times> bytes \<times> foe_writing \<times> ecx_contextt \<Rightarrow>
     (bool \<times> int \<times> bytes \<times> bytes \<times> foe_writing \<times> ecx_contextt) option" where
  "foe_write_round slave maxdata p timeout = (\<lambda>(_, _, MbxIn, MbxOut, F, c). do {
     MbxIn \<leftarrow> ec_clearmbx MbxIn;
     (wkc, MbxIn, c) \<leftarrow> ecx_mbxreceive slave MbxIn timeout c;
     if 0 < wkc
     then do {
       (worktodo, wkc, MbxOut, F, c) \<leftarrow> foe_reply slave maxdata p wkc MbxIn MbxOut F c;
       Some (worktodo, wkc, MbxIn, MbxOut, F, c) }
     else Some (False, wkc, MbxIn, MbxOut, F, c) })"

definition ecx_FOEwrite ::
  "u16 \<Rightarrow> bytes \<Rightarrow> u32 \<Rightarrow> int \<Rightarrow> bytes \<Rightarrow> int \<Rightarrow> ecx_contextt \<Rightarrow> (int \<times> ecx_contextt) option" where
  "ecx_FOEwrite slave filename password psize p timeout c = do {
     (MbxIn, c) \<leftarrow> mbx_drain slave c;
     maxdata \<leftarrow> foe_maxdata slave c;
     (MbxOut, c) \<leftarrow> foe_open ECT_FOE_WRITE slave filename password c;
     (wkc, c) \<leftarrow> ecx_mbxsend slave MbxOut EC_TIMEOUTTXM c;
     if 0 < wkc
     then do {
       (_, wkc, _, _, _, c) \<leftarrow> do_while (foe_write_round slave maxdata p timeout) (\<lambda>s. Some (fst s, s))
          (True, wkc, MbxIn, MbxOut,
           \<lparr>fw_left = psize, fw_pos = 0, fw_packet = 0, fw_segment = None, fw_final = True\<rparr>, c);
       Some (wkc, c) }
     else Some (wkc, c) }"

end
