(* ===== verification/Eoe.thy ===== *)
theory Eoe
  imports Foe
begin

text \<open>
  Ethernet over EtherCAT (\<open>soem_lib/soem/ethercateoe.c\<close>): the IP parameters of a slave, and Ethernet
  frames sent and received in fragments.

  \<open>ec_EOEt\<close> is a view of a mailbox: \<open>frameinfo1\<close> at byte 6, \<open>frameinfo2\<close> (or the result) at 8, data
  from 10. The static \<open>txframeno\<close> of \<open>ecx_EOEsend\<close> is an argument and a result of it.
\<close>

abbreviation (input) EOE_PARAM_OFFSET :: nat where "EOE_PARAM_OFFSET \<equiv> 4"
abbreviation (input) EOE_DNS_NAME_LENGTH :: nat where "EOE_DNS_NAME_LENGTH \<equiv> 32"
abbreviation (input) EOE_ETHADDR_LENGTH :: nat where "EOE_ETHADDR_LENGTH \<equiv> 6"
abbreviation (input) EOE_INIT_REQ :: u16 where "EOE_INIT_REQ \<equiv> 2"
abbreviation (input) EOE_INIT_RESP :: u16 where "EOE_INIT_RESP \<equiv> 3"
abbreviation (input) EOE_GET_IP_PARAM_REQ :: u16 where "EOE_GET_IP_PARAM_REQ \<equiv> 6"
abbreviation (input) EOE_GET_IP_PARAM_RESP :: u16 where "EOE_GET_IP_PARAM_RESP \<equiv> 7"
abbreviation (input) EOE_RESULT_UNSUPPORTED_FRAME_TYPE :: int where "EOE_RESULT_UNSUPPORTED_FRAME_TYPE \<equiv> 2"
abbreviation (input) EC_ERR_MBX_ERROR :: int where "EC_ERR_MBX_ERROR \<equiv> 9"
abbreviation (input) EC_ERR_EOE_INVALID_RX_DATA :: int where "EC_ERR_EOE_INVALID_RX_DATA \<equiv> 11"
abbreviation (input) OFF_frameinfo1 :: nat where "OFF_frameinfo1 \<equiv> 6"
abbreviation (input) OFF_frameinfo2 :: nat where "OFF_frameinfo2 \<equiv> 8"
abbreviation (input) OFF_eoe_data :: nat where "OFF_eoe_data \<equiv> 10"

definition ecx_EOEdefinehook :: "(u16 \<Rightarrow> bytes \<Rightarrow> int) option \<Rightarrow> ecx_contextt \<Rightarrow> int \<times> ecx_contextt" where
  "ecx_EOEdefinehook hook c = (1, c\<lparr>EOEhook := hook\<rparr>)"

section \<open>Frame information\<close>

definition EOE_TYPE_GET :: "u16 \<Rightarrow> u16" where "EOE_TYPE_GET x = x AND 0xF"
definition EOE_PORT_SET :: "byte \<Rightarrow> u16" where "EOE_PORT_SET x = push_bit 4 (ucast x AND 0xF)"
definition EOE_PORT_GET :: "u16 \<Rightarrow> u16" where "EOE_PORT_GET x = drop_bit 4 x AND 0xF"
definition EOE_LAST_GET :: "u16 \<Rightarrow> bool" where "EOE_LAST_GET x = (drop_bit 8 x AND 1 \<noteq> 0)"
definition EOE_TIME_GET :: "u16 \<Rightarrow> bool" where "EOE_TIME_GET x = (drop_bit 9 x AND 1 \<noteq> 0)"
definition EOE_FRAG_SET :: "byte \<Rightarrow> u16" where "EOE_FRAG_SET x = ucast x AND 0x3F"
definition EOE_FRAG_GET :: "u16 \<Rightarrow> u16" where "EOE_FRAG_GET x = x AND 0x3F"
definition EOE_OFFSET_SET :: "int \<Rightarrow> u16" where "EOE_OFFSET_SET x = push_bit 6 (of_int x AND 0x3F)"
definition EOE_OFFSET_GET :: "u16 \<Rightarrow> u16" where "EOE_OFFSET_GET x = drop_bit 6 x AND 0x3F"
definition EOE_FRAMENO_SET :: "byte \<Rightarrow> u16" where "EOE_FRAMENO_SET x = push_bit 12 (ucast x AND 0xF)"
definition EOE_FRAMENO_GET :: "u16 \<Rightarrow> u16" where "EOE_FRAMENO_GET x = drop_bit 12 x AND 0xF"

section \<open>IP parameters\<close>

record eoe_param_t =
  mac_set :: bool
  ip_set :: bool
  subnet_set :: bool
  default_gateway_set :: bool
  dns_ip_set :: bool
  dns_name_set :: bool
  mac :: bytes
  ip :: u32
  subnet :: u32
  default_gateway :: u32
  dns_ip :: u32
  dns_name :: bytes

definition EOE_ip_uint32_to_byte :: "u32 \<Rightarrow> bytes" where
  "EOE_ip_uint32_to_byte a = rev (le_bytes 4 a)"

definition EOE_ip_byte_to_uint32 :: "bytes \<Rightarrow> u32" where
  "EOE_ip_byte_to_uint32 b = le_word (rev b)"

text \<open>Adding one parameter when it is set: its flag, its bytes, and the offset behind it.\<close>

definition eoe_put :: "bool \<Rightarrow> byte \<Rightarrow> bytes \<Rightarrow> byte \<times> nat \<times> bytes \<Rightarrow> (byte \<times> nat \<times> bytes) option" where
  "eoe_put present flag xs = (\<lambda>(flags, off, Mbx).
     if present then do { Mbx \<leftarrow> mem_write Mbx (OFF_eoe_data + off) xs; Some (flags OR flag, off + length xs, Mbx) }
     else Some (flags, off, Mbx))"

definition eoe_put_params :: "eoe_param_t \<Rightarrow> bytes \<Rightarrow> (byte \<times> nat \<times> bytes) option" where
  "eoe_put_params ipparam Mbx = do {
     s \<leftarrow> eoe_put (mac_set ipparam) 0x01 (take EOE_ETHADDR_LENGTH (mac ipparam)) (0, EOE_PARAM_OFFSET, Mbx);
     s \<leftarrow> eoe_put (ip_set ipparam) 0x02 (EOE_ip_uint32_to_byte (ip ipparam)) s;
     s \<leftarrow> eoe_put (subnet_set ipparam) 0x04 (EOE_ip_uint32_to_byte (subnet ipparam)) s;
     s \<leftarrow> eoe_put (default_gateway_set ipparam) 0x08 (EOE_ip_uint32_to_byte (default_gateway ipparam)) s;
     s \<leftarrow> eoe_put (dns_ip_set ipparam) 0x10 (EOE_ip_uint32_to_byte (dns_ip ipparam)) s;
     eoe_put (dns_name_set ipparam) 0x20 (take EOE_DNS_NAME_LENGTH (dns_name ipparam)) s }"

text \<open>The header of a request for or of parameters.\<close>

definition eoe_param_header :: "u16 \<Rightarrow> byte \<Rightarrow> byte \<Rightarrow> u16 \<Rightarrow> byte \<Rightarrow> bytes \<Rightarrow> bytes option" where
  "eoe_param_header len cnt prt ty flags Mbx = do {
     Mbx \<leftarrow> mbx_header ECT_MBXT_EOE len cnt Mbx;
     Mbx \<leftarrow> put16 Mbx OFF_frameinfo1 (ty OR EOE_PORT_SET prt OR 0x100);
     Mbx \<leftarrow> put16 Mbx OFF_frameinfo2 0;
     put8 Mbx OFF_eoe_data flags }"

definition ecx_EOEsetIp ::
  "u16 \<Rightarrow> byte \<Rightarrow> eoe_param_t \<Rightarrow> int \<Rightarrow> ecx_contextt \<Rightarrow> (int \<times> ecx_contextt) option" where
  "ecx_EOEsetIp slave prt ipparam timeout c = do {
     (MbxIn, c) \<leftarrow> mbx_drain slave c;
     MbxOut \<leftarrow> ec_clearmbx new_mbx;
     (cnt, c) \<leftarrow> mbx_session slave c;
     (flags, data_offset, MbxOut) \<leftarrow> eoe_put_params ipparam MbxOut;
     MbxOut \<leftarrow> eoe_param_header (of_nat (EOE_PARAM_OFFSET + data_offset)) cnt prt EOE_INIT_REQ flags MbxOut;
     (wkc, MbxIn, c) \<leftarrow> mbx_exchange slave MbxOut timeout MbxIn c;
     if 0 < wkc
     then do {
       ty \<leftarrow> get8 MbxIn OFF_mbxtype;
       frameinfo1 \<leftarrow> get16 MbxIn OFF_frameinfo1;
       r \<leftarrow> get16 MbxIn OFF_frameinfo2;
       Some (if ty AND 0x0f = ECT_MBXT_EOE
             then if EOE_TYPE_GET frameinfo1 \<noteq> EOE_INIT_RESP \<or> r \<noteq> 0 then - uint r else wkc
             else - EC_ERR_PACKET_ERROR, c) }
     else Some (wkc, c) }"

text \<open>Taking a parameter out of an answer whose flag is set.\<close>

definition eoe_get ::
  "byte \<Rightarrow> byte \<Rightarrow> nat \<Rightarrow> (bytes \<Rightarrow> eoe_param_t \<Rightarrow> eoe_param_t) \<Rightarrow> bytes \<Rightarrow> nat \<times> eoe_param_t \<Rightarrow> (nat \<times> eoe_param_t) option" where
  "eoe_get flags flag n store MbxIn = (\<lambda>(off, P).
     if flags AND flag \<noteq> 0
     then do { d \<leftarrow> mem_read MbxIn (OFF_eoe_data + off) n; Some (off + n, store d P) }
     else Some (off, P))"

text \<open>The length of the name is a 16-bit number, also when nothing of it is left in the answer.\<close>

definition eoe_get_name :: "byte \<Rightarrow> u16 \<Rightarrow> bytes \<Rightarrow> nat \<times> eoe_param_t \<Rightarrow> (nat \<times> eoe_param_t) option" where
  "eoe_get_name flags eoedatasize MbxIn = (\<lambda>(off, P).
     if flags AND 0x20 \<noteq> 0
     then do {
       let left = uint eoedatasize - int off;
       let dns_len = (if left < int EOE_DNS_NAME_LENGTH then of_int left else of_nat EOE_DNS_NAME_LENGTH :: u16);
       d \<leftarrow> mem_read MbxIn (OFF_eoe_data + off) (unat dns_len);
       nm \<leftarrow> mem_write (dns_name P) 0 d;
       Some (off + EOE_DNS_NAME_LENGTH, P\<lparr>dns_name := nm, dns_name_set := True\<rparr>) }
     else Some (off, P))"

definition eoe_get_params :: "u16 \<Rightarrow> bytes \<Rightarrow> eoe_param_t \<Rightarrow> (nat \<times> eoe_param_t) option" where
  "eoe_get_params eoedatasize MbxIn P = do {
     flags \<leftarrow> get8 MbxIn OFF_eoe_data;
     s \<leftarrow> eoe_get flags 0x01 EOE_ETHADDR_LENGTH (\<lambda>d P. P\<lparr>mac := d, mac_set := True\<rparr>) MbxIn (EOE_PARAM_OFFSET, P);
     s \<leftarrow> eoe_get flags 0x02 4 (\<lambda>d P. P\<lparr>ip := EOE_ip_byte_to_uint32 d, ip_set := True\<rparr>) MbxIn s;
     s \<leftarrow> eoe_get flags 0x04 4 (\<lambda>d P. P\<lparr>subnet := EOE_ip_byte_to_uint32 d, subnet_set := True\<rparr>) MbxIn s;
     s \<leftarrow> eoe_get flags 0x08 4
            (\<lambda>d P. P\<lparr>default_gateway := EOE_ip_byte_to_uint32 d, default_gateway_set := True\<rparr>) MbxIn s;
     s \<leftarrow> eoe_get flags 0x10 4 (\<lambda>d P. P\<lparr>dns_ip := EOE_ip_byte_to_uint32 d, dns_ip_set := True\<rparr>) MbxIn s;
     eoe_get_name flags eoedatasize MbxIn s }"

definition ecx_EOEgetIp ::
  "u16 \<Rightarrow> byte \<Rightarrow> eoe_param_t \<Rightarrow> int \<Rightarrow> ecx_contextt \<Rightarrow> (int \<times> eoe_param_t \<times> ecx_contextt) option" where
  "ecx_EOEgetIp slave prt ipparam timeout c = do {
     (_, MbxIn, c) \<leftarrow> ecx_mbxreceive slave new_mbx 0 c;
     MbxOut \<leftarrow> ec_clearmbx new_mbx;
     (cnt, c) \<leftarrow> mbx_session slave c;
     MbxOut \<leftarrow> eoe_param_header 0x0004 cnt prt EOE_GET_IP_PARAM_REQ 0 MbxOut;
     (wkc, MbxIn, c) \<leftarrow> mbx_exchange slave MbxOut timeout MbxIn c;
     if 0 < wkc
     then do {
       ty \<leftarrow> get8 MbxIn OFF_mbxtype;
       if ty AND 0x0f = ECT_MBXT_EOE
       then do {
         frameinfo1 \<leftarrow> get16 MbxIn OFF_frameinfo1;
         len \<leftarrow> get16 MbxIn 0;
         let eoedatasize = len - 0x0004;
         if EOE_TYPE_GET frameinfo1 \<noteq> EOE_GET_IP_PARAM_RESP
         then Some (- EOE_RESULT_UNSUPPORTED_FRAME_TYPE, ipparam, c)
         else do {
           (data_offset, P) \<leftarrow> eoe_get_params eoedatasize MbxIn ipparam;
           Some (if unat eoedatasize < data_offset then - EC_ERR_MBX_ERROR else wkc, P, c) } }
       else Some (- EC_ERR_PACKET_ERROR, ipparam, c) }
     else Some (wkc, ipparam, c) }"

section \<open>Sending a frame\<close>

text \<open>The next fragment of a frame of \<open>psize\<close> bytes from offset \<open>off\<close>: whether it is the last one, its
  size and its two words of frame information.\<close>

definition eoe_fragment :: "int \<Rightarrow> byte \<Rightarrow> int \<Rightarrow> byte \<Rightarrow> byte \<Rightarrow> int \<Rightarrow> bool \<times> int \<times> u16 \<times> u16" where
  "eoe_fragment maxdata prt psize txframeno fragno off =
     (let left = psize - off;
          sz = (if maxdata < left then maxdata div 32 * 32 else left);
          last = (sz = left);
          info1 = (if last then 0x100 OR EOE_PORT_SET prt else EOE_PORT_SET prt);
          info2 = EOE_FRAG_SET fragno
                  OR EOE_OFFSET_SET (if 0 < fragno then off div 32 else (psize + 31) div 32)
                  OR EOE_FRAMENO_SET txframeno
      in (last, sz, info1, info2))"

text \<open>The mailbox message with a fragment.\<close>

definition eoe_message :: "int \<Rightarrow> u16 \<Rightarrow> u16 \<Rightarrow> byte \<Rightarrow> bytes \<Rightarrow> int \<Rightarrow> bytes \<Rightarrow> bytes option" where
  "eoe_message sz info1 info2 cnt p off MbxOut = do {
     MbxOut \<leftarrow> mbx_header ECT_MBXT_EOE (of_int (4 + sz)) cnt MbxOut;
     MbxOut \<leftarrow> put16 MbxOut OFF_frameinfo1 info1;
     MbxOut \<leftarrow> put16 MbxOut OFF_frameinfo2 info2;
     d \<leftarrow> mem_copy p (nat off) sz;
     mem_write MbxOut OFF_eoe_data d }"

definition eoe_send_round ::
  "u16 \<Rightarrow> byte \<Rightarrow> int \<Rightarrow> bytes \<Rightarrow> int \<Rightarrow> int \<Rightarrow> bool \<times> int \<times> bytes \<times> byte \<times> byte \<times> int \<times> ecx_contextt \<Rightarrow>
     (bool \<times> int \<times> bytes \<times> byte \<times> byte \<times> int \<times> ecx_contextt) option" where
  "eoe_send_round slave prt psize p timeout maxdata = (\<lambda>(_, _, MbxOut, txframeno, fragno, off, c). do {
     let txframeno = (if 0 < fragno then txframeno else txframeno + 1);
     let (last, sz, info1, info2) = eoe_fragment maxdata prt psize txframeno fragno off;
     (cnt, c) \<leftarrow> mbx_session slave c;
     MbxOut \<leftarrow> eoe_message sz info1 info2 cnt p off MbxOut;
     (wkc, c) \<leftarrow> ecx_mbxsend slave MbxOut timeout c;
     Some (if \<not> last \<and> 0 < wkc then (True, wkc, MbxOut, txframeno, fragno + 1, off + sz, c)
           else (False, wkc, MbxOut, txframeno, fragno, off, c)) })"

definition ecx_EOEsend ::
  "u16 \<Rightarrow> byte \<Rightarrow> int \<Rightarrow> bytes \<Rightarrow> int \<Rightarrow> byte \<Rightarrow> ecx_contextt \<Rightarrow> (int \<times> byte \<times> ecx_contextt) option" where
  "ecx_EOEsend slave prt psize p timeout txframeno c = do {
     MbxOut \<leftarrow> ec_clearmbx new_mbx;
     s \<leftarrow> slave_at slave c;
     let maxdata = uint (mbx_l s) - 0x0A;
     (_, wkc, _, txframeno, _, _, c) \<leftarrow> do_while (eoe_send_round slave prt psize p timeout maxdata)
        (\<lambda>s. Some (fst s, s)) (True, 0, MbxOut, txframeno, 0, 0, c);
     Some (wkc, txframeno, c) }"

section \<open>Receiving a frame\<close>

text \<open>Checking a fragment against the state of a blocking receive: the frame number to go on with, or
  \<open>None\<close> when the fragment does not fit.\<close>

definition eoe_expected :: "byte \<Rightarrow> int \<Rightarrow> byte \<Rightarrow> byte \<Rightarrow> int \<Rightarrow> u16 \<Rightarrow> u16 \<Rightarrow> byte option" where
  "eoe_expected prt buffersize fragno frameno off info1 info2 =
     (if ucast fragno \<noteq> EOE_FRAG_GET info2 \<and> 0 < EOE_FRAG_GET info2 then None
      else if fragno = 0
      then if buffersize < uint (EOE_OFFSET_GET info2) * 32 \<or> ucast prt \<noteq> EOE_PORT_GET info1 then None
           else Some (ucast (EOE_FRAMENO_GET info2))
      else if ucast frameno \<noteq> EOE_FRAMENO_GET info2 \<or> off \<noteq> uint (EOE_OFFSET_GET info2) * 32 then None
      else Some frameno)"

definition eoe_recv_round ::
  "u16 \<Rightarrow> byte \<Rightarrow> int \<Rightarrow> int \<Rightarrow> bool \<times> int \<times> bytes \<times> int \<times> byte \<times> byte \<times> int \<times> bytes \<times> ecx_contextt \<Rightarrow>
     (bool \<times> int \<times> bytes \<times> int \<times> byte \<times> byte \<times> int \<times> bytes \<times> ecx_contextt) option" where
  "eoe_recv_round slave prt buffersize timeout = (\<lambda>(NotLast, wkc, MbxIn, psize, fragno, frameno, off, p, c). do {
     ty \<leftarrow> get8 MbxIn OFF_mbxtype;
     if ty AND 0x0f = ECT_MBXT_EOE
     then do {
       len \<leftarrow> get16 MbxIn 0;
       info1 \<leftarrow> get16 MbxIn OFF_frameinfo1;
       info2 \<leftarrow> get16 MbxIn OFF_frameinfo2;
       let eoedatasize = uint len - 4;
       case eoe_expected prt buffersize fragno frameno off info1 info2 of
         None \<Rightarrow> Some (NotLast, - EC_ERR_EOE_INVALID_RX_DATA, MbxIn, psize, fragno, frameno, off, p, c)
       | Some frameno \<Rightarrow> do {
           (fragno, off, p) \<leftarrow>
             (if off + eoedatasize \<le> buffersize
              then do {
                d \<leftarrow> mem_copy MbxIn OFF_eoe_data eoedatasize;
                p \<leftarrow> mem_write p (nat off) d;
                Some (fragno + 1, off + eoedatasize, p) }
              else Some (fragno, off, p));
           if EOE_LAST_GET info1
           then do {
             let off = (if EOE_TIME_GET info1 then off - 4 else off);
             Some (False, wkc, MbxIn, off, fragno, frameno, off, p, c) }
           else do {
             (wkc, MbxIn, c) \<leftarrow> ecx_mbxreceive slave MbxIn timeout c;
             Some (NotLast, wkc, MbxIn, psize, fragno, frameno, off, p, c) } } }
     else Some (NotLast, - EC_ERR_PACKET_ERROR, MbxIn, psize, fragno, frameno, off, p, c) })"

definition ecx_EOErecv ::
  "u16 \<Rightarrow> byte \<Rightarrow> int \<Rightarrow> bytes \<Rightarrow> int \<Rightarrow> ecx_contextt \<Rightarrow> (int \<times> int \<times> bytes \<times> ecx_contextt) option" where
  "ecx_EOErecv slave prt psize p timeout c = do {
     MbxIn \<leftarrow> ec_clearmbx new_mbx;
     (wkc, MbxIn, c) \<leftarrow> ecx_mbxreceive slave MbxIn timeout c;
     (_, wkc, _, psize, _, _, _, p, c) \<leftarrow> while_do (\<lambda>(NotLast, wkc, _). 0 < wkc \<and> NotLast)
        (eoe_recv_round slave prt psize timeout) (True, wkc, MbxIn, psize, 0, 0xff, 0, p, c);
     Some (wkc, psize, p, c) }"

section \<open>Reading one fragment\<close>

text \<open>The variables the caller keeps between fragments, and its frame buffer.\<close>

record eoe_rx =
  rxfragmentno :: byte
  rxframesize :: u16
  rxframeoffset :: u16
  rxframeno :: u16
  rx_psize :: int
  rx_buf :: bytes

definition eoe_reset :: "eoe_rx \<Rightarrow> eoe_rx" where
  "eoe_reset R = R\<lparr>rxfragmentno := 0, rxframesize := 0, rxframeoffset := 0, rxframeno := 0\<rparr>"

text \<open>Is it the fragment that is due? \<open>Inl\<close> is the state after an error.\<close>

definition eoe_due :: "u16 \<Rightarrow> eoe_rx \<Rightarrow> eoe_rx + eoe_rx" where
  "eoe_due info2 R =
     (let unexpected = (ucast (rxfragmentno R) \<noteq> EOE_FRAG_GET info2);
          R = (if unexpected \<and> rxfragmentno R \<noteq> 0 then eoe_reset R else R)
      in if unexpected \<and> 0 < EOE_FRAG_GET info2 then Inl R
         else if rxfragmentno R = 0
         then Inr (R\<lparr>rxframesize := push_bit 5 (EOE_OFFSET_GET info2), rxframeoffset := 0,
                     rxframeno := EOE_FRAMENO_GET info2\<rparr>)
         else if rxframeno R \<noteq> EOE_FRAMENO_GET info2
                 \<or> uint (rxframeoffset R) \<noteq> uint (EOE_OFFSET_GET info2) * 32
         then Inl (eoe_reset R)
         else Inr R)"

text \<open>Data that would leave the frame or the buffer is dropped.\<close>

definition eoe_store :: "bytes \<Rightarrow> u16 \<Rightarrow> eoe_rx \<Rightarrow> eoe_rx option" where
  "eoe_store MbxIn eoedatasize R =
     (if unat (rxframeoffset R) + unat eoedatasize \<le> unat (rxframesize R)
         \<and> uint (rxframeoffset R) + uint eoedatasize \<le> rx_psize R
      then do {
        d \<leftarrow> mem_read MbxIn OFF_eoe_data (unat eoedatasize);
        b \<leftarrow> mem_write (rx_buf R) (unat (rxframeoffset R)) d;
        Some (R\<lparr>rx_buf := b, rxframeoffset := rxframeoffset R + eoedatasize, rxfragmentno := rxfragmentno R + 1\<rparr>) }
      else Some R)"

definition eoe_complete :: "u16 \<Rightarrow> eoe_rx \<Rightarrow> eoe_rx" where
  "eoe_complete info1 R =
     (let off = (if EOE_TIME_GET info1 then rxframeoffset R - 4 else rxframeoffset R)
      in (eoe_reset R)\<lparr>rx_psize := uint off\<rparr>)"

definition ecx_EOEreadfragment :: "bytes \<Rightarrow> eoe_rx \<Rightarrow> (int \<times> eoe_rx) option" where
  "ecx_EOEreadfragment MbxIn R = do {
     ty \<leftarrow> get8 MbxIn OFF_mbxtype;
     if ty AND 0x0f = ECT_MBXT_EOE
     then do {
       len \<leftarrow> get16 MbxIn 0;
       info1 \<leftarrow> get16 MbxIn OFF_frameinfo1;
       info2 \<leftarrow> get16 MbxIn OFF_frameinfo2;
       let eoedatasize = len - 0x0004;
       case eoe_due info2 R of
         Inl R \<Rightarrow> Some (- EC_ERR_EOE_INVALID_RX_DATA, R)
       | Inr R \<Rightarrow> do {
           R \<leftarrow> eoe_store MbxIn eoedatasize R;
           Some (if EOE_LAST_GET info1 then (1, eoe_complete info1 R) else (0, R)) } }
     else Some (- EC_ERR_PACKET_ERROR, R) }"

end
