(* ===== verification/Eoe_Props.thy ===== *)
theory Eoe_Props
  imports Eoe Coe_Props
begin

text \<open>
  What the two directions of EoE mean to each other: the fragments \<open>ecx_EOEsend\<close> makes of a frame are
  put together again by \<open>ecx_EOEreadfragment\<close>.
\<close>

section \<open>The bytes of a message\<close>

lemma mem_write_append:
  "length xs = off \<Longrightarrow> length d \<le> length ys \<Longrightarrow> mem_write (xs @ ys) off d = Some (xs @ d @ drop (length d) ys)"
  by (simp add: mem_write_def)

lemma mem_read_append:
  "length xs = off \<Longrightarrow> n \<le> length ys \<Longrightarrow> mem_read (xs @ ys) off n = Some (take n ys)"
  by (simp add: mem_read_def)

lemma le_bytes_2: "le_bytes 2 (w :: u16) = [ucast w, ucast (drop_bit 8 w)]"
  by (simp add: le_bytes_def numeral_2_eq_2 One_nat_def)

lemma mbx_header_run:
  assumes "6 \<le> length m"
  shows "mbx_header ty len cnt m = Some (le_bytes 2 len @ [0, 0, 0, ty + push_bit 4 cnt] @ drop 6 m)"
proof -
  obtain a b c d e f r where "m = [a, b, c, d, e, f] @ r" using assms
    by (auto simp: Suc_le_length_iff numeral_eq_Suc)
  then show ?thesis
    by (simp add: mbx_header_def put16_def put8_def mem_write_def le_bytes_2)
qed

definition eoe_bytes :: "int \<Rightarrow> u16 \<Rightarrow> u16 \<Rightarrow> byte \<Rightarrow> bytes \<Rightarrow> bytes \<Rightarrow> bytes" where
  "eoe_bytes sz info1 info2 cnt data m =
     le_bytes 2 (of_int (4 + sz) :: u16) @ [0, 0, 0, ECT_MBXT_EOE + push_bit 4 cnt]
     @ le_bytes 2 info1 @ le_bytes 2 info2 @ data @ drop (10 + length data) m"

lemma eoe_message_run:
  assumes m: "nat sz + 10 \<le> length m" and off: "0 \<le> off" "0 \<le> sz" "off + sz \<le> int (length p)"
  shows "eoe_message sz info1 info2 cnt p off m = Some (eoe_bytes sz info1 info2 cnt (take (nat sz) (drop (nat off) p)) m)"
proof -
  obtain a0 a1 a2 a3 a4 a5 a6 a7 a8 a9 r where r: "m = [a0, a1, a2, a3, a4, a5, a6, a7, a8, a9] @ r"
    using m by (auto simp: Suc_le_length_iff numeral_eq_Suc)
  have d: "mem_copy p (nat off) sz = Some (take (nat sz) (drop (nat off) p))"
    using off by (simp add: mem_copy_def mem_read_def)
  have d10: "drop (10 + n) xs = drop n (drop 10 xs)" for n and xs :: bytes by (simp add: add.commute)
  show ?thesis
    using off m
    by (simp add: d10 del: drop_drop add: eoe_message_def mbx_header_def d put16_def put8_def mem_write_def le_bytes_2 eoe_bytes_def r)
qed

text \<open>The fields a reader finds in it.\<close>

lemma eoe_bytes_fields:
  assumes "int (length data) = sz" "nat sz + 10 \<le> length m"
  shows "length (eoe_bytes sz info1 info2 cnt data m) = length m"
    "get8 (eoe_bytes sz info1 info2 cnt data m) OFF_mbxtype = Some (ECT_MBXT_EOE + push_bit 4 cnt)"
    "get16 (eoe_bytes sz info1 info2 cnt data m) 0 = Some (of_int (4 + sz))"
    "get16 (eoe_bytes sz info1 info2 cnt data m) OFF_frameinfo1 = Some info1"
    "get16 (eoe_bytes sz info1 info2 cnt data m) OFF_frameinfo2 = Some info2"
    "mem_read (eoe_bytes sz info1 info2 cnt data m) OFF_eoe_data (nat sz) = Some data"
proof -
  have l: "le_word [ucast (w :: u16), ucast (drop_bit 8 w)] = w" for w
    using le16 [of w] by (simp add: le_bytes_2)
  have n: "nat sz = length data" using assms by simp
  show "length (eoe_bytes sz info1 info2 cnt data m) = length m" using assms by (simp add: eoe_bytes_def)
  show "get8 (eoe_bytes sz info1 info2 cnt data m) OFF_mbxtype = Some (ECT_MBXT_EOE + push_bit 4 cnt)"
    "get16 (eoe_bytes sz info1 info2 cnt data m) 0 = Some (of_int (4 + sz))"
    "get16 (eoe_bytes sz info1 info2 cnt data m) OFF_frameinfo1 = Some info1"
    "get16 (eoe_bytes sz info1 info2 cnt data m) OFF_frameinfo2 = Some info2"
    by (simp_all add: eoe_bytes_def le_bytes_2 get8_def aget_def get16_def mem_read_def l)
  show "mem_read (eoe_bytes sz info1 info2 cnt data m) OFF_eoe_data (nat sz) = Some data"
    by (simp add: eoe_bytes_def le_bytes_2 mem_read_def n)
qed

section \<open>The two words of frame information\<close>

lemma info2_fields:
  fixes a b d :: u16
  defines "w \<equiv> (a AND 0x3F) OR push_bit 6 (b AND 0x3F) OR push_bit 12 (d AND 0xF)"
  shows "w AND 0x3F = a AND 0x3F" "drop_bit 6 w AND 0x3F = b AND 0x3F" "drop_bit 12 w AND 0xF = d AND 0xF"
proof -
  have m: "(0x3F :: u16) = mask 6" "(0xF :: u16) = mask 4" by (simp_all add: mask_eq_exp_minus_1)
  show "w AND 0x3F = a AND 0x3F" "drop_bit 6 w AND 0x3F = b AND 0x3F" "drop_bit 12 w AND 0xF = d AND 0xF"
    unfolding w_def m by (rule bit_word_eqI; auto simp: bit_simps)+
qed

lemma and_mask_small:
  "unat (a :: u16) < 64 \<Longrightarrow> a AND 0x3F = a"
proof -
  assume a: "unat a < 64"
  have "(0x3F :: u16) = mask 6" by (simp add: mask_eq_exp_minus_1)
  then have "a AND 0x3F = take_bit 6 a" by (simp add: take_bit_eq_mask)
  also have "\<dots> = a"
    using a by (intro word_unat_eq_iff [THEN iffD2]) (simp add: unsigned_take_bit_eq take_bit_nat_eq_self)
  finally show ?thesis .
qed

lemma info1_fields:
  "EOE_LAST_GET (0x100 OR EOE_PORT_SET prt)" "\<not> EOE_LAST_GET (EOE_PORT_SET prt)"
  "\<not> EOE_TIME_GET (0x100 OR EOE_PORT_SET prt)" "\<not> EOE_TIME_GET (EOE_PORT_SET prt)"
proof -
  have m: "(0xF :: u16) = mask 4" "(0x100 :: u16) = push_bit 8 1" by (simp_all add: mask_eq_exp_minus_1)
  have b: "x AND 1 \<noteq> 0 \<longleftrightarrow> bit x 0" for x :: u16 by (simp add: and_one_eq bit_0 odd_iff_mod_2_eq_one)
  show "EOE_LAST_GET (0x100 OR EOE_PORT_SET prt)" "\<not> EOE_LAST_GET (EOE_PORT_SET prt)"
    "\<not> EOE_TIME_GET (0x100 OR EOE_PORT_SET prt)" "\<not> EOE_TIME_GET (EOE_PORT_SET prt)"
    unfolding EOE_LAST_GET_def EOE_TIME_GET_def EOE_PORT_SET_def b unfolding m
    by (auto simp: bit_simps)
qed

lemma mbx_type_nibble:
  fixes ty cnt :: byte
  assumes "unat ty < 16"
  shows "(ty + push_bit 4 cnt) AND 0x0f = ty"
proof -
  have m: "x AND 0x0f = take_bit 4 x" for x :: byte by (simp add: take_bit_eq_mask mask_eq_exp_minus_1)
  have ty: "take_bit 4 ty = ty"
    using assms by (intro word_unat_eq_iff [THEN iffD2]) (simp add: unsigned_take_bit_eq take_bit_nat_eq_self)
  have "take_bit 4 ty AND push_bit 4 cnt = 0"
    by (rule bit_word_eqI) (auto simp: bit_and_iff bit_take_bit_iff bit_push_bit_iff)
  then have "ty + push_bit 4 cnt = take_bit 4 ty OR push_bit 4 cnt"
    using ty disjunctive_add_eq_or [of "take_bit 4 ty" "push_bit 4 cnt"] by simp
  then have "take_bit 4 (ty + push_bit 4 cnt) = take_bit 4 ty"
    by (auto intro!: bit_word_eqI simp: bit_or_iff bit_take_bit_iff bit_push_bit_iff)
  then show ?thesis by (simp add: m ty)
qed

section \<open>A whole frame\<close>

text \<open>The messages \<open>ecx_EOEsend\<close> puts into its mailbox buffer for one frame, as long as the slave takes
  them; \<open>None\<close> when a fragment cannot be copied or the loop makes no progress.\<close>

function eoe_messages ::
  "int \<Rightarrow> byte \<Rightarrow> int \<Rightarrow> bytes \<Rightarrow> byte \<Rightarrow> byte \<Rightarrow> bytes \<Rightarrow> byte \<Rightarrow> int \<Rightarrow> bytes list option" where
  "eoe_messages maxdata prt psize p txframeno cnt m fragno off =
     (let (last, sz, info1, info2) = eoe_fragment maxdata prt psize txframeno fragno off
      in case eoe_message sz info1 info2 cnt p off m of
           None \<Rightarrow> None
         | Some msg \<Rightarrow>
             if last then Some [msg]
             else if sz \<le> 0 then None
             else map_option ((#) msg)
                    (eoe_messages maxdata prt psize p txframeno (ec_nextmbxcnt cnt) msg (fragno + 1) (off + sz)))"
  by pat_completeness auto
termination
  by (relation "measure (\<lambda>(_, _, psize, _, _, _, _, _, off). nat (psize - off))")
    (auto simp: eoe_fragment_def Let_def split: if_splits)

declare eoe_messages.simps [simp del]

text \<open>Handing messages to the fragment reader one after the other: its return values and its state.\<close>

fun eoe_feed :: "bytes list \<Rightarrow> eoe_rx \<Rightarrow> (int list \<times> eoe_rx) option" where
  "eoe_feed [] R = Some ([], R)"
| "eoe_feed (m # ms) R = do {
     (w, R) \<leftarrow> ecx_EOEreadfragment m R;
     (ws, R) \<leftarrow> eoe_feed ms R;
     Some (w # ws, R) }"

text \<open>The reader is in the middle of a frame: it waits for the fragment \<open>fragno\<close> at \<open>off\<close>.\<close>

definition midframe :: "bytes \<Rightarrow> int \<Rightarrow> byte \<Rightarrow> byte \<Rightarrow> int \<Rightarrow> eoe_rx \<Rightarrow> bool" where
  "midframe p psize txframeno fragno off R \<longleftrightarrow>
     rxfragmentno R = fragno
     \<and> (fragno = 0 \<longrightarrow> off = 0)
     \<and> (fragno \<noteq> 0 \<longrightarrow> rxframeoffset R = of_int off \<and> uint (rxframesize R) = (psize + 31) div 32 * 32
          \<and> rxframeno R = ucast txframeno AND 0xF)
     \<and> psize \<le> rx_psize R \<and> psize \<le> int (length (rx_buf R))
     \<and> take (nat off) (rx_buf R) = take (nat off) p"

lemma info2_small:
  assumes "unat fragno < 64" "0 \<le> x" "x < 64"
  shows "EOE_FRAG_GET (EOE_FRAG_SET fragno OR EOE_OFFSET_SET x OR EOE_FRAMENO_SET t) = ucast fragno"
    "EOE_OFFSET_GET (EOE_FRAG_SET fragno OR EOE_OFFSET_SET x OR EOE_FRAMENO_SET t) = of_int x"
    "EOE_FRAMENO_GET (EOE_FRAG_SET fragno OR EOE_OFFSET_SET x OR EOE_FRAMENO_SET t) = ucast t AND 0xF"
proof -
  have "uint (of_int x :: u16) = x" using assms(2,3) by (simp add: uint_word_of_int_eq take_bit_int_eq_self)
  then have x: "unat (of_int x :: u16) < 64" using assms(3) by (simp only: unat_eq_nat_uint nat_less_iff)
  have "unat (ucast fragno :: u16) = unat fragno" using assms(1) by (simp add: unsigned_ucast_eq take_bit_nat_eq_self)
  then have f: "unat (ucast fragno :: u16) < 64" using assms(1) by (simp only:)
  show "EOE_FRAG_GET (EOE_FRAG_SET fragno OR EOE_OFFSET_SET x OR EOE_FRAMENO_SET t) = ucast fragno"
    "EOE_OFFSET_GET (EOE_FRAG_SET fragno OR EOE_OFFSET_SET x OR EOE_FRAMENO_SET t) = of_int x"
    "EOE_FRAMENO_GET (EOE_FRAG_SET fragno OR EOE_OFFSET_SET x OR EOE_FRAMENO_SET t) = ucast t AND 0xF"
    using info2_fields [of "ucast fragno" "of_int x" "ucast t"]
    unfolding and_mask_small [OF x] and_mask_small [OF f] EOE_FRAG_GET_def EOE_OFFSET_GET_def EOE_FRAMENO_GET_def
      EOE_FRAG_SET_def EOE_OFFSET_SET_def EOE_FRAMENO_SET_def by (simp_all only:)
qed


text \<open>Reading one fragment of the sender: it is the one that is due, and its data fits.\<close>

lemma uint_of_int_u16: "0 \<le> x \<Longrightarrow> x < 65536 \<Longrightarrow> uint (of_int x :: u16) = x"
  by (simp add: uint_word_of_int_eq take_bit_int_eq_self)

lemma uint_shift5: "0 \<le> x \<Longrightarrow> x < 64 \<Longrightarrow> uint (push_bit 5 (of_int x :: u16)) = x * 32"
  using uint_of_int_u16 [of "x * 32"] by (simp add: push_bit_eq_mult)

lemma eoe_due_midframe:
  assumes info2: "info2 = EOE_FRAG_SET fragno
        OR EOE_OFFSET_SET (if 0 < fragno then off div 32 else (psize + 31) div 32) OR EOE_FRAMENO_SET t"
    and b: "0 \<le> off" "off \<le> psize" "psize \<le> 2016"
    and no: "unat fragno < 64" "0 < fragno \<longrightarrow> off mod 32 = 0"
    and R: "midframe p psize t fragno off R"
  shows "\<exists>R'. eoe_due info2 R = Inr R' \<and> rxfragmentno R' = fragno \<and> rxframeoffset R' = of_int off
     \<and> uint (rxframesize R') = (psize + 31) div 32 * 32 \<and> rxframeno R' = ucast t AND 0xF
     \<and> rx_psize R' = rx_psize R \<and> rx_buf R' = rx_buf R"
proof -
  let ?x = "if 0 < fragno then off div 32 else (psize + 31) div 32"
  have x: "0 \<le> ?x" "?x < 64" using b by auto
  note i = info2_small [OF no(1) x, of t, folded info2]
  have r: "rxfragmentno R = fragno" using R by (simp add: midframe_def)
  show ?thesis
  proof (cases "fragno = 0")
    case True
    then show ?thesis
      using R r x uint_shift5 [of "(psize + 31) div 32"] by (simp add: eoe_due_def i Let_def midframe_def)
  next
    case False
    then have "0 < fragno" by (simp add: word_neq_0_conv)
    moreover have "uint (of_int off :: u16) = off" "uint (of_int (off div 32) :: u16) = off div 32"
      using b by (auto intro!: uint_of_int_u16)
    moreover have "off div 32 * 32 = off" using no(2) calculation(1) by auto
    ultimately show ?thesis
      using R r False by (simp add: eoe_due_def i Let_def midframe_def)
  qed
qed

lemma eoe_store_midframe:
  assumes b: "0 \<le> off" "0 \<le> sz" "off + sz \<le> psize" "psize \<le> 2016"
    and d: "int (length data) = sz" and msg: "mem_read MbxIn OFF_eoe_data (nat sz) = Some data"
    and R: "rxframeoffset R = of_int off" "uint (rxframesize R) = (psize + 31) div 32 * 32"
      "psize \<le> rx_psize R" "psize \<le> int (length (rx_buf R))"
  shows "eoe_store MbxIn (of_int sz) R = Some (R\<lparr>rx_buf := take (nat off) (rx_buf R) @ data @ drop (nat off + nat sz) (rx_buf R),
           rxframeoffset := of_int (off + sz), rxfragmentno := rxfragmentno R + 1\<rparr>)"
proof -
  have u: "uint (of_int off :: u16) = off" "uint (of_int sz :: u16) = sz"
    using b by (auto intro!: uint_of_int_u16)
  have n: "unat (of_int off :: u16) = nat off" "unat (of_int sz :: u16) = nat sz"
    using u by (simp_all add: unat_eq_nat_uint)
  have "off + sz \<le> (psize + 31) div 32 * 32" using b by presburger
  then have "nat off + nat sz \<le> unat (rxframesize R)"
    using R(2) b by (simp add: unat_eq_nat_uint flip: nat_add_distrib)
  moreover have "mem_write (rx_buf R) (nat off) data
      = Some (take (nat off) (rx_buf R) @ data @ drop (nat off + nat sz) (rx_buf R))"
    using R(4) b d by (auto simp: mem_write_def)
  ultimately show ?thesis
    using b R msg by (simp add: eoe_store_def n u)
qed

lemma eoe_read_fragment:
  assumes frag: "eoe_fragment maxdata prt psize t fragno off = (fin, sz, info1, info2)"
    and b: "32 \<le> maxdata" "0 \<le> off" "off \<le> psize" "psize \<le> 2016" "psize \<le> int (length p)"
    and no: "unat fragno < 64" "0 < fragno \<longrightarrow> off mod 32 = 0"
    and m: "nat sz + 10 \<le> length m"
    and R: "midframe p psize t fragno off R"
  shows "\<exists>R'. ecx_EOEreadfragment (eoe_bytes sz info1 info2 cnt (take (nat sz) (drop (nat off) p)) m) R
               = Some (if fin then 1 else 0, R')
           \<and> length (rx_buf R') = length (rx_buf R)
           \<and> (if fin then rx_psize R' = psize \<and> rxfragmentno R' = 0 \<and> take (nat psize) (rx_buf R') = take (nat psize) p
              else midframe p psize t (fragno + 1) (off + sz) R')"
proof -
  let ?d = "take (nat sz) (drop (nat off) p)"
  have sz: "0 \<le> sz" "off + sz \<le> psize" "fin \<longleftrightarrow> off + sz = psize"
    and i1: "EOE_LAST_GET info1 = fin" "\<not> EOE_TIME_GET info1"
    and i2: "info2 = EOE_FRAG_SET fragno
        OR EOE_OFFSET_SET (if 0 < fragno then off div 32 else (psize + 31) div 32) OR EOE_FRAMENO_SET t"
    using frag b by (auto simp: eoe_fragment_def Let_def info1_fields split: if_splits)
  have d: "int (length ?d) = sz" using sz b by auto
  note f = eoe_bytes_fields [OF d m, of info1 info2 cnt]
  obtain R0 where due: "eoe_due info2 R = Inr R0" and r0: "rxfragmentno R0 = fragno" "rxframeoffset R0 = of_int off"
     "uint (rxframesize R0) = (psize + 31) div 32 * 32" "rxframeno R0 = ucast t AND 0xF"
     "rx_psize R0 = rx_psize R" "rx_buf R0 = rx_buf R"
    using eoe_due_midframe [OF i2 b(2-4) no R] by auto
  have rb: "psize \<le> rx_psize R" "psize \<le> int (length (rx_buf R))" "take (nat off) (rx_buf R) = take (nat off) p"
    using R by (simp_all add: midframe_def)
  note st = eoe_store_midframe [OF b(2) sz(1,2) b(4) d f(6) r0(2,3)]
  have len: "(of_int (4 + sz) :: u16) - 4 = of_int sz" by simp
  let ?R1 = "R0\<lparr>rx_buf := take (nat off) (rx_buf R0) @ ?d @ drop (nat off + nat sz) (rx_buf R0),
           rxframeoffset := of_int (off + sz), rxfragmentno := rxfragmentno R0 + 1\<rparr>"
  have run: "ecx_EOEreadfragment (eoe_bytes sz info1 info2 cnt ?d m) R
      = Some (if fin then (1, eoe_complete info1 ?R1) else (0, ?R1))"
    using rb st r0 by (simp add: ecx_EOEreadfragment_def f due mbx_type_nibble len i1)
  have buf: "take (nat (off + sz)) (rx_buf ?R1) = take (nat (off + sz)) p"
  proof -
    obtain j k where jk: "off = int j" "sz = int k" using b(2) sz(1) by (metis nonneg_int_cases)
    have "k \<le> length p - j" "j \<le> length (rx_buf R)" "j \<le> length p" using rb b sz by (simp_all add: jk)
    then show ?thesis using rb(3) by (simp add: r0 jk nat_int_add take_add)
  qed
  have lb: "length (rx_buf ?R1) = length (rx_buf R)"
    using rb(2) b(2) sz d by (simp add: r0)
  have n1: "fragno + 1 \<noteq> 0"
  proof
    assume "fragno + 1 = 0"
    then have "unat (fragno + 1) = 0" by (simp only: unat_0)
    then show False using no(1) by (simp add: unat_word_ariths)
  qed
  show ?thesis
  proof (cases fin)
    case True
    have "uint (of_int psize :: u16) = psize" using b by (intro uint_of_int_u16) auto
    then show ?thesis
      using True buf lb i1(2) sz(3) by (simp add: run eoe_complete_def eoe_reset_def)
  next
    case False
    have "midframe p psize t (fragno + 1) (off + sz) ?R1"
      unfolding midframe_def
    proof (intro conjI impI)
      show "off + sz = 0" if "fragno + 1 = 0" using n1 that by contradiction
      show "take (nat (off + sz)) (rx_buf ?R1) = take (nat (off + sz)) p" by (rule buf)
      show "psize \<le> int (length (rx_buf ?R1))" using rb(2) unfolding lb .
    qed (simp_all add: r0 rb(1))
    then show ?thesis using False lb by (intro exI [of _ ?R1]) (simp only: run if_False)
  qed
qed


lemma eoe_feed_messages:
  assumes b: "32 \<le> maxdata" "maxdata \<le> int EC_MAXMBX - 9" "0 \<le> off" "off \<le> psize" "psize \<le> 2016"
      "psize \<le> int (length p)" "length m = EC_MAXMBX + 1"
    and no: "32 * int (unat fragno) \<le> off" "off mod 32 = 0"
    and R: "midframe p psize t fragno off R"
  shows "\<exists>ms R'. eoe_messages maxdata prt psize p t cnt m fragno off = Some ms
     \<and> eoe_feed ms R = Some (replicate (length ms - 1) 0 @ [1], R') \<and> ms \<noteq> []
     \<and> rx_psize R' = psize \<and> rxfragmentno R' = 0 \<and> length (rx_buf R') = length (rx_buf R)
     \<and> take (nat psize) (rx_buf R') = take (nat psize) p"
  using b no R
proof (induction maxdata prt psize p t cnt m fragno off arbitrary: R rule: eoe_messages.induct)
  case (1 maxdata prt psize p t cnt m fragno off)
  obtain fin sz info1 info2 where frag: "eoe_fragment maxdata prt psize t fragno off = (fin, sz, info1, info2)"
    by (metis prod_cases4)
  have sz: "0 \<le> sz" "sz \<le> maxdata" "off + sz \<le> psize" "\<not> fin \<longrightarrow> 32 \<le> sz \<and> sz mod 32 = 0"
    using frag "1.prems"(1-4) by (auto simp: eoe_fragment_def Let_def split: if_splits)
  have fr: "unat fragno < 64" using "1.prems" by linarith
  have m: "nat sz + 10 \<le> length m" using sz "1.prems" by simp
  let ?msg = "eoe_bytes sz info1 info2 cnt (take (nat sz) (drop (nat off) p)) m"
  have msg: "eoe_message sz info1 info2 cnt p off m = Some ?msg"
    using sz(3) "1.prems"(6) by (intro eoe_message_run [OF m "1.prems"(3) sz(1)]) simp
  have d: "int (length (take (nat sz) (drop (nat off) p))) = sz"
    using sz(1,3) "1.prems"(3,6) by auto
  have ml: "length ?msg = EC_MAXMBX + 1"
    using eoe_bytes_fields(1) [OF d m] "1.prems"(7) by simp
  obtain R1 where r1: "ecx_EOEreadfragment ?msg R = Some (if fin then 1 else 0, R1)"
      "length (rx_buf R1) = length (rx_buf R)"
      "if fin then rx_psize R1 = psize \<and> rxfragmentno R1 = 0 \<and> take (nat psize) (rx_buf R1) = take (nat psize) p
       else midframe p psize t (fragno + 1) (off + sz) R1"
    using eoe_read_fragment [OF frag "1.prems"(1,3-6) fr _ m "1.prems"(10), of cnt] "1.prems"(9) by blast
  show ?case
  proof (cases fin)
    case True
    then show ?thesis
      using r1 by (intro exI [of _ "[?msg]"] exI [of _ R1]) (simp add: eoe_messages.simps frag msg)
  next
    case False
    then have sz32: "32 \<le> sz" "sz mod 32 = 0" using sz(4) by auto
    have "unat (fragno + 1) = unat fragno + 1"
      using fr by (simp add: unat_word_ariths)
    then have next_no: "32 * int (unat (fragno + 1)) \<le> off + sz" "(off + sz) mod 32 = 0"
      using "1.prems" sz32 by auto
    obtain ms R' where ih: "eoe_messages maxdata prt psize p t (ec_nextmbxcnt cnt) ?msg (fragno + 1) (off + sz) = Some ms"
        "eoe_feed ms R1 = Some (replicate (length ms - 1) 0 @ [1], R')" "ms \<noteq> []"
        "rx_psize R' = psize" "rxfragmentno R' = 0" "length (rx_buf R') = length (rx_buf R1)"
        "take (nat psize) (rx_buf R') = take (nat psize) p"
      using "1.IH" [OF frag [symmetric] refl refl refl msg False, of R1] sz sz32 ml next_no r1 False "1.prems"
      by auto
    have "replicate (length (?msg # ms) - 1) 0 = (0 :: int) # replicate (length ms - 1) 0"
      using ih(3) by (cases ms) simp_all
    then show ?thesis
      using ih r1 False sz32 by (intro exI [of _ "?msg # ms"] exI [of _ R']) (simp add: eoe_messages.simps frag msg)
  qed
qed

text \<open> C11: EoE transports frames unchanged. A frame of up to 2016 bytes, cut into the fragments
  \<open>ecx_EOEsend\<close> makes of it for a mailbox of at least 42 bytes, is put together again by
  \<open>ecx_EOEreadfragment\<close>: every fragment but the last is acknowledged with 0, the last with 1, and then
  the size and the bytes in the receiver's buffer are those of the frame that was sent, and the reader
  is ready for the next frame. \<close>

theorem eoe_roundtrip:
  assumes "32 \<le> maxdata" "maxdata \<le> int EC_MAXMBX - 9" "0 \<le> psize" "psize \<le> 2016" "psize \<le> int (length p)"
    and "length m = EC_MAXMBX + 1"
    and "rxfragmentno R = 0" "psize \<le> rx_psize R" "psize \<le> int (length (rx_buf R))"
  shows "\<exists>ms R'. eoe_messages maxdata prt psize p t cnt m 0 0 = Some ms
     \<and> eoe_feed ms R = Some (replicate (length ms - 1) 0 @ [1], R')
     \<and> rx_psize R' = psize \<and> rxfragmentno R' = 0
     \<and> take (nat psize) (rx_buf R') = take (nat psize) p"
proof -
  have "midframe p psize t 0 0 R" using assms by (simp add: midframe_def)
  from eoe_feed_messages [OF assms(1,2) _ assms(3-6) _ _ this, where prt = prt and cnt = cnt] show ?thesis by auto
qed

theorem eoe_roundtrip_witness:
  "\<exists>ms R'. eoe_messages 32 1 40 (replicate 40 7) 3 1 new_mbx 0 0 = Some ms
     \<and> eoe_feed ms \<lparr>rxfragmentno = 0, rxframesize = 9, rxframeoffset = 9, rxframeno = 9,
          rx_psize = 1500, rx_buf = replicate 1500 0\<rparr> = Some (replicate (length ms - 1) 0 @ [1], R')
     \<and> rx_psize R' = 40 \<and> rxfragmentno R' = 0
     \<and> take 40 (rx_buf R') = replicate 40 7"
  using eoe_roundtrip [of 32 40 "replicate 40 7" new_mbx
      "\<lparr>rxfragmentno = 0, rxframesize = 9, rxframeoffset = 9, rxframeno = 9, rx_psize = 1500, rx_buf = replicate 1500 0\<rparr>" 1 3 1]
  by (simp add: new_mbx_def)


section \<open>Sending on any bus\<close>

definition eoe_sending :: "ecx_contextt \<Rightarrow> int \<Rightarrow> bool \<times> int \<times> bytes \<times> byte \<times> byte \<times> int \<times> ecx_contextt \<Rightarrow> bool" where
  "eoe_sending c0 psize = (\<lambda>(more, w, m, t, fragno, off, c). evolves c0 c \<and> length m = EC_MAXMBX + 1
     \<and> 0 \<le> off \<and> off \<le> psize)"

lemma eoe_send_round_wp:
  assumes S: "eoe_sending c0 psize s" and i: "unat slave < EC_MAXSLAVE"
    and b: "32 \<le> maxdata" "maxdata \<le> int EC_MAXMBX - 9" "psize \<le> int (length p)"
  shows "ret (eoe_send_round slave prt psize p timeout maxdata s) (\<lambda>t. eoe_sending c0 psize t
     \<and> (fst t \<longrightarrow> (case (s, t) of ((_, _, _, _, _, off, _), (_, _, _, _, _, off2, _)) \<Rightarrow> off < off2)))"
proof -
  obtain more w m t fragno off c where s: "s = (more, w, m, t, fragno, off, c)" by (cases s) auto
  have k: "evolves c0 c" and m: "length m = EC_MAXMBX + 1" and o: "0 \<le> off" "off \<le> psize"
    using S by (auto simp: s eoe_sending_def)
  let ?t = "if 0 < fragno then t else t + 1"
  obtain fin sz info1 info2 where frag: "eoe_fragment maxdata prt psize ?t fragno off = (fin, sz, info1, info2)"
    by (metis prod_cases4)
  have sz: "0 \<le> sz" "sz \<le> maxdata" "off + sz \<le> psize" "\<not> fin \<longrightarrow> 0 < sz"
    using frag o b by (auto simp: eoe_fragment_def Let_def split: if_splits)
  have m10: "nat sz + 10 \<le> length m" and le: "off + sz \<le> int (length p)" using sz b m by auto
  have d: "int (length (take (nat sz) (drop (nat off) p))) = sz" using sz(1) o le by auto
  have ml: "length (eoe_bytes sz info1 info2 cnt (take (nat sz) (drop (nat off) p)) m) = EC_MAXMBX + 1" for cnt
    using eoe_bytes_fields(1) [OF d m10] m by simp
  show ?thesis
    unfolding s eoe_send_round_def prod.case Let_def frag ret_step
    apply (rule mbx_session_wp [OF k i])
    apply (simp only: ret_step eoe_message_run [OF m10 o(1) sz(1) le])
    apply (rule mbxsend_wp [OF _ i ml], assumption)
    using ml o sz by (auto simp: eoe_sending_def)
qed

text \<open>Sending a frame over EoE is safe on every bus. Towards a slave whose mailbox holds between 42
  and 1487 bytes, \<open>ecx_EOEsend\<close> returns whatever the slave and the wire answer: the loop over the
  fragments ends, no memory outside the mailbox buffer and the caller's frame is touched, and the
  master stays well formed. (With a smaller mailbox the fragments are empty and the loop goes on.) \<close>

theorem EOEsend_safe:
  assumes "ctx_ok c" and i: "unat slave < EC_MAXSLAVE"
    and l: "42 \<le> unat (mbx_l (slavelist c ! unat slave))" "unat (mbx_l (slavelist c ! unat slave)) \<le> EC_MAXMBX + 1"
    and "0 \<le> psize" "psize \<le> int (length p)"
  shows "ret (ecx_EOEsend slave prt psize p timeout txframeno c) (\<lambda>(w, t, d). evolves c d)"
proof -
  have k: "evolves c c" using assms(1) by (rule evolves_refl)
  let ?l = "mbx_l (slavelist c ! unat slave)"
  have b: "32 \<le> uint ?l - 0x0A" "uint ?l - 0x0A \<le> int EC_MAXMBX - 9"
    using l by (simp_all only: uint_nat)
  show ?thesis
    unfolding ecx_EOEsend_def ret_step
    apply (rule ec_clearmbx_wp, simp)
    apply (rule slave_at_wp [OF k i])
    apply (simp only: ret_step)
    subgoal for m s
      apply (rule do_while_ret [where I = "eoe_sending c psize"
          and m = "\<lambda>(_, _, _, _, _, off, _). nat (psize - off)"])
      subgoal for s
        apply (rule eoe_send_round_wp [OF _ i b assms(6), THEN ret_conseq], assumption)
        by (cases s) (auto simp: eoe_sending_def)
      using assms(5) k by (simp add: eoe_sending_def)
    done
qed

theorem EOEsend_safe_witness:
  "ret (ecx_EOEsend 1 0 300 (replicate 300 5) 2000 0 demo_coe) (\<lambda>(w, t, d). evolves demo_coe d)"
  using EOEsend_safe [OF demo_coe_ok, of 1 300 "replicate 300 5"] by (simp add: demo_coe_def)

end
