(* ===== verification/Coe_Pdo.thy ===== *)
theory Coe_Pdo
  imports Coe_Sdo "HOL-Library.Signed_Division"
begin

text \<open>
  The process data mapping and the object dictionary of a slave over CoE
  (\<open>soem_lib/soem/ethercatcoe.c\<close>): \<open>ecx_readPDOassign\<close>, \<open>ecx_readPDOmap\<close> and their complete-access
  variants, \<open>ecx_readODlist\<close>, \<open>ecx_readODdescription\<close>, \<open>ecx_readOEsingle\<close> and \<open>ecx_readOE\<close>.
\<close>

abbreviation (input) ECT_SDO_SMCOMMTYPE :: u16 where "ECT_SDO_SMCOMMTYPE \<equiv> 0x1c00"
abbreviation (input) ECT_SDO_PDOASSIGN :: u16 where "ECT_SDO_PDOASSIGN \<equiv> 0x1c10"
abbreviation (input) EC_SMENABLEMASK :: u32 where "EC_SMENABLEMASK \<equiv> 0xfffeffff"
abbreviation (input) EC_MAXODLIST :: nat where "EC_MAXODLIST \<equiv> 1024"
abbreviation (input) EC_MAXOELIST :: nat where "EC_MAXOELIST \<equiv> 256"
abbreviation (input) ECT_GET_ODLIST_REQ :: byte where "ECT_GET_ODLIST_REQ \<equiv> 1"
abbreviation (input) ECT_GET_ODLIST_RES :: byte where "ECT_GET_ODLIST_RES \<equiv> 2"
abbreviation (input) ECT_GET_OD_REQ :: byte where "ECT_GET_OD_REQ \<equiv> 3"
abbreviation (input) ECT_GET_OD_RES :: byte where "ECT_GET_OD_RES \<equiv> 4"
abbreviation (input) ECT_GET_OE_REQ :: byte where "ECT_GET_OE_REQ \<equiv> 5"
abbreviation (input) ECT_GET_OE_RES :: byte where "ECT_GET_OE_RES \<equiv> 6"
abbreviation (input) ECT_SDOINFO_ERROR :: byte where "ECT_SDOINFO_ERROR \<equiv> 7"

section \<open>Reading small objects\<close>

text \<open>\<open>for (i = 1; i <= n; i++)\<close> with 16-bit \<open>i\<close> and \<open>n\<close>: it never ends when \<open>n\<close> is the largest.\<close>

definition for_word :: "(u16 \<Rightarrow> 's \<Rightarrow> 's option) \<Rightarrow> u16 \<Rightarrow> 's \<Rightarrow> 's option" where
  "for_word body n s = do {
     (_, s) \<leftarrow> while_do (\<lambda>(i, s). i \<le> n) (\<lambda>(i, s). do { s \<leftarrow> body i s; Some (i + 1, s) }) (1, s);
     Some s }"

text \<open>\<open>rdl = sizeof(x); x = 0; wkc = ecx_SDOread(\<dots>, FALSE, &rdl, &x, EC_TIMEOUTRXM)\<close> for a variable
  of \<open>n\<close> bytes.\<close>

definition sdo_value :: "nat \<Rightarrow> u16 \<Rightarrow> u16 \<Rightarrow> byte \<Rightarrow> ecx_contextt \<Rightarrow> (int \<times> 'a::len word \<times> ecx_contextt) option" where
  "sdo_value n slave index subindex c = do {
     (wkc, _, d, c) \<leftarrow> ecx_SDOread slave index subindex False (int n) (replicate n 0) EC_TIMEOUTRXM c;
     Some (wkc, le_word d, c) }"

section \<open>PDO assignment\<close>

definition pdo_entry :: "u16 \<Rightarrow> u16 \<Rightarrow> u16 \<Rightarrow> u32 \<times> ecx_contextt \<Rightarrow> (u32 \<times> ecx_contextt) option" where
  "pdo_entry slave idx subidxloop = (\<lambda>(bsize, c). do {
     (_, rdat2, c) \<leftarrow> sdo_value 4 slave idx (ucast subidxloop) c;
     let lo = (rdat2 :: u32) AND 0x00ff;
     Some (if lo < 0xff then bsize + lo else bsize + 0xff, c) })"

definition pdo_assigned :: "u16 \<Rightarrow> u16 \<Rightarrow> u16 \<Rightarrow> u32 \<times> ecx_contextt \<Rightarrow> (u32 \<times> ecx_contextt) option" where
  "pdo_assigned slave assign idxloop = (\<lambda>(bsize, c). do {
     (_, idx, c) \<leftarrow> sdo_value 2 slave assign (ucast idxloop) c;
     if 0 < idx
     then do {
       (_, subcnt, c) \<leftarrow> sdo_value 1 slave idx 0x00 c;
       for_word (pdo_entry slave idx) (ucast (subcnt :: byte)) (bsize, c) }
     else Some (bsize, c) })"

definition ecx_readPDOassign :: "u16 \<Rightarrow> u16 \<Rightarrow> ecx_contextt \<Rightarrow> (u32 \<times> ecx_contextt) option" where
  "ecx_readPDOassign slave assign c = do {
     (wkc, rdat, c) \<leftarrow> sdo_value 2 slave assign 0x00 c;
     if 0 < wkc \<and> 0 < rdat then for_word (pdo_assigned slave assign) rdat (0, c)
     else Some (0, c) }"

text \<open>The buffers of complete access as bytes: a count, a byte of padding, and the entries. The padding
  is read by nobody.\<close>

definition assign_bytes :: "ec_PDOassignt \<Rightarrow> bytes" where
  "assign_bytes m = [n_PDOassign m, 0] @ concat (map (le_bytes 2) (PDOassign_index m))"

definition bytes_assign :: "bytes \<Rightarrow> ec_PDOassignt" where
  "bytes_assign b = \<lparr>n_PDOassign = b ! 0,
     PDOassign_index = map (\<lambda>i. le_word (take 2 (drop (2 + 2 * i) b))) [0..<256]\<rparr>"

definition desc_bytes :: "ec_PDOdesct \<Rightarrow> bytes" where
  "desc_bytes m = [n_PDOdesc m, 0] @ concat (map (le_bytes 4) (PDOdesc_PDO m))"

definition bytes_desc :: "bytes \<Rightarrow> ec_PDOdesct" where
  "bytes_desc b = \<lparr>n_PDOdesc = b ! 0,
     PDOdesc_PDO = map (\<lambda>i. le_word (take 4 (drop (2 + 4 * i) b))) [0..<256]\<rparr>"

definition comm_bytes :: "ec_SMcommtypet \<Rightarrow> bytes" where
  "comm_bytes m = [n_SMcomm m, 0] @ SMcomm m"

definition bytes_comm :: "bytes \<Rightarrow> ec_SMcommtypet" where
  "bytes_comm b = \<lparr>n_SMcomm = b ! 0, SMcomm = take EC_MAXSM (drop 2 b)\<rparr>"

text \<open>Reading an object with complete access into the thread's \<open>PDOassign\<close>, \<open>PDOdesc\<close> or
  \<open>SMcommtype\<close>, whose count is zeroed before.\<close>

definition sdo_assignCA :: "u16 \<Rightarrow> nat \<Rightarrow> u16 \<Rightarrow> ecx_contextt \<Rightarrow> (int \<times> ec_PDOassignt \<times> ecx_contextt) option" where
  "sdo_assignCA slave Thread_n assign c = do {
     m \<leftarrow> aget (PDOassign c) Thread_n;
     (wkc, _, b, c) \<leftarrow> ecx_SDOread slave assign 0x00 True 514 (assign_bytes (m\<lparr>n_PDOassign := 0\<rparr>)) EC_TIMEOUTRXM c;
     ms \<leftarrow> aset (PDOassign c) Thread_n (bytes_assign b);
     Some (wkc, bytes_assign b, c\<lparr>PDOassign := ms\<rparr>) }"

definition sdo_descCA :: "u16 \<Rightarrow> nat \<Rightarrow> u16 \<Rightarrow> ecx_contextt \<Rightarrow> (int \<times> ec_PDOdesct \<times> ecx_contextt) option" where
  "sdo_descCA slave Thread_n idx c = do {
     m \<leftarrow> aget (PDOdesc c) Thread_n;
     (wkc, _, b, c) \<leftarrow> ecx_SDOread slave idx 0x00 True 1026 (desc_bytes (m\<lparr>n_PDOdesc := 0\<rparr>)) EC_TIMEOUTRXM c;
     ms \<leftarrow> aset (PDOdesc c) Thread_n (bytes_desc b);
     Some (wkc, bytes_desc b, c\<lparr>PDOdesc := ms\<rparr>) }"

definition sdo_commCA :: "u16 \<Rightarrow> nat \<Rightarrow> ecx_contextt \<Rightarrow> (int \<times> ec_SMcommtypet \<times> ecx_contextt) option" where
  "sdo_commCA slave Thread_n c = do {
     m \<leftarrow> aget (SMcommtype c) Thread_n;
     (wkc, _, b, c) \<leftarrow> ecx_SDOread slave ECT_SDO_SMCOMMTYPE 0x00 True 10 (comm_bytes (m\<lparr>n_SMcomm := 0\<rparr>)) EC_TIMEOUTRXM c;
     ms \<leftarrow> aset (SMcommtype c) Thread_n (bytes_comm b);
     Some (wkc, bytes_comm b, c\<lparr>SMcommtype := ms\<rparr>) }"

definition pdo_assignedCA ::
  "u16 \<Rightarrow> nat \<Rightarrow> ec_PDOassignt \<Rightarrow> u16 \<Rightarrow> u32 \<times> ecx_contextt \<Rightarrow> (u32 \<times> ecx_contextt) option" where
  "pdo_assignedCA slave Thread_n m idxloop = (\<lambda>(bsize, c). do {
     idx \<leftarrow> aget (PDOassign_index m) (unat idxloop - 1);
     if 0 < idx
     then do {
       (_, d, c) \<leftarrow> sdo_descCA slave Thread_n idx c;
       bsize \<leftarrow> for_word (\<lambda>i bsize. do {
           e \<leftarrow> aget (PDOdesc_PDO d) (unat i - 1);
           Some (bsize + (e AND 0x00ff)) }) (ucast (n_PDOdesc d)) bsize;
       Some (bsize, c) }
     else Some (bsize, c) })"

definition ecx_readPDOassignCA :: "u16 \<Rightarrow> nat \<Rightarrow> u16 \<Rightarrow> ecx_contextt \<Rightarrow> (u32 \<times> ecx_contextt) option" where
  "ecx_readPDOassignCA slave Thread_n assign c = do {
     (wkc, m, c) \<leftarrow> sdo_assignCA slave Thread_n assign c;
     if 0 < wkc \<and> 0 < n_PDOassign m
     then for_word (pdo_assignedCA slave Thread_n m) (ucast (n_PDOassign m)) (0, c)
     else Some (0, c) }"

section \<open>The mapping\<close>

definition upd_SM :: "u16 \<Rightarrow> nat \<Rightarrow> (ec_smt \<Rightarrow> ec_smt) \<Rightarrow> ecx_contextt \<Rightarrow> ecx_contextt option" where
  "upd_SM slave i f c = do {
     s \<leftarrow> slave_at slave c;
     m \<leftarrow> aget (SM s) i;
     ms \<leftarrow> aset (SM s) i (f m);
     set_slave slave (s\<lparr>SM := ms\<rparr>) c }"

definition set_SMtype :: "u16 \<Rightarrow> nat \<Rightarrow> byte \<Rightarrow> ecx_contextt \<Rightarrow> ecx_contextt option" where
  "set_SMtype slave i t c = do {
     s \<leftarrow> slave_at slave c;
     ts \<leftarrow> aset (SMtype s) i t;
     set_slave slave (s\<lparr>SMtype := ts\<rparr>) c }"

text \<open>One sync manager of known type: \<open>assign\<close> reads the bits assigned to it.\<close>

definition pdo_map_sm ::
  "(u16 \<Rightarrow> ecx_contextt \<Rightarrow> (u32 \<times> ecx_contextt) option) \<Rightarrow> u16 \<Rightarrow> nat \<Rightarrow> byte \<Rightarrow>
     u32 \<times> u32 \<times> ecx_contextt \<Rightarrow> (u32 \<times> u32 \<times> ecx_contextt) option" where
  "pdo_map_sm assign slave iSM tSM = (\<lambda>(Osize, Isize, c). do {
     c \<leftarrow> set_SMtype slave iSM tSM c;
     c \<leftarrow> (if tSM = 0 then upd_SM slave iSM (\<lambda>m. m\<lparr>SMflags := SMflags m AND EC_SMENABLEMASK\<rparr>) c else Some c);
     if tSM = 3 \<or> tSM = 4
     then do {
       (Tsize, c) \<leftarrow> assign (ECT_SDO_PDOASSIGN + of_nat iSM) c;
       if Tsize \<noteq> 0
       then do {
         c \<leftarrow> upd_SM slave iSM (\<lambda>m. m\<lparr>SMlength := ucast ((Tsize + 7) div 8)\<rparr>) c;
         Some (if tSM = 3 then (Osize + Tsize, Isize, c) else (Osize, Isize + Tsize, c)) }
       else Some (Osize, Isize, c) }
     else Some (Osize, Isize, c) })"

text \<open>The type a slave reports, corrected for slaves that count their sync managers from zero
  (\<open>bug_add\<close> is \<open>SMt_bug_add\<close>) and, in the plain variant, for SM2 and SM3 of type zero.\<close>

definition sm_bug_add :: "nat \<Rightarrow> byte \<Rightarrow> byte \<Rightarrow> byte" where
  "sm_bug_add iSM tSM bug_add = (if iSM = 2 \<and> tSM = 2 then 1 else bug_add)"

definition sm_type :: "byte \<Rightarrow> byte \<Rightarrow> byte" where
  "sm_type bug_add tSM = (if tSM \<noteq> 0 then tSM + bug_add else tSM)"

definition sm_type_zero :: "nat \<Rightarrow> byte \<Rightarrow> byte" where
  "sm_type_zero iSM tSM =
     (let tSM = (if iSM = 2 \<and> tSM = 0 then 3 else tSM)
      in if iSM = 3 \<and> tSM = 0 then 4 else tSM)"

definition readPDOmap_sm ::
  "u16 \<Rightarrow> nat \<Rightarrow> byte \<times> u32 \<times> u32 \<times> ecx_contextt \<Rightarrow> (byte \<times> u32 \<times> u32 \<times> ecx_contextt) option" where
  "readPDOmap_sm slave iSM = (\<lambda>(bug_add, Osize, Isize, c). do {
     (wkc, tSM, c) \<leftarrow> sdo_value 1 slave ECT_SDO_SMCOMMTYPE (of_nat (iSM + 1)) c;
     if 0 < wkc
     then do {
       let bug_add = sm_bug_add iSM tSM bug_add;
       let tSM = sm_type_zero iSM (sm_type bug_add tSM);
       (Osize, Isize, c) \<leftarrow> pdo_map_sm (ecx_readPDOassign slave) slave iSM tSM (Osize, Isize, c);
       Some (bug_add, Osize, Isize, c) }
     else Some (bug_add, Osize, Isize, c) })"

text \<open>The result: whether a mapping was found, and the sizes of outputs and inputs in bits.\<close>

definition ecx_readPDOmap :: "u16 \<Rightarrow> ecx_contextt \<Rightarrow> (int \<times> u32 \<times> u32 \<times> ecx_contextt) option" where
  "ecx_readPDOmap slave c = do {
     (wkc, nSM, c) \<leftarrow> sdo_value 1 slave ECT_SDO_SMCOMMTYPE 0x00 c;
     (_, Osize, Isize, c) \<leftarrow>
       (if 0 < wkc \<and> 2 < (nSM :: byte)
        then for_each (readPDOmap_sm slave) [2..<min (unat nSM) EC_MAXSM] (0, 0, 0, c)
        else Some (0, 0, 0, c));
     Some (if 0 < Isize \<or> 0 < Osize then 1 else 0, Osize, Isize, c) }"

definition readPDOmapCA_sm ::
  "u16 \<Rightarrow> nat \<Rightarrow> nat \<Rightarrow> byte \<times> u32 \<times> u32 \<times> ecx_contextt \<Rightarrow> (byte \<times> u32 \<times> u32 \<times> ecx_contextt) option" where
  "readPDOmapCA_sm slave Thread_n iSM = (\<lambda>(bug_add, Osize, Isize, c). do {
     m \<leftarrow> aget (SMcommtype c) Thread_n;
     tSM \<leftarrow> aget (SMcomm m) iSM;
     let bug_add = sm_bug_add iSM tSM bug_add;
     let tSM = sm_type bug_add tSM;
     (Osize, Isize, c) \<leftarrow> pdo_map_sm (ecx_readPDOassignCA slave Thread_n) slave iSM tSM (Osize, Isize, c);
     Some (bug_add, Osize, Isize, c) })"

definition ecx_readPDOmapCA :: "u16 \<Rightarrow> nat \<Rightarrow> ecx_contextt \<Rightarrow> (int \<times> u32 \<times> u32 \<times> ecx_contextt) option" where
  "ecx_readPDOmapCA slave Thread_n c = do {
     (wkc, m, c) \<leftarrow> sdo_commCA slave Thread_n c;
     (_, Osize, Isize, c) \<leftarrow>
       (if 0 < wkc \<and> 2 < n_SMcomm m
        then do {
          c \<leftarrow> (if EC_MAXSM < unat (n_SMcomm m) then ecx_packeterror slave 0 0 10 c else Some c);
          for_each (readPDOmapCA_sm slave Thread_n) [2..<min (unat (n_SMcomm m)) EC_MAXSM] (0, 0, 0, c) }
        else Some (0, 0, 0, c));
     Some (if 0 < Isize \<or> 0 < Osize then 1 else 0, Osize, Isize, c) }"

section \<open>The object dictionary\<close>

text \<open>\<open>ec_SDOservicet\<close>: operation code at byte 8, fragments left at 10, data from 12.\<close>

abbreviation (input) OFF_Opcode :: nat where "OFF_Opcode \<equiv> 8"
abbreviation (input) OFF_Reserved :: nat where "OFF_Reserved \<equiv> 9"
abbreviation (input) OFF_Fragments :: nat where "OFF_Fragments \<equiv> 10"
abbreviation (input) OFF_bdata :: nat where "OFF_bdata \<equiv> 12"

record ec_ODlistt =
  od_Slave :: u16
  od_Entries :: u16
  od_Index :: "u16 list"
  od_DataType :: "u16 list"
  od_ObjectCode :: bytes
  od_MaxSub :: bytes
  od_Name :: "bytes list"

record ec_OElistt =
  oe_Entries :: u16
  oe_ValueInfo :: bytes
  oe_DataType :: "u16 list"
  oe_BitLength :: "u16 list"
  oe_ObjAccess :: "u16 list"
  oe_Name :: "bytes list"

definition sdo_info_request :: "u16 \<Rightarrow> byte \<Rightarrow> byte \<Rightarrow> u16 \<Rightarrow> bytes \<Rightarrow> bytes option" where
  "sdo_info_request len cnt opcode w Mbx = do {
     Mbx \<leftarrow> mbx_header ECT_MBXT_COE len cnt Mbx;
     Mbx \<leftarrow> put16 Mbx OFF_CANOpen (push_bit 12 ECT_COES_SDOINFO);
     Mbx \<leftarrow> put8 Mbx OFF_Opcode opcode;
     Mbx \<leftarrow> put8 Mbx OFF_Reserved 0;
     Mbx \<leftarrow> put16 Mbx OFF_Fragments 0;
     put16 Mbx OFF_bdata w }"

text \<open>Is the answer of protocol CoE with the given operation code?\<close>

definition info_answer :: "byte \<Rightarrow> bytes \<Rightarrow> bool option" where
  "info_answer opcode MbxIn = do {
     ty \<leftarrow> get8 MbxIn OFF_mbxtype;
     op \<leftarrow> get8 MbxIn OFF_Opcode;
     Some (ty AND 0x0f = ECT_MBXT_COE \<and> op AND 0x7f = opcode) }"

text \<open>Any other answer; the result is whether it was an SDO information error.\<close>

definition info_refused :: "u16 \<Rightarrow> u16 \<Rightarrow> byte \<Rightarrow> bytes \<Rightarrow> ecx_contextt \<Rightarrow> ecx_contextt option" where
  "info_refused slave index subindex MbxIn c = do {
     op \<leftarrow> get8 MbxIn OFF_Opcode;
     if op AND 0x7f = ECT_SDOINFO_ERROR
     then do {
       abort \<leftarrow> get32 MbxIn OFF_bdata;
       ecx_SDOinfoerror slave index subindex abort c }
     else ecx_packeterror slave index subindex 1 c }"

text \<open>The number of indexes to take from one frame: what the length field says, cut to the list. The
  flag says whether an error for too many entries is reported.\<close>

definition odlist_count :: "bool \<Rightarrow> u16 \<Rightarrow> u16 \<Rightarrow> u16 \<Rightarrow> bool \<times> u16" where
  "odlist_count First len sp entries =
     (let n = of_int ((uint len - (if First then 8 else 6)) sdiv 2);
          over = EC_MAXODLIST < unat sp + unat n;
          n = (if over then of_int (int EC_MAXODLIST + 1 - uint sp) else n);
          n = (if EC_MAXODLIST < unat entries + unat n then of_int (int EC_MAXODLIST - uint entries) else n)
      in (over, n))"

definition odlist_take :: "bytes \<Rightarrow> u16 \<Rightarrow> nat \<Rightarrow> nat \<Rightarrow> u16 list \<Rightarrow> u16 list option" where
  "odlist_take MbxIn sp offset i ix = do {
     w \<leftarrow> get16 MbxIn (OFF_bdata + 2 * (i + offset));
     aset ix (unat sp + i) w }"

definition odlist_round ::
  "u16 \<Rightarrow> bool \<times> nat \<times> bool \<times> u16 \<times> bytes \<times> int \<times> ec_ODlistt \<times> ecx_contextt \<Rightarrow>
     (bool \<times> nat \<times> bool \<times> u16 \<times> bytes \<times> int \<times> ec_ODlistt \<times> ecx_contextt) option" where
  "odlist_round slave = (\<lambda>(_, x, First, sp, MbxIn, _, OD, c). do {
     MbxIn \<leftarrow> ec_clearmbx MbxIn;
     (wkc, MbxIn, c) \<leftarrow> ecx_mbxreceive slave MbxIn EC_TIMEOUTRXM c;
     if 0 < wkc
     then do {
       ok \<leftarrow> info_answer ECT_GET_ODLIST_RES MbxIn;
       if ok
       then do {
         len \<leftarrow> get16 MbxIn 0;
         let (over, n) = odlist_count First len sp (od_Entries OD);
         c \<leftarrow> (if over then ecx_SDOinfoerror slave 0 0 0xf000000 c else Some c);
         ix \<leftarrow> for_each (odlist_take MbxIn sp (if First then 1 else 0)) [0..<unat n] (od_Index OD);
         frag \<leftarrow> get16 MbxIn OFF_Fragments;
         Some (\<not> 0 < frag, x + 1, False, sp + n, MbxIn, wkc,
               OD\<lparr>od_Entries := od_Entries OD + n, od_Index := ix\<rparr>, c) }
       else do {
         c \<leftarrow> info_refused slave 0 0 MbxIn c;
         Some (True, x + 21, First, sp, MbxIn, 0, OD, c) } }
     else Some (True, x + 1, First, sp, MbxIn, wkc, OD, c) })"

definition ecx_readODlist :: "u16 \<Rightarrow> ec_ODlistt \<Rightarrow> ecx_contextt \<Rightarrow> (int \<times> ec_ODlistt \<times> ecx_contextt) option" where
  "ecx_readODlist slave OD c = do {
     let OD = OD\<lparr>od_Slave := slave, od_Entries := 0\<rparr>;
     (MbxIn, c) \<leftarrow> mbx_drain slave c;
     MbxOut \<leftarrow> ec_clearmbx new_mbx;
     (cnt, c) \<leftarrow> mbx_session slave c;
     MbxOut \<leftarrow> sdo_info_request 0x0008 cnt ECT_GET_ODLIST_REQ 0x01 MbxOut;
     (wkc, c) \<leftarrow> ecx_mbxsend slave MbxOut EC_TIMEOUTTXM c;
     if 0 < wkc
     then do {
       (_, _, _, _, _, wkc, OD, c) \<leftarrow> do_while (odlist_round slave)
          (\<lambda>(stop, x, s). Some (x \<le> 128 \<and> \<not> stop, stop, x, s)) (False, 0, True, 0, MbxIn, wkc, OD, c);
       Some (wkc, OD, c) }
     else Some (wkc, OD, c) }"

text \<open>\<open>strncpy(dst, src, n); dst[n] = 0\<close> into a name.\<close>

definition c_strncpy :: "bytes \<Rightarrow> nat \<Rightarrow> bytes" where
  "c_strncpy src n = (let s = takeWhile (\<lambda>b. b \<noteq> 0) (take n src) in s @ replicate (n - length s) 0)"

definition copy_name :: "bytes list \<Rightarrow> nat \<Rightarrow> bytes \<Rightarrow> nat \<Rightarrow> bytes list option" where
  "copy_name names i src n = do {
     nm \<leftarrow> aget names i;
     nm \<leftarrow> mem_write nm 0 (c_strncpy src n);
     nm \<leftarrow> aset nm n 0;
     aset names i nm }"

definition od_description :: "nat \<Rightarrow> bytes \<Rightarrow> ec_ODlistt \<Rightarrow> ec_ODlistt option" where
  "od_description Item MbxIn OD = do {
     len \<leftarrow> get16 MbxIn 0;
     let n = len - 12;
     let n = (if of_nat EC_MAXNAME < n then of_nat EC_MAXNAME else n);
     w \<leftarrow> get16 MbxIn (OFF_bdata + 2);
     ts \<leftarrow> aset (od_DataType OD) Item w;
     b \<leftarrow> get8 MbxIn (OFF_bdata + 5);
     cs \<leftarrow> aset (od_ObjectCode OD) Item b;
     b \<leftarrow> get8 MbxIn (OFF_bdata + 4);
     ms \<leftarrow> aset (od_MaxSub OD) Item b;
     ns \<leftarrow> copy_name (od_Name OD) Item (drop (OFF_bdata + 6) MbxIn) (unat n);
     Some (OD\<lparr>od_DataType := ts, od_ObjectCode := cs, od_MaxSub := ms, od_Name := ns\<rparr>) }"

definition od_clear :: "nat \<Rightarrow> ec_ODlistt \<Rightarrow> ec_ODlistt option" where
  "od_clear Item OD = do {
     ts \<leftarrow> aset (od_DataType OD) Item 0;
     cs \<leftarrow> aset (od_ObjectCode OD) Item 0;
     ms \<leftarrow> aset (od_MaxSub OD) Item 0;
     nm \<leftarrow> aget (od_Name OD) Item;
     nm \<leftarrow> aset nm 0 0;
     ns \<leftarrow> aset (od_Name OD) Item nm;
     Some (OD\<lparr>od_DataType := ts, od_ObjectCode := cs, od_MaxSub := ms, od_Name := ns\<rparr>) }"

definition ecx_readODdescription ::
  "u16 \<Rightarrow> ec_ODlistt \<Rightarrow> ecx_contextt \<Rightarrow> (int \<times> ec_ODlistt \<times> ecx_contextt) option" where
  "ecx_readODdescription Item OD c = do {
     let slave = od_Slave OD;
     OD \<leftarrow> od_clear (unat Item) OD;
     (MbxIn, c) \<leftarrow> mbx_drain slave c;
     MbxOut \<leftarrow> ec_clearmbx new_mbx;
     (cnt, c) \<leftarrow> mbx_session slave c;
     index \<leftarrow> aget (od_Index OD) (unat Item);
     MbxOut \<leftarrow> sdo_info_request 0x0008 cnt ECT_GET_OD_REQ index MbxOut;
     (wkc, MbxIn, c) \<leftarrow> mbx_exchange slave MbxOut EC_TIMEOUTRXM MbxIn c;
     if 0 < wkc
     then do {
       ok \<leftarrow> info_answer ECT_GET_OD_RES MbxIn;
       if ok
       then do {
         OD \<leftarrow> od_description (unat Item) MbxIn OD;
         Some (wkc, OD, c) }
       else do {
         c \<leftarrow> info_refused slave index 0 MbxIn c;
         Some (0, OD, c) } }
     else Some (wkc, OD, c) }"

definition oe_entry :: "nat \<Rightarrow> bytes \<Rightarrow> ec_OElistt \<Rightarrow> ec_OElistt option" where
  "oe_entry SubI MbxIn OE = do {
     len \<leftarrow> get16 MbxIn 0;
     let n = sint (len - 16);
     let n = (if int EC_MAXNAME < n then int EC_MAXNAME else n);
     let n = (if n < 0 then 0 else n);
     b \<leftarrow> get8 MbxIn (OFF_bdata + 3);
     vs \<leftarrow> aset (oe_ValueInfo OE) SubI b;
     w \<leftarrow> get16 MbxIn (OFF_bdata + 4);
     ts \<leftarrow> aset (oe_DataType OE) SubI w;
     w \<leftarrow> get16 MbxIn (OFF_bdata + 6);
     bs \<leftarrow> aset (oe_BitLength OE) SubI w;
     w \<leftarrow> get16 MbxIn (OFF_bdata + 8);
     acc \<leftarrow> aset (oe_ObjAccess OE) SubI w;
     ns \<leftarrow> copy_name (oe_Name OE) SubI (drop (OFF_bdata + 10) MbxIn) (nat n);
     Some (OE\<lparr>oe_Entries := oe_Entries OE + 1, oe_ValueInfo := vs, oe_DataType := ts, oe_BitLength := bs,
              oe_ObjAccess := acc, oe_Name := ns\<rparr>) }"

definition ecx_readOEsingle ::
  "u16 \<Rightarrow> byte \<Rightarrow> ec_ODlistt \<Rightarrow> ec_OElistt \<Rightarrow> ecx_contextt \<Rightarrow> (int \<times> ec_OElistt \<times> ecx_contextt) option" where
  "ecx_readOEsingle Item SubI OD OE c = do {
     let slave = od_Slave OD;
     index \<leftarrow> aget (od_Index OD) (unat Item);
     (MbxIn, c) \<leftarrow> mbx_drain slave c;
     MbxOut \<leftarrow> ec_clearmbx new_mbx;
     (cnt, c) \<leftarrow> mbx_session slave c;
     MbxOut \<leftarrow> sdo_info_request 0x000a cnt ECT_GET_OE_REQ index MbxOut;
     MbxOut \<leftarrow> put8 MbxOut (OFF_bdata + 2) SubI;
     MbxOut \<leftarrow> put8 MbxOut (OFF_bdata + 3) (1 + 2 + 4);
     (wkc, MbxIn, c) \<leftarrow> mbx_exchange slave MbxOut EC_TIMEOUTRXM MbxIn c;
     if 0 < wkc
     then do {
       ok \<leftarrow> info_answer ECT_GET_OE_RES MbxIn;
       if ok
       then do {
         OE \<leftarrow> oe_entry (unat SubI) MbxIn OE;
         Some (wkc, OE, c) }
       else do {
         c \<leftarrow> info_refused slave index SubI MbxIn c;
         Some (0, OE, c) } }
     else Some (wkc, OE, c) }"

definition ecx_readOE ::
  "u16 \<Rightarrow> ec_ODlistt \<Rightarrow> ec_OElistt \<Rightarrow> ecx_contextt \<Rightarrow> (int \<times> ec_OElistt \<times> ecx_contextt) option" where
  "ecx_readOE Item OD OE c = do {
     SubI \<leftarrow> aget (od_MaxSub OD) (unat Item);
     for_each (\<lambda>SubCount (_, OE, c). ecx_readOEsingle Item (of_nat SubCount) OD OE c)
       [0..<Suc (unat SubI)] (0, OE\<lparr>oe_Entries := 0\<rparr>, c) }"

end
