(* ===== verification/Soe.thy ===== *)
theory Soe
  imports Coe_Pdo
begin

text \<open>
  Servo drive profile over EtherCAT (\<open>soem_lib/soem/ethercatsoe.c\<close>): reading and writing the elements
  of an IDN, and the mapping of the drives of a slave.

  \<open>ec_SoEt\<close> is a view of a mailbox: the bit fields at byte 6 (operation code, incomplete, error,
  drive number), the element flags at 7, the IDN or the fragments left at 8, data from 10.
\<close>

abbreviation (input) ECT_SOE_READREQ :: byte where "ECT_SOE_READREQ \<equiv> 1"
abbreviation (input) ECT_SOE_READRES :: byte where "ECT_SOE_READRES \<equiv> 2"
abbreviation (input) ECT_SOE_WRITEREQ :: byte where "ECT_SOE_WRITEREQ \<equiv> 3"
abbreviation (input) ECT_SOE_WRITERES :: byte where "ECT_SOE_WRITERES \<equiv> 4"
abbreviation (input) EC_SOE_MAX_DRIVES :: nat where "EC_SOE_MAX_DRIVES \<equiv> 8"
abbreviation (input) EC_SOE_ATTRIBUTE_B :: byte where "EC_SOE_ATTRIBUTE_B \<equiv> 0x04"
abbreviation (input) EC_SOE_VALUE_B :: byte where "EC_SOE_VALUE_B \<equiv> 0x40"
abbreviation (input) EC_SOE_MAXMAPPING :: nat where "EC_SOE_MAXMAPPING \<equiv> 64"
abbreviation (input) EC_IDN_MDTCONFIG :: u16 where "EC_IDN_MDTCONFIG \<equiv> 24"
abbreviation (input) EC_IDN_ATCONFIG :: u16 where "EC_IDN_ATCONFIG \<equiv> 16"
abbreviation (input) OFF_soe :: nat where "OFF_soe \<equiv> 6"
abbreviation (input) OFF_elementflags :: nat where "OFF_elementflags \<equiv> 7"
abbreviation (input) OFF_idn :: nat where "OFF_idn \<equiv> 8"
abbreviation (input) SIZE_ec_SoEt :: nat where "SIZE_ec_SoEt \<equiv> 10"

section \<open>The header\<close>

record ec_SoEt =
  soe_opCode :: byte
  soe_incomplete :: bool
  soe_error :: bool
  soe_driveNo :: byte
  soe_elementflags :: byte
  soe_idn :: u16

definition soe_flags :: "byte \<Rightarrow> bool \<Rightarrow> byte \<Rightarrow> byte" where
  "soe_flags opCode incomplete driveNo =
     (opCode AND 0x07) OR (if incomplete then 0x08 else 0) OR push_bit 5 (driveNo AND 0x07)"

definition get_soe :: "bytes \<Rightarrow> ec_SoEt option" where
  "get_soe Mbx = do {
     b \<leftarrow> get8 Mbx OFF_soe;
     e \<leftarrow> get8 Mbx OFF_elementflags;
     i \<leftarrow> get16 Mbx OFF_idn;
     Some \<lparr>soe_opCode = b AND 0x07, soe_incomplete = (b AND 0x08 \<noteq> 0), soe_error = (b AND 0x10 \<noteq> 0),
           soe_driveNo = drop_bit 5 b, soe_elementflags = e, soe_idn = i\<rparr> }"

definition soe_request ::
  "u16 \<Rightarrow> byte \<Rightarrow> byte \<Rightarrow> bool \<Rightarrow> byte \<Rightarrow> byte \<Rightarrow> u16 \<Rightarrow> bytes \<Rightarrow> bytes option" where
  "soe_request len cnt opCode incomplete driveNo elementflags idn Mbx = do {
     Mbx \<leftarrow> mbx_header ECT_MBXT_SOE len cnt Mbx;
     Mbx \<leftarrow> put8 Mbx OFF_soe (soe_flags opCode incomplete driveNo);
     Mbx \<leftarrow> put8 Mbx OFF_elementflags elementflags;
     put16 Mbx OFF_idn idn }"

text \<open>Is the answer of protocol SoE, without error, of the given operation and for the same elements?\<close>

definition soe_answer :: "byte \<Rightarrow> byte \<Rightarrow> byte \<Rightarrow> bytes \<Rightarrow> bool option" where
  "soe_answer opCode driveNo elementflags MbxIn = do {
     ty \<leftarrow> get8 MbxIn OFF_mbxtype;
     h \<leftarrow> get_soe MbxIn;
     Some (ty AND 0x0f = ECT_MBXT_SOE \<and> soe_opCode h = opCode \<and> \<not> soe_error h
           \<and> soe_driveNo h = driveNo \<and> soe_elementflags h = elementflags) }"

definition ecx_SoEerror :: "u16 \<Rightarrow> u16 \<Rightarrow> u16 \<Rightarrow> ecx_contextt \<Rightarrow> ecx_contextt option" where
  "ecx_SoEerror slave idn code c =
     (let (t, c) = error_time c
      in ecx_pusherror (zero_error\<lparr>Time := t, Slave := slave, Index := idn, SubIdx := 0,
           Etype := EC_ERR_TYPE_SOE_ERROR, ErrorCode := code\<rparr>) (c\<lparr>ecaterror := True\<rparr>))"

text \<open>Any other answer: an SoE error carries its code in the last two bytes of the mailbox data.\<close>

definition soe_refused :: "u16 \<Rightarrow> u16 \<Rightarrow> bytes \<Rightarrow> ecx_contextt \<Rightarrow> ecx_contextt option" where
  "soe_refused slave idn MbxIn c = do {
     ty \<leftarrow> get8 MbxIn OFF_mbxtype;
     h \<leftarrow> get_soe MbxIn;
     if ty AND 0x0f = ECT_MBXT_SOE \<and> soe_opCode h = ECT_SOE_READRES \<and> soe_error h
     then do {
       len \<leftarrow> get16 MbxIn 0;
       code \<leftarrow> get16 MbxIn (unat len + 4);
       ecx_SoEerror slave idn code c }
     else ecx_packeterror slave idn 0 1 c }"

section \<open>Reading\<close>

text \<open>One fragment: what fits is appended at \<open>bp\<close>, the rest dropped. \<open>totalsize\<close> is capped at the size
  of the buffer.\<close>

definition soe_fragment :: "bytes \<Rightarrow> int \<Rightarrow> nat \<times> int \<times> bytes \<Rightarrow> (nat \<times> int \<times> bytes) option" where
  "soe_fragment MbxIn psize = (\<lambda>(bp, totalsize, p). do {
     len \<leftarrow> get16 MbxIn 0;
     let framedatasize = uint len - 4;
     let totalsize = totalsize + framedatasize;
     if totalsize \<le> psize
     then do {
       d \<leftarrow> mem_copy MbxIn SIZE_ec_SoEt framedatasize;
       p \<leftarrow> mem_write p bp d;
       Some (bp + nat framedatasize, totalsize, p) }
     else do {
       let framedatasize = framedatasize - (totalsize - psize);
       p \<leftarrow> (if 0 < framedatasize
            then do { d \<leftarrow> mem_copy MbxIn SIZE_ec_SoEt framedatasize; mem_write p bp d }
            else Some p);
       Some (bp, psize, p) } })"

definition soe_read_round ::
  "u16 \<Rightarrow> byte \<Rightarrow> byte \<Rightarrow> u16 \<Rightarrow> int \<Rightarrow> bool \<times> int \<times> bytes \<times> nat \<times> int \<times> int \<times> bytes \<times> ecx_contextt \<Rightarrow>
     (bool \<times> int \<times> bytes \<times> nat \<times> int \<times> int \<times> bytes \<times> ecx_contextt) option" where
  "soe_read_round slave driveNo elementflags idn timeout = (\<lambda>(_, _, MbxIn, bp, totalsize, psize, p, c). do {
     MbxIn \<leftarrow> ec_clearmbx MbxIn;
     (wkc, MbxIn, c) \<leftarrow> ecx_mbxreceive slave MbxIn timeout c;
     if 0 < wkc
     then do {
       ok \<leftarrow> soe_answer ECT_SOE_READRES driveNo elementflags MbxIn;
       if ok
       then do {
         (bp, totalsize, p) \<leftarrow> soe_fragment MbxIn psize (bp, totalsize, p);
         h \<leftarrow> get_soe MbxIn;
         Some (soe_incomplete h, wkc, MbxIn, bp, totalsize, if soe_incomplete h then psize else totalsize, p, c) }
       else do {
         c \<leftarrow> soe_refused slave idn MbxIn c;
         Some (False, 0, MbxIn, bp, totalsize, psize, p, c) } }
     else do {
       c \<leftarrow> ecx_packeterror slave idn 0 4 c;
       Some (False, wkc, MbxIn, bp, totalsize, psize, p, c) } })"

definition ecx_SoEread ::
  "u16 \<Rightarrow> byte \<Rightarrow> byte \<Rightarrow> u16 \<Rightarrow> int \<Rightarrow> bytes \<Rightarrow> int \<Rightarrow> ecx_contextt \<Rightarrow> (int \<times> int \<times> bytes \<times> ecx_contextt) option" where
  "ecx_SoEread slave driveNo elementflags idn psize p timeout c = do {
     (MbxIn, c) \<leftarrow> mbx_drain slave c;
     MbxOut \<leftarrow> ec_clearmbx new_mbx;
     (cnt, c) \<leftarrow> mbx_session slave c;
     MbxOut \<leftarrow> soe_request 4 cnt ECT_SOE_READREQ False driveNo elementflags idn MbxOut;
     (wkc, c) \<leftarrow> ecx_mbxsend slave MbxOut EC_TIMEOUTTXM c;
     if 0 < wkc
     then do {
       (_, wkc, _, _, _, psize, p, c) \<leftarrow> while_do fst (soe_read_round slave driveNo elementflags idn timeout)
          (True, wkc, MbxIn, 0, 0, psize, p, c);
       Some (wkc, psize, p, c) }
     else Some (wkc, psize, p, c) }"

section \<open>Writing\<close>

text \<open>The answer is awaited after the last fragment, and when the slave leaves its mailbox full.\<close>

definition soe_write_answer ::
  "u16 \<Rightarrow> byte \<Rightarrow> byte \<Rightarrow> u16 \<Rightarrow> int \<Rightarrow> bool \<Rightarrow> bytes \<Rightarrow> ecx_contextt \<Rightarrow> (bool \<times> int \<times> bytes \<times> ecx_contextt) option" where
  "soe_write_answer slave driveNo elementflags idn timeout NotLast MbxIn c = do {
     MbxIn \<leftarrow> ec_clearmbx MbxIn;
     (wkc, MbxIn, c) \<leftarrow> ecx_mbxreceive slave MbxIn timeout c;
     if 0 < wkc
     then do {
       ok \<leftarrow> soe_answer ECT_SOE_WRITERES driveNo elementflags MbxIn;
       if ok then Some (False, wkc, MbxIn, c)
       else do {
         c \<leftarrow> soe_refused slave idn MbxIn c;
         Some (False, 0, MbxIn, c) } }
     else do {
       c \<leftarrow> ecx_packeterror slave idn 0 4 c;
       Some (NotLast, wkc, MbxIn, c) } }"

text \<open>The division by \<open>maxdata\<close> traps when the mailbox has no room for data.\<close>

definition soe_write_round ::
  "u16 \<Rightarrow> byte \<Rightarrow> byte \<Rightarrow> u16 \<Rightarrow> bytes \<Rightarrow> int \<Rightarrow> int \<Rightarrow> bool \<times> int \<times> bytes \<times> bytes \<times> nat \<times> int \<times> ecx_contextt \<Rightarrow>
     (bool \<times> int \<times> bytes \<times> bytes \<times> nat \<times> int \<times> ecx_contextt) option" where
  "soe_write_round slave driveNo elementflags idn p timeout maxdata = (\<lambda>(_, _, MbxIn, MbxOut, hp, psize, c). do {
     let NotLast = (maxdata < psize);
     let framedatasize = (if NotLast then maxdata else psize);
     w \<leftarrow> (if \<not> NotLast then Some idn else if maxdata = 0 then None else Some (of_int (psize sdiv maxdata)));
     (cnt, c) \<leftarrow> mbx_session slave c;
     MbxOut \<leftarrow> soe_request (of_int (4 + framedatasize)) cnt ECT_SOE_WRITEREQ NotLast driveNo elementflags w MbxOut;
     d \<leftarrow> mem_copy p hp framedatasize;
     MbxOut \<leftarrow> mem_write MbxOut SIZE_ec_SoEt d;
     let hp = hp + nat framedatasize;
     let psize = psize - framedatasize;
     (wkc, c) \<leftarrow> ecx_mbxsend slave MbxOut EC_TIMEOUTTXM c;
     if 0 < wkc
     then do {
       (empty, c) \<leftarrow> (if NotLast then ecx_mbxempty slave timeout c else Some (0, c));
       if empty = 0
       then do {
         (NotLast, wkc, MbxIn, c) \<leftarrow> soe_write_answer slave driveNo elementflags idn timeout NotLast MbxIn c;
         Some (NotLast, wkc, MbxIn, MbxOut, hp, psize, c) }
       else Some (NotLast, wkc, MbxIn, MbxOut, hp, psize, c) }
     else Some (NotLast, wkc, MbxIn, MbxOut, hp, psize, c) })"

definition ecx_SoEwrite ::
  "u16 \<Rightarrow> byte \<Rightarrow> byte \<Rightarrow> u16 \<Rightarrow> int \<Rightarrow> bytes \<Rightarrow> int \<Rightarrow> ecx_contextt \<Rightarrow> (int \<times> ecx_contextt) option" where
  "ecx_SoEwrite slave driveNo elementflags idn psize p timeout c = do {
     (MbxIn, c) \<leftarrow> mbx_drain slave c;
     MbxOut \<leftarrow> ec_clearmbx new_mbx;
     s \<leftarrow> slave_at slave c;
     let maxdata = uint (mbx_l s) - int SIZE_ec_SoEt;
     (_, wkc, _, _, _, _, c) \<leftarrow> while_do fst (soe_write_round slave driveNo elementflags idn p timeout maxdata)
        (True, 0, MbxIn, MbxOut, 0, psize, c);
     Some (wkc, c) }"

section \<open>The mapping of the drives\<close>

text \<open>The local \<open>SoEmapping\<close> (132 bytes) and \<open>SoEattribute\<close> (4 bytes) keep what earlier reads left in
  them; they are taken to be zero at first.\<close>

definition idn_entry ::
  "u16 \<Rightarrow> byte \<Rightarrow> bytes \<Rightarrow> nat \<Rightarrow> u32 \<times> bytes \<times> ecx_contextt \<Rightarrow> (u32 \<times> bytes \<times> ecx_contextt) option" where
  "idn_entry slave driveNr mapping itemcount = (\<lambda>(size, attr, c). do {
     idn \<leftarrow> get16 mapping (4 + 2 * itemcount);
     (wkc, _, attr, c) \<leftarrow> ecx_SoEread slave driveNr EC_SOE_ATTRIBUTE_B idn 4 attr EC_TIMEOUTRXM c;
     b \<leftarrow> get8 attr 2;
     Some (if 0 < wkc \<and> b AND 0x04 = 0 then size + push_bit (unat (b AND 0x03)) 8 else size, attr, c) })"

definition idn_config ::
  "u16 \<Rightarrow> byte \<Rightarrow> u16 \<Rightarrow> u32 \<times> bytes \<times> bytes \<times> ecx_contextt \<Rightarrow> (u32 \<times> bytes \<times> bytes \<times> ecx_contextt) option" where
  "idn_config slave driveNr config = (\<lambda>(size, mapping, attr, c). do {
     (wkc, psize, mapping, c) \<leftarrow> ecx_SoEread slave driveNr EC_SOE_VALUE_B config 132 mapping EC_TIMEOUTRXM c;
     currentlength \<leftarrow> get16 mapping 0;
     let entries = unat currentlength div 2;
     if 0 < wkc \<and> 4 \<le> psize \<and> 0 < entries \<and> entries \<le> EC_SOE_MAXMAPPING
     then do {
       (size, attr, c) \<leftarrow> for_each (idn_entry slave driveNr mapping) [0..<entries] (size + 16, attr, c);
       Some (size, mapping, attr, c) }
     else Some (size, mapping, attr, c) })"

definition readIDNmap_drive ::
  "u16 \<Rightarrow> nat \<Rightarrow> u32 \<times> u32 \<times> bytes \<times> bytes \<times> ecx_contextt \<Rightarrow> (u32 \<times> u32 \<times> bytes \<times> bytes \<times> ecx_contextt) option" where
  "readIDNmap_drive slave driveNr = (\<lambda>(Osize, Isize, mapping, attr, c). do {
     (Osize, mapping, attr, c) \<leftarrow> idn_config slave (of_nat driveNr) EC_IDN_MDTCONFIG (Osize, mapping, attr, c);
     (Isize, mapping, attr, c) \<leftarrow> idn_config slave (of_nat driveNr) EC_IDN_ATCONFIG (Isize, mapping, attr, c);
     Some (Osize, Isize, mapping, attr, c) })"

definition ecx_readIDNmap :: "u16 \<Rightarrow> ecx_contextt \<Rightarrow> (int \<times> u32 \<times> u32 \<times> ecx_contextt) option" where
  "ecx_readIDNmap slave c = do {
     (Osize, Isize, _, _, c) \<leftarrow> for_each (readIDNmap_drive slave) [0..<EC_SOE_MAX_DRIVES]
        (0, 0, replicate 132 0, replicate 4 0, c);
     Some (if 0 < Isize \<or> 0 < Osize then 1 else 0, Osize, Isize, c) }"

end
