(* ===== verification/Config_Init.thy ===== *)
theory Config_Init
  imports Soe Sii
begin

text \<open>
  Finding and initialising the slaves (\<open>soem_lib/soem/ethercatconfig.c\<close>, \<open>ethercatconfiglist.h\<close>):
  \<open>ecx_init_context\<close>, \<open>ecx_detect_slaves\<close>, \<open>ecx_config_from_table\<close>, \<open>ecx_lookup_prev_sii\<close> and
  \<open>ecx_config_init\<close>. Local variables the code reads into without initialising them start as zero.
\<close>

abbreviation (input) EC_NODEOFFSET :: u16 where "EC_NODEOFFSET \<equiv> 0x1000"
abbreviation (input) EC_TEMPNODE :: u16 where "EC_TEMPNODE \<equiv> 0xffff"
abbreviation (input) EC_LOGGROUPOFFSET :: nat where "EC_LOGGROUPOFFSET \<equiv> 16"
abbreviation (input) EC_SLAVECOUNTEXCEEDED :: int where "EC_SLAVECOUNTEXCEEDED \<equiv> -4"
abbreviation (input) EC_CONFIGEND :: u32 where "EC_CONFIGEND \<equiv> 0xffffffff"
abbreviation (input) EC_DEFAULTMBXSM0 :: u32 where "EC_DEFAULTMBXSM0 \<equiv> 0x00010026"
abbreviation (input) EC_DEFAULTMBXSM1 :: u32 where "EC_DEFAULTMBXSM1 \<equiv> 0x00010022"
abbreviation (input) EC_DEFAULTDOSM0 :: u32 where "EC_DEFAULTDOSM0 \<equiv> 0x00010044"
abbreviation (input) ECT_REG_TYPE :: u16 where "ECT_REG_TYPE \<equiv> 0x0000"
abbreviation (input) ECT_REG_PORTDES :: u16 where "ECT_REG_PORTDES \<equiv> 0x0007"
abbreviation (input) ECT_REG_ESCSUP :: u16 where "ECT_REG_ESCSUP \<equiv> 0x0008"
abbreviation (input) ECT_REG_STADR :: u16 where "ECT_REG_STADR \<equiv> 0x0010"
abbreviation (input) ECT_REG_ALIAS :: u16 where "ECT_REG_ALIAS \<equiv> 0x0012"
abbreviation (input) ECT_REG_DLCTL :: u16 where "ECT_REG_DLCTL \<equiv> 0x0100"
abbreviation (input) ECT_REG_DLPORT :: u16 where "ECT_REG_DLPORT \<equiv> 0x0101"
abbreviation (input) ECT_REG_DLALIAS :: u16 where "ECT_REG_DLALIAS \<equiv> 0x0103"
abbreviation (input) ECT_REG_DLSTAT :: u16 where "ECT_REG_DLSTAT \<equiv> 0x0110"
abbreviation (input) ECT_REG_PDICTL :: u16 where "ECT_REG_PDICTL \<equiv> 0x0140"
abbreviation (input) ECT_REG_IRQMASK :: u16 where "ECT_REG_IRQMASK \<equiv> 0x0200"
abbreviation (input) ECT_REG_RXERR :: u16 where "ECT_REG_RXERR \<equiv> 0x0300"
abbreviation (input) ECT_REG_FMMU0 :: u16 where "ECT_REG_FMMU0 \<equiv> 0x0600"
abbreviation (input) ECT_REG_SM0 :: u16 where "ECT_REG_SM0 \<equiv> 0x0800"
abbreviation (input) ECT_REG_SM1 :: u16 where "ECT_REG_SM1 \<equiv> 0x0808"
abbreviation (input) ECT_REG_DCSPEEDCNT :: u16 where "ECT_REG_DCSPEEDCNT \<equiv> 0x0930"
abbreviation (input) ECT_REG_DCTIMEFILT :: u16 where "ECT_REG_DCTIMEFILT \<equiv> 0x0934"
abbreviation (input) ECT_REG_DCSYNCACT :: u16 where "ECT_REG_DCSYNCACT \<equiv> 0x0981"
abbreviation (input) ECT_SII_MANUF :: u16 where "ECT_SII_MANUF \<equiv> 0x0008"
abbreviation (input) ECT_SII_ID :: u16 where "ECT_SII_ID \<equiv> 0x000a"
abbreviation (input) ECT_SII_REV :: u16 where "ECT_SII_REV \<equiv> 0x000c"
abbreviation (input) ECT_SII_RXMBXADR :: u16 where "ECT_SII_RXMBXADR \<equiv> 0x0018"
abbreviation (input) ECT_SII_TXMBXADR :: u16 where "ECT_SII_TXMBXADR \<equiv> 0x001a"
abbreviation (input) ECT_SII_MBXPROTO :: u16 where "ECT_SII_MBXPROTO \<equiv> 0x001c"

section \<open>The table of known slaves\<close>

record ec_configlist_t =
  cf_man :: u32
  cf_id :: u32
  cf_name :: bytes
  cf_Dtype :: byte
  cf_Ibits :: u16
  cf_Obits :: u16
  cf_SM2a :: u16
  cf_SM2f :: u32
  cf_SM3a :: u16
  cf_SM3f :: u32
  cf_FM0ac :: byte
  cf_FM1ac :: byte

definition config_entry ::
  "u32 \<Rightarrow> u32 \<Rightarrow> string \<Rightarrow> byte \<Rightarrow> u16 \<Rightarrow> u16 \<Rightarrow> u16 \<Rightarrow> u32 \<Rightarrow> u16 \<Rightarrow> u32 \<Rightarrow> byte \<Rightarrow> byte \<Rightarrow> ec_configlist_t" where
  "config_entry man i nm dt ib ob a2 f2 a3 f3 m0 m1 =
     \<lparr>cf_man = man, cf_id = i, cf_name = map of_char nm, cf_Dtype = dt, cf_Ibits = ib, cf_Obits = ob,
      cf_SM2a = a2, cf_SM2f = f2, cf_SM3a = a3, cf_SM3f = f3, cf_FM0ac = m0, cf_FM1ac = m1\<rparr>"

definition ec_configlist :: "ec_configlist_t list" where
  "ec_configlist = [
     config_entry 0 0 '''' 0 0 0 0 0 0 0 0 0,
     config_entry 0x00000002 0x044c2c52 ''EK1100'' 1 0 0 0 0 0 0 0 0,
     config_entry 0x00000002 0x03ea3052 ''EL1002'' 2 2 0 0 0 0 0 0 0,
     config_entry 0x00000002 0x03ec3052 ''EL1004'' 2 4 0 0 0 0 0 0 0,
     config_entry 0x00000002 0x03f43052 ''EL1012'' 2 2 0 0 0 0 0 0 0,
     config_entry 0x00000002 0x03f63052 ''EL1014'' 2 4 0 0 0 0 0 0 0,
     config_entry 0x00000002 0x03fa3052 ''EL1018'' 2 8 0 0 0 0 0 0 0,
     config_entry 0x00000002 0x07d23052 ''EL2002'' 3 0 2 0 0 0 0 0 0,
     config_entry 0x00000002 0x07d43052 ''EL2004'' 3 0 4 0 0 0 0 0 0,
     config_entry 0x00000002 0x07d83052 ''EL2008'' 3 0 8 0 0 0 0 0 0,
     config_entry 0x00000002 0x07f03052 ''EL2032'' 6 2 2 0 0 0 0 0 0,
     config_entry 0x00000002 0x0c1e3052 ''EL3102'' 4 48 0 0x1000 0x00000024 0x1100 0x00010020 0 1,
     config_entry 0x00000002 0x0c283052 ''EL3112'' 4 48 0 0x1000 0x00000024 0x1100 0x00010020 0 1,
     config_entry 0x00000002 0x0c323052 ''EL3122'' 4 48 0 0x1000 0x00000024 0x1100 0x00010020 0 1,
     config_entry 0x00000002 0x0c463052 ''EL3142'' 4 48 0 0x1000 0x00000024 0x1100 0x00010020 0 1,
     config_entry 0x00000002 0x0c503052 ''EL3152'' 4 48 0 0x1000 0x00000024 0x1100 0x00010020 0 1,
     config_entry 0x00000002 0x0c5a3052 ''EL3162'' 4 48 0 0x1000 0x00000024 0x1100 0x00010020 0 1,
     config_entry 0x00000002 0x0fc03052 ''EL4032'' 5 0 32 0x1100 0x00010024 0x1180 0x00000022 1 0,
     config_entry 0x00000002 0x10063052 ''EL4102'' 5 0 32 0x1000 0x00010024 0x1100 0x00000022 1 0,
     config_entry 0x00000002 0x10103052 ''EL4112'' 5 0 32 0x1000 0x00010024 0x1100 0x00000022 1 0,
     config_entry 0x00000002 0x101a3052 ''EL4122'' 5 0 32 0x1000 0x00010024 0x1100 0x00000022 1 0,
     config_entry 0x00000002 0x10243052 ''EL4132'' 5 0 32 0x1000 0x00010024 0x1100 0x00000022 1 0,
     config_entry 0x00000002 0x13ed3052 ''EL5101'' 7 40 24 0x1000 0x00010024 0x1100 0x00010020 1 1,
     config_entry EC_CONFIGEND 0 '''' 0 0 0 0 0 0 0 0 0]"

definition ec_findconfig :: "u32 \<Rightarrow> u32 \<Rightarrow> nat option" where
  "ec_findconfig man i = do {
     k \<leftarrow> do_while (\<lambda>k. Some (k + 1))
            (\<lambda>k. do {
               e \<leftarrow> aget ec_configlist k;
               Some (cf_man e \<noteq> EC_CONFIGEND \<and> (cf_man e \<noteq> man \<or> cf_id e \<noteq> i), k) }) 0;
     e \<leftarrow> aget ec_configlist k;
     Some (if cf_man e = EC_CONFIGEND then 0 else k) }"

section \<open>Start\<close>

definition ecx_init_context :: "ecx_contextt \<Rightarrow> ecx_contextt option" where
  "ecx_init_context c = do {
     let ns = nat (maxslave c);
     let ng = nat (maxgroup c);
     if ns \<le> length (slavelist c) \<and> ng \<le> length (grouplist c)
     then do {
       let c = c\<lparr>slavecount := 0, slavelist := replicate ns zero_slave @ drop ns (slavelist c),
                 grouplist := replicate ng zero_group @ drop ng (grouplist c)\<rparr>;
       (_, c) \<leftarrow> ecx_siigetbyte 0 (of_nat EC_MAXEEPBUF) c;
       for_each (\<lambda>lp c. do {
           g \<leftarrow> aget (grouplist c) lp;
           gs \<leftarrow> aset (grouplist c) lp (g\<lparr>logstartaddr := push_bit EC_LOGGROUPOFFSET (of_nat lp)\<rparr>);
           Some (c\<lparr>grouplist := gs\<rparr>) }) [0..<ng] c }
     else None }"

text \<open>Broadcast writes whose working counter nobody looks at.\<close>

definition bwr_all :: "(u16 \<times> bytes) list \<Rightarrow> ecx_contextt \<Rightarrow> ecx_contextt option" where
  "bwr_all = for_each (\<lambda>(reg, data) c. do {
     (_, c) \<leftarrow> write_BWR 0x0000 reg (of_nat (length data)) data EC_TIMEOUTRET3 c;
     Some c })"

definition ecx_detect_slaves :: "ecx_contextt \<Rightarrow> (int \<times> ecx_contextt) option" where
  "ecx_detect_slaves c = do {
     c \<leftarrow> bwr_all [(ECT_REG_DLALIAS, [0x00]), (ECT_REG_ALCTL, [ucast (EC_STATE_INIT OR EC_STATE_ACK)]),
                   (ECT_REG_ALCTL, [ucast (EC_STATE_INIT OR EC_STATE_ACK)])] c;
     (wkc, _, c) \<leftarrow> read_BRD 0x0000 ECT_REG_TYPE 2 (replicate 2 0) EC_TIMEOUTSAFE c;
     if 0 < wkc
     then if wkc < maxslave c then Some (wkc, c\<lparr>slavecount := wkc\<rparr>) else Some (EC_SLAVECOUNTEXCEEDED, c)
     else Some (wkc, c) }"

definition ecx_set_slaves_to_default :: "ecx_contextt \<Rightarrow> ecx_contextt option" where
  "ecx_set_slaves_to_default = bwr_all
     [(ECT_REG_DLPORT, [0x00]), (ECT_REG_IRQMASK, le_bytes 2 (0x0004 :: u16)), (ECT_REG_RXERR, replicate 8 0),
      (ECT_REG_FMMU0, replicate (16 * 3) 0), (ECT_REG_SM0, replicate (8 * 4) 0), (ECT_REG_DCSYNCACT, [0x00]),
      (ECT_REG_DCSYSTIME, replicate 4 0), (ECT_REG_DCSPEEDCNT, le_bytes 2 (0x1000 :: u16)),
      (ECT_REG_DCTIMEFILT, le_bytes 2 (0x0c00 :: u16)), (ECT_REG_DLALIAS, [0x00]),
      (ECT_REG_ALCTL, [ucast (EC_STATE_INIT OR EC_STATE_ACK)]), (ECT_REG_EEPCFG, [2]), (ECT_REG_EEPCFG, [0])]"

section \<open>Configuration from the table\<close>

definition put_SM :: "nat \<Rightarrow> (ec_smt \<Rightarrow> ec_smt) \<Rightarrow> ec_slavet \<Rightarrow> ec_slavet option" where
  "put_SM i f s = do { m \<leftarrow> aget (SM s) i; ms \<leftarrow> aset (SM s) i (f m); Some (s\<lparr>SM := ms\<rparr>) }"

definition put_FMMU :: "nat \<Rightarrow> (ec_fmmut \<Rightarrow> ec_fmmut) \<Rightarrow> ec_slavet \<Rightarrow> ec_slavet option" where
  "put_FMMU i f s = do { m \<leftarrow> aget (FMMU s) i; ms \<leftarrow> aset (FMMU s) i (f m); Some (s\<lparr>FMMU := ms\<rparr>) }"

definition put_SMtype :: "nat \<Rightarrow> byte \<Rightarrow> ec_slavet \<Rightarrow> ec_slavet option" where
  "put_SMtype i t s = do { ts \<leftarrow> aset (SMtype s) i t; Some (s\<lparr>SMtype := ts\<rparr>) }"

definition bits_to_bytes :: "u16 \<Rightarrow> u16" where
  "bits_to_bytes n = of_nat ((unat n + 7) div 8)"

text \<open>The outputs of a table entry: without a second sync manager they are those of a simple slave.\<close>

definition table_outputs :: "ec_configlist_t \<Rightarrow> ec_slavet \<Rightarrow> ec_slavet option" where
  "table_outputs e s = do {
     s \<leftarrow> put_SM 2 (\<lambda>m. m\<lparr>StartAddr := cf_SM2a e, SMflags := cf_SM2f e\<rparr>) s;
     if Obits s \<noteq> 0 \<and> cf_SM2a e = 0
     then do {
       s \<leftarrow> put_SM 0 (\<lambda>m. m\<lparr>StartAddr := 0x0f00, SMlength := bits_to_bytes (Obits s), SMflags := EC_DEFAULTDOSM0\<rparr>) s;
       s \<leftarrow> put_FMMU 0 (\<lambda>m. m\<lparr>FMMUactive := 1, FMMUtype := 2\<rparr>) s;
       put_SMtype 0 3 s }
     else do {
       s \<leftarrow> put_SM 2 (\<lambda>m. m\<lparr>SMlength := bits_to_bytes (Obits s)\<rparr>) s;
       put_SMtype 2 3 s } }"

definition table_inputs :: "ec_configlist_t \<Rightarrow> ec_slavet \<Rightarrow> ec_slavet option" where
  "table_inputs e s = do {
     s \<leftarrow> put_SM 3 (\<lambda>m. m\<lparr>StartAddr := cf_SM3a e, SMflags := cf_SM3f e\<rparr>) s;
     if Ibits s \<noteq> 0 \<and> cf_SM3a e = 0
     then do {
       s \<leftarrow> put_SM 1 (\<lambda>m. m\<lparr>StartAddr := 0x1000, SMlength := bits_to_bytes (Ibits s), SMflags := 0\<rparr>) s;
       s \<leftarrow> put_FMMU 1 (\<lambda>m. m\<lparr>FMMUactive := 1, FMMUtype := 1\<rparr>) s;
       put_SMtype 1 4 s }
     else do {
       s \<leftarrow> put_SM 3 (\<lambda>m. m\<lparr>SMlength := bits_to_bytes (Ibits s)\<rparr>) s;
       put_SMtype 3 4 s } }"

definition ecx_config_from_table :: "u16 \<Rightarrow> ecx_contextt \<Rightarrow> (nat \<times> ecx_contextt) option" where
  "ecx_config_from_table slave c = do {
     s \<leftarrow> slave_at slave c;
     cindex \<leftarrow> ec_findconfig (eep_man s) (eep_id s);
     let s = s\<lparr>configindex := of_nat cindex\<rparr>;
     if cindex \<noteq> 0
     then do {
       e \<leftarrow> aget ec_configlist cindex;
       nm \<leftarrow> mem_write (name s) 0 (cf_name e @ [0]);
       let s = s\<lparr>Dtype := ucast (cf_Dtype e), name := nm, Ibits := cf_Ibits e, Obits := cf_Obits e\<rparr>;
       let s = (if Obits s \<noteq> 0 then s\<lparr>FMMU0func := 1\<rparr> else s);
       let s = (if Ibits s \<noteq> 0 then s\<lparr>FMMU1func := 2\<rparr> else s);
       s \<leftarrow> put_FMMU 0 (\<lambda>m. m\<lparr>FMMUactive := cf_FM0ac e\<rparr>) s;
       s \<leftarrow> put_FMMU 1 (\<lambda>m. m\<lparr>FMMUactive := cf_FM1ac e\<rparr>) s;
       s \<leftarrow> table_outputs e s;
       s \<leftarrow> table_inputs e s;
       c \<leftarrow> set_slave slave s c;
       Some (cindex, c) }
     else do {
       c \<leftarrow> set_slave slave s c;
       Some (0, c) } }"

section \<open>Reusing the data of an equal slave\<close>

definition same_sii :: "ec_slavet \<Rightarrow> ec_slavet \<Rightarrow> bool" where
  "same_sii s t \<longleftrightarrow> eep_man s = eep_man t \<and> eep_id s = eep_id t \<and> eep_rev s = eep_rev t"

text \<open>The first slave before \<open>slave\<close> with its identity, \<open>slave\<close> itself if there is none.\<close>

definition prev_sii :: "u16 \<Rightarrow> ecx_contextt \<Rightarrow> nat option" where
  "prev_sii slave c = do {
     s \<leftarrow> slave_at slave c;
     while_do (\<lambda>i. \<not> same_sii (slavelist c ! i) s \<and> i < unat slave) (\<lambda>i. Some (i + 1)) 1 }"

definition ecx_lookup_prev_sii :: "u16 \<Rightarrow> ecx_contextt \<Rightarrow> (bool \<times> ecx_contextt) option" where
  "ecx_lookup_prev_sii slave c =
     (if 1 < slave \<and> 0 < slavecount c
      then do {
        i \<leftarrow> prev_sii slave c;
        if i < unat slave
        then do {
          s \<leftarrow> slave_at (of_nat i) c;
          c \<leftarrow> upd_slave slave (\<lambda>d. d\<lparr>CoEdetails := CoEdetails s, FoEdetails := FoEdetails s,
                 EoEdetails := EoEdetails s, SoEdetails := SoEdetails s\<rparr>) c;
          c \<leftarrow> (if 0 < blockLRW s
               then do {
                 c \<leftarrow> upd_slave slave (\<lambda>d. d\<lparr>blockLRW := 1\<rparr>) c;
                 upd_slave 0 (\<lambda>m. m\<lparr>blockLRW := blockLRW m + 1\<rparr>) c }
               else Some c);
          c \<leftarrow> upd_slave slave (\<lambda>d. d\<lparr>Ebuscurrent := Ebuscurrent s\<rparr>) c;
          c \<leftarrow> upd_slave 0 (\<lambda>m. m\<lparr>Ebuscurrent := Ebuscurrent m + Ebuscurrent s\<rparr>) c;
          c \<leftarrow> upd_slave slave (\<lambda>d. d\<lparr>name := name s, SM := SM s, FMMU0func := FMMU0func s,
                 FMMU1func := FMMU1func s, FMMU2func := FMMU2func s, FMMU3func := FMMU3func s\<rparr>) c;
          Some (True, c) }
        else Some (False, c) }
      else Some (False, c))"

end
