(* ===== verification/Config_Scan.thy ===== *)
theory Config_Scan
  imports Config_Init
begin

text \<open>
  \<open>ecx_config_init\<close> (\<open>soem_lib/soem/ethercatconfig.c\<close>): addressing the slaves, reading their
  identity and mailboxes, finding the topology, and taking their settings from the table, from an
  equal slave or from their EEPROM.
\<close>

section \<open>Addresses and identities\<close>

definition APRDw :: "u16 \<Rightarrow> u16 \<Rightarrow> ecx_contextt \<Rightarrow> (u16 \<times> ecx_contextt) option" where
  "APRDw adp ado = on_port (ecx_APRDw adp ado EC_TIMEOUTRET3)"

definition APWRw :: "u16 \<Rightarrow> u16 \<Rightarrow> u16 \<Rightarrow> ecx_contextt \<Rightarrow> (int \<times> ecx_contextt) option" where
  "APWRw adp ado w = on_port (ecx_APWRw adp ado w EC_TIMEOUTRET3)"

definition FPRDw :: "u16 \<Rightarrow> u16 \<Rightarrow> ecx_contextt \<Rightarrow> (u16 \<times> ecx_contextt) option" where
  "FPRDw adp ado = on_port (ecx_FPRDw adp ado EC_TIMEOUTRET3)"

definition init_address :: "nat \<Rightarrow> ecx_contextt \<Rightarrow> ecx_contextt option" where
  "init_address i c = do {
     let slave = (of_nat i :: u16);
     let ADPh = 1 - slave;
     (val16, c) \<leftarrow> APRDw ADPh ECT_REG_PDICTL c;
     c \<leftarrow> upd_slave slave (\<lambda>s. s\<lparr>Itype := val16\<rparr>) c;
     (_, c) \<leftarrow> APWRw ADPh ECT_REG_STADR (slave + EC_NODEOFFSET) c;
     (_, c) \<leftarrow> APWRw ADPh ECT_REG_DLCTL (if slave = 1 then 1 else 0) c;
     (cadr, c) \<leftarrow> APRDw ADPh ECT_REG_STADR c;
     c \<leftarrow> upd_slave slave (\<lambda>s. s\<lparr>configadr := cadr\<rparr>) c;
     (_, d, c) \<leftarrow> read_FPRD cadr ECT_REG_ALIAS 2 (replicate 2 0) EC_TIMEOUTRET3 c;
     c \<leftarrow> upd_slave slave (\<lambda>s. s\<lparr>aliasadr := le_word d\<rparr>) c;
     (_, d, c) \<leftarrow> read_FPRD cadr ECT_REG_EEPSTAT 2 (replicate 2 0) EC_TIMEOUTRET3 c;
     c \<leftarrow> (if (le_word d :: u16) AND EC_ESTAT_R64 \<noteq> 0 then upd_slave slave (\<lambda>s. s\<lparr>eep_8byte := 1\<rparr>) c
          else Some c);
     ecx_readeeprom1 slave ECT_SII_MANUF c }"

text \<open>One of the rounds that collect an EEPROM word asked for before and ask for the next one.\<close>

definition init_word ::
  "(u32 \<Rightarrow> ec_slavet \<Rightarrow> ec_slavet) \<Rightarrow> u16 \<Rightarrow> nat \<Rightarrow> ecx_contextt \<Rightarrow> ecx_contextt option" where
  "init_word store ask i c = do {
     (eedat, c) \<leftarrow> ecx_readeeprom2 (of_nat i) EC_TIMEOUTEEP c;
     c \<leftarrow> upd_slave (of_nat i) (store eedat) c;
     ecx_readeeprom1 (of_nat i) ask c }"

definition init_mailbox :: "nat \<Rightarrow> ecx_contextt \<Rightarrow> ecx_contextt option" where
  "init_mailbox i c = do {
     (eedat, c) \<leftarrow> ecx_readeeprom2 (of_nat i) EC_TIMEOUTEEP c;
     c \<leftarrow> upd_slave (of_nat i) (\<lambda>s. s\<lparr>mbx_wo := LO_WORD eedat, mbx_l := HI_WORD eedat\<rparr>) c;
     if 0 < HI_WORD eedat then ecx_readeeprom1 (of_nat i) ECT_SII_TXMBXADR c else Some c }"

definition init_mailbox_in :: "u16 \<Rightarrow> ecx_contextt \<Rightarrow> ecx_contextt option" where
  "init_mailbox_in slave c = do {
     s \<leftarrow> slave_at slave c;
     if 0 < mbx_l s
     then do {
       (eedat, c) \<leftarrow> ecx_readeeprom2 slave EC_TIMEOUTEEP c;
       c \<leftarrow> upd_slave slave (\<lambda>s. s\<lparr>mbx_ro := LO_WORD eedat,
              mbx_rl := if HI_WORD eedat = 0 then mbx_l s else HI_WORD eedat\<rparr>) c;
       ecx_readeeprom1 slave ECT_SII_MBXPROTO c }
     else Some c }"

section \<open>Topology\<close>

text \<open>The ports with a link, from the DL status: their number and their bits.\<close>

definition port_links :: "u16 \<Rightarrow> byte \<times> byte" where
  "port_links topo =
     (let (h, b) = (0, 0);
          (h, b) = (if topo AND 0x0300 = 0x0200 then (h + 1, b OR 0x01) else (h, b));
          (h, b) = (if topo AND 0x0c00 = 0x0800 then (h + 1, b OR 0x02) else (h, b));
          (h, b) = (if topo AND 0x3000 = 0x2000 then (h + 1, b OR 0x04) else (h, b))
      in if topo AND 0xc000 = 0x8000 then (h + 1, b OR 0x08) else (h, b))"

text \<open>The search for the parent goes back over the slaves before; \<open>topos k\<close> is the number of links of
  slave \<open>k\<close>.\<close>

definition topoc_step :: "byte \<Rightarrow> int \<Rightarrow> int" where
  "topoc_step t topoc =
     (let topoc = (if t = 1 then topoc - 1 else topoc);
          topoc = (if t = 3 then topoc + 1 else topoc)
      in if t = 4 then topoc + 2 else topoc)"

definition parent_step :: "(int \<Rightarrow> byte option) \<Rightarrow> int \<times> int \<times> int \<Rightarrow> (int \<times> int \<times> int) option" where
  "parent_step topos = (\<lambda>(topoc, slavec, up). do {
     t \<leftarrow> topos slavec;
     let topoc = topoc_step t topoc;
     Some (if 0 \<le> topoc \<and> 1 < t \<or> slavec = 1 then (topoc, 0, slavec) else (topoc, slavec - 1, up)) })"

definition find_parent :: "(int \<Rightarrow> byte option) \<Rightarrow> u16 \<Rightarrow> int option" where
  "find_parent topos slave =
     (if 1 < slave
      then do {
        (_, _, up) \<leftarrow> do_while (parent_step topos) (\<lambda>(topoc, slavec, up). Some (0 < slavec, topoc, slavec, up))
           (0, uint slave - 1, 0);
        Some up }
      else Some 0)"

definition slave_topology :: "ecx_contextt \<Rightarrow> int \<Rightarrow> byte option" where
  "slave_topology c k = do { s \<leftarrow> aget (slavelist c) (nat k); Some (topology s) }"

definition init_topology :: "u16 \<Rightarrow> ecx_contextt \<Rightarrow> ecx_contextt option" where
  "init_topology slave c = do {
     s \<leftarrow> slave_at slave c;
     let cadr = configadr s;
     (val16, c) \<leftarrow> FPRDw cadr ECT_REG_ESCSUP c;
     c \<leftarrow> upd_slave slave (\<lambda>s. s\<lparr>hasdc := (0 < val16 AND 0x04)\<rparr>) c;
     (topo, c) \<leftarrow> FPRDw cadr ECT_REG_DLSTAT c;
     let (h, b) = port_links topo;
     (val16, c) \<leftarrow> FPRDw cadr ECT_REG_PORTDES c;
     c \<leftarrow> upd_slave slave (\<lambda>s. s\<lparr>ptype := ucast val16, topology := h, activeports := b, parent := 0\<rparr>) c;
     up \<leftarrow> find_parent (slave_topology c) slave;
     upd_slave slave (\<lambda>s. s\<lparr>parent := of_int up\<rparr>) c }"

section \<open>Settings from the EEPROM\<close>

definition hex_digit :: "u32 \<Rightarrow> byte" where
  "hex_digit d = (if d < 10 then 0x30 + ucast d else 0x57 + ucast d)"

text \<open>\<open>%8.8x\<close>\<close>

definition hex8 :: "u32 \<Rightarrow> bytes" where
  "hex8 w = map (\<lambda>i. hex_digit (drop_bit (4 * (7 - i)) w AND 0xf)) [0..<8]"

definition made_up_name :: "u32 \<Rightarrow> u32 \<Rightarrow> bytes" where
  "made_up_name man i = map of_char ''? M:'' @ hex8 man @ map of_char '' I:'' @ hex8 i @ [0]"

definition sii_general :: "u16 \<Rightarrow> u16 \<Rightarrow> ecx_contextt \<Rightarrow> ecx_contextt option" where
  "sii_general slave ssigen c = do {
     (b, c) \<leftarrow> ecx_siigetbyte slave (ssigen + 0x07) c;
     c \<leftarrow> upd_slave slave (\<lambda>s. s\<lparr>CoEdetails := b\<rparr>) c;
     (b, c) \<leftarrow> ecx_siigetbyte slave (ssigen + 0x08) c;
     c \<leftarrow> upd_slave slave (\<lambda>s. s\<lparr>FoEdetails := b\<rparr>) c;
     (b, c) \<leftarrow> ecx_siigetbyte slave (ssigen + 0x09) c;
     c \<leftarrow> upd_slave slave (\<lambda>s. s\<lparr>EoEdetails := b\<rparr>) c;
     (b, c) \<leftarrow> ecx_siigetbyte slave (ssigen + 0x0a) c;
     c \<leftarrow> upd_slave slave (\<lambda>s. s\<lparr>SoEdetails := b\<rparr>) c;
     (b, c) \<leftarrow> ecx_siigetbyte slave (ssigen + 0x0d) c;
     c \<leftarrow> (if 0 < b AND 0x02
          then do {
            c \<leftarrow> upd_slave slave (\<lambda>s. s\<lparr>blockLRW := 1\<rparr>) c;
            upd_slave 0 (\<lambda>m. m\<lparr>blockLRW := blockLRW m + 1\<rparr>) c }
          else Some c);
     (lo, c) \<leftarrow> ecx_siigetbyte slave (ssigen + 0x0e) c;
     c \<leftarrow> upd_slave slave (\<lambda>s. s\<lparr>Ebuscurrent := ucast lo\<rparr>) c;
     (hi, c) \<leftarrow> ecx_siigetbyte slave (ssigen + 0x0f) c;
     c \<leftarrow> upd_slave slave (\<lambda>s. s\<lparr>Ebuscurrent := Ebuscurrent s + push_bit 8 (ucast hi)\<rparr>) c;
     s \<leftarrow> slave_at slave c;
     upd_slave 0 (\<lambda>m. m\<lparr>Ebuscurrent := Ebuscurrent m + Ebuscurrent s\<rparr>) c }"

definition sii_name :: "u16 \<Rightarrow> ecx_contextt \<Rightarrow> ecx_contextt option" where
  "sii_name slave c = do {
     (st, c) \<leftarrow> ecx_siifind slave ECT_SII_STRING c;
     s \<leftarrow> slave_at slave c;
     if 0 < st
     then do {
       (str, c) \<leftarrow> ecx_siistring (name s) slave 1 c;
       upd_slave slave (\<lambda>s. s\<lparr>name := str\<rparr>) c }
     else do {
       str \<leftarrow> mem_write (name s) 0 (made_up_name (eep_man s) (eep_id s));
       upd_slave slave (\<lambda>s. s\<lparr>name := str\<rparr>) c } }"

text \<open>Taking over a sync manager of the EEPROM.\<close>

definition take_SM :: "u16 \<Rightarrow> nat \<Rightarrow> ecx_contextt \<Rightarrow> ecx_contextt option" where
  "take_SM slave i c =
     (let e = eepSM c
      in upd_SM slave i (\<lambda>m. m\<lparr>StartAddr := PhStart e, SMlength := Plength e,
           SMflags := ucast (Creg e) + push_bit 16 (ucast (Activate e))\<rparr>) c)"

text \<open>The flag says whether the loop over the further sync managers still goes on.\<close>

definition sii_SM_next :: "u16 \<Rightarrow> nat \<Rightarrow> bool \<times> ecx_contextt \<Rightarrow> (bool \<times> ecx_contextt) option" where
  "sii_SM_next slave SMc = (\<lambda>(go, c).
     if go
     then do {
       (r, S, c) \<leftarrow> ecx_siiSMnext slave (eepSM c) (of_nat SMc) c;
       let c = c\<lparr>eepSM := S\<rparr>;
       if r \<noteq> 0 then do { c \<leftarrow> take_SM slave SMc c; Some (True, c) } else Some (False, c) }
     else Some (False, c))"

definition sii_SMs :: "u16 \<Rightarrow> ecx_contextt \<Rightarrow> ecx_contextt option" where
  "sii_SMs slave c = do {
     (nSM, S, c) \<leftarrow> ecx_siiSM slave (eepSM c) c;
     let c = c\<lparr>eepSM := S\<rparr>;
     if 0 < nSM
     then do {
       c \<leftarrow> take_SM slave 0 c;
       (_, c) \<leftarrow> for_each (sii_SM_next slave) [1..<EC_MAXSM] (True, c);
       Some c }
     else Some c }"

definition sii_FMMUs :: "u16 \<Rightarrow> ecx_contextt \<Rightarrow> ecx_contextt option" where
  "sii_FMMUs slave c = do {
     (n, F, c) \<leftarrow> ecx_siiFMMU slave (eepFMMU c) c;
     let c = c\<lparr>eepFMMU := F\<rparr>;
     if n \<noteq> 0
     then upd_slave slave (\<lambda>s. s\<lparr>FMMU0func := if FMMU0 F \<noteq> 0xff then FMMU0 F else FMMU0func s,
            FMMU1func := if FMMU1 F \<noteq> 0xff then FMMU1 F else FMMU1func s,
            FMMU2func := if FMMU2 F \<noteq> 0xff then FMMU2 F else FMMU2func s,
            FMMU3func := if FMMU3 F \<noteq> 0xff then FMMU3 F else FMMU3func s\<rparr>) c
     else Some c }"

definition init_from_sii :: "u16 \<Rightarrow> ecx_contextt \<Rightarrow> ecx_contextt option" where
  "init_from_sii slave c = do {
     (ssigen, c) \<leftarrow> ecx_siifind slave ECT_SII_GENERAL c;
     c \<leftarrow> (if ssigen \<noteq> 0 then sii_general slave ssigen c else Some c);
     c \<leftarrow> sii_name slave c;
     c \<leftarrow> sii_SMs slave c;
     sii_FMMUs slave c }"

section \<open>Mailbox and state\<close>

definition smt_bytes :: "ec_smt \<Rightarrow> bytes" where
  "smt_bytes m = le_bytes 2 (StartAddr m) @ le_bytes 2 (SMlength m) @ le_bytes 4 (SMflags m)"

definition init_mbx_defaults :: "u16 \<Rightarrow> ecx_contextt \<Rightarrow> ecx_contextt option" where
  "init_mbx_defaults slave c = do {
     s \<leftarrow> slave_at slave c;
     if 0 < mbx_l s
     then do {
       c \<leftarrow> set_SMtype slave 0 1 c;
       c \<leftarrow> set_SMtype slave 1 2 c;
       c \<leftarrow> set_SMtype slave 2 3 c;
       c \<leftarrow> set_SMtype slave 3 4 c;
       c \<leftarrow> upd_SM slave 0 (\<lambda>m. m\<lparr>StartAddr := mbx_wo s, SMlength := mbx_l s, SMflags := EC_DEFAULTMBXSM0\<rparr>) c;
       c \<leftarrow> upd_SM slave 1 (\<lambda>m. m\<lparr>StartAddr := mbx_ro s, SMlength := mbx_rl s, SMflags := EC_DEFAULTMBXSM1\<rparr>) c;
       (eedat, c) \<leftarrow> ecx_readeeprom2 slave EC_TIMEOUTEEP c;
       upd_slave slave (\<lambda>s. s\<lparr>mbx_proto := ucast eedat\<rparr>) c }
     else Some c }"

text \<open>A mailbox sync manager the settings left without address gets a default.\<close>

definition default_SM :: "u16 \<Rightarrow> nat \<Rightarrow> u16 \<Rightarrow> u32 \<Rightarrow> byte \<Rightarrow> ecx_contextt \<Rightarrow> ecx_contextt option" where
  "default_SM slave i adr flags ty c = do {
     s \<leftarrow> slave_at slave c;
     m \<leftarrow> aget (SM s) i;
     if StartAddr m = 0x0000
     then do {
       c \<leftarrow> upd_SM slave i (\<lambda>m. m\<lparr>StartAddr := adr, SMlength := 0x0080, SMflags := flags\<rparr>) c;
       set_SMtype slave i ty c }
     else Some c }"

definition init_mbx_program :: "u16 \<Rightarrow> u16 \<Rightarrow> ecx_contextt \<Rightarrow> ecx_contextt option" where
  "init_mbx_program slave cadr c = do {
     s \<leftarrow> slave_at slave c;
     if 0 < mbx_l s
     then do {
       c \<leftarrow> default_SM slave 0 0x1000 EC_DEFAULTMBXSM0 1 c;
       c \<leftarrow> default_SM slave 1 0x1080 EC_DEFAULTMBXSM1 2 c;
       s \<leftarrow> slave_at slave c;
       m0 \<leftarrow> aget (SM s) 0;
       m1 \<leftarrow> aget (SM s) 1;
       (_, c) \<leftarrow> write_FPWR cadr ECT_REG_SM0 16 (smt_bytes m0 @ smt_bytes m1) EC_TIMEOUTRET3 c;
       Some c }
     else Some c }"

definition init_slave :: "bool \<Rightarrow> nat \<Rightarrow> ecx_contextt \<Rightarrow> ecx_contextt option" where
  "init_slave usetable i c = do {
     let slave = of_nat i;
     c \<leftarrow> init_mailbox_in slave c;
     s \<leftarrow> slave_at slave c;
     let cadr = configadr s;
     c \<leftarrow> init_topology slave c;
     (_, c) \<leftarrow> ecx_statecheck slave EC_STATE_INIT EC_TIMEOUTSTATE c;
     c \<leftarrow> init_mbx_defaults slave c;
     (cindex, c) \<leftarrow> (if usetable then ecx_config_from_table slave c else Some (0, c));
     (found, c) \<leftarrow> (if cindex = 0 then ecx_lookup_prev_sii slave c else Some (True, c));
     c \<leftarrow> (if found then Some c else init_from_sii slave c);
     c \<leftarrow> init_mbx_program slave cadr c;
     (_, c) \<leftarrow> ecx_eeprom2pdi slave c;
     if \<not> manualstatechange c
     then do {
       (_, c) \<leftarrow> on_port (ecx_FPWRw cadr ECT_REG_ALCTL (EC_STATE_PRE_OP OR EC_STATE_ACK) EC_TIMEOUTRET3) c;
       Some c }
     else Some c }"

definition slaves_of :: "ecx_contextt \<Rightarrow> nat list" where
  "slaves_of c = [1..<Suc (nat (slavecount c))]"

definition ecx_config_init :: "byte \<Rightarrow> ecx_contextt \<Rightarrow> (int \<times> ecx_contextt) option" where
  "ecx_config_init usetable c = do {
     c \<leftarrow> ecx_init_context c;
     (wkc, c) \<leftarrow> ecx_detect_slaves c;
     if 0 < wkc
     then do {
       c \<leftarrow> ecx_set_slaves_to_default c;
       let slaves = slaves_of c;
       c \<leftarrow> for_each init_address slaves c;
       c \<leftarrow> for_each (init_word (\<lambda>w s. s\<lparr>eep_man := w\<rparr>) ECT_SII_ID) slaves c;
       c \<leftarrow> for_each (init_word (\<lambda>w s. s\<lparr>eep_id := w\<rparr>) ECT_SII_REV) slaves c;
       c \<leftarrow> for_each (init_word (\<lambda>w s. s\<lparr>eep_rev := w\<rparr>) ECT_SII_RXMBXADR) slaves c;
       c \<leftarrow> for_each init_mailbox slaves c;
       c \<leftarrow> for_each (init_slave (usetable = 1)) slaves c;
       Some (wkc, c) }
     else Some (wkc, c) }"

end
