(* ===== verification/Config_Map.thy ===== *)
theory Config_Map
  imports Config_Scan
begin

text \<open>
  Mapping the process data of the slaves into the process image
  (\<open>soem_lib/soem/ethercatconfig.c\<close>): the sizes of a slave's inputs and outputs, its sync managers,
  and the FMMUs that place them at logical addresses.

  \<open>pIOmap\<close> is the offset in the process image the application passes. A hook for the step from Pre-Op
  to Safe-Op is the application's; it is the argument \<open>hook\<close> (\<open>hookx\<close> for the one that gets the
  context), called when the slave has one registered. \<open>EC_MAX_MAPT\<close> is 1, so mappings are read
  serially, by thread 0, and no thread is ever waited for.
\<close>

abbreviation (input) ECT_MBXPROT_COE :: u16 where "ECT_MBXPROT_COE \<equiv> 0x0004"
abbreviation (input) ECT_MBXPROT_SOE :: u16 where "ECT_MBXPROT_SOE \<equiv> 0x0010"
abbreviation (input) ECT_COEDET_SDOCA :: byte where "ECT_COEDET_SDOCA \<equiv> 0x20"

type_synonym config_hook = "u16 \<Rightarrow> ecx_contextt \<Rightarrow> ecx_contextt option"

section \<open>The sizes of a slave's data\<close>

definition ecx_lookup_mapping :: "u16 \<Rightarrow> u32 \<Rightarrow> u32 \<Rightarrow> ecx_contextt \<Rightarrow> (bool \<times> u32 \<times> u32 \<times> ecx_contextt) option" where
  "ecx_lookup_mapping slave Osize Isize c =
     (if 1 < slave \<and> 0 < slavecount c
      then do {
        i \<leftarrow> prev_sii slave c;
        if i < unat slave
        then do {
          s \<leftarrow> slave_at (of_nat i) c;
          c \<leftarrow> upd_slave slave (\<lambda>d. d\<lparr>SM := map2 (\<lambda>m n. m\<lparr>SMlength := SMlength n\<rparr>) (SM d) (SM s),
                 SMtype := SMtype s, Obits := Obits s, Ibits := Ibits s\<rparr>) c;
          Some (True, ucast (Obits s), ucast (Ibits s), c) }
        else Some (False, Osize, Isize, c) }
      else Some (False, Osize, Isize, c))"

definition call_hooks :: "config_hook \<Rightarrow> config_hook \<Rightarrow> u16 \<Rightarrow> ecx_contextt \<Rightarrow> ecx_contextt option" where
  "call_hooks hook hookx slave c = do {
     s \<leftarrow> slave_at slave c;
     c \<leftarrow> (if PO2SOconfig s then hook slave c else Some c);
     s \<leftarrow> slave_at slave c;
     if PO2SOconfigx s then hookx slave c else Some c }"

definition map_coe :: "u16 \<Rightarrow> nat \<Rightarrow> ecx_contextt \<Rightarrow> (u32 \<times> u32 \<times> ecx_contextt) option" where
  "map_coe slave Thread_n c = do {
     s \<leftarrow> slave_at slave c;
     (rval, Osize, Isize, c) \<leftarrow>
       (if CoEdetails s AND ECT_COEDET_SDOCA \<noteq> 0 then ecx_readPDOmapCA slave Thread_n c
        else Some (0, 0, 0, c));
     if rval = 0
     then do { (_, Osize, Isize, c) \<leftarrow> ecx_readPDOmap slave c; Some (Osize, Isize, c) }
     else Some (Osize, Isize, c) }"

definition map_soe :: "u16 \<Rightarrow> ecx_contextt \<Rightarrow> (u32 \<times> u32 \<times> ecx_contextt) option" where
  "map_soe slave c = do {
     (_, Osize, Isize, c) \<leftarrow> ecx_readIDNmap slave c;
     c \<leftarrow> upd_SM slave 2 (\<lambda>m. m\<lparr>SMlength := ucast ((Osize + 7) div 8)\<rparr>) c;
     c \<leftarrow> upd_SM slave 3 (\<lambda>m. m\<lparr>SMlength := ucast ((Isize + 7) div 8)\<rparr>) c;
     Some (Osize, Isize, c) }"

definition ecx_map_coe_soe :: "config_hook \<Rightarrow> config_hook \<Rightarrow> u16 \<Rightarrow> nat \<Rightarrow> ecx_contextt \<Rightarrow> ecx_contextt option" where
  "ecx_map_coe_soe hook hookx slave Thread_n c = do {
     (_, c) \<leftarrow> ecx_statecheck slave EC_STATE_PRE_OP EC_TIMEOUTSTATE c;
     c \<leftarrow> call_hooks hook hookx slave c;
     s \<leftarrow> slave_at slave c;
     if configindex s = 0
     then do {
       (Osize, Isize, c) \<leftarrow> (if mbx_proto s AND ECT_MBXPROT_COE \<noteq> 0 then map_coe slave Thread_n c
                            else Some (0, 0, c));
       s \<leftarrow> slave_at slave c;
       (Osize, Isize, c) \<leftarrow>
         (if Isize = 0 \<and> Osize = 0 \<and> mbx_proto s AND ECT_MBXPROT_SOE \<noteq> 0 then map_soe slave c
          else Some (Osize, Isize, c));
       upd_slave slave (\<lambda>s. s\<lparr>Obits := ucast Osize, Ibits := ucast Isize\<rparr>) c }
     else Some c }"

definition zero_PDO :: ec_eepromPDOt where
  "zero_PDO = \<lparr>p_Startpos = 0, p_Length = 0, nPDO = 0, p_Index = replicate EC_MAXEEPDO 0,
     SyncM = replicate EC_MAXEEPDO 0, BitSize = replicate EC_MAXEEPDO 0, SMbitsize = replicate EC_MAXSM 0\<rparr>"

text \<open>The lengths of the sync managers of one direction, from the PDOs of the EEPROM.\<close>

definition sii_SM_length :: "u16 \<Rightarrow> ec_eepromPDOt \<Rightarrow> byte \<Rightarrow> nat \<Rightarrow> ecx_contextt \<Rightarrow> ecx_contextt option" where
  "sii_SM_length slave P t j c = do {
     b \<leftarrow> aget (SMbitsize P) j;
     if 0 < b
     then do {
       c \<leftarrow> upd_SM slave j (\<lambda>m. m\<lparr>SMlength := bits_to_bytes b\<rparr>) c;
       set_SMtype slave j t c }
     else Some c }"

definition map_sii_pdos :: "u16 \<Rightarrow> ecx_contextt \<Rightarrow> (u32 \<times> u32 \<times> ecx_contextt) option" where
  "map_sii_pdos slave c = do {
     (Isize, P, c) \<leftarrow> ecx_siiPDO slave zero_PDO 0 c;
     c \<leftarrow> for_each (sii_SM_length slave P 4) [0..<EC_MAXSM] c;
     (Osize, P, c) \<leftarrow> ecx_siiPDO slave P 1 c;
     c \<leftarrow> for_each (sii_SM_length slave P 3) [0..<EC_MAXSM] c;
     Some (Osize, Isize, c) }"

definition ecx_map_sii :: "u16 \<Rightarrow> ecx_contextt \<Rightarrow> ecx_contextt option" where
  "ecx_map_sii slave c = do {
     s \<leftarrow> slave_at slave c;
     let Osize = (ucast (Obits s) :: u32);
     let Isize = (ucast (Ibits s) :: u32);
     (_, Osize, Isize, c) \<leftarrow> (if Isize = 0 \<and> Osize = 0 then ecx_lookup_mapping slave Osize Isize c
                             else Some (False, Osize, Isize, c));
     (Osize, Isize, c) \<leftarrow> (if Isize = 0 \<and> Osize = 0 then map_sii_pdos slave c else Some (Osize, Isize, c));
     upd_slave slave (\<lambda>s. s\<lparr>Obits := ucast Osize, Ibits := ucast Isize\<rparr>) c }"

section \<open>Programming the sync managers\<close>

definition program_SM :: "u16 \<Rightarrow> u16 \<Rightarrow> nat \<Rightarrow> ecx_contextt \<Rightarrow> ecx_contextt option" where
  "program_SM slave cadr j c = do {
     s \<leftarrow> slave_at slave c;
     m \<leftarrow> aget (SM s) j;
     (_, c) \<leftarrow> write_FPWR cadr (ECT_REG_SM0 + of_nat (8 * j)) 8 (smt_bytes m) EC_TIMEOUTRET3 c;
     Some c }"

definition map_sm_simple :: "u16 \<Rightarrow> u16 \<Rightarrow> nat \<Rightarrow> ecx_contextt \<Rightarrow> ecx_contextt option" where
  "map_sm_simple slave cadr j c = do {
     s \<leftarrow> slave_at slave c;
     m \<leftarrow> aget (SM s) j;
     if mbx_l s = 0 \<and> StartAddr m \<noteq> 0 then program_SM slave cadr j c else Some c }"

definition map_sm_data :: "u16 \<Rightarrow> u16 \<Rightarrow> nat \<Rightarrow> ecx_contextt \<Rightarrow> ecx_contextt option" where
  "map_sm_data slave cadr j c = do {
     s \<leftarrow> slave_at slave c;
     m \<leftarrow> aget (SM s) j;
     if StartAddr m \<noteq> 0
     then do {
       c \<leftarrow> upd_SM slave j (\<lambda>m. m\<lparr>SMflags := if SMlength m = 0 then SMflags m AND EC_SMENABLEMASK
                                            else SMflags m OR NOT EC_SMENABLEMASK\<rparr>) c;
       program_SM slave cadr j c }
     else Some c }"

definition ecx_map_sm :: "u16 \<Rightarrow> ecx_contextt \<Rightarrow> ecx_contextt option" where
  "ecx_map_sm slave c = do {
     s \<leftarrow> slave_at slave c;
     let cadr = configadr s;
     c \<leftarrow> map_sm_simple slave cadr 0 c;
     c \<leftarrow> map_sm_simple slave cadr 1 c;
     c \<leftarrow> for_each (map_sm_data slave cadr) [2..<EC_MAXSM] c;
     upd_slave slave (\<lambda>s. s\<lparr>
        Ibytes := if 7 < Ibits s then ucast (bits_to_bytes (Ibits s)) else Ibytes s,
        Obytes := if 7 < Obits s then ucast (bits_to_bytes (Obits s)) else Obytes s\<rparr>) c }"

definition in_group :: "byte \<Rightarrow> ec_slavet \<Rightarrow> bool" where
  "in_group g s \<longleftrightarrow> g = 0 \<or> g = group s"

definition ecx_config_find_mappings :: "config_hook \<Rightarrow> config_hook \<Rightarrow> byte \<Rightarrow> ecx_contextt \<Rightarrow> ecx_contextt option" where
  "ecx_config_find_mappings hook hookx g c = do {
     c \<leftarrow> for_each (\<lambda>i c. do {
            s \<leftarrow> slave_at (of_nat i) c;
            if in_group g s then ecx_map_coe_soe hook hookx (of_nat i) 0 c else Some c }) (slaves_of c) c;
     for_each (\<lambda>i c. do {
       s \<leftarrow> slave_at (of_nat i) c;
       if in_group g s
       then do { c \<leftarrow> ecx_map_sii (of_nat i) c; ecx_map_sm (of_nat i) c }
       else Some c }) (slaves_of c) c }"

end
