(* ===== verification/Config_Fmmu.thy ===== *)
theory Config_Fmmu
  imports Config_Map
begin

text \<open>
  Placing the slaves at logical addresses (\<open>soem_lib/soem/ethercatconfig.c\<close>): the FMMUs of a slave's
  outputs and inputs, the segments of a group, sequential and overlapping mapping, and the recovery
  of a lost slave.

  \<open>ecx_config_create_output_mappings\<close> and \<open>ecx_config_create_input_mappings\<close> are the same code for
  the two directions but for the search for a free FMMU; the shared definitions take the direction
  \<open>out\<close> as an argument.
\<close>

section \<open>Sync managers that contribute to one FMMU\<close>

definition bits_of :: "bool \<Rightarrow> ec_slavet \<Rightarrow> u16" where
  "bits_of out s = (if out then Obits s else Ibits s)"

definition bytes_of :: "bool \<Rightarrow> ec_slavet \<Rightarrow> u32" where
  "bytes_of out s = (if out then Obytes s else Ibytes s)"

definition type_of :: "bool \<Rightarrow> byte" where
  "type_of out = (if out then 3 else 4)"

text \<open>The next sync manager of the wanted type; the last one is taken in any case.\<close>

function skip_SM :: "byte \<Rightarrow> bytes \<Rightarrow> nat \<Rightarrow> nat" where
  "skip_SM t ts SMc = (if SMc < EC_MAXSM - 1 \<and> ts ! SMc \<noteq> t then skip_SM t ts (SMc + 1) else SMc)"
  by pat_completeness auto
termination by (relation "measure (\<lambda>(t, ts, SMc). EC_MAXSM - SMc)") auto

declare skip_SM.simps [simp del]

lemma skip_SM_ge: "k \<le> skip_SM t ts k"
proof (induction t ts k rule: skip_SM.induct)
  case (1 t ts k)
  then show ?case by (subst skip_SM.simps) (auto dest: Suc_leD simp: One_nat_def)
qed

text \<open>Further sync managers whose addresses connect. The loop leaves \<open>SMc\<close> at the one it stopped at.\<close>

function gather_SM ::
  "byte \<Rightarrow> int \<Rightarrow> ec_slavet \<Rightarrow> nat \<times> u16 \<times> int \<times> u16 \<Rightarrow> nat \<times> u16 \<times> int \<times> u16" where
  "gather_SM t bits s (SMc, ByteCount, BitCount, EndAddr) =
     (if BitCount < bits \<and> SMc < EC_MAXSM - 1
      then let k = skip_SM t (SMtype s) (SMc + 1); m = SM s ! k in
           if EndAddr < StartAddr m then (k, ByteCount, BitCount, EndAddr)
           else gather_SM t bits s (k, ByteCount + SMlength m, BitCount + uint (SMlength m) * 8,
                                    StartAddr m + SMlength m)
      else (SMc, ByteCount, BitCount, EndAddr))"
  by pat_completeness auto
termination
proof (relation "measure (\<lambda>(t, bits, s, SMc, _). EC_MAXSM - SMc)", goal_cases)
  case (2 t bits s SMc ByteCount BitCount EndAddr k m)
  then have "SMc < 7" "SMc + 1 \<le> k" using skip_SM_ge [of "SMc + 1" t "SMtype s"] by simp_all
  then have "EC_MAXSM - k < EC_MAXSM - SMc" by linarith
  then show ?case by simp
qed simp

declare gather_SM.simps [simp del]

section \<open>The FMMUs of one slave\<close>

text \<open>A pointer into the process image for a logical address; within a group, relative to its start.\<close>

definition map_pointer :: "nat \<Rightarrow> byte \<Rightarrow> u32 \<Rightarrow> ecx_contextt \<Rightarrow> nat option" where
  "map_pointer pIOmap g start c =
     (if g = 0 then Some (pIOmap + unat start)
      else do {
        gr \<leftarrow> group_at g c;
        if logstartaddr gr \<le> start then Some (pIOmap + unat (start - logstartaddr gr)) else None })"

definition upd_group :: "byte \<Rightarrow> (ec_groupt \<Rightarrow> ec_groupt) \<Rightarrow> ecx_contextt \<Rightarrow> ecx_contextt option" where
  "upd_group i f c = do {
     g \<leftarrow> group_at i c;
     gs \<leftarrow> aset (grouplist c) (unat i) (f g);
     Some (c\<lparr>grouplist := gs\<rparr>) }"

text \<open>The state of the loop over FMMUs; \<open>ByteCount\<close> and \<open>BitCount\<close> add up over all of them.\<close>

record fmmu_loop =
  l_SMc :: nat
  l_FMMUc :: nat
  l_done :: int
  l_ByteCount :: u16
  l_BitCount :: int
  l_LogAddr :: u32
  l_BitPos :: byte
  l_mapped :: bool

definition carry_bit :: "u32 \<times> byte \<Rightarrow> u32 \<times> byte" where
  "carry_bit = (\<lambda>(LogAddr, BitPos). if 7 < BitPos then (LogAddr + 1, BitPos - 8) else (LogAddr, BitPos))"

text \<open>Start, start bit, length and end bit of an FMMU, and the address after it, for a slave with less
  than a byte of data and for one with whole bytes.\<close>

definition place_bits :: "u16 \<Rightarrow> u32 \<Rightarrow> byte \<Rightarrow> u32 \<times> byte \<times> u16 \<times> byte \<times> u32 \<times> byte" where
  "place_bits bits LogAddr BitPos =
     (let (la, bp) = carry_bit (LogAddr, BitPos + (ucast bits - 1));
          (la2, bp2) = carry_bit (la, bp + 1)
      in (LogAddr, BitPos, ucast (la - LogAddr + 1), bp, la2, bp2))"

definition place_bytes :: "u32 \<Rightarrow> int \<Rightarrow> u16 \<Rightarrow> u32 \<Rightarrow> byte \<Rightarrow> u32 \<times> byte \<times> u16 \<times> byte \<times> u32 \<times> byte" where
  "place_bytes bytes don ByteCount LogAddr BitPos =
     (let la = (if BitPos \<noteq> 0 then LogAddr + 1 else LogAddr);
          size = (if sint bytes < uint ByteCount + don then ucast (bytes - of_int don) else ByteCount)
      in (la, 0, size, 7, la + ucast size, 0))"

definition fmmut_bytes :: "ec_fmmut \<Rightarrow> bytes" where
  "fmmut_bytes f = le_bytes 4 (LogStart f) @ le_bytes 2 (LogLength f) @ [LogStartbit f, LogEndbit f]
     @ le_bytes 2 (PhysStart f) @ [PhysStartBit f, FMMUtype f, FMMUactive f, unused1 f] @ le_bytes 2 (unused2 f)"

text \<open>Activating and writing an FMMU of non-zero length.\<close>

definition program_FMMU :: "bool \<Rightarrow> nat \<Rightarrow> ec_slavet \<Rightarrow> ecx_contextt \<Rightarrow> (ec_slavet \<times> ecx_contextt) option" where
  "program_FMMU out FMMUc s c = do {
     s \<leftarrow> put_FMMU FMMUc (\<lambda>f. f\<lparr>PhysStartBit := 0, FMMUtype := if out then 2 else 1, FMMUactive := 1\<rparr>) s;
     f \<leftarrow> aget (FMMU s) FMMUc;
     (_, c) \<leftarrow> write_FPWR (configadr s) (ECT_REG_FMMU0 + of_nat (16 * FMMUc)) 16 (fmmut_bytes f) EC_TIMEOUTRET3 c;
     Some (s, c) }"

text \<open>\<open>if (!slavelist[slave].outputs)\<close> the pointer to the data is set to the start of this FMMU.\<close>

definition set_pointer :: "bool \<Rightarrow> nat \<Rightarrow> byte \<Rightarrow> u32 \<Rightarrow> byte \<Rightarrow> ecx_contextt \<Rightarrow> ec_slavet \<Rightarrow> ec_slavet option" where
  "set_pointer out pIOmap g start startbit c s =
     (if (if out then outputs s else inputs s) = None
      then do {
        p \<leftarrow> map_pointer pIOmap g start c;
        Some (if out then s\<lparr>outputs := Some p, Ostartbit := startbit\<rparr>
              else s\<lparr>inputs := Some p, Istartbit := startbit\<rparr>) }
      else Some s)"

definition map_fmmu_round ::
  "bool \<Rightarrow> nat \<Rightarrow> byte \<Rightarrow> fmmu_loop \<times> ec_slavet \<times> ecx_contextt \<Rightarrow> (fmmu_loop \<times> ec_slavet \<times> ecx_contextt) option" where
  "map_fmmu_round out pIOmap g = (\<lambda>(L, s, c). do {
     let SMc = skip_SM (type_of out) (SMtype s) (l_SMc L);
     m \<leftarrow> aget (SM s) SMc;
     s \<leftarrow> put_FMMU (l_FMMUc L) (\<lambda>f. f\<lparr>PhysStart := StartAddr m\<rparr>) s;
     let (SMc, ByteCount, BitCount, _) = gather_SM (type_of out) (uint (bits_of out s)) s
           (SMc, l_ByteCount L + SMlength m, l_BitCount L + uint (SMlength m) * 8, StartAddr m + SMlength m);
     let (start, startbit, size, endbit, LogAddr, BitPos) =
           (if bytes_of out s = 0 then place_bits (bits_of out s) (l_LogAddr L) (l_BitPos L)
            else place_bytes (bytes_of out s) (l_done L) ByteCount (l_LogAddr L) (l_BitPos L));
     s \<leftarrow> put_FMMU (l_FMMUc L) (\<lambda>f. f\<lparr>LogStart := start, LogStartbit := startbit, LogLength := size,
            LogEndbit := endbit\<rparr>) s;
     (s, c) \<leftarrow> (if size \<noteq> 0 then program_FMMU out (l_FMMUc L) s c else Some (s, c));
     s \<leftarrow> set_pointer out pIOmap g start startbit c s;
     Some (\<lparr>l_SMc = SMc, l_FMMUc = l_FMMUc L + 1, l_done = l_done L + uint size, l_ByteCount = ByteCount,
            l_BitCount = BitCount, l_LogAddr = LogAddr, l_BitPos = BitPos, l_mapped = l_mapped L \<or> size \<noteq> 0\<rparr>,
           s, c) })"

definition create_mappings ::
  "bool \<Rightarrow> nat \<Rightarrow> byte \<Rightarrow> u16 \<Rightarrow> nat \<Rightarrow> u32 \<times> byte \<times> ecx_contextt \<Rightarrow> (u32 \<times> byte \<times> ecx_contextt) option" where
  "create_mappings out pIOmap g slave FMMUc = (\<lambda>(LogAddr, BitPos, c). do {
     s \<leftarrow> slave_at slave c;
     (L, s, c) \<leftarrow> while_do (\<lambda>(L, s, c). l_SMc L < EC_MAXSM \<and> l_done L < (uint (bits_of out s) + 7) div 8)
        (map_fmmu_round out pIOmap g)
        (\<lparr>l_SMc = 0, l_FMMUc = FMMUc, l_done = 0, l_ByteCount = 0, l_BitCount = 0, l_LogAddr = LogAddr,
          l_BitPos = BitPos, l_mapped = False\<rparr>, s, c);
     c \<leftarrow> set_slave slave (s\<lparr>FMMUunused := of_nat (l_FMMUc L)\<rparr>) c;
     c \<leftarrow> (if l_mapped L
          then upd_group g (\<lambda>gr. if out then gr\<lparr>outputsWKC := outputsWKC gr + 1\<rparr>
                                 else gr\<lparr>inputsWKC := inputsWKC gr + 1\<rparr>) c
          else Some c);
     Some (l_LogAddr L, l_BitPos L, c) })"

function free_FMMU :: "ec_fmmut list \<Rightarrow> nat \<Rightarrow> nat option" where
  "free_FMMU fs k = (if k < length fs then if LogStart (fs ! k) \<noteq> 0 then free_FMMU fs (k + 1) else Some k else None)"
  by pat_completeness auto
termination by (relation "measure (\<lambda>(fs, k). length fs - k)") auto

declare free_FMMU.simps [simp del]

definition ecx_config_create_output_mappings ::
  "nat \<Rightarrow> byte \<Rightarrow> u16 \<Rightarrow> u32 \<times> byte \<times> ecx_contextt \<Rightarrow> (u32 \<times> byte \<times> ecx_contextt) option" where
  "ecx_config_create_output_mappings pIOmap g slave = (\<lambda>(LogAddr, BitPos, c). do {
     s \<leftarrow> slave_at slave c;
     create_mappings True pIOmap g slave (unat (FMMUunused s)) (LogAddr, BitPos, c) })"

definition ecx_config_create_input_mappings ::
  "nat \<Rightarrow> byte \<Rightarrow> u16 \<Rightarrow> u32 \<times> byte \<times> ecx_contextt \<Rightarrow> (u32 \<times> byte \<times> ecx_contextt) option" where
  "ecx_config_create_input_mappings pIOmap g slave = (\<lambda>(LogAddr, BitPos, c). do {
     s \<leftarrow> slave_at slave c;
     FMMUc \<leftarrow> (if Obits s \<noteq> 0 then free_FMMU (FMMU s) (unat (FMMUunused s)) else Some (unat (FMMUunused s)));
     create_mappings False pIOmap g slave FMMUc (LogAddr, BitPos, c) })"

end
