(* ===== verification/Config_Group.thy ===== *)
theory Config_Group
  imports Config_Fmmu
begin

text \<open>
  Mapping a group of slaves (\<open>soem_lib/soem/ethercatconfig.c\<close>): sequential mapping, plain or byte
  aligned, overlapping mapping, and bringing back a slave that was lost.
\<close>

abbreviation (input) SEGMENT_MAX :: u32 where "SEGMENT_MAX \<equiv> of_nat (EC_MAXLRWDATA - EC_FIRSTDCDATAGRAM)"

section \<open>Segments\<close>

text \<open>Adding \<open>diff\<close> bytes to the current segment, or closing it and starting the next one with them.
  When the last segment is full they are dropped.\<close>

definition add_segment :: "byte \<Rightarrow> u32 \<Rightarrow> nat \<times> u32 \<times> ecx_contextt \<Rightarrow> (nat \<times> u32 \<times> ecx_contextt) option" where
  "add_segment g diff = (\<lambda>(currentsegment, segmentsize, c).
     if SEGMENT_MAX < segmentsize + diff
     then do {
       gr \<leftarrow> group_at g c;
       segs \<leftarrow> aset (IOsegment gr) currentsegment segmentsize;
       c \<leftarrow> upd_group g (\<lambda>gr. gr\<lparr>IOsegment := segs\<rparr>) c;
       if currentsegment < EC_MAXIOSEGMENTS - 1 then Some (currentsegment + 1, diff, c)
       else Some (currentsegment, segmentsize, c) }
     else Some (currentsegment, segmentsize + diff, c))"

text \<open>Closing the list of segments.\<close>

definition close_segments :: "byte \<Rightarrow> nat \<Rightarrow> u32 \<Rightarrow> ecx_contextt \<Rightarrow> ecx_contextt option" where
  "close_segments g currentsegment segmentsize c = do {
     gr \<leftarrow> group_at g c;
     segs \<leftarrow> aset (IOsegment gr) currentsegment segmentsize;
     upd_group g (\<lambda>gr. gr\<lparr>IOsegment := segs, nsegments := of_nat (currentsegment + 1)\<rparr>) c }"

text \<open>A byte only partly used is completed.\<close>

definition align_byte :: "u32 \<times> byte \<Rightarrow> u32 \<times> byte" where
  "align_byte = (\<lambda>(LogAddr, BitPos). if BitPos \<noteq> 0 then (LogAddr + 1, 0) else (LogAddr, BitPos))"

section \<open>Sequential mapping\<close>

type_synonym map_state = "u32 \<times> u32 \<times> byte \<times> nat \<times> u32 \<times> ecx_contextt"

text \<open>The part of the two loops over slaves that creates a mapping: the state is \<open>LogAddr\<close>, \<open>oLogAddr\<close>,
  \<open>BitPos\<close>, the current segment and its sz, and the context.\<close>

definition map_slave ::
  "(u16 \<Rightarrow> u32 \<times> byte \<times> ecx_contextt \<Rightarrow> (u32 \<times> byte \<times> ecx_contextt) option) \<Rightarrow> byte \<Rightarrow> bool \<Rightarrow> u16 \<Rightarrow>
     map_state \<Rightarrow> map_state option" where
  "map_slave create g forceByteAlignment slave = (\<lambda>(LogAddr, oLogAddr, BitPos, cur, sz, c). do {
     (LogAddr, BitPos, c) \<leftarrow> create slave (LogAddr, BitPos, c);
     let (LogAddr, BitPos) = (if forceByteAlignment then align_byte (LogAddr, BitPos) else (LogAddr, BitPos));
     (cur, sz, c) \<leftarrow> add_segment g (LogAddr - oLogAddr) (cur, sz, c);
     Some (LogAddr, LogAddr, BitPos, cur, sz, c) })"

definition map_outputs :: "nat \<Rightarrow> byte \<Rightarrow> bool \<Rightarrow> nat \<Rightarrow> map_state \<Rightarrow> map_state option" where
  "map_outputs pIOmap g force i = (\<lambda>(LogAddr, oLogAddr, BitPos, cur, sz, c). do {
     s \<leftarrow> slave_at (of_nat i) c;
     if in_group g s \<and> Obits s \<noteq> 0
     then map_slave (ecx_config_create_output_mappings pIOmap g) g force (of_nat i)
            (LogAddr, oLogAddr, BitPos, cur, sz, c)
     else Some (LogAddr, oLogAddr, BitPos, cur, sz, c) })"

text \<open>What is done for every slave of the group after its inputs were mapped.\<close>

definition slave_mapped :: "byte \<Rightarrow> u16 \<Rightarrow> u16 \<Rightarrow> ecx_contextt \<Rightarrow> ecx_contextt option" where
  "slave_mapped g slave cadr c = do {
     (_, c) \<leftarrow> ecx_eeprom2pdi slave c;
     c \<leftarrow> (if \<not> manualstatechange c
          then do {
            (_, c) \<leftarrow> on_port (ecx_FPWRw cadr ECT_REG_ALCTL EC_STATE_SAFE_OP EC_TIMEOUTRET3) c;
            Some c }
          else Some c);
     s \<leftarrow> slave_at slave c;
     c \<leftarrow> (if blockLRW s \<noteq> 0 then upd_group g (\<lambda>gr. gr\<lparr>g_blockLRW := g_blockLRW gr + 1\<rparr>) c else Some c);
     upd_group g (\<lambda>gr. gr\<lparr>g_Ebuscurrent := g_Ebuscurrent gr + Ebuscurrent s\<rparr>) c }"

definition map_inputs :: "nat \<Rightarrow> byte \<Rightarrow> bool \<Rightarrow> nat \<Rightarrow> map_state \<Rightarrow> map_state option" where
  "map_inputs pIOmap g force i = (\<lambda>(LogAddr, oLogAddr, BitPos, cur, sz, c). do {
     s \<leftarrow> slave_at (of_nat i) c;
     if in_group g s
     then do {
       (LogAddr, oLogAddr, BitPos, cur, sz, c) \<leftarrow>
         (if Ibits s \<noteq> 0
          then map_slave (ecx_config_create_input_mappings pIOmap g) g force (of_nat i)
                 (LogAddr, oLogAddr, BitPos, cur, sz, c)
          else Some (LogAddr, oLogAddr, BitPos, cur, sz, c));
       c \<leftarrow> slave_mapped g (of_nat i) (configadr s) c;
       Some (LogAddr, oLogAddr, BitPos, cur, sz, c) }
     else Some (LogAddr, oLogAddr, BitPos, cur, sz, c) })"

text \<open>\<open>if (BitPos)\<close> after a loop: the last byte counts whole.\<close>

definition map_finish :: "byte \<Rightarrow> map_state \<Rightarrow> map_state option" where
  "map_finish g = (\<lambda>(LogAddr, oLogAddr, BitPos, cur, sz, c).
     if BitPos \<noteq> 0
     then do {
       (cur, sz, c) \<leftarrow> add_segment g 1 (cur, sz, c);
       Some (LogAddr + 1, LogAddr + 1, 0, cur, sz, c) }
     else Some (LogAddr, oLogAddr, BitPos, cur, sz, c))"

definition map_start :: "byte \<Rightarrow> ecx_contextt \<Rightarrow> ecx_contextt option" where
  "map_start g = upd_group g (\<lambda>gr. gr\<lparr>nsegments := 0, outputsWKC := 0, inputsWKC := 0\<rparr>)"

definition map_outputs_done :: "nat \<Rightarrow> byte \<Rightarrow> u32 \<Rightarrow> nat \<Rightarrow> u32 \<Rightarrow> ecx_contextt \<Rightarrow> ecx_contextt option" where
  "map_outputs_done pIOmap g LogAddr cur sz c = do {
     gr \<leftarrow> group_at g c;
     c \<leftarrow> upd_group g (\<lambda>gr. gr\<lparr>g_outputs := Some pIOmap, g_Obytes := LogAddr - logstartaddr gr,
            nsegments := of_nat (cur + 1), Isegment := of_nat cur, Ioffset := ucast sz\<rparr>) c;
     if g = 0 then upd_slave 0 (\<lambda>m. m\<lparr>outputs := Some pIOmap, Obytes := LogAddr - logstartaddr gr\<rparr>) c
     else Some c }"

definition map_inputs_done :: "nat \<Rightarrow> byte \<Rightarrow> u32 \<Rightarrow> nat \<Rightarrow> u32 \<Rightarrow> ecx_contextt \<Rightarrow> (u32 \<times> ecx_contextt) option" where
  "map_inputs_done pIOmap g LogAddr cur sz c = do {
     c \<leftarrow> close_segments g cur sz c;
     gr \<leftarrow> group_at g c;
     let total = LogAddr - logstartaddr gr;
     c \<leftarrow> upd_group g (\<lambda>gr. gr\<lparr>g_inputs := Some (pIOmap + unat (g_Obytes gr)), g_Ibytes := total - g_Obytes gr\<rparr>) c;
     c \<leftarrow> (if g = 0
          then upd_slave 0 (\<lambda>m. m\<lparr>inputs := Some (pIOmap + unat (Obytes m)), Ibytes := total - Obytes m\<rparr>) c
          else Some c);
     Some (total, c) }"

text \<open>The process image from the start address on: first all outputs, then all inputs.\<close>

definition map_layout :: "nat \<Rightarrow> byte \<Rightarrow> bool \<Rightarrow> u32 \<Rightarrow> ecx_contextt \<Rightarrow> (u32 \<times> ecx_contextt) option" where
  "map_layout pIOmap g force LogAddr c = do {
     st \<leftarrow> for_each (map_outputs pIOmap g force) (slaves_of c) (LogAddr, LogAddr, 0, 0, 0, c);
     (LogAddr, oLogAddr, BitPos, cur, sz, c) \<leftarrow> map_finish g st;
     c \<leftarrow> map_outputs_done pIOmap g LogAddr cur sz c;
     st \<leftarrow> for_each (map_inputs pIOmap g force) (slaves_of c) (LogAddr, oLogAddr, BitPos, cur, sz, c);
     (LogAddr, _, _, cur, sz, c) \<leftarrow> map_finish g st;
     map_inputs_done pIOmap g LogAddr cur sz c }"

definition ecx_main_config_map_group ::
  "config_hook \<Rightarrow> config_hook \<Rightarrow> nat \<Rightarrow> byte \<Rightarrow> bool \<Rightarrow> ecx_contextt \<Rightarrow> (u32 \<times> ecx_contextt) option" where
  "ecx_main_config_map_group hook hookx pIOmap g force c =
     (if 0 < slavecount c \<and> uint g < maxgroup c
      then do {
        gr \<leftarrow> group_at g c;
        let LogAddr = logstartaddr gr;
        c \<leftarrow> map_start g c;
        c \<leftarrow> ecx_config_find_mappings hook hookx g c;
        map_layout pIOmap g force LogAddr c }
      else Some (0, c))"

definition ecx_config_map_group ::
  "config_hook \<Rightarrow> config_hook \<Rightarrow> nat \<Rightarrow> byte \<Rightarrow> ecx_contextt \<Rightarrow> (u32 \<times> ecx_contextt) option" where
  "ecx_config_map_group hook hookx pIOmap g = ecx_main_config_map_group hook hookx pIOmap g False"

definition ecx_config_map_group_aligned ::
  "config_hook \<Rightarrow> config_hook \<Rightarrow> nat \<Rightarrow> byte \<Rightarrow> ecx_contextt \<Rightarrow> (u32 \<times> ecx_contextt) option" where
  "ecx_config_map_group_aligned hook hookx pIOmap g = ecx_main_config_map_group hook hookx pIOmap g True"

section \<open>Overlapping mapping\<close>

text \<open>One slave: its outputs and its inputs both start at \<open>mLogAddr\<close>.\<close>

definition overlap_slave ::
  "nat \<Rightarrow> byte \<Rightarrow> nat \<Rightarrow> u32 \<times> u32 \<times> u32 \<times> byte \<times> nat \<times> u32 \<times> ecx_contextt \<Rightarrow>
     (u32 \<times> u32 \<times> u32 \<times> byte \<times> nat \<times> u32 \<times> ecx_contextt) option" where
  "overlap_slave pIOmap g i = (\<lambda>(mLogAddr, _, _, BitPos, cur, sz, c). do {
     let slave = of_nat i;
     s \<leftarrow> slave_at slave c;
     if in_group g s
     then do {
       (so, BitPos, c) \<leftarrow>
         (if Obits s \<noteq> 0
          then do {
            (la, bp, c) \<leftarrow> ecx_config_create_output_mappings pIOmap g slave (mLogAddr, BitPos, c);
            let (la, bp) = align_byte (la, bp);
            Some (la, bp, c) }
          else Some (mLogAddr, BitPos, c));
       (si, BitPos, c) \<leftarrow>
         (if Ibits s \<noteq> 0
          then do {
            (la, bp, c) \<leftarrow> ecx_config_create_input_mappings pIOmap g slave (mLogAddr, BitPos, c);
            let (la, bp) = align_byte (la, bp);
            Some (la, bp, c) }
          else Some (mLogAddr, BitPos, c));
       let temp = max si so;
       (cur, sz, c) \<leftarrow> add_segment g (temp - mLogAddr) (cur, sz, c);
       c \<leftarrow> slave_mapped g slave (configadr s) c;
       Some (temp, so, si, BitPos, cur, sz, c) }
     else Some (mLogAddr, mLogAddr, mLogAddr, BitPos, cur, sz, c) })"

text \<open>Moving the inputs of a slave behind the outputs.\<close>

definition shift_inputs :: "byte \<Rightarrow> nat \<Rightarrow> ecx_contextt \<Rightarrow> ecx_contextt option" where
  "shift_inputs g i c = do {
     s \<leftarrow> slave_at (of_nat i) c;
     if in_group g s \<and> 0 < Ibits s
     then do {
       gr \<leftarrow> group_at g c;
       p \<leftarrow> inputs s;
       upd_slave (of_nat i) (\<lambda>s. s\<lparr>inputs := Some (p + unat (g_Obytes gr))\<rparr>) c }
     else Some c }"

definition ecx_config_overlap_map_group ::
  "config_hook \<Rightarrow> config_hook \<Rightarrow> nat \<Rightarrow> byte \<Rightarrow> ecx_contextt \<Rightarrow> (u32 \<times> ecx_contextt) option" where
  "ecx_config_overlap_map_group hook hookx pIOmap g c =
     (if 0 < slavecount c \<and> uint g < maxgroup c
      then do {
        gr \<leftarrow> group_at g c;
        let start = logstartaddr gr;
        c \<leftarrow> map_start g c;
        c \<leftarrow> ecx_config_find_mappings hook hookx g c;
        (_, so, si, _, cur, sz, c) \<leftarrow> for_each (overlap_slave pIOmap g) (slaves_of c)
           (start, start, start, 0, 0, 0, c);
        c \<leftarrow> close_segments g cur sz c;
        c \<leftarrow> upd_group g (\<lambda>gr. gr\<lparr>Isegment := 0, Ioffset := 0, g_Obytes := so - start, g_Ibytes := si - start,
               g_outputs := Some pIOmap, g_inputs := Some (pIOmap + unat (so - start))\<rparr>) c;
        c \<leftarrow> for_each (shift_inputs g) (slaves_of c) c;
        c \<leftarrow> (if g = 0
             then upd_slave 0 (\<lambda>m. m\<lparr>outputs := Some pIOmap, Obytes := so - start,
                    inputs := Some (pIOmap + unat (so - start)), Ibytes := si - start\<rparr>) c
             else Some c);
        Some ((so - start) + (si - start), c) }
      else Some (0, c))"

section \<open>Bringing a slave back\<close>

text \<open>Is the slave at the temporary address the one configured before? Each question is asked only
  when the answers before agreed.\<close>

definition same_slave :: "u16 \<Rightarrow> int \<Rightarrow> ecx_contextt \<Rightarrow> (bool \<times> ecx_contextt) option" where
  "same_slave slave timeout c = do {
     (al, c) \<leftarrow> on_port (ecx_FPRDw EC_TEMPNODE ECT_REG_ALIAS timeout) c;
     s \<leftarrow> slave_at slave c;
     if al \<noteq> aliasadr s then Some (False, c)
     else do {
       (w, c) \<leftarrow> ecx_readeeprom slave ECT_SII_ID EC_TIMEOUTEEP c;
       if w \<noteq> eep_id s then Some (False, c)
       else do {
         (w, c) \<leftarrow> ecx_readeeprom slave ECT_SII_MANUF EC_TIMEOUTEEP c;
         if w \<noteq> eep_man s then Some (False, c)
         else do {
           (w, c) \<leftarrow> ecx_readeeprom slave ECT_SII_REV EC_TIMEOUTEEP c;
           Some (w = eep_rev s, c) } } } }"

definition ecx_recover_slave :: "u16 \<Rightarrow> int \<Rightarrow> ecx_contextt \<Rightarrow> (int \<times> ecx_contextt) option" where
  "ecx_recover_slave slave timeout c = do {
     s \<leftarrow> slave_at slave c;
     let cadr = configadr s;
     let ADPh = 1 - slave;
     (wkc, d, c) \<leftarrow> read_APRD ADPh ECT_REG_STADR 2 (le_bytes 2 (0xfffe :: u16)) timeout c;
     let readadr = (le_word d :: u16);
     if readadr = cadr then Some (1, c)
     else if 0 < wkc \<and> readadr = 0
     then do {
       (_, c) \<leftarrow> on_port (ecx_FPWRw EC_TEMPNODE ECT_REG_STADR 0 0) c;
       (wkc, c) \<leftarrow> on_port (ecx_APWRw ADPh ECT_REG_STADR EC_TEMPNODE timeout) c;
       if wkc \<le> 0
       then do {
         (_, c) \<leftarrow> on_port (ecx_FPWRw EC_TEMPNODE ECT_REG_STADR 0 0) c;
         Some (0, c) }
       else do {
         c \<leftarrow> upd_slave slave (\<lambda>s. s\<lparr>configadr := EC_TEMPNODE\<rparr>) c;
         (_, c) \<leftarrow> ecx_eeprom2master slave c;
         (same, c) \<leftarrow> same_slave slave timeout c;
         (rval, c) \<leftarrow> on_port (ecx_FPWRw EC_TEMPNODE ECT_REG_STADR (if same then cadr else 0) timeout) c;
         c \<leftarrow> upd_slave slave (\<lambda>s. s\<lparr>configadr := cadr\<rparr>) c;
         Some (if same then rval else 0, c) } }
     else Some (0, c) }"

definition reprogram_SM :: "u16 \<Rightarrow> u16 \<Rightarrow> int \<Rightarrow> nat \<Rightarrow> ecx_contextt \<Rightarrow> ecx_contextt option" where
  "reprogram_SM slave cadr timeout i c = do {
     s \<leftarrow> slave_at slave c;
     m \<leftarrow> aget (SM s) i;
     if StartAddr m \<noteq> 0
     then do {
       (_, c) \<leftarrow> write_FPWR cadr (ECT_REG_SM0 + of_nat (8 * i)) 8 (smt_bytes m) timeout c;
       Some c }
     else Some c }"

definition reprogram_FMMU :: "u16 \<Rightarrow> u16 \<Rightarrow> int \<Rightarrow> nat \<Rightarrow> ecx_contextt \<Rightarrow> ecx_contextt option" where
  "reprogram_FMMU slave cadr timeout i c = do {
     s \<leftarrow> slave_at slave c;
     f \<leftarrow> aget (FMMU s) i;
     (_, c) \<leftarrow> write_FPWR cadr (ECT_REG_FMMU0 + of_nat (16 * i)) 16 (fmmut_bytes f) timeout c;
     Some c }"

text \<open>From Pre-Op on: hooks, Safe-Op, and the FMMUs that are in use.\<close>

definition reconfig_preop :: "config_hook \<Rightarrow> config_hook \<Rightarrow> u16 \<Rightarrow> u16 \<Rightarrow> int \<Rightarrow> ecx_contextt \<Rightarrow> (u16 \<times> ecx_contextt) option" where
  "reconfig_preop hook hookx slave cadr timeout c = do {
     c \<leftarrow> call_hooks hook hookx slave c;
     (_, c) \<leftarrow> on_port (ecx_FPWRw cadr ECT_REG_ALCTL EC_STATE_SAFE_OP timeout) c;
     (st, c) \<leftarrow> ecx_statecheck slave EC_STATE_SAFE_OP EC_TIMEOUTSTATE c;
     s \<leftarrow> slave_at slave c;
     c \<leftarrow> for_each (reprogram_FMMU slave cadr timeout) [0..<unat (FMMUunused s)] c;
     Some (st, c) }"

definition ecx_reconfig_slave ::
  "config_hook \<Rightarrow> config_hook \<Rightarrow> u16 \<Rightarrow> int \<Rightarrow> ecx_contextt \<Rightarrow> (u16 \<times> ecx_contextt) option" where
  "ecx_reconfig_slave hook hookx slave timeout c = do {
     s \<leftarrow> slave_at slave c;
     let cadr = configadr s;
     (wkc, c) \<leftarrow> on_port (ecx_FPWRw cadr ECT_REG_ALCTL EC_STATE_INIT timeout) c;
     if wkc \<le> 0 then Some (0, c)
     else do {
       (_, c) \<leftarrow> ecx_eeprom2pdi slave c;
       (st, c) \<leftarrow> ecx_statecheck slave EC_STATE_INIT EC_TIMEOUTSTATE c;
       if st = EC_STATE_INIT
       then do {
         c \<leftarrow> for_each (reprogram_SM slave cadr timeout) [0..<EC_MAXSM] c;
         (_, c) \<leftarrow> on_port (ecx_FPWRw cadr ECT_REG_ALCTL EC_STATE_PRE_OP timeout) c;
         (st, c) \<leftarrow> ecx_statecheck slave EC_STATE_PRE_OP EC_TIMEOUTSTATE c;
         if st = EC_STATE_PRE_OP then reconfig_preop hook hookx slave cadr timeout c
         else Some (st, c) }
       else Some (st, c) } }"

end
