(* ===== verification/Dc.thy ===== *)
theory Dc
  imports Config_Group
begin

text \<open>
  Distributed clocks (\<open>soem_lib/soem/ethercatdc.c\<close>): starting the sync pulses of a slave and measuring
  the propagation delays between the slaves.

  Times of 32 and 64 bits are words read as signed where the code compares or divides them. A trap of
  a division by zero is \<open>None\<close>.
\<close>

abbreviation (input) SyncDelay :: int where "SyncDelay \<equiv> 100000000"
abbreviation (input) PORTM0 :: byte where "PORTM0 \<equiv> 0x01"
abbreviation (input) PORTM1 :: byte where "PORTM1 \<equiv> 0x02"
abbreviation (input) PORTM2 :: byte where "PORTM2 \<equiv> 0x04"
abbreviation (input) PORTM3 :: byte where "PORTM3 \<equiv> 0x08"
abbreviation (input) ECT_REG_DCTIME0 :: u16 where "ECT_REG_DCTIME0 \<equiv> 0x0900"
abbreviation (input) ECT_REG_DCTIME1 :: u16 where "ECT_REG_DCTIME1 \<equiv> 0x0904"
abbreviation (input) ECT_REG_DCTIME2 :: u16 where "ECT_REG_DCTIME2 \<equiv> 0x0908"
abbreviation (input) ECT_REG_DCTIME3 :: u16 where "ECT_REG_DCTIME3 \<equiv> 0x090C"
abbreviation (input) ECT_REG_DCSOF :: u16 where "ECT_REG_DCSOF \<equiv> 0x0918"
abbreviation (input) ECT_REG_DCSYSOFFSET :: u16 where "ECT_REG_DCSYSOFFSET \<equiv> 0x0920"
abbreviation (input) ECT_REG_DCSYSDELAY :: u16 where "ECT_REG_DCSYSDELAY \<equiv> 0x0928"
abbreviation (input) ECT_REG_DCCUC :: u16 where "ECT_REG_DCCUC \<equiv> 0x0980"
abbreviation (input) ECT_REG_DCSTART0 :: u16 where "ECT_REG_DCSTART0 \<equiv> 0x0990"
abbreviation (input) ECT_REG_DCCYCLE0 :: u16 where "ECT_REG_DCCYCLE0 \<equiv> 0x09A0"
abbreviation (input) ECT_REG_DCCYCLE1 :: u16 where "ECT_REG_DCCYCLE1 \<equiv> 0x09A4"

section \<open>Sync pulses\<close>

definition dc_write :: "u16 \<Rightarrow> u16 \<Rightarrow> bytes \<Rightarrow> ecx_contextt \<Rightarrow> ecx_contextt option" where
  "dc_write slaveh reg data c = do {
     (_, c) \<leftarrow> write_FPWR slaveh reg (of_nat (length data)) data EC_TIMEOUTRET c;
     Some c }"

text \<open>The first trigger: the next whole multiple of the cycle after the slave's time and the delay,
  shifted; \<open>cycle\<close> is the true cycle time of the slave.\<close>

definition dc_start :: "u64 \<Rightarrow> u32 \<Rightarrow> u32 \<Rightarrow> int" where
  "dc_start t1 cycle CyclShift =
     ((sint t1 + SyncDelay) sdiv uint cycle) * uint cycle + uint cycle + sint CyclShift"

definition dc_start_plain :: "u64 \<Rightarrow> u32 \<Rightarrow> int" where
  "dc_start_plain t1 CyclShift = sint t1 + SyncDelay + sint CyclShift"

text \<open>Stopping the cyclic operation, opening the unit to EtherCAT, and reading the slave's time.\<close>

definition dc_stop :: "u16 \<Rightarrow> ecx_contextt \<Rightarrow> (u64 \<times> ecx_contextt) option" where
  "dc_stop slaveh c = do {
     c \<leftarrow> dc_write slaveh ECT_REG_DCSYNCACT [0] c;
     c \<leftarrow> dc_write slaveh ECT_REG_DCCUC [0] c;
     (_, d, c) \<leftarrow> read_FPRD slaveh ECT_REG_DCSYSTIME 8 (le_bytes 8 (0 :: u64)) EC_TIMEOUTRET c;
     Some (le_word d, c) }"

definition dc_remember :: "u16 \<Rightarrow> bool \<Rightarrow> u32 \<Rightarrow> u32 \<Rightarrow> ecx_contextt \<Rightarrow> ecx_contextt option" where
  "dc_remember slave act CyclTime CyclShift =
     upd_slave slave (\<lambda>s. s\<lparr>DCactive := (if act then 1 else 0), DCshift := CyclShift, DCcycle := CyclTime\<rparr>)"

definition ecx_dcsync0 :: "u16 \<Rightarrow> bool \<Rightarrow> u32 \<Rightarrow> u32 \<Rightarrow> ecx_contextt \<Rightarrow> ecx_contextt option" where
  "ecx_dcsync0 slave act CyclTime CyclShift c = do {
     s \<leftarrow> slave_at slave c;
     let slaveh = configadr s;
     (t1, c) \<leftarrow> dc_stop slaveh c;
     let t = (if 0 < CyclTime then dc_start t1 CyclTime CyclShift else dc_start_plain t1 CyclShift);
     c \<leftarrow> dc_write slaveh ECT_REG_DCSTART0 (le_bytes 8 (of_int t :: u64)) c;
     c \<leftarrow> dc_write slaveh ECT_REG_DCCYCLE0 (le_bytes 4 CyclTime) c;
     c \<leftarrow> dc_write slaveh ECT_REG_DCSYNCACT [if act then 1 + 2 else 0] c;
     dc_remember slave act CyclTime CyclShift c }"

text \<open>The true cycle time is computed before \<open>CyclTime0\<close> is tested, and it may wrap around to zero.\<close>

definition true_cycle :: "u32 \<Rightarrow> u32 \<Rightarrow> u32 option" where
  "true_cycle CyclTime0 CyclTime1 =
     (if CyclTime0 = 0 then None else Some ((CyclTime1 div CyclTime0 + 1) * CyclTime0))"

definition ecx_dcsync01 :: "u16 \<Rightarrow> bool \<Rightarrow> u32 \<Rightarrow> u32 \<Rightarrow> u32 \<Rightarrow> ecx_contextt \<Rightarrow> ecx_contextt option" where
  "ecx_dcsync01 slave act CyclTime0 CyclTime1 CyclShift c = do {
     TrueCyclTime \<leftarrow> true_cycle CyclTime0 CyclTime1;
     s \<leftarrow> slave_at slave c;
     let slaveh = configadr s;
     (t1, c) \<leftarrow> dc_stop slaveh c;
     t \<leftarrow> (if 0 < CyclTime0
          then if TrueCyclTime = 0 then None else Some (dc_start t1 TrueCyclTime CyclShift)
          else Some (dc_start_plain t1 CyclShift));
     c \<leftarrow> dc_write slaveh ECT_REG_DCSTART0 (le_bytes 8 (of_int t :: u64)) c;
     c \<leftarrow> dc_write slaveh ECT_REG_DCCYCLE0 (le_bytes 4 CyclTime0) c;
     c \<leftarrow> dc_write slaveh ECT_REG_DCCYCLE1 (le_bytes 4 CyclTime1) c;
     c \<leftarrow> dc_write slaveh ECT_REG_DCSYNCACT [if act then 1 + 2 + 4 else 0] c;
     dc_remember slave act CyclTime0 CyclShift c }"

section \<open>Ports\<close>

definition ecx_porttime :: "ec_slavet \<Rightarrow> byte \<Rightarrow> u32" where
  "ecx_porttime s p = (if p = 0 then DCrtA s else if p = 1 then DCrtB s else if p = 2 then DCrtC s
     else if p = 3 then DCrtD s else 0)"

text \<open>The first of the candidates that is active, else \<open>p\<close> itself.\<close>

definition prev_of :: "byte \<Rightarrow> byte \<Rightarrow> (byte \<times> byte) list \<Rightarrow> byte" where
  "prev_of aport p cands =
     (case filter (\<lambda>(m, q). aport AND m \<noteq> 0) cands of [] \<Rightarrow> p | (m, q) # _ \<Rightarrow> q)"

definition ecx_prevport :: "ec_slavet \<Rightarrow> byte \<Rightarrow> byte" where
  "ecx_prevport s p =
     (let aport = activeports s in
      if p = 0 then prev_of aport p [(PORTM2, 2), (PORTM1, 1), (PORTM3, 3)]
      else if p = 1 then prev_of aport p [(PORTM3, 3), (PORTM0, 0), (PORTM2, 2)]
      else if p = 2 then prev_of aport p [(PORTM1, 1), (PORTM3, 3), (PORTM0, 0)]
      else if p = 3 then prev_of aport p [(PORTM0, 0), (PORTM2, 2), (PORTM1, 1)]
      else p)"

text \<open>The port taken and the ports left.\<close>

definition take_port :: "byte \<Rightarrow> byte \<times> byte" where
  "take_port b =
     (if b AND PORTM3 \<noteq> 0 then (3, b AND NOT PORTM3)
      else if b AND PORTM1 \<noteq> 0 then (1, b AND NOT PORTM1)
      else if b AND PORTM2 \<noteq> 0 then (2, b AND NOT PORTM2)
      else if b AND PORTM0 \<noteq> 0 then (0, b AND NOT PORTM0)
      else (0, b))"

definition ecx_parentport :: "u16 \<Rightarrow> ecx_contextt \<Rightarrow> (byte \<times> ecx_contextt) option" where
  "ecx_parentport up c = do {
     s \<leftarrow> slave_at up c;
     let (p, b) = take_port (consumedports s);
     c \<leftarrow> upd_slave up (\<lambda>s. s\<lparr>consumedports := b\<rparr>) c;
     Some (p, c) }"

section \<open>Propagation delays\<close>

text \<open>The active ports with their time stamps, in the order 0, 3, 1, 2.\<close>

definition port_stamps :: "ec_slavet \<Rightarrow> (byte \<times> u32) list" where
  "port_stamps s =
     (if activeports s AND PORTM0 \<noteq> 0 then [(0, DCrtA s)] else [])
     @ (if activeports s AND PORTM3 \<noteq> 0 then [(3, DCrtD s)] else [])
     @ (if activeports s AND PORTM1 \<noteq> 0 then [(1, DCrtB s)] else [])
     @ (if activeports s AND PORTM2 \<noteq> 0 then [(2, DCrtC s)] else [])"

text \<open>The entry port is the one with the lowest stamp, the first of several; without an active port
  the code reads an uninitialised array.\<close>

definition earlier :: "(byte \<times> u32) list \<Rightarrow> nat \<Rightarrow> nat \<Rightarrow> nat" where
  "earlier l k best = (if k < length l \<and> sint (snd (l ! k)) < sint (snd (l ! best)) then k else best)"

definition entry_port :: "ec_slavet \<Rightarrow> byte option" where
  "entry_port s = do {
     let l = port_stamps s;
     (p, _) \<leftarrow> aget l (earlier l 3 (earlier l 2 (earlier l 1 0)));
     Some p }"

text \<open>\<open>slavelist[prev].DCnext = i\<close> and its companions.\<close>

definition dc_link :: "u16 \<Rightarrow> u16 \<Rightarrow> ecx_contextt \<Rightarrow> ecx_contextt option" where
  "dc_link i prevDCslave c = do {
     m \<leftarrow> slave_at 0 c;
     if \<not> hasdc m
     then do {
       c \<leftarrow> upd_slave 0 (\<lambda>m. m\<lparr>hasdc := True, DCnext := i\<rparr>) c;
       c \<leftarrow> upd_slave i (\<lambda>s. s\<lparr>DCprevious := 0\<rparr>) c;
       s \<leftarrow> slave_at i c;
       upd_group (group s) (\<lambda>g. g\<lparr>g_hasdc := True, g_DCnext := i\<rparr>) c }
     else do {
       c \<leftarrow> upd_slave prevDCslave (\<lambda>s. s\<lparr>DCnext := i\<rparr>) c;
       upd_slave i (\<lambda>s. s\<lparr>DCprevious := prevDCslave\<rparr>) c } }"

definition dc_read32 :: "u16 \<Rightarrow> u16 \<Rightarrow> u32 \<Rightarrow> ecx_contextt \<Rightarrow> (u32 \<times> ecx_contextt) option" where
  "dc_read32 slaveh reg ht c = do {
     (_, d, c) \<leftarrow> read_FPRD slaveh reg 4 (le_bytes 4 ht) EC_TIMEOUTRET c;
     Some (le_word d, c) }"

text \<open>The latched receive times of a slave, and the offset of its clock. \<open>ht\<close> and \<open>hrt\<close> keep their
  values when a read fails.\<close>

definition dc_times :: "u16 \<Rightarrow> u64 \<Rightarrow> u32 \<Rightarrow> u64 \<Rightarrow> ecx_contextt \<Rightarrow> (u32 \<times> u64 \<times> ecx_contextt) option" where
  "dc_times i mastertime64 ht hrt c = do {
     s \<leftarrow> slave_at i c;
     let slaveh = configadr s;
     (ht, c) \<leftarrow> dc_read32 slaveh ECT_REG_DCTIME0 ht c;
     c \<leftarrow> upd_slave i (\<lambda>s. s\<lparr>DCrtA := ht\<rparr>) c;
     (_, d, c) \<leftarrow> read_FPRD slaveh ECT_REG_DCSOF 8 (le_bytes 8 hrt) EC_TIMEOUTRET c;
     let hrt = - le_word d + mastertime64;
     c \<leftarrow> dc_write slaveh ECT_REG_DCSYSOFFSET (le_bytes 8 hrt) c;
     (ht, c) \<leftarrow> dc_read32 slaveh ECT_REG_DCTIME1 ht c;
     c \<leftarrow> upd_slave i (\<lambda>s. s\<lparr>DCrtB := ht\<rparr>) c;
     (ht, c) \<leftarrow> dc_read32 slaveh ECT_REG_DCTIME2 ht c;
     c \<leftarrow> upd_slave i (\<lambda>s. s\<lparr>DCrtC := ht\<rparr>) c;
     (ht, c) \<leftarrow> dc_read32 slaveh ECT_REG_DCTIME3 ht c;
     c \<leftarrow> upd_slave i (\<lambda>s. s\<lparr>DCrtD := ht\<rparr>) c;
     Some (ht, hrt, c) }"

text \<open>The nearest ancestor with a clock, or the master, and the slave below it on the way.\<close>

definition dc_parent :: "u16 \<Rightarrow> ecx_contextt \<Rightarrow> (u16 \<times> u16) option" where
  "dc_parent i c =
     do_while (\<lambda>(up, child). do { s \<leftarrow> slave_at up c; Some (parent s, up) })
       (\<lambda>(up, child).
          if up = 0 then Some (False, up, child)
          else do { s \<leftarrow> slave_at up c; Some (\<not> hasdc s, up, child) }) (i, i)"

definition abs32 :: "u32 \<Rightarrow> u32" where
  "abs32 d = (if sint d < 0 then - d else d)"

text \<open>The delay from the parent \<open>P\<close> to the slave \<open>s\<close> connected to its port \<open>pp\<close>; \<open>first\<close> says that no
  child was before it.\<close>

definition dc_delay :: "ec_slavet \<Rightarrow> ec_slavet \<Rightarrow> byte \<Rightarrow> bool \<Rightarrow> u32" where
  "dc_delay s P pp first =
     (let dt3 = ecx_porttime P pp - ecx_porttime P (ecx_prevport P pp);
          dt1 = (if 1 < topology s
                 then ecx_porttime s (ecx_prevport s (entryport s)) - ecx_porttime s (entryport s) else 0);
          dt1 = (if sint dt3 < sint dt1 then - dt1 else dt1);
          dt2 = (if first then 0 else ecx_porttime P (ecx_prevport P pp) - ecx_porttime P (entryport P))
      in of_int (sint (dt3 - dt1) sdiv 2) + abs32 dt2 + pdelay P)"

definition dc_measure :: "u16 \<Rightarrow> u16 \<Rightarrow> u16 \<Rightarrow> u32 \<Rightarrow> ecx_contextt \<Rightarrow> (u32 \<times> ecx_contextt) option" where
  "dc_measure i up child ht c =
     (if 0 < up
      then do {
        (pp, c) \<leftarrow> ecx_parentport up c;
        P \<leftarrow> slave_at up c;
        let pp = (if topology P = 1 then entryport P else pp);
        c \<leftarrow> upd_slave i (\<lambda>s. s\<lparr>parentport := pp\<rparr>) c;
        P \<leftarrow> slave_at up c;
        s \<leftarrow> slave_at i c;
        let d = dc_delay s P pp (\<not> 1 < uint child - uint up);
        c \<leftarrow> upd_slave i (\<lambda>s. s\<lparr>pdelay := d\<rparr>) c;
        c \<leftarrow> dc_write (configadr s) ECT_REG_DCSYSDELAY (le_bytes 4 d) c;
        Some (d, c) }
      else Some (ht, c))"

text \<open>One slave of \<open>ecx_configdc\<close>: the state is \<open>parenthold\<close>, \<open>prevDCslave\<close>, \<open>ht\<close> and \<open>hrt\<close>.\<close>

definition dc_slave ::
  "u64 \<Rightarrow> u16 \<Rightarrow> u16 \<times> u16 \<times> u32 \<times> u64 \<times> ecx_contextt \<Rightarrow> (u16 \<times> u16 \<times> u32 \<times> u64 \<times> ecx_contextt) option" where
  "dc_slave mastertime64 i = (\<lambda>(parenthold, prevDCslave, ht, hrt, c). do {
     c \<leftarrow> dc_link i prevDCslave c;
     (ht, hrt, c) \<leftarrow> dc_times i mastertime64 ht hrt c;
     s \<leftarrow> slave_at i c;
     e \<leftarrow> entry_port s;
     c \<leftarrow> upd_slave i (\<lambda>s. s\<lparr>entryport := e, consumedports := consumedports s AND NOT (push_bit (unat e) 1)\<rparr>) c;
     (up, child) \<leftarrow> dc_parent i c;
     (ht, c) \<leftarrow> dc_measure i up child ht c;
     Some (0, i, ht, hrt, c) })"

text \<open>A slave without clock: a branch without any consumes the port of the parent it hangs on.\<close>

definition dc_without ::
  "u16 \<Rightarrow> u16 \<times> u16 \<times> u32 \<times> u64 \<times> ecx_contextt \<Rightarrow> (u16 \<times> u16 \<times> u32 \<times> u64 \<times> ecx_contextt) option" where
  "dc_without i = (\<lambda>(parenthold, prevDCslave, ht, hrt, c). do {
     c \<leftarrow> upd_slave i (\<lambda>s. s\<lparr>DCrtA := 0, DCrtB := 0, DCrtC := 0, DCrtD := 0\<rparr>) c;
     s \<leftarrow> slave_at i c;
     let up = parent s;
     parenthold \<leftarrow> (if 0 < up
       then do { P \<leftarrow> slave_at up c; Some (if 2 < topology P then up else parenthold) }
       else Some parenthold);
     if parenthold \<noteq> 0 \<and> topology s = 1
     then do {
       (_, c) \<leftarrow> ecx_parentport parenthold c;
       Some (0, prevDCslave, ht, hrt, c) }
     else Some (parenthold, prevDCslave, ht, hrt, c) })"

definition dc_step ::
  "u64 \<Rightarrow> nat \<Rightarrow> u16 \<times> u16 \<times> u32 \<times> u64 \<times> ecx_contextt \<Rightarrow> (u16 \<times> u16 \<times> u32 \<times> u64 \<times> ecx_contextt) option" where
  "dc_step mastertime64 k = (\<lambda>(parenthold, prevDCslave, ht, hrt, c). do {
     let i = of_nat k;
     c \<leftarrow> upd_slave i (\<lambda>s. s\<lparr>consumedports := activeports s\<rparr>) c;
     s \<leftarrow> slave_at i c;
     if hasdc s then dc_slave mastertime64 i (parenthold, prevDCslave, ht, hrt, c)
     else dc_without i (parenthold, prevDCslave, ht, hrt, c) })"

text \<open>The master's time in nanoseconds since 2000-01-01.\<close>

definition dc_mastertime :: "ec_timet \<Rightarrow> u64" where
  "dc_mastertime t =
     (let s = sec t - 946684800
      in (ucast s * 1000000 + ucast (usec t)) * 1000)"

definition ecx_configdc :: "ecx_contextt \<Rightarrow> (bool \<times> ecx_contextt) option" where
  "ecx_configdc c = do {
     c \<leftarrow> upd_slave 0 (\<lambda>m. m\<lparr>hasdc := False\<rparr>) c;
     c \<leftarrow> upd_group 0 (\<lambda>g. g\<lparr>g_hasdc := False\<rparr>) c;
     (_, c) \<leftarrow> write_BWR 0 ECT_REG_DCTIME0 4 (le_bytes 4 (0 :: u32)) EC_TIMEOUTRET c;
     let (mastertime, c) = error_time c;
     (_, _, _, _, c) \<leftarrow> for_each (dc_step (dc_mastertime mastertime)) (slaves_of c) (0, 0, 0, 0, c);
     m \<leftarrow> slave_at 0 c;
     Some (hasdc m, c) }"

end
