(* ===== verification/Config_Props.thy ===== *)
theory Config_Props
  imports Config_Group
begin

text \<open>
  What the configuration computes: the parents \<open>ecx_config_init\<close> finds are those of the physical tree,
  the configuration table, the detection of the slaves, and the segments of the process image.
\<close>

section \<open>The tree of slaves\<close>

text \<open>A slave with the slaves on its further ports. The numbers of links and the parents are listed in
  the order in which the frame passes the slaves, which is how they are numbered.\<close>

datatype bus = Bus "bus list"

fun links :: "bus \<Rightarrow> nat list" where
  "links (Bus bs) = Suc (length bs) # concat (map links bs)"

fun hang :: "nat \<Rightarrow> nat \<Rightarrow> bus \<Rightarrow> nat list" and hangs :: "nat \<Rightarrow> nat \<Rightarrow> bus list \<Rightarrow> nat list" where
  "hang up i (Bus bs) = up # hangs i (i + 1) bs"
| "hangs up i [] = []"
| "hangs up i (b # bs) = hang up i b @ hangs up (i + length (links b)) bs"

lemma length_hang: "length (hang up i b) = length (links b)"
  "length (hangs up i bs) = length (concat (map links bs))"
  by (induction up i b and up i bs rule: hang_hangs.induct) simp_all

text \<open>The numbers before a slave other than the first: those up to its parent, the parent's, and those of
  whole branches of the parent.\<close>

lemma hangs_split:
  assumes "j < length (hangs up i bs)"
  shows "\<exists>F b G k. bs = F @ b # G \<and> j = length (concat (map links F)) + k \<and> k < length (links b)
     \<and> hangs up i bs ! j = hang up (i + length (concat (map links F))) b ! k"
  using assms
proof (induction bs arbitrary: i j)
  case (Cons b bs)
  show ?case
  proof (cases "j < length (links b)")
    case True
    then show ?thesis
      by (intro exI [of _ "[]"] exI [of _ b] exI [of _ bs] exI [of _ j]) (simp add: nth_append length_hang)
  next
    case False
    with Cons.prems have "j - length (links b) < length (hangs up (i + length (links b)) bs)"
      by (simp add: length_hang)
    from Cons.IH [OF this] obtain F b' G k where r: "bs = F @ b' # G"
        "j - length (links b) = length (concat (map links F)) + k" "k < length (links b')"
        "hangs up (i + length (links b)) bs ! (j - length (links b))
           = hang up (i + length (links b) + length (concat (map links F))) b' ! k"
      by blast
    then show ?thesis using False
      by (intro exI [of _ "b # F"] exI [of _ b'] exI [of _ G] exI [of _ k])
        (simp add: nth_append length_hang add.assoc)
  qed
qed simp

lemma hang_split:
  assumes "0 < k" "k < length (links t)"
  shows "\<exists>A F (bs :: bus list). take k (links t) = A @ Suc (length bs) # concat (map links F) \<and> length F < length bs
     \<and> hang up i t ! k = i + length A"
  using assms
proof (induction t arbitrary: up i k)
  case (Bus bs)
  then have "k - 1 < length (hangs i (i + 1) bs)" by (simp add: length_hang)
  from hangs_split [OF this] obtain F b G k' where s: "bs = F @ b # G"
      "k - 1 = length (concat (map links F)) + k'" "k' < length (links b)"
      "hangs i (i + 1) bs ! (k - 1) = hang i (i + 1 + length (concat (map links F))) b ! k'"
    by blast
  have k: "k = Suc (length (concat (map links F)) + k')" using s(2) Bus.prems by simp
  have tk: "take k (links (Bus bs)) = Suc (length bs) # concat (map links F) @ take k' (links b)"
    unfolding k s(1) using s(3) by simp
  have h: "hang up i (Bus bs) ! k = hangs i (i + 1) bs ! (k - 1)" using Bus.prems by (simp add: nth_Cons')
  have F: "length F < length bs" by (simp add: s(1))
  show ?case
  proof (cases "k' = 0")
    case True
    have "hang i (i + 1 + length (concat (map links F))) b ! 0 = i" by (cases b) simp
    then have "hang up i (Bus bs) ! k = i" using h s(4) True by simp
    with tk True F have "take k (links (Bus bs)) = [] @ Suc (length bs) # concat (map links F) \<and> length F < length bs
        \<and> hang up i (Bus bs) ! k = i + length ([] :: nat list)"
      by (simp del: links.simps hang.simps)
    then show ?thesis by blast
  next
    case False
    have "b \<in> set bs" using s(1) by simp
    from Bus.IH [OF this _ s(3), of i "i + 1 + length (concat (map links F))"] False
    obtain A F' and bs' :: "bus list" where r: "take k' (links b) = A @ Suc (length bs') # concat (map links F')"
        "length F' < length bs'"
        "hang i (i + 1 + length (concat (map links F))) b ! k' = i + 1 + length (concat (map links F)) + length A"
      by blast
    have "take k (links (Bus bs)) = (Suc (length bs) # concat (map links F) @ A) @ Suc (length bs') # concat (map links F')
        \<and> length F' < length bs' \<and> hang up i (Bus bs) ! k = i + length (Suc (length bs) # concat (map links F) @ A)"
      using tk h s(4) r by (simp del: links.simps hang.simps)
    then show ?thesis by blast
  qed
qed


section \<open>The search for the parent\<close>

text \<open>The search over the numbers of links, the last slave first.\<close>

fun scan :: "int \<Rightarrow> nat list \<Rightarrow> nat" where
  "scan tc [] = 0"
| "scan tc (t # ts) = (let tc = tc + int t - 2 in
     if 0 \<le> tc \<and> 1 < t \<or> ts = [] then length ts + 1 else scan tc ts)"

text \<open>It passes over whole branches and stops at the parent.\<close>

lemma scan_bus: "tc \<le> 0 \<Longrightarrow> ys \<noteq> [] \<Longrightarrow> scan tc (rev (links b) @ ys) = scan (tc - 1) ys"
proof (induction b arbitrary: tc ys)
  case (Bus bs)
  have forest: "scan tc (rev (concat (map links cs)) @ zs) = scan (tc - int (length cs)) zs"
    if "set cs \<subseteq> set bs" "tc \<le> 0" "zs \<noteq> []" for cs tc zs
    using that
  proof (induction cs arbitrary: tc rule: rev_induct)
    case (snoc c cs)
    have "scan tc (rev (links c) @ rev (concat (map links cs)) @ zs) = scan (tc - 1) (rev (concat (map links cs)) @ zs)"
      using snoc.prems by (intro Bus.IH) auto
    with snoc show ?case by (simp add: diff_diff_eq)
  qed simp
  have "scan tc (rev (concat (map links bs)) @ Suc (length bs) # ys) = scan (tc - int (length bs)) (Suc (length bs) # ys)"
    using Bus.prems by (intro forest) auto
  with Bus.prems show ?case by simp
qed

lemma scan_branches:
  "tc \<le> 0 \<Longrightarrow> ys \<noteq> [] \<Longrightarrow> scan tc (rev (concat (map links bs)) @ ys) = scan (tc - int (length bs)) ys"
proof (induction bs arbitrary: tc rule: rev_induct)
  case (snoc b bs)
  then show ?case by (simp add: scan_bus diff_diff_eq)
qed simp

lemma scan_parent:
  assumes "0 < k" "k < length (links t)"
  shows "scan 0 (rev (take k (links t))) = hang 0 1 t ! k"
proof -
  obtain A F bs where s: "take k (links t) = A @ Suc (length bs) # concat (map links F)"
      "length F < length (bs :: bus list)" "hang 0 1 t ! k = 1 + length A"
    using hang_split [OF assms] by metis
  have "scan 0 (rev (take k (links t))) = scan (- int (length F)) (Suc (length bs) # rev A)"
    by (simp add: s(1) scan_branches)
  also have "\<dots> = 1 + length A" using s(2) by (cases bs) auto
  finally show ?thesis using s(3) by simp
qed

lemma find_parent_loop:
  assumes "1 \<le> n" and "\<forall>j. 1 \<le> j \<and> j \<le> n \<longrightarrow> topos (int j) = Some (of_nat (L ! (j - 1)))"
    and "n \<le> length L" and "\<forall>t \<in> set L. 1 \<le> t \<and> t \<le> 4"
  shows "\<exists>tc'. do_while (parent_step topos) (\<lambda>(topoc, slavec, up). Some (0 < slavec, topoc, slavec, up)) (tc, int n, up)
     = Some (tc', 0, int (scan tc (rev (take n L))))"
  using assms
proof (induction n arbitrary: tc up)
  case (Suc n)
  let ?t = "L ! n"
  have t: "topos (int (Suc n)) = Some (of_nat ?t)" using Suc.prems(2) [rule_format, of "Suc n"] by (simp add: One_nat_def)
  have t1: "topos (1 + int n) = Some (of_nat ?t)" using t by simp
  have b: "1 \<le> ?t" "?t \<le> 4" using Suc.prems(3,4) by auto
  have "?t \<in> {1, 2, 3, 4}" using b by auto
  then have step: "topoc_step (of_nat ?t) tc = tc + int ?t - 2" and g: "1 < (of_nat ?t :: byte) \<longleftrightarrow> 1 < ?t"
    by (auto simp: topoc_step_def Let_def)
  have r: "rev (take (Suc n) L) = ?t # rev (take n L)" using Suc.prems(3) by (simp add: take_Suc_conv_app_nth)
  let ?u = "tc + int ?t - 2"
  let ?c = "\<lambda>(topoc, slavec, up). Some (0 < slavec, topoc :: int, slavec :: int, up :: int)"
  have body: "parent_step topos (tc, int (Suc n), up)
      = Some (if 0 \<le> ?u \<and> 1 < ?t \<or> n = 0 then (?u, 0, int (Suc n)) else (?u, int n, up))"
    using t1 by (simp add: parent_step_def step g Let_def)
  have run: "do_while (parent_step topos) ?c (tc, int (Suc n), up)
      = (if 0 \<le> ?u \<and> 1 < ?t \<or> n = 0 then Some (?u, 0, int (Suc n)) else do_while (parent_step topos) ?c (?u, int n, up))"
    by (subst do_while.simps, unfold body) auto
  have sc: "scan tc (rev (take (Suc n) L)) = (if 0 \<le> ?u \<and> 1 < ?t \<or> n = 0 then n + 1 else scan ?u (rev (take n L)))"
    unfolding r scan.simps Let_def using Suc.prems(3) by auto
  show ?case
  proof (cases "0 \<le> ?u \<and> 1 < ?t \<or> n = 0")
    case True
    then show ?thesis unfolding run sc by simp
  next
    case False
    then have "1 \<le> n" by simp
    then have "\<exists>tc'. do_while (parent_step topos) ?c (?u, int n, up) = Some (tc', 0, int (scan ?u (rev (take n L))))"
      using Suc.prems by (intro Suc.IH) auto
    then show ?thesis unfolding run sc if_not_P [OF False] .
  qed
qed simp


text \<open> C9: The topology search finds the physical parents. Slaves are numbered in the order in which the
  frame reaches them, the preorder of the tree they form, and each reports the number of its links, one
  more than its branches. From the numbers of links alone of the slaves before it, \<open>find_parent\<close> (the
  backward search of \<open>ecx_config_init\<close>) computes for every slave of every tree with at most four ports
  per slave the number of the slave it hangs on, 0 for the first. \<close>

theorem parents_of_tree:
  assumes ports: "\<forall>l \<in> set (links t). l \<le> 4" and n: "1 \<le> n" "n \<le> length (links t)" "length (links t) < EC_MAXSLAVE"
    and c: "length (slavelist c) = EC_MAXSLAVE"
      "\<forall>j. 1 \<le> j \<and> j < n \<longrightarrow> topology (slavelist c ! j) = of_nat (links t ! (j - 1))"
  shows "find_parent (slave_topology c) (of_nat n) = Some (int (hang 0 1 t ! (n - 1)))"
proof -
  have u: "uint (of_nat n :: u16) = int n" using n by (simp add: unsigned_of_nat take_bit_nat_eq_self)
  show ?thesis
  proof (cases "n = 1")
    case True
    have "hang 0 1 t ! 0 = 0" by (cases t) simp
    then show ?thesis using True by (simp add: find_parent_def)
  next
    case False
    then have g: "1 < (of_nat n :: u16)" using n u by (simp add: word_less_def)
    have one: "1 \<le> l" if "l \<in> set (links b)" for b l
      using that by (induction b arbitrary: l) auto
    have n1: "1 \<le> n - 1" "n - 1 \<le> length (links t)" "0 < n - 1" "n - 1 < length (links t)" using n False by auto
    have tp: "\<forall>j. 1 \<le> j \<and> j \<le> n - 1 \<longrightarrow> slave_topology c (int j) = Some (of_nat (links t ! (j - 1)))"
      using c n by (auto simp: slave_topology_def aget_def)
    have "\<forall>l \<in> set (links t). 1 \<le> l \<and> l \<le> 4" using ports one by blast
    from find_parent_loop [OF n1(1) tp n1(2) this, of 0 0] obtain tc' where
      "do_while (parent_step (slave_topology c)) (\<lambda>(topoc, slavec, up). Some (0 < slavec, topoc, slavec, up)) (0, int (n - 1), 0)
         = Some (tc', 0, int (scan 0 (rev (take (n - 1) (links t)))))" by blast
    moreover have "int (n - 1) = int n - 1" using n by simp
    ultimately show ?thesis
      unfolding scan_parent [OF n1(3,4)] using g by (simp add: find_parent_def u)
  qed
qed

text \<open>A coupler with two branches on its further ports, of which the first has a slave behind it: the
  fourth slave hangs on the first.\<close>

definition demo_bus :: ecx_contextt where
  "demo_bus = demo_master\<lparr>slavelist := (slavelist demo_master)[1 := zero_slave\<lparr>topology := 3\<rparr>,
      2 := zero_slave\<lparr>topology := 2\<rparr>, 3 := zero_slave\<lparr>topology := 1\<rparr>]\<rparr>"

theorem parents_of_tree_witness:
  "find_parent (slave_topology demo_bus) 4 = Some 1"
proof -
  let ?t = "Bus [Bus [Bus []], Bus []]"
  have l: "length (slavelist demo_bus) = EC_MAXSLAVE"
    using demo_master_ok by (simp add: demo_bus_def ctx_ok_def)
  have "\<forall>j. 1 \<le> j \<and> j < 4 \<longrightarrow> topology (slavelist demo_bus ! j) = of_nat (links ?t ! (j - 1))"
  proof (intro allI impI)
    fix j :: nat
    assume "1 \<le> j \<and> j < 4"
    then have "j = 1 \<or> j = 2 \<or> j = 3" by linarith
    then show "topology (slavelist demo_bus ! j) = of_nat (links ?t ! (j - 1))"
      using l by (auto simp: demo_bus_def nth_list_update)
  qed
  from parents_of_tree [OF _ _ _ _ l this] show ?thesis by simp
qed

end
