(* ===== verification/Dc_Props.thy ===== *)
theory Dc_Props
  imports Dc Config_Props
begin

text \<open>
  What the distributed clocks code computes: the first sync pulse, and that the propagation delays
  measured by \<open>ecx_configdc\<close> are exactly the times the frame takes, on every tree of slaves whose
  links are as slow in one direction as in the other.
\<close>

section \<open>The physical bus\<close>

text \<open>A slave with the cables on its further ports: the port, the delay of the cable and the slave
  behind it. The frame enters through port 0 and visits the other ports in the order 3, 1, 2.\<close>

datatype cable = Dev "(byte \<times> nat \<times> cable) list"

text \<open>The time from the frame's arrival until it is back at port 0, the number of slaves, and the times
  at which the frame reaches them, in the order it does.\<close>

fun rtt :: "cable \<Rightarrow> nat" and rtts :: "(byte \<times> nat \<times> cable) list \<Rightarrow> nat" where
  "rtt (Dev ks) = rtts ks"
| "rtts [] = 0"
| "rtts ((p, d, b) # ks) = 2 * d + rtt b + rtts ks"

fun devs :: "cable \<Rightarrow> nat" and devss :: "(byte \<times> nat \<times> cable) list \<Rightarrow> nat" where
  "devs (Dev ks) = Suc (devss ks)"
| "devss [] = 0"
| "devss ((p, d, b) # ks) = devs b + devss ks"

fun arrivals :: "nat \<Rightarrow> cable \<Rightarrow> nat list" and arrivalss :: "nat \<Rightarrow> (byte \<times> nat \<times> cable) list \<Rightarrow> nat list" where
  "arrivals a (Dev ks) = a # arrivalss a ks"
| "arrivalss a [] = []"
| "arrivalss a ((p, d, b) # ks) = arrivals (a + d) b @ arrivalss (a + 2 * d + rtt b) ks"

lemma length_arrivals: "length (arrivals a t) = devs t" "length (arrivalss a ks) = devss ks"
  by (induction a t and a ks rule: arrivals_arrivalss.induct) simp_all

text \<open>The active ports as a set of bits.\<close>

fun port_bits :: "byte list \<Rightarrow> byte" where
  "port_bits [] = 0"
| "port_bits (p # ps) = push_bit (unat p) 1 OR port_bits ps"

definition port_order :: "byte list list" where
  "port_order = subseqs [3, 1, 2]"

text \<open>What the configuration stored of the tree: slave \<open>i\<close> hangs on slave \<open>up\<close>.\<close>

fun wired :: "ec_slavet list \<Rightarrow> nat \<Rightarrow> nat \<Rightarrow> cable \<Rightarrow> bool"
  and wireds :: "ec_slavet list \<Rightarrow> nat \<Rightarrow> nat \<Rightarrow> (byte \<times> nat \<times> cable) list \<Rightarrow> bool" where
  "wired L up i (Dev ks) \<longleftrightarrow> hasdc (L ! i) \<and> parent (L ! i) = of_nat up \<and> topology (L ! i) = of_nat (Suc (length ks)) \<and>
     activeports (L ! i) = port_bits (0 # map fst ks) \<and> map fst ks \<in> set port_order \<and> wireds L i (Suc i) ks"
| "wireds L up i [] \<longleftrightarrow> True"
| "wireds L up i ((p, d, b) # ks) \<longleftrightarrow> wired L up i b \<and> wireds L up (i + devs b) ks"

text \<open>The time stamps a slave latches when the frame passes, by its own clock: at port 0 when the frame
  arrives, at every other port when it comes back from the cable there. The clock does not cross the
  sign boundary of its 32 bits while the frame is behind the slave.\<close>

fun turned :: "ec_slavet \<Rightarrow> nat \<Rightarrow> (byte \<times> nat \<times> cable) list \<Rightarrow> bool" where
  "turned s a [] \<longleftrightarrow> True"
| "turned s a ((p, d, b) # ks) \<longleftrightarrow>
     ecx_porttime s p = DCrtA s + of_nat (a + 2 * d + rtt b) \<and> turned s (a + 2 * d + rtt b) ks"

definition steady_clock :: "ec_slavet \<Rightarrow> nat \<Rightarrow> bool" where
  "steady_clock s a \<longleftrightarrow> int a < 2 ^ 31 \<and> sint (DCrtA s) + int a < 2 ^ 31"

fun latched :: "ec_slavet list \<Rightarrow> nat \<Rightarrow> cable \<Rightarrow> bool"
  and latcheds :: "ec_slavet list \<Rightarrow> nat \<Rightarrow> (byte \<times> nat \<times> cable) list \<Rightarrow> bool" where
  "latched L i (Dev ks) \<longleftrightarrow> steady_clock (L ! i) (rtts ks) \<and> turned (L ! i) 0 ks \<and> latcheds L (Suc i) ks"
| "latcheds L i [] \<longleftrightarrow> True"
| "latcheds L i ((p, d, b) # ks) \<longleftrightarrow> latched L i b \<and> latcheds L (i + devs b) ks"

section \<open>Ports and time stamps of one slave\<close>

lemma port_order_cases:
  assumes "ps \<in> set port_order"
  obtains "ps = []" | "ps = [3]" | "ps = [1]" | "ps = [2]" | "ps = [3, 1]" | "ps = [3, 2]" | "ps = [1, 2]" | "ps = [3, 1, 2]"
  using assms by (auto simp: port_order_def Let_def)

text \<open>The ports are handed out in the order in which the frame visits them.\<close>

lemma take_port_order:
  assumes "ps @ p # qs \<in> set port_order"
  shows "take_port (port_bits (p # qs)) = (p, port_bits qs)"
  using assms by (cases rule: port_order_cases) (auto simp: append_eq_Cons_conv Cons_eq_append_conv take_port_def)

lemma free_ports: "ps \<in> set port_order \<Longrightarrow> port_bits (0 # ps) AND NOT 1 = port_bits ps"
  by (erule port_order_cases) simp_all

lemma prev_port_order:
  assumes "ps @ p # qs \<in> set port_order" "activeports s = port_bits (0 # ps @ p # qs)"
  shows "ecx_prevport s p = (if ps = [] then 0 else last ps)"
  using assms(1)
  by (cases rule: port_order_cases)
    (auto simp: append_eq_Cons_conv Cons_eq_append_conv ecx_prevport_def prev_of_def assms(2))

lemma prev_port_entry:
  assumes "ps \<in> set port_order" "ps \<noteq> []" "activeports s = port_bits (0 # ps)"
  shows "ecx_prevport s 0 = last ps"
  using assms(1,2) by (cases rule: port_order_cases) (auto simp: ecx_prevport_def prev_of_def assms(3))

lemma rtts_append: "rtts (F @ G) = rtts F + rtts G" "devss (F @ G) = devss F + devss G"
  by (induction F) auto

lemma turned_append: "turned s a (F @ G) \<longleftrightarrow> turned s a F \<and> turned s (a + rtts F) G"
  by (induction F arbitrary: a) (auto simp: add.assoc)

lemma turned_last:
  assumes "turned s 0 F" "F \<noteq> []"
  shows "ecx_porttime s (last (map fst F)) = DCrtA s + of_nat (rtts F)"
proof -
  obtain F' p d b where F: "F = F' @ [(p, d, b)]" using assms(2) by (metis rev_exhaust prod_cases3)
  show ?thesis using assms(1) by (simp add: F turned_append rtts_append add.assoc)
qed

lemma later_stamp:
  assumes "steady_clock s a" "m \<le> a"
  shows "sint (DCrtA s + of_nat m) = sint (DCrtA s) + int m"
proof -
  have "- (2 ^ 31) \<le> sint (DCrtA s)" using sint_greater_eq [of "DCrtA s"] by simp
  moreover have e: "DCrtA s + of_nat m = word_of_int (sint (DCrtA s) + int m)" by simp
  ultimately show ?thesis
    unfolding e using assms by (subst signed_of_int) (simp add: steady_clock_def signed_take_bit_int_eq_self)
qed

lemma small_delay: "int m < 2 ^ 31 \<Longrightarrow> sint (of_nat m :: u32) = int m"
  by (simp add: signed_of_nat signed_take_bit_int_eq_self)

lemma earlier_first: "\<forall>k < length l. sint (snd (l ! 0)) \<le> sint (snd (l ! k)) \<Longrightarrow> earlier l k 0 = 0"
  by (auto simp: earlier_def)

lemma first_stamp:
  assumes "map fst ks \<in> set port_order" "activeports s = port_bits (0 # map fst ks)"
    "turned s 0 ks" "steady_clock s (rtts ks)"
  shows "entry_port s = Some 0"
proof -
  have later: "sint (DCrtA s) \<le> sint (ecx_porttime s p)" if "p \<in> set (map fst ks)" for p
  proof -
    from that obtain d b where "(p, d, b) \<in> set ks" by auto
    then obtain F G where ks: "ks = F @ (p, d, b) # G" by (meson split_list)
    have "ecx_porttime s p = DCrtA s + of_nat (rtts F + 2 * d + rtt b)"
      using assms(3) by (simp add: ks turned_append)
    moreover have "rtts F + 2 * d + rtt b \<le> rtts ks" by (simp add: ks rtts_append)
    ultimately show ?thesis using later_stamp [OF assms(4), of "rtts F + 2 * d + rtt b"] by (simp only:)
  qed
  obtain r where l: "port_stamps s = (0, DCrtA s) # r" and r: "\<forall>x\<in>set r. \<exists>p\<in>set (map fst ks). snd x = ecx_porttime s p"
    using assms(1)
    by (cases rule: port_order_cases) (simp_all add: port_stamps_def assms(2) ecx_porttime_def)
  have "\<forall>x\<in>set (port_stamps s). sint (DCrtA s) \<le> sint (snd x)" using r later by (fastforce simp: l)
  then have "\<forall>k < length (port_stamps s). sint (snd (port_stamps s ! 0)) \<le> sint (snd (port_stamps s ! k))"
    by (metis l list.set_intros(1) nth_Cons_0 nth_mem snd_conv)
  from earlier_first [OF this] show ?thesis by (simp add: entry_port_def l aget_def)
qed

text \<open>The delay computed for a slave behind a port of its parent.\<close>

lemma delay_of_branch:
  assumes P: "map fst (F @ (p, d, Dev ks) # G) \<in> set port_order"
      "activeports P = port_bits (0 # map fst (F @ (p, d, Dev ks) # G))"
      "turned P 0 (F @ (p, d, Dev ks) # G)" "steady_clock P (rtts (F @ (p, d, Dev ks) # G))"
      "entryport P = 0"
    and s: "map fst ks \<in> set port_order" "activeports s = port_bits (0 # map fst ks)"
      "topology s = of_nat (Suc (length ks))" "turned s 0 ks" "entryport s = 0"
  shows "dc_delay s P p (F = []) = of_nat (rtts F + d) + pdelay P"
proof -
  let ?T = "2 * d + rtts ks"
  have prev: "ecx_prevport P p = (if F = [] then 0 else last (map fst F))"
    using prev_port_order [of "map fst F" p "map fst G" P] P(1,2) by simp
  have A0: "ecx_porttime P 0 = DCrtA P" "ecx_porttime s 0 = DCrtA s" by (simp_all add: ecx_porttime_def)
  have tp: "ecx_porttime P (ecx_prevport P p) = DCrtA P + of_nat (rtts F)"
    using turned_last [of P F] P(3) by (auto simp: prev A0 turned_append)
  have t: "ecx_porttime P p = DCrtA P + of_nat (rtts F + ?T)"
    using P(3) by (simp add: turned_append add.assoc)
  have small: "int (rtts F) < 2 ^ 31" "int ?T < 2 ^ 31" "int (rtts ks) < 2 ^ 31" "int d < 2 ^ 31"
    using P(4) by (simp_all add: steady_clock_def rtts_append)
  have dt3: "ecx_porttime P p - ecx_porttime P (ecx_prevport P p) = of_nat ?T" by (simp add: t tp)
  have len: "length ks \<le> 3" using s(1) by (cases rule: port_order_cases) (auto dest!: arg_cong [where f = length])
  have dt1: "(if 1 < topology s then ecx_porttime s (ecx_prevport s (entryport s)) - ecx_porttime s (entryport s) else 0)
      = (of_nat (rtts ks) :: u32)"
  proof (cases "ks = []")
    case False
    then have "ecx_prevport s 0 = last (map fst ks)" using prev_port_entry [OF s(1) _ s(2)] by simp
    then have "ecx_porttime s (ecx_prevport s (entryport s)) = DCrtA s + of_nat (rtts ks)"
      using turned_last [OF s(4) False] by (simp add: s(5))
    moreover have "1 < topology s"
    proof -
      have "0 < length ks" using False by simp
      then have "length ks = 1 \<or> length ks = 2 \<or> length ks = 3" using len by linarith
      then show ?thesis by (auto simp: s(3))
    qed
    ultimately show ?thesis by (simp add: s(5) A0)
  qed (simp add: s(3))
  have dt2: "(if F = [] then 0 else ecx_porttime P (ecx_prevport P p) - ecx_porttime P (entryport P)) = of_nat (rtts F)"
    by (simp add: tp P(5) A0)
  have half: "of_int (sint (of_nat ?T - of_nat (rtts ks) :: u32) sdiv 2) = (of_nat d :: u32)"
  proof -
    have e: "(of_nat ?T - of_nat (rtts ks) :: u32) = of_nat (2 * d)" by simp
    have "int (2 * d) < 2 ^ 31" using small by simp
    then have "sint (of_nat (2 * d) :: u32) = 2 * int d" using small_delay [of "2 * d"] by simp
    then show ?thesis unfolding e by (simp add: signed_divide_int_def sgn_if)
  qed
  have "abs32 (of_nat (rtts F)) = of_nat (rtts F)"
    using small_delay [OF small(1)] by (simp add: abs32_def)
  moreover have "\<not> sint (of_nat ?T :: u32) < sint (of_nat (rtts ks) :: u32)"
    using small_delay [OF small(2)] small_delay [OF small(3)] by simp
  ultimately show ?thesis
    unfolding dc_delay_def Let_def dt3 dt1 dt2 by (simp only: half if_False) simp
qed

section \<open>One slave of the loop\<close>

text \<open>What the delays are computed from.\<close>

definition dc_view :: "ec_slavet \<Rightarrow> bool \<times> byte \<times> byte \<times> u16 \<times> byte \<times> u32 list \<times> byte \<times> u32" where
  "dc_view s = (hasdc s, activeports s, topology s, parent s, group s, [DCrtA s, DCrtB s, DCrtC s, DCrtD s], entryport s, pdelay s)"

definition dc_setting :: "ec_slavet \<Rightarrow> bool \<times> byte \<times> byte \<times> u16 \<times> byte" where
  "dc_setting s = (hasdc s, activeports s, topology s, parent s, group s)"

lemma dc_view_setting: "dc_view s = dc_view t \<Longrightarrow> dc_setting s = dc_setting t"
  by (simp add: dc_view_def dc_setting_def)

lemma par_upd_slave:
  "par (upd_slave i f c) (\<lambda>c'. unat i < length (slavelist c) \<and>
     slavelist c' = (slavelist c)[unat i := f (slavelist c ! unat i)] \<and> slavecount c' = slavecount c)"
  by (auto simp: par_def upd_slave_def slave_at_def set_slave_def aget_def aset_def bind_eq_Some_conv split: if_splits)

lemma par_slave_at: "par (slave_at i c) (\<lambda>s. unat i < length (slavelist c) \<and> s = slavelist c ! unat i)"
  by (auto simp: par_def slave_at_def aget_def split: if_splits)

lemma par_upd_group: "par (upd_group i f c) (\<lambda>c'. slavelist c' = slavelist c \<and> slavecount c' = slavecount c)"
  by (auto simp: par_def upd_group_def group_at_def aget_def aset_def bind_eq_Some_conv split: if_splits)

lemma par_bus:
  "par (read_FPRD a b n data t c) (\<lambda>(w, d, c'). slavelist c' = slavelist c \<and> slavecount c' = slavecount c)"
  "par (write_FPWR a b n data t c) (\<lambda>(w, c'). slavelist c' = slavelist c \<and> slavecount c' = slavecount c)"
  "par (write_BWR a b n data t c) (\<lambda>(w, c'). slavelist c' = slavelist c \<and> slavecount c' = slavecount c)"
  "par (dc_write a b data c) (\<lambda>c'. slavelist c' = slavelist c \<and> slavecount c' = slavecount c)"
  "par (dc_read32 a b ht c) (\<lambda>(d, c'). slavelist c' = slavelist c \<and> slavecount c' = slavecount c)"
  by (auto simp: par_def read_FPRD_def write_FPWR_def write_BWR_def on_port_def dc_write_def dc_read32_def bind_eq_Some_conv)

text \<open>Linking the slaves with clocks changes nothing the delays depend on.\<close>

definition same_views :: "ec_slavet list \<Rightarrow> ec_slavet list \<Rightarrow> bool" where
  "same_views L L' \<longleftrightarrow> length L' = length L \<and>
     (\<forall>k. 0 < k \<longrightarrow> dc_view (L' ! k) = dc_view (L ! k) \<and> consumedports (L' ! k) = consumedports (L ! k))"

lemma dc_link_views:
  "par (dc_link i prev c) (\<lambda>c'. same_views (slavelist c) (slavelist c') \<and> slavecount c' = slavecount c)"
  unfolding dc_link_def par_simps ret_if
  by (auto simp: ret_if intro!: par_slave_at [THEN par_conseq] par_upd_slave [THEN par_conseq] par_upd_group [THEN par_conseq])
    (auto simp: same_views_def dc_view_def nth_list_update)

lemma dc_times_stamps:
  "par (dc_times i m ht hrt c) (\<lambda>(ht, hrt, c'). \<exists>a b d e. unat i < length (slavelist c) \<and> slavecount c' = slavecount c \<and>
     slavelist c' = (slavelist c)[unat i := (slavelist c ! unat i)\<lparr>DCrtA := a, DCrtB := b, DCrtC := d, DCrtD := e\<rparr>])"
  unfolding dc_times_def Let_def par_simps ret_case_prod
  apply (rule par_slave_at [THEN par_conseq], clarify)
  apply (rule par_bus(5) [THEN par_conseq], clarify)
  apply (rule par_upd_slave [THEN par_conseq], clarify)
  apply (rule par_bus(1) [THEN par_conseq], clarify)
  apply (rule par_bus(4) [THEN par_conseq], clarify)
  apply (rule par_bus(5) [THEN par_conseq], clarify)
  apply (rule par_upd_slave [THEN par_conseq], clarify)
  apply (rule par_bus(5) [THEN par_conseq], clarify)
  apply (rule par_upd_slave [THEN par_conseq], clarify)
  apply (rule par_bus(5) [THEN par_conseq], clarify)
  apply (rule par_upd_slave [THEN par_conseq], clarify)
  apply simp
  apply blast
  done

lemma dc_parent_clock:
  assumes "unat i < length (slavelist c)" "unat (parent (slavelist c ! unat i)) < length (slavelist c)"
    "parent (slavelist c ! unat i) = 0 \<or> hasdc (slavelist c ! unat (parent (slavelist c ! unat i)))"
  shows "dc_parent i c = Some (parent (slavelist c ! unat i), i)"
  unfolding dc_parent_def using assms
  by (subst do_while.simps) (auto simp: slave_at_def aget_def)

text \<open>The parent's side of the measurement: the port it hands out.\<close>

definition port_for :: "ec_slavet \<Rightarrow> byte" where
  "port_for P = (if topology P = 1 then entryport P else fst (take_port (consumedports P)))"

definition after_measure :: "nat \<Rightarrow> nat \<Rightarrow> ec_slavet list \<Rightarrow> ec_slavet list \<Rightarrow> bool" where
  "after_measure i up L L' \<longleftrightarrow> length L' = length L \<and>
     (\<forall>k. k \<noteq> i \<longrightarrow> dc_view (L' ! k) = dc_view (L ! k)) \<and>
     dc_view (L' ! i) = dc_view ((L ! i)\<lparr>pdelay := if up = 0 then pdelay (L ! i)
        else dc_delay (L ! i) (L ! up) (port_for (L ! up)) (i \<le> up + 1)\<rparr>) \<and>
     (\<forall>k. k \<noteq> up \<longrightarrow> consumedports (L' ! k) = consumedports (L ! k)) \<and>
     (0 < up \<longrightarrow> consumedports (L' ! up) = snd (take_port (consumedports (L ! up))))"

lemma delay_fields:
  "dc_delay s (P\<lparr>consumedports := b\<rparr>) p f = dc_delay s P p f"
  "dc_delay (s\<lparr>parentport := q\<rparr>) P p f = dc_delay s P p f"
  "dc_view (s\<lparr>parentport := q\<rparr>) = dc_view s" "dc_view (s\<lparr>consumedports := b\<rparr>) = dc_view s"
  by (simp_all add: dc_delay_def ecx_porttime_def ecx_prevport_def dc_view_def cong: if_cong)

lemma dc_measure_spec:
  assumes "up < i" "i < 200"
  shows "par (dc_measure (of_nat i) (of_nat up) (of_nat i) ht c) (\<lambda>(ht, c'). slavecount c' = slavecount c \<and>
     after_measure i up (slavelist c) (slavelist c'))"
proof -
  have u [simp]: "unat (of_nat i :: u16) = i" "unat (of_nat up :: u16) = up"
    using assms by (simp_all add: unat_of_nat take_bit_nat_eq_self)
  have z: "(0 :: u16) < of_nat up \<longleftrightarrow> 0 < up" using u(2) by (metis unat_0 unat_gt_0 word_neq_0_conv neq0_conv)
  have d: "uint (of_nat i :: u16) - uint (of_nat up :: u16) = int i - int up"
    by (simp add: uint_nat)
  have first: "(\<not> 1 < int i - int up) = (i \<le> Suc up)" by linarith
  obtain q b where tk: "take_port (consumedports (slavelist c ! up)) = (q, b)" by force
  show ?thesis
  proof (cases "topology (slavelist c ! up) = 1")
    case True
    show ?thesis
      unfolding dc_measure_def ecx_parentport_def Let_def ret_if par_simps ret_case_prod z d first
      using assms tk True
      apply (clarsimp simp: after_measure_def)
      apply (rule par_slave_at [THEN par_conseq] par_upd_slave [THEN par_conseq] par_bus(4) [THEN par_conseq],
          clarsimp simp: delay_fields nth_list_update port_for_def)+
      apply (simp add: dc_view_def)
      done
  next
    case False
    then show ?thesis
      unfolding dc_measure_def ecx_parentport_def Let_def ret_if par_simps ret_case_prod z d first
      using assms tk
      apply (clarsimp simp: after_measure_def)
      apply (rule par_slave_at [THEN par_conseq] par_upd_slave [THEN par_conseq] par_bus(4) [THEN par_conseq],
          clarsimp simp: delay_fields nth_list_update port_for_def)+
      apply (simp add: dc_view_def)
      done
  qed
qed

text \<open>One round of the loop for a slave with a clock whose parent has one, or is the master.\<close>

definition dc_stepped :: "nat \<Rightarrow> nat \<Rightarrow> ec_slavet list \<Rightarrow> ec_slavet list \<Rightarrow> bool" where
  "dc_stepped i up L L' \<longleftrightarrow> length L' = length L \<and>
     (\<forall>k. 0 < k \<and> k \<noteq> i \<longrightarrow> dc_view (L' ! k) = dc_view (L ! k)) \<and>
     (\<forall>k. 0 < k \<and> k \<noteq> i \<and> k \<noteq> up \<longrightarrow> consumedports (L' ! k) = consumedports (L ! k)) \<and>
     (0 < up \<longrightarrow> consumedports (L' ! up) = snd (take_port (consumedports (L ! up)))) \<and>
     dc_setting (L' ! i) = dc_setting (L ! i) \<and> entry_port (L' ! i) = Some (entryport (L' ! i)) \<and>
     consumedports (L' ! i) = activeports (L ! i) AND NOT (push_bit (unat (entryport (L' ! i))) 1) \<and>
     pdelay (L' ! i) = (if up = 0 then pdelay (L ! i) else dc_delay (L' ! i) (L ! up) (port_for (L ! up)) (i \<le> up + 1))"

lemma stamp_congs:
  assumes "activeports s = activeports s'" "DCrtA s = DCrtA s'" "DCrtB s = DCrtB s'" "DCrtC s = DCrtC s'" "DCrtD s = DCrtD s'"
  shows "ecx_porttime s p = ecx_porttime s' p" "ecx_prevport s p = ecx_prevport s' p" "entry_port s = entry_port s'"
proof -
  have "port_stamps s = port_stamps s'" by (simp only: port_stamps_def assms)
  then show "entry_port s = entry_port s'" by (simp only: entry_port_def)
qed (simp_all only: ecx_porttime_def ecx_prevport_def assms)

lemma delay_cong:
  assumes "dc_view (s\<lparr>pdelay := x\<rparr>) = dc_view (s'\<lparr>pdelay := x\<rparr>)" "dc_view P = dc_view P'"
  shows "dc_delay s P p f = dc_delay s' P' p f"
proof -
  have s: "activeports s = activeports s'" "DCrtA s = DCrtA s'" "DCrtB s = DCrtB s'" "DCrtC s = DCrtC s'" "DCrtD s = DCrtD s'"
    "topology s = topology s'" "entryport s = entryport s'" using assms(1) by (simp_all add: dc_view_def)
  have P: "activeports P = activeports P'" "DCrtA P = DCrtA P'" "DCrtB P = DCrtB P'" "DCrtC P = DCrtC P'" "DCrtD P = DCrtD P'"
    "entryport P = entryport P'" "pdelay P = pdelay P'" using assms(2) by (simp_all add: dc_view_def)
  show ?thesis
    by (simp only: dc_delay_def Let_def s(6,7) P(6,7) stamp_congs(1,2) [OF s(1-5)] stamp_congs(1,2) [OF P(1-5)])
qed

lemma entry_cong:
  assumes "dc_view (s\<lparr>pdelay := x, entryport := y\<rparr>) = dc_view (s'\<lparr>pdelay := x, entryport := y\<rparr>)"
  shows "entry_port s = entry_port s'"
  by (rule stamp_congs(3)) (use assms in \<open>simp_all add: dc_view_def\<close>)

lemma port_for_cong: "dc_view P = dc_view P' \<Longrightarrow> consumedports P = consumedports P' \<Longrightarrow> port_for P = port_for P'"
  by (simp add: dc_view_def port_for_def)

lemma stepped_lists:
  assumes i: "0 < i" "i < length L" "up < i"
    and L1: "L1 = L[i := (L ! i)\<lparr>consumedports := activeports (L ! i)\<rparr>]" and L2: "same_views L1 L2"
    and L3: "L3 = L2[i := (L2 ! i)\<lparr>DCrtA := a, DCrtB := b, DCrtC := d, DCrtD := g\<rparr>]"
    and e: "entry_port (L3 ! i) = Some e"
    and L4: "L4 = L3[i := (L3 ! i)\<lparr>entryport := e, consumedports := consumedports (L3 ! i) AND NOT (push_bit (unat e) 1)\<rparr>]"
    and L5: "after_measure i up L4 L5"
  shows "dc_stepped i up L L5"
proof -
  let ?s = "L4 ! i"
  have len: "length L1 = length L" "length L2 = length L" "length L3 = length L" "length L4 = length L" "length L5 = length L"
    using L1 L2 L3 L4 L5 by (simp_all add: same_views_def after_measure_def)
  have v2: "dc_view (L2 ! k) = dc_view (L1 ! k)" "consumedports (L2 ! k) = consumedports (L1 ! k)" if "0 < k" for k
    using L2 that by (simp_all add: same_views_def)
  have other: "dc_view (L4 ! k) = dc_view (L ! k)" "consumedports (L4 ! k) = consumedports (L ! k)" if "0 < k" "k \<noteq> i" for k
    using v2 [OF that(1)] that i by (simp_all add: L1 L3 L4)
  have own: "dc_setting ?s = dc_setting (L ! i)" "entryport ?s = e" "pdelay ?s = pdelay (L ! i)"
      "consumedports ?s = activeports (L ! i) AND NOT (push_bit (unat e) 1)"
    using v2 [OF i(1)] i len by (simp_all add: L1 L3 L4 dc_view_def dc_setting_def)
  have es: "entry_port ?s = Some e"
    using e i len entry_cong [where s = "L3 ! i" and s' = ?s and x = 0 and y = 0] by (simp add: L4 dc_view_def)
  have v5: "dc_view (L5 ! i) = dc_view (?s\<lparr>pdelay := if up = 0 then pdelay ?s
        else dc_delay ?s (L4 ! up) (port_for (L4 ! up)) (i \<le> up + 1)\<rparr>)"
    using L5 by (simp add: after_measure_def)
  have c5: "consumedports (L5 ! k) = consumedports (L4 ! k)" if "k \<noteq> up" for k
    using L5 that by (simp add: after_measure_def)
  have o5: "dc_view (L5 ! k) = dc_view (L4 ! k)" if "k \<noteq> i" for k
    using L5 that by (simp add: after_measure_def)
  have f5: "dc_setting (L5 ! i) = dc_setting (L ! i)" "entryport (L5 ! i) = e" "entry_port (L5 ! i) = Some e"
    using v5 own es entry_cong [where s = "L5 ! i" and s' = ?s and x = 0 and y = 0] by (simp_all add: dc_view_def dc_setting_def)
  have "pdelay (L5 ! i) = (if up = 0 then pdelay (L ! i) else dc_delay (L5 ! i) (L ! up) (port_for (L ! up)) (i \<le> up + 1))"
  proof (cases "up = 0")
    case True
    then show ?thesis using v5 own(3) by (simp add: dc_view_def)
  next
    case False
    then have P: "dc_view (L4 ! up) = dc_view (L ! up)" "consumedports (L4 ! up) = consumedports (L ! up)"
      using other i(3) by simp_all
    have "pdelay (L5 ! i) = dc_delay ?s (L4 ! up) (port_for (L4 ! up)) (i \<le> up + 1)"
      using v5 False by (simp add: dc_view_def)
    also have "\<dots> = dc_delay (L5 ! i) (L ! up) (port_for (L ! up)) (i \<le> up + 1)"
      using v5 port_for_cong [OF P] by (subst delay_cong [where P' = "L ! up" and s' = "L5 ! i" and x = 0])
        (simp_all add: dc_view_def P [unfolded dc_view_def])
    finally show ?thesis using False by simp
  qed
  moreover have "0 < up \<longrightarrow> consumedports (L5 ! up) = snd (take_port (consumedports (L ! up)))"
    using L5 other(2) [of up] i(3) by (simp add: after_measure_def)
  ultimately show ?thesis
    unfolding dc_stepped_def using f5 own(4) other c5 o5 i len by (auto simp: c5)
qed

lemma dc_step_spec:
  assumes i: "0 < i" "i < 200" "up < i" and s: "hasdc (slavelist c ! i)" "parent (slavelist c ! i) = of_nat up"
    and P: "0 < up \<longrightarrow> hasdc (slavelist c ! up)"
  shows "par (dc_step m i (h, prev, ht, hrt, c)) (\<lambda>(h, prev, ht, hrt, c'). slavecount c' = slavecount c \<and>
     dc_stepped i up (slavelist c) (slavelist c'))"
proof -
  have u [simp]: "unat (of_nat i :: u16) = i" "unat (of_nat up :: u16) = up"
    using i by (simp_all add: unat_of_nat take_bit_nat_eq_self)
  have z: "of_nat up = (0 :: u16) \<longleftrightarrow> up = 0" by (rule iffI) (use u(2) in auto)
  show ?thesis
    unfolding dc_step_def dc_slave_def Let_def prod.case par_simps ret_if
    apply (rule par_upd_slave [THEN par_conseq], clarsimp simp only: u)
    apply (rule par_slave_at [THEN par_conseq], clarsimp simp only: u)
    apply (rule conjI [THEN if_split [THEN iffD2]], clarsimp)
     defer
     apply (clarsimp simp: s)
    subgoal premises p for c1
      apply (rule dc_link_views [THEN par_conseq], clarsimp)
      apply (rule dc_times_stamps [THEN par_conseq], clarsimp)
      apply (rule par_slave_at [THEN par_conseq], clarsimp)
      apply (rule parI)
      apply (rule par_upd_slave [THEN par_conseq], clarsimp)
      subgoal premises q for c2 t c3 a b d g e c4
      proof -
        have L4: "slavelist c4 = (slavelist c3)[i := (slavelist c3 ! i)\<lparr>entryport := e,
            consumedports := consumedports (slavelist c3 ! i) AND NOT (push_bit (unat e) 1)\<rparr>]"
          using q(3,5,7) by simp
        have e: "entry_port (slavelist c3 ! i) = Some e" using q(3,5,6) by simp
        have len: "i < length (slavelist c)" "length (slavelist c4) = length (slavelist c)" "i < length (slavelist c1)"
          using p(1,2) q(1,7) by (simp_all add: same_views_def)
        have v: "dc_setting (slavelist c4 ! k) = dc_setting (slavelist c ! k)" if "0 < k" "k \<le> i" for k
        proof -
          have "dc_setting (slavelist c2 ! k) = dc_setting (slavelist c1 ! k)"
            by (rule dc_view_setting) (use q(1) that(1) in \<open>simp add: same_views_def\<close>)
          moreover have "dc_setting (slavelist c4 ! k) = dc_setting (slavelist c2 ! k)"
            using q(3,7) by (cases "k = i") (simp_all add: dc_setting_def)
          moreover have "dc_setting (slavelist c1 ! k) = dc_setting (slavelist c ! k)"
            using p(1,2) by (cases "k = i") (simp_all add: dc_setting_def)
          ultimately show ?thesis by simp
        qed
        have par: "parent (slavelist c4 ! i) = of_nat up" using v [of i] i(1) s(2) by (simp add: dc_setting_def)
        have "up = 0 \<or> hasdc (slavelist c4 ! up)" using v [of up] i(3) P by (auto simp: dc_setting_def)
        then have pa: "dc_parent (of_nat i) c4 = Some (of_nat up, of_nat i)"
          using dc_parent_clock [of "of_nat i" c4] len i(3) by (auto simp: par)
        have "par (dc_measure (of_nat i) (of_nat up) (of_nat i) t c4) (\<lambda>(ht, c5). slavecount c5 = slavecount c \<and>
            dc_stepped i up (slavelist c) (slavelist c5))"
          using dc_measure_spec [OF i(3,2), of t c4] stepped_lists [OF i(1) len(1) i(3) _ q(1,5) e L4] p q(4,8)
          by (auto elim!: par_conseq)
        then show ?thesis by (simp add: pa)
      qed
      done
    done
qed

section \<open>The loop over the tree\<close>

text \<open>A run over the slaves \<open>i\<close> to \<open>j - 1\<close> below \<open>up\<close> keeps everything else.\<close>

definition dc_frame :: "nat \<Rightarrow> nat \<Rightarrow> nat \<Rightarrow> ec_slavet list \<Rightarrow> ec_slavet list \<Rightarrow> bool" where
  "dc_frame i j up L L' \<longleftrightarrow> length L' = length L \<and>
     (\<forall>k. 0 < k \<and> \<not> (i \<le> k \<and> k < j) \<longrightarrow> dc_view (L' ! k) = dc_view (L ! k)) \<and>
     (\<forall>k. 0 < k \<and> \<not> (i \<le> k \<and> k < j) \<and> k \<noteq> up \<longrightarrow> consumedports (L' ! k) = consumedports (L ! k)) \<and>
     (\<forall>k. i \<le> k \<and> k < j \<longrightarrow> dc_setting (L' ! k) = dc_setting (L ! k))"

lemma wired_cong:
  "(\<forall>k. i \<le> k \<and> k < i + devs t \<longrightarrow> dc_setting (L' ! k) = dc_setting (L ! k)) \<Longrightarrow> wired L' up i t = wired L up i t"
  "(\<forall>k. i \<le> k \<and> k < i + devss ks \<longrightarrow> dc_setting (L' ! k) = dc_setting (L ! k)) \<Longrightarrow> wireds L' up i ks = wireds L up i ks"
proof (induction L up i t and L up i ks rule: wired_wireds.induct)
  case (1 L up i ks)
  have "wireds L' i (Suc i) ks = wireds L i (Suc i) ks" using 1(2) by (intro 1(1)) auto
  moreover have "dc_setting (L' ! i) = dc_setting (L ! i)" using 1(2) by simp
  ultimately show ?case by (simp add: dc_setting_def)
next
  case (3 L up i p d b ks)
  have "wired L' up i b = wired L up i b" using 3(3) by (intro 3(1)) auto
  moreover have "wireds L' up (i + devs b) ks = wireds L up (i + devs b) ks" using 3(3) by (intro 3(2)) auto
  ultimately show ?case by simp
qed simp

lemma latched_cong:
  "(\<forall>k. i \<le> k \<and> k < i + devs t \<longrightarrow> dc_view (L' ! k) = dc_view (L ! k)) \<Longrightarrow> latched L' i t = latched L i t"
  "(\<forall>k. i \<le> k \<and> k < i + devss ks \<longrightarrow> dc_view (L' ! k) = dc_view (L ! k)) \<Longrightarrow> latcheds L' i ks = latcheds L i ks"
proof (induction L i t and L i ks rule: latched_latcheds.induct)
  case (1 L i ks)
  have "dc_view (L' ! i) = dc_view (L ! i)" using 1(2) by simp
  then have v: "DCrtA (L' ! i) = DCrtA (L ! i)" "ecx_porttime (L' ! i) p = ecx_porttime (L ! i) p" for p
    by (simp_all add: dc_view_def ecx_porttime_def)
  have "turned (L' ! i) a ks = turned (L ! i) a ks" for a
    by (induction ks arbitrary: a) (auto simp: v)
  moreover have "latcheds L' (Suc i) ks = latcheds L (Suc i) ks" using 1(2) by (intro 1(1)) auto
  ultimately show ?case by (simp add: steady_clock_def v)
next
  case (3 L i p d b ks)
  have "latched L' i b = latched L i b" using 3(3) by (intro 3(1)) auto
  moreover have "latcheds L' (i + devs b) ks = latcheds L (i + devs b) ks" using 3(3) by (intro 3(2)) auto
  ultimately show ?case by simp
qed simp

text \<open>A parent of which the branches \<open>F\<close> have been measured and the branches \<open>G\<close> have not.\<close>

definition parent_ready :: "ec_slavet \<Rightarrow> (byte \<times> nat \<times> cable) list \<Rightarrow> (byte \<times> nat \<times> cable) list \<Rightarrow> nat \<Rightarrow> bool" where
  "parent_ready P F G a \<longleftrightarrow> hasdc P \<and> map fst (F @ G) \<in> set port_order \<and> activeports P = port_bits (0 # map fst (F @ G)) \<and>
     topology P = of_nat (Suc (length (F @ G))) \<and> turned P 0 (F @ G) \<and> steady_clock P (rtts (F @ G)) \<and>
     entryport P = 0 \<and> consumedports P = port_bits (map fst G) \<and> pdelay P = of_nat a"

definition placed :: "ec_slavet list \<Rightarrow> nat \<Rightarrow> nat \<Rightarrow> cable \<Rightarrow> nat \<Rightarrow> bool" where
  "placed L up i t a \<longleftrightarrow> (if up = 0 then pdelay (L ! i) = of_nat a
     else \<exists>F p d G a0. parent_ready (L ! up) F ((p, d, t) # G) a0 \<and> (F = [] \<longleftrightarrow> i \<le> up + 1) \<and> a = a0 + rtts F + d)"

definition delays :: "ec_slavet list \<Rightarrow> nat \<Rightarrow> nat \<Rightarrow> u32 list" where
  "delays L i n = map pdelay (take n (drop i L))"

lemma delays_Suc: "i < length L \<Longrightarrow> delays L i (Suc n) = pdelay (L ! i) # delays L (Suc i) n"
  by (simp add: delays_def Cons_nth_drop_Suc [symmetric])

lemma delays_add: "delays L i (m + n) = delays L i m @ delays L (i + m) n"
  by (simp add: delays_def take_add add.commute)

lemma delays_cong: "length L' = length L \<Longrightarrow> (\<forall>k. i \<le> k \<and> k < i + n \<longrightarrow> dc_view (L' ! k) = dc_view (L ! k)) \<Longrightarrow> delays L' i n = delays L i n"
  by (rule nth_equalityI) (auto simp: delays_def dc_view_def)

text \<open>The step of the slave that heads a tree.\<close>

lemma placed_delay:
  assumes st: "dc_stepped i up L L1" and w: "wired L up i (Dev ks)" and pl: "placed L up i (Dev ks) a"
    and la: "turned (L1 ! i) 0 ks" "steady_clock (L1 ! i) (rtts ks)"
  shows "parent_ready (L1 ! i) [] ks a"
proof -
  let ?s = "L1 ! i"
  have set: "hasdc ?s" "activeports ?s = port_bits (0 # map fst ks)" "topology ?s = of_nat (Suc (length ks))"
    and o: "map fst ks \<in> set port_order"
    using st w by (auto simp: dc_stepped_def dc_setting_def)
  have e: "entryport ?s = 0" using first_stamp [OF o set(2) la] st by (simp add: dc_stepped_def)
  have "consumedports ?s = port_bits (map fst ks)"
    using st w free_ports [OF o] e by (simp add: dc_stepped_def)
  moreover have "pdelay ?s = of_nat a"
  proof (cases "up = 0")
    case True
    then show ?thesis using st pl by (simp add: dc_stepped_def placed_def)
  next
    case False
    then obtain F p d G a0 where P: "parent_ready (L ! up) F ((p, d, Dev ks) # G) a0"
      and f: "F = [] \<longleftrightarrow> i \<le> up + 1" and a: "a = a0 + rtts F + d"
      using pl by (auto simp: placed_def)
    have po: "map fst (F @ (p, d, Dev ks) # G) \<in> set port_order" using P by (simp add: parent_ready_def)
    have "length (map fst (F @ (p, d, Dev ks) # G)) \<le> 3" using po by (cases rule: port_order_cases) simp_all
    then have "length F + length G \<le> 2" by simp
    then have "length F + length G = 0 \<or> length F + length G = 1 \<or> length F + length G = 2" by linarith
    moreover have "topology (L ! up) = of_nat (Suc (Suc (length F + length G)))" using P by (simp add: parent_ready_def)
    ultimately have t: "topology (L ! up) \<noteq> 1" by (elim disjE) (simp_all only:, simp_all)
    have "take_port (consumedports (L ! up)) = (p, port_bits (map fst G))"
      using take_port_order [of "map fst F" p "map fst G"] po P by (simp add: parent_ready_def)
    then have "port_for (L ! up) = p" using t by (simp add: port_for_def)
    then have "pdelay ?s = dc_delay ?s (L ! up) p (F = [])" using st False f by (simp add: dc_stepped_def)
    also have "\<dots> = of_nat (rtts F + d) + pdelay (L ! up)"
      using P by (intro delay_of_branch [OF po _ _ _ _ o set(2,3) la(1) e]) (simp_all add: parent_ready_def)
    finally show ?thesis using P by (simp add: a parent_ready_def add.commute add.left_commute)
  qed
  ultimately show ?thesis using set o la e by (simp add: parent_ready_def)
qed

text \<open>What a run over a tree does.\<close>

definition run_tree :: "nat \<Rightarrow> nat \<Rightarrow> ec_slavet list \<Rightarrow> ec_slavet list \<Rightarrow> cable \<Rightarrow> nat \<Rightarrow> bool" where
  "run_tree i up L L' t a \<longleftrightarrow> dc_frame i (i + devs t) up L L' \<and>
     (0 < up \<longrightarrow> consumedports (L' ! up) = snd (take_port (consumedports (L ! up)))) \<and>
     (latched L' i t \<and> placed L up i t a \<longrightarrow> delays L' i (devs t) = map of_nat (arrivals a t))"

definition run_forest :: "nat \<Rightarrow> nat \<Rightarrow> ec_slavet list \<Rightarrow> ec_slavet list \<Rightarrow> (byte \<times> nat \<times> cable) list \<Rightarrow> nat \<Rightarrow>
    (byte \<times> nat \<times> cable) list \<Rightarrow> bool" where
  "run_forest i up L L' ks a F \<longleftrightarrow> dc_frame i (i + devss ks) up L L' \<and>
     (latcheds L' i ks \<and> parent_ready (L ! up) F ks a \<and> (F = [] \<longleftrightarrow> i \<le> up + 1) \<longrightarrow>
        delays L' i (devss ks) = map of_nat (arrivalss (a + rtts F) ks))"

lemma run_tree_node:
  assumes st: "dc_stepped i up L L1" and w: "wired L up i (Dev ks)" and f: "run_forest (Suc i) i L1 L' ks a []"
    and i: "0 < i" "up < i" "i + devs (Dev ks) \<le> length L"
  shows "run_tree i up L L' (Dev ks) a"
proof -
  have fr: "dc_frame (Suc i) (Suc i + devss ks) i L1 L'" using f by (simp add: run_forest_def)
  have len: "length L1 = length L" "length L' = length L" using st fr by (simp_all add: dc_stepped_def dc_frame_def)
  have own: "dc_view (L' ! i) = dc_view (L1 ! i)" using fr i(1) by (simp add: dc_frame_def)
  have "dc_setting (L' ! k) = dc_setting (L ! k)" if "i \<le> k" "k < i + devs (Dev ks)" for k
  proof (cases "k = i")
    case True
    then show ?thesis using dc_view_setting [OF own] st by (simp add: dc_stepped_def)
  next
    case False
    then have "dc_setting (L1 ! k) = dc_setting (L ! k)"
      using st that i(1) by (intro dc_view_setting) (simp add: dc_stepped_def)
    then show ?thesis using fr False that by (simp add: dc_frame_def)
  qed
  then have frame: "dc_frame i (i + devs (Dev ks)) up L L'"
    using st fr i len unfolding dc_frame_def dc_stepped_def by auto
  have cons: "0 < up \<longrightarrow> consumedports (L' ! up) = snd (take_port (consumedports (L ! up)))"
    using st fr i(2) by (simp add: dc_frame_def dc_stepped_def)
  have "delays L' i (devs (Dev ks)) = map of_nat (arrivals a (Dev ks))"
    if la: "latched L' i (Dev ks)" and pl: "placed L up i (Dev ks) a"
  proof -
    have v: "DCrtA (L' ! i) = DCrtA (L1 ! i)" "\<And>p. ecx_porttime (L' ! i) p = ecx_porttime (L1 ! i) p"
        "pdelay (L' ! i) = pdelay (L1 ! i)"
      using own by (simp_all add: dc_view_def ecx_porttime_def)
    have "turned (L' ! i) b ks = turned (L1 ! i) b ks" for b
      by (induction ks arbitrary: b) (auto simp: v)
    then have ready: "parent_ready (L1 ! i) [] ks a"
      using la by (intro placed_delay [OF st w pl]) (simp_all add: steady_clock_def v)
    then have "delays L' (Suc i) (devss ks) = map of_nat (arrivalss a ks)"
      using f la by (simp add: run_forest_def)
    moreover have "pdelay (L' ! i) = of_nat a" using ready v(3) by (simp add: parent_ready_def)
    ultimately show ?thesis using i(3) len by (simp add: delays_Suc)
  qed
  then show ?thesis using frame cons by (simp add: run_tree_def)
qed

lemma frame_join:
  assumes "dc_frame i j up L L1" "dc_frame j m up L1 L'" "i \<le> j" "j \<le> m"
    "\<And>k. i \<le> k \<Longrightarrow> k < m \<Longrightarrow> dc_setting (L' ! k) = dc_setting (L ! k)"
  shows "dc_frame i m up L L'"
  unfolding dc_frame_def
proof (intro conjI allI impI)
  fix k
  assume k: "0 < k \<and> \<not> (i \<le> k \<and> k < m)"
  then have "dc_view (L' ! k) = dc_view (L1 ! k)" using assms(2-4) by (auto simp: dc_frame_def)
  also have "\<dots> = dc_view (L ! k)" using assms(1,3,4) k by (auto simp: dc_frame_def)
  finally show "dc_view (L' ! k) = dc_view (L ! k)" .
next
  fix k
  assume k: "0 < k \<and> \<not> (i \<le> k \<and> k < m) \<and> k \<noteq> up"
  then have "consumedports (L' ! k) = consumedports (L1 ! k)" using assms(2-4) by (auto simp: dc_frame_def)
  also have "\<dots> = consumedports (L ! k)" using assms(1,3,4) k by (auto simp: dc_frame_def)
  finally show "consumedports (L' ! k) = consumedports (L ! k)" .
qed (use assms in \<open>auto simp: dc_frame_def\<close>)

lemma run_forest_Cons:
  assumes t: "run_tree i up L L1 b (a + rtts F + d)" and f: "run_forest (i + devs b) up L1 L' ks a (F @ [(p, d, b)])"
    and i: "0 < up" "up < i"
  shows "run_forest i up L L' ((p, d, b) # ks) a F"
proof -
  let ?j = "i + devs b"
  have t': "dc_frame i ?j up L L1" "consumedports (L1 ! up) = snd (take_port (consumedports (L ! up)))"
    using t i by (simp_all add: run_tree_def)
  have f': "dc_frame ?j (?j + devss ks) up L1 L'" using f by (simp add: run_forest_def)
  have pos: "i < ?j" by (cases b) simp
  have set: "dc_setting (L' ! k) = dc_setting (L ! k)" if "i \<le> k" "k < ?j + devss ks" for k
  proof (cases "k < ?j")
    case True
    then have "dc_setting (L' ! k) = dc_setting (L1 ! k)"
      using f' that i by (intro dc_view_setting) (simp add: dc_frame_def)
    then show ?thesis using t'(1) True that by (simp add: dc_frame_def)
  next
    case False
    then have "dc_setting (L1 ! k) = dc_setting (L ! k)"
      using t'(1) that i by (intro dc_view_setting) (simp add: dc_frame_def)
    then show ?thesis using f' False that by (simp add: dc_frame_def)
  qed
  have frame: "dc_frame i (i + devss ((p, d, b) # ks)) up L L'"
    using frame_join [OF t'(1) f'] set pos by (simp add: add.assoc)
  have "delays L' i (devss ((p, d, b) # ks)) = map of_nat (arrivalss (a + rtts F) ((p, d, b) # ks))"
    if la: "latcheds L' i ((p, d, b) # ks)" and P: "parent_ready (L ! up) F ((p, d, b) # ks) a" and n: "F = [] \<longleftrightarrow> i \<le> up + 1"
  proof -
    have same: "dc_view (L' ! k) = dc_view (L1 ! k)" if "i \<le> k" "k < ?j" for k
      using f' that i by (simp add: dc_frame_def)
    have len: "length L' = length L1" using f' by (simp add: dc_frame_def)
    have "latched L1 i b" using la latched_cong(1) [of i b L' L1] same by simp
    moreover have "placed L up i b (a + rtts F + d)"
      unfolding placed_def using P n i by (simp only: if_False neq0_conv [symmetric], intro exI [of _ F] exI [of _ p] exI [of _ d]
        exI [of _ ks] exI [of _ a]) simp
    ultimately have d1: "delays L' i (devs b) = map of_nat (arrivals (a + rtts F + d) b)"
      using t same len delays_cong [of L' L1 i "devs b"] by (simp add: run_tree_def)
    have view: "dc_view (L1 ! up) = dc_view (L ! up)" using t'(1) i by (simp add: dc_frame_def)
    then have v: "DCrtA (L1 ! up) = DCrtA (L ! up)" "\<And>q. ecx_porttime (L1 ! up) q = ecx_porttime (L ! up) q"
      by (simp_all add: dc_view_def ecx_porttime_def)
    have tn: "turned (L1 ! up) c ls = turned (L ! up) c ls" for c ls
      by (induction ls arbitrary: c) (auto simp: v)
    have "take_port (consumedports (L ! up)) = (p, port_bits (map fst ks))"
      using P take_port_order [of "map fst F" p "map fst ks"] by (simp add: parent_ready_def)
    then have "consumedports (L1 ! up) = port_bits (map fst ks)" using t'(2) by simp
    then have "parent_ready (L1 ! up) (F @ [(p, d, b)]) ks a"
      using P view tn [of 0 "F @ (p, d, b) # ks"] by (simp add: parent_ready_def dc_view_def steady_clock_def)
    moreover have "F @ [(p, d, b)] = [] \<longleftrightarrow> ?j \<le> up + 1" using i pos by simp
    ultimately have "delays L' ?j (devss ks) = map of_nat (arrivalss (a + rtts (F @ [(p, d, b)])) ks)"
      using f la by (simp add: run_forest_def)
    then show ?thesis using d1 by (simp add: delays_add rtts_append add.assoc)
  qed
  then show ?thesis using frame by (simp add: run_forest_def)
qed

lemma run_lists:
  "wired (slavelist c) up i t \<Longrightarrow> 0 < i \<Longrightarrow> up < i \<Longrightarrow> (0 < up \<longrightarrow> hasdc (slavelist c ! up)) \<Longrightarrow>
     i + devs t \<le> 200 \<Longrightarrow> length (slavelist c) = 200 \<Longrightarrow>
     par (for_each (dc_step m) [i..<i + devs t] (h, prev, ht, hrt, c))
       (\<lambda>(h, prev, ht, hrt, c'). slavecount c' = slavecount c \<and> (\<forall>a. run_tree i up (slavelist c) (slavelist c') t a))"
  "wireds (slavelist c) up i ks \<Longrightarrow> 0 < up \<Longrightarrow> up < i \<Longrightarrow> hasdc (slavelist c ! up) \<Longrightarrow>
     i + devss ks \<le> 200 \<Longrightarrow> length (slavelist c) = 200 \<Longrightarrow>
     par (for_each (dc_step m) [i..<i + devss ks] (h, prev, ht, hrt, c))
       (\<lambda>(h, prev, ht, hrt, c'). slavecount c' = slavecount c \<and> (\<forall>a F. run_forest i up (slavelist c) (slavelist c') ks a F))"
proof (induction t and ks arbitrary: up i h prev ht hrt c and up i h prev ht hrt c rule: devs_devss.induct)
  case (1 ks)
  have r: "[i..<i + devs (Dev ks)] = i # [Suc i..<Suc i + devss ks]" by (simp add: upt_conv_Cons)
  show ?case
    unfolding r for_each.simps par_simps
  proof (rule dc_step_spec [where i = i and up = up, THEN par_conseq], goal_cases)
    case (7 x)
    obtain h1 prev1 ht1 hrt1 c1 where x: "x = (h1, prev1, ht1, hrt1, c1)" by (cases x)
    have s: "slavecount c1 = slavecount c" and st: "dc_stepped i up (slavelist c) (slavelist c1)" using 7 by (simp_all add: x)
    have len: "length (slavelist c1) = 200" using st 1 by (simp add: dc_stepped_def)
    have "dc_setting (slavelist c1 ! k) = dc_setting (slavelist c ! k)" if "Suc i \<le> k" for k
      using st that by (intro dc_view_setting) (simp add: dc_stepped_def)
    then have w: "wireds (slavelist c1) i (Suc i) ks"
      using wired_cong(2) [of "Suc i" ks "slavelist c1" "slavelist c" i] 1(2) by simp
    have hd: "hasdc (slavelist c1 ! i)" using st 1(2) by (simp add: dc_stepped_def dc_setting_def)
    have "par (for_each (dc_step m) [Suc i..<Suc i + devss ks] x)
        (\<lambda>(h, prev, ht, hrt, c'). slavecount c' = slavecount c1 \<and>
          (\<forall>a F. run_forest (Suc i) i (slavelist c1) (slavelist c') ks a F))"
      unfolding x by (rule 1(1)) (use w hd len 1 in simp_all)
    then show ?case
    proof (rule par_conseq, clarify, intro conjI allI)
      fix c2 a
      assume "\<forall>a F. run_forest (Suc i) i (slavelist c1) (slavelist c2) ks a F"
      then show "run_tree i up (slavelist c) (slavelist c2) (Dev ks) a"
        using 1 by (intro run_tree_node [OF st]) simp_all
    qed (simp add: s)
  qed (use 1 in simp_all)
next
  case 2
  show ?case by (simp add: run_forest_def dc_frame_def delays_def)
next
  case (3 p d b ks)
  have r: "[i..<i + devss ((p, d, b) # ks)] = [i..<i + devs b] @ [i + devs b..<i + devs b + devss ks]"
    using upt_add_eq_append [of i "i + devs b" "devss ks"] by (simp add: add.assoc)
  have pos: "0 < devs b" by (cases b) simp
  have "par (for_each (dc_step m) [i..<i + devs b] (h, prev, ht, hrt, c))
       (\<lambda>(h, prev, ht, hrt, c'). slavecount c' = slavecount c \<and> (\<forall>a. run_tree i up (slavelist c) (slavelist c') b a))"
    by (rule 3(1)) (use 3 in simp_all)
  then show ?case
    unfolding r for_each_append par_simps
  proof (rule par_conseq, goal_cases)
    case (1 x)
    obtain h1 prev1 ht1 hrt1 c1 where x: "x = (h1, prev1, ht1, hrt1, c1)" by (cases x)
    have s: "slavecount c1 = slavecount c" and t: "\<And>a. run_tree i up (slavelist c) (slavelist c1) b a" using 1 by (simp_all add: x)
    have fr: "dc_frame i (i + devs b) up (slavelist c) (slavelist c1)" using t by (simp add: run_tree_def)
    have len: "length (slavelist c1) = 200" using fr 3 by (simp add: dc_frame_def)
    have v: "dc_setting (slavelist c1 ! k) = dc_setting (slavelist c ! k)" if "0 < k" "\<not> (i \<le> k \<and> k < i + devs b)" for k
      using fr that by (intro dc_view_setting) (simp add: dc_frame_def)
    then have w: "wireds (slavelist c1) up (i + devs b) ks"
      using wired_cong(2) [of "i + devs b" ks "slavelist c1" "slavelist c" up] 3(3,5) pos by simp
    have hd: "hasdc (slavelist c1 ! up)" using v [of up] 3 by (simp add: dc_setting_def)
    have "par (for_each (dc_step m) [i + devs b..<i + devs b + devss ks] x)
        (\<lambda>(h, prev, ht, hrt, c'). slavecount c' = slavecount c1 \<and>
          (\<forall>a F. run_forest (i + devs b) up (slavelist c1) (slavelist c') ks a F))"
      unfolding x by (rule 3(2)) (use w hd len 3 in simp_all)
    then show ?case
    proof (rule par_conseq, clarify, intro conjI allI)
      fix c2 a F
      assume f: "\<forall>a F. run_forest (i + devs b) up (slavelist c1) (slavelist c2) ks a F"
      show "run_forest i up (slavelist c) (slavelist c2) ((p, d, b) # ks) a F"
        by (rule run_forest_Cons [OF t f [rule_format]]) (use 3 in simp_all)
    qed (simp add: s)
  qed
qed

section \<open>The loop returns\<close>

text \<open>The invariant: the master is well formed and the settings of the slaves are those of the bus.\<close>

definition dc_inv :: "ecx_contextt \<Rightarrow> nat \<Rightarrow> u16 \<Rightarrow> ecx_contextt \<Rightarrow> bool" where
  "dc_inv c0 n prev c \<longleftrightarrow> evolves c0 c \<and> unat prev < 200 \<and> (\<forall>k. 1 \<le> k \<and> k \<le> n \<longrightarrow> dc_setting (slavelist c ! k) = dc_setting (slavelist c0 ! k))"

definition dc_bus :: "ec_slavet list \<Rightarrow> nat \<Rightarrow> bool" where
  "dc_bus L n \<longleftrightarrow> n < 200 \<and> (\<forall>k. 1 \<le> k \<and> k \<le> n \<longrightarrow> hasdc (L ! k) \<and> unat (parent (L ! k)) < k \<and>
     activeports (L ! k) AND 1 \<noteq> 0 \<and> unat (group (L ! k)) < 2)"

lemma upd_group_wp:
  assumes "evolves c0 c" "unat i < 2" "\<And>g. group_ok g \<Longrightarrow> group_ok (f g)"
    "\<And>d. evolves c0 d \<Longrightarrow> slavelist d = slavelist c \<Longrightarrow> Q d"
  shows "ret (upd_group i f c) Q"
proof -
  have l: "length (grouplist c) = 2" "group_ok (grouplist c ! unat i)"
    using assms(1,2) by (simp_all add: evolves_def ctx_ok_def)
  have "evolves c0 (c\<lparr>grouplist := (grouplist c)[unat i := f (grouplist c ! unat i)]\<rparr>)"
    by (rule evolves_group [OF assms(1) assms(3) [OF l(2)]])
  then show ?thesis using assms(2,4) l by (simp add: upd_group_def group_at_def)
qed

lemma dc_updates_ok [simp]:
  "slave_ok (s\<lparr>consumedports := b\<rparr>) = slave_ok s" "slave_ok (s\<lparr>hasdc := h, DCnext := w\<rparr>) = slave_ok s"
  "slave_ok (s\<lparr>DCprevious := w\<rparr>) = slave_ok s" "slave_ok (s\<lparr>DCnext := w\<rparr>) = slave_ok s"
  "slave_ok (s\<lparr>DCrtA := t\<rparr>) = slave_ok s" "slave_ok (s\<lparr>DCrtB := t\<rparr>) = slave_ok s" "slave_ok (s\<lparr>DCrtC := t\<rparr>) = slave_ok s"
  "slave_ok (s\<lparr>DCrtD := t\<rparr>) = slave_ok s" "slave_ok (s\<lparr>entryport := b\<rparr>) = slave_ok s"
  "slave_ok (s\<lparr>parentport := b\<rparr>) = slave_ok s" "slave_ok (s\<lparr>pdelay := t\<rparr>) = slave_ok s"
  "slave_ok (s\<lparr>hasdc := h\<rparr>) = slave_ok s"
  by (simp_all add: slave_ok_def)

lemma dc_write_wp:
  assumes "evolves c0 c" "length data \<le> 1490" "\<And>p. evolves c0 (c\<lparr>port := p\<rparr>) \<Longrightarrow> Q (c\<lparr>port := p\<rparr>)"
  shows "ret (dc_write a r data c) Q"
  unfolding dc_write_def ret_step
  by (rule write_wps(2) [OF assms(1)]) (use assms in \<open>simp_all add: unat_of_nat take_bit_nat_eq_self\<close>)

lemma dc_read32_wp:
  assumes "evolves c0 c" "\<And>ht p. evolves c0 (c\<lparr>port := p\<rparr>) \<Longrightarrow> Q (ht, c\<lparr>port := p\<rparr>)"
  shows "ret (dc_read32 a r ht c) Q"
  unfolding dc_read32_def ret_step
  by (rule read_wps(2) [OF assms(1)]) (use assms in simp_all)

lemma dc_link_wp:
  assumes "evolves c0 c" "unat i < 200" "0 < unat i" "unat prev < 200" "unat (group (slavelist c ! unat i)) < 2"
  shows "ret (dc_link i prev c) (evolves c0)"
  unfolding dc_link_def ret_step ret_if
  apply (rule slave_at_wp [OF assms(1)], simp)
  apply (rule if_bool_eq_conj [THEN iffD2], intro conjI impI)
   apply (rule upd_slave_wp [OF assms(1)], simp, simp)
   apply (rule upd_slave_wp, assumption, simp add: assms, simp)
   apply (rule slave_at_wp, assumption, simp add: assms)
   apply (rule upd_group_wp, assumption)
  using assms apply (simp_all add: evolves_sizes group_ok_def)
  apply (rule upd_slave_wp [OF assms(1)], simp add: assms, simp)
  apply (rule upd_slave_wp, assumption, simp add: assms, simp, assumption)
  done

lemma dc_times_wp:
  assumes "evolves c0 c" "unat i < 200"
  shows "ret (dc_times i m ht hrt c) (\<lambda>(ht, hrt, d). evolves c0 d)"
  unfolding dc_times_def ret_step
  apply (rule slave_at_wp [OF assms(1)], simp add: assms)
  apply (rule dc_read32_wp [OF assms(1)])
  apply (simp only: ret_step)
  apply (rule upd_slave_wp, assumption, simp add: assms, simp)
  apply (rule read_wps(2), assumption, simp, simp)
  apply (simp only: ret_step)
  apply (rule dc_write_wp, assumption, simp)
  apply (rule dc_read32_wp, assumption, simp only: ret_step, rule upd_slave_wp, assumption, simp add: assms, simp)+
  apply simp
  done

lemma dc_measure_wp:
  assumes "evolves c0 c" "unat i < 200" "unat up < 200"
  shows "ret (dc_measure i up child ht c) (\<lambda>(ht, d). evolves c0 d)"
  unfolding dc_measure_def ecx_parentport_def ret_step ret_if
  apply (rule if_bool_eq_conj [THEN iffD2], intro conjI impI)
   apply (rule slave_at_wp [OF assms(1)], simp add: assms)
   apply (simp only: ret_step case_prod_unfold)
   apply (rule upd_slave_wp [OF assms(1)], simp add: assms, simp)
   apply (rule slave_at_wp, assumption, simp add: assms)
   apply (rule upd_slave_wp, assumption, simp add: assms, simp)
   apply (rule slave_at_wp, assumption, simp add: assms)
   apply (rule slave_at_wp, assumption, simp add: assms)
   apply (rule upd_slave_wp, assumption, simp add: assms, simp)
   apply (rule dc_write_wp, assumption, simp, simp)
  apply (simp add: assms)
  done

lemma port_stamps_entry: "activeports s AND 1 \<noteq> 0 \<Longrightarrow> entry_port s \<noteq> None"
proof -
  have e: "earlier l k b < length l" if "b < length l" for l k b using that by (simp add: earlier_def)
  assume "activeports s AND 1 \<noteq> 0"
  then have "0 < length (port_stamps s)" by (simp add: port_stamps_def)
  then have "earlier (port_stamps s) 3 (earlier (port_stamps s) 2 (earlier (port_stamps s) 1 0)) < length (port_stamps s)"
    by (intro e)
  then show ?thesis by (simp add: entry_port_def Let_def aget_def case_prod_unfold)
qed

lemma dc_slave_wp:
  assumes e: "evolves c0 c" and prev: "unat prev < 200" and i: "0 < unat i" "unat i < 200"
    and s: "activeports (slavelist c ! unat i) AND 1 \<noteq> 0" "unat (group (slavelist c ! unat i)) < 2"
    and up: "unat (parent (slavelist c ! unat i)) < unat i"
      "parent (slavelist c ! unat i) = 0 \<or> hasdc (slavelist c ! unat (parent (slavelist c ! unat i)))"
  shows "ret (dc_slave m i (h, prev, ht, hrt, c)) (\<lambda>(h', prev', ht', hrt', d). evolves c0 d \<and> unat prev' < 200)"
  unfolding dc_slave_def ret_step
proof (rule ret_par [OF dc_link_wp [OF e i(2,1) prev s(2)] dc_link_views, THEN ret_conseq], goal_cases)
  case (1 c1)
  then have e1: "evolves c0 c1" and v1: "same_views (slavelist c) (slavelist c1)" by simp_all
  have len: "length (slavelist c) = 200" "length (slavelist c1) = 200" using e e1 by (simp_all add: evolves_sizes)
  show ?case
  proof (rule ret_par [OF dc_times_wp [OF e1 i(2)] dc_times_stamps, THEN ret_conseq], goal_cases)
    case (1 x)
    then obtain ht' hrt' c2 a b d g where x: "x = (ht', hrt', c2)" and e2: "evolves c0 c2"
      and L2: "slavelist c2 = (slavelist c1)[unat i := (slavelist c1 ! unat i)\<lparr>DCrtA := a, DCrtB := b, DCrtC := d, DCrtD := g\<rparr>]"
      by (cases x) auto
    have set: "dc_setting (slavelist c2 ! k) = dc_setting (slavelist c ! k)" if "0 < k" for k
    proof -
      have "dc_setting (slavelist c1 ! k) = dc_setting (slavelist c ! k)"
        by (rule dc_view_setting) (use v1 that in \<open>simp add: same_views_def\<close>)
      moreover have "dc_setting (slavelist c2 ! k) = dc_setting (slavelist c1 ! k)"
        using i(2) len by (cases "k = unat i") (simp_all add: L2 dc_setting_def)
      ultimately show ?thesis by simp
    qed
    have sl: "slave_at i c2 = Some (slavelist c2 ! unat i)" using i(2) e2 by (simp add: slave_at_def evolves_sizes)
    have "activeports (slavelist c2 ! unat i) AND 1 \<noteq> 0" using set [OF i(1)] s(1) by (simp add: dc_setting_def)
    then obtain p where p: "entry_port (slavelist c2 ! unat i) = Some p" using port_stamps_entry by blast
    show ?case
      unfolding x prod.case ret_step sl p
    proof (rule upd_slave_wp [OF e2 i(2)], goal_cases)
      case (1 s)
      then show ?case by simp
    next
      case 2
      let ?c = "c2\<lparr>slavelist := (slavelist c2)[unat i := (slavelist c2 ! unat i)\<lparr>entryport := p,
          consumedports := consumedports (slavelist c2 ! unat i) AND NOT (push_bit (unat p) 1)\<rparr>]\<rparr>"
      have l2: "length (slavelist c2) = 200" using e2 by (rule evolves_sizes)
      have set': "dc_setting (slavelist ?c ! k) = dc_setting (slavelist c ! k)" if "0 < k" for k
        using set [OF that] i(2) l2 by (cases "k = unat i") (simp_all add: dc_setting_def)
      define d where "d = ?c"
      have P: "parent (slavelist d ! unat i) = parent (slavelist c ! unat i)"
        using set' [OF i(1)] by (simp add: d_def dc_setting_def)
      have "parent (slavelist c ! unat i) = 0 \<or> hasdc (slavelist d ! unat (parent (slavelist c ! unat i)))"
        using set' [of "unat (parent (slavelist c ! unat i))"] up(2) unfolding d_def [symmetric]
        by (auto simp: dc_setting_def unat_gt_0)
      then have "dc_parent i d = Some (parent (slavelist c ! unat i), i)"
        using dc_parent_clock [of i d] i(2) l2 up(1) by (simp add: P) (simp add: d_def)
      then show ?case
        using dc_measure_wp [OF 2 i(2), of "parent (slavelist c ! unat i)" i ht'] up(1) i(2)
        unfolding d_def [symmetric] by (auto elim!: ret_conseq)
    qed
  qed
qed

lemma dc_step_wp:
  assumes inv: "dc_inv c0 n prev c" and bus: "dc_bus (slavelist c0) n" and i: "1 \<le> i" "i \<le> n"
  shows "ret (dc_step m i (h, prev, ht, hrt, c)) (\<lambda>(h', prev', ht', hrt', d). dc_inv c0 n prev' d)"
proof -
  have e: "evolves c0 c" and prev: "unat prev < 200"
    and st: "\<And>k. 1 \<le> k \<Longrightarrow> k \<le> n \<Longrightarrow> dc_setting (slavelist c ! k) = dc_setting (slavelist c0 ! k)"
    using inv by (simp_all add: dc_inv_def)
  have n: "n < 200" and b: "\<And>k. 1 \<le> k \<Longrightarrow> k \<le> n \<Longrightarrow> hasdc (slavelist c ! k) \<and> unat (parent (slavelist c ! k)) < k \<and>
     activeports (slavelist c ! k) AND 1 \<noteq> 0 \<and> unat (group (slavelist c ! k)) < 2"
    using bus st by (auto simp: dc_bus_def dc_setting_def)
  have u [simp]: "unat (of_nat i :: u16) = i" using i n by (simp add: unat_of_nat take_bit_nat_eq_self)
  let ?up = "unat (parent (slavelist c ! i))"
  have up: "?up < i" "0 < ?up \<longrightarrow> hasdc (slavelist c ! ?up)" using b [of i] b [of ?up] i by auto
  have len: "length (slavelist c) = 200" using e by (rule evolves_sizes)
  have par: "par (dc_step m i (h, prev, ht, hrt, c)) (\<lambda>(h, prev', ht, hrt, c'). dc_stepped i ?up (slavelist c) (slavelist c'))"
    by (rule dc_step_spec [where up = ?up, THEN par_conseq]) (use i n b [of i] up in auto)
  let ?s = "(slavelist c ! i)\<lparr>consumedports := activeports (slavelist c ! i)\<rparr>"
  let ?c = "c\<lparr>slavelist := (slavelist c)[i := ?s]\<rparr>"
  have start: "upd_slave (of_nat i) (\<lambda>s. s\<lparr>consumedports := activeports s\<rparr>) c = Some ?c" "slave_at (of_nat i) ?c = Some ?s"
    using i n len by (simp_all add: upd_slave_def slave_at_def set_slave_def aget_def aset_def)
  have "evolves c0 ?c" using evolves_slave [OF e, of ?s i] e i n len by (simp add: evolves_def ctx_ok_def)
  then have "ret (dc_slave m (of_nat i) (h, prev, ht, hrt, ?c)) (\<lambda>(h', prev', ht', hrt', d). evolves c0 d \<and> unat prev' < 200)"
    by (rule dc_slave_wp) (use prev i n len b [of i] up in \<open>auto simp: nth_list_update unat_gt_0\<close>)
  then have "ret (dc_step m i (h, prev, ht, hrt, c)) (\<lambda>(h', prev', ht', hrt', d). evolves c0 d \<and> unat prev' < 200)"
    using b [of i] i by (simp add: dc_step_def Let_def start)
  from ret_par [OF this par] show ?thesis
  proof (rule ret_conseq, clarify, goal_cases)
    case (1 h' prev' ht' hrt' d)
    have "dc_setting (slavelist d ! k) = dc_setting (slavelist c ! k)" if "1 \<le> k" for k
    proof (cases "k = i")
      case False
      then show ?thesis by (intro dc_view_setting) (use 1 that in \<open>simp add: dc_stepped_def\<close>)
    qed (use 1 in \<open>simp add: dc_stepped_def\<close>)
    then show ?case using 1 st by (simp add: dc_inv_def)
  qed
qed

lemma wired_bus:
  "wired L up i t \<Longrightarrow> up < i \<Longrightarrow> i + devs t \<le> 200 \<Longrightarrow> i \<le> k \<Longrightarrow> k < i + devs t \<Longrightarrow>
     hasdc (L ! k) \<and> unat (parent (L ! k)) < k \<and> activeports (L ! k) AND 1 \<noteq> 0"
  "wireds L up i ks \<Longrightarrow> up < i \<Longrightarrow> i + devss ks \<le> 200 \<Longrightarrow> i \<le> k \<Longrightarrow> k < i + devss ks \<Longrightarrow>
     hasdc (L ! k) \<and> unat (parent (L ! k)) < k \<and> activeports (L ! k) AND 1 \<noteq> 0"
proof (induction L up i t and L up i ks rule: wired_wireds.induct)
  case (1 L up i ks)
  show ?case
  proof (cases "k = i")
    case True
    have "unat (of_nat up :: u16) = up" using 1 by (simp add: unat_of_nat take_bit_nat_eq_self)
    moreover have "activeports (L ! i) AND 1 \<noteq> 0"
      using 1(2) by (auto elim!: port_order_cases)
    ultimately show ?thesis using 1 True by simp
  qed (use 1 in simp)
next
  case (3 L up i p d b ks)
  show ?case by (cases "k < i + devs b") (use 3 in simp_all)
qed simp

text \<open>
  C8: On every bus of slaves with clocks, whatever the tree they form, \<open>ecx_configdc\<close> returns and
  keeps the master well formed; and if the time stamps the slaves answer are those a frame leaves
  behind that needs the same time for a cable in both directions, then the propagation delay
  computed for every slave is exactly the time after which the frame reaches it.
\<close>

theorem delays_measured:
  assumes "ctx_ok c" "slavecount c = int (devs t)" "wired (slavelist c) 0 1 t" "pdelay (slavelist c ! 1) = 0"
    "\<forall>k. 1 \<le> k \<and> k \<le> devs t \<longrightarrow> unat (group (slavelist c ! k)) < EC_MAXGROUP"
  shows "ret (ecx_configdc c) (\<lambda>(r, d). ctx_ok d \<and> (latched (slavelist d) 1 t \<longrightarrow>
    (\<forall>k < devs t. pdelay (slavelist d ! (k + 1)) = of_nat (arrivals 0 t ! k))))"
proof -
  let ?n = "devs t"
  have n: "?n < 200" using assms(1,2) by (simp add: ctx_ok_def)
  have e: "evolves c c" using assms(1) by (rule evolves_refl)
  have run: "ret (for_each (dc_step m) [1..<Suc ?n] (0, 0, 0, 0, c1)) (\<lambda>(h, prev, ht, hrt, d). evolves c d \<and>
      (latched (slavelist d) 1 t \<longrightarrow> delays (slavelist d) 1 ?n = map of_nat (arrivals 0 t)))"
    if c1: "evolves c c1" "\<And>k. 0 < k \<Longrightarrow> slavelist c1 ! k = slavelist c ! k" for c1 m
  proof -
    have len: "length (slavelist c1) = 200" using c1(1) by (rule evolves_sizes)
    have w: "wired (slavelist c1) 0 1 t"
      using wired_cong(1) [of 1 t "slavelist c1" "slavelist c" 0] assms(3) c1(2) by simp
    have bus: "dc_bus (slavelist c) ?n"
      using wired_bus(1) [OF assms(3)] assms(5) n by (auto simp: dc_bus_def)
    have "ret (for_each (dc_step m) [1..<Suc ?n] (0, 0, 0, 0, c1)) (\<lambda>(h, prev, ht, hrt, d). dc_inv c ?n prev d)"
    proof (rule for_each_ret [where I = "\<lambda>(h, prev, ht, hrt, d). dc_inv c ?n prev d"], goal_cases)
      case (1 i s)
      then have "1 \<le> i" "i \<le> ?n" by auto
      then show ?case using 1(2) dc_step_wp [OF _ bus] by (cases s) simp
    next
      case 2
      show ?case using c1 by (simp add: dc_inv_def)
    qed
    moreover have "par (for_each (dc_step m) [1..<Suc ?n] (0, 0, 0, 0, c1))
        (\<lambda>(h, prev, ht, hrt, d). slavecount d = slavecount c1 \<and> (\<forall>a. run_tree 1 0 (slavelist c1) (slavelist d) t a))"
      using run_lists(1) [OF w] n len by simp
    ultimately show ?thesis
    proof (rule ret_par [THEN ret_conseq], clarify, goal_cases)
      case (1 h prev ht hrt d)
      have "placed (slavelist c1) 0 1 t 0" using assms(4) c1(2) by (simp add: placed_def)
      then show ?case using 1 by (auto simp: dc_inv_def run_tree_def)
    qed
  qed
  have fin: "\<forall>k < ?n. pdelay (slavelist d ! (k + 1)) = of_nat (arrivals 0 t ! k)"
    if "evolves c d" "delays (slavelist d) 1 ?n = map of_nat (arrivals 0 t)" for d
  proof (intro allI impI)
    fix k
    assume k: "k < ?n"
    have "length (slavelist d) = 200" using that(1) by (rule evolves_sizes)
    then have "delays (slavelist d) 1 ?n ! k = pdelay (slavelist d ! (k + 1))"
      using k n by (simp add: delays_def add.commute)
    then show "pdelay (slavelist d ! (k + 1)) = of_nat (arrivals 0 t ! k)"
      using that(2) k by (simp add: length_arrivals)
  qed
  show ?thesis
    unfolding ecx_configdc_def ret_step
    apply (rule upd_slave_wp [OF e], simp, simp)
    apply (rule upd_group_wp, assumption, simp, simp add: group_ok_def)
    apply (rule write_wps(1), assumption, simp, simp)
    apply (simp only: ret_step)
    subgoal premises p for d w q
    proof (rule error_time_wp [OF p(5)])
      fix m q'
      let ?d = "(d\<lparr>port := q\<rparr>)\<lparr>port := q'\<rparr>"
      assume e1: "evolves c ?d"
      have sl: "slaves_of ?d = [1..<Suc ?n]"
        using e1 assms(2) unfolding slaves_of_def evolves_def by (simp only:) simp
      have "slavelist ?d ! k = slavelist c ! k" if "0 < k" for k using p(3) that by simp
      from run [OF e1 this, of "dc_mastertime m"]
      show "ret (for_each (dc_step (dc_mastertime m)) (slaves_of ?d) (0, 0, 0, 0, ?d))
          (\<lambda>(_, _, _, _, c). ret (slave_at 0 c) (\<lambda>x. ctx_ok c \<and> (latched (slavelist c) 1 t \<longrightarrow>
             (\<forall>k < ?n. pdelay (slavelist c ! (k + 1)) = of_nat (arrivals 0 t ! k)))))"
        unfolding sl
      proof (rule ret_conseq)
        fix x
        assume h: "case x of (h, prev, ht, hrt, b) \<Rightarrow> evolves c b \<and>
          (latched (slavelist b) 1 t \<longrightarrow> delays (slavelist b) 1 ?n = map of_nat (arrivals 0 t))"
        obtain h prev ht hrt b where x: "x = (h, prev, ht, hrt, b)" by (cases x)
        have e2: "evolves c b" and l: "latched (slavelist b) 1 t \<longrightarrow> delays (slavelist b) 1 ?n = map of_nat (arrivals 0 t)"
          using h by (simp_all add: x)
        have ok: "ctx_ok b" using e2 by (rule evolves_ok)
        show "case x of (_, _, _, _, c) \<Rightarrow> ret (slave_at 0 c) (\<lambda>x. ctx_ok c \<and> (latched (slavelist c) 1 t \<longrightarrow>
             (\<forall>k < ?n. pdelay (slavelist c ! (k + 1)) = of_nat (arrivals 0 t ! k))))"
          unfolding x prod.case
          by (rule slave_at_wp [OF e2], simp) (use fin [OF e2] l ok in blast)
      qed
    qed
    done
qed

text \<open>A coupler with two branches, of 100 and 50 nanoseconds of cable, and stamps it could answer.\<close>

definition demo_cable :: cable where
  "demo_cable = Dev [(3, 100, Dev []), (1, 50, Dev [])]"

definition demo_clocks :: ecx_contextt where
  "demo_clocks = demo_master\<lparr>slavelist := (slavelist demo_master)[
      1 := zero_slave\<lparr>hasdc := True, topology := 3, activeports := 0x0B\<rparr>,
      2 := zero_slave\<lparr>hasdc := True, topology := 1, activeports := 1, parent := 1\<rparr>,
      3 := zero_slave\<lparr>hasdc := True, topology := 1, activeports := 1, parent := 1\<rparr>]\<rparr>"

lemma demo_clocks_ok: "ctx_ok demo_clocks" "slavecount demo_clocks = 3"
proof -
  have ok: "slave_ok (s\<lparr>activeports := b\<rparr>) = slave_ok s" "slave_ok (s\<lparr>parent := w\<rparr>) = slave_ok s"
    "slave_ok (s\<lparr>topology := b\<rparr>) = slave_ok s" for s :: ec_slavet and b w
    by (simp_all add: slave_ok_def)
  have z: "slave_ok zero_slave" by (simp add: zero_slave_def slave_ok_def)
  have e: "evolves demo_master demo_master" by (rule evolves_refl [OF demo_master_ok])
  from evolves_slave [OF evolves_slave [OF evolves_slave [OF e]]]
  have "evolves demo_master demo_clocks" unfolding demo_clocks_def by (simp add: ok z)
  then show "ctx_ok demo_clocks" by (rule evolves_ok)
  show "slavecount demo_clocks = 3" by (simp add: demo_clocks_def demo_master_clock)
qed

theorem delays_measured_witness:
  "ret (ecx_configdc demo_clocks) (\<lambda>(r, d). ctx_ok d \<and> (latched (slavelist d) 1 demo_cable \<longrightarrow>
     (\<forall>k < 3. pdelay (slavelist d ! (k + 1)) = of_nat ([0, 100, 250] ! k)))) \<and>
   (\<exists>L. latched L 1 demo_cable)"
proof -
  have n: "devs demo_cable = 3" "arrivals 0 demo_cable = [0, 100, 250]" by (simp_all add: demo_cable_def)
  have L: "length (slavelist demo_clocks) = 200" using demo_clocks_ok(1) by (simp add: ctx_ok_def)
  have sl: "slavelist demo_clocks = (replicate 200 zero_slave)[
      1 := zero_slave\<lparr>hasdc := True, topology := 3, activeports := 0x0B\<rparr>,
      2 := zero_slave\<lparr>hasdc := True, topology := 1, activeports := 1, parent := 1\<rparr>,
      3 := zero_slave\<lparr>hasdc := True, topology := 1, activeports := 1, parent := 1\<rparr>]"
    by (simp add: demo_clocks_def demo_master_clock)
  have s: "slavelist demo_clocks ! 1 = zero_slave\<lparr>hasdc := True, topology := 3, activeports := 0x0B\<rparr>"
    "slavelist demo_clocks ! Suc 1 = zero_slave\<lparr>hasdc := True, topology := 1, activeports := 1, parent := 1\<rparr>"
    "slavelist demo_clocks ! Suc (Suc 1) = zero_slave\<lparr>hasdc := True, topology := 1, activeports := 1, parent := 1\<rparr>"
    by (simp_all add: sl nth_list_update)
  have z: "hasdc (zero_slave\<lparr>hasdc := h, topology := b, activeports := a, parent := p\<rparr>) = h" "parent zero_slave = 0" for h b a p
    by (simp_all add: zero_slave_def)
  have "wired (slavelist demo_clocks) 0 1 demo_cable"
    using s [simplified] z by (simp add: demo_cable_def port_order_def Let_def)
  moreover have "\<forall>k. 1 \<le> k \<and> k \<le> devs demo_cable \<longrightarrow> unat (group (slavelist demo_clocks ! k)) < EC_MAXGROUP"
    by (auto simp: n sl zero_slave_def nth_list_update)
  moreover have "pdelay (slavelist demo_clocks ! 1) = 0" by (simp add: sl zero_slave_def)
  moreover have "latched [zero_slave, zero_slave\<lparr>DCrtA := 5, DCrtD := 205, DCrtB := 305\<rparr>, zero_slave, zero_slave] 1 demo_cable"
    by (simp add: demo_cable_def zero_slave_def steady_clock_def ecx_porttime_def)
  ultimately show ?thesis
    using delays_measured [of demo_clocks demo_cable] demo_clocks_ok by (auto simp: n)
qed

text \<open>What the hypothesis on the clocks excludes: a frame that passes while the counter changes its sign
  makes the wrong port the entry port.\<close>

lemma entry_port_at_sign_change:
  "entry_port (zero_slave\<lparr>activeports := 3, DCrtA := 0x7FFFFFFF, DCrtB := 0x7FFFFFFF + 200\<rparr>) = Some 1"
  by (simp add: entry_port_def port_stamps_def earlier_def aget_def zero_slave_def)

section \<open>The first sync pulse\<close>

text \<open>
  C35: The first sync pulse of a slave comes, but for the shift, more than the delay of 100 ms after
  the slave's time and at most one cycle later, and two slaves with the same cycle and shift fire
  at the same moments: their first pulses differ by a multiple of the cycle.
\<close>

theorem sync_start_aligned:
  assumes "0 < CyclTime" "0 \<le> sint t + SyncDelay" "0 \<le> sint t' + SyncDelay"
  shows "sint t + SyncDelay < dc_start t CyclTime shift - sint shift \<and>
    dc_start t CyclTime shift - sint shift \<le> sint t + SyncDelay + uint CyclTime \<and>
    (dc_start t CyclTime shift - dc_start t' CyclTime shift) mod uint CyclTime = 0"
proof -
  let ?c = "uint CyclTime"
  have c: "0 < ?c" using assms(1) by (simp add: word_less_def)
  have d: "a sdiv ?c = a div ?c" if "0 \<le> a" for a using that c by (simp add: signed_divide_int_def sgn_if)
  have e: "dc_start x CyclTime shift = (sint x + SyncDelay) div ?c * ?c + ?c + sint shift" if "0 \<le> sint x + SyncDelay" for x
    by (simp only: dc_start_def d [OF that])
  have m: "(sint t + SyncDelay) div ?c * ?c = sint t + SyncDelay - (sint t + SyncDelay) mod ?c"
    by (simp add: minus_mod_eq_div_mult)
  have r: "0 \<le> (sint t + SyncDelay) mod ?c" "(sint t + SyncDelay) mod ?c < ?c" using c by simp_all
  have "dc_start t CyclTime shift - dc_start t' CyclTime shift
      = ((sint t + SyncDelay) div ?c - (sint t' + SyncDelay) div ?c) * ?c"
    by (simp add: e [OF assms(2)] e [OF assms(3)] algebra_simps)
  then have "(dc_start t CyclTime shift - dc_start t' CyclTime shift) mod ?c = 0" by simp
  then show ?thesis using m r e [OF assms(2)] by linarith
qed

theorem sync_start_aligned_witness:
  "dc_start 250000000 1000000 0 = 351000000 \<and>
   (dc_start 250000000 1000000 0 - dc_start 777 1000000 0) mod 1000000 = 0"
  using sync_start_aligned [of 1000000 250000000 777 0] by (simp add: dc_start_def signed_divide_int_def)

end
