(* ===== verification/Group_Props.thy ===== *)
theory Group_Props
  imports Config_Group
begin

text \<open>
  The segments of the process image: the sizes recorded for a group add up to its mapped bytes, which is
  what the cyclic exchange (\<open>Process_Props\<close>) relies on.
\<close>

section \<open>What the mapping of a slave leaves alone\<close>

lemma while_do_par:
  assumes step: "\<And>s. I s \<Longrightarrow> cond s \<Longrightarrow> par (body s) I" and start: "I s"
  shows "par (while_do cond body s) (\<lambda>t. I t \<and> \<not> cond t)"
proof (rule parI)
  fix t
  assume r: "while_do cond body s = Some t"
  have "c = cond \<longrightarrow> b = body \<longrightarrow> I s \<longrightarrow> I t \<and> \<not> cond t" if "while_do c b s = Some t" for c b s t
  proof (rule while_do.raw_induct [where P = "\<lambda>c b s t. c = cond \<longrightarrow> b = body \<longrightarrow> I s \<longrightarrow> I t \<and> \<not> cond t", OF _ that])
    fix f c b s t
    assume IH: "\<And>c b s t. f c b s = Some t \<Longrightarrow> c = cond \<longrightarrow> b = body \<longrightarrow> I s \<longrightarrow> I t \<and> \<not> cond t"
      and run: "(if c s then b s \<bind> (\<lambda>t. f c b t) else Some s) = Some t"
    show "c = cond \<longrightarrow> b = body \<longrightarrow> I s \<longrightarrow> I t \<and> \<not> cond t"
    proof (intro impI)
      assume eqs: "c = cond" "b = body" and I: "I s"
      show "I t \<and> \<not> cond t"
      proof (cases "cond s")
        case True
        with run eqs obtain u where "body s = Some u" "f cond body u = Some t"
          by (auto simp: bind_eq_Some_conv)
        with IH step [OF I True] show ?thesis by (auto dest: parD)
      next
        case False
        with run eqs I show ?thesis by simp
      qed
    qed
  qed
  with r start show "I t \<and> \<not> cond t" by blast
qed

lemma retry_par:
  assumes "\<And>s. P s \<Longrightarrow> par (body s) (\<lambda>(w, t). P t)" and "P s"
  shows "par (retry k body s) (\<lambda>(w, t). P t)"
  using assms(2)
proof (induction k arbitrary: s)
  case (Suc k)
  show ?case
    unfolding retry.simps par_simps
    by (rule assms(1) [OF Suc.prems, THEN par_conseq]) (auto intro: Suc.IH)
qed (simp add: assms(1))

text \<open>The part of a group's record that describes its layout.\<close>

definition lay :: "byte \<Rightarrow> ecx_contextt \<Rightarrow> (u32 list \<times> u32 \<times> u32 \<times> u16 \<times> u16) option" where
  "lay g c = map_option (\<lambda>gr. (IOsegment gr, logstartaddr gr, g_Obytes gr, Isegment gr, Ioffset gr)) (group_at g c)"

lemma lay_simps [simp]:
  "lay g (c\<lparr>port := p\<rparr>) = lay g c" "lay g (c\<lparr>slavelist := l\<rparr>) = lay g c"
  by (simp_all add: lay_def group_at_def)

lemma upd_group_lay:
  assumes "\<And>gr. IOsegment (f gr) = IOsegment gr \<and> logstartaddr (f gr) = logstartaddr gr
      \<and> g_Obytes (f gr) = g_Obytes gr \<and> Isegment (f gr) = Isegment gr \<and> Ioffset (f gr) = Ioffset gr"
  shows "par (upd_group i f c) (\<lambda>d. lay g d = lay g c)"
  by (rule parI) (auto simp: upd_group_def bind_eq_Some_conv lay_def group_at_def aget_def nth_list_update assms)

lemma keep_lay:
  "par (upd_slave i h c) (\<lambda>d. lay g d = lay g c)" "par (set_slave i s c) (\<lambda>d. lay g d = lay g c)"
  "par (write_FPWR adp ado n data timeout c) (\<lambda>(w, d). lay g d = lay g c)"
  "par (on_port pf c) (\<lambda>(w, d). lay g d = lay g c)"
  by (rule parI, auto simp: upd_slave_def set_slave_def write_FPWR_def on_port_def bind_eq_Some_conv)+

lemma eeprom2pdi_lay: "par (ecx_eeprom2pdi slave c) (\<lambda>(w, d). lay g d = lay g c)"
  unfolding ecx_eeprom2pdi_def write_retry_def par_simps
  apply (rule parI)
  apply (auto simp: ret_if case_prod_unfold)
  apply (rule retry_par [where P = "\<lambda>(u, d). lay g d = lay g c", THEN par_conseq])
    apply (auto simp: case_prod_unfold intro!: keep_lay(3) [where g = g, THEN par_conseq] keep_lay(1) [where g = g, THEN par_conseq])
  done

lemma program_FMMU_lay: "par (program_FMMU out k s c) (\<lambda>(s, d). lay g d = lay g c)"
  unfolding program_FMMU_def par_simps
  by (rule parI, rule parI, rule keep_lay(3) [where g = g, THEN par_conseq]) auto

lemma map_fmmu_round_lay:
  "par (map_fmmu_round out pIOmap gi (L, s, c)) (\<lambda>(L, s, d). lay g d = lay g c)"
  unfolding map_fmmu_round_def prod.case Let_def par_simps case_prod_unfold
  apply (rule parI, rule parI, rule parI)
  apply (rule par_conseq [where P = "\<lambda>(s, d). lay g d = lay g c"])
   apply (simp add: program_FMMU_lay)
  apply (auto intro!: parI)
  done

lemma create_mappings_lay:
  "par (create_mappings out pIOmap gi slave k (la, bp, c)) (\<lambda>(la, bp, d). lay g d = lay g c)"
  unfolding create_mappings_def prod.case par_simps
  apply (rule parI)
  apply (rule while_do_par [where I = "\<lambda>(L, s, d). lay g d = lay g c", THEN par_conseq])
  subgoal for s x
    by (cases x, clarsimp, rule map_fmmu_round_lay [where g = g, THEN par_conseq]) auto
   apply simp
  apply (clarsimp, rule keep_lay(2) [where g = g, THEN par_conseq])
  apply (auto intro!: upd_group_lay [where g = g, THEN par_conseq])
  done

lemma config_mappings_lay:
  "par (ecx_config_create_output_mappings pIOmap gi slave (la, bp, c)) (\<lambda>(la, bp, d). lay g d = lay g c)"
  "par (ecx_config_create_input_mappings pIOmap gi slave (la, bp, c)) (\<lambda>(la, bp, d). lay g d = lay g c)"
  unfolding ecx_config_create_output_mappings_def ecx_config_create_input_mappings_def prod.case par_simps
  by (rule parI, rule create_mappings_lay, rule parI, rule parI, rule create_mappings_lay)

lemma slave_mapped_lay: "par (slave_mapped gi slave cadr c) (\<lambda>d. lay g d = lay g c)"
  unfolding slave_mapped_def par_simps
  apply (rule eeprom2pdi_lay [where g = g, THEN par_conseq])
  subgoal for x
    apply (cases x, simp only: prod.case par_simps)
    apply (rule par_conseq [where P = "\<lambda>d. lay g d = lay g c"])
     apply (auto simp: ret_if intro!: keep_lay(4) [where g = g, THEN par_conseq])[1]
    apply (rule parI [where m = "slave_at _ _"])
    apply (rule par_conseq [where P = "\<lambda>d. lay g d = lay g c"])
     apply (auto intro!: upd_group_lay [where g = g, THEN par_conseq])[1]
    apply (rule upd_group_lay [where g = g, THEN par_conseq]; simp)
    done
  done


section \<open>Segments add up\<close>

text \<open>\<open>T\<close> bytes are laid out: those of the closed segments, of which the first are \<open>P\<close>, and \<open>sz\<close> in the
  current one. Once the last of the 64 segments is current, bytes may be dropped.\<close>

definition seg_inv ::
  "byte \<Rightarrow> u32 \<times> u32 \<times> u16 \<times> u16 \<Rightarrow> u32 list \<Rightarrow> u32 \<Rightarrow> nat \<Rightarrow> u32 \<Rightarrow> ecx_contextt \<Rightarrow> bool" where
  "seg_inv g rest P T cur sz c \<longleftrightarrow> (\<exists>segs. lay g c = Some (segs, rest) \<and> length segs = EC_MAXIOSEGMENTS \<and> cur < EC_MAXIOSEGMENTS
     \<and> length P \<le> cur \<and> take (length P) segs = P
     \<and> (cur < EC_MAXIOSEGMENTS - 1 \<longrightarrow> sum_list (take cur segs) + sz = T))"

lemma seg_inv_lay: "lay g d = lay g c \<Longrightarrow> seg_inv g rest P T cur sz d = seg_inv g rest P T cur sz c"
  by (simp add: seg_inv_def)

lemma upd_segments_lay:
  assumes "lay g c = Some (segs, rest)" and "\<And>gr. f gr = h (gr\<lparr>IOsegment := segs2\<rparr>)"
    and "\<And>gr. IOsegment (h gr) = IOsegment gr \<and> logstartaddr (h gr) = logstartaddr gr
      \<and> g_Obytes (h gr) = g_Obytes gr \<and> Isegment (h gr) = Isegment gr \<and> Ioffset (h gr) = Ioffset gr"
  shows "par (upd_group g f c) (\<lambda>d. lay g d = Some (segs2, rest))"
  using assms by (intro parI) (auto simp: upd_group_def bind_eq_Some_conv lay_def group_at_def aget_def split: if_splits)

lemma take_update_prefix: "n \<le> k \<Longrightarrow> take n (xs[k := x]) = take n xs"
  by simp

lemma sum_closed: "cur < length segs \<Longrightarrow> sum_list (take (cur + 1) (segs[cur := sz])) = sum_list (take cur segs) + (sz :: u32)"
  by (simp add: take_Suc_conv_app_nth flip: Suc_eq_plus1)

lemma add_segment_inv:
  assumes I: "seg_inv g rest P T cur sz c"
  shows "par (add_segment g diff (cur, sz, c)) (\<lambda>(cur, sz, d). seg_inv g rest P (T + diff) cur sz d)"
proof -
  obtain segs where L: "lay g c = Some (segs, rest)" and s: "length segs = EC_MAXIOSEGMENTS" "cur < EC_MAXIOSEGMENTS"
      "length P \<le> cur" "take (length P) segs = P" "cur < EC_MAXIOSEGMENTS - 1 \<longrightarrow> sum_list (take cur segs) + sz = T"
    using I by (auto simp: seg_inv_def)
  have gr: "IOsegment gr = segs" if "group_at g c = Some gr" for gr using L that by (simp add: lay_def)
  show ?thesis
  proof (cases "SEGMENT_MAX < sz + diff")
    case True
    have "par (upd_group g (\<lambda>gr. gr\<lparr>IOsegment := segs[cur := sz]\<rparr>) c) (\<lambda>d. lay g d = Some (segs[cur := sz], rest))"
      by (rule upd_segments_lay [OF L, where h = id]) simp_all
    moreover have "seg_inv g rest P (T + diff) (cur + 1) diff d" if "lay g d = Some (segs[cur := sz], rest)" "cur < EC_MAXIOSEGMENTS - 1" for d
      unfolding seg_inv_def using that s sum_closed [of cur segs sz]
      by (intro exI [of _ "segs[cur := sz]"]) (auto simp: take_update_prefix)
    moreover have "seg_inv g rest P (T + diff) cur sz d" if "lay g d = Some (segs[cur := sz], rest)" "\<not> cur < EC_MAXIOSEGMENTS - 1" for d
      unfolding seg_inv_def using that s
      by (intro exI [of _ "segs[cur := sz]"]) (auto simp: take_update_prefix)
    ultimately show ?thesis
      unfolding add_segment_def prod.case if_P [OF True] par_simps
      by (intro parI) (auto simp: gr dest!: parD split: if_splits)
  next
    case False
    have "seg_inv g rest P (T + diff) cur (sz + diff) c"
      unfolding seg_inv_def using L s by (intro exI [of _ segs]) (auto simp: add.assoc)
    then show ?thesis unfolding add_segment_def prod.case if_not_P [OF False] par_simps .
  qed
qed


text \<open>The state between two slaves: all bytes from the start of the group on are laid out.\<close>

definition image_inv :: "byte \<Rightarrow> u32 \<times> u32 \<times> u16 \<times> u16 \<Rightarrow> u32 list \<Rightarrow> map_state \<Rightarrow> bool" where
  "image_inv g rest P = (\<lambda>(la, ola, bp, cur, sz, c). ola = la \<and> seg_inv g rest P (la - fst rest) cur sz c)"

lemma map_slave_inv:
  assumes create: "\<And>la bp c. par (create slave (la, bp, c)) (\<lambda>(la, bp, d). lay g d = lay g c)"
    and I: "image_inv g rest P st"
  shows "par (map_slave create g force slave st) (image_inv g rest P)"
proof -
  obtain la bp cur sz c where st: "st = (la, la, bp, cur, sz, c)" and S: "seg_inv g rest P (la - fst rest) cur sz c"
    using I by (cases st) (auto simp: image_inv_def)
  show ?thesis
    unfolding st map_slave_def prod.case par_simps
    apply (rule create [THEN par_conseq])
    subgoal for x
      apply (cases x, simp only: prod.case Let_def ret_case_prod)
      apply (rule case_prodI2)
      subgoal premises h for la2 bp2 d la3 bp3
        unfolding par_simps
        apply (rule par_conseq [OF add_segment_inv [of g rest P "la - fst rest" cur sz d "la3 - la"]])
         apply (simp add: seg_inv_lay [OF h(1)] S)
        apply (auto simp: image_inv_def)
        done
      done
    done
qed

lemma map_outputs_inv: "image_inv g rest P st \<Longrightarrow> par (map_outputs pIOmap g force i st) (image_inv g rest P)"
  unfolding map_outputs_def
  by (cases st) (auto intro!: parI [where m = "slave_at _ _"] map_slave_inv config_mappings_lay simp: ret_if)

lemma map_inputs_inv:
  assumes "image_inv g rest P st"
  shows "par (map_inputs pIOmap g force i st) (image_inv g rest P)"
proof -
  have mapped: "par (slave_mapped g sl cadr c) (\<lambda>d. image_inv g rest P (la, ola, bp, cur, sz, d))"
    if "image_inv g rest P (la, ola, bp, cur, sz, c)" for sl cadr la ola bp cur sz c
    by (rule slave_mapped_lay [where g = g, THEN par_conseq]) (use that in \<open>auto simp: image_inv_def seg_inv_def\<close>)
  have step: "par (if b then map_slave (ecx_config_create_input_mappings pIOmap g) g force sl st else Some st) (image_inv g rest P)" for b sl
    using assms by (auto intro!: map_slave_inv config_mappings_lay)
  show ?thesis
    unfolding map_inputs_def
    apply (cases st, simp only: prod.case par_simps)
    apply (rule parI [where m = "slave_at _ _"], simp only: ret_if)
    apply (rule if_split [THEN iffD2], rule conjI; rule impI)
    subgoal for la ola bp cur sz c s
      using step [of "Ibits s \<noteq> 0" "of_nat i"] unfolding par_simps
      by (auto elim!: par_conseq intro!: mapped split: prod.splits)
    using assms by simp
qed

lemma map_finish_inv:
  assumes "image_inv g rest P st"
  shows "par (map_finish g st) (image_inv g rest P)"
proof -
  obtain la bp cur sz c where st: "st = (la, la, bp, cur, sz, c)" and S: "seg_inv g rest P (la - fst rest) cur sz c"
    using assms by (cases st) (auto simp: image_inv_def)
  have "la - fst rest + 1 = la + 1 - fst rest" by simp
  with add_segment_inv [OF S, of 1] show ?thesis
    unfolding st map_finish_def
    by (auto simp: image_inv_def S elim!: par_conseq)
qed


section \<open>The finished layout\<close>

text \<open>After the outputs the place where the inputs begin is recorded; it stays a prefix of the segments.\<close>

lemma map_outputs_done_inv:
  assumes "image_inv g rest [] (la, ola, bp, cur, sz, c)"
  shows "par (map_outputs_done pIOmap g la cur sz c)
     (\<lambda>d. \<exists>segs. lay g d = Some (segs, fst rest, la - fst rest, of_nat cur, ucast sz)
        \<and> image_inv g (fst rest, la - fst rest, of_nat cur, ucast sz) (take cur segs) (la, ola, bp, cur, sz, d)
        \<and> cur < EC_MAXIOSEGMENTS \<and> length (take cur segs) = cur
        \<and> (cur < EC_MAXIOSEGMENTS - 1 \<longrightarrow> sum_list (take cur segs) + sz = la - fst rest))"
proof -
  obtain segs where L: "lay g c = Some (segs, rest)" and s: "length segs = EC_MAXIOSEGMENTS" "cur < EC_MAXIOSEGMENTS"
      "cur < EC_MAXIOSEGMENTS - 1 \<longrightarrow> sum_list (take cur segs) + sz = la - fst rest" and ola: "ola = la"
    using assms by (auto simp: image_inv_def seg_inv_def)
  let ?rest = "(fst rest, la - fst rest, of_nat cur :: u16, ucast sz :: u16)"
  have gr: "IOsegment gr = segs" "logstartaddr gr = fst rest" if "group_at g c = Some gr" for gr
    using L that by (auto simp: lay_def)
  have up: "lay g d = Some (segs, ?rest)"
    if "group_at g c = Some gr" "upd_group g (\<lambda>gr. gr\<lparr>g_outputs := Some pIOmap, g_Obytes := la - logstartaddr gr,
            nsegments := of_nat (cur + 1), Isegment := of_nat cur, Ioffset := ucast sz\<rparr>) c = Some d" for gr d
    using that gr by (auto simp: upd_group_def bind_eq_Some_conv lay_def group_at_def aget_def split: if_splits)
  have fin: "\<exists>segs. lay g d = Some (segs, ?rest) \<and> image_inv g ?rest (take cur segs) (la, ola, bp, cur, sz, d)
      \<and> cur < EC_MAXIOSEGMENTS \<and> length (take cur segs) = cur
        \<and> (cur < EC_MAXIOSEGMENTS - 1 \<longrightarrow> sum_list (take cur segs) + sz = la - fst rest)"
    if "lay g d = Some (segs, ?rest)" for d
    using that s ola by (intro exI [of _ segs]) (auto simp: image_inv_def seg_inv_def)
  show ?thesis
    unfolding map_outputs_done_def par_simps
    apply (rule parI, rule parI)
    apply (simp only: gr)
    apply (frule (1) up)
    apply (simp only: ret_if)
    apply (rule if_split [THEN iffD2], rule conjI; rule impI)
     apply (rule keep_lay(1) [where g = g, THEN par_conseq])
     apply (rule fin, simp)
    apply (rule par_simps(1) [THEN iffD2], rule fin, assumption)
    done
qed

lemma map_inputs_done_layout:
  assumes "image_inv g (start, ob, is, io) P (la, ola, bp, cur, sz, c)"
  shows "par (map_inputs_done pIOmap g la cur sz c) (\<lambda>(total, d). \<exists>gr. group_at g d = Some gr
     \<and> total = g_Obytes gr + g_Ibytes gr \<and> g_Obytes gr = ob \<and> Isegment gr = is \<and> Ioffset gr = io
     \<and> unat (nsegments gr) = cur + 1 \<and> cur < EC_MAXIOSEGMENTS \<and> length P \<le> cur \<and> take (length P) (IOsegment gr) = P
     \<and> (cur < EC_MAXIOSEGMENTS - 1 \<longrightarrow> sum_list (take (cur + 1) (IOsegment gr)) = total))"
proof -
  obtain segs where L: "lay g c = Some (segs, start, ob, is, io)" and s: "length segs = EC_MAXIOSEGMENTS" "cur < EC_MAXIOSEGMENTS"
      "length P \<le> cur" "take (length P) segs = P"
      "cur < EC_MAXIOSEGMENTS - 1 \<longrightarrow> sum_list (take cur segs) + sz = la - start"
    using assms by (auto simp: image_inv_def seg_inv_def)
  have n: "unat (of_nat (cur + 1) :: u16) = cur + 1" using s(2)
    by (simp add: unsigned_of_nat take_bit_nat_eq_self del: of_nat_Suc of_nat_add)
  have close: "par (close_segments g cur sz c) (\<lambda>d. \<exists>gr. group_at g d = Some gr \<and> IOsegment gr = segs[cur := sz]
      \<and> nsegments gr = of_nat (cur + 1) \<and> logstartaddr gr = start \<and> g_Obytes gr = ob \<and> Isegment gr = is \<and> Ioffset gr = io)"
    using L by (intro parI) (auto simp: close_segments_def upd_group_def bind_eq_Some_conv lay_def group_at_def aget_def split: if_splits)
  show ?thesis
    unfolding map_inputs_done_def par_simps Let_def
    apply (rule close [THEN par_conseq])
    apply (rule parI, rule parI)
    subgoal premises h for d gr d2
    proof -
      obtain gr2 where g2: "group_at g d2 = Some gr2" "IOsegment gr2 = segs[cur := sz]" "nsegments gr2 = of_nat (cur + 1)"
          "g_Obytes gr2 = ob" "Isegment gr2 = is" "Ioffset gr2 = io" "g_Ibytes gr2 = la - start - ob" "logstartaddr gr = start"
        using h by (auto simp: upd_group_def bind_eq_Some_conv group_at_def aget_def split: if_splits)
      have fin: "group_at g d3 = Some gr2 \<Longrightarrow> case (la - logstartaddr gr, d3) of (tot, d) \<Rightarrow> \<exists>gr. group_at g d = Some gr
         \<and> tot = g_Obytes gr + g_Ibytes gr \<and> g_Obytes gr = ob \<and> Isegment gr = is \<and> Ioffset gr = io
         \<and> unat (nsegments gr) = cur + 1 \<and> cur < EC_MAXIOSEGMENTS \<and> length P \<le> cur \<and> take (length P) (IOsegment gr) = P
         \<and> (cur < EC_MAXIOSEGMENTS - 1 \<longrightarrow> sum_list (take (cur + 1) (IOsegment gr)) = tot)" for d3
        using g2 s n sum_closed [of cur segs sz] by (auto simp: take_update_prefix)
      have keep: "par (upd_slave 0 u d2) (\<lambda>d3. group_at g d3 = Some gr2)" for u
        using g2(1) by (intro parI) (auto simp: upd_slave_def set_slave_def bind_eq_Some_conv group_at_def)
      show ?thesis
        apply (simp only: ret_if)
        apply (rule if_split [THEN iffD2], rule conjI; rule impI)
         apply (rule keep [THEN par_conseq])
         apply (rule fin, assumption)
        apply (rule par_simps(1) [THEN iffD2], rule fin, rule g2(1))
        done
    qed
    done
qed


text \<open> C10: The segments of the process image cover it. Whatever the slaves answer while a group is mapped,
  the mapped bytes are its output bytes and its input bytes, the number of segments is between 1 and 64
  and the inputs begin inside one of them; and as long as not all 64 are used, the recorded segment sizes
  add up to exactly the mapped bytes, and the offset of the inputs in their segment is what is missing
  from the segments before it to the output bytes. These are the sizes the cyclic exchange cuts the image
  into. \<close>

theorem layout_segments:
  assumes "group_at g c = Some gr0" "length (IOsegment gr0) = EC_MAXIOSEGMENTS"
  shows "par (map_layout pIOmap g force (logstartaddr gr0) c) (\<lambda>(total, d). \<exists>gr. group_at g d = Some gr
     \<and> total = g_Obytes gr + g_Ibytes gr
     \<and> 1 \<le> unat (nsegments gr) \<and> unat (nsegments gr) \<le> EC_MAXIOSEGMENTS \<and> unat (Isegment gr) < unat (nsegments gr)
     \<and> (unat (nsegments gr) < EC_MAXIOSEGMENTS \<longrightarrow>
          sum_list (take (unat (nsegments gr)) (IOsegment gr)) = total
        \<and> Ioffset gr = ucast (g_Obytes gr - sum_list (take (unat (Isegment gr)) (IOsegment gr)))))"
proof -
  let ?rest = "(logstartaddr gr0, g_Obytes gr0, Isegment gr0, Ioffset gr0)"
  have I0: "image_inv g ?rest [] (logstartaddr gr0, logstartaddr gr0, 0, 0, 0, c)"
    using assms by (simp add: image_inv_def seg_inv_def lay_def)
  have cur16: "unat (of_nat k :: u16) = k" if "k < EC_MAXIOSEGMENTS" for k
    using that by (simp add: unsigned_of_nat take_bit_nat_eq_self)
  have eqd: "z = y - x" if "x + z = y" for x y z :: u32 using that by auto
  show ?thesis
    unfolding map_layout_def par_simps
    apply (rule for_each_par [where I = "image_inv g ?rest []", THEN par_conseq, OF map_outputs_inv I0], assumption)
    apply (rule map_finish_inv [where g = g and P = "[]" and rest = ?rest, THEN par_conseq], assumption)
    subgoal for st st2
      apply (cases st2, simp only: prod.case par_simps)
      subgoal for la ola bp cur sz c2
        apply (rule map_outputs_done_inv [THEN par_conseq], assumption)
        apply (elim exE conjE)
        subgoal for c3 segs
          apply (rule for_each_par [where I = "image_inv g (logstartaddr gr0, la - logstartaddr gr0, of_nat cur, ucast sz) (take cur segs)",
                THEN par_conseq, OF map_inputs_inv], assumption, simp)
          apply (rule map_finish_inv [where g = g and P = "take cur segs"
                and rest = "(logstartaddr gr0, la - logstartaddr gr0, of_nat cur, ucast sz)", THEN par_conseq], assumption)
          subgoal for st3 st4
            apply (cases st4, simp only: prod.case par_simps)
            apply (rule map_inputs_done_layout [THEN par_conseq], assumption)
            subgoal for la4 ola4 bp4 cur4 sz4 c4 r
              apply (cases r, simp only: prod.case, elim exE conjE)
              subgoal for tot d gr
                using cur16 [of cur] by (intro exI [of _ gr]) (auto dest: eqd)
              done
            done
          done
        done
      done
    done
qed

theorem layout_segments_witness:
  "par (map_layout 0 0 True (logstartaddr zero_group) demo_master) (\<lambda>(total, d). \<exists>gr. group_at 0 d = Some gr
     \<and> total = g_Obytes gr + g_Ibytes gr
     \<and> 1 \<le> unat (nsegments gr) \<and> unat (nsegments gr) \<le> EC_MAXIOSEGMENTS \<and> unat (Isegment gr) < unat (nsegments gr)
     \<and> (unat (nsegments gr) < EC_MAXIOSEGMENTS \<longrightarrow>
          sum_list (take (unat (nsegments gr)) (IOsegment gr)) = total
        \<and> Ioffset gr = ucast (g_Obytes gr - sum_list (take (unat (Isegment gr)) (IOsegment gr)))))"
  by (rule layout_segments, simp_all add: demo_master_def group_at_def aget_def zero_group_def ecx_context_def)

end
