(* ===== verification/Config_Type.thy ===== *)
theory Config_Type
  imports Config_Scan Eeprom_Props Mbx_Safety Group_Props
begin

text \<open>
  Type safety of \<open>ecx_config_init\<close>: every operation it is made of keeps the context well-typed, that is
  every array of the master at its declared length, every counter and index in its range, the slave
  count below the size of the slave list. The rules \<open>typed\<close> say so of one operation each; a composed
  operation follows by stepping through its definition with them.
\<close>

named_theorems typed "an operation keeps the context well-typed"

lemma ok_evolves: "ctx_ok c \<Longrightarrow> evolves c c"
  by (rule evolves_refl)

section \<open>Data\<close>

text \<open>The first rule is for values whose content does not matter.\<close>

lemma par_any: "(\<And>x. Q x) \<Longrightarrow> par m Q"
  by (simp add: par_def)

lemma mem_write_typed [typed]: "(\<And>b'. length b' = length b \<Longrightarrow> Q b') \<Longrightarrow> par (mem_write b off d) Q"
  by (rule parI) (auto simp: mem_write_Some)

lemma aset_typed [typed]: "(\<And>ys. length ys = length xs \<Longrightarrow> Q ys) \<Longrightarrow> par (aset xs i v) Q"
  by (simp add: par_aset)

lemma aget_typed [typed]: "(\<And>x. x \<in> set xs \<Longrightarrow> Q x) \<Longrightarrow> par (aget xs i) Q"
  by (simp add: par_aget)

lemma slave_at_typed [typed]: "ctx_ok c \<Longrightarrow> (\<And>s. slave_ok s \<Longrightarrow> Q s) \<Longrightarrow> par (slave_at i c) Q"
  by (auto simp: slave_at_def par_aget ctx_ok_def)

lemma set_slave_typed [typed]:
  "ctx_ok c \<Longrightarrow> slave_ok s \<Longrightarrow> (\<And>d. ctx_ok d \<Longrightarrow> Q d) \<Longrightarrow> par (set_slave i s c) Q"
  using evolves_slave [OF ok_evolves, THEN evolves_ok] by (simp add: set_slave_def par_aset)

lemma upd_slave_typed [typed]:
  "ctx_ok c \<Longrightarrow> (\<And>s. slave_ok s \<Longrightarrow> slave_ok (f s)) \<Longrightarrow> (\<And>d. ctx_ok d \<Longrightarrow> Q d) \<Longrightarrow> par (upd_slave i f c) Q"
  unfolding upd_slave_def par_simps by (rule slave_at_typed, assumption) (rule set_slave_typed)

section \<open>The bus\<close>

lemma read_typed [typed]:
  assumes "ctx_ok c" "unat n \<le> 1490" "unat n \<le> length data"
    and "\<And>w d e. ctx_ok e \<Longrightarrow> length d = length data \<Longrightarrow> Q (w, d, e)"
  shows "par (read_BRD adp ado n data t c) Q" "par (read_FPRD adp ado n data t c) Q"
  by (rule ret_imp_par, rule read_wps [OF ok_evolves], use assms in \<open>auto dest: evolves_ok\<close>)+

lemma write_typed [typed]:
  assumes "ctx_ok c" "unat n \<le> 1490" "unat n \<le> length data" and "\<And>w e. ctx_ok e \<Longrightarrow> Q (w, e)"
  shows "par (write_BWR adp ado n data t c) Q" "par (write_FPWR adp ado n data t c) Q"
  by (rule ret_imp_par, rule write_wps [OF ok_evolves], use assms in \<open>auto dest: evolves_ok\<close>)+

lemma word_typed [typed]:
  assumes "ctx_ok c" and "\<And>w e. ctx_ok e \<Longrightarrow> Q (w, e)"
  shows "par (on_port (ecx_FPWRw adp ado d t) c) Q" "par (APWRw adp ado d c) Q"
  unfolding APWRw_def
  by (rule ret_imp_par, rule word_wps [OF ok_evolves], use assms in \<open>auto dest: evolves_ok\<close>)+

lemma word_read_typed [typed]:
  assumes "ctx_ok c" and "\<And>w e. ctx_ok e \<Longrightarrow> Q (w, e)"
  shows "par (FPRDw adp ado c) Q" "par (APRDw adp ado c) Q"
  unfolding FPRDw_def APRDw_def
  by (rule ret_imp_par, rule word_read_wps [OF ok_evolves], use assms in \<open>auto dest: evolves_ok\<close>)+

lemma usleep_typed [simp]: "ctx_ok c \<Longrightarrow> ctx_ok (c_usleep us c)"
  using evolves_usleep [OF ok_evolves] by (blast dest: evolves_ok)

lemma good_prims: "good_reader read_FPRD" "good_writer write_FPWR"
  by (simp_all add: good_reader_def good_writer_def)

lemma eeprom_prims_typed [typed]:
  assumes "ctx_ok c"
  shows "unat n \<le> 1490 \<Longrightarrow> unat n \<le> length data \<Longrightarrow> (\<And>w e. ctx_ok e \<Longrightarrow> Q (w, e)) \<Longrightarrow>
      par (write_retry write_FPWR adr reg n data c) Q"
    and "unat n \<le> 1490 \<Longrightarrow> unat n \<le> length data \<Longrightarrow> (\<And>w d e. ctx_ok e \<Longrightarrow> length d = length data \<Longrightarrow> R (w, d, e)) \<Longrightarrow>
      par (read_retry read_FPRD adr reg n data c) R"
    and "(\<And>b w e. ctx_ok e \<Longrightarrow> S (b, w, e)) \<Longrightarrow> par (eeprom_wait read_FPRD adr timeout c) S"
    and "(\<And>e. ctx_ok e \<Longrightarrow> T e) \<Longrightarrow> par (eeprom_clear write_FPWR adr estat c) T"
  subgoal by (rule ret_imp_par, rule ret_conseq, rule write_retry_wp [OF good_prims(2) ok_evolves [OF assms]])
      (auto dest: evolves_ok)
  subgoal by (rule ret_imp_par, rule ret_conseq, rule read_retry_wp [OF good_prims(1) ok_evolves [OF assms]])
      (auto dest: evolves_ok)
  subgoal by (rule ret_imp_par, rule ret_conseq, rule eeprom_wait_wp [OF good_prims(1) ok_evolves [OF assms]])
      (auto dest: evolves_ok)
  subgoal by (rule ret_imp_par, rule ret_conseq, rule eeprom_clear_wp [OF good_prims(2) ok_evolves [OF assms]])
      (auto dest: evolves_ok)
  done

section \<open>The EEPROM\<close>

lemmas typed_step = par_simps ret_case_prod ret_if prod.case Let_def if_bool_eq_conj

lemma eeprom2master_typed [typed]:
  "ctx_ok c \<Longrightarrow> (\<And>w d. ctx_ok d \<Longrightarrow> Q (w, d)) \<Longrightarrow> par (ecx_eeprom2master slave c) Q"
  "ctx_ok c \<Longrightarrow> (\<And>w d. ctx_ok d \<Longrightarrow> Q (w, d)) \<Longrightarrow> par (ecx_eeprom2pdi slave c) Q"
  unfolding ecx_eeprom2master_def ecx_eeprom2pdi_def by (auto simp: typed_step intro!: typed)

lemma waitnotbusy_typed [typed]:
  "ctx_ok c \<Longrightarrow> (\<And>b w d. ctx_ok d \<Longrightarrow> Q (b, w, d)) \<Longrightarrow> par (ecx_eeprom_waitnotbusyFP adr t c) Q"
  unfolding ecx_eeprom_waitnotbusyFP_def by (rule typed)

lemma readeeprom1_typed [typed]:
  "ctx_ok c \<Longrightarrow> (\<And>d. ctx_ok d \<Longrightarrow> Q d) \<Longrightarrow> par (ecx_readeeprom1 slave a c) Q"
  unfolding ecx_readeeprom1_def ec_eepromt_def by (auto simp: typed_step intro!: typed)

lemma readeeprom2_typed [typed]:
  "ctx_ok c \<Longrightarrow> (\<And>w d. ctx_ok d \<Longrightarrow> Q (w, d)) \<Longrightarrow> par (ecx_readeeprom2 slave t c) Q"
  unfolding ecx_readeeprom2_def by (auto simp: typed_step intro!: typed)

lemma read_round_typed [typed]:
  "ctx_ok c \<Longrightarrow> (\<And>n e f d. ctx_ok d \<Longrightarrow> Q (n, e, f, d)) \<Longrightarrow>
    par (read_round read_FPRD write_FPWR adr a t (n0, e0, f0, c)) Q"
  unfolding read_round_def ec_eepromt_def by (auto simp: typed_step intro!: typed)

lemma readeepromFP_typed [typed]:
  assumes c: "ctx_ok c" and Q: "\<And>w d. ctx_ok d \<Longrightarrow> Q (w, d)"
  shows "par (ecx_readeepromFP adr a t c) Q"
proof -
  have L: "par (do_while (read_round read_FPRD write_FPWR adr a t) (\<lambda>s. Some (nack_again (fst s), s)) (0, 0, 0, d))
      (\<lambda>(_, _, _, e). ctx_ok e)" if "ctx_ok d" for d
    by (rule do_while_par [where I = "\<lambda>(_, _, _, e). ctx_ok e" and J = "\<lambda>(_, _, _, e). ctx_ok e"])
      (use that in \<open>auto intro!: typed\<close>)
  have loop: "par (do_while (read_round read_FPRD write_FPWR adr a t) (\<lambda>s. Some (nack_again (fst s), s)) (0, 0, 0, d)) R"
    if "ctx_ok d" "\<And>n e f d. ctx_ok d \<Longrightarrow> R (n, e, f, d)" for d R
    by (rule L [THEN par_conseq]) (use that in auto)
  show ?thesis
    unfolding ecx_readeepromFP_def eeprom_read_def using c Q
    by (auto simp: typed_step intro!: typed loop)
qed

section \<open>The byte cache and the sections\<close>

lemma esi_typed:
  "ctx_ok c \<Longrightarrow> length m = EC_MAXEEPBITMAP \<Longrightarrow> ctx_ok (c\<lparr>esimap := m, esislave := w\<rparr>)"
  "ctx_ok c \<Longrightarrow> length e = EC_MAXEEPBUF \<Longrightarrow> length m = EC_MAXEEPBITMAP \<Longrightarrow> ctx_ok (c\<lparr>esibuf := e, esimap := m\<rparr>)"
  "ctx_ok c \<Longrightarrow> ctx_ok (c\<lparr>eepSM := sm\<rparr>)" "ctx_ok c \<Longrightarrow> ctx_ok (c\<lparr>eepFMMU := fm\<rparr>)"
  by (simp_all add: ctx_ok_def maps_ok_def)

declare esi_typed [simp]

lemma esi_lengths: "ctx_ok c \<Longrightarrow> length (esibuf c) = EC_MAXEEPBUF" "ctx_ok c \<Longrightarrow> length (esimap c) = EC_MAXEEPBITMAP"
  by (simp_all add: ctx_ok_def)

lemma sii_fill_typed [typed]:
  assumes c: "ctx_ok c" and Q: "\<And>d. ctx_ok d \<Longrightarrow> Q d"
  shows "par (sii_fill slave a c) Q"
proof -
  have marks: "par (for_each mark_cached ls (w, b, m)) R"
    if "\<And>w b m'. length m' = length m \<Longrightarrow> R (w, b, m')" for ls w b and m :: "u32 list" and R
  proof -
    have "par (for_each mark_cached ls (w, b, m)) (\<lambda>(_, _, m'). length m' = length m)"
      by (rule for_each_par) (auto simp: mark_cached_def typed_step par_aget par_aset)
    then show ?thesis using that by (auto elim!: par_conseq)
  qed
  show ?thesis
    unfolding sii_fill_def using c Q by (auto simp: typed_step esi_lengths intro!: typed marks)
qed

lemma siigetbyte_typed [typed]:
  "ctx_ok c \<Longrightarrow> (\<And>b d. ctx_ok d \<Longrightarrow> Q (b, d)) \<Longrightarrow> par (ecx_siigetbyte slave a c) Q"
  unfolding ecx_siigetbyte_def by (auto simp: typed_step intro!: typed)

lemma sii_word_typed [typed]:
  "ctx_ok c \<Longrightarrow> (\<And>w d. ctx_ok d \<Longrightarrow> Q (w, d)) \<Longrightarrow> par (sii_word slave a c) Q"
  unfolding sii_word_def by (auto simp: typed_step intro!: typed)

lemma restore_pdi_typed [typed]:
  "ctx_ok c \<Longrightarrow> (\<And>d. ctx_ok d \<Longrightarrow> Q d) \<Longrightarrow> par (restore_pdi b slave c) Q"
  unfolding restore_pdi_def by (auto simp: typed_step intro!: typed)

lemma siifind_typed [typed]:
  assumes c: "ctx_ok c" and Q: "\<And>w d. ctx_ok d \<Longrightarrow> Q (w, d)"
  shows "par (ecx_siifind slave cat c) Q"
proof -
  have L: "par (while_do (\<lambda>(a, p, c). p \<noteq> cat \<and> p \<noteq> 0xffff) (siifind_step slave) (a, p, d)) (\<lambda>t. (case t of (_, _, e) \<Rightarrow> ctx_ok e)
      \<and> \<not> (case t of (a, p, c) \<Rightarrow> p \<noteq> cat \<and> p \<noteq> 0xffff))" if "ctx_ok d" for a p d
    by (rule while_do_par) (use that in \<open>auto simp: siifind_step_def typed_step intro!: typed\<close>)
  have loop: "par (while_do (\<lambda>(a, p, c). p \<noteq> cat \<and> p \<noteq> 0xffff) (siifind_step slave) (a, p, d)) R"
    if "ctx_ok d" "\<And>a p d. ctx_ok d \<Longrightarrow> R (a, p, d)" for a p d R
    by (rule L [THEN par_conseq]) (use that in auto)
  show ?thesis
    unfolding ecx_siifind_def using c Q by (auto simp: typed_step intro!: typed loop)
qed

lemma siistring_typed [typed]:
  assumes c: "ctx_ok c" and Q: "\<And>t d. ctx_ok d \<Longrightarrow> length t = length str \<Longrightarrow> Q (t, d)"
  shows "par (ecx_siistring str slave Sn c) Q"
proof -
  have chars: "par (for_each (siistring_char slave) js (ba, p, t, d)) (\<lambda>(_, _, u, e). ctx_ok e \<and> length u = length str)"
    if "ctx_ok d" "length t = length str" for js ba p t d
    by (rule for_each_par) (use that in \<open>auto simp: siistring_char_def typed_step intro!: typed\<close>)
  have L: "par (for_each (siistring_walk slave n) is (ba, p, str, d)) (\<lambda>(_, _, u, e). ctx_ok e \<and> length u = length str)"
    if "ctx_ok d" for n "is" ba p d
    by (rule for_each_par)
      (use that in \<open>auto simp: siistring_walk_def typed_step intro!: typed chars [THEN par_conseq]\<close>)
  have walk: "par (for_each (siistring_walk slave n) is (ba, p, str, d)) R"
    if "ctx_ok d" "\<And>ba p u e. ctx_ok e \<Longrightarrow> length u = length str \<Longrightarrow> R (ba, p, u, e)" for n "is" ba p d R
    by (rule L [THEN par_conseq]) (use that in auto)
  show ?thesis
    unfolding ecx_siistring_def using c Q by (auto simp: typed_step intro!: typed walk)
qed

lemma siiFMMU_typed [typed]:
  "ctx_ok c \<Longrightarrow> (\<And>n F d. ctx_ok d \<Longrightarrow> Q (n, F, d)) \<Longrightarrow> par (ecx_siiFMMU slave F0 c) Q"
  unfolding ecx_siiFMMU_def by (auto simp: typed_step intro!: typed)

lemma sii_sm_typed [typed]:
  "ctx_ok c \<Longrightarrow> (\<And>S d. ctx_ok d \<Longrightarrow> Q (S, d)) \<Longrightarrow> par (sii_sm slave a (S0, c)) Q"
  unfolding sii_sm_def by (auto simp: typed_step intro!: typed)

lemma siiSM_typed [typed]:
  "ctx_ok c \<Longrightarrow> (\<And>n S d. ctx_ok d \<Longrightarrow> Q (n, S, d)) \<Longrightarrow> par (ecx_siiSM slave S0 c) Q"
  "ctx_ok c \<Longrightarrow> (\<And>n S d. ctx_ok d \<Longrightarrow> Q (n, S, d)) \<Longrightarrow> par (ecx_siiSMnext slave S0 k c) Q"
  unfolding ecx_siiSM_def ecx_siiSMnext_def by (auto simp: typed_step intro!: typed)

section \<open>Settings of a slave\<close>

lemma upd_SM_typed [typed]:
  "ctx_ok c \<Longrightarrow> (\<And>d. ctx_ok d \<Longrightarrow> Q d) \<Longrightarrow> par (upd_SM slave i f c) Q"
  "ctx_ok c \<Longrightarrow> (\<And>d. ctx_ok d \<Longrightarrow> Q d) \<Longrightarrow> par (set_SMtype slave i t c) Q"
  unfolding upd_SM_def set_SMtype_def by (auto simp: typed_step slave_ok_def intro!: typed)

lemma put_typed [typed]:
  "slave_ok s \<Longrightarrow> (\<And>t. slave_ok t \<Longrightarrow> Q t) \<Longrightarrow> par (put_SM i f s) Q"
  "slave_ok s \<Longrightarrow> (\<And>t. slave_ok t \<Longrightarrow> Q t) \<Longrightarrow> par (put_FMMU i g s) Q"
  "slave_ok s \<Longrightarrow> (\<And>t. slave_ok t \<Longrightarrow> Q t) \<Longrightarrow> par (put_SMtype i b s) Q"
  unfolding put_SM_def put_FMMU_def put_SMtype_def by (auto simp: typed_step slave_ok_def intro!: typed)

lemma table_typed [typed]:
  "slave_ok s \<Longrightarrow> (\<And>t. slave_ok t \<Longrightarrow> Q t) \<Longrightarrow> par (table_outputs e s) Q"
  "slave_ok s \<Longrightarrow> (\<And>t. slave_ok t \<Longrightarrow> Q t) \<Longrightarrow> par (table_inputs e s) Q"
  unfolding table_outputs_def table_inputs_def by (auto simp: typed_step intro!: typed)

lemma from_table_typed [typed]:
  "ctx_ok c \<Longrightarrow> (\<And>n d. ctx_ok d \<Longrightarrow> Q (n, d)) \<Longrightarrow> par (ecx_config_from_table slave c) Q"
  unfolding ecx_config_from_table_def
  by (auto simp: typed_step slave_ok_def intro!: typed par_any [of _ "ec_findconfig _ _"])

lemma lookup_typed [typed]:
  "ctx_ok c \<Longrightarrow> (\<And>b d. ctx_ok d \<Longrightarrow> Q (b, d)) \<Longrightarrow> par (ecx_lookup_prev_sii slave c) Q"
  unfolding ecx_lookup_prev_sii_def
  by (auto simp: typed_step slave_ok_def intro!: typed par_any [of _ "prev_sii _ _"])

lemma topology_typed [typed]:
  "ctx_ok c \<Longrightarrow> (\<And>d. ctx_ok d \<Longrightarrow> Q d) \<Longrightarrow> par (init_topology slave c) Q"
  unfolding init_topology_def
  by (auto simp: typed_step slave_ok_def case_prod_unfold intro!: typed par_any [of _ "find_parent _ _"])

lemma statecheck_wp:
  assumes ok: "ctx_ok c" and i: "unat slave < EC_MAXSLAVE"
  shows "ret (ecx_statecheck slave st t c) (\<lambda>(w, d). ctx_ok d)"
proof (cases "slavecount c < uint slave")
  case False
  show ?thesis
    unfolding ecx_statecheck_def if_not_P [OF False] Let_def
  proof (simp only: ret_case_prod, rule c_timer_start_wp [OF ok_evolves [OF ok]], goal_cases)
    case (1 t p)
    show ?case
      unfolding ret_step
      apply (rule slave_at_wp [OF 1(3) i])
      apply (rule c_poll_wp [OF 1(3), where J = "\<lambda>_ _. True"])
      subgoal for s x d
        using i statecheck_read_wp [OF evolves_refl, OF evolves_ok, of c d slave "configadr s"]
        by (auto elim!: ret_conseq intro: evolves_usleep)
      subgoal by simp
      subgoal for s y d
        using i evolves_sizes(1) [of c d] by (auto intro!: upd_slave_wp dest: evolves_ok)
      done
  qed
qed (simp add: ecx_statecheck_def ok)

lemma statecheck_typed [typed]:
  assumes c: "ctx_ok c" and Q: "\<And>w d. ctx_ok d \<Longrightarrow> Q (w, d)"
  shows "par (ecx_statecheck slave st t c) Q"
proof (cases "unat slave < EC_MAXSLAVE")
  case True
  show ?thesis by (rule ret_imp_par, rule ret_conseq [OF statecheck_wp [OF c True]]) (use Q in auto)
next
  case False
  have "slavelist (snd (c_timer_start t c)) = slavelist c"
    by (simp add: c_timer_start_def case_prod_unfold Let_def)
  then have "slave_at slave (snd (c_timer_start t c)) = None"
    using False c by (simp add: slave_at_def aget_def ctx_ok_def)
  then show ?thesis
    using c Q by (simp add: ecx_statecheck_def case_prod_unfold Let_def)
qed

section \<open>The whole\<close>

lemma init_slave_typed:
  "ctx_ok c \<Longrightarrow> (\<And>d. ctx_ok d \<Longrightarrow> Q d) \<Longrightarrow> par (init_mailbox_in slave c) Q"
  "ctx_ok c \<Longrightarrow> (\<And>d. ctx_ok d \<Longrightarrow> Q d) \<Longrightarrow> par (init_mbx_defaults slave c) Q"
  "ctx_ok c \<Longrightarrow> (\<And>d. ctx_ok d \<Longrightarrow> Q d) \<Longrightarrow> par (default_SM slave i adr fl ty c) Q"
  "ctx_ok c \<Longrightarrow> (\<And>d. ctx_ok d \<Longrightarrow> Q d) \<Longrightarrow> par (init_mailbox k c) Q"
  "ctx_ok c \<Longrightarrow> (\<And>d. ctx_ok d \<Longrightarrow> Q d) \<Longrightarrow> par (init_address k c) Q"
  unfolding init_mailbox_in_def init_mbx_defaults_def default_SM_def init_mailbox_def init_address_def
  by (auto simp: typed_step slave_ok_def intro!: typed)

declare init_slave_typed [typed]

lemma smt_bytes_length [simp]: "length (smt_bytes m) = 8"
  by (simp add: smt_bytes_def)

lemma mbx_program_typed [typed]:
  "ctx_ok c \<Longrightarrow> (\<And>d. ctx_ok d \<Longrightarrow> Q d) \<Longrightarrow> par (init_mbx_program slave cadr c) Q"
  unfolding init_mbx_program_def by (auto simp: typed_step intro!: typed)

lemma init_word_typed [typed]:
  "(\<And>w s. slave_ok s \<Longrightarrow> slave_ok (store w s)) \<Longrightarrow> ctx_ok c \<Longrightarrow> (\<And>d. ctx_ok d \<Longrightarrow> Q d) \<Longrightarrow> par (init_word store ask i c) Q"
  unfolding init_word_def by (auto simp: typed_step intro!: typed)

lemma take_SM_typed [typed]:
  "ctx_ok c \<Longrightarrow> (\<And>d. ctx_ok d \<Longrightarrow> Q d) \<Longrightarrow> par (take_SM slave i c) Q"
  unfolding take_SM_def Let_def by (rule typed)

lemma sii_parts_typed [typed]:
  "ctx_ok c \<Longrightarrow> (\<And>d. ctx_ok d \<Longrightarrow> Q d) \<Longrightarrow> par (sii_general slave a c) Q"
  "ctx_ok c \<Longrightarrow> (\<And>d. ctx_ok d \<Longrightarrow> Q d) \<Longrightarrow> par (sii_name slave c) Q"
  "ctx_ok c \<Longrightarrow> (\<And>d. ctx_ok d \<Longrightarrow> Q d) \<Longrightarrow> par (sii_FMMUs slave c) Q"
  unfolding sii_general_def sii_name_def sii_FMMUs_def
  by (auto simp: typed_step slave_ok_def intro!: typed)

lemma sii_SMs_typed [typed]:
  assumes c: "ctx_ok c" and Q: "\<And>d. ctx_ok d \<Longrightarrow> Q d"
  shows "par (sii_SMs slave c) Q"
proof -
  have L: "par (for_each (sii_SM_next slave) is (g, d)) (\<lambda>(_, e). ctx_ok e)" if "ctx_ok d" for "is" g d
    by (rule for_each_par) (use that in \<open>auto simp: sii_SM_next_def typed_step intro!: typed\<close>)
  have loop: "par (for_each (sii_SM_next slave) is (g, d)) R" if "ctx_ok d" "\<And>g e. ctx_ok e \<Longrightarrow> R (g, e)" for "is" g d R
    by (rule L [THEN par_conseq]) (use that in auto)
  show ?thesis unfolding sii_SMs_def using c Q by (auto simp: typed_step intro!: typed loop)
qed

lemma from_sii_typed [typed]:
  "ctx_ok c \<Longrightarrow> (\<And>d. ctx_ok d \<Longrightarrow> Q d) \<Longrightarrow> par (init_from_sii slave c) Q"
  unfolding init_from_sii_def by (auto simp: typed_step intro!: typed)

lemma init_one_typed [typed]:
  "ctx_ok c \<Longrightarrow> (\<And>d. ctx_ok d \<Longrightarrow> Q d) \<Longrightarrow> par (init_slave usetable i c) Q"
  unfolding init_slave_def by (auto simp: typed_step intro!: typed)

section \<open>Detecting the slaves\<close>

definition sized_for :: "ecx_contextt \<Rightarrow> bool" where
  "sized_for c \<longleftrightarrow> ctx_ok c \<and> nat (maxslave c) \<le> EC_MAXSLAVE"

lemma bwr_all_wp:
  assumes c: "I c" and n: "\<forall>d \<in> snd ` set ws. length d \<le> 1490"
    and ok: "\<And>s. I s \<Longrightarrow> ctx_ok s" and port: "\<And>s p. I s \<Longrightarrow> ctx_ok (s\<lparr>port := p\<rparr>) \<Longrightarrow> I (s\<lparr>port := p\<rparr>)"
  shows "ret (bwr_all ws c) I"
  unfolding bwr_all_def
proof (rule for_each_ret [where I = I])
  fix i s
  assume i: "i \<in> set ws" and s: "I s"
  obtain reg data where d: "i = (reg, data)" by force
  have "length data \<le> 1490" using n i by (auto simp: d)
  then have l: "unat (of_nat (length data) :: u16) = length data"
    by (simp add: unat_of_nat take_bit_nat_eq_self)
  show "ret ((case i of (reg, data) \<Rightarrow> \<lambda>c. do {
      (_, c) \<leftarrow> write_BWR 0x0000 reg (of_nat (length data)) data EC_TIMEOUTRET3 c; Some c }) s) I"
    unfolding d prod.case ret_step
    by (rule write_wps(1) [OF ok_evolves [OF ok [OF s]]])
      (use port [OF s] \<open>length data \<le> 1490\<close> l in \<open>auto dest: evolves_ok\<close>)
qed (rule c)

lemma sized_for_port: "sized_for s \<Longrightarrow> ctx_ok (s\<lparr>port := p\<rparr>) \<Longrightarrow> sized_for (s\<lparr>port := p\<rparr>)"
  by (simp add: sized_for_def)

lemma init_context_wp:
  assumes ok: "ctx_ok c" and n: "nat (maxslave c) \<le> EC_MAXSLAVE" "nat (maxgroup c) \<le> EC_MAXGROUP"
  shows "ret (ecx_init_context c) sized_for"
proof -
  have z: "slave_ok zero_slave" "group_ok zero_group"
    by (simp_all add: slave_ok_def group_ok_def zero_slave_def zero_group_def)
  have l: "length (slavelist c) = EC_MAXSLAVE" "length (grouplist c) = EC_MAXGROUP"
    "\<forall>s \<in> set (slavelist c). slave_ok s" "\<forall>g \<in> set (grouplist c). group_ok g"
    using ok by (simp_all add: ctx_ok_def)
  let ?c = "c\<lparr>slavecount := 0, slavelist := replicate (nat (maxslave c)) zero_slave @ drop (nat (maxslave c)) (slavelist c),
      grouplist := replicate (nat (maxgroup c)) zero_group @ drop (nat (maxgroup c)) (grouplist c)\<rparr>"
  have c: "sized_for ?c"
    using ok n l z by (auto simp: sized_for_def ctx_ok_def maps_ok_def set_replicate_conv_if dest: in_set_dropD)
  then have e: "ret (ecx_siigetbyte 0 (of_nat EC_MAXEEPBUF) ?c) (\<lambda>(_, d). sized_for d)"
    by (simp add: ecx_siigetbyte_def sized_for_def Let_def)
  have g: "ret (for_each (\<lambda>lp c. do {
      g \<leftarrow> aget (grouplist c) lp;
      gs \<leftarrow> aset (grouplist c) lp (g\<lparr>logstartaddr := push_bit EC_LOGGROUPOFFSET (of_nat lp)\<rparr>);
      Some (c\<lparr>grouplist := gs\<rparr>) }) [0..<nat (maxgroup c)] d) sized_for" if "sized_for d" for d
  proof (rule for_each_ret [where I = sized_for])
    fix lp s
    assume lp: "lp \<in> set [0..<nat (maxgroup c)]" and s: "sized_for s"
    then have k: "lp < length (grouplist s)" "group_ok (grouplist s ! lp)"
      using n by (auto simp: sized_for_def ctx_ok_def)
    then have "group_ok ((grouplist s ! lp)\<lparr>logstartaddr := v\<rparr>)" for v by (simp add: group_ok_def)
    with k s show "ret (do {
        g \<leftarrow> aget (grouplist s) lp;
        gs \<leftarrow> aset (grouplist s) lp (g\<lparr>logstartaddr := push_bit EC_LOGGROUPOFFSET (of_nat lp)\<rparr>);
        Some (s\<lparr>grouplist := gs\<rparr>) }) sized_for"
      using evolves_group [OF ok_evolves, THEN evolves_ok] by (simp add: sized_for_def)
  qed (rule that)
  have b: "nat (maxslave c) \<le> length (slavelist c) \<and> nat (maxgroup c) \<le> length (grouplist c)"
    using l n by simp
  show ?thesis
    unfolding ecx_init_context_def Let_def if_P [OF b] ret_simps
    by (rule e [THEN ret_conseq]) (use g in auto)
qed

lemma detect_slaves_wp:
  assumes "sized_for c"
  shows "ret (ecx_detect_slaves c) (\<lambda>(w, d). ctx_ok d \<and> (0 < w \<longrightarrow> slavecount d = w))"
proof -
  have set_count: "ctx_ok (d\<lparr>slavecount := w\<rparr>)" if "ctx_ok d" "0 < w" "w < int EC_MAXSLAVE" for d w
    using that by (simp add: ctx_ok_def maps_ok_def)
  show ?thesis
    unfolding ecx_detect_slaves_def ret_step
    apply (rule bwr_all_wp [where I = sized_for, OF assms _ _ sized_for_port, THEN ret_conseq])
        apply (simp, simp add: sized_for_def, assumption, assumption)
    apply (rule read_wps(1) [OF ok_evolves])
    using set_count by (auto simp: sized_for_def dest: evolves_ok)
qed

lemma config_loop_typed:
  assumes "\<And>i c Q. ctx_ok c \<Longrightarrow> (\<And>d. ctx_ok d \<Longrightarrow> Q d) \<Longrightarrow> par (f i c) Q" and "ctx_ok c" and "\<And>d. ctx_ok d \<Longrightarrow> Q d"
  shows "par (for_each f is c) Q"
  by (rule for_each_par [where I = ctx_ok, THEN par_conseq]) (use assms in auto)

lemma defaults_typed:
  "ctx_ok c \<Longrightarrow> (\<And>d. ctx_ok d \<Longrightarrow> Q d) \<Longrightarrow> par (ecx_set_slaves_to_default c) Q"
  unfolding ecx_set_slaves_to_default_def
  by (rule bwr_all_wp [where I = ctx_ok, THEN ret_imp_par, THEN par_conseq]) auto

text \<open>
  C12: Configuration is type safe: on every bus, whatever the slaves and their EEPROMs answer, the
  initialisation of the context and the detection of the slaves return, with the number of slaves
  found recorded, and a configuration that comes to its end leaves a well-typed context: all arrays of all
  slaves and groups at their declared lengths, the slave count below the size of the list.
\<close>

theorem config_init_well_typed:
  assumes "ctx_ok c" and "nat (maxslave c) \<le> EC_MAXSLAVE" and "nat (maxgroup c) \<le> EC_MAXGROUP"
  shows "ret (ecx_init_context c \<bind> ecx_detect_slaves) (\<lambda>(w, d). ctx_ok d \<and> (0 < w \<longrightarrow> slavecount d = w))
    \<and> par (ecx_config_init usetable c) (\<lambda>(w, d). ctx_ok d)"
proof
  show "ret (ecx_init_context c \<bind> ecx_detect_slaves) (\<lambda>(w, d). ctx_ok d \<and> (0 < w \<longrightarrow> slavecount d = w))"
    unfolding ret_simps by (rule init_context_wp [OF assms, THEN ret_conseq]) (rule detect_slaves_wp)
  show "par (ecx_config_init usetable c) (\<lambda>(w, d). ctx_ok d)"
    unfolding ecx_config_init_def par_simps
    apply (rule init_context_wp [OF assms, THEN ret_imp_par, THEN par_conseq])
    apply (rule detect_slaves_wp [THEN ret_imp_par, THEN par_conseq], assumption)
    apply (clarsimp simp: ret_if)
    apply (rule defaults_typed, assumption)
    apply (simp only: Let_def par_simps)
    apply (intro config_loop_typed typed; assumption?)
     apply (simp_all add: slave_ok_def)
    done
qed

theorem config_init_well_typed_witness:
  "ret (ecx_init_context demo_master \<bind> ecx_detect_slaves) (\<lambda>(w, d). ctx_ok d \<and> (0 < w \<longrightarrow> slavecount d = w))
   \<and> par (ecx_config_init 1 demo_master) (\<lambda>(w, d). ctx_ok d)"
  by (rule config_init_well_typed [OF demo_master_ok]) (simp_all add: demo_master_def ecx_context_def)

end
