(* ===== verification/Binary64.thy ===== *)
theory Binary64
  imports Soem_Prelude "HOL-Library.Log_Nat"
begin

text \<open>
  The C++ type \<open>double\<close>: the finite values as rational numbers (a zero has no sign, nothing the
  program does with a zero can tell the two apart), the infinities and not-a-number. Every
  operation computes the exact result and rounds it to the nearest IEEE 754 binary64 value,
  ties to even, as the default rounding mode does. The second half of the theory is what the
  trajectory proofs use of rounding, stated as a locale and discharged for \<open>rnd\<close>.
\<close>

section \<open>Values and rounding\<close>

datatype dbl = Fin rat | Inf bool | NaN

definition expo :: "rat \<Rightarrow> int" where
  "expo x = (let (a, b) = quotient_of \<bar>x\<bar>; e = bitlen a - bitlen b
     in if \<bar>x\<bar> < 2 powi e then e - 1 else e)"

definition ulp_exp :: "rat \<Rightarrow> int" where
  "ulp_exp x = max (expo x - 52) (- 1074)"

definition round_even :: "rat \<Rightarrow> int" where
  "round_even x = (let n = \<lfloor>x\<rfloor>; d = x - of_int n
     in if d < 1 / 2 then n else if 1 / 2 < d then n + 1 else if even n then n else n + 1)"

definition rnd_fin :: "rat \<Rightarrow> rat" where
  "rnd_fin x = (if x = 0 then 0
     else of_int (round_even (x / 2 powi ulp_exp x)) * 2 powi ulp_exp x)"

definition rnd :: "rat \<Rightarrow> dbl" where
  "rnd x = (let v = rnd_fin x in if \<bar>v\<bar> < 2 ^ 1024 then Fin v else Inf (0 < v))"

definition is_double :: "rat \<Rightarrow> bool" where
  "is_double x \<longleftrightarrow> rnd x = Fin x"

section \<open>Operations of the program\<close>

fun d_finite :: "dbl \<Rightarrow> bool" where
  "d_finite (Fin _) = True"
| "d_finite _ = False"

fun d_lt :: "dbl \<Rightarrow> dbl \<Rightarrow> bool" where
  "d_lt (Fin x) (Fin y) = (x < y)"
| "d_lt (Fin _) (Inf p) = p"
| "d_lt (Inf p) (Fin _) = (\<not> p)"
| "d_lt (Inf p) (Inf q) = (\<not> p \<and> q)"
| "d_lt _ _ = False"

fun d_le :: "dbl \<Rightarrow> dbl \<Rightarrow> bool" where
  "d_le (Fin x) (Fin y) = (x \<le> y)"
| "d_le (Fin _) (Inf p) = p"
| "d_le (Inf p) (Fin _) = (\<not> p)"
| "d_le (Inf p) (Inf q) = (p \<longrightarrow> q)"
| "d_le _ _ = False"

fun d_neg :: "dbl \<Rightarrow> dbl" where
  "d_neg (Fin x) = Fin (- x)"
| "d_neg (Inf p) = Inf (\<not> p)"
| "d_neg NaN = NaN"

fun d_abs :: "dbl \<Rightarrow> dbl" where
  "d_abs (Fin x) = Fin \<bar>x\<bar>"
| "d_abs (Inf _) = Inf True"
| "d_abs NaN = NaN"

fun d_add :: "dbl \<Rightarrow> dbl \<Rightarrow> dbl" where
  "d_add (Fin x) (Fin y) = rnd (x + y)"
| "d_add (Fin _) (Inf p) = Inf p"
| "d_add (Inf p) (Fin _) = Inf p"
| "d_add (Inf p) (Inf q) = (if p = q then Inf p else NaN)"
| "d_add _ _ = NaN"

definition d_sub :: "dbl \<Rightarrow> dbl \<Rightarrow> dbl" where
  "d_sub x y = d_add x (d_neg y)"

fun d_mul :: "dbl \<Rightarrow> dbl \<Rightarrow> dbl" where
  "d_mul (Fin x) (Fin y) = rnd (x * y)"
| "d_mul (Fin x) (Inf p) = (if x = 0 then NaN else Inf (p = (0 < x)))"
| "d_mul (Inf p) (Fin y) = (if y = 0 then NaN else Inf (p = (0 < y)))"
| "d_mul (Inf p) (Inf q) = Inf (p = q)"
| "d_mul _ _ = NaN"

text \<open>The program never divides by zero; the result there, which would depend on the sign of the
  zero, is left at not-a-number.\<close>

fun d_div :: "dbl \<Rightarrow> dbl \<Rightarrow> dbl" where
  "d_div (Fin x) (Fin y) = (if y = 0 then NaN else rnd (x / y))"
| "d_div (Inf p) (Fin y) = (if y = 0 then NaN else Inf (p = (0 < y)))"
| "d_div (Fin _) (Inf _) = Fin 0"
| "d_div _ _ = NaN"

section \<open>Rounding is monotone and close\<close>

lemma expo_bounds:
  assumes "x \<noteq> 0"
  shows "2 powi expo x \<le> \<bar>x\<bar>" "\<bar>x\<bar> < 2 powi (expo x + 1)"
proof -
  obtain a b where q: "quotient_of \<bar>x\<bar> = (a, b)" by (cases "quotient_of \<bar>x\<bar>")
  have b: "0 < b" using quotient_of_denom_pos [OF q] .
  have x: "\<bar>x\<bar> = of_int a / of_int b" using quotient_of_div [OF q] .
  have "0 < \<bar>x\<bar>" using assms by simp
  then have a: "0 < a" using b by (simp add: x zero_less_divide_iff)
  have la: "0 < bitlen a" "0 < bitlen b"
    using a b bitlen_nonneg [of a] bitlen_nonneg [of b] bitlen_eq_zero_iff [of a] bitlen_eq_zero_iff [of b]
    by linarith+
  have A: "2 powi (bitlen a - 1) \<le> (of_int a :: rat)" "(of_int a :: rat) < 2 powi bitlen a"
    and B: "2 powi (bitlen b - 1) \<le> (of_int b :: rat)" "(of_int b :: rat) < 2 powi bitlen b"
    using bitlen_bounds [OF a] bitlen_bounds [OF b] la
    by (simp_all add: power_int_nonneg_exp)
  let ?e = "bitlen a - bitlen b"
  have up: "\<bar>x\<bar> < 2 powi (?e + 1)"
  proof -
    have "\<bar>x\<bar> \<le> of_int a / 2 powi (bitlen b - 1)"
      unfolding x using B a b by (intro divide_left_mono) auto
    also have "\<dots> < 2 powi bitlen a / 2 powi (bitlen b - 1)"
      using A by (intro divide_strict_right_mono) auto
    also have "\<dots> = 2 powi (?e + 1)" by (simp add: power_int_diff [symmetric] algebra_simps)
    finally show ?thesis .
  qed
  have lo: "2 powi (?e - 1) \<le> \<bar>x\<bar>"
  proof -
    have "2 powi (?e - 1) = (2 powi (bitlen a - 1) / 2 powi bitlen b :: rat)"
      by (simp add: power_int_diff [symmetric] algebra_simps)
    also have "\<dots> \<le> of_int a / 2 powi bitlen b" using A by (intro divide_right_mono) auto
    also have "\<dots> \<le> \<bar>x\<bar>" unfolding x using B a b by (intro divide_left_mono) auto
    finally show ?thesis .
  qed
  have "expo x = (if \<bar>x\<bar> < 2 powi ?e then ?e - 1 else ?e)" by (simp add: expo_def q)
  then show "2 powi expo x \<le> \<bar>x\<bar>" "\<bar>x\<bar> < 2 powi (expo x + 1)" using up lo by (auto simp: not_less)
qed

lemma expo_mono:
  assumes "x \<noteq> 0" "\<bar>x\<bar> \<le> \<bar>y\<bar>"
  shows "expo x \<le> expo y"
proof (rule ccontr)
  assume "\<not> ?thesis"
  then have "expo y + 1 \<le> expo x" by simp
  then have "(2 :: rat) powi (expo y + 1) \<le> 2 powi expo x" by (intro power_int_increasing) auto
  with expo_bounds [of x] expo_bounds [of y] assms show False by fastforce
qed

lemma round_even_bounds: "\<bar>of_int (round_even x) - x\<bar> \<le> 1 / 2"
proof -
  have "of_int \<lfloor>x\<rfloor> \<le> x" "x < of_int \<lfloor>x\<rfloor> + 1" by linarith+
  then show ?thesis unfolding round_even_def Let_def by (auto simp: abs_le_iff)
qed

lemma round_even_mono:
  assumes "x \<le> y"
  shows "round_even x \<le> round_even y"
proof (cases "\<lfloor>x\<rfloor> = \<lfloor>y\<rfloor>")
  case True
  then show ?thesis using assms unfolding round_even_def Let_def by auto
next
  case False
  then have "\<lfloor>x\<rfloor> + 1 \<le> \<lfloor>y\<rfloor>" using floor_mono [OF assms] by simp
  then show ?thesis unfolding round_even_def Let_def by auto
qed

lemma round_even_int [simp]: "round_even (of_int n) = n"
  by (simp add: round_even_def)

lemma round_even_minus: "round_even (- x) = - round_even x"
proof (cases "x = of_int \<lfloor>x\<rfloor>")
  case True
  then show ?thesis by (metis of_int_minus round_even_int)
next
  case False
  then have m: "\<lfloor>- x\<rfloor> = - \<lfloor>x\<rfloor> - 1" by linarith
  then have "even \<lfloor>- x\<rfloor> \<longleftrightarrow> odd \<lfloor>x\<rfloor>" by simp
  then show ?thesis unfolding round_even_def Let_def m by auto
qed

lemma pow_pos [simp]: "(0 :: rat) < 2 powi k"
  by simp

lemma rnd_fin_0 [simp]: "rnd_fin 0 = 0"
  by (simp add: rnd_fin_def)

lemma ulp_exp_minus [simp]: "ulp_exp (- x) = ulp_exp x"
  by (simp add: ulp_exp_def expo_def)

lemma rnd_fin_minus: "rnd_fin (- x) = - rnd_fin x"
  by (simp add: rnd_fin_def round_even_minus)

text \<open>A multiple of the last place on either side of a value also bounds its rounding.\<close>

lemma rnd_fin_le: "x \<le> of_int n * 2 powi ulp_exp x \<Longrightarrow> rnd_fin x \<le> of_int n * 2 powi ulp_exp x"
proof (cases "x = 0")
  case False
  assume "x \<le> of_int n * 2 powi ulp_exp x"
  then have "x / 2 powi ulp_exp x \<le> of_int n" by (simp add: divide_le_eq)
  then have "round_even (x / 2 powi ulp_exp x) \<le> n" using round_even_mono by force
  with False show ?thesis by (simp add: rnd_fin_def)
qed simp

lemma rnd_fin_ge: "of_int n * 2 powi ulp_exp x \<le> x \<Longrightarrow> of_int n * 2 powi ulp_exp x \<le> rnd_fin x"
  using rnd_fin_le [of "- x" "- n"] by (simp add: rnd_fin_minus)

lemma rnd_fin_nonneg: "0 \<le> x \<Longrightarrow> 0 \<le> rnd_fin x"
  using rnd_fin_ge [of 0 x] by simp

lemma rnd_fin_mono_nonneg:
  assumes x: "0 \<le> x" and le: "x \<le> y"
  shows "rnd_fin x \<le> rnd_fin y"
proof (cases "x = 0")
  case True
  then show ?thesis using rnd_fin_nonneg [of y] le by simp
next
  case False
  with x le have pos: "x \<noteq> 0" "y \<noteq> 0" "\<bar>x\<bar> = x" "\<bar>y\<bar> = y" by auto
  have e: "expo x \<le> expo y" using expo_mono [of x y] pos le by simp
  show ?thesis
  proof (cases "ulp_exp x = ulp_exp y")
    case True
    have "x / 2 powi ulp_exp x \<le> y / 2 powi ulp_exp x" using le by (simp add: divide_right_mono)
    from round_even_mono [OF this] show ?thesis using True pos by (simp add: rnd_fin_def)
  next
    case False
    then have q: "ulp_exp x < ulp_exp y" "ulp_exp y = expo y - 52" "expo x < expo y"
      using e by (auto simp: ulp_exp_def max_def split: if_splits)
    have pw: "of_int (2 ^ nat (expo y - u)) * 2 powi u = (2 powi expo y :: rat)" if "u \<le> expo y" for u
    proof -
      have "of_int (2 ^ nat (expo y - u)) = (2 powi (expo y - u) :: rat)"
        using that by (simp add: power_int_nonneg_exp)
      then show ?thesis by (simp add: power_int_add [symmetric])
    qed
    have "x < 2 powi (expo x + 1)" using expo_bounds [of x] pos by simp
    also have "(2 powi (expo x + 1) :: rat) \<le> 2 powi expo y" using q by (intro power_int_increasing) auto
    finally have "rnd_fin x \<le> 2 powi expo y"
      using rnd_fin_le [of x "2 ^ nat (expo y - ulp_exp x)"] pw [of "ulp_exp x"] q by simp
    also have "2 powi expo y \<le> rnd_fin y"
      using rnd_fin_ge [of "2 ^ nat (expo y - ulp_exp y)" y] pw [of "ulp_exp y"] q expo_bounds [of y] pos by simp
    finally show ?thesis .
  qed
qed

lemma rnd_fin_mono: "x \<le> y \<Longrightarrow> rnd_fin x \<le> rnd_fin y"
proof -
  assume le: "x \<le> y"
  consider "0 \<le> x" | "x < 0" "0 \<le> y" | "y < 0" by linarith
  then show ?thesis
  proof cases
    case 2
    then have "0 \<le> rnd_fin (- x)" using rnd_fin_nonneg [of "- x"] by simp
    then show ?thesis using rnd_fin_nonneg [of y] 2 by (simp add: rnd_fin_minus)
  next
    case 3
    then show ?thesis using rnd_fin_mono_nonneg [of "- y" "- x"] le by (simp add: rnd_fin_minus)
  qed (use rnd_fin_mono_nonneg le in blast)
qed

lemma rnd_fin_error: "\<bar>rnd_fin x - x\<bar> \<le> \<bar>x\<bar> / 2 ^ 53 + 1 / 2 ^ 1074"
proof (cases "x = 0")
  case False
  let ?u = "(2 :: rat) powi ulp_exp x"
  have "rnd_fin x - x = (of_int (round_even (x / ?u)) - x / ?u) * ?u"
    using False by (simp add: rnd_fin_def left_diff_distrib)
  then have "\<bar>rnd_fin x - x\<bar> = \<bar>of_int (round_even (x / ?u)) - x / ?u\<bar> * ?u" by (simp add: abs_mult)
  also have "\<dots> \<le> 1 / 2 * ?u" using round_even_bounds [of "x / ?u"] by (intro mult_right_mono) auto
  also have "?u \<le> 2 powi (expo x - 52) + 2 powi (- 1074)"
    by (auto simp: ulp_exp_def max_def)
  also have "1 / 2 * (2 powi (expo x - 52) + 2 powi (- 1074)) = (2 powi expo x / 2 ^ 53 + 2 powi (- 1075) :: rat)"
    by (simp add: power_int_diff power_int_minus field_simps)
  also have "\<dots> \<le> \<bar>x\<bar> / 2 ^ 53 + 1 / 2 ^ 1074"
    using expo_bounds [OF False] by (intro add_mono divide_right_mono) (auto simp: power_int_minus field_simps)
  finally show ?thesis by simp
qed simp

section \<open>Values that are their own rounding\<close>

lemma rnd_fin_dyadic_less:
  assumes "\<bar>m\<bar> < 2 ^ 53" "- 1074 \<le> k"
  shows "rnd_fin (of_int m * 2 powi k) = of_int m * 2 powi k"
proof (cases "m = 0")
  case False
  let ?x = "of_int m * 2 powi k :: rat"
  have nz: "?x \<noteq> 0" using False by simp
  have "\<bar>?x\<bar> < 2 powi 53 * 2 powi k"
  proof -
    have "of_int \<bar>m\<bar> < (of_int (2 ^ 53) :: rat)" using assms(1) unfolding of_int_less_iff .
    then have "\<bar>of_int m\<bar> * 2 powi k < (2 powi 53 * 2 powi k :: rat)" by (intro mult_strict_right_mono) simp_all
    then show ?thesis by (simp add: abs_mult)
  qed
  then have "2 powi expo ?x < (2 powi (53 + k) :: rat)"
    using expo_bounds(1) [OF nz] by (simp add: power_int_add)
  then have "expo ?x < 53 + k" using power_int_increasing [of "53 + k" "expo ?x" "2 :: rat"] by fastforce
  then have u: "ulp_exp ?x \<le> k" using assms(2) by (simp add: ulp_exp_def)
  have "of_int (m * 2 ^ nat (k - ulp_exp ?x)) = (of_int m * 2 powi (k - ulp_exp ?x) :: rat)"
    using u by (simp add: power_int_nonneg_exp)
  then have i: "?x / 2 powi ulp_exp ?x = of_int (m * 2 ^ nat (k - ulp_exp ?x))"
    by (simp add: power_int_diff)
  have "rnd_fin ?x = of_int (round_even (?x / 2 powi ulp_exp ?x)) * 2 powi ulp_exp ?x"
    using nz by (simp add: rnd_fin_def)
  also have "\<dots> = ?x" unfolding i round_even_int unfolding i [symmetric] by simp
  finally show ?thesis .
qed simp

lemma rnd_fin_dyadic:
  assumes "\<bar>m\<bar> \<le> 2 ^ 53" "- 1074 \<le> k"
  shows "rnd_fin (of_int m * 2 powi k) = of_int m * 2 powi k"
proof (cases "\<bar>m\<bar> < 2 ^ 53")
  case False
  with assms have "m = 2 ^ 53 \<or> m = - (2 ^ 53)" by linarith
  then have m: "m = 2 * (m div 2)" "\<bar>m div 2\<bar> < 2 ^ 53" by auto
  then have "of_int m * 2 powi k = (of_int (m div 2) * 2 powi (k + 1) :: rat)"
  proof -
    have "of_int m = (of_int (m div 2) * 2 :: rat)" by (subst m(1)) simp
    then show ?thesis by (simp add: power_int_add_1')
  qed
  then show ?thesis using rnd_fin_dyadic_less [of "m div 2" "k + 1"] m(2) assms(2) by simp
qed (use rnd_fin_dyadic_less assms in blast)

lemma rnd_fin_int: "\<bar>m\<bar> \<le> 2 ^ 53 \<Longrightarrow> rnd_fin (of_int m) = of_int m"
  using rnd_fin_dyadic [of m 0] by simp

lemma rnd_fin_1 [simp]: "rnd_fin 1 = 1"
  using rnd_fin_int [of 1] by simp

text \<open>Rounding twice is rounding once.\<close>

lemma rnd_fin_idem: "rnd_fin (rnd_fin x) = rnd_fin x"
proof (cases "x = 0")
  case False
  let ?k = "ulp_exp x"
  have "\<bar>x\<bar> < 2 powi (expo x + 1)" using expo_bounds(2) [OF False] .
  also have "(2 powi (expo x + 1) :: rat) \<le> 2 powi (53 + ?k)"
    by (intro power_int_increasing) (auto simp: ulp_exp_def)
  also have "\<dots> = of_int (2 ^ 53) * 2 powi ?k" by (simp add: power_int_add)
  finally have "x \<le> of_int (2 ^ 53) * 2 powi ?k" "of_int (- (2 ^ 53)) * 2 powi ?k \<le> x" by auto
  from rnd_fin_le [OF this(1)] rnd_fin_ge [OF this(2)]
  have "of_int (round_even (x / 2 powi ?k)) \<le> (of_int (2 ^ 53) :: rat)"
    "of_int (- (2 ^ 53)) \<le> (of_int (round_even (x / 2 powi ?k)) :: rat)"
    using False unfolding rnd_fin_def by (simp_all only: mult_le_cancel_right_pos [OF pow_pos] if_False)
  then have "\<bar>round_even (x / 2 powi ?k)\<bar> \<le> 2 ^ 53" unfolding of_int_le_iff by linarith
  then show ?thesis using rnd_fin_dyadic [of "round_even (x / 2 powi ?k)" ?k] False
    by (simp add: rnd_fin_def ulp_exp_def)
qed simp

lemma rnd_small: "\<bar>x\<bar> \<le> 2 ^ 1000 \<Longrightarrow> rnd x = Fin (rnd_fin x)"
proof -
  assume b: "\<bar>x\<bar> \<le> 2 ^ 1000"
  have "\<bar>x\<bar> / 2 ^ 53 \<le> 2 ^ 1000 / 2 ^ 53" using b by (intro divide_right_mono) auto
  then have "\<bar>rnd_fin x\<bar> \<le> 2 ^ 1000 + (2 ^ 1000 / 2 ^ 53 + 1 / 2 ^ 1074)"
    using rnd_fin_error [of x] b by linarith
  also have "\<dots> < (2 ^ 1024 :: rat)" by simp
  finally show ?thesis by (simp add: rnd_def)
qed

lemma rnd_eqD: "rnd x = Fin v \<Longrightarrow> v = rnd_fin x"
  by (simp add: rnd_def Let_def split: if_splits)

section \<open>What the trajectory code relies on\<close>

locale rounding =
  fixes r :: "rat \<Rightarrow> rat"
  assumes mono: "x \<le> y \<Longrightarrow> r x \<le> r y"
    and zero: "r 0 = 0"
    and one: "r 1 = 1"
    and error: "\<bar>r x - x\<bar> \<le> \<bar>x\<bar> / 2 ^ 53 + 1 / 2 ^ 1074"
begin

lemma nonneg: "0 \<le> x \<Longrightarrow> 0 \<le> r x"
  using mono [of 0 x] zero by simp

lemma nonpos: "x \<le> 0 \<Longrightarrow> r x \<le> 0"
  using mono [of x 0] zero by simp

text \<open>The fraction of a segment that has passed is between 0 and 1.\<close>

lemma fraction:
  assumes "0 \<le> a" "a \<le> b" "0 < r b"
  shows "0 \<le> r (r a / r b)" "r (r a / r b) \<le> 1"
proof -
  have "0 \<le> r a / r b" "r a / r b \<le> 1"
    using mono [OF assms(2)] nonneg [OF assms(1)] assms(3) by simp_all
  then show "0 \<le> r (r a / r b)" "r (r a / r b) \<le> 1"
    using nonneg mono [of "r a / r b" 1] one by auto
qed

lemma near:
  assumes "\<bar>x\<bar> \<le> 32"
  shows "x - 1 / 2 ^ 47 \<le> r x" "r x \<le> x + 1 / 2 ^ 47"
proof -
  have "\<bar>x\<bar> / 2 ^ 53 \<le> 32 / 2 ^ 53" using assms by (intro divide_right_mono) auto
  also have "32 / 2 ^ 53 + 1 / 2 ^ 1074 \<le> (1 / 2 ^ 47 :: rat)" by simp
  finally have "\<bar>r x - x\<bar> \<le> 1 / 2 ^ 47" using error [of x] by linarith
  then show "x - 1 / 2 ^ 47 \<le> r x" "r x \<le> x + 1 / 2 ^ 47" by linarith+
qed

text \<open>Rounded interpolation leaves the interval of its end points by less than \<open>2\<^sup>-\<^sup>4\<^sup>5\<close>.\<close>

lemma lerp_upper:
  assumes a: "lo \<le> a" "a \<le> hi" and b: "lo \<le> b" "b \<le> hi" and l: "- 8 \<le> lo" "hi \<le> 8"
    and t: "0 \<le> t" "t \<le> 1"
  shows "r (a + r (t * r (b - a))) \<le> hi + 1 / 2 ^ 45"
proof -
  let ?d = "r (b - a)"
  have d: "\<bar>b - a\<bar> \<le> 16" using a b l by linarith
  have d1: "b - a - 1 / 2 ^ 47 \<le> ?d" "?d \<le> b - a + 1 / 2 ^ 47" by (rule near; use d in linarith)+
  have "t * ?d \<le> max 0 ?d"
    using t by (cases "0 \<le> ?d") (auto simp: mult_left_le_one_le mult_nonneg_nonpos max_def)
  from mono [OF this] have "r (t * ?d) \<le> r (max 0 ?d)" .
  also have "\<dots> \<le> max 0 ?d + 1 / 2 ^ 47" by (rule near) (use d d1 in \<open>simp add: max_def abs_le_iff\<close>)
  also have "\<dots> \<le> max 0 (b - a) + 1 / 2 ^ 46" using d1 by (simp add: max_def)
  finally have up: "a + r (t * ?d) \<le> hi + 1 / 2 ^ 46" using a b by (simp add: max_def split: if_splits)
  have "r (a + r (t * ?d)) \<le> r (hi + 1 / 2 ^ 46)" using mono [OF up] .
  also have "\<dots> \<le> hi + 1 / 2 ^ 46 + 1 / 2 ^ 47" by (rule near) (use a l in \<open>simp add: abs_le_iff\<close>)
  finally show ?thesis by simp
qed

lemma lerp_lower:
  assumes a: "lo \<le> a" "a \<le> hi" and b: "lo \<le> b" "b \<le> hi" and l: "- 8 \<le> lo" "hi \<le> 8"
    and t: "0 \<le> t" "t \<le> 1"
  shows "lo - 1 / 2 ^ 45 \<le> r (a + r (t * r (b - a)))"
proof -
  let ?d = "r (b - a)"
  have d: "\<bar>b - a\<bar> \<le> 16" using a b l by linarith
  have d1: "b - a - 1 / 2 ^ 47 \<le> ?d" "?d \<le> b - a + 1 / 2 ^ 47" by (rule near; use d in linarith)+
  have "min 0 ?d \<le> t * ?d"
    using t by (cases "0 \<le> ?d") (auto simp: mult_le_cancel_right1 min_def)
  from mono [OF this] have "r (min 0 ?d) \<le> r (t * ?d)" .
  moreover have "min 0 ?d - 1 / 2 ^ 47 \<le> r (min 0 ?d)"
    by (rule near) (use d d1 in \<open>simp add: min_def abs_le_iff\<close>)
  moreover have "min 0 (b - a) - 1 / 2 ^ 47 \<le> min 0 ?d" using d1 by (simp add: min_def)
  ultimately have "min 0 (b - a) - 1 / 2 ^ 47 - 1 / 2 ^ 47 \<le> r (t * ?d)" by linarith
  then have "min 0 (b - a) - 1 / 2 ^ 46 \<le> r (t * ?d)" by simp
  then have lo: "lo - 1 / 2 ^ 46 \<le> a + r (t * ?d)" using a b by (simp add: min_def split: if_splits)
  have "lo - 1 / 2 ^ 46 - 1 / 2 ^ 47 \<le> r (lo - 1 / 2 ^ 46)"
    by (rule near) (use a l in \<open>simp add: abs_le_iff\<close>)
  also have "\<dots> \<le> r (a + r (t * ?d))" using mono [OF lo] .
  finally show ?thesis by simp
qed

text \<open>Adding a period of at least half a millisecond makes progress as long as the clock is
  below \<open>2\<^sup>4\<^sup>0\<close> seconds.\<close>

lemma clock_advances:
  assumes "0 \<le> e" "e \<le> 2 ^ 40" "1 / 2048 \<le> p" "p \<le> 1"
  shows "e + p / 2 \<le> r (e + p)"
proof -
  have "\<bar>e + p\<bar> / 2 ^ 53 \<le> (2 ^ 40 + 1) / 2 ^ 53" using assms by (intro divide_right_mono) auto
  also have "(2 ^ 40 + 1) / 2 ^ 53 + 1 / 2 ^ 1074 \<le> (1 / 4096 :: rat)" by simp
  finally show ?thesis using error [of "e + p"] assms by linarith
qed

end

interpretation binary64: rounding rnd_fin
  by unfold_locales (use rnd_fin_mono rnd_fin_error in auto)

end
