(* ===== verification/Shm.thy ===== *)
theory Shm
  imports Binary64
begin

text \<open>
  The two shared memory segments of the application (inc/shm.h, src/shm.cpp): what they hold,
  and how processes attach to and detach from them. The kernel's table of System V segments is
  \<open>shm_os\<close>: segments by identifier, and the identifier a key currently names. A segment that is
  marked for removal loses its key but keeps its contents for whoever is still attached.
\<close>

section \<open>Layout\<close>

definition Hand_Num :: nat where "Hand_Num = 1"
definition Hand_DOF :: nat where "Hand_DOF = 16"
definition Kinesthetic_Sensor_Num :: nat where "Kinesthetic_Sensor_Num = 4"
definition Kinesthetic_Sensor_DOF :: nat where "Kinesthetic_Sensor_DOF = 3"
definition Tactile_Sensor_Num :: nat where "Tactile_Sensor_Num = 60"
definition Finger_Num :: nat where "Finger_Num = 4"
definition Cartesian_DOF :: nat where "Cartesian_DOF = 3"
definition Quaternion_DOF :: nat where "Quaternion_DOF = 4"
definition Arm_Num :: nat where "Arm_Num = 1"
definition Arm_DOF :: nat where "Arm_DOF = 7"
definition Glove_Num :: nat where "Glove_Num = 1"
definition Glove_Tactile_Sensor_Num :: nat where "Glove_Tactile_Sensor_Num = 16"
definition ARM_TRAJ_MAX_PTS :: nat where "ARM_TRAJ_MAX_PTS = 1000"

lemmas shm_dims [simp] = Hand_Num_def Hand_DOF_def Kinesthetic_Sensor_Num_def
  Kinesthetic_Sensor_DOF_def Tactile_Sensor_Num_def Finger_Num_def Cartesian_DOF_def
  Quaternion_DOF_def Arm_Num_def Arm_DOF_def Glove_Num_def Glove_Tactile_Sensor_Num_def
  ARM_TRAJ_MAX_PTS_def

definition ARM_TRAJ_IDLE :: int where "ARM_TRAJ_IDLE = 0"
definition ARM_TRAJ_PENDING :: int where "ARM_TRAJ_PENDING = 1"
definition ARM_TRAJ_EXECUTING :: int where "ARM_TRAJ_EXECUTING = 2"
definition ARM_TRAJ_DONE :: int where "ARM_TRAJ_DONE = 3"

lemmas traj_states = ARM_TRAJ_IDLE_def ARM_TRAJ_PENDING_def ARM_TRAJ_EXECUTING_def ARM_TRAJ_DONE_def

text \<open>The single arm of the program is index 0 of the arrays over \<open>Arm_Num\<close>.\<close>

record ArmTrajBuf =
  tb_q :: "dbl list list"
  tb_t :: "dbl list"
  tb_len :: int
  tb_state :: int

record ArmTrajShm =
  Arm_traj :: "ArmTrajBuf list"
  traj_process_num :: u32

record SHMmsgs =
  hand_mode :: bytes
  servo_on :: bytes
  j_pos :: "u16 list list"
  j_tar :: "u16 list list"
  j_cur :: "u16 list list"
  j_kin :: "u16 list list list"
  j_tac :: "u16 list list"
  tip_pos :: "real list list list"
  tip_quat :: "real list list list"
  Arm_j_pos :: "dbl list list"
  Arm_j_tar :: "dbl list list"
  Arm_j_vel :: "dbl list list"
  Arm_C_Pos :: "dbl list list"
  Arm_j_tq :: "dbl list list"
  Arm_Speed_Factor :: "dbl list"
  g_pos :: "u16 list"
  g_tac :: "u16 list list"
  process_num :: u32

definition zero_traj_buf :: ArmTrajBuf where
  "zero_traj_buf = \<lparr>tb_q = replicate ARM_TRAJ_MAX_PTS (replicate Arm_DOF (Fin 0)),
     tb_t = replicate ARM_TRAJ_MAX_PTS (Fin 0), tb_len = 0, tb_state = 0\<rparr>"

definition zero_traj_shm :: ArmTrajShm where
  "zero_traj_shm = \<lparr>Arm_traj = replicate Arm_Num zero_traj_buf, traj_process_num = 0\<rparr>"

definition zero_shm :: SHMmsgs where
  "zero_shm = \<lparr>hand_mode = replicate Hand_Num 0, servo_on = replicate Hand_Num 0,
     j_pos = replicate Hand_Num (replicate Hand_DOF 0),
     j_tar = replicate Hand_Num (replicate Hand_DOF 0),
     j_cur = replicate Hand_Num (replicate Hand_DOF 0),
     j_kin = replicate Hand_Num (replicate Kinesthetic_Sensor_Num (replicate Kinesthetic_Sensor_DOF 0)),
     j_tac = replicate Hand_Num (replicate Tactile_Sensor_Num 0),
     tip_pos = replicate Hand_Num (replicate Finger_Num (replicate Cartesian_DOF 0)),
     tip_quat = replicate Hand_Num (replicate Finger_Num (replicate Quaternion_DOF 0)),
     Arm_j_pos = replicate Arm_Num (replicate Arm_DOF (Fin 0)),
     Arm_j_tar = replicate Arm_Num (replicate Arm_DOF (Fin 0)),
     Arm_j_vel = replicate Arm_Num (replicate Arm_DOF (Fin 0)),
     Arm_C_Pos = replicate Arm_Num (replicate 16 (Fin 0)),
     Arm_j_tq = replicate Arm_Num (replicate Arm_DOF (Fin 0)),
     Arm_Speed_Factor = replicate Arm_Num (Fin 0),
     g_pos = replicate Glove_Num 0,
     g_tac = replicate Glove_Num (replicate Glove_Tactile_Sensor_Num 0),
     process_num = 0\<rparr>"

section \<open>System V shared memory\<close>

record 'a shm_os =
  seg :: "nat \<Rightarrow> 'a"
  key_of :: "int \<Rightarrow> nat option"
  fresh :: nat

text \<open>\<open>shmget\<close> with \<open>IPC_CREAT\<close>: the segment of the key, or a new one filled with zeros.\<close>

definition shmget_creat :: "'a \<Rightarrow> int \<Rightarrow> 'a shm_os \<Rightarrow> nat \<times> 'a shm_os" where
  "shmget_creat z key s = (case key_of s key of
       Some i \<Rightarrow> (i, s)
     | None \<Rightarrow> (fresh s, s\<lparr>seg := (seg s)(fresh s := z), key_of := (key_of s)(key \<mapsto> fresh s),
         fresh := fresh s + 1\<rparr>))"

definition shmctl_rmid :: "nat \<Rightarrow> 'a shm_os \<Rightarrow> 'a shm_os" where
  "shmctl_rmid i s = s\<lparr>key_of := (\<lambda>k. if key_of s k = Some i then None else key_of s k)\<rparr>"

definition upd_seg :: "nat \<Rightarrow> ('a \<Rightarrow> 'a) \<Rightarrow> 'a shm_os \<Rightarrow> 'a shm_os" where
  "upd_seg i f s = s\<lparr>seg := (seg s)(i := f (seg s i))\<rparr>"

text \<open>\<open>init_shm\<close> either leaves the process or returns with the segment attached; \<open>get_ok\<close> and
  \<open>at_ok\<close> are the answers of the two system calls.\<close>

datatype attach = Exited | Attached nat

definition init_shm :: "bool \<Rightarrow> bool \<Rightarrow> int \<Rightarrow> SHMmsgs shm_os \<Rightarrow> attach \<times> SHMmsgs shm_os" where
  "init_shm get_ok at_ok key s =
     (if \<not> get_ok then (Exited, s)
      else let (i, s1) = shmget_creat zero_shm key s in
        if \<not> at_ok then (Exited, s1)
        else let s2 = (if process_num (seg s1 i) = 0
                 then upd_seg i (\<lambda>_. zero_shm\<lparr>Arm_Speed_Factor := replicate Arm_Num (rnd (1 / 10))\<rparr>) s1
                 else s1)
          in (Attached i, upd_seg i (\<lambda>m. m\<lparr>process_num := process_num m + 1\<rparr>) s2))"

definition deleteSharedMemory :: "bool \<Rightarrow> nat option \<Rightarrow> SHMmsgs shm_os \<Rightarrow> SHMmsgs shm_os" where
  "deleteSharedMemory rm_ok ref s = (case ref of
       None \<Rightarrow> s
     | Some i \<Rightarrow>
         let s1 = upd_seg i (\<lambda>m. m\<lparr>process_num := process_num m - 1\<rparr>) s
         in if process_num (seg s1 i) = 0 \<and> rm_ok then shmctl_rmid i s1 else s1)"

definition init_arm_traj_shm :: "bool \<Rightarrow> bool \<Rightarrow> int \<Rightarrow> ArmTrajShm shm_os \<Rightarrow> attach \<times> ArmTrajShm shm_os" where
  "init_arm_traj_shm get_ok at_ok key s =
     (if \<not> get_ok then (Exited, s)
      else let (i, s1) = shmget_creat zero_traj_shm key s in
        if \<not> at_ok then (Exited, s1)
        else let s2 = (if traj_process_num (seg s1 i) = 0
                 then upd_seg i (\<lambda>_. zero_traj_shm\<lparr>Arm_traj := replicate Arm_Num
                        (zero_traj_buf\<lparr>tb_state := ARM_TRAJ_IDLE, tb_len := 0\<rparr>)\<rparr>) s1
                 else s1)
          in (Attached i, upd_seg i (\<lambda>m. m\<lparr>traj_process_num := traj_process_num m + 1\<rparr>) s2))"

definition deleteArmTrajSharedMemory :: "bool \<Rightarrow> nat option \<Rightarrow> ArmTrajShm shm_os \<Rightarrow> ArmTrajShm shm_os" where
  "deleteArmTrajSharedMemory rm_ok ref s = (case ref of
       None \<Rightarrow> s
     | Some i \<Rightarrow>
         let s1 = upd_seg i (\<lambda>m. m\<lparr>traj_process_num := traj_process_num m - 1\<rparr>) s
         in if traj_process_num (seg s1 i) = 0 \<and> rm_ok then shmctl_rmid i s1 else s1)"

section \<open>Counting the processes attached\<close>

text \<open>
  Both segments count their users in a field and remove themselves with the last one. A history
  of a segment is a list of uses; \<open>holders\<close> is how many users are left after it and \<open>use_ok\<close> says
  that nobody leaves or writes who has not joined.
\<close>

datatype 'a use = Join | Leave | Write "'a \<Rightarrow> 'a"

fun holders :: "nat \<Rightarrow> 'a use list \<Rightarrow> nat" where
  "holders n [] = n"
| "holders n (Join # us) = holders (n + 1) us"
| "holders n (Leave # us) = holders (n - 1) us"
| "holders n (Write f # us) = holders n us"

fun use_ok :: "('a \<Rightarrow> u32) \<Rightarrow> nat \<Rightarrow> 'a use list \<Rightarrow> bool" where
  "use_ok c n [] \<longleftrightarrow> True"
| "use_ok c n (Join # us) \<longleftrightarrow> n + 1 < 2 ^ 32 \<and> use_ok c (n + 1) us"
| "use_ok c n (Leave # us) \<longleftrightarrow> 0 < n \<and> use_ok c (n - 1) us"
| "use_ok c n (Write f # us) \<longleftrightarrow> 0 < n \<and> (\<forall>m. c (f m) = c m) \<and> use_ok c n us"

fun run_uses :: "(int \<Rightarrow> 'a shm_os \<Rightarrow> attach \<times> 'a shm_os) \<Rightarrow> (nat option \<Rightarrow> 'a shm_os \<Rightarrow> 'a shm_os)
    \<Rightarrow> int \<Rightarrow> 'a use list \<Rightarrow> 'a shm_os \<Rightarrow> 'a shm_os" where
  "run_uses a d k [] s = s"
| "run_uses a d k (Join # us) s = run_uses a d k us (snd (a k s))"
| "run_uses a d k (Leave # us) s = run_uses a d k us (d (key_of s k) s)"
| "run_uses a d k (Write f # us) s = run_uses a d k us
     (case key_of s k of None \<Rightarrow> s | Some i \<Rightarrow> upd_seg i f s)"

locale counted_segment =
  fixes attach :: "int \<Rightarrow> 'a shm_os \<Rightarrow> attach \<times> 'a shm_os"
    and detach :: "nat option \<Rightarrow> 'a shm_os \<Rightarrow> 'a shm_os"
    and users :: "'a \<Rightarrow> u32"
  assumes attach_new: "key_of s k = None \<Longrightarrow> \<exists>i. key_of (snd (attach k s)) k = Some i \<and>
      users (seg (snd (attach k s)) i) = 1"
    and attach_old: "key_of s k = Some i \<Longrightarrow> key_of (snd (attach k s)) k = Some i \<and>
      users (seg (snd (attach k s)) i) = users (seg s i) + 1"
    and detach_last: "key_of s k = Some i \<Longrightarrow> users (seg s i) = 1 \<Longrightarrow>
      key_of (detach (Some i) s) k = None"
    and detach_other: "key_of s k = Some i \<Longrightarrow> users (seg s i) \<noteq> 1 \<Longrightarrow>
      key_of (detach (Some i) s) k = Some i \<and> users (seg (detach (Some i) s) i) = users (seg s i) - 1"
begin

definition counts :: "int \<Rightarrow> nat \<Rightarrow> 'a shm_os \<Rightarrow> bool" where
  "counts k n s \<longleftrightarrow> n < 2 ^ 32 \<and>
     (case key_of s k of None \<Rightarrow> n = 0 | Some i \<Rightarrow> 0 < n \<and> users (seg s i) = of_nat n)"

lemma counts_join:
  assumes "counts k n s" "n + 1 < 2 ^ 32"
  shows "counts k (n + 1) (snd (attach k s))"
proof (cases "key_of s k")
  case None
  with attach_new [of s k] assms show ?thesis by (auto simp: counts_def)
next
  case (Some i)
  with attach_old [of s k i] assms show ?thesis by (simp add: counts_def)
qed

lemma counts_leave:
  assumes "counts k n s" "0 < n"
  shows "counts k (n - 1) (detach (key_of s k) s)"
proof (cases "key_of s k")
  case None
  with assms show ?thesis by (simp add: counts_def)
next
  case (Some i)
  with assms have u: "users (seg s i) = of_nat n" and n: "n < 2 ^ 32" by (simp_all add: counts_def)
  have "(of_nat n :: u32) = of_nat 1 \<longleftrightarrow> n = 1"
    using n by (subst word_of_nat_eq_iff) (simp add: take_bit_nat_eq_self)
  then have one: "users (seg s i) = 1 \<longleftrightarrow> n = 1" by (simp add: u)
  show ?thesis
  proof (cases "n = 1")
    case True
    with detach_last [OF Some] one Some show ?thesis by (simp add: counts_def)
  next
    case False
    with detach_other [OF Some] one u n assms(2) Some show ?thesis by (simp add: counts_def of_nat_diff)
  qed
qed

lemma run_counts:
  "counts k n s \<Longrightarrow> use_ok users n us \<Longrightarrow> counts k (holders n us) (run_uses attach detach k us s)"
proof (induction us arbitrary: n s)
  case (Cons u us)
  show ?case
  proof (cases u)
    case Join
    with Cons counts_join show ?thesis by simp
  next
    case Leave
    with Cons counts_leave show ?thesis by simp
  next
    case (Write f)
    with Cons.prems have "counts k n (case key_of s k of None \<Rightarrow> s | Some i \<Rightarrow> upd_seg i f s)"
      by (auto simp: counts_def upd_seg_def split: option.splits)
    with Cons Write show ?thesis by simp
  qed
qed simp

lemma from_empty:
  "key_of s k = None \<Longrightarrow> use_ok users 0 us \<Longrightarrow> counts k (holders 0 us) (run_uses attach detach k us s)"
  by (rule run_counts) (simp_all add: counts_def)

end

lemmas shm_ops = shmget_creat_def shmctl_rmid_def upd_seg_def

interpretation msgs: counted_segment "init_shm True True" "deleteSharedMemory True" process_num
  by unfold_locales (auto simp: init_shm_def deleteSharedMemory_def shm_ops zero_shm_def Let_def split: option.splits if_splits)

interpretation traj: counted_segment "init_arm_traj_shm True True" "deleteArmTrajSharedMemory True" traj_process_num
  by unfold_locales (auto simp: init_arm_traj_shm_def deleteArmTrajSharedMemory_def shm_ops zero_traj_shm_def Let_def split: option.splits if_splits)

text \<open>
  C36: A segment counts its users: after any history of joining, leaving and writing that starts
  without the segment, the message segment exists exactly when somebody still holds it, and its
  \<open>process_num\<close> is then the number of holders; the trajectory segment counts the same way.
\<close>

theorem segments_count_holders:
  assumes "key_of s k = None" "use_ok process_num 0 us" "key_of s' k' = None" "use_ok traj_process_num 0 us'"
  shows "(case key_of (run_uses (init_shm True True) (deleteSharedMemory True) k us s) k of
      None \<Rightarrow> holders 0 us = 0
    | Some i \<Rightarrow> 0 < holders 0 us \<and>
        process_num (seg (run_uses (init_shm True True) (deleteSharedMemory True) k us s) i) = of_nat (holders 0 us)) \<and>
    (case key_of (run_uses (init_arm_traj_shm True True) (deleteArmTrajSharedMemory True) k' us' s') k' of
      None \<Rightarrow> holders 0 us' = 0
    | Some i \<Rightarrow> 0 < holders 0 us' \<and>
        traj_process_num (seg (run_uses (init_arm_traj_shm True True) (deleteArmTrajSharedMemory True) k' us' s') i)
          = of_nat (holders 0 us'))"
  using msgs.from_empty [OF assms(1,2)] traj.from_empty [OF assms(3,4)]
  by (simp add: msgs.counts_def traj.counts_def)

definition empty_os :: "'a \<Rightarrow> 'a shm_os" where
  "empty_os z = \<lparr>seg = (\<lambda>_. z), key_of = (\<lambda>_. None), fresh = 0\<rparr>"

theorem segments_count_holders_witness:
  "case key_of (run_uses (init_shm True True) (deleteSharedMemory True) 14641 [Join, Join, Leave] (empty_os zero_shm)) 14641 of
      None \<Rightarrow> holders 0 [Join, Join, Leave :: SHMmsgs use] = 0
    | Some i \<Rightarrow> 0 < holders 0 [Join, Join, Leave :: SHMmsgs use] \<and>
        process_num (seg (run_uses (init_shm True True) (deleteSharedMemory True) 14641 [Join, Join, Leave] (empty_os zero_shm)) i)
          = of_nat (holders 0 [Join, Join, Leave :: SHMmsgs use])"
  by (rule segments_count_holders [where s' = "empty_os zero_traj_shm" and us' = "[]" and k' = 0, THEN conjunct1])
    (simp_all add: empty_os_def)

text \<open>
  The program attaches the message segment three times (hand thread, arm thread, printer)
  and lets go of it once when it stops. So the segment outlives the program with two users that
  no longer exist, and the next start is not a clean one: whatever servo flags and joint targets
  were written last are still there.
\<close>

theorem restart_is_not_clean:
  "let s = run_uses (init_shm True True) (deleteSharedMemory True) k
       [Join, Join, Join, Write (\<lambda>m. m\<lparr>servo_on := v, j_tar := w\<rparr>), Leave] (empty_os zero_shm);
     t = snd (init_shm True True k s)
   in \<exists>i. key_of s k = Some i \<and> process_num (seg s i) = 2 \<and>
        key_of t k = Some i \<and> servo_on (seg t i) = v \<and> j_tar (seg t i) = w"
  by (simp add: empty_os_def init_shm_def deleteSharedMemory_def shm_ops zero_shm_def Let_def)

end
