(* ===== verification/Arm_Trajectory.thy ===== *)
theory Arm_Trajectory
  imports Shm
begin

text \<open>
  The arm controller of src/franka_right_arm.cpp: the checks on targets and waypoints, the copy
  of a trajectory out of shared memory, the interpolating callback that libfranka drives, and
  \<open>executeTrajFromShm\<close> as a whole. libfranka is the environment: \<open>robot_event\<close>s are what its
  control loop does, call the callback with a state and a period, or throw. A read outside a
  \<open>std::vector\<close> is \<open>None\<close>.
\<close>

section \<open>Constants\<close>

definition kRightArmIndex :: nat where "kRightArmIndex = 0"
definition kTargetEps :: dbl where "kTargetEps = rnd (1 / 10000)"
definition kDefaultSpeedFactor :: dbl where "kDefaultSpeedFactor = rnd (1 / 10)"
definition kMinSpeedFactor :: dbl where "kMinSpeedFactor = rnd (1 / 1000)"
definition kMaxSpeedFactor :: dbl where "kMaxSpeedFactor = Fin 1"

definition kFr3LowerJointLimits :: "dbl list" where
  "kFr3LowerJointLimits = [rnd (- 27437 / 10000), rnd (- 17837 / 10000), rnd (- 29007 / 10000),
     rnd (- 30421 / 10000), rnd (- 28065 / 10000), rnd (5445 / 10000), rnd (- 30159 / 10000)]"

definition kFr3UpperJointLimits :: "dbl list" where
  "kFr3UpperJointLimits = [rnd (27437 / 10000), rnd (17837 / 10000), rnd (29007 / 10000),
     rnd (- 1518 / 10000), rnd (28065 / 10000), rnd (45169 / 10000), rnd (30159 / 10000)]"

type_synonym joints = "dbl list"

section \<open>Shared memory access\<close>

record robot_state =
  rs_q :: joints
  rs_dq :: joints
  rs_tau_J :: joints
  rs_O_T_EE :: "dbl list"

definition publish_joints :: "robot_state \<Rightarrow> SHMmsgs \<Rightarrow> SHMmsgs" where
  "publish_joints st m = m\<lparr>
     Arm_j_pos := (Arm_j_pos m)[kRightArmIndex := take Arm_DOF (rs_q st)],
     Arm_j_vel := (Arm_j_vel m)[kRightArmIndex := take Arm_DOF (rs_dq st)],
     Arm_j_tq := (Arm_j_tq m)[kRightArmIndex := take Arm_DOF (rs_tau_J st)]\<rparr>"

definition updateRightArmStateToShm :: "robot_state \<Rightarrow> SHMmsgs option \<Rightarrow> SHMmsgs option" where
  "updateRightArmStateToShm st = map_option (\<lambda>m. (publish_joints st m)\<lparr>
     Arm_C_Pos := (Arm_C_Pos m)[kRightArmIndex := take 16 (rs_O_T_EE st)]\<rparr>)"

definition readRightArmTargetFromShm :: "SHMmsgs option \<Rightarrow> joints \<Rightarrow> joints" where
  "readRightArmTargetFromShm shm fallback = (case shm of
     None \<Rightarrow> fallback | Some m \<Rightarrow> take Arm_DOF (Arm_j_tar m ! kRightArmIndex))"

definition readRightArmSpeedFromShm :: "SHMmsgs option \<Rightarrow> dbl \<Rightarrow> dbl" where
  "readRightArmSpeedFromShm shm fallback = (case shm of
     None \<Rightarrow> fallback | Some m \<Rightarrow> Arm_Speed_Factor m ! kRightArmIndex)"

definition upd_traj :: "(ArmTrajBuf \<Rightarrow> ArmTrajBuf) \<Rightarrow> ArmTrajShm \<Rightarrow> ArmTrajShm" where
  "upd_traj f t = t\<lparr>Arm_traj := (Arm_traj t)[kRightArmIndex := f (Arm_traj t ! kRightArmIndex)]\<rparr>"

definition traj_set_state :: "int \<Rightarrow> ArmTrajShm \<Rightarrow> ArmTrajShm" where
  "traj_set_state v = upd_traj (\<lambda>b. b\<lparr>tb_state := v\<rparr>)"

definition markTrajectoryDone :: "ArmTrajShm option \<Rightarrow> ArmTrajShm option" where
  "markTrajectoryDone = map_option (traj_set_state ARM_TRAJ_DONE)"

section \<open>Checks\<close>

definition sanitizeSpeedFactor :: "dbl \<Rightarrow> dbl \<Rightarrow> dbl" where
  "sanitizeSpeedFactor speed fallback =
     (if \<not> d_finite speed then fallback
      else if d_lt speed kMinSpeedFactor then kMinSpeedFactor
      else if d_lt kMaxSpeedFactor speed then kMaxSpeedFactor
      else speed)"

definition isTargetChanged :: "joints \<Rightarrow> joints \<Rightarrow> bool" where
  "isTargetChanged a b = list_ex (\<lambda>(x, y). d_lt kTargetEps (d_abs (d_sub x y))) (zip a b)"

fun validate_joint :: "dbl \<Rightarrow> dbl \<times> dbl \<Rightarrow> bool" where
  "validate_joint q (lo, hi) = (d_finite q \<and> \<not> (d_lt q lo \<or> d_lt hi q))"

definition validateWaypoint :: "joints \<Rightarrow> bool" where
  "validateWaypoint q = list_all (\<lambda>(x, l). validate_joint x l)
     (zip (take Arm_DOF q) (zip kFr3LowerJointLimits kFr3UpperJointLimits))"

definition lerp7 :: "joints \<Rightarrow> joints \<Rightarrow> dbl \<Rightarrow> joints" where
  "lerp7 a b alpha = map (\<lambda>(x, y). d_add x (d_mul alpha (d_sub y x))) (zip a b)"

section \<open>Copying a trajectory out of shared memory\<close>

type_synonym local_traj = "joints list \<times> dbl list"

definition copy_point :: "ArmTrajBuf \<Rightarrow> nat \<Rightarrow> local_traj \<Rightarrow> local_traj option" where
  "copy_point b i = (\<lambda>(ws, ts).
     let q = take Arm_DOF (tb_q b ! i); t = tb_t b ! i
     in if \<not> validateWaypoint q then None
        else if \<not> d_finite t \<or> d_lt t (Fin 0) \<or> (0 < i \<and> d_le t (ts ! (i - 1))) then None
        else Some (ws @ [q], ts @ [t]))"

fun copy_points :: "ArmTrajBuf \<Rightarrow> nat \<Rightarrow> nat \<Rightarrow> local_traj \<Rightarrow> local_traj option" where
  "copy_points b i 0 acc = Some acc"
| "copy_points b i (Suc n) acc = (case copy_point b i acc of
       None \<Rightarrow> None | Some acc' \<Rightarrow> copy_points b (i + 1) n acc')"

text \<open>The block under the lock: \<open>None\<close> is each of its early returns, which leave the state at
  \<open>ARM_TRAJ_DONE\<close>.\<close>

definition copy_trajectory :: "ArmTrajShm \<Rightarrow> local_traj option \<times> ArmTrajShm" where
  "copy_trajectory t =
     (let t1 = traj_set_state ARM_TRAJ_EXECUTING t;
          b = Arm_traj t1 ! kRightArmIndex;
          len = tb_len b
      in if len \<le> 0 \<or> int ARM_TRAJ_MAX_PTS < len then (None, traj_set_state ARM_TRAJ_DONE t1)
         else case copy_points b 0 (nat len) ([], []) of
             None \<Rightarrow> (None, traj_set_state ARM_TRAJ_DONE t1)
           | Some l \<Rightarrow> (Some l, t1))"

section \<open>The control callback\<close>

datatype command = JointPositions joints | MotionFinished joints

definition get_at :: "'a list \<Rightarrow> nat \<Rightarrow> 'a option" where
  "get_at xs i = (if i < length xs then Some (xs ! i) else None)"

definition find_seg :: "dbl list \<Rightarrow> dbl \<Rightarrow> nat" where
  "find_seg ts elapsed = (case find (\<lambda>i. d_le (ts ! i) elapsed \<and> d_lt elapsed (ts ! (i + 1)))
       [0..<length ts - 1] of
     Some i \<Rightarrow> i | None \<Rightarrow> 0)"

definition seg_alpha :: "dbl \<Rightarrow> dbl \<Rightarrow> dbl \<Rightarrow> dbl" where
  "seg_alpha elapsed t0 t1 = (let dt = d_sub t1 t0
     in if d_lt (rnd (1 / 10 ^ 9)) dt then d_div (d_sub elapsed t0) dt else Fin 0)"

definition desired :: "local_traj \<Rightarrow> dbl \<Rightarrow> joints option" where
  "desired l elapsed = (let (ws, ts) = l; n = length ts
     in if d_le (ts ! (n - 1)) elapsed then Some (ws ! (n - 1))
        else let s = find_seg ts elapsed
          in do { t1 \<leftarrow> get_at ts (s + 1); t0 \<leftarrow> get_at ts s;
                  w0 \<leftarrow> get_at ws s; w1 \<leftarrow> get_at ws (s + 1);
                  Some (lerp7 w0 w1 (seg_alpha elapsed t0 t1)) })"

definition control_callback ::
  "local_traj \<Rightarrow> dbl \<Rightarrow> robot_state \<Rightarrow> dbl \<Rightarrow> SHMmsgs \<Rightarrow> (dbl \<times> SHMmsgs \<times> command) option" where
  "control_callback l elapsed st period m = (let (ws, ts) = l; n = length ts;
       e = d_add elapsed period; m1 = publish_joints st m
     in do { q \<leftarrow> desired l e;
             Some (e, m1, if d_le (d_add (ts ! (n - 1)) (rnd (5 / 100))) e
                          then MotionFinished (ws ! (n - 1)) else JointPositions q) })"

section \<open>Executing a trajectory\<close>

datatype robot_event = Tick robot_state dbl | Throw

datatype outcome = Ended | Thrown | Running

fun control_run :: "local_traj \<Rightarrow> robot_event list \<Rightarrow> dbl \<Rightarrow> SHMmsgs \<Rightarrow>
    (outcome \<times> SHMmsgs \<times> command list) option" where
  "control_run l [] e m = Some (Running, m, [])"
| "control_run l (Throw # evs) e m = Some (Thrown, m, [])"
| "control_run l (Tick st p # evs) e m = do {
     (e1, m1, c) \<leftarrow> control_callback l e st p m;
     (case c of
        MotionFinished _ \<Rightarrow> Some (Ended, m1, [c])
      | JointPositions _ \<Rightarrow> do {
          (r, m2, cs) \<leftarrow> control_run l evs e1 m1;
          Some (r, m2, c # cs) }) }"

datatype exec_result = Returned joints | Exception | Moving

definition executeTrajFromShm :: "robot_event list \<Rightarrow> SHMmsgs option \<Rightarrow> ArmTrajShm option \<Rightarrow>
    (exec_result \<times> SHMmsgs option \<times> ArmTrajShm option \<times> command list) option" where
  "executeTrajFromShm evs shm traj = (case (shm, traj) of
     (Some m, Some t) \<Rightarrow> (case copy_trajectory t of
         (None, t1) \<Rightarrow> Some (Returned (replicate Arm_DOF (Fin 0)), Some m, Some t1, [])
       | (Some l, t1) \<Rightarrow> do {
           (r, m1, cs) \<leftarrow> control_run l evs (Fin 0) m;
           (case r of
              Running \<Rightarrow> Some (Moving, Some m1, Some t1, cs)
            | Thrown \<Rightarrow> Some (Exception, Some m1, markTrajectoryDone (Some t1), cs)
            | Ended \<Rightarrow> let q_last = last (fst l) in
                Some (Returned q_last,
                  Some (m1\<lparr>Arm_j_tar := (Arm_j_tar m1)[kRightArmIndex := take Arm_DOF q_last]\<rparr>),
                  Some (traj_set_state ARM_TRAJ_DONE t1), cs)) })
   | _ \<Rightarrow> Some (Returned (replicate Arm_DOF (Fin 0)), shm, traj, []))"

end
