(* ===== verification/Arm_Bridge.thy ===== *)
theory Arm_Bridge
  imports Arm_Trajectory
begin

text \<open>
  The ROS 2 node of ros2/kistar_hand_bridge: the handlers that carry messages into the two
  shared memory segments and the periodic publication out of them. A handler that returns early
  leaves the memory as it is. The node takes its own mutex, which the controller does not know,
  so what the controller can observe is the order of single stores; a trajectory message is
  therefore first turned into its list of stores.
\<close>

section \<open>Targets and modes\<close>

definition on_franka_target :: "dbl list \<Rightarrow> SHMmsgs \<Rightarrow> SHMmsgs" where
  "on_franka_target data m = (if length data \<noteq> Arm_DOF then m
     else m\<lparr>Arm_j_tar := (Arm_j_tar m)[0 := take Arm_DOF data]\<rparr>)"

definition clamp_speed :: "dbl \<Rightarrow> dbl" where
  "clamp_speed speed = (if d_lt speed (rnd (1 / 1000)) then rnd (1 / 1000)
     else if d_lt (Fin 1) speed then Fin 1 else speed)"

definition on_franka_speed :: "dbl \<Rightarrow> SHMmsgs \<Rightarrow> SHMmsgs" where
  "on_franka_speed data m = m\<lparr>Arm_Speed_Factor := (Arm_Speed_Factor m)[0 := clamp_speed data]\<rparr>"

definition on_hand_target :: "u16 list \<Rightarrow> SHMmsgs \<Rightarrow> SHMmsgs" where
  "on_hand_target data m = (if length data \<noteq> Hand_DOF then m
     else m\<lparr>j_tar := (j_tar m)[0 := take Hand_DOF data]\<rparr>)"

definition on_hand_mode :: "u32 \<Rightarrow> SHMmsgs \<Rightarrow> SHMmsgs" where
  "on_hand_mode data m = m\<lparr>hand_mode := (hand_mode m)[0 := ucast data]\<rparr>"

definition on_hand_servo_on :: "u32 \<Rightarrow> SHMmsgs \<Rightarrow> SHMmsgs" where
  "on_hand_servo_on data m = m\<lparr>servo_on := (servo_on m)[0 := ucast data]\<rparr>"

section \<open>Trajectories\<close>

record trajectory_point =
  positions :: "dbl list"
  tfs_sec :: "32 word"
  tfs_nanosec :: "32 word"

record joint_trajectory =
  joint_names :: "string list"
  points :: "trajectory_point list"

definition kJointOrder :: "string list" where
  "kJointOrder = [''fr3_joint1'', ''fr3_joint2'', ''fr3_joint3'', ''fr3_joint4'',
     ''fr3_joint5'', ''fr3_joint6'', ''fr3_joint7'']"

definition find_name :: "string list \<Rightarrow> string \<Rightarrow> nat option" where
  "find_name names s = find (\<lambda>k. names ! k = s) [0..<length names]"

definition joint_index :: "string list \<Rightarrow> nat list" where
  "joint_index names = (let idx = map (find_name names) kJointOrder
     in if list_ex (\<lambda>i. i = None) idx then [0..<Arm_DOF] else map the idx)"

definition point_position :: "nat list \<Rightarrow> trajectory_point \<Rightarrow> nat \<Rightarrow> dbl" where
  "point_position idx pt j = (let src = idx ! j
     in if src < length (positions pt) then positions pt ! src else Fin 0)"

definition point_time :: "trajectory_point \<Rightarrow> dbl" where
  "point_time pt = d_add (Fin (of_int (sint (tfs_sec pt))))
     (d_mul (Fin (of_nat (unat (tfs_nanosec pt)))) (rnd (1 / 10 ^ 9)))"

datatype store = Store_len int | Store_q nat nat dbl | Store_t nat dbl | Store_state int

fun store_buf :: "store \<Rightarrow> ArmTrajBuf \<Rightarrow> ArmTrajBuf" where
  "store_buf (Store_len n) b = b\<lparr>tb_len := n\<rparr>"
| "store_buf (Store_q i j v) b = b\<lparr>tb_q := (tb_q b)[i := (tb_q b ! i)[j := v]]\<rparr>"
| "store_buf (Store_t i v) b = b\<lparr>tb_t := (tb_t b)[i := v]\<rparr>"
| "store_buf (Store_state s) b = b\<lparr>tb_state := s\<rparr>"

definition apply_store :: "store \<Rightarrow> ArmTrajShm \<Rightarrow> ArmTrajShm" where
  "apply_store s = upd_traj (store_buf s)"

definition point_stores :: "nat list \<Rightarrow> nat \<Rightarrow> trajectory_point \<Rightarrow> store list" where
  "point_stores idx i pt = map (\<lambda>j. Store_q i j (point_position idx pt j)) [0..<Arm_DOF] @ [Store_t i (point_time pt)]"

definition trajectory_stores :: "joint_trajectory \<Rightarrow> store list" where
  "trajectory_stores msg =
     (let n = sint (of_nat (length (points msg)) :: 32 word)
      in if n \<le> 0 \<or> int ARM_TRAJ_MAX_PTS < n then []
         else let idx = joint_index (joint_names msg)
           in Store_len n # concat (map (\<lambda>i. point_stores idx i (points msg ! i)) [0..<nat n])
              @ [Store_state ARM_TRAJ_PENDING])"

definition on_franka_trajectory :: "joint_trajectory \<Rightarrow> ArmTrajShm \<Rightarrow> ArmTrajShm" where
  "on_franka_trajectory msg t = fold apply_store (trajectory_stores msg) t"

section \<open>Publication\<close>

text \<open>What the timer publishes, per topic; the tactile and joint values become floats, which
  represent every 16-bit integer exactly.\<close>

record published =
  pub_joint_position :: "int list"
  pub_kinesthetic :: "int list"
  pub_tactile :: "int list"
  pub_hand_target :: "u16 list"
  pub_hand_mode :: int
  pub_servo_on :: int
  pub_arm_position :: "dbl list"
  pub_arm_target :: "dbl list"
  pub_arm_velocity :: "dbl list"
  pub_arm_torque :: "dbl list"
  pub_arm_speed :: dbl

definition publish_from_shared_memory :: "SHMmsgs \<Rightarrow> published" where
  "publish_from_shared_memory m = \<lparr>
     pub_joint_position = map (\<lambda>i. sint (j_pos m ! 0 ! i)) [0..<Hand_DOF],
     pub_kinesthetic = concat (map (\<lambda>f. map (\<lambda>a. sint (j_kin m ! 0 ! f ! a)) [0..<Kinesthetic_Sensor_DOF])
        [0..<Kinesthetic_Sensor_Num]),
     pub_tactile = map (\<lambda>i. sint (j_tac m ! 0 ! i)) [0..<Tactile_Sensor_Num],
     pub_hand_target = map (\<lambda>i. j_tar m ! 0 ! i) [0..<Hand_DOF],
     pub_hand_mode = uint (hand_mode m ! 0), pub_servo_on = uint (servo_on m ! 0),
     pub_arm_position = map (\<lambda>i. Arm_j_pos m ! 0 ! i) [0..<Arm_DOF],
     pub_arm_target = map (\<lambda>i. Arm_j_tar m ! 0 ! i) [0..<Arm_DOF],
     pub_arm_velocity = map (\<lambda>i. Arm_j_vel m ! 0 ! i) [0..<Arm_DOF],
     pub_arm_torque = map (\<lambda>i. Arm_j_tq m ! 0 ! i) [0..<Arm_DOF],
     pub_arm_speed = Arm_Speed_Factor m ! 0\<rparr>"

text \<open>The layout of a message array: the size and the stride of each dimension.\<close>

fun run_strides :: "nat \<Rightarrow> nat list \<Rightarrow> (u32 \<times> u32) list" where
  "run_strides r [] = []"
| "run_strides r (d # ds) = (of_nat d, of_nat r) # run_strides (r div d) ds"

definition dim_strides :: "nat list \<Rightarrow> (u32 \<times> u32) list" where
  "dim_strides ds = run_strides (foldr (*) ds 1) ds"

section \<open>Clearing the buffer by hand\<close>

text \<open>The helper scripts/reset_arm_traj.cpp.\<close>

definition reset_arm_traj :: "ArmTrajShm \<Rightarrow> ArmTrajShm" where
  "reset_arm_traj t = t\<lparr>Arm_traj := map (\<lambda>b. b\<lparr>tb_state := ARM_TRAJ_IDLE, tb_len := 0,
     tb_q := map (map (\<lambda>_. Fin 0)) (tb_q b), tb_t := map (\<lambda>_. Fin 0) (tb_t b)\<rparr>) (Arm_traj t)\<rparr>"

section \<open>What a message leaves in the buffer\<close>

lemma upd_traj_comp:
  "length (Arm_traj t) = Arm_Num \<Longrightarrow> upd_traj f (upd_traj g t) = upd_traj (f \<circ> g) t"
  by (simp add: upd_traj_def kRightArmIndex_def)

lemma upd_traj_len [simp]: "length (Arm_traj (upd_traj f t)) = length (Arm_traj t)"
  by (simp add: upd_traj_def)

lemma upd_traj_nth:
  "length (Arm_traj t) = Arm_Num \<Longrightarrow> Arm_traj (upd_traj f t) ! kRightArmIndex = f (Arm_traj t ! kRightArmIndex)"
  by (simp add: upd_traj_def kRightArmIndex_def)

lemma fold_apply_store:
  "length (Arm_traj t) = Arm_Num \<Longrightarrow>
     Arm_traj (fold apply_store ss t) ! kRightArmIndex = fold store_buf ss (Arm_traj t ! kRightArmIndex)"
  by (induction ss arbitrary: t) (simp_all add: apply_store_def upd_traj_nth)

definition row_of :: "nat list \<Rightarrow> trajectory_point \<Rightarrow> joints" where
  "row_of idx pt = map (point_position idx pt) [0..<Arm_DOF]"

lemma fold_row:
  "i < length (tb_q b) \<Longrightarrow> k \<le> length (tb_q b ! i) \<Longrightarrow>
   fold store_buf (map (\<lambda>j. Store_q i j (f j)) [0..<k]) b = b\<lparr>tb_q := (tb_q b)[i := map f [0..<k] @ drop k (tb_q b ! i)]\<rparr>"
proof (induction k)
  case (Suc k)
  then have "drop k (tb_q b ! i) = (tb_q b ! i ! k) # drop (Suc k) (tb_q b ! i)" by (simp add: Cons_nth_drop_Suc)
  with Suc show ?case by (simp add: list_update_append)
qed simp

lemma fold_point:
  assumes "i < length (tb_q b)" "length (tb_q b ! i) = Arm_DOF"
  shows "fold store_buf (point_stores idx i pt) b = b\<lparr>tb_q := (tb_q b)[i := row_of idx pt], tb_t := (tb_t b)[i := point_time pt]\<rparr>"
  using fold_row [OF assms(1), of Arm_DOF "point_position idx pt"] assms
  by (simp add: point_stores_def row_of_def del: upt_Suc upt_conv_Cons)

lemma fold_points:
  assumes "n \<le> length (tb_q b)" "n \<le> length (tb_t b)" "n \<le> length pts" "\<forall>q\<in>set (tb_q b). length q = Arm_DOF"
  shows "fold store_buf (concat (map (\<lambda>i. point_stores idx i (pts ! i)) [0..<n])) b
    = b\<lparr>tb_q := map (row_of idx) (take n pts) @ drop n (tb_q b), tb_t := map point_time (take n pts) @ drop n (tb_t b)\<rparr>"
  using assms
proof (induction n)
  case (Suc n)
  let ?b = "b\<lparr>tb_q := map (row_of idx) (take n pts) @ drop n (tb_q b), tb_t := map point_time (take n pts) @ drop n (tb_t b)\<rparr>"
  have d: "drop n (tb_q b) = tb_q b ! n # drop (Suc n) (tb_q b)" "drop n (tb_t b) = tb_t b ! n # drop (Suc n) (tb_t b)"
    using Suc.prems by (simp_all add: Cons_nth_drop_Suc)
  have l: "length (tb_q ?b ! n) = Arm_DOF" using Suc.prems by (simp add: nth_append d)
  have "fold store_buf (point_stores idx n (pts ! n)) ?b
    = ?b\<lparr>tb_q := (tb_q ?b)[n := row_of idx (pts ! n)], tb_t := (tb_t ?b)[n := point_time (pts ! n)]\<rparr>"
    by (rule fold_point [OF _ l]) (use Suc.prems in simp)
  with Suc show ?case by (simp add: list_update_append d take_Suc_conv_app_nth)
qed simp

end
