(* ===== verification/Arm_Props.thy ===== *)
theory Arm_Props
  imports Arm_Trajectory
begin

text \<open>
  What the arm controller promises: a trajectory that passes the checks is well-formed, every
  command sent while it is executed lies within the joint limits up to rounding, and the motion
  ends. The two ways in which the callback can leave the limits, or the vectors, are stated as
  theorems of their own.
\<close>

section \<open>Well-formed trajectories\<close>

definition traj_wf :: "ArmTrajShm \<Rightarrow> bool" where
  "traj_wf t \<longleftrightarrow> length (Arm_traj t) = Arm_Num \<and>
     (\<forall>b\<in>set (Arm_traj t). length (tb_q b) = ARM_TRAJ_MAX_PTS \<and> length (tb_t b) = ARM_TRAJ_MAX_PTS \<and>
        (\<forall>q\<in>set (tb_q b). length q = Arm_DOF))"

definition valid_traj :: "local_traj \<Rightarrow> bool" where
  "valid_traj l \<longleftrightarrow> fst l \<noteq> [] \<and> length (fst l) = length (snd l) \<and>
     (\<forall>w\<in>set (fst l). validateWaypoint w \<and> length w = Arm_DOF) \<and>
     (\<forall>t\<in>set (snd l). d_finite t \<and> \<not> d_lt t (Fin 0)) \<and>
     (\<forall>i. i + 1 < length (snd l) \<longrightarrow> d_lt (snd l ! i) (snd l ! (i + 1)))"

definition within_limits :: "rat \<Rightarrow> joints \<Rightarrow> bool" where
  "within_limits eps q \<longleftrightarrow> length q = Arm_DOF \<and>
     (\<forall>j < Arm_DOF. \<exists>x lo hi. q ! j = Fin x \<and> kFr3LowerJointLimits ! j = Fin lo \<and>
        kFr3UpperJointLimits ! j = Fin hi \<and> lo - eps \<le> x \<and> x \<le> hi + eps)"

lemma d_finite_iff: "d_finite x \<longleftrightarrow> (\<exists>v. x = Fin v)"
  by (cases x) auto

lemma d_lt_le_trans: "d_le x y \<Longrightarrow> d_lt y z \<Longrightarrow> d_lt x z"
  by (cases x; cases y; cases z) auto

lemma rnd_bounded: "- 8 \<le> x \<Longrightarrow> x \<le> 8 \<Longrightarrow> \<exists>v. rnd x = Fin v \<and> - 8 \<le> v \<and> v \<le> 8"
  using rnd_fin_mono [of "- 8" x] rnd_fin_mono [of x 8] rnd_fin_int [of "- 8"] rnd_fin_int [of 8] rnd_small [of x]
  by (simp add: abs_le_iff)

lemma limits_bounded:
  "\<forall>d\<in>set kFr3LowerJointLimits \<union> set kFr3UpperJointLimits. \<exists>v. d = Fin v \<and> - 8 \<le> v \<and> v \<le> 8"
  unfolding kFr3LowerJointLimits_def kFr3UpperJointLimits_def list.set Un_insert_left Un_empty_left ball_simps
  by (intro conjI rnd_bounded TrueI) simp_all

lemma limits_length [simp]: "length kFr3LowerJointLimits = 7" "length kFr3UpperJointLimits = 7"
  by (simp_all add: kFr3LowerJointLimits_def kFr3UpperJointLimits_def)

lemma limits_finite:
  assumes "j < 7"
  obtains lo hi where "kFr3LowerJointLimits ! j = Fin lo" "kFr3UpperJointLimits ! j = Fin hi" "- 8 \<le> lo" "hi \<le> 8"
proof -
  have "kFr3LowerJointLimits ! j \<in> set kFr3LowerJointLimits" "kFr3UpperJointLimits ! j \<in> set kFr3UpperJointLimits"
    using assms by simp_all
  with limits_bounded that show ?thesis by (metis UnI1 UnI2)
qed

lemma validateWaypoint_iff:
  assumes "length q = Arm_DOF"
  shows "validateWaypoint q \<longleftrightarrow> within_limits 0 q"
proof -
  have "validate_joint (q ! j) (kFr3LowerJointLimits ! j, kFr3UpperJointLimits ! j) \<longleftrightarrow>
     (\<exists>x lo hi. q ! j = Fin x \<and> kFr3LowerJointLimits ! j = Fin lo \<and>
        kFr3UpperJointLimits ! j = Fin hi \<and> lo \<le> x \<and> x \<le> hi)" if j: "j < 7" for j
  proof -
    obtain lo hi where "kFr3LowerJointLimits ! j = Fin lo" "kFr3UpperJointLimits ! j = Fin hi"
      using limits_finite [OF j] by blast
    then show ?thesis by (cases "q ! j") (auto simp: not_less)
  qed
  then show ?thesis using assms
    by (auto simp: validateWaypoint_def within_limits_def list_all_length)
qed

section \<open>The copy under the lock\<close>

definition copied :: "nat \<Rightarrow> local_traj \<Rightarrow> bool" where
  "copied i l \<longleftrightarrow> length (fst l) = i \<and> length (snd l) = i \<and>
     (\<forall>w\<in>set (fst l). validateWaypoint w \<and> length w = Arm_DOF) \<and>
     (\<forall>t\<in>set (snd l). d_finite t \<and> \<not> d_lt t (Fin 0)) \<and>
     (\<forall>k. k + 1 < i \<longrightarrow> d_lt (snd l ! k) (snd l ! (k + 1)))"

lemma copy_point_copied:
  assumes "copied i l" "copy_point b i l = Some l'" "length (tb_q b ! i) = Arm_DOF"
  shows "copied (i + 1) l'"
proof -
  obtain ws ts where l: "l = (ws, ts)" by (cases l)
  from assms(2) have l': "l' = (ws @ [tb_q b ! i], ts @ [tb_t b ! i])"
    and v: "validateWaypoint (tb_q b ! i)" and t: "d_finite (tb_t b ! i)" "\<not> d_lt (tb_t b ! i) (Fin 0)"
    and o: "0 < i \<Longrightarrow> \<not> d_le (tb_t b ! i) (ts ! (i - 1))"
    using assms(3) by (auto simp: copy_point_def l Let_def split: if_splits)
  have "d_lt (ts ! k) (tb_t b ! i)" if k: "Suc k = i" for k
  proof -
    have "d_finite (ts ! k)" using assms(1) k by (auto simp: copied_def l)
    with t(1) o k show ?thesis by (auto simp: d_finite_iff not_le)
  qed
  then show ?thesis using assms(1,3) v t
    by (auto simp: copied_def l l' nth_append less_Suc_eq gr0_conv_Suc)
qed

lemma copy_points_copied:
  assumes "copied i l" "copy_points b i n l = Some l'" "\<forall>k < i + n. length (tb_q b ! k) = Arm_DOF"
  shows "copied (i + n) l'"
  using assms
proof (induction n arbitrary: i l)
  case (Suc n)
  from Suc.prems(2) obtain l1 where p: "copy_point b i l = Some l1" and r: "copy_points b (i + 1) n l1 = Some l'"
    by (auto split: option.splits)
  have "copied (i + 1) l1" using copy_point_copied [OF Suc.prems(1) p] Suc.prems(3) by simp
  from Suc.IH [OF this r] Suc.prems(3) show ?case by simp
qed simp

lemma copied_valid: "copied n l \<Longrightarrow> 0 < n \<Longrightarrow> valid_traj l"
  by (auto simp: copied_def valid_traj_def)

lemma traj_wf_set_state [simp]: "traj_wf (traj_set_state v t) \<longleftrightarrow> traj_wf t"
  by (cases "Arm_traj t") (auto simp: traj_wf_def traj_set_state_def upd_traj_def kRightArmIndex_def)

lemma copy_trajectory_valid:
  assumes "traj_wf t" "fst (copy_trajectory t) = Some l"
  shows "valid_traj l"
proof -
  let ?b = "Arm_traj (traj_set_state ARM_TRAJ_EXECUTING t) ! kRightArmIndex"
  from assms(2) have n: "0 < tb_len ?b" "tb_len ?b \<le> 1000"
    and c: "copy_points ?b 0 (nat (tb_len ?b)) ([], []) = Some l"
    by (auto simp: copy_trajectory_def Let_def split: if_splits option.splits)
  have "?b \<in> set (Arm_traj (traj_set_state ARM_TRAJ_EXECUTING t))"
    using assms(1) by (intro nth_mem) (simp add: traj_wf_def traj_set_state_def upd_traj_def kRightArmIndex_def)
  with assms(1) have "\<forall>k < 1000. length (tb_q ?b ! k) = Arm_DOF"
    by (subst (asm) traj_wf_set_state [of ARM_TRAJ_EXECUTING, symmetric]) (auto simp: traj_wf_def)
  then have "copied (0 + nat (tb_len ?b)) l"
    using n by (intro copy_points_copied [OF _ c]) (auto simp: copied_def)
  then show ?thesis using n by (intro copied_valid) auto
qed

section \<open>Interpolation\<close>

definition d_ok :: "dbl \<Rightarrow> bool" where
  "d_ok d \<longleftrightarrow> (\<forall>x. d = Fin x \<longrightarrow> is_double x)"

lemma rnd_between:
  assumes "0 \<le> x" "x \<le> y" "is_double y"
  shows "rnd x = Fin (rnd_fin x)"
proof -
  have "\<bar>y\<bar> < 2 ^ 1024" "rnd_fin y = y"
    using assms(3) by (auto simp: is_double_def rnd_def Let_def split: if_splits)
  then show ?thesis using rnd_fin_mono [OF assms(2)] rnd_fin_nonneg [OF assms(1)] by (simp add: rnd_def)
qed

lemma seg_alpha_fraction:
  assumes "0 \<le> t0" "t0 \<le> x" "x < t1" "is_double t1"
  shows "\<exists>a. seg_alpha (Fin x) (Fin t0) (Fin t1) = Fin a \<and> 0 \<le> a \<and> a \<le> 1"
proof -
  have d: "d_sub (Fin t1) (Fin t0) = Fin (rnd_fin (t1 - t0))" "d_sub (Fin x) (Fin t0) = Fin (rnd_fin (x - t0))"
    using assms by (simp_all add: d_sub_def rnd_between [of _ t1])
  have e: "rnd (1 / 10 ^ 9) = Fin (rnd_fin (1 / 10 ^ 9))" by (intro rnd_small) simp
  have p: "0 \<le> rnd_fin (1 / 10 ^ 9)" by (rule rnd_fin_nonneg) simp
  show ?thesis
  proof (cases "d_lt (rnd (1 / 10 ^ 9)) (Fin (rnd_fin (t1 - t0)))")
    case True
    then have pos: "0 < rnd_fin (t1 - t0)" using e p by simp
    let ?a = "rnd_fin (rnd_fin (x - t0) / rnd_fin (t1 - t0))"
    have a: "0 \<le> ?a" "?a \<le> 1" using binary64.fraction [of "x - t0" "t1 - t0"] pos assms by simp_all
    have "0 \<le> rnd_fin (x - t0) / rnd_fin (t1 - t0)" "rnd_fin (x - t0) / rnd_fin (t1 - t0) \<le> 1"
      using pos rnd_fin_mono [of "x - t0" "t1 - t0"] rnd_fin_nonneg [of "x - t0"] assms by simp_all
    then have "rnd (rnd_fin (x - t0) / rnd_fin (t1 - t0)) = Fin ?a" by (intro rnd_small) (simp add: abs_le_iff)
    then show ?thesis using True a pos by (simp add: seg_alpha_def d)
  next
    case False
    then show ?thesis by (simp add: seg_alpha_def d)
  qed
qed

lemma lerp_joint:
  assumes "lo \<le> a" "a \<le> hi" "lo \<le> b" "b \<le> hi" "- 8 \<le> lo" "hi \<le> 8" "0 \<le> t" "t \<le> 1"
  shows "\<exists>x. d_add (Fin a) (d_mul (Fin t) (d_sub (Fin b) (Fin a))) = Fin x \<and> lo - 1 / 2 ^ 45 \<le> x \<and> x \<le> hi + 1 / 2 ^ 45"
proof -
  let ?d = "rnd_fin (b - a)"
  have small: "rnd x = Fin (rnd_fin x)" if "\<bar>x\<bar> \<le> 64" for x
    using that by (intro rnd_small) simp
  have bd: "\<bar>rnd_fin x\<bar> \<le> \<bar>x\<bar> + 1" if "\<bar>x\<bar> \<le> 32" for x
  proof -
    have "\<bar>rnd_fin x - x\<bar> \<le> 1" using binary64.near [OF that] by (simp add: abs_le_iff)
    then show ?thesis by linarith
  qed
  have d: "d_sub (Fin b) (Fin a) = Fin ?d" using assms by (simp add: d_sub_def small abs_le_iff)
  have "\<bar>b - a\<bar> \<le> 16" using assms by (simp add: abs_le_iff)
  then have "\<bar>?d\<bar> \<le> 17" using bd [of "b - a"] by linarith
  moreover have "\<bar>t * ?d\<bar> \<le> \<bar>?d\<bar>" using assms by (simp add: abs_mult mult_left_le_one_le)
  ultimately have td: "\<bar>t * ?d\<bar> \<le> 17" by linarith
  then have m: "d_mul (Fin t) (Fin ?d) = Fin (rnd_fin (t * ?d))" by (simp add: small)
  have "\<bar>rnd_fin (t * ?d)\<bar> \<le> 18" using bd [of "t * ?d"] td by linarith
  then have "\<bar>a + rnd_fin (t * ?d)\<bar> \<le> 64" using assms by linarith
  then have "d_add (Fin a) (Fin (rnd_fin (t * ?d))) = Fin (rnd_fin (a + rnd_fin (t * ?d)))" by (simp add: small)
  then show ?thesis using binary64.lerp_upper [OF assms] binary64.lerp_lower [OF assms]
    by (simp add: d m del: d_mul.simps d_add.simps)
qed

lemma within_limits_weaken: "within_limits e q \<Longrightarrow> e \<le> e' \<Longrightarrow> within_limits e' q"
  unfolding within_limits_def by (meson add_left_mono diff_left_mono order_trans)

lemma lerp7_within:
  assumes "within_limits 0 a" "within_limits 0 b" "0 \<le> t" "t \<le> 1"
  shows "within_limits (1 / 2 ^ 45) (lerp7 a b (Fin t))"
  unfolding within_limits_def
proof (intro conjI allI impI)
  have l: "length a = 7" "length b = 7" using assms by (simp_all add: within_limits_def)
  then show "length (lerp7 a b (Fin t)) = Arm_DOF" by (simp add: lerp7_def)
  fix j assume "j < Arm_DOF"
  then have j: "j < 7" by simp
  obtain lo hi where lim: "kFr3LowerJointLimits ! j = Fin lo" "kFr3UpperJointLimits ! j = Fin hi" "- 8 \<le> lo" "hi \<le> 8"
    using limits_finite [OF j] by blast
  obtain x where x: "a ! j = Fin x" "lo \<le> x" "x \<le> hi" using assms(1) j lim by (fastforce simp: within_limits_def)
  obtain y where y: "b ! j = Fin y" "lo \<le> y" "y \<le> hi" using assms(2) j lim by (fastforce simp: within_limits_def)
  from lerp_joint [OF x(2,3) y(2,3) lim(3,4) assms(3,4)] lim x(1) y(1) j l
  show "\<exists>x lo hi. lerp7 a b (Fin t) ! j = Fin x \<and> kFr3LowerJointLimits ! j = Fin lo \<and>
      kFr3UpperJointLimits ! j = Fin hi \<and> lo - 1 / 2 ^ 45 \<le> x \<and> x \<le> hi + 1 / 2 ^ 45"
    by (auto simp: lerp7_def)
qed

lemma segment_exists:
  assumes "d_le (ts ! 0) e" "d_lt e (ts ! n)" "\<forall>i\<le>n. d_finite (ts ! i)"
  shows "\<exists>i < n. d_le (ts ! i) e \<and> d_lt e (ts ! (i + 1))"
  using assms(2,3)
proof (induction n)
  case 0
  with assms(1) show ?case by (cases e; cases "ts ! 0") auto
next
  case (Suc n)
  show ?case
  proof (cases "d_lt e (ts ! n)")
    case True
    with Suc show ?thesis using less_SucI by (metis le_SucI)
  next
    case False
    moreover have "d_finite (ts ! n)" using Suc.prems by simp
    ultimately have "d_le (ts ! n) e" using assms(1) by (cases e; cases "ts ! 0"; cases "ts ! n") auto
    with Suc.prems show ?thesis by auto
  qed
qed

text \<open>The desired position at a time after the first way point.\<close>

lemma desired_within:
  assumes v: "valid_traj l" and ok: "\<forall>t\<in>set (snd l). d_ok t"
    and e: "d_le (snd l ! 0) (Fin x)"
  shows "\<exists>q. desired l (Fin x) = Some q \<and> within_limits (1 / 2 ^ 45) q"
proof -
  obtain ws ts where l: "l = (ws, ts)" by (cases l)
  have n: "0 < length ts" "length ws = length ts" using v by (auto simp: valid_traj_def l)
  have w: "within_limits 0 (ws ! i)" if "i < length ts" for i
  proof -
    have "ws ! i \<in> set ws" using that n by simp
    then have "validateWaypoint (ws ! i)" "length (ws ! i) = Arm_DOF" using v unfolding valid_traj_def l by auto
    then show ?thesis by (simp only: validateWaypoint_iff)
  qed
  have t: "\<exists>y. ts ! i = Fin y \<and> 0 \<le> y \<and> is_double y" if i: "i < length ts" for i
  proof -
    have "ts ! i \<in> set ts" using i by simp
    then have "d_finite (ts ! i)" "\<not> d_lt (ts ! i) (Fin 0)" "d_ok (ts ! i)" using v ok by (auto simp: valid_traj_def l)
    then show ?thesis by (auto simp: d_finite_iff d_ok_def)
  qed
  show ?thesis
  proof (cases "d_le (ts ! (length ts - 1)) (Fin x)")
    case True
    then show ?thesis using w [of "length ts - 1"] n within_limits_weaken [of 0 _ "1 / 2 ^ 45"]
      by (simp add: desired_def l)
  next
    case False
    then have "d_lt (Fin x) (ts ! (length ts - 1))" using t [of "length ts - 1"] n by auto
    moreover have "\<forall>i\<le>length ts - 1. d_finite (ts ! i)"
    proof (intro allI impI)
      fix i assume "i \<le> length ts - 1"
      with n(1) have "i < length ts" by linarith
      then show "d_finite (ts ! i)" using t by fastforce
    qed
    ultimately obtain i where "i < length ts - 1" "d_le (ts ! i) (Fin x)" "d_lt (Fin x) (ts ! (i + 1))"
      using segment_exists [of ts "Fin x" "length ts - 1"] e by (auto simp: l)
    then have "find (\<lambda>i. d_le (ts ! i) (Fin x) \<and> d_lt (Fin x) (ts ! (i + 1))) [0..<length ts - 1] \<noteq> None"
      by (auto simp: find_None_iff)
    then obtain s where f: "find (\<lambda>i. d_le (ts ! i) (Fin x) \<and> d_lt (Fin x) (ts ! (i + 1))) [0..<length ts - 1] = Some s"
      by blast
    then have s: "s < length ts - 1" "d_le (ts ! s) (Fin x)" "d_lt (Fin x) (ts ! (s + 1))"
      by (auto simp: find_Some_iff)
    have s1: "s < length ts" "s + 1 < length ts" using s(1) by auto
    obtain y z where y: "ts ! s = Fin y" "0 \<le> y" and z: "ts ! (s + 1) = Fin z" "is_double z"
      using t [OF s1(1)] t [OF s1(2)] by blast
    have yz: "y \<le> x" "x < z" using s y z by simp_all
    obtain a where "seg_alpha (Fin x) (Fin y) (Fin z) = Fin a" "0 \<le> a" "a \<le> 1"
      using seg_alpha_fraction [OF y(2) yz z(2)] by blast
    then show ?thesis using lerp7_within [OF w [OF s1(1)] w [OF s1(2)]] False f s1 n(2) y(1) z(1)
      by (simp add: desired_def l find_seg_def get_at_def)
  qed
qed

text \<open>
  The path a trajectory describes, without reference to the code: at its last time and later the
  last way point, before that, joint by joint, a value between the two way points whose times
  enclose the moment, up to \<open>eps\<close>.
\<close>

definition between_points :: "rat \<Rightarrow> joints \<Rightarrow> joints \<Rightarrow> joints \<Rightarrow> bool" where
  "between_points eps a b q \<longleftrightarrow> length q = Arm_DOF \<and>
     (\<forall>j < Arm_DOF. \<exists>x y z. a ! j = Fin x \<and> b ! j = Fin y \<and> q ! j = Fin z \<and>
        min x y - eps \<le> z \<and> z \<le> max x y + eps)"

definition on_path :: "rat \<Rightarrow> local_traj \<Rightarrow> dbl \<Rightarrow> joints \<Rightarrow> bool" where
  "on_path eps l e q \<longleftrightarrow> (d_le (last (snd l)) e \<and> q = last (fst l)) \<or>
     (\<exists>i. i + 1 < length (snd l) \<and> d_le (snd l ! i) e \<and> d_lt e (snd l ! (i + 1)) \<and>
        between_points eps (fst l ! i) (fst l ! (i + 1)) q)"

lemma lerp7_between:
  assumes "within_limits 0 a" "within_limits 0 b" "0 \<le> t" "t \<le> 1"
  shows "between_points (1 / 2 ^ 45) a b (lerp7 a b (Fin t))"
  unfolding between_points_def
proof (intro conjI allI impI)
  have l: "length a = 7" "length b = 7" using assms by (simp_all add: within_limits_def)
  then show "length (lerp7 a b (Fin t)) = Arm_DOF" by (simp add: lerp7_def)
  fix j assume "j < Arm_DOF"
  then have j: "j < 7" by simp
  obtain lo hi where lim: "kFr3LowerJointLimits ! j = Fin lo" "kFr3UpperJointLimits ! j = Fin hi" "- 8 \<le> lo" "hi \<le> 8"
    using limits_finite [OF j] by blast
  obtain x where x: "a ! j = Fin x" "lo \<le> x" "x \<le> hi" using assms(1) j lim by (fastforce simp: within_limits_def)
  obtain y where y: "b ! j = Fin y" "lo \<le> y" "y \<le> hi" using assms(2) j lim by (fastforce simp: within_limits_def)
  have "- 8 \<le> min x y" "max x y \<le> 8" using x y lim by simp_all
  from lerp_joint [OF _ _ _ _ this assms(3,4), of x y] x(1) y(1) j l
  show "\<exists>x y z. a ! j = Fin x \<and> b ! j = Fin y \<and> lerp7 a b (Fin t) ! j = Fin z \<and>
      min x y - 1 / 2 ^ 45 \<le> z \<and> z \<le> max x y + 1 / 2 ^ 45"
    by (auto simp: lerp7_def)
qed

lemma valid_points:
  assumes "valid_traj l" "i < length (snd l)"
  shows "within_limits 0 (fst l ! i)"
proof -
  have "fst l ! i \<in> set (fst l)" using assms by (simp add: valid_traj_def)
  then have "validateWaypoint (fst l ! i)" "length (fst l ! i) = Arm_DOF"
    using assms(1) unfolding valid_traj_def by blast+
  then show ?thesis by (simp only: validateWaypoint_iff)
qed

lemma valid_times:
  assumes "valid_traj l" "\<forall>t\<in>set (snd l). d_ok t" "i < length (snd l)"
  obtains y where "snd l ! i = Fin y" "0 \<le> y" "is_double y"
proof -
  have "snd l ! i \<in> set (snd l)" using assms(3) by simp
  then have "d_finite (snd l ! i)" "\<not> d_lt (snd l ! i) (Fin 0)" "d_ok (snd l ! i)"
    using assms(1,2) unfolding valid_traj_def by blast+
  then show ?thesis using that by (auto simp: d_finite_iff d_ok_def)
qed

lemma desired_segment:
  assumes v: "valid_traj l" and ok: "\<forall>t\<in>set (snd l). d_ok t" and i: "find_seg (snd l) (Fin x) = s"
    and s: "s + 1 < length (snd l)" "d_le (snd l ! s) (Fin x)" "d_lt (Fin x) (snd l ! (s + 1))"
    and nl: "\<not> d_le (snd l ! (length (snd l) - 1)) (Fin x)" and q: "desired l (Fin x) = Some q"
  shows "between_points (1 / 2 ^ 45) (fst l ! s) (fst l ! (s + 1)) q"
proof -
  have s1: "s < length (snd l)" using s(1) by simp
  obtain y where y: "snd l ! s = Fin y" "0 \<le> y" using valid_times [OF v ok s1] by blast
  obtain z where z: "snd l ! (s + 1) = Fin z" "is_double z" using valid_times [OF v ok s(1)] by blast
  obtain a where a: "seg_alpha (Fin x) (Fin y) (Fin z) = Fin a" "0 \<le> a" "a \<le> 1"
    using seg_alpha_fraction [of y x z] y z s by auto
  have "length (fst l) = length (snd l)" using v by (simp add: valid_traj_def)
  then have "q = lerp7 (fst l ! s) (fst l ! (s + 1)) (Fin a)"
    using q nl i s s1 y(1) z(1) a(1) by (simp add: desired_def split_def get_at_def)
  then show ?thesis using lerp7_between [OF valid_points [OF v s1] valid_points [OF v s(1)] a(2,3)] by simp
qed

lemma last_is:
  assumes "valid_traj l"
  shows "last (snd l) = snd l ! (length (snd l) - 1)" "last (fst l) = fst l ! (length (snd l) - 1)" "0 < length (snd l)"
proof -
  have ne: "fst l \<noteq> []" and len: "length (fst l) = length (snd l)" using assms unfolding valid_traj_def by blast+
  then have "snd l \<noteq> []" by (metis length_0_conv)
  with ne len show "last (snd l) = snd l ! (length (snd l) - 1)" "last (fst l) = fst l ! (length (snd l) - 1)"
    "0 < length (snd l)" by (simp_all add: last_conv_nth)
qed

lemma desired_on_path:
  assumes v: "valid_traj l" and ok: "\<forall>t\<in>set (snd l). d_ok t"
    and e: "d_le (snd l ! 0) (Fin x)" and q: "desired l (Fin x) = Some q"
  shows "on_path (1 / 2 ^ 45) l (Fin x) q"
proof (cases "d_le (snd l ! (length (snd l) - 1)) (Fin x)")
  case True
  then show ?thesis using q last_is [OF v] by (simp add: on_path_def desired_def split_def)
next
  case False
  let ?n = "length (snd l)"
  have n: "0 < ?n" by (rule last_is [OF v])
  have fin: "d_finite (snd l ! i)" if "i < ?n" for i
    using valid_times [OF v ok that] by (metis d_finite_iff)
  have "d_lt (Fin x) (snd l ! (?n - 1))" using False valid_times [OF v ok, of "?n - 1"] n by fastforce
  moreover have "\<forall>i\<le>?n - 1. d_finite (snd l ! i)"
  proof (intro allI impI)
    fix i assume "i \<le> ?n - 1"
    with n have "i < ?n" by linarith
    then show "d_finite (snd l ! i)" by (rule fin)
  qed
  ultimately obtain i where i: "i < ?n - 1" "d_le (snd l ! i) (Fin x)" "d_lt (Fin x) (snd l ! (i + 1))"
    using segment_exists [OF e, of "?n - 1"] by blast
  then have "find (\<lambda>i. d_le (snd l ! i) (Fin x) \<and> d_lt (Fin x) (snd l ! (i + 1))) [0..<?n - 1] \<noteq> None"
    by (auto simp: find_None_iff)
  then obtain s where f: "find (\<lambda>i. d_le (snd l ! i) (Fin x) \<and> d_lt (Fin x) (snd l ! (i + 1))) [0..<?n - 1] = Some s"
    by blast
  then have s: "s + 1 < ?n" "d_le (snd l ! s) (Fin x)" "d_lt (Fin x) (snd l ! (s + 1))" "find_seg (snd l) (Fin x) = s"
    using f [unfolded find_Some_iff] by (auto simp: find_seg_def f simp del: One_nat_def add_Suc_right)
  from desired_segment [OF v ok s(4,1,2,3) False q] s show ?thesis unfolding on_path_def by blast
qed

section \<open>A whole execution\<close>

fun command_joints :: "command \<Rightarrow> joints" where
  "command_joints (JointPositions q) = q"
| "command_joints (MotionFinished q) = q"

fun tick_ok :: "robot_event \<Rightarrow> bool" where
  "tick_ok (Tick st p) \<longleftrightarrow> (\<exists>r. p = Fin r \<and> 0 \<le> r)"
| "tick_ok Throw \<longleftrightarrow> True"

fun clock_ok :: "dbl \<Rightarrow> bool" where
  "clock_ok (Fin x) \<longleftrightarrow> 0 \<le> x"
| "clock_ok (Inf p) \<longleftrightarrow> p"
| "clock_ok NaN \<longleftrightarrow> False"

lemma copy_points_content:
  "copy_points b i n l = Some l' \<Longrightarrow>
     l' = (fst l @ map (\<lambda>k. take Arm_DOF (tb_q b ! k)) [i..<i + n], snd l @ map (nth (tb_t b)) [i..<i + n])"
proof (induction n arbitrary: i l)
  case (Suc n)
  from Suc.prems obtain l1 where p: "copy_point b i l = Some l1" and r: "copy_points b (i + 1) n l1 = Some l'"
    by (auto split: option.splits)
  from p have "l1 = (fst l @ [take Arm_DOF (tb_q b ! i)], snd l @ [tb_t b ! i])"
    by (cases l) (auto simp: copy_point_def Let_def split: if_splits)
  moreover have "[i..<i + Suc n] = i # [i + 1..<i + 1 + n]" by (simp add: upt_conv_Cons del: upt_Suc)
  ultimately show ?case using Suc.IH [OF r] by (simp del: upt_Suc)
qed simp

lemma copy_trajectory_content:
  assumes "copy_trajectory t = (Some l, t1)"
  defines "b \<equiv> Arm_traj (traj_set_state ARM_TRAJ_EXECUTING t) ! kRightArmIndex"
  shows "l = (map (\<lambda>k. take Arm_DOF (tb_q b ! k)) [0..<nat (tb_len b)], map (nth (tb_t b)) [0..<nat (tb_len b)])"
    "0 < tb_len b" "tb_len b \<le> 1000" "t1 = traj_set_state ARM_TRAJ_EXECUTING t"
proof -
  have c: "copy_points b 0 (nat (tb_len b)) ([], []) = Some l"
    and n: "0 < tb_len b" "tb_len b \<le> 1000" "t1 = traj_set_state ARM_TRAJ_EXECUTING t"
    using assms by (auto simp: copy_trajectory_def Let_def split: if_splits option.splits)
  from copy_points_content [OF c] n
  show "l = (map (\<lambda>k. take Arm_DOF (tb_q b ! k)) [0..<nat (tb_len b)], map (nth (tb_t b)) [0..<nat (tb_len b)])"
    "0 < tb_len b" "tb_len b \<le> 1000" "t1 = traj_set_state ARM_TRAJ_EXECUTING t" by simp_all
qed

lemma tb_of_set_state:
  assumes "length (Arm_traj t) = Arm_Num"
  shows "tb_q (Arm_traj (traj_set_state v t) ! kRightArmIndex) = tb_q (Arm_traj t ! kRightArmIndex)"
    "tb_t (Arm_traj (traj_set_state v t) ! kRightArmIndex) = tb_t (Arm_traj t ! kRightArmIndex)"
    "tb_len (Arm_traj (traj_set_state v t) ! kRightArmIndex) = tb_len (Arm_traj t ! kRightArmIndex)"
    "tb_state (Arm_traj (traj_set_state v t) ! kRightArmIndex) = v"
  using assms by (simp_all add: traj_set_state_def upd_traj_def kRightArmIndex_def)

definition starts_at_zero :: "local_traj \<Rightarrow> bool" where
  "starts_at_zero l \<longleftrightarrow> valid_traj l \<and> (\<forall>t\<in>set (snd l). d_ok t) \<and> snd l ! 0 = Fin 0"

lemma clock_add: "clock_ok e \<Longrightarrow> 0 \<le> r \<Longrightarrow> clock_ok (d_add e (Fin r))"
  by (cases e) (auto simp: rnd_def Let_def rnd_fin_nonneg dest: rnd_fin_nonneg [of "_ + r"] split: if_splits)

lemma last_within: "valid_traj l \<Longrightarrow> 0 \<le> eps \<Longrightarrow> within_limits eps (fst l ! (length (snd l) - 1))"
proof -
  assume v: "valid_traj l" and eps: "0 \<le> eps"
  then have "length (fst l) = length (snd l)" "0 < length (fst l)" by (auto simp: valid_traj_def)
  then have "length (snd l) - 1 < length (fst l)" by linarith
  then have "fst l ! (length (snd l) - 1) \<in> set (fst l)" by (rule nth_mem)
  with v have "validateWaypoint (fst l ! (length (snd l) - 1))" "length (fst l ! (length (snd l) - 1)) = Arm_DOF"
    unfolding valid_traj_def by auto
  then show ?thesis using eps by (simp only: validateWaypoint_iff) (erule within_limits_weaken)
qed

lemma desired_clock:
  assumes "starts_at_zero l" "clock_ok e"
  shows "\<exists>q. desired l e = Some q \<and> within_limits (1 / 2 ^ 45) q"
proof (cases e)
  case (Fin x)
  then show ?thesis using assms desired_within [of l x] by (simp add: starts_at_zero_def)
next
  case (Inf p)
  have "snd l \<noteq> []" using assms(1) by (auto simp: starts_at_zero_def valid_traj_def)
  then have "snd l ! (length (snd l) - 1) \<in> set (snd l)" by simp
  then have "d_finite (snd l ! (length (snd l) - 1))"
    using assms(1) unfolding starts_at_zero_def valid_traj_def by blast
  then have "d_le (snd l ! (length (snd l) - 1)) e" using Inf assms(2) by (auto simp: d_finite_iff)
  then show ?thesis using last_within [of l] assms(1) by (simp add: desired_def split_def starts_at_zero_def)
qed (use assms in simp)

lemma callback_within:
  assumes "starts_at_zero l" "clock_ok e" "0 \<le> r"
  shows "\<exists>m1 c. control_callback l e st (Fin r) m = Some (d_add e (Fin r), m1, c) \<and>
    within_limits (1 / 2 ^ 45) (command_joints c)"
  using desired_clock [OF assms(1) clock_add [OF assms(2,3)]] last_within [of l "1 / 2 ^ 45"] assms(1)
  by (auto simp: control_callback_def split_def starts_at_zero_def Let_def)

lemma control_run_within:
  assumes "starts_at_zero l" "clock_ok e" "\<forall>ev\<in>set evs. tick_ok ev"
  shows "ret (control_run l evs e m) (\<lambda>(r, m', cs). \<forall>c\<in>set cs. within_limits (1 / 2 ^ 45) (command_joints c))"
  using assms(2,3)
proof (induction evs arbitrary: e m)
  case (Cons ev evs)
  show ?case
  proof (cases ev)
    case (Tick st p)
    then obtain r where p: "p = Fin r" "0 \<le> r" using Cons.prems by auto
    from callback_within [OF assms(1) Cons.prems(1) p(2)] obtain m1 c
      where cb: "control_callback l e st p m = Some (d_add e (Fin r), m1, c)"
        and c: "within_limits (1 / 2 ^ 45) (command_joints c)" unfolding p(1) by blast
    show ?thesis
    proof (cases c)
      case (MotionFinished q)
      then show ?thesis using cb c Tick by simp
    next
      case (JointPositions q)
      have "ret (control_run l evs (d_add e (Fin r)) m1) (\<lambda>(r, m', cs). \<forall>c\<in>set cs. within_limits (1 / 2 ^ 45) (command_joints c))"
        using Cons.IH clock_add [OF Cons.prems(1) p(2)] Cons.prems(2) by simp
      then show ?thesis using cb c JointPositions Tick by (auto elim!: ret_conseq)
    qed
  qed simp
qed simp

lemma copied_starts_at_zero:
  assumes wf: "traj_wf t" and c: "copy_trajectory t = (Some l, t1)"
    and ok: "\<forall>d\<in>set (tb_t (Arm_traj t ! kRightArmIndex)). d_ok d"
    and z: "tb_t (Arm_traj t ! kRightArmIndex) ! 0 = Fin 0"
  shows "starts_at_zero l"
proof -
  let ?b = "Arm_traj (traj_set_state ARM_TRAJ_EXECUTING t) ! kRightArmIndex"
  have len: "length (Arm_traj t) = Arm_Num" using wf by (simp add: traj_wf_def)
  note b = tb_of_set_state [OF len, of ARM_TRAJ_EXECUTING]
  note l = copy_trajectory_content [OF c]
  have "Arm_traj t ! kRightArmIndex \<in> set (Arm_traj t)" using len by (simp add: kRightArmIndex_def)
  then have n: "length (tb_t (Arm_traj t ! kRightArmIndex)) = 1000" using wf by (auto simp: traj_wf_def)
  have "valid_traj l" using copy_trajectory_valid [OF wf] c by simp
  moreover have "\<forall>t\<in>set (snd l). d_ok t" using ok n l(2,3) by (auto simp: l(1) b)
  moreover have "snd l ! 0 = Fin 0" using z l(2) by (simp add: l(1) b)
  ultimately show ?thesis by (simp add: starts_at_zero_def)
qed

definition traj_done :: "ArmTrajShm \<Rightarrow> bool" where
  "traj_done t \<longleftrightarrow> tb_state (Arm_traj t ! kRightArmIndex) = ARM_TRAJ_DONE"

text \<open>
  C3: Whatever is in the trajectory buffer, if its times are doubles and the first one is zero,
  executing it returns from every callback, and every joint position sent to the robot is a
  vector of seven finite numbers within the joint limits, up to \<open>2\<^sup>-\<^sup>4\<^sup>5\<close> rad of rounding. When the
  execution is over, normally, by rejection or by an exception, the buffer is marked done.
\<close>

theorem commands_within_limits:
  assumes "traj_wf t" "\<forall>d\<in>set (tb_t (Arm_traj t ! kRightArmIndex)). d_ok d"
    "tb_t (Arm_traj t ! kRightArmIndex) ! 0 = Fin 0" "\<forall>ev\<in>set evs. tick_ok ev"
  shows "\<exists>r m' t' cs. executeTrajFromShm evs (Some m) (Some t) = Some (r, Some m', Some t', cs) \<and>
    (\<forall>c\<in>set cs. within_limits (1 / 2 ^ 45) (command_joints c)) \<and> (r \<noteq> Moving \<longrightarrow> traj_done t')"
proof -
  have len: "length (Arm_traj t) = Arm_Num" using assms(1) by (simp add: traj_wf_def)
  have len': "length (Arm_traj (traj_set_state v t)) = Arm_Num" for v
    using len by (simp add: traj_set_state_def upd_traj_def)
  obtain lo t1 where c: "copy_trajectory t = (lo, t1)" by (cases "copy_trajectory t")
  show ?thesis
  proof (cases lo)
    case None
    then have "t1 = traj_set_state ARM_TRAJ_DONE (traj_set_state ARM_TRAJ_EXECUTING t)"
      using c by (auto simp: copy_trajectory_def Let_def split: if_splits option.splits)
    then have "traj_done t1" using tb_of_set_state(4) [OF len'] by (simp add: traj_done_def)
    then show ?thesis using None c by (simp add: executeTrajFromShm_def)
  next
    case (Some l)
    have z: "starts_at_zero l" using copied_starts_at_zero assms c Some by blast
    have t1: "t1 = traj_set_state ARM_TRAJ_EXECUTING t" using copy_trajectory_content c Some by blast
    have d: "traj_done (traj_set_state ARM_TRAJ_DONE t1)"
      unfolding t1 using tb_of_set_state(4) [OF len'] by (simp add: traj_done_def)
    from control_run_within [OF z _ assms(4), of "Fin 0" m] obtain r m' cs
      where run: "control_run l evs (Fin 0) m = Some (r, m', cs)"
        and cs: "\<forall>c\<in>set cs. within_limits (1 / 2 ^ 45) (command_joints c)" by (auto simp: ret_def)
    show ?thesis
      using cs d by (cases r) (simp_all add: executeTrajFromShm_def c Some run markTrajectoryDone_def Let_def)
  qed
qed

definition demo_buf :: ArmTrajBuf where
  "demo_buf = zero_traj_buf\<lparr>
     tb_q := (tb_q zero_traj_buf)[0 := [Fin 0, Fin 0, Fin 0, Fin (- 1), Fin 0, Fin 1, Fin 0],
       1 := [Fin 1, Fin 0, Fin 0, Fin (- 1), Fin 0, Fin 1, Fin 0]],
     tb_t := (tb_t zero_traj_buf)[1 := Fin 1], tb_len := 2, tb_state := ARM_TRAJ_PENDING\<rparr>"

definition demo_traj :: ArmTrajShm where
  "demo_traj = zero_traj_shm\<lparr>Arm_traj := [demo_buf]\<rparr>"

definition demo_robot :: robot_state where
  "demo_robot = \<lparr>rs_q = replicate 7 (Fin 0), rs_dq = replicate 7 (Fin 0), rs_tau_J = replicate 7 (Fin 0),
     rs_O_T_EE = replicate 16 (Fin 0)\<rparr>"

lemma demo_traj_ok:
  "traj_wf demo_traj" "\<forall>d\<in>set (tb_t (Arm_traj demo_traj ! kRightArmIndex)). d_ok d"
  "tb_t (Arm_traj demo_traj ! kRightArmIndex) ! 0 = Fin 0"
proof -
  have "rnd 0 = Fin 0" "rnd 1 = Fin 1" by (simp_all add: rnd_def)
  then have d: "d_ok (Fin 0)" "d_ok (Fin 1)" by (simp_all add: d_ok_def is_double_def)
  show "traj_wf demo_traj"
    by (auto simp: traj_wf_def demo_traj_def demo_buf_def zero_traj_buf_def dest!: set_update_subset_insert [THEN subsetD])
  show "\<forall>d\<in>set (tb_t (Arm_traj demo_traj ! kRightArmIndex)). d_ok d"
    using d by (auto simp: demo_traj_def demo_buf_def zero_traj_buf_def kRightArmIndex_def dest!: set_update_subset_insert [THEN subsetD])
  show "tb_t (Arm_traj demo_traj ! kRightArmIndex) ! 0 = Fin 0"
    by (simp add: demo_traj_def demo_buf_def zero_traj_buf_def kRightArmIndex_def)
qed

theorem commands_within_limits_witness:
  "\<exists>r m' t' cs. executeTrajFromShm [Tick demo_robot (Fin 1), Throw] (Some zero_shm) (Some demo_traj)
      = Some (r, Some m', Some t', cs) \<and>
    (\<forall>c\<in>set cs. within_limits (1 / 2 ^ 45) (command_joints c)) \<and> (r \<noteq> Moving \<longrightarrow> traj_done t')"
  by (rule commands_within_limits [OF demo_traj_ok]) simp

section \<open>Every execution ends\<close>

fun long_tick :: "robot_event \<Rightarrow> bool" where
  "long_tick (Tick st (Fin r)) \<longleftrightarrow> 1 / 2048 \<le> r"
| "long_tick _ \<longleftrightarrow> False"

fun plain_tick :: "robot_event \<Rightarrow> bool" where
  "plain_tick (Tick st (Fin r)) \<longleftrightarrow> 0 \<le> r \<and> r \<le> 1"
| "plain_tick _ \<longleftrightarrow> False"

lemma plain_tickE: "plain_tick ev \<Longrightarrow> (\<And>st r. ev = Tick st (Fin r) \<Longrightarrow> 0 \<le> r \<Longrightarrow> r \<le> 1 \<Longrightarrow> P) \<Longrightarrow> P"
  by (cases ev rule: plain_tick.cases) auto

lemma stop_time:
  assumes "0 \<le> tot" "tot \<le> 2 ^ 39"
  obtains T where "d_add (Fin tot) (rnd (5 / 100)) = Fin T" "0 < T" "T \<le> tot + 1"
proof -
  define k where "k = rnd_fin (5 / 100)"
  have r: "rnd (5 / 100) = Fin k" unfolding k_def by (intro rnd_small) simp
  have "\<bar>k - 5 / 100\<bar> \<le> 1 / 100"
    unfolding k_def using rnd_fin_error [of "5 / 100"] by (rule order_trans) simp
  then have s: "4 / 100 \<le> tot + k" "tot + k \<le> tot + 6 / 100" using assms(1) by linarith+
  have e: "\<bar>rnd_fin (tot + k) - (tot + k)\<bar> \<le> 1 / 100"
  proof (rule order_trans [OF rnd_fin_error])
    have "\<bar>tot + k\<bar> / 2 ^ 53 \<le> 2 ^ 40 / 2 ^ 53"
      using s assms by (intro divide_right_mono) (simp_all add: abs_le_iff)
    also have "2 ^ 40 / 2 ^ 53 + 1 / 2 ^ 1074 \<le> (1 / 100 :: rat)" by simp
    finally show "\<bar>tot + k\<bar> / 2 ^ 53 + 1 / 2 ^ 1074 \<le> 1 / 100" by simp
  qed
  have "rnd (tot + k) = Fin (rnd_fin (tot + k))" using s assms by (intro rnd_small) (simp add: abs_le_iff)
  moreover have "0 < rnd_fin (tot + k)" "rnd_fin (tot + k) \<le> tot + 1" using s e by linarith+
  ultimately show ?thesis using that r by simp
qed

text \<open>The callback returns whenever there is a segment, or the only way point is due from the start.\<close>

definition has_segment :: "local_traj \<Rightarrow> bool" where
  "has_segment l \<longleftrightarrow> 2 \<le> length (snd l) \<or> snd l ! 0 = Fin 0"

lemma desired_returns:
  assumes v: "valid_traj l" and h: "has_segment l" and x: "0 \<le> x"
  shows "\<exists>q. desired l (Fin x) = Some q"
proof (cases "2 \<le> length (snd l)")
  case True
  have "find_seg (snd l) (Fin x) + 1 < length (snd l)"
    using True by (auto simp: find_seg_def find_Some_iff split: option.split)
  moreover have "length (fst l) = length (snd l)" using v by (simp add: valid_traj_def)
  ultimately show ?thesis by (simp add: desired_def split_def get_at_def Let_def)
next
  case False
  then have "length (snd l) - 1 = 0" "snd l ! 0 = Fin 0" using h by (simp_all add: has_segment_def)
  then show ?thesis using x by (simp add: desired_def split_def)
qed

lemma callback_returns:
  assumes "valid_traj l" "has_segment l" "0 \<le> y" "d_add (Fin x) (Fin r) = Fin y"
  shows "\<exists>m1 c. control_callback l (Fin x) st (Fin r) m = Some (Fin y, m1, c)"
  using desired_returns [OF assms(1-3)] unfolding control_callback_def split_def Let_def assms(4) by auto

lemma control_run_ends:
  assumes z: "valid_traj l" "has_segment l" and tot: "snd l ! (length (snd l) - 1) = Fin tot"
    and T: "d_add (Fin tot) (rnd (5 / 100)) = Fin T" "T \<le> tot + 1" and b: "tot \<le> 2 ^ 39"
    and x: "0 \<le> x" "x < T" "rnd_fin x = x"
    and ticks: "\<forall>ev\<in>set evs. plain_tick ev"
    and enough: "tot + 1 \<le> x + of_nat (length (filter long_tick evs)) / 4096"
  shows "ret (control_run l evs (Fin x) m) (\<lambda>(r, m', cs). r = Ended)"
  using x ticks enough
proof (induction evs arbitrary: x m)
  case Nil
  then show ?case using T(2) by simp
next
  case (Cons ev evs)
  from Cons.prems obtain st r where ev: "ev = Tick st (Fin r)" "0 \<le> r" "r \<le> 1" by (auto elim: plain_tickE)
  let ?y = "rnd_fin (x + r)"
  have xb: "x \<le> 2 ^ 40" using Cons.prems(2) T(2) b by simp
  have add: "d_add (Fin x) (Fin r) = Fin ?y" using Cons.prems(1) xb ev by (simp add: rnd_small)
  have xy: "x \<le> ?y" using rnd_fin_mono [of x "x + r"] Cons.prems(3) ev(2) by simp
  have step: "x + (if long_tick ev then 1 / 4096 else 0) \<le> ?y"
    using xy binary64.clock_advances [of x r] Cons.prems(1) xb ev by auto
  have "0 \<le> ?y" using xy Cons.prems(1) by simp
  from callback_returns [OF z this add, of st m] obtain m1 c
    where cb: "control_callback l (Fin x) st (Fin r) m = Some (Fin ?y, m1, c)" by blast
  then have c: "c = (if T \<le> ?y then MotionFinished (fst l ! (length (snd l) - 1)) else c)"
    and nc: "\<not> T \<le> ?y \<Longrightarrow> \<exists>q. c = JointPositions q"
    by (auto simp: control_callback_def split_def Let_def tot tot [unfolded One_nat_def] T(1) [simplified] add bind_eq_Some_conv simp del: d_add.simps)
  show ?case
  proof (cases "T \<le> ?y")
    case True
    then have "c = MotionFinished (fst l ! (length (snd l) - 1))" using c by simp
    then show ?thesis using cb ev(1) by simp
  next
    case False
    then obtain q where q: "c = JointPositions q" using nc by blast
    have "tot + 1 \<le> ?y + of_nat (length (filter long_tick evs)) / 4096"
      using Cons.prems(5) step by (auto simp: add_divide_distrib split: if_splits)
    then have "ret (control_run l evs (Fin ?y) m1) (\<lambda>(r, m', cs). r = Ended)"
      by (intro Cons.IH) (use False Cons.prems xy rnd_fin_idem in simp_all)
    then show ?thesis using cb ev(1) q by (auto elim!: ret_conseq)
  qed
qed

lemma control_run_targets:
  "control_run l evs e m = Some (r, m', cs) \<Longrightarrow> Arm_j_tar m' = Arm_j_tar m"
proof (induction evs arbitrary: e m cs)
  case (Cons ev evs)
  show ?case
  proof (cases ev)
    case (Tick st p)
    with Cons.prems obtain e1 m1 c where cb: "control_callback l e st p m = Some (e1, m1, c)"
      by (auto simp: bind_eq_Some_conv)
    then have "Arm_j_tar m1 = Arm_j_tar m"
      by (auto simp: control_callback_def split_def Let_def bind_eq_Some_conv publish_joints_def)
    with Cons Tick cb show ?thesis by (cases c) (auto simp: bind_eq_Some_conv)
  qed (use Cons in simp)
qed simp

definition total_duration :: "ArmTrajBuf \<Rightarrow> dbl" where
  "total_duration b = tb_t b ! (nat (tb_len b) - 1)"

text \<open>
  C4: A pending trajectory that passes the checks of the copy is followed to its end, whether it starts
  at time zero or later. Conditions: it has two points or more, or its only point is at time zero
  (a single point at a later time reads past the vectors, see \<open>single_point_reads_past\<close>); it lasts at
  most \<open>2\<^sup>3\<^sup>9\<close> seconds; and the robot calls back without an exception, with periods of at most one second
  of which at least 4096 per second of motion, and for one second more, are half a millisecond or longer.
  Then the motion has finished, the buffer is marked done, and both the returned position and the
  target of the single-point mode are its last way point.
\<close>

theorem trajectory_completes:
  assumes "traj_wf t"
    "tb_t (Arm_traj t ! kRightArmIndex) ! 0 = Fin 0 \<or> 2 \<le> tb_len (Arm_traj t ! kRightArmIndex)"
    "fst (copy_trajectory t) = Some l"
    "total_duration (Arm_traj t ! kRightArmIndex) = Fin tot" "tot \<le> 2 ^ 39"
    "\<forall>ev\<in>set evs. plain_tick ev" "4096 * (tot + 1) \<le> of_nat (length (filter long_tick evs))"
    "length (Arm_j_tar m) = Arm_Num"
  shows "\<exists>m' t' cs. executeTrajFromShm evs (Some m) (Some t) = Some (Returned (last (fst l)), Some m', Some t', cs) \<and>
    traj_done t' \<and> Arm_j_tar m' ! kRightArmIndex = last (fst l)"
proof -
  obtain t1 where c: "copy_trajectory t = (Some l, t1)" using assms(3) by (cases "copy_trajectory t") simp
  have len: "length (Arm_traj t) = Arm_Num" using assms(1) by (simp add: traj_wf_def)
  have val: "valid_traj l" by (rule copy_trajectory_valid [OF assms(1,3)])
  note con = copy_trajectory_content [OF c]
  note b = tb_of_set_state [OF len, of ARM_TRAJ_EXECUTING]
  have n: "0 < nat (tb_len (Arm_traj t ! kRightArmIndex))" using con(2) by (simp add: b)
  have tl: "snd l ! (length (snd l) - 1) = Fin tot"
    using assms(4) n by (simp add: con(1) b total_duration_def)
  have h: "has_segment l" using assms(2) n by (auto simp: has_segment_def con(1) b)
  from val have "fst l \<noteq> []" "length (fst l) = length (snd l)" unfolding valid_traj_def by auto
  then have ne: "last (fst l) \<in> set (fst l)" "length (snd l) - 1 < length (snd l)"
    by (simp, metis diff_less length_greater_0_conv zero_less_one)
  have v: "length (last (fst l)) = Arm_DOF" using val ne(1) unfolding valid_traj_def by blast
  have "\<not> d_lt (snd l ! (length (snd l) - 1)) (Fin 0)"
    using val nth_mem [OF ne(2)] unfolding valid_traj_def by blast
  then have tot0: "0 \<le> tot" unfolding tl by simp
  obtain T where T: "d_add (Fin tot) (rnd (5 / 100)) = Fin T" "0 < T" "T \<le> tot + 1"
    using stop_time [OF tot0 assms(5)] by blast
  have enough: "tot + 1 \<le> 0 + of_nat (length (filter long_tick evs)) / 4096" using assms(7) by simp
  have "ret (control_run l evs (Fin 0) m) (\<lambda>(r, m', cs). r = Ended)"
    by (rule control_run_ends [OF val h tl T(1,3) assms(5) _ T(2) _ assms(6) enough]) simp_all
  then obtain m' cs where run: "control_run l evs (Fin 0) m = Some (Ended, m', cs)" by (auto simp: ret_def)
  have "Arm_j_tar m' = Arm_j_tar m" using control_run_targets [OF run] .
  then show ?thesis using assms(8) v len
    by (simp add: executeTrajFromShm_def c run Let_def traj_done_def con(4) tb_of_set_state kRightArmIndex_def)
      (simp add: traj_set_state_def upd_traj_def kRightArmIndex_def)
qed

section \<open>What the checks miss\<close>

lemma validate_joint_int:
  assumes "lo \<le> of_int n" "of_int n \<le> hi" "\<bar>n\<bar> \<le> 8" "- 8 \<le> lo" "hi \<le> 8"
  shows "validate_joint (Fin (of_int n)) (rnd lo, rnd hi)"
proof -
  have "rnd lo = Fin (rnd_fin lo)" "rnd hi = Fin (rnd_fin hi)"
    using assms by (auto intro!: rnd_small simp: abs_le_iff)
  moreover have "rnd_fin lo \<le> of_int n" "of_int n \<le> rnd_fin hi"
    using rnd_fin_mono [OF assms(1)] rnd_fin_mono [OF assms(2)] rnd_fin_int [of n] assms(3) by simp_all
  ultimately show ?thesis by simp
qed

lemma validate_int:
  assumes "\<bar>n\<bar> \<le> 2"
  shows "validateWaypoint [Fin (of_int n), Fin 0, Fin 0, Fin (- 1), Fin 0, Fin 1, Fin 0]"
proof -
  have b: "- 2 \<le> (of_int n :: rat)" "(of_int n :: rat) \<le> 2" using assms by (simp_all add: abs_le_iff)
  have "validate_joint (Fin 0) (rnd lo, rnd hi)" if "lo \<le> 0" "0 \<le> hi" "- 8 \<le> lo" "hi \<le> 8" for lo hi
    using validate_joint_int [of lo 0 hi] that by simp
  moreover have "validate_joint (Fin (- 1)) (rnd lo, rnd hi)" if "lo \<le> - 1" "- 1 \<le> hi" "- 8 \<le> lo" "hi \<le> 8" for lo hi
    using validate_joint_int [of lo "- 1" hi] that by simp
  moreover have "validate_joint (Fin 1) (rnd lo, rnd hi)" if "lo \<le> 1" "1 \<le> hi" "- 8 \<le> lo" "hi \<le> 8" for lo hi
    using validate_joint_int [of lo 1 hi] that by simp
  moreover have "validate_joint (Fin (of_int n)) (rnd (- 27437 / 10000), rnd (27437 / 10000))"
    using b assms by (intro validate_joint_int) (simp_all add: abs_le_iff)
  ultimately show ?thesis
    by (simp add: validateWaypoint_def kFr3LowerJointLimits_def kFr3UpperJointLimits_def del: validate_joint.simps)
qed

lemma demo_copy:
  "fst (copy_trajectory demo_traj) = Some ([[Fin 0, Fin 0, Fin 0, Fin (- 1), Fin 0, Fin 1, Fin 0],
      [Fin 1, Fin 0, Fin 0, Fin (- 1), Fin 0, Fin 1, Fin 0]], [Fin 0, Fin 1])"
  using validate_int [of 0] validate_int [of 1]
  by (simp add: copy_trajectory_def demo_traj_def demo_buf_def zero_traj_buf_def traj_set_state_def upd_traj_def
      kRightArmIndex_def Let_def copy_point_def eval_nat_numeral)

theorem trajectory_completes_witness:
  "\<exists>m' t' cs. executeTrajFromShm (replicate 8192 (Tick demo_robot (Fin 1))) (Some zero_shm) (Some demo_traj)
      = Some (Returned [Fin 1, Fin 0, Fin 0, Fin (- 1), Fin 0, Fin 1, Fin 0], Some m', Some t', cs) \<and>
    traj_done t' \<and> Arm_j_tar m' ! kRightArmIndex = [Fin 1, Fin 0, Fin 0, Fin (- 1), Fin 0, Fin 1, Fin 0]"
proof -
  have "total_duration (Arm_traj demo_traj ! kRightArmIndex) = Fin 1"
    by (simp add: total_duration_def demo_traj_def demo_buf_def zero_traj_buf_def kRightArmIndex_def)
  then show ?thesis
    using trajectory_completes [OF demo_traj_ok(1) disjI1 [OF demo_traj_ok(3)] demo_copy, of 1 "replicate 8192 (Tick demo_robot (Fin 1))" zero_shm]
    by (simp add: zero_shm_def)
qed

text \<open>A buffer with the given points and times, followed by zeros.\<close>

definition buf_of :: "joints list \<Rightarrow> dbl list \<Rightarrow> ArmTrajBuf" where
  "buf_of ws ts = zero_traj_buf\<lparr>tb_q := ws @ drop (length ws) (tb_q zero_traj_buf),
     tb_t := ts @ drop (length ts) (tb_t zero_traj_buf), tb_len := int (length ws), tb_state := ARM_TRAJ_PENDING\<rparr>"

definition traj_of :: "joints list \<Rightarrow> dbl list \<Rightarrow> ArmTrajShm" where
  "traj_of ws ts = zero_traj_shm\<lparr>Arm_traj := [buf_of ws ts]\<rparr>"

lemmas traj_of_defs = traj_of_def buf_of_def zero_traj_buf_def traj_set_state_def upd_traj_def
  kRightArmIndex_def copy_trajectory_def Let_def copy_point_def eval_nat_numeral

definition side :: "int \<Rightarrow> joints" where
  "side n = [Fin (of_int n), Fin 0, Fin 0, Fin (- 1), Fin 0, Fin 1, Fin 0]"

lemma rnd_int [simp]: "\<bar>n\<bar> \<le> 64 \<Longrightarrow> rnd (of_int n) = Fin (of_int n)"
proof -
  assume n: "\<bar>n\<bar> \<le> 64"
  then have "\<bar>of_int n\<bar> \<le> (64 :: rat)" by (metis of_int_abs of_int_le_iff of_int_numeral)
  then show ?thesis using rnd_small [of "of_int n"] rnd_fin_int [of n] n by simp
qed

lemma rnd_numeral [simp]:
  "rnd 0 = Fin 0" "rnd 1 = Fin 1" "rnd (- 1) = Fin (- 1)"
  "(numeral k :: int) \<le> 64 \<Longrightarrow> rnd (numeral k) = Fin (numeral k)"
  "(numeral k :: int) \<le> 64 \<Longrightarrow> rnd (- numeral k) = Fin (- numeral k)"
  using rnd_int [of 0] rnd_int [of 1] rnd_int [of "- 1"] rnd_int [of "numeral k"] rnd_int [of "- numeral k"] by simp_all

text \<open>
  The time of the first way point is not checked, and before that time the search for a
  segment finds none and falls back to the first one, which is then extrapolated backwards. Two
  way points 2 and -2 rad of the first joint, at 1 s and 2 s, pass every check, and the first
  command asks for 6 rad, outside every joint's range.
\<close>

theorem early_start_extrapolates:
  "\<exists>m' t' q. executeTrajFromShm [Tick demo_robot (Fin 0)] (Some zero_shm) (Some (traj_of [side 2, side (- 2)] [Fin 1, Fin 2]))
      = Some (Moving, m', t', [JointPositions q]) \<and> q ! 0 = Fin 6 \<and> \<not> within_limits 3 q"
proof -
  obtain T where T: "d_add (Fin 2) (rnd (1 / 20)) = Fin T" "0 < T"
    using stop_time [of 2] by auto
  have "rnd (1 / 1000000000) = Fin (rnd_fin (1 / 1000000000))" by (intro rnd_small) simp
  moreover have "rnd_fin (1 / 1000000000) < 1"
    using binary64.near(2) [of "1 / 1000000000"] by (rule le_less_trans) simp_all
  ultimately have nano: "d_lt (rnd (1 / 1000000000)) (Fin 1)" by simp
  have c: "copy_trajectory (traj_of [side 2, side (- 2)] [Fin 1, Fin 2])
      = (Some ([side 2, side (- 2)], [Fin 1, Fin 2]),
         traj_set_state ARM_TRAJ_EXECUTING (traj_of [side 2, side (- 2)] [Fin 1, Fin 2]))"
    using validate_int [of 2] validate_int [of "- 2"] by (simp add: traj_of_defs side_def)
  have d: "desired ([side 2, side (- 2)], [Fin 1, Fin 2]) (Fin 0)
      = Some [Fin 6, Fin 0, Fin 0, Fin (- 1), Fin 0, Fin 1, Fin 0]"
    using nano by (simp add: desired_def find_seg_def get_at_def seg_alpha_def lerp7_def side_def d_sub_def Let_def)
  have "rnd_fin (27437 / 10000) \<le> 27437 / 10000 + 1 / 2 ^ 47" by (rule binary64.near) simp
  also have "\<dots> < (3 :: rat)" by simp
  finally have "rnd_fin (27437 / 10000) < 3" .
  moreover have "kFr3UpperJointLimits ! 0 = Fin (rnd_fin (27437 / 10000))"
    by (simp add: kFr3UpperJointLimits_def rnd_small)
  ultimately have "\<not> within_limits 3 [Fin 6, Fin 0, Fin 0, Fin (- 1), Fin 0, Fin 1, Fin 0]"
    by (auto simp: within_limits_def intro!: exI [of _ "0 :: nat"])
  moreover have "control_callback ([side 2, side (- 2)], [Fin 1, Fin 2]) (Fin 0) demo_robot (Fin 0) zero_shm
      = Some (Fin 0, publish_joints demo_robot zero_shm, JointPositions [Fin 6, Fin 0, Fin 0, Fin (- 1), Fin 0, Fin 1, Fin 0])"
  proof -
    have "d_add (Fin 0) (Fin 0) = Fin 0" by simp
    then show ?thesis using T by (simp add: control_callback_def d Let_def del: d_add.simps)
  qed
  ultimately show ?thesis by (simp add: executeTrajFromShm_def c)
qed

text \<open>
  A trajectory of a single way point at a positive time passes every check as well, but there
  is no segment to interpolate in: the first callback before that time reads the second element
  of vectors that have one.
\<close>

theorem single_point_reads_past:
  "executeTrajFromShm [Tick demo_robot (Fin 0)] (Some m) (Some (traj_of [side 0] [Fin 1])) = None"
  using validate_int [of 0]
  by (simp add: executeTrajFromShm_def traj_of_defs side_def control_callback_def desired_def find_seg_def get_at_def)

end
