(* ===== verification/Arm_Handover.thy ===== *)
theory Arm_Handover
  imports Arm_Bridge Arm_Props
begin

text \<open>
  The way of a trajectory from the ROS message through shared memory into the controller, when
  nothing else writes in between.
\<close>

definition point_ok :: "ArmTrajBuf \<Rightarrow> nat \<Rightarrow> bool" where
  "point_ok b k \<longleftrightarrow> validateWaypoint (take Arm_DOF (tb_q b ! k)) \<and> d_finite (tb_t b ! k) \<and>
     \<not> d_lt (tb_t b ! k) (Fin 0) \<and> (0 < k \<longrightarrow> \<not> d_le (tb_t b ! k) (tb_t b ! (k - 1)))"

lemma copy_points_iff:
  "copy_points b i n (map (\<lambda>k. take Arm_DOF (tb_q b ! k)) [0..<i], map (nth (tb_t b)) [0..<i]) =
    (if \<forall>k. i \<le> k \<and> k < i + n \<longrightarrow> point_ok b k
     then Some (map (\<lambda>k. take Arm_DOF (tb_q b ! k)) [0..<i + n], map (nth (tb_t b)) [0..<i + n]) else None)"
proof (induction n arbitrary: i)
  case (Suc n)
  let ?acc = "\<lambda>i. (map (\<lambda>k. take Arm_DOF (tb_q b ! k)) [0..<i], map (nth (tb_t b)) [0..<i])"
  have p: "copy_point b i (?acc i) = (if point_ok b i then Some (?acc (i + 1)) else None)"
  proof -
    have prev: "0 < i \<Longrightarrow> map (nth (tb_t b)) [0..<i] ! (i - 1) = tb_t b ! (i - 1)" by simp
    have snoc: "?acc (i + 1) = (map (\<lambda>k. take Arm_DOF (tb_q b ! k)) [0..<i] @ [take Arm_DOF (tb_q b ! i)],
        map (nth (tb_t b)) [0..<i] @ [tb_t b ! i])" by simp
    show ?thesis
      unfolding snoc point_ok_def copy_point_def Let_def prod.case
      using prev by (auto simp only: split: if_splits)
  qed
  show ?case
  proof (cases "point_ok b i")
    case True
    have "(\<forall>k. i \<le> k \<and> k < i + Suc n \<longrightarrow> point_ok b k) \<longleftrightarrow> (\<forall>k. i + 1 \<le> k \<and> k < i + 1 + n \<longrightarrow> point_ok b k)"
    proof (intro iffI allI impI)
      fix k assume h: "\<forall>k. i + 1 \<le> k \<and> k < i + 1 + n \<longrightarrow> point_ok b k" "i \<le> k \<and> k < i + Suc n"
      then have "k = i \<or> i + 1 \<le> k" by linarith
      then show "point_ok b k" using h True by auto
    qed simp
    then show ?thesis using Suc.IH [of "i + 1"] True p by (simp del: upt_Suc)
  next
    case False
    then show ?thesis using p by auto
  qed
qed simp

text \<open>When a message is accepted: its rows, in joint order, pass the limits and its times grow.\<close>

definition message_rows :: "joint_trajectory \<Rightarrow> joints list" where
  "message_rows msg = map (row_of (joint_index (joint_names msg))) (points msg)"

definition message_times :: "joint_trajectory \<Rightarrow> dbl list" where
  "message_times msg = map point_time (points msg)"

definition message_ok :: "joint_trajectory \<Rightarrow> bool" where
  "message_ok msg \<longleftrightarrow> (\<forall>k < length (points msg).
     validateWaypoint (message_rows msg ! k) \<and> d_finite (message_times msg ! k) \<and>
     \<not> d_lt (message_times msg ! k) (Fin 0) \<and>
     (0 < k \<longrightarrow> \<not> d_le (message_times msg ! k) (message_times msg ! (k - 1))))"

lemma length_word_32:
  "n \<le> 1000 \<Longrightarrow> sint (of_nat n :: 32 word) = int n"
proof -
  assume n: "n \<le> 1000"
  then show ?thesis by (simp add: signed_of_nat signed_take_bit_int_eq_self)
qed

lemma handover_buffer:
  assumes wf: "traj_wf t" and n: "0 < length (points msg)" "length (points msg) \<le> ARM_TRAJ_MAX_PTS"
  defines "b \<equiv> Arm_traj t ! kRightArmIndex"
  shows "Arm_traj (on_franka_trajectory msg t) ! kRightArmIndex = b\<lparr>
    tb_q := message_rows msg @ drop (length (points msg)) (tb_q b),
    tb_t := message_times msg @ drop (length (points msg)) (tb_t b),
    tb_len := int (length (points msg)), tb_state := ARM_TRAJ_PENDING\<rparr>"
proof -
  have len: "length (Arm_traj t) = Arm_Num" using wf by (simp add: traj_wf_def)
  have "b \<in> set (Arm_traj t)" unfolding b_def using len by (simp add: kRightArmIndex_def)
  then have bw: "length (tb_q b) = 1000" "length (tb_t b) = 1000" "\<forall>q\<in>set (tb_q b). length q = Arm_DOF"
    using wf by (auto simp: traj_wf_def)
  have s: "trajectory_stores msg = Store_len (int (length (points msg))) #
      concat (map (\<lambda>i. point_stores (joint_index (joint_names msg)) i (points msg ! i)) [0..<length (points msg)])
      @ [Store_state ARM_TRAJ_PENDING]"
    using n by (simp add: trajectory_stores_def Let_def length_word_32)
  show ?thesis
    unfolding on_franka_trajectory_def fold_apply_store [OF len] s b_def [symmetric]
    using fold_points [of "length (points msg)" "b\<lparr>tb_len := int (length (points msg))\<rparr>" "points msg"] bw n
    by (simp add: message_rows_def message_times_def)
qed

section \<open>The message as its sender means it\<close>

text \<open>
  A specification of a message without the handler's search: the joints of the robot by name, the
  value of a joint in a point, and the time of a point as a rational number of seconds. A message
  that does not name all joints is taken in the robot's order; a missing value is zero.
\<close>

definition robot_joints :: "string list" where
  "robot_joints = [''fr3_joint1'', ''fr3_joint2'', ''fr3_joint3'', ''fr3_joint4'', ''fr3_joint5'', ''fr3_joint6'', ''fr3_joint7'']"

definition point_joints :: "string list \<Rightarrow> trajectory_point \<Rightarrow> joints" where
  "point_joints names pt =
     (if set robot_joints \<subseteq> set names
      then map (\<lambda>n. case map_of (zip names (positions pt)) n of Some v \<Rightarrow> v | None \<Rightarrow> Fin 0) robot_joints
      else take 7 (positions pt @ replicate 7 (Fin 0)))"

definition point_seconds :: "trajectory_point \<Rightarrow> rat" where
  "point_seconds pt = of_int (sint (tfs_sec pt)) + of_nat (unat (tfs_nanosec pt)) / 10 ^ 9"

text \<open>A stored time: exact for whole seconds, otherwise rounded, and not to the other side of zero.\<close>

definition stored_time :: "trajectory_point \<Rightarrow> rat \<Rightarrow> bool" where
  "stored_time pt x \<longleftrightarrow> \<bar>x - point_seconds pt\<bar> \<le> 1 / 2 ^ 21 \<and>
     (0 \<le> sint (tfs_sec pt) \<longrightarrow> 0 \<le> x) \<and> (tfs_nanosec pt = 0 \<longrightarrow> x = of_int (sint (tfs_sec pt)))"

lemma find_of_map: "find P (map f xs) = map_option f (find (P \<circ> f) xs)"
  by (induction xs) simp_all

lemma find_nth_Some:
  assumes "find (\<lambda>k. ns ! k = s) [0..<length ns] = Some i"
  shows "map_of (zip ns vs) s = (if i < length vs then Some (vs ! i) else None)"
  using assms
proof (induction ns arbitrary: vs i)
  case (Cons n ns)
  have u: "[0..<Suc (length ns)] = 0 # map Suc [0..<length ns]" by (simp add: upt_conv_Cons map_Suc_upt del: upt_Suc)
  show ?case
  proof (cases "n = s")
    case True
    then have "i = 0" using Cons.prems by (simp add: u del: upt_Suc)
    then show ?thesis using True by (cases vs) simp_all
  next
    case False
    then have "find (\<lambda>k. ns ! k = s) [0..<length ns] = Some (i - 1) \<and> 0 < i"
      using Cons.prems by (auto simp: u find_of_map comp_def simp del: upt_Suc)
    then show ?thesis using Cons.IH [of "i - 1"] False by (cases vs) (auto simp: nth_Cons')
  qed
qed simp

lemma find_name_None: "find_name ns s = None \<longleftrightarrow> s \<notin> set ns"
  "None = find_name ns s \<longleftrightarrow> s \<notin> set ns"
  by (auto simp: find_name_def find_None_iff find_None_iff2 in_set_conv_nth)

lemma robot_joints_order: "robot_joints = kJointOrder"
  by (simp add: robot_joints_def kJointOrder_def)

lemma row_of_names: "row_of (joint_index names) pt = point_joints names pt"
proof (cases "set robot_joints \<subseteq> set names")
  case True
  then have n: "\<not> list_ex (\<lambda>i. i = None) (map (find_name names) kJointOrder)"
    by (auto simp: list_ex_iff find_name_None robot_joints_order)
  show ?thesis
  proof (rule nth_equalityI)
    show "length (row_of (joint_index names) pt) = length (point_joints names pt)"
      using True by (simp add: row_of_def point_joints_def robot_joints_def del: upt_conv_Cons)
    fix j assume "j < length (row_of (joint_index names) pt)"
    then have j: "j < 7" "j < length kJointOrder"
      by (simp_all add: row_of_def kJointOrder_def del: upt_conv_Cons)
    then have "kJointOrder ! j \<in> set names" using True unfolding robot_joints_order by (meson nth_mem subsetD)
    then obtain i where i: "find_name names (kJointOrder ! j) = Some i" using find_name_None(1) [of names "kJointOrder ! j"] by blast
    have "joint_index names ! j = i" using n i j by (simp add: joint_index_def Let_def)
    then have "row_of (joint_index names) pt ! j = (if i < length (positions pt) then positions pt ! i else Fin 0)"
      using j by (simp add: row_of_def point_position_def del: upt_conv_Cons)
    also have "\<dots> = point_joints names pt ! j"
      using True j find_nth_Some [OF i [unfolded find_name_def], of "positions pt"]
      by (simp add: point_joints_def robot_joints_order)
    finally show "row_of (joint_index names) pt ! j = point_joints names pt ! j" .
  qed
next
  case False
  then have "joint_index names = [0..<Arm_DOF]"
    by (auto simp: joint_index_def Let_def list_ex_iff find_name_None robot_joints_order)
  then show ?thesis using False
    by (intro nth_equalityI) (simp_all add: row_of_def point_position_def point_joints_def nth_append del: upt_conv_Cons)
qed

lemma nano_error:
  assumes "0 \<le> n" "n \<le> (2 ^ 32 :: rat)"
  shows "\<exists>p. d_mul (Fin n) (rnd (1 / 10 ^ 9)) = Fin p \<and> \<bar>p - n / 10 ^ 9\<bar> \<le> 1 / 2 ^ 46 \<and> 0 \<le> p \<and> (n = 0 \<longrightarrow> p = 0)"
proof -
  define k where "k = rnd_fin (1 / 10 ^ 9)"
  have r: "rnd (1 / 10 ^ 9) = Fin k" unfolding k_def by (intro rnd_small) simp
  have "\<bar>k - 1 / 10 ^ 9\<bar> \<le> 1 / 2 ^ 80" unfolding k_def by (rule order_trans [OF rnd_fin_error]) simp
  then have k: "0 \<le> k" "k \<le> 1 / 10 ^ 9 + 1 / 2 ^ 80" and d: "\<bar>n * k - n / 10 ^ 9\<bar> \<le> 1 / 2 ^ 48"
  proof -
    assume h: "\<bar>k - 1 / 10 ^ 9\<bar> \<le> 1 / 2 ^ 80"
    show "0 \<le> k" unfolding k_def by (rule rnd_fin_nonneg) simp
    show "k \<le> 1 / 10 ^ 9 + 1 / 2 ^ 80" using h by linarith
    have "\<bar>n * k - n / 10 ^ 9\<bar> = n * \<bar>k - 1 / 10 ^ 9\<bar>"
      using assms(1) by (simp add: abs_mult_pos' right_diff_distrib)
    also have "\<dots> \<le> 2 ^ 32 * (1 / 2 ^ 80)" by (rule mult_mono) (use assms h in simp_all)
    finally show "\<bar>n * k - n / 10 ^ 9\<bar> \<le> 1 / 2 ^ 48" by simp
  qed
  have "n / 10 ^ 9 \<le> 2 ^ 32 / 10 ^ 9" using assms(2) by (intro divide_right_mono) simp_all
  then have "n / 10 ^ 9 \<le> 9 / 2" by (rule order_trans) simp
  moreover have "(1 / 2 ^ 48 :: rat) \<le> 1 / 2" by simp
  ultimately have b: "n * k \<le> 5" using d by linarith
  have b0: "0 \<le> n * k" using assms(1) k(1) by simp
  have e: "\<bar>rnd_fin (n * k) - n * k\<bar> \<le> 1 / 2 ^ 48"
  proof (rule order_trans [OF rnd_fin_error])
    have "\<bar>n * k\<bar> / 2 ^ 53 \<le> 5 / 2 ^ 53" using b b0 by (intro divide_right_mono) simp_all
    also have "5 / 2 ^ 53 + 1 / 2 ^ 1074 \<le> (1 / 2 ^ 48 :: rat)" by simp
    finally show "\<bar>n * k\<bar> / 2 ^ 53 + 1 / 2 ^ 1074 \<le> 1 / 2 ^ 48" by simp
  qed
  have "rnd (n * k) = Fin (rnd_fin (n * k))" using b b0 by (intro rnd_small) simp
  then have "d_mul (Fin n) (rnd (1 / 10 ^ 9)) = Fin (rnd_fin (n * k))" unfolding r by simp
  moreover have "\<bar>rnd_fin (n * k) - n / 10 ^ 9\<bar> \<le> 1 / 2 ^ 46"
  proof -
    have "(1 / 2 ^ 48 + 1 / 2 ^ 48 :: rat) \<le> 1 / 2 ^ 46" by simp
    with d e show ?thesis by linarith
  qed
  moreover have "0 \<le> rnd_fin (n * k)" using b0 by (rule rnd_fin_nonneg)
  moreover have "n = 0 \<longrightarrow> rnd_fin (n * k) = 0" using rnd_fin_int [of 0] by simp
  ultimately show ?thesis by blast
qed

lemma of_int_bounds:
  assumes "- (2 ^ 31) \<le> i" "i \<le> 2 ^ 31"
  shows "- (2 ^ 31) \<le> (of_int i :: rat)" "(of_int i :: rat) \<le> 2 ^ 31"
proof -
  have "(of_int (- (2 ^ 31)) :: rat) \<le> of_int i" "(of_int i :: rat) \<le> of_int (2 ^ 31)"
    using assms by (simp_all only: of_int_le_iff)
  then show "- (2 ^ 31) \<le> (of_int i :: rat)" "(of_int i :: rat) \<le> 2 ^ 31" by simp_all
qed

lemma point_time_error: "\<exists>x. point_time pt = Fin x \<and> stored_time pt x"
proof -
  let ?s = "of_int (sint (tfs_sec pt)) :: rat" and ?n = "of_nat (unat (tfs_nanosec pt)) :: rat"
  have s: "- (2 ^ 31) \<le> ?s" "?s \<le> 2 ^ 31"
    using of_int_bounds [of "sint (tfs_sec pt)"] sint_ge [of "tfs_sec pt"] sint_lt [of "tfs_sec pt"] by simp_all
  have "unat (tfs_nanosec pt) \<le> 2 ^ 32" using unsigned_less [of "tfs_nanosec pt", where 'a = nat] by simp
  then have n: "?n \<le> 2 ^ 32" by (metis of_nat_le_iff of_nat_numeral of_nat_power)
  obtain p where p: "d_mul (Fin ?n) (rnd (1 / 10 ^ 9)) = Fin p" "\<bar>p - ?n / 10 ^ 9\<bar> \<le> 1 / 2 ^ 46"
    "0 \<le> p" "?n = 0 \<longrightarrow> p = 0" using nano_error [OF of_nat_0_le_iff n] by blast
  have "?n / 10 ^ 9 \<le> 2 ^ 32 / 10 ^ 9" using n by (intro divide_right_mono) simp_all
  then have "?n / 10 ^ 9 \<le> 9 / 2" by (rule order_trans) simp
  moreover have "0 \<le> ?n / 10 ^ 9" by (intro divide_nonneg_nonneg of_nat_0_le_iff) simp
  moreover have "(1 / 2 ^ 46 :: rat) \<le> 1 / 2" by simp
  ultimately have "- 1 \<le> p" "p \<le> 5" using p(2) by linarith+
  then have b: "\<bar>?s + p\<bar> \<le> 2 ^ 31 + 5" using s by (simp add: abs_le_iff)
  have "\<bar>rnd_fin (?s + p) - (?s + p)\<bar> \<le> 1 / 2 ^ 22 + 1 / 2 ^ 40"
  proof (rule order_trans [OF rnd_fin_error])
    have "\<bar>?s + p\<bar> / 2 ^ 53 \<le> (2 ^ 31 + 5) / 2 ^ 53" using b by (intro divide_right_mono) simp_all
    also have "(2 ^ 31 + 5) / 2 ^ 53 + 1 / 2 ^ 1074 \<le> (1 / 2 ^ 22 + 1 / 2 ^ 40 :: rat)" by simp
    finally show "\<bar>?s + p\<bar> / 2 ^ 53 + 1 / 2 ^ 1074 \<le> 1 / 2 ^ 22 + 1 / 2 ^ 40" by simp
  qed
  moreover have "1 / 2 ^ 22 + 1 / 2 ^ 40 + 1 / 2 ^ 46 \<le> (1 / 2 ^ 21 :: rat)" by simp
  ultimately have "\<bar>rnd_fin (?s + p) - point_seconds pt\<bar> \<le> 1 / 2 ^ 21"
    using p(2) unfolding point_seconds_def by linarith
  moreover have "0 \<le> sint (tfs_sec pt) \<longrightarrow> 0 \<le> rnd_fin (?s + p)"
    using p(3) by (intro impI rnd_fin_nonneg add_nonneg_nonneg) (simp_all only: of_int_0_le_iff)
  moreover have "tfs_nanosec pt = 0 \<longrightarrow> rnd_fin (?s + p) = ?s"
  proof
    assume "tfs_nanosec pt = 0"
    then have "p = 0" using p(4) by simp
    moreover have "\<bar>sint (tfs_sec pt)\<bar> \<le> 2 ^ 53"
      using sint_ge [of "tfs_sec pt"] sint_lt [of "tfs_sec pt"] by simp
    ultimately show "rnd_fin (?s + p) = ?s" using rnd_fin_int [of "sint (tfs_sec pt)"] by simp
  qed
  ultimately have "stored_time pt (rnd_fin (?s + p))" by (simp add: stored_time_def)
  moreover have "rnd (?s + p) = Fin (rnd_fin (?s + p))" using b by (intro rnd_small) simp
  ultimately show ?thesis unfolding point_time_def p(1) by simp
qed

lemma handover_copy:
  assumes "traj_wf t" "0 < length (points msg)" "length (points msg) \<le> ARM_TRAJ_MAX_PTS"
  shows "tb_state (Arm_traj (on_franka_trajectory msg t) ! kRightArmIndex) = ARM_TRAJ_PENDING \<and>
    fst (copy_trajectory (on_franka_trajectory msg t)) =
      (if message_ok msg then Some (message_rows msg, message_times msg) else None) \<and>
    (\<not> message_ok msg \<longrightarrow> traj_done (snd (copy_trajectory (on_franka_trajectory msg t))))"
proof -
  let ?t = "on_franka_trajectory msg t" and ?n = "length (points msg)"
  have len0: "length (Arm_traj t) = Arm_Num" using assms(1) by (simp add: traj_wf_def)
  have "length (Arm_traj (fold apply_store ss t)) = Arm_Num" for ss
    using len0 by (induction ss arbitrary: t) (simp_all add: apply_store_def)
  then have len: "length (Arm_traj ?t) = Arm_Num" by (simp add: on_franka_trajectory_def)
  note hb = handover_buffer [OF assms]
  define b where "b = Arm_traj (traj_set_state ARM_TRAJ_EXECUTING ?t) ! kRightArmIndex"
  have b: "tb_len b = int ?n" "tb_q b = message_rows msg @ drop ?n (tb_q (Arm_traj t ! kRightArmIndex))"
    "tb_t b = message_times msg @ drop ?n (tb_t (Arm_traj t ! kRightArmIndex))"
    using tb_of_set_state [OF len] hb by (simp_all add: b_def)
  have rows: "length (message_rows msg) = ?n" "length (message_times msg) = ?n"
    by (simp_all add: message_rows_def message_times_def)
  have rl: "take Arm_DOF (message_rows msg ! k) = message_rows msg ! k" if "k < ?n" for k
    using that by (simp add: message_rows_def row_of_def del: upt_conv_Cons)
  have ok: "point_ok b k \<longleftrightarrow> validateWaypoint (message_rows msg ! k) \<and> d_finite (message_times msg ! k) \<and>
     \<not> d_lt (message_times msg ! k) (Fin 0) \<and>
     (0 < k \<longrightarrow> \<not> d_le (message_times msg ! k) (message_times msg ! (k - 1)))" if k: "k < ?n" for k
  proof -
    have "k - 1 < ?n" using k by simp
    then show ?thesis using k rl [OF k] by (simp add: point_ok_def b rows nth_append)
  qed
  have q: "map (\<lambda>k. take Arm_DOF (tb_q b ! k)) [0..<?n] = message_rows msg"
    using rl by (intro nth_equalityI) (simp_all add: rows b nth_append)
  have tt: "map (nth (tb_t b)) [0..<?n] = message_times msg"
    by (intro nth_equalityI) (simp_all add: rows b nth_append)
  have c: "copy_points b 0 ?n ([], []) = (if message_ok msg then Some (message_rows msg, message_times msg) else None)"
  proof -
    have "(\<forall>k. 0 \<le> k \<and> k < 0 + ?n \<longrightarrow> point_ok b k) \<longleftrightarrow> message_ok msg" by (simp add: message_ok_def ok)
    then show ?thesis using copy_points_iff [of b 0 ?n] by (simp only: q tt add_0 upt_0 list.map(1))
  qed
  have n: "\<not> int ?n \<le> 0" "\<not> 1000 < int ?n" using assms by simp_all
  have "fst (copy_trajectory ?t) = (if message_ok msg then Some (message_rows msg, message_times msg) else None)"
    using n c by (simp add: copy_trajectory_def Let_def b_def [symmetric] b)
  moreover have "traj_done (snd (copy_trajectory ?t))" if "\<not> message_ok msg"
    using n c that tb_of_set_state(4) [of "traj_set_state ARM_TRAJ_EXECUTING ?t"] len
    by (simp add: copy_trajectory_def Let_def b_def [symmetric] b traj_done_def)
      (simp add: traj_set_state_def traj_done_def)
  ultimately show ?thesis by (simp add: hb)
qed

text \<open>
  C5: What the bridge writes is what the controller follows. After a trajectory message of 1 to
  1000 points the buffer is pending, and the controller's copy has for each point of the message the values
  its sender gave to the robot's seven joints, by name and in whatever order the message lists them (in
  the order given if the message does not name all seven; a missing value is zero), and
  a time that is its seconds and nanoseconds, exact for whole seconds and otherwise within \<open>2\<^sup>-\<^sup>2\<^sup>1\<close> s, provided every joint of every point is within
  its limits and the times so rounded are not negative and increase strictly; otherwise the trajectory
  is refused and marked done.
\<close>

theorem trajectory_handover:
  assumes "traj_wf t" "0 < length (points msg)" "length (points msg) \<le> ARM_TRAJ_MAX_PTS"
  shows "\<exists>ts. length ts = length (points msg) \<and>
    (\<forall>k < length ts. stored_time (points msg ! k) (ts ! k)) \<and>
    tb_state (Arm_traj (on_franka_trajectory msg t) ! kRightArmIndex) = ARM_TRAJ_PENDING \<and>
    (if (\<forall>pt\<in>set (points msg). within_limits 0 (point_joints (joint_names msg) pt)) \<and>
        0 \<le> ts ! 0 \<and> sorted_wrt (<) ts
     then fst (copy_trajectory (on_franka_trajectory msg t)) =
       Some (map (point_joints (joint_names msg)) (points msg), map Fin ts)
     else fst (copy_trajectory (on_franka_trajectory msg t)) = None \<and>
       traj_done (snd (copy_trajectory (on_franka_trajectory msg t))))"
proof -
  let ?n = "length (points msg)"
  define ts where "ts = map (\<lambda>pt. SOME x. point_time pt = Fin x \<and> stored_time pt x) (points msg)"
  have t: "point_time pt = Fin (SOME x. point_time pt = Fin x \<and> stored_time pt x) \<and>
      stored_time pt (SOME x. point_time pt = Fin x \<and> stored_time pt x)" for pt
    by (rule someI_ex [OF point_time_error])
  have len: "length ts = ?n" by (simp add: ts_def)
  have near: "\<forall>k < length ts. stored_time (points msg ! k) (ts ! k)"
    using t by (simp add: ts_def)
  have times: "message_times msg = map Fin ts" using t by (simp add: message_times_def ts_def)
  have rows: "message_rows msg = map (point_joints (joint_names msg)) (points msg)"
    by (simp add: message_rows_def row_of_names)
  have dof: "length (point_joints ns pt) = Arm_DOF" for ns pt
    by (auto simp: point_joints_def robot_joints_def min_def)
  have nonneg: "0 \<le> ts ! k" if "sorted_wrt (<) ts" "0 \<le> ts ! 0" "k < ?n" for k
    using that len sorted_wrt_nth_less [of "(<)" ts 0 k] by (cases k) auto
  have steps: "sorted_wrt (<) ts \<longleftrightarrow> (\<forall>k < ?n. 0 < k \<longrightarrow> ts ! (k - 1) < ts ! k)"
  proof
    assume "\<forall>k < ?n. 0 < k \<longrightarrow> ts ! (k - 1) < ts ! k"
    then have "\<forall>i. Suc i < length ts \<longrightarrow> ts ! i < ts ! Suc i" using len by (metis diff_Suc_1 zero_less_Suc)
    then show "sorted_wrt (<) ts" by (simp add: sorted_wrt_iff_nth_Suc_transp)
  qed (simp add: sorted_wrt_nth_less len)
  have ok: "message_ok msg \<longleftrightarrow> (\<forall>k < ?n. within_limits 0 (point_joints (joint_names msg) (points msg ! k)) \<and>
      0 \<le> ts ! k \<and> (0 < k \<longrightarrow> ts ! (k - 1) < ts ! k))"
    by (simp add: message_ok_def rows times len validateWaypoint_iff dof not_less not_le)
  have "message_ok msg \<longleftrightarrow> (\<forall>pt\<in>set (points msg). within_limits 0 (point_joints (joint_names msg) pt)) \<and>
      0 \<le> ts ! 0 \<and> sorted_wrt (<) ts"
    unfolding ok steps using assms(2) nonneg steps by (auto simp: all_set_conv_all_nth)
  then show ?thesis using handover_copy [OF assms] len near by (intro exI [of _ ts]) (simp add: rows times)
qed

definition demo_message :: joint_trajectory where
  "demo_message = \<lparr>joint_names = rev kJointOrder,
     points = [\<lparr>positions = [Fin 0, Fin 1, Fin 0, Fin (- 1), Fin 0, Fin 0, Fin 2], tfs_sec = 0, tfs_nanosec = 0\<rparr>]\<rparr>"

lemma demo_message_rows: "message_rows demo_message = [side 2]"
  by (simp add: message_rows_def demo_message_def joint_index_def find_name_def kJointOrder_def row_of_def
      point_position_def side_def upt_rec)

lemma demo_message_ok: "message_ok demo_message" "message_times demo_message = [Fin 0]"
proof -
  show t: "message_times demo_message = [Fin 0]"
  proof -
    have "rnd (1 / 10 ^ 9) = Fin (rnd_fin (1 / 10 ^ 9))" by (intro rnd_small) simp
    then show ?thesis by (simp add: message_times_def demo_message_def point_time_def)
  qed
  show "message_ok demo_message"
    using validate_int [of 2] t by (simp add: message_ok_def demo_message_rows side_def) (simp add: demo_message_def)
qed

theorem trajectory_handover_witness:
  "fst (copy_trajectory (on_franka_trajectory demo_message demo_traj)) = Some ([side 2], [Fin 0]) \<and>
    tb_state (Arm_traj (on_franka_trajectory demo_message demo_traj) ! kRightArmIndex) = ARM_TRAJ_PENDING"
proof -
  have n: "length (points demo_message) = 1" by (simp add: demo_message_def)
  have r: "map (point_joints (joint_names demo_message)) (points demo_message) = [side 2]"
    using demo_message_rows unfolding message_rows_def row_of_names [abs_def] .
  have w: "within_limits 0 (side 2)" using validate_int [of 2] by (simp add: side_def flip: validateWaypoint_iff)
  obtain ts where ts: "length ts = 1" "stored_time (points demo_message ! 0) (ts ! 0)"
    "tb_state (Arm_traj (on_franka_trajectory demo_message demo_traj) ! kRightArmIndex) = ARM_TRAJ_PENDING"
    "if (\<forall>pt\<in>set (points demo_message). within_limits 0 (point_joints (joint_names demo_message) pt)) \<and>
        0 \<le> ts ! 0 \<and> sorted_wrt (<) ts
     then fst (copy_trajectory (on_franka_trajectory demo_message demo_traj)) = Some ([side 2], map Fin ts)
     else fst (copy_trajectory (on_franka_trajectory demo_message demo_traj)) = None \<and>
       traj_done (snd (copy_trajectory (on_franka_trajectory demo_message demo_traj)))"
    using trajectory_handover [OF demo_traj_ok(1), of demo_message] n by (auto simp: r)
  have "ts = [0]" using ts(1,2) by (auto simp: stored_time_def demo_message_def length_Suc_conv)
  moreover have "\<forall>pt\<in>set (points demo_message). within_limits 0 (point_joints (joint_names demo_message) pt)"
  proof
    fix pt assume "pt \<in> set (points demo_message)"
    then have "point_joints (joint_names demo_message) pt \<in> set [side 2]" unfolding r [symmetric] by simp
    then show "within_limits 0 (point_joints (joint_names demo_message) pt)" using w by simp
  qed
  ultimately show ?thesis using ts(3,4) by simp
qed

end
