(* ===== verification/Arm_System.thy ===== *)
theory Arm_System
  imports Arm_Handover
begin

text \<open>
  The arm thread and the bridge side by side. The bridge's mutex and the controller's are
  different objects in different processes, so the only atomicity is that of a single store of
  the bridge and, on the controller's side, of the steps below: one way point copied, one
  callback, one block under the lock. \<open>arm_step\<close> interleaves the two freely; libfranka and the
  publishers of messages choose the robot states, periods, exceptions and messages. A single-point
  target is stored joint by joint as well, so a target can be read half old and half new.
\<close>

section \<open>State\<close>

datatype arm_pc = Connecting | Polling | Starting | Copying nat nat local_traj
  | Following local_traj dbl | Retrying | Undefined

datatype arm_action = Follow local_traj dbl joints | GoTo dbl joints

record arm_sys =
  as_msgs :: SHMmsgs
  as_traj :: ArmTrajShm
  as_stores :: "store list"
  as_last :: joints
  as_pc :: arm_pc
  as_log :: "arm_action list"

definition arm_buf :: "arm_sys \<Rightarrow> ArmTrajBuf" where
  "arm_buf s = Arm_traj (as_traj s) ! kRightArmIndex"

section \<open>Blocks of the thread\<close>

definition publish_state :: "robot_state \<Rightarrow> SHMmsgs \<Rightarrow> SHMmsgs" where
  "publish_state st m = the (updateRightArmStateToShm st (Some m))"

definition connect_init :: "robot_state \<Rightarrow> arm_sys \<Rightarrow> arm_sys" where
  "connect_init st s = (let m = publish_state st (as_msgs s) in s\<lparr>
     as_msgs := m\<lparr>Arm_j_tar := (Arm_j_tar m)[kRightArmIndex := take Arm_DOF (rs_q st)],
       Arm_Speed_Factor := (Arm_Speed_Factor m)[kRightArmIndex := kDefaultSpeedFactor]\<rparr>,
     as_traj := (if tb_state (arm_buf s) \<noteq> ARM_TRAJ_PENDING \<and> tb_state (arm_buf s) \<noteq> ARM_TRAJ_EXECUTING
       then upd_traj (\<lambda>b. b\<lparr>tb_state := ARM_TRAJ_IDLE, tb_len := 0\<rparr>) (as_traj s) else as_traj s),
     as_last := rs_q st, as_pc := Polling\<rparr>)"

definition fail_thread :: "arm_sys \<Rightarrow> arm_sys" where
  "fail_thread s = s\<lparr>as_traj := traj_set_state ARM_TRAJ_DONE (as_traj s), as_pc := Retrying\<rparr>"

definition refuse :: "arm_sys \<Rightarrow> arm_sys" where
  "refuse s = s\<lparr>as_traj := traj_set_state ARM_TRAJ_DONE (as_traj s),
     as_last := replicate Arm_DOF (Fin 0), as_pc := Polling\<rparr>"

definition start_copy :: "arm_sys \<Rightarrow> arm_sys" where
  "start_copy s = (let s1 = s\<lparr>as_traj := traj_set_state ARM_TRAJ_EXECUTING (as_traj s)\<rparr>; len = tb_len (arm_buf s1)
     in if len \<le> 0 \<or> int ARM_TRAJ_MAX_PTS < len then refuse s1
        else s1\<lparr>as_pc := Copying 0 (nat len) ([], [])\<rparr>)"

definition finish_motion :: "joints \<Rightarrow> arm_sys \<Rightarrow> arm_sys" where
  "finish_motion q s = s\<lparr>
     as_msgs := (as_msgs s)\<lparr>Arm_j_tar := (Arm_j_tar (as_msgs s))[kRightArmIndex := take Arm_DOF q]\<rparr>,
     as_traj := traj_set_state ARM_TRAJ_DONE (as_traj s), as_last := q, as_pc := Polling\<rparr>"

text \<open>The single-point mode: the target read with the last one as fallback, and the speed.\<close>

definition ptop_target :: "arm_sys \<Rightarrow> joints" where
  "ptop_target s = readRightArmTargetFromShm (Some (as_msgs s)) (as_last s)"

definition ptop_speed :: "dbl \<Rightarrow> arm_sys \<Rightarrow> dbl" where
  "ptop_speed c s = sanitizeSpeedFactor (readRightArmSpeedFromShm (Some (as_msgs s)) c) c"

text \<open>One store of the target handler of the bridge.\<close>

definition store_target :: "nat \<Rightarrow> dbl \<Rightarrow> SHMmsgs \<Rightarrow> SHMmsgs" where
  "store_target j v m = m\<lparr>Arm_j_tar := (Arm_j_tar m)[0 := (Arm_j_tar m ! 0)[j := v]]\<rparr>"

lemma on_franka_target_stores:
  assumes "length data = Arm_DOF" "length (Arm_j_tar m) = Arm_Num" "length (Arm_j_tar m ! 0) = Arm_DOF"
  shows "on_franka_target data m = fold (\<lambda>j. store_target j (data ! j)) [0..<Arm_DOF] m"
proof -
  have "k \<le> Arm_DOF \<Longrightarrow> fold (\<lambda>j. store_target j (data ! j)) [0..<k] m =
      m\<lparr>Arm_j_tar := (Arm_j_tar m)[0 := take k data @ drop k (Arm_j_tar m ! 0)]\<rparr>" for k
  proof (induction k)
    case 0
    then show ?case by simp
  next
    case (Suc k)
    let ?q = "Arm_j_tar m ! 0"
    have "drop k ?q = ?q ! k # drop (Suc k) ?q" using Suc.prems assms(3) by (simp add: Cons_nth_drop_Suc)
    then have "(take k data @ drop k ?q)[k := data ! k] = take (Suc k) data @ drop (Suc k) ?q"
      using Suc.prems assms(1) by (simp add: list_update_append take_Suc_conv_app_nth)
    then show ?case using Suc assms(2) by (simp add: store_target_def)
  qed
  from this [of Arm_DOF] show ?thesis using assms by (simp add: on_franka_target_def)
qed

section \<open>Steps\<close>

inductive arm_step :: "dbl \<Rightarrow> arm_sys \<Rightarrow> arm_sys \<Rightarrow> bool" for c :: dbl where
  message: "as_stores s = [] \<Longrightarrow> arm_step c s (s\<lparr>as_stores := trajectory_stores msg\<rparr>)"
| store: "as_stores s = w # ws \<Longrightarrow>
    arm_step c s (s\<lparr>as_traj := apply_store w (as_traj s), as_stores := ws\<rparr>)"
| target: "j < Arm_DOF \<Longrightarrow> arm_step c s (s\<lparr>as_msgs := store_target j v (as_msgs s)\<rparr>)"
| speed: "arm_step c s (s\<lparr>as_msgs := on_franka_speed v (as_msgs s)\<rparr>)"
| connect: "as_pc s = Connecting \<Longrightarrow> arm_step c s (connect_init st s)"
| disconnect: "as_pc s = Connecting \<or> as_pc s = Polling \<Longrightarrow> arm_step c s (fail_thread s)"
| retry: "as_pc s = Retrying \<Longrightarrow> arm_step c s (s\<lparr>as_pc := Connecting\<rparr>)"
| poll: "as_pc s = Polling \<Longrightarrow> tb_state (arm_buf s) = ARM_TRAJ_PENDING \<Longrightarrow>
    arm_step c s (s\<lparr>as_msgs := publish_state st (as_msgs s), as_pc := Starting\<rparr>)"
| start: "as_pc s = Starting \<Longrightarrow> arm_step c s (start_copy s)"
| copy: "as_pc s = Copying i n l \<Longrightarrow> i < n \<Longrightarrow> copy_point (arm_buf s) i l = Some l' \<Longrightarrow>
    arm_step c s (s\<lparr>as_pc := Copying (i + 1) n l'\<rparr>)"
| copy_refused: "as_pc s = Copying i n l \<Longrightarrow> i < n \<Longrightarrow> copy_point (arm_buf s) i l = None \<Longrightarrow>
    arm_step c s (refuse s)"
| copied: "as_pc s = Copying n n l \<Longrightarrow> arm_step c s (s\<lparr>as_pc := Following l (Fin 0)\<rparr>)"
| tick: "as_pc s = Following l e \<Longrightarrow> 0 \<le> r \<Longrightarrow>
    control_callback l e st (Fin r) (as_msgs s) = Some (e1, m, JointPositions q) \<Longrightarrow>
    arm_step c s (s\<lparr>as_msgs := m, as_pc := Following l e1, as_log := as_log s @ [Follow l e1 q]\<rparr>)"
| finish: "as_pc s = Following l e \<Longrightarrow> 0 \<le> r \<Longrightarrow>
    control_callback l e st (Fin r) (as_msgs s) = Some (e1, m, MotionFinished q) \<Longrightarrow>
    arm_step c s (finish_motion (last (fst l)) (s\<lparr>as_msgs := m, as_log := as_log s @ [Follow l e1 q]\<rparr>))"
| wild: "as_pc s = Following l e \<Longrightarrow> 0 \<le> r \<Longrightarrow> control_callback l e st (Fin r) (as_msgs s) = None \<Longrightarrow>
    arm_step c s (s\<lparr>as_pc := Undefined\<rparr>)"
| throw: "as_pc s = Following l e \<Longrightarrow> arm_step c s (fail_thread s)"
| go: "as_pc s = Polling \<Longrightarrow> tb_state (arm_buf s) \<noteq> ARM_TRAJ_PENDING \<Longrightarrow>
    isTargetChanged (ptop_target s) (as_last s) \<Longrightarrow>
    arm_step c s (s\<lparr>as_msgs := publish_state st (as_msgs s), as_last := ptop_target s,
      as_log := as_log s @ [GoTo (ptop_speed c s) (ptop_target s)]\<rparr>)"
| go_throw: "as_pc s = Polling \<Longrightarrow> tb_state (arm_buf s) \<noteq> ARM_TRAJ_PENDING \<Longrightarrow>
    isTargetChanged (ptop_target s) (as_last s) \<Longrightarrow>
    arm_step c s (fail_thread (s\<lparr>as_log := as_log s @ [GoTo (ptop_speed c s) (ptop_target s)]\<rparr>))"
| idle: "as_pc s = Polling \<Longrightarrow> tb_state (arm_buf s) \<noteq> ARM_TRAJ_PENDING \<Longrightarrow>
    \<not> isTargetChanged (ptop_target s) (as_last s) \<Longrightarrow>
    arm_step c s (s\<lparr>as_msgs := publish_state st (as_msgs s)\<rparr>)"

definition arm_init :: "SHMmsgs \<Rightarrow> ArmTrajShm \<Rightarrow> arm_sys" where
  "arm_init m t = \<lparr>as_msgs = m, as_traj = t, as_stores = [], as_last = replicate Arm_DOF (Fin 0),
     as_pc = Connecting, as_log = []\<rparr>"

section \<open>Invariant\<close>

definition times_ok :: "ArmTrajShm \<Rightarrow> bool" where
  "times_ok t \<longleftrightarrow> (\<forall>d\<in>set (tb_t (Arm_traj t ! kRightArmIndex)). d_ok d)"

fun store_ok :: "store \<Rightarrow> bool" where
  "store_ok (Store_t i v) \<longleftrightarrow> d_ok v"
| "store_ok _ \<longleftrightarrow> True"

fun pc_ok :: "arm_pc \<Rightarrow> bool" where
  "pc_ok (Copying i n l) \<longleftrightarrow> i \<le> n \<and> 0 < n \<and> n \<le> ARM_TRAJ_MAX_PTS \<and> copied i l \<and> (\<forall>t\<in>set (snd l). d_ok t)"
| "pc_ok (Following l e) \<longleftrightarrow> valid_traj l \<and> (\<forall>t\<in>set (snd l). d_ok t) \<and> clock_ok e"
| "pc_ok _ \<longleftrightarrow> True"

fun action_ok :: "dbl \<Rightarrow> arm_action \<Rightarrow> bool" where
  "action_ok c (Follow l e q) \<longleftrightarrow> valid_traj l \<and>
     (d_le (snd l ! 0) e \<longrightarrow> on_path (1 / 2 ^ 45) l e q \<and> within_limits (1 / 2 ^ 45) q)"
| "action_ok c (GoTo v q) \<longleftrightarrow> v = c \<or> (d_le kMinSpeedFactor v \<and> d_le v kMaxSpeedFactor)"

definition arm_inv :: "dbl \<Rightarrow> arm_sys \<Rightarrow> bool" where
  "arm_inv c s \<longleftrightarrow> traj_wf (as_traj s) \<and> times_ok (as_traj s) \<and> list_all store_ok (as_stores s) \<and>
     pc_ok (as_pc s) \<and> list_all (action_ok c) (as_log s)"

lemma d_ok_rnd [simp]: "d_ok (rnd x)"
  by (auto simp: d_ok_def is_double_def rnd_def Let_def rnd_fin_idem split: if_splits)

lemma d_ok_add: "d_ok x \<Longrightarrow> d_ok y \<Longrightarrow> d_ok (d_add x y)"
  by (cases "(x, y)" rule: d_add.cases) (auto simp: d_ok_def [of "Inf _"] d_ok_def [of NaN])

lemma d_ok_small_int: "\<bar>n\<bar> \<le> 2 ^ 53 \<Longrightarrow> d_ok (Fin (of_int n))"
proof -
  assume n: "\<bar>n\<bar> \<le> 2 ^ 53"
  then have "\<bar>of_int n\<bar> \<le> (of_int (2 ^ 53) :: rat)" by (metis of_int_abs of_int_le_iff)
  also have "of_int (2 ^ 53) \<le> (2 ^ 1000 :: rat)" by simp
  finally have "rnd (of_int n) = Fin (rnd_fin (of_int n))" by (rule rnd_small)
  then show ?thesis using rnd_fin_int [OF n] by (simp add: d_ok_def is_double_def)
qed

lemma d_ok_mul: "d_ok (d_mul (Fin x) (rnd y))"
  by (cases "rnd y") (auto simp: d_ok_def [of "Inf _"] d_ok_def [of NaN])

lemma d_ok_point_time: "d_ok (point_time pt)"
proof -
  have "\<bar>sint (tfs_sec pt)\<bar> \<le> 2 ^ 53"
    using sint_lt [of "tfs_sec pt"] sint_ge [of "tfs_sec pt"] by simp
  then show ?thesis unfolding point_time_def by (intro d_ok_add d_ok_small_int d_ok_mul)
qed

lemma trajectory_stores_ok: "list_all store_ok (trajectory_stores msg)"
  by (auto simp: trajectory_stores_def Let_def point_stores_def list_all_iff d_ok_point_time)

lemma upd_traj_wf:
  assumes "traj_wf t" "\<And>b. length (tb_q (f b)) = length (tb_q b)" "\<And>b. length (tb_t (f b)) = length (tb_t b)"
    "\<And>b. \<forall>q\<in>set (tb_q b). length q = Arm_DOF \<Longrightarrow> \<forall>q\<in>set (tb_q (f b)). length q = Arm_DOF"
  shows "traj_wf (upd_traj f t)"
  using assms by (cases "Arm_traj t") (auto simp: traj_wf_def upd_traj_def kRightArmIndex_def)

lemma rows_update:
  "\<forall>q\<in>set qs. length q = n \<Longrightarrow> \<forall>q\<in>set (qs[i := (qs ! i)[j := v]]). length q = n"
proof (cases "i < length qs")
  case True
  assume h: "\<forall>q\<in>set qs. length q = n"
  then have "length (qs ! i) = n" using True by simp
  with h show ?thesis using set_update_subset_insert [of qs i "(qs ! i)[j := v]"] by auto
qed (simp add: list_update_beyond)

lemma apply_store_wf: "traj_wf t \<Longrightarrow> traj_wf (apply_store w t)"
  unfolding apply_store_def
  by (rule upd_traj_wf; cases w) (use rows_update [of _ Arm_DOF] in simp_all)

lemma apply_store_times:
  assumes "traj_wf t" "times_ok t" "store_ok w"
  shows "times_ok (apply_store w t)"
proof -
  have "length (Arm_traj t) = Arm_Num" using assms(1) by (simp add: traj_wf_def)
  then show ?thesis using assms(2,3)
    by (cases w) (auto simp: times_ok_def apply_store_def upd_traj_nth dest!: set_update_subset_insert [THEN subsetD])
qed

lemma set_state_times [simp]: "traj_wf t \<Longrightarrow> times_ok (traj_set_state v t) \<longleftrightarrow> times_ok t"
  by (simp add: times_ok_def tb_of_set_state(2) traj_wf_def)

lemma buf_time_ok:
  assumes "traj_wf t" "times_ok t" "i < ARM_TRAJ_MAX_PTS"
  shows "d_ok (tb_t (Arm_traj t ! kRightArmIndex) ! i)" "length (tb_q (Arm_traj t ! kRightArmIndex) ! i) = Arm_DOF"
proof -
  have "Arm_traj t ! kRightArmIndex \<in> set (Arm_traj t)" using assms(1) by (simp add: traj_wf_def kRightArmIndex_def)
  then show "d_ok (tb_t (Arm_traj t ! kRightArmIndex) ! i)" "length (tb_q (Arm_traj t ! kRightArmIndex) ! i) = Arm_DOF"
    using assms by (auto simp: traj_wf_def times_ok_def)
qed

lemma copy_point_times:
  "copy_point b i l = Some l' \<Longrightarrow> \<forall>t\<in>set (snd l). d_ok t \<Longrightarrow> d_ok (tb_t b ! i) \<Longrightarrow> \<forall>t\<in>set (snd l'). d_ok t"
  by (cases l) (auto simp: copy_point_def Let_def split: if_splits)

text \<open>As \<open>desired_clock\<close>, for any first time that has been reached.\<close>

lemma inf_last:
  assumes "valid_traj l" "clock_ok (Inf p)"
  shows "d_le (last (snd l)) (Inf p)" "desired l (Inf p) = Some q \<longleftrightarrow> q = last (fst l)"
proof -
  have "last (snd l) \<in> set (snd l)" using last_is(3) [OF assms(1)] by simp
  then have "d_finite (last (snd l))" using assms(1) unfolding valid_traj_def by blast
  then show *: "d_le (last (snd l)) (Inf p)" using assms(2) by (auto simp: d_finite_iff)
  show "desired l (Inf p) = Some q \<longleftrightarrow> q = last (fst l)"
    using * unfolding last_is(1,2) [OF assms(1)] by (auto simp: desired_def split_def)
qed

lemma desired_after_start:
  assumes "valid_traj l" "\<forall>t\<in>set (snd l). d_ok t" "clock_ok e" "d_le (snd l ! 0) e" "desired l e = Some q"
  shows "on_path (1 / 2 ^ 45) l e q \<and> within_limits (1 / 2 ^ 45) q"
proof (cases e)
  case (Fin x)
  then show ?thesis using assms desired_within [of l x] desired_on_path [of l x q] by auto
next
  case (Inf p)
  then have "d_le (last (snd l)) e" "q = last (fst l)" using assms inf_last(1) [of l p] inf_last(2) [of l p q] by auto
  then show ?thesis using last_within [of l "1 / 2 ^ 45"] last_is(2) [OF assms(1)] assms(1) by (simp add: on_path_def)
qed (use assms in simp)

text \<open>The stop time, 50 ms after the last time, does not lie before it.\<close>

lemma after_stop:
  assumes "valid_traj l" "\<forall>t\<in>set (snd l). d_ok t" "clock_ok e"
    "d_le (d_add (snd l ! (length (snd l) - 1)) (rnd (5 / 100))) e"
  shows "d_le (snd l ! (length (snd l) - 1)) e"
proof -
  have "length (snd l) - 1 < length (snd l)" using last_is(3) [OF assms(1)] by simp
  then obtain y where y: "snd l ! (length (snd l) - 1) = Fin y" "0 \<le> y" "is_double y"
    using valid_times [OF assms(1,2)] by blast
  have k: "rnd (5 / 100) = Fin (rnd_fin (5 / 100))" "0 \<le> rnd_fin (5 / 100)"
    by (auto intro: rnd_small rnd_fin_nonneg)
  have "y = rnd_fin y" using y(3) by (auto simp: is_double_def rnd_def Let_def split: if_splits)
  also have "\<dots> \<le> rnd_fin (y + rnd_fin (5 / 100))" using k(2) by (intro rnd_fin_mono) simp
  finally show ?thesis using assms(3,4) y k by (cases e) (auto simp: rnd_def Let_def split: if_splits)
qed

lemma callback_joints:
  assumes "control_callback l e st (Fin r) m = Some (e1, m1, c)" "valid_traj l" "\<forall>t\<in>set (snd l). d_ok t"
    "clock_ok e" "0 \<le> r"
  shows "clock_ok e1" "d_le (snd l ! 0) e1 \<Longrightarrow>
    on_path (1 / 2 ^ 45) l e1 (command_joints c) \<and> within_limits (1 / 2 ^ 45) (command_joints c)"
proof -
  from assms(1) obtain q where d: "desired l e1 = Some q" and e1: "e1 = d_add e (Fin r)"
    and c: "d_le (d_add (snd l ! (length (snd l) - 1)) (rnd (5 / 100))) e1 \<and>
        c = MotionFinished (fst l ! (length (snd l) - 1)) \<or> c = JointPositions q"
    by (auto simp: control_callback_def split_def Let_def bind_eq_Some_conv split: if_splits)
  show k: "clock_ok e1" unfolding e1 by (rule clock_add [OF assms(4,5)])
  assume f: "d_le (snd l ! 0) e1"
  note q = desired_after_start [OF assms(2,3) k f d]
  from c show "on_path (1 / 2 ^ 45) l e1 (command_joints c) \<and> within_limits (1 / 2 ^ 45) (command_joints c)"
  proof
    assume c: "d_le (d_add (snd l ! (length (snd l) - 1)) (rnd (5 / 100))) e1 \<and>
      c = MotionFinished (fst l ! (length (snd l) - 1))"
    then have "d_le (last (snd l)) e1"
      unfolding last_is(1) [OF assms(2)] by (intro after_stop [OF assms(2,3) k]) simp
    then show ?thesis using c last_within [OF assms(2), of "1 / 2 ^ 45"] last_is(2) [OF assms(2)]
      by (simp add: on_path_def)
  next
    assume "c = JointPositions q"
    then show ?thesis using q by simp
  qed
qed

lemma kSpeed_Fin:
  obtains lo where "kMinSpeedFactor = Fin lo" "lo \<le> 1"
proof -
  have "rnd (1 / 1000) = Fin (rnd_fin (1 / 1000))" by (intro rnd_small) simp
  moreover have "rnd_fin (1 / 1000) \<le> 1" using rnd_fin_mono [of "1 / 1000" 1] by simp
  ultimately show ?thesis using that by (simp add: kMinSpeedFactor_def)
qed

lemma sanitize_range:
  "sanitizeSpeedFactor v c = c \<or> (d_le kMinSpeedFactor (sanitizeSpeedFactor v c) \<and> d_le (sanitizeSpeedFactor v c) kMaxSpeedFactor)"
proof -
  obtain lo where k: "kMinSpeedFactor = Fin lo" "lo \<le> 1" by (rule kSpeed_Fin)
  show ?thesis using k(2) by (cases v) (auto simp: sanitizeSpeedFactor_def kMaxSpeedFactor_def k(1))
qed

lemma arm_inv_pc: "arm_inv c s \<Longrightarrow> pc_ok p \<Longrightarrow> arm_inv c (s\<lparr>as_pc := p\<rparr>)"
  by (simp add: arm_inv_def)

lemma arm_inv_state: "arm_inv c s \<Longrightarrow> pc_ok p \<Longrightarrow>
    arm_inv c (s\<lparr>as_msgs := m, as_traj := traj_set_state v (as_traj s), as_last := q, as_pc := p\<rparr>)"
  by (simp add: arm_inv_def)

lemma start_copy_inv:
  assumes "arm_inv c s"
  shows "arm_inv c (start_copy s)"
proof -
  have i: "arm_inv c (s\<lparr>as_traj := traj_set_state ARM_TRAJ_EXECUTING (as_traj s)\<rparr>)" (is "arm_inv c ?s")
    using assms by (simp add: arm_inv_def)
  show ?thesis
  proof (cases "tb_len (arm_buf ?s) \<le> 0 \<or> int ARM_TRAJ_MAX_PTS < tb_len (arm_buf ?s)")
    case True
    have "arm_inv c (refuse ?s)" using i by (simp add: arm_inv_def refuse_def)
    with True show ?thesis by (simp add: start_copy_def Let_def)
  next
    case False
    then have "start_copy s = ?s\<lparr>as_pc := Copying 0 (nat (tb_len (arm_buf ?s))) ([], [])\<rparr>"
      by (simp add: start_copy_def Let_def)
    moreover have "pc_ok (Copying 0 (nat (tb_len (arm_buf ?s))) ([], []))" using False by (simp add: copied_def nat_le_iff)
    ultimately show ?thesis using arm_inv_pc [OF i] by simp
  qed
qed

lemma connect_inv:
  assumes "arm_inv c s"
  shows "arm_inv c (connect_init st s)"
proof -
  have "length (Arm_traj (as_traj s)) = Arm_Num" using assms by (simp add: arm_inv_def traj_wf_def)
  then have "times_ok (upd_traj (\<lambda>b. b\<lparr>tb_state := ARM_TRAJ_IDLE, tb_len := 0\<rparr>) (as_traj s))"
    using assms by (simp add: arm_inv_def times_ok_def upd_traj_nth)
  moreover have "traj_wf (upd_traj (\<lambda>b. b\<lparr>tb_state := ARM_TRAJ_IDLE, tb_len := 0\<rparr>) (as_traj s))"
    using assms by (intro upd_traj_wf) (simp_all add: arm_inv_def)
  ultimately show ?thesis using assms by (simp add: connect_init_def Let_def arm_inv_def)
qed

lemma arm_step_inv:
  assumes "arm_step c s s'" "arm_inv c s"
  shows "arm_inv c s'"
  using assms
proof (induction rule: arm_step.induct)
  case (message s msg)
  then show ?case using trajectory_stores_ok by (simp add: arm_inv_def)
next
  case (store s w ws)
  then show ?case using apply_store_wf apply_store_times by (simp add: arm_inv_def)
next
  case (connect s st)
  then show ?case using connect_inv by simp
next
  case (start s)
  then show ?case using start_copy_inv by simp
next
  case (copy s i n l l')
  then have pc: "copied i l" "\<forall>t\<in>set (snd l). d_ok t" "n \<le> ARM_TRAJ_MAX_PTS" by (auto simp: arm_inv_def)
  have b: "d_ok (tb_t (arm_buf s) ! i)" "length (tb_q (arm_buf s) ! i) = Arm_DOF"
    using buf_time_ok [of "as_traj s" i] copy pc(3) by (auto simp: arm_inv_def arm_buf_def)
  have "pc_ok (Copying (i + 1) n l')"
    using copy_point_copied [OF pc(1) copy(3) b(2)] copy_point_times [OF copy(3) pc(2) b(1)] copy pc(3)
    by (simp add: arm_inv_def)
  then show ?case using arm_inv_pc copy by blast
next
  case (copied s n l)
  then have "pc_ok (Following l (Fin 0))" using copied_valid [of n l] by (auto simp: arm_inv_def)
  then show ?case using arm_inv_pc copied by blast
next
  case (tick s l e r st e1 m q)
  then have "valid_traj l" "\<forall>t\<in>set (snd l). d_ok t" "clock_ok e" by (simp_all add: arm_inv_def)
  from callback_joints [OF tick(3) this tick(2)] this tick(4) show ?case by (simp add: arm_inv_def)
next
  case (finish s l e r st e1 m q)
  then have "valid_traj l" "\<forall>t\<in>set (snd l). d_ok t" "clock_ok e" by (simp_all add: arm_inv_def)
  from callback_joints [OF finish(3) this finish(2)] this finish(4) show ?case
    by (simp add: arm_inv_def finish_motion_def)
next
  case (go s st)
  then show ?case using sanitize_range by (simp add: arm_inv_def ptop_speed_def)
next
  case (go_throw s)
  then show ?case using sanitize_range by (simp add: arm_inv_def ptop_speed_def fail_thread_def)
qed (simp_all add: arm_inv_def fail_thread_def refuse_def)

section \<open>Safety of every interleaving\<close>

abbreviation arm_steps :: "dbl \<Rightarrow> arm_sys \<Rightarrow> arm_sys \<Rightarrow> bool" where
  "arm_steps c \<equiv> (arm_step c)\<^sup>*\<^sup>*"

lemma arm_steps_inv: "arm_steps c s s' \<Longrightarrow> arm_inv c s \<Longrightarrow> arm_inv c s'"
  by (induction rule: rtranclp_induct) (auto intro: arm_step_inv)

lemma arm_init_inv: "traj_wf t \<Longrightarrow> times_ok t \<Longrightarrow> arm_inv c (arm_init m t)"
  by (simp add: arm_inv_def arm_init_def)

text \<open>
  C2: However the bridge's stores, new messages, exceptions and the controller's steps
  interleave, and even if a trajectory is overwritten while it is being copied: every position
  commanded while a trajectory is followed belongs to a trajectory that passed all checks (at
  least one point, each within the limits, times finite and strictly increasing), and from the
  first way point's time on it is that trajectory's last way point, once its time has come, or lies
  joint by joint between the two way points whose times enclose the moment, and so within the joint
  limits, all up to \<open>2\<^sup>-\<^sup>4\<^sup>5\<close> rad of rounding. Before the first way point's time nothing is promised
  (\<open>early_start_extrapolates\<close>). Every single-point motion has a speed factor between the minimum and 1,
  if the configured factor has, as that of the program has; its target is not checked by anything.
\<close>

theorem interleaving_safe:
  assumes "traj_wf t" "times_ok t" "d_le kMinSpeedFactor c" "d_le c kMaxSpeedFactor"
    "arm_steps c (arm_init m t) s"
  shows "(\<forall>l e q. Follow l e q \<in> set (as_log s) \<longrightarrow> valid_traj l \<and>
      (d_le (snd l ! 0) e \<longrightarrow> on_path (1 / 2 ^ 45) l e q \<and> within_limits (1 / 2 ^ 45) q)) \<and>
    (\<forall>v q. GoTo v q \<in> set (as_log s) \<longrightarrow> d_le kMinSpeedFactor v \<and> d_le v kMaxSpeedFactor)"
proof -
  have "list_all (action_ok c) (as_log s)"
    using arm_steps_inv [OF assms(5) arm_init_inv [OF assms(1,2)]] by (simp add: arm_inv_def)
  then show ?thesis using assms(3,4) by (fastforce simp: list_all_iff)
qed

section \<open>The sequential execution is a run of the steps\<close>

fun action_joints :: "arm_action \<Rightarrow> joints" where
  "action_joints (Follow l e q) = q"
| "action_joints (GoTo v q) = q"

text \<open>Runs in which the bridge neither takes a new trajectory message nor stores one.\<close>

abbreviation silent_step :: "dbl \<Rightarrow> arm_sys \<Rightarrow> arm_sys \<Rightarrow> bool" where
  "silent_step c s s' \<equiv> arm_step c s s' \<and> as_stores s' = as_stores s"

abbreviation silent_steps :: "dbl \<Rightarrow> arm_sys \<Rightarrow> arm_sys \<Rightarrow> bool" where
  "silent_steps c \<equiv> (silent_step c)\<^sup>*\<^sup>*"

lemma silent_run: "silent_steps c s s' \<Longrightarrow> arm_steps c s s'"
  by (induction rule: rtranclp_induct) (auto intro: rtranclp.rtrancl_into_rtrancl)

lemma copy_steps:
  assumes "as_pc s = Copying i (i + n) l"
  shows "silent_steps c s (case copy_points (arm_buf s) i n l of
      None \<Rightarrow> refuse s | Some l' \<Rightarrow> s\<lparr>as_pc := Copying (i + n) (i + n) l'\<rparr>)"
  using assms
proof (induction n arbitrary: i l s)
  case 0
  then have "s\<lparr>as_pc := Copying i i l\<rparr> = s" by simp
  then show ?case by simp
next
  case (Suc n)
  show ?case
  proof (cases "copy_point (arm_buf s) i l")
    case None
    then have "silent_step c s (refuse s)" using arm_step.copy_refused [OF Suc.prems] by (simp add: refuse_def)
    then show ?thesis using None by (simp add: r_into_rtranclp)
  next
    case (Some l1)
    let ?s = "s\<lparr>as_pc := Copying (i + 1) (i + Suc n) l1\<rparr>"
    have "silent_step c s ?s" using arm_step.copy [OF Suc.prems _ Some] by simp
    moreover have "silent_steps c ?s (case copy_points (arm_buf ?s) (i + 1) n l1 of
        None \<Rightarrow> refuse ?s | Some l' \<Rightarrow> ?s\<lparr>as_pc := Copying (i + 1 + n) (i + 1 + n) l'\<rparr>)"
      by (rule Suc.IH) simp
    moreover have "arm_buf ?s = arm_buf s" "refuse ?s = refuse s" by (simp_all add: arm_buf_def refuse_def)
    ultimately show ?thesis
      using Some by (auto split: option.splits intro: converse_rtranclp_into_rtranclp)
  qed
qed

text \<open>A trajectory that is pending when the thread starts is picked up without any message.\<close>

lemma pending_is_followed:
  assumes "tb_state (Arm_traj t ! kRightArmIndex) = ARM_TRAJ_PENDING" "fst (copy_trajectory t) = Some l"
  shows "\<exists>s. silent_steps c (arm_init m t) s \<and> as_pc s = Following l (Fin 0)"
proof -
  define s1 where "s1 = connect_init undefined (arm_init m t)"
  define s2 where "s2 = s1\<lparr>as_msgs := publish_state undefined (as_msgs s1), as_pc := Starting\<rparr>"
  define s3 where "s3 = start_copy s2"
  have t1: "as_traj s1 = t" "as_pc s1 = Polling" "as_stores s1 = []"
    using assms(1) by (simp_all add: s1_def connect_init_def arm_init_def arm_buf_def Let_def)
  have "silent_step c (arm_init m t) s1"
    using arm_step.connect [of "arm_init m t" c undefined] t1 by (simp add: s1_def arm_init_def)
  moreover have "silent_step c s1 s2"
    using arm_step.poll [of s1 c undefined] t1 assms(1) by (simp add: s2_def arm_buf_def)
  moreover have k: "as_stores s3 = as_stores s2"
    by (simp add: s3_def start_copy_def Let_def refuse_def)
  then have "silent_step c s2 s3" using arm_step.start [of s2 c] by (simp add: s2_def s3_def)
  ultimately have a: "silent_steps c (arm_init m t) s3" by (blast intro: converse_rtranclp_into_rtranclp)
  let ?b = "Arm_traj (traj_set_state ARM_TRAJ_EXECUTING t) ! kRightArmIndex"
  let ?n = "nat (tb_len ?b)"
  have ok: "\<not> (tb_len ?b \<le> 0 \<or> int ARM_TRAJ_MAX_PTS < tb_len ?b)" and cp: "copy_points ?b 0 ?n ([], []) = Some l"
    using assms(2) by (auto simp: copy_trajectory_def Let_def split: if_splits option.splits)
  then have s3: "as_pc s3 = Copying 0 (0 + ?n) ([], [])" "arm_buf s3 = ?b"
    by (simp_all add: s3_def start_copy_def s2_def arm_buf_def Let_def t1)
  define s4 where "s4 = s3\<lparr>as_pc := Copying ?n ?n l\<rparr>"
  have "silent_steps c s3 s4" using copy_steps [OF s3(1), of c] cp by (simp add: s4_def s3(2))
  moreover have "silent_step c s4 (s4\<lparr>as_pc := Following l (Fin 0)\<rparr>)"
    using arm_step.copied [of s4 ?n l c] by (simp add: s4_def)
  ultimately have "silent_steps c s3 (s4\<lparr>as_pc := Following l (Fin 0)\<rparr>)" by (rule rtranclp.rtrancl_into_rtrancl)
  with a have "silent_steps c (arm_init m t) (s4\<lparr>as_pc := Following l (Fin 0)\<rparr>)" by (rule rtranclp_trans)
  then show ?thesis by (intro exI conjI, assumption) simp
qed

lemma run_steps:
  assumes "control_run l evs e (as_msgs s) = Some (Ended, m', cs)" "as_pc s = Following l e" "\<forall>ev\<in>set evs. tick_ok ev"
  shows "\<exists>log. arm_steps c s (finish_motion (last (fst l)) (s\<lparr>as_msgs := m', as_log := as_log s @ log\<rparr>)) \<and>
    map action_joints log = map command_joints cs"
  using assms
proof (induction evs arbitrary: e s cs)
  case (Cons ev evs)
  show ?case
  proof (cases ev)
    case (Tick st p)
    then obtain r where p: "p = Fin r" "0 \<le> r" using Cons.prems(3) by auto
    from Cons.prems(1) obtain e1 m1 cmd where cb: "control_callback l e st (Fin r) (as_msgs s) = Some (e1, m1, cmd)"
      and rest: "(case cmd of MotionFinished _ \<Rightarrow> Some (Ended, m1, [cmd])
        | JointPositions _ \<Rightarrow> control_run l evs e1 m1 \<bind> (\<lambda>(r, m2, cs). Some (r, m2, cmd # cs))) = Some (Ended, m', cs)"
      unfolding Tick p(1) by (auto simp: bind_eq_Some_conv)
    show ?thesis
    proof (cases cmd)
      case (MotionFinished q)
      have "arm_step c s (finish_motion (last (fst l)) (s\<lparr>as_msgs := m1, as_log := as_log s @ [Follow l e1 q]\<rparr>))"
        by (rule arm_step.finish [OF Cons.prems(2) p(2) cb [unfolded MotionFinished]])
      then show ?thesis using rest MotionFinished by (intro exI [of _ "[Follow l e1 q]"]) auto
    next
      case (JointPositions q)
      let ?s = "s\<lparr>as_msgs := m1, as_pc := Following l e1, as_log := as_log s @ [Follow l e1 q]\<rparr>"
      have step: "arm_step c s ?s" by (rule arm_step.tick [OF Cons.prems(2) p(2) cb [unfolded JointPositions]])
      from rest JointPositions obtain cs1 where run: "control_run l evs e1 m1 = Some (Ended, m', cs1)"
        and cs: "cs = cmd # cs1" by (auto simp: bind_eq_Some_conv)
      from Cons.IH [of e1 ?s cs1] run Cons.prems(3) obtain log
        where "arm_steps c ?s (finish_motion (last (fst l)) (?s\<lparr>as_msgs := m', as_log := as_log ?s @ log\<rparr>))"
          and log: "map action_joints log = map command_joints cs1" by auto
      moreover have "finish_motion (last (fst l)) (?s\<lparr>as_msgs := m', as_log := as_log ?s @ log\<rparr>)
        = finish_motion (last (fst l)) (s\<lparr>as_msgs := m', as_log := as_log s @ Follow l e1 q # log\<rparr>)"
        by (simp add: finish_motion_def)
      ultimately have "arm_steps c s (finish_motion (last (fst l)) (s\<lparr>as_msgs := m', as_log := as_log s @ Follow l e1 q # log\<rparr>))"
        using step converse_rtranclp_into_rtranclp by metis
      then show ?thesis using log cs JointPositions by (intro exI [of _ "Follow l e1 q # log"]) simp
    qed
  qed (use Cons in simp)
qed simp



lemma demo_pending: "tb_state (Arm_traj demo_traj ! kRightArmIndex) = ARM_TRAJ_PENDING"
  by (simp add: demo_traj_def demo_buf_def kRightArmIndex_def)

lemma demo_following:
  "\<exists>s. arm_steps kDefaultSpeedFactor (arm_init zero_shm demo_traj) s \<and>
    Follow ([side 0, side 1], [Fin 0, Fin 1]) (Fin 0) (side 0) \<in> set (as_log s)"
proof -
  let ?c = kDefaultSpeedFactor and ?l = "([side 0, side 1], [Fin 0, Fin 1])"
  define s1 where "s1 = connect_init demo_robot (arm_init zero_shm demo_traj)"
  define s2 where "s2 = s1\<lparr>as_msgs := publish_state demo_robot (as_msgs s1), as_pc := Starting\<rparr>"
  define s3 where "s3 = start_copy s2"
  have t1: "as_traj s1 = demo_traj" "as_pc s1 = Polling" "tb_state (arm_buf s1) = ARM_TRAJ_PENDING"
    using demo_pending by (simp_all add: s1_def connect_init_def arm_init_def arm_buf_def Let_def)
  have "arm_step ?c (arm_init zero_shm demo_traj) s1"
    unfolding s1_def by (rule arm_step.connect) (simp add: arm_init_def)
  moreover have "arm_step ?c s1 s2" unfolding s2_def by (rule arm_step.poll [OF t1(2,3)])
  moreover have "arm_step ?c s2 s3" unfolding s3_def by (rule arm_step.start) (simp add: s2_def)
  ultimately have a: "arm_steps ?c (arm_init zero_shm demo_traj) s3" 
    by (blast intro: converse_rtranclp_into_rtranclp)
  have s3: "as_pc s3 = Copying 0 (0 + 2) ([], [])" "arm_buf s3 = (demo_buf\<lparr>tb_state := ARM_TRAJ_EXECUTING\<rparr>)"
    using t1 by (simp_all add: s3_def start_copy_def s2_def arm_buf_def Let_def demo_traj_def
        traj_set_state_def upd_traj_def kRightArmIndex_def) (simp_all add: demo_buf_def)
  have cp: "copy_points (arm_buf s3) 0 2 ([], []) = Some ?l"
  proof -
    have "tb_len demo_buf = 2" by (simp add: demo_buf_def)
    then show ?thesis using demo_copy
      by (simp add: s3(2) copy_trajectory_def demo_traj_def traj_set_state_def upd_traj_def kRightArmIndex_def
          Let_def side_def del: copy_points.simps split: option.splits)
  qed
  define s4 where "s4 = s3\<lparr>as_pc := Copying 2 2 ?l\<rparr>"
  have "arm_steps ?c s3 s4" using silent_run [OF copy_steps [OF s3(1), of ?c]] cp by (simp add: s4_def eval_nat_numeral)
  moreover define s5 where "s5 = s4\<lparr>as_pc := Following ?l (Fin 0)\<rparr>"
  have "arm_step ?c s4 s5" unfolding s5_def by (rule arm_step.copied) (simp add: s4_def)
  ultimately have b: "arm_steps ?c (arm_init zero_shm demo_traj) s5"
    using a by (blast intro: rtranclp.rtrancl_into_rtrancl rtranclp_trans)
  obtain T where T: "d_add (Fin 1) (rnd (1 / 20)) = Fin T" "0 < T" using stop_time [of 1] by auto
  have cb: "control_callback ?l (Fin 0) demo_robot (Fin 0) (as_msgs s5)
      = Some (Fin 0, publish_joints demo_robot (as_msgs s5), JointPositions (side 0))"
    using T by (simp add: control_callback_def desired_def find_seg_def seg_alpha_def get_at_def lerp7_def side_def
        Let_def not_le) (simp add: d_sub_def)
  have "as_pc s5 = Following ?l (Fin 0)" by (simp add: s5_def)
  from arm_step.tick [OF this _ cb, of ?c] b have "arm_steps ?c (arm_init zero_shm demo_traj)
      (s5\<lparr>as_msgs := publish_joints demo_robot (as_msgs s5), as_pc := Following ?l (Fin 0),
        as_log := as_log s5 @ [Follow ?l (Fin 0) (side 0)]\<rparr>)"
    by (simp add: rtranclp.rtrancl_into_rtrancl)
  then show ?thesis by (intro exI, rule conjI) simp
qed

lemma default_speed_ok: "d_le kMinSpeedFactor kDefaultSpeedFactor" "d_le kDefaultSpeedFactor kMaxSpeedFactor"
proof -
  have "rnd (1 / 10) = Fin (rnd_fin (1 / 10))" "rnd (1 / 1000) = Fin (rnd_fin (1 / 1000))" by (intro rnd_small; simp)+
  moreover have "rnd_fin (1 / 10) \<le> 1" using rnd_fin_mono [of "1 / 10" 1] by simp
  moreover have "rnd_fin (1 / 1000) \<le> rnd_fin (1 / 10)" by (rule rnd_fin_mono) simp
  ultimately show "d_le kMinSpeedFactor kDefaultSpeedFactor" "d_le kDefaultSpeedFactor kMaxSpeedFactor"
    by (simp_all add: kMinSpeedFactor_def kDefaultSpeedFactor_def kMaxSpeedFactor_def)
qed

theorem interleaving_safe_witness:
  "\<exists>s q. arm_steps kDefaultSpeedFactor (arm_init zero_shm demo_traj) s \<and>
    Follow ([side 0, side 1], [Fin 0, Fin 1]) (Fin 0) q \<in> set (as_log s) \<and>
    on_path (1 / 2 ^ 45) ([side 0, side 1], [Fin 0, Fin 1]) (Fin 0) q \<and> within_limits (1 / 2 ^ 45) q"
proof -
  obtain s where r: "arm_steps kDefaultSpeedFactor (arm_init zero_shm demo_traj) s"
    and f: "Follow ([side 0, side 1], [Fin 0, Fin 1]) (Fin 0) (side 0) \<in> set (as_log s)"
    using demo_following by blast
  have t: "times_ok demo_traj" using demo_traj_ok(2) by (simp add: times_ok_def)
  show ?thesis using r f interleaving_safe [OF demo_traj_ok(1) t default_speed_ok r] by force
qed

section \<open>A message can be lost\<close>

lemma store_steps:
  "as_stores s = ws \<Longrightarrow> arm_steps c s (s\<lparr>as_traj := fold apply_store ws (as_traj s), as_stores := []\<rparr>)"
proof (induction ws arbitrary: s)
  case Nil
  then have "s\<lparr>as_traj := as_traj s, as_stores := []\<rparr> = s" by simp
  then show ?case by simp
next
  case (Cons w ws)
  let ?s = "s\<lparr>as_traj := apply_store w (as_traj s), as_stores := ws\<rparr>"
  have "arm_step c s ?s" by (rule arm_step.store [OF Cons.prems])
  moreover have "arm_steps c ?s (?s\<lparr>as_traj := fold apply_store ws (as_traj ?s), as_stores := []\<rparr>)"
    by (rule Cons.IH) simp
  ultimately show ?case by (simp add: converse_rtranclp_into_rtranclp)
qed

text \<open>
  A whole message that arrives between two callbacks, and the old motion's end after it: the thread
  is back to polling with the new points in the buffer and nothing left that would start them.
\<close>

lemma message_between_callbacks:
  assumes "as_pc s = Following l e" "as_stores s = []" "traj_wf (as_traj s)"
    "0 < length (points msg)" "length (points msg) \<le> ARM_TRAJ_MAX_PTS" "0 \<le> r"
    "control_callback l e st (Fin r) (as_msgs s) = Some (e1, m, MotionFinished q)"
  shows "\<exists>s'. arm_steps c s s' \<and> as_pc s' = Polling \<and> as_stores s' = [] \<and>
    tb_state (arm_buf s') = ARM_TRAJ_DONE \<and> as_log s' = as_log s @ [Follow l e1 q] \<and>
    tb_q (arm_buf s') = message_rows msg @ drop (length (points msg)) (tb_q (arm_buf s)) \<and>
    tb_len (arm_buf s') = int (length (points msg))"
proof -
  let ?s1 = "s\<lparr>as_stores := trajectory_stores msg\<rparr>"
  let ?s2 = "s\<lparr>as_traj := on_franka_trajectory msg (as_traj s), as_stores := []\<rparr>"
  let ?s3 = "finish_motion (last (fst l)) (?s2\<lparr>as_msgs := m, as_log := as_log s @ [Follow l e1 q]\<rparr>)"
  have a: "arm_step c s ?s1" by (rule arm_step.message [OF assms(2)])
  have b: "arm_steps c ?s1 ?s2" using store_steps [of ?s1 "trajectory_stores msg" c]
    by (simp add: on_franka_trajectory_def)
  have c: "arm_step c ?s2 ?s3" using arm_step.finish [of ?s2 l e r st e1 m q c] assms by simp
  have steps: "arm_steps c s ?s3" using a b c by (meson converse_rtranclp_into_rtranclp rtranclp.rtrancl_into_rtrancl)
  have "length (Arm_traj (as_traj s)) = Arm_Num" using assms(3) by (simp add: traj_wf_def)
  then have "length (Arm_traj (fold apply_store ws (as_traj s))) = Arm_Num" for ws
    by (induction ws arbitrary: s rule: rev_induct) (simp_all add: apply_store_def)
  then have len: "length (Arm_traj (on_franka_trajectory msg (as_traj s))) = Arm_Num"
    by (simp add: on_franka_trajectory_def)
  show ?thesis
    using steps tb_of_set_state [OF len, of ARM_TRAJ_DONE] handover_buffer [OF assms(3-5)]
    by (intro exI [of _ ?s3]) (simp add: finish_motion_def arm_buf_def)
qed

text \<open>What can be said of the thread after the last store, until the next message.\<close>

definition follows_only :: "local_traj \<Rightarrow> arm_action list \<Rightarrow> arm_action list \<Rightarrow> bool" where
  "follows_only l acts acts' \<longleftrightarrow> (\<exists>new. acts' = acts @ new \<and> (\<forall>l' e q. Follow l' e q \<in> set new \<longrightarrow> l' = l))"

definition overtaken :: "local_traj \<Rightarrow> joints list \<Rightarrow> arm_action list \<Rightarrow> arm_sys \<Rightarrow> bool" where
  "overtaken l qs acts s \<longleftrightarrow> as_stores s = [] \<and> length (Arm_traj (as_traj s)) = Arm_Num \<and> tb_q (arm_buf s) = qs \<and>
     follows_only l acts (as_log s) \<and>
     ((\<exists>e. as_pc s = Following l e) \<or> as_pc s = Undefined \<or>
      (as_pc s \<in> {Connecting, Polling, Retrying} \<and> tb_state (arm_buf s) \<in> {ARM_TRAJ_DONE, ARM_TRAJ_IDLE}))"

lemma follows_only_refl: "follows_only l acts acts"
  by (simp add: follows_only_def)

lemma follows_only_next:
  assumes "follows_only l acts b" "b' = b \<or> (\<exists>a. b' = b @ [a] \<and> (\<forall>l' e q. a = Follow l' e q \<longrightarrow> l' = l))"
  shows "follows_only l acts b'"
  using assms(2)
proof
  assume "\<exists>a. b' = b @ [a] \<and> (\<forall>l' e q. a = Follow l' e q \<longrightarrow> l' = l)"
  then obtain a where a: "b' = b @ [a]" "\<forall>l' e q. a = Follow l' e q \<longrightarrow> l' = l" by blast
  obtain new where n: "b = acts @ new" "\<forall>l' e q. Follow l' e q \<in> set new \<longrightarrow> l' = l"
    using assms(1) unfolding follows_only_def by blast
  have "b' = acts @ (new @ [a])" using a n by simp
  moreover have "\<forall>l' e q. Follow l' e q \<in> set (new @ [a]) \<longrightarrow> l' = l"
  proof (intro allI impI)
    fix l' e q assume "Follow l' e q \<in> set (new @ [a])"
    then have "Follow l' e q \<in> set new \<or> a = Follow l' e q" by auto
    then show "l' = l" using a(2) n(2) by blast
  qed
  ultimately show ?thesis unfolding follows_only_def by blast
qed (use assms(1) in simp)

lemma overtaken_done:
  assumes "overtaken l qs acts s" "as_stores s' = as_stores s" "as_traj s' = traj_set_state ARM_TRAJ_DONE (as_traj s)"
    "as_pc s' = Polling \<or> as_pc s' = Retrying"
    "as_log s' = as_log s \<or> (\<exists>a. as_log s' = as_log s @ [a] \<and> (\<forall>l' e q. a = Follow l' e q \<longrightarrow> l' = l))"
  shows "overtaken l qs acts s'"
proof -
  have len: "length (Arm_traj (as_traj s)) = Arm_Num" using assms(1) by (simp add: overtaken_def)
  have "length (Arm_traj (as_traj s')) = Arm_Num" using len assms(3) by (simp add: traj_set_state_def)
  moreover have "tb_q (arm_buf s') = tb_q (arm_buf s)" "tb_state (arm_buf s') = ARM_TRAJ_DONE"
    using tb_of_set_state [OF len] assms(3) by (simp_all add: arm_buf_def)
  moreover have "follows_only l acts (as_log s')"
    using assms(1) by (intro follows_only_next [OF _ assms(5)]) (simp add: overtaken_def)
  ultimately show ?thesis using assms(1,2,4) unfolding overtaken_def by simp
qed

lemma overtaken_same:
  assumes "overtaken l qs acts s" "as_stores s' = as_stores s" "as_traj s' = as_traj s"
    "as_pc s' = as_pc s \<or> as_pc s = Retrying \<and> as_pc s' = Connecting \<or>
      (\<exists>e. as_pc s = Following l e) \<and> (as_pc s' = Undefined \<or> (\<exists>e. as_pc s' = Following l e))"
    "as_log s' = as_log s \<or> (\<exists>a. as_log s' = as_log s @ [a] \<and> (\<forall>l' e q. a = Follow l' e q \<longrightarrow> l' = l))"
  shows "overtaken l qs acts s'"
proof -
  have b: "arm_buf s' = arm_buf s" using assms(3) by (simp add: arm_buf_def)
  have "follows_only l acts (as_log s')"
    using assms(1) by (intro follows_only_next [OF _ assms(5)]) (simp add: overtaken_def)
  moreover have "(\<exists>e. as_pc s' = Following l e) \<or> as_pc s' = Undefined \<or>
      (as_pc s' \<in> {Connecting, Polling, Retrying} \<and> tb_state (arm_buf s') \<in> {ARM_TRAJ_DONE, ARM_TRAJ_IDLE})"
    using assms(1,4) unfolding overtaken_def b by auto
  ultimately show ?thesis using assms(1,2,3) b unfolding overtaken_def by simp
qed

lemma overtaken_pc: "overtaken l qs acts s \<Longrightarrow> as_pc s = Following l' e \<Longrightarrow> l' = l"
  "overtaken l qs acts s \<Longrightarrow> as_pc s \<noteq> Starting \<and> as_pc s \<noteq> Copying i n l'"
  "overtaken l qs acts s \<Longrightarrow> as_pc s = Polling \<Longrightarrow> tb_state (arm_buf s) \<noteq> ARM_TRAJ_PENDING"
  by (auto simp: overtaken_def ARM_TRAJ_IDLE_def ARM_TRAJ_PENDING_def ARM_TRAJ_DONE_def)

lemma overtaken_connect:
  assumes "overtaken l qs acts s" "as_pc s = Connecting"
  shows "overtaken l qs acts (connect_init st s)"
proof -
  let ?s = "connect_init st s"
  have len: "length (Arm_traj (as_traj s)) = Arm_Num" "tb_q (arm_buf s) = qs" "as_stores s = []"
    and st: "tb_state (arm_buf s) \<in> {ARM_TRAJ_DONE, ARM_TRAJ_IDLE}"
    and lg: "follows_only l acts (as_log s)"
    using assms unfolding overtaken_def by auto
  have f: "as_pc ?s = Polling" "as_log ?s = as_log s" "as_stores ?s = as_stores s"
    "as_traj ?s = as_traj s \<or> as_traj ?s = upd_traj (\<lambda>b. b\<lparr>tb_state := ARM_TRAJ_IDLE, tb_len := 0\<rparr>) (as_traj s)"
    by (simp_all add: connect_init_def Let_def)
  then have "length (Arm_traj (as_traj ?s)) = Arm_Num" "tb_q (arm_buf ?s) = qs"
    "tb_state (arm_buf ?s) \<in> {ARM_TRAJ_DONE, ARM_TRAJ_IDLE}"
    using len st by (auto simp: arm_buf_def upd_traj_nth)
  then show ?thesis using lg len(3) unfolding overtaken_def f(1-3) by simp
qed

lemma overtaken_step:
  assumes "arm_step c s s'" "as_stores s' = as_stores s" "overtaken l qs acts s"
  shows "overtaken l qs acts s'"
  using assms
proof (induction rule: arm_step.induct)
  case (store s w ws)
  then show ?case by (simp add: overtaken_def)
next
  case (connect s st)
  then show ?case by (intro overtaken_connect)
next
  case (tick s l1 e r st e1 m q)
  then have "l1 = l" using overtaken_pc(1) by blast
  with tick(1,4,5) show ?case by - (rule overtaken_same [of l qs acts s], simp_all)
next
  case (finish s l1 e r st e1 m q)
  then have "l1 = l" using overtaken_pc(1) by blast
  with finish(1,4,5) show ?case by - (rule overtaken_done [of l qs acts s], simp_all add: finish_motion_def)
next
  case (wild s l1 e r st)
  then have "l1 = l" using overtaken_pc(1) by blast
  with wild(1,4,5) show ?case by - (rule overtaken_same [of l qs acts s], simp_all)
next
  case (start s)
  then show ?case using overtaken_pc(2) by blast
next
  case (copy s i n l1 l')
  then show ?case using overtaken_pc(2) by blast
next
  case (copy_refused s i n l1)
  then show ?case using overtaken_pc(2) by blast
next
  case (copied s n l1)
  then show ?case using overtaken_pc(2) by blast
next
  case (poll s st)
  then show ?case using overtaken_pc(3) by blast
next
  case (message s msg)
  then have "overtaken l qs acts s" "trajectory_stores msg = as_stores s" by simp_all
  then show ?case by - (rule overtaken_same [of l qs acts s], simp_all)
next
  case (disconnect s)
  then show ?case by - (rule overtaken_done [of l qs acts s], simp_all add: fail_thread_def)
next
  case (throw s l1 e)
  then show ?case by - (rule overtaken_done [of l qs acts s], simp_all add: fail_thread_def)
next
  case (go s st)
  then show ?case by - (rule overtaken_same [of l qs acts s], simp_all)
next
  case (go_throw s)
  then show ?case by - (rule overtaken_done [of l qs acts s], simp_all add: fail_thread_def)
next
  case (target j s v)
  then show ?case by - (rule overtaken_same [of l qs acts s], simp_all)
next
  case (speed s v)
  then show ?case by - (rule overtaken_same [of l qs acts s], simp_all)
next
  case (retry s)
  then show ?case by - (rule overtaken_same [of l qs acts s], simp_all)
next
  case (idle s st)
  then show ?case by - (rule overtaken_same [of l qs acts s], simp_all)
qed

text \<open>
  C38: A trajectory message whose last store falls while another trajectory is being followed is
  lost: in whatever order callbacks, exceptions, reconnections, targets and single-point motions come
  after that store, as long as no further trajectory message arrives every position commanded from
  a trajectory is one of the old trajectory, the message's points stay in the buffer, and once the old
  motion is over, by finishing or by an exception, the mark is done or idle, which nothing starts. (If the last
  store comes after the motion's end the message is executed, \<open>pending_is_followed\<close>.)
\<close>

theorem message_during_motion_is_lost:
  assumes "as_pc s = Following l e" "as_stores s = [Store_state ARM_TRAJ_PENDING]" "length (Arm_traj (as_traj s)) = Arm_Num"
    "s1 = s\<lparr>as_traj := apply_store (Store_state ARM_TRAJ_PENDING) (as_traj s), as_stores := []\<rparr>"
    "silent_steps c s1 s'"
  shows "arm_step c s s1 \<and> tb_state (arm_buf s1) = ARM_TRAJ_PENDING \<and> tb_q (arm_buf s') = tb_q (arm_buf s) \<and>
    (\<exists>new. as_log s' = as_log s @ new \<and> (\<forall>l' e' q. Follow l' e' q \<in> set new \<longrightarrow> l' = l)) \<and>
    ((\<exists>e'. as_pc s' = Following l e') \<or> as_pc s' = Undefined \<or>
     (as_pc s' \<in> {Connecting, Polling, Retrying} \<and> tb_state (arm_buf s') \<in> {ARM_TRAJ_DONE, ARM_TRAJ_IDLE}))"
proof -
  have step: "arm_step c s s1" unfolding assms(4) by (rule arm_step.store [OF assms(2)])
  have b: "tb_state (arm_buf s1) = ARM_TRAJ_PENDING" "tb_q (arm_buf s1) = tb_q (arm_buf s)"
    using assms(3) by (simp_all add: assms(4) arm_buf_def apply_store_def upd_traj_nth)
  have o: "overtaken l (tb_q (arm_buf s)) (as_log s) s1"
    using assms(1,3) b follows_only_refl by (simp add: overtaken_def) (simp add: assms(4) apply_store_def)
  from assms(5) have "overtaken l (tb_q (arm_buf s)) (as_log s) s'"
    by (induction rule: rtranclp_induct) (use o overtaken_step in blast)+
  then show ?thesis using step b by (simp add: overtaken_def follows_only_def)
qed

theorem message_during_motion_is_lost_witness:
  "\<exists>s s'. as_pc s = Following ([side 0], [Fin 0]) (Fin 1) \<and> as_stores s = [Store_state ARM_TRAJ_PENDING] \<and>
    arm_steps kDefaultSpeedFactor s s' \<and> as_pc s' = Polling \<and> tb_state (arm_buf s') = ARM_TRAJ_DONE \<and>
    tb_q (arm_buf s') ! 0 = side 0 \<and> (\<forall>l' e' q. Follow l' e' q \<in> set (as_log s') \<longrightarrow> l' = ([side 0], [Fin 0]))"
proof -
  let ?l = "([side 0], [Fin 0])"
  let ?s = "(arm_init zero_shm demo_traj)\<lparr>as_pc := Following ?l (Fin 1), as_stores := [Store_state ARM_TRAJ_PENDING]\<rparr>"
  let ?s1 = "?s\<lparr>as_traj := apply_store (Store_state ARM_TRAJ_PENDING) (as_traj ?s), as_stores := []\<rparr>"
  let ?s2 = "finish_motion (last (fst ?l)) (?s1\<lparr>as_msgs := publish_joints demo_robot zero_shm,
    as_log := as_log ?s1 @ [Follow ?l (Fin 2) (side 0)]\<rparr>)"
  obtain T where T: "d_add (Fin 0) (rnd (1 / 20)) = Fin T" "T \<le> 1" using stop_time [of 0] by auto
  have a: "d_add (Fin 1) (Fin 1) = Fin 2" by simp
  have cb: "control_callback ?l (Fin 1) demo_robot (Fin 1) (as_msgs ?s1)
      = Some (Fin 2, publish_joints demo_robot zero_shm, MotionFinished (side 0))"
    using T by (simp add: control_callback_def a desired_def arm_init_def Let_def del: d_add.simps)
  have fin: "arm_step kDefaultSpeedFactor ?s1 ?s2" by (rule arm_step.finish [OF _ _ cb]) simp_all
  have r: "silent_steps kDefaultSpeedFactor ?s1 ?s2"
    using fin by (intro r_into_rtranclp) (simp add: finish_motion_def)
  have len: "length (Arm_traj (as_traj ?s)) = Arm_Num" using demo_traj_ok(1) by (simp add: traj_wf_def arm_init_def)
  note lost = message_during_motion_is_lost [OF _ _ len refl r, of ?l "Fin 1"]
  have p: "as_pc ?s2 = Polling" by (simp add: finish_motion_def)
  have len1: "length (Arm_traj (apply_store (Store_state ARM_TRAJ_PENDING) demo_traj)) = Arm_Num"
    using len by (simp add: apply_store_def arm_init_def)
  have d: "tb_state (arm_buf ?s2) = ARM_TRAJ_DONE"
    by (simp add: finish_motion_def arm_buf_def arm_init_def tb_of_set_state [OF len1] del: One_nat_def)
  have q: "tb_q (arm_buf ?s) ! 0 = side 0"
    by (simp add: arm_init_def arm_buf_def demo_traj_def demo_buf_def kRightArmIndex_def side_def zero_traj_buf_def)
  have "arm_steps kDefaultSpeedFactor ?s ?s2" using converse_rtranclp_into_rtranclp [of "arm_step kDefaultSpeedFactor" ?s ?s1 ?s2] lost fin
    by (simp add: r_into_rtranclp)
  then show ?thesis using lost p d q by (intro exI [of _ ?s] exI [of _ ?s2]) (auto simp: arm_init_def)
qed

end
