(* ===== verification/Lifecycle.thy ===== *)
theory Lifecycle
  imports Arm_System
begin

text \<open>
  The programs that share the two memory segments over their lives: the controller (the threads of
  test/Franka_KISTAR_R_Exp_V1.cpp: hand, arm, printer), the ROS node and the tool that resets the
  trajectory. A history is a list of starts, ends and stores; what a program holds is what its
  threads attached. Every thread of the controller attaches at a moment of its own after the start, or not
  at all when the process ends before, at one of the early returns of \<open>ethercat_run\<close> or at its end. The
  system calls that attach succeed; where one fails the process ends as at an early return.
\<close>

section \<open>Programs\<close>

definition shm_msg_key :: int where "shm_msg_key = 0x3931"
definition shm_arm_traj_key :: int where "shm_arm_traj_key = 0x3932"

text \<open>The global pointers of the controller: those of the hand, the arm and the printing thread.\<close>

record controller =
  shm_msgs_hand :: "nat option"
  g_shm_msgs :: "nat option"
  g_traj_shm :: "nat option"
  shm_msgs_print :: "nat option"

record bridge_node =
  shm_ref :: "nat option"
  traj_shm_ref :: "nat option"

record world =
  w_msgs :: "SHMmsgs shm_os"
  w_traj :: "ArmTrajShm shm_os"
  ctl :: "controller option"
  node :: "bridge_node option"
  lost_msgs :: nat   \<comment> \<open>counts of controllers that have ended and left them, for counting only\<close>
  lost_traj :: nat

fun attached :: "attach \<Rightarrow> nat option" where
  "attached (Attached i) = Some i"
| "attached Exited = None"

definition attach_msgs :: "world \<Rightarrow> nat option \<times> world" where
  "attach_msgs w = (let (a, s) = init_shm True True shm_msg_key (w_msgs w) in (attached a, w\<lparr>w_msgs := s\<rparr>))"

definition attach_traj :: "world \<Rightarrow> nat option \<times> world" where
  "attach_traj w = (let (a, s) = init_arm_traj_shm True True shm_arm_traj_key (w_traj w) in (attached a, w\<lparr>w_traj := s\<rparr>))"

definition attach_g_msgs :: "controller \<times> world \<Rightarrow> controller \<times> world" where
  "attach_g_msgs = (\<lambda>(c, w).
     if g_shm_msgs c = None then let (r, w) = attach_msgs w in (c\<lparr>g_shm_msgs := r\<rparr>, w) else (c, w))"

definition attach_g_traj :: "controller \<times> world \<Rightarrow> controller \<times> world" where
  "attach_g_traj = (\<lambda>(c, w).
     if g_traj_shm c = None then let (r, w) = attach_traj w in (c\<lparr>g_traj_shm := r\<rparr>, w) else (c, w))"

definition ensureShmAttached :: "controller \<times> world \<Rightarrow> controller \<times> world" where
  "ensureShmAttached p = attach_g_traj (attach_g_msgs p)"

definition ecatthread_attach :: "controller \<times> world \<Rightarrow> controller \<times> world" where
  "ecatthread_attach = (\<lambda>(c, w). let (r, w) = attach_msgs w in (c\<lparr>shm_msgs_hand := r\<rparr>, w))"

definition shm_print_attach :: "controller \<times> world \<Rightarrow> controller \<times> world" where
  "shm_print_attach = (\<lambda>(c, w). let (r, w) = attach_msgs w in (c\<lparr>shm_msgs_print := r\<rparr>, w))"

definition no_controller :: controller where
  "no_controller = \<lparr>shm_msgs_hand = None, g_shm_msgs = None, g_traj_shm = None, shm_msgs_print = None\<rparr>"

text \<open>\<open>main\<close> creates the threads, which then attach in any order, each once.\<close>

definition controller_start :: "world \<Rightarrow> world" where
  "controller_start w = w\<lparr>ctl := Some no_controller\<rparr>"

definition hand_begins :: "controller \<times> world \<Rightarrow> controller \<times> world" where
  "hand_begins = (\<lambda>(c, w). if shm_msgs_hand c = None then ecatthread_attach (c, w) else (c, w))"

definition print_begins :: "controller \<times> world \<Rightarrow> controller \<times> world" where
  "print_begins = (\<lambda>(c, w). if shm_msgs_print c = None then shm_print_attach (c, w) else (c, w))"

definition in_controller :: "(controller \<times> world \<Rightarrow> controller \<times> world) \<Rightarrow> world \<Rightarrow> world" where
  "in_controller f w = (case ctl w of None \<Rightarrow> w | Some c \<Rightarrow> (let (c, w) = f (c, w) in w\<lparr>ctl := Some c\<rparr>))"

text \<open>How many counts of the two segments a controller holds.\<close>

definition held_msgs :: "controller \<Rightarrow> nat" where
  "held_msgs c = (if shm_msgs_hand c = None then 0 else 1) + (if g_shm_msgs c = None then 0 else 1)
     + (if shm_msgs_print c = None then 0 else 1)"

definition held_traj :: "controller \<Rightarrow> nat" where
  "held_traj c = (if g_traj_shm c = None then 0 else 1)"

text \<open>
  An early return of \<open>ethercat_run\<close>, when \<open>ec_init\<close> fails or \<open>ec_config\<close> finds no slave: \<open>main\<close> returns, the
  other threads die with the process, and nothing is given back.
\<close>

definition controller_return :: "controller \<Rightarrow> world \<Rightarrow> world" where
  "controller_return c w = w\<lparr>ctl := None, lost_msgs := lost_msgs w + held_msgs c, lost_traj := lost_traj w + held_traj c\<rparr>"

text \<open>The end of \<open>ethercat_run\<close> gives back what the hand thread attached, and no more.\<close>

definition controller_stop :: "controller \<Rightarrow> world \<Rightarrow> world" where
  "controller_stop c w = w\<lparr>w_msgs := deleteSharedMemory True (shm_msgs_hand c) (w_msgs w), ctl := None,
     lost_msgs := lost_msgs w + held_msgs c - (if shm_msgs_hand c = None then 0 else 1),
     lost_traj := lost_traj w + held_traj c\<rparr>"

text \<open>The constructor of the node throws before it attaches when the rate is not positive.\<close>

definition bridge_start :: "dbl \<Rightarrow> world \<Rightarrow> world" where
  "bridge_start publish_rate_hz w =
     (if d_le publish_rate_hz (Fin 0) then w
      else let (m, w) = attach_msgs w; (t, w) = attach_traj w
        in w\<lparr>node := Some \<lparr>shm_ref = m, traj_shm_ref = t\<rparr>\<rparr>)"

definition bridge_stop :: "bridge_node \<Rightarrow> world \<Rightarrow> world" where
  "bridge_stop b w = w\<lparr>
     w_traj := (if traj_shm_ref b \<noteq> None then deleteArmTrajSharedMemory True (traj_shm_ref b) (w_traj w) else w_traj w),
     w_msgs := (if shm_ref b \<noteq> None then deleteSharedMemory True (shm_ref b) (w_msgs w) else w_msgs w),
     node := None\<rparr>"

text \<open>\<open>reset_arm_traj\<close> works on an existing segment only.\<close>

definition reset_main :: "ArmTrajShm shm_os \<Rightarrow> ArmTrajShm shm_os" where
  "reset_main s = (case key_of s shm_arm_traj_key of
       None \<Rightarrow> s
     | Some i \<Rightarrow> upd_seg i reset_arm_traj s)"

section \<open>Histories\<close>

datatype event = Start_controller | Attach_hand | Attach_arm | Attach_print | Return_controller | Stop_controller
  | Start_bridge dbl | Stop_bridge | Reset
  | Store_msgs "SHMmsgs \<Rightarrow> SHMmsgs" | Store_traj "ArmTrajShm \<Rightarrow> ArmTrajShm"

definition store_to :: "int \<Rightarrow> ('a \<Rightarrow> 'a) \<Rightarrow> 'a shm_os \<Rightarrow> 'a shm_os" where
  "store_to k f s = (case key_of s k of None \<Rightarrow> s | Some i \<Rightarrow> upd_seg i f s)"

text \<open>One controller and one node at a time; a program that is not running stores nothing.\<close>

fun happen :: "event \<Rightarrow> world \<Rightarrow> world" where
  "happen Start_controller w = (if ctl w = None then controller_start w else w)"
| "happen Attach_hand w = in_controller hand_begins w"
| "happen Attach_arm w = in_controller ensureShmAttached w"
| "happen Attach_print w = in_controller print_begins w"
| "happen Return_controller w = (case ctl w of None \<Rightarrow> w | Some c \<Rightarrow> controller_return c w)"
| "happen Stop_controller w = (case ctl w of None \<Rightarrow> w | Some c \<Rightarrow> controller_stop c w)"
| "happen (Start_bridge rate) w = (if node w = None then bridge_start rate w else w)"
| "happen Stop_bridge w = (case node w of None \<Rightarrow> w | Some b \<Rightarrow> bridge_stop b w)"
| "happen Reset w = w\<lparr>w_traj := reset_main (w_traj w)\<rparr>"
| "happen (Store_msgs f) w =
     (if ctl w = None \<and> node w = None then w else w\<lparr>w_msgs := store_to shm_msg_key f (w_msgs w)\<rparr>)"
| "happen (Store_traj f) w =
     (if ctl w = None \<and> node w = None then w else w\<lparr>w_traj := store_to shm_arm_traj_key f (w_traj w)\<rparr>)"

definition history :: "event list \<Rightarrow> world \<Rightarrow> world" where
  "history es w = fold happen es w"

definition empty_world :: world where
  "empty_world = \<lparr>w_msgs = empty_os zero_shm, w_traj = empty_os zero_traj_shm, ctl = None, node = None,
     lost_msgs = 0, lost_traj = 0\<rparr>"

text \<open>The stores of the programs leave the counters of the segments alone.\<close>

fun event_ok :: "event \<Rightarrow> bool" where
  "event_ok (Store_msgs f) \<longleftrightarrow> (\<forall>m. process_num (f m) = process_num m)"
| "event_ok (Store_traj f) \<longleftrightarrow> (\<forall>t. traj_process_num (f t) = traj_process_num t)"
| "event_ok _ \<longleftrightarrow> True"

section \<open>What the counters count\<close>

definition msgs_users :: "world \<Rightarrow> nat" where
  "msgs_users w = lost_msgs w + (case ctl w of None \<Rightarrow> 0 | Some c \<Rightarrow> held_msgs c) + (if node w = None then 0 else 1)"

definition traj_users :: "world \<Rightarrow> nat" where
  "traj_users w = lost_traj w + (case ctl w of None \<Rightarrow> 0 | Some c \<Rightarrow> held_traj c) + (if node w = None then 0 else 1)"

definition hand_ref :: "controller option \<Rightarrow> nat option set" where
  "hand_ref c = shm_msgs_hand ` set_option c - {None}"

lemmas users_defs = msgs_users_def traj_users_def held_msgs_def held_traj_def

definition segment_counts :: "int \<Rightarrow> ('a \<Rightarrow> u32) \<Rightarrow> nat \<Rightarrow> nat option set \<Rightarrow> 'a shm_os \<Rightarrow> bool" where
  "segment_counts k users n held s \<longleftrightarrow> (case key_of s k of
       None \<Rightarrow> n = 0 \<and> held = {}
     | Some i \<Rightarrow> 0 < n \<and> users (seg s i) = of_nat n \<and> held \<subseteq> {Some i})"

definition world_inv :: "world \<Rightarrow> bool" where
  "world_inv w \<longleftrightarrow>
     segment_counts shm_msg_key process_num (msgs_users w)
       (hand_ref (ctl w) \<union> shm_ref ` set_option (node w)) (w_msgs w) \<and>
     segment_counts shm_arm_traj_key traj_process_num (traj_users w) (traj_shm_ref ` set_option (node w)) (w_traj w)"

lemma count_word: "n < 2 ^ 32 \<Longrightarrow> (of_nat n :: u32) = of_nat m \<longleftrightarrow> n = m" if "m < 2 ^ 32"
  using that by (subst word_of_nat_eq_iff) (simp add: take_bit_nat_eq_self)

lemma count_zero: "n < 2 ^ 32 \<Longrightarrow> (of_nat n :: u32) = 0 \<longleftrightarrow> n = 0"
  using count_word [of 0 n] by simp

lemma count_one: "n < 2 ^ 32 \<Longrightarrow> (of_nat n :: u32) = 1 \<longleftrightarrow> n = 1"
  using count_word [of 1 n] by simp

lemma init_shm_counts:
  assumes "segment_counts k process_num n held s" and "n + 1 < 2 ^ 32"
  shows "\<exists>i t. init_shm True True k s = (Attached i, t) \<and> segment_counts k process_num (n + 1) (insert (Some i) held) t"
proof (cases "key_of s k")
  case None
  with assms show ?thesis
    by (simp add: segment_counts_def init_shm_def shm_ops Let_def zero_shm_def)
next
  case (Some i)
  with assms count_zero [of n] show ?thesis
    by (simp add: segment_counts_def init_shm_def shm_ops Let_def)
qed

lemma init_traj_counts:
  assumes "segment_counts k traj_process_num n held s" and "n + 1 < 2 ^ 32"
  shows "\<exists>i t. init_arm_traj_shm True True k s = (Attached i, t) \<and> segment_counts k traj_process_num (n + 1) (insert (Some i) held) t"
proof (cases "key_of s k")
  case None
  with assms show ?thesis
    by (simp add: segment_counts_def init_arm_traj_shm_def shm_ops Let_def zero_traj_shm_def)
next
  case (Some i)
  with assms count_zero [of n] show ?thesis
    by (simp add: segment_counts_def init_arm_traj_shm_def shm_ops Let_def)
qed

lemma counts_weaken: "segment_counts k u n held s \<Longrightarrow> held' \<subseteq> held \<Longrightarrow> segment_counts k u n held' s"
  by (auto simp: segment_counts_def split: option.splits)

lemma delete_counts:
  assumes "segment_counts k process_num n held s" and "ref \<in> held" and "n < 2 ^ 32"
    and "held' \<subseteq> held" and "n = 1 \<longrightarrow> held' = {}"
  shows "segment_counts k process_num (n - 1) held' (deleteSharedMemory True ref s)"
proof -
  from assms(1,2) obtain i where i: "key_of s k = Some i" "ref = Some i" "0 < n" "process_num (seg s i) = of_nat n"
    "held \<subseteq> {Some i}"
    by (auto simp: segment_counts_def split: option.splits)
  have d: "process_num (seg s i) - 1 = of_nat (n - 1)" using i by (simp add: of_nat_diff)
  show ?thesis
    using i d assms count_zero [of "n - 1"]
    by (auto simp: segment_counts_def deleteSharedMemory_def shm_ops Let_def split: if_splits)
qed

lemma delete_traj_counts:
  assumes "segment_counts k traj_process_num n held s" and "ref \<in> held" and "n < 2 ^ 32"
    and "held' \<subseteq> held" and "n = 1 \<longrightarrow> held' = {}"
  shows "segment_counts k traj_process_num (n - 1) held' (deleteArmTrajSharedMemory True ref s)"
proof -
  from assms(1,2) obtain i where i: "key_of s k = Some i" "ref = Some i" "0 < n" "traj_process_num (seg s i) = of_nat n"
    "held \<subseteq> {Some i}"
    by (auto simp: segment_counts_def split: option.splits)
  have d: "traj_process_num (seg s i) - 1 = of_nat (n - 1)" using i by (simp add: of_nat_diff)
  show ?thesis
    using i d assms count_zero [of "n - 1"]
    by (auto simp: segment_counts_def deleteArmTrajSharedMemory_def shm_ops Let_def split: if_splits)
qed

lemma store_counts:
  assumes "segment_counts k u n held s" and "\<And>m. u (f m) = u m"
  shows "segment_counts k u n held (store_to k f s)"
  using assms by (auto simp: segment_counts_def store_to_def upd_seg_def split: option.splits)

section \<open>The counters along a history\<close>

definition few :: "world \<Rightarrow> bool" where
  "few w \<longleftrightarrow> msgs_users w + 4 < 2 ^ 32 \<and> traj_users w + 4 < 2 ^ 32"

lemma attach_msgs_inv:
  assumes "segment_counts shm_msg_key process_num n held (w_msgs w)" and "n + 1 < 2 ^ 32"
  shows "\<exists>i s. attach_msgs w = (Some i, w\<lparr>w_msgs := s\<rparr>)
    \<and> segment_counts shm_msg_key process_num (n + 1) (insert (Some i) held) s"
  using init_shm_counts [OF assms] by (auto simp: attach_msgs_def)

lemma attach_traj_inv:
  assumes "segment_counts shm_arm_traj_key traj_process_num n held (w_traj w)" and "n + 1 < 2 ^ 32"
  shows "\<exists>i s. attach_traj w = (Some i, w\<lparr>w_traj := s\<rparr>)
    \<and> segment_counts shm_arm_traj_key traj_process_num (n + 1) (insert (Some i) held) s"
  using init_traj_counts [OF assms] by (auto simp: attach_traj_def)

lemma controller_start_inv: "world_inv w \<Longrightarrow> ctl w = None \<Longrightarrow> world_inv (controller_start w)"
  by (simp add: world_inv_def controller_start_def users_defs hand_ref_def no_controller_def)

lemma world_msgs:
  "world_inv w \<Longrightarrow> segment_counts shm_msg_key process_num (msgs_users w)
     (hand_ref (ctl w) \<union> shm_ref ` set_option (node w)) (w_msgs w)"
  "world_inv w \<Longrightarrow> segment_counts shm_arm_traj_key traj_process_num (traj_users w) (traj_shm_ref ` set_option (node w)) (w_traj w)"
  by (simp_all add: world_inv_def)

text \<open>A thread that attaches takes one count of the messages.\<close>

lemma attach_inv:
  assumes "world_inv w" "few w" "ctl w = Some c" "attach_msgs w = (r, w1)"
    and "held_msgs c1 = held_msgs c + 1" "held_traj c1 = held_traj c" "shm_msgs_hand c1 \<in> {shm_msgs_hand c, r}"
  shows "world_inv (w1\<lparr>ctl := Some c1\<rparr>) \<and> few w \<and> node w1 = node w \<and> ctl w1 = ctl w"
proof -
  let ?h = "hand_ref (ctl w) \<union> shm_ref ` set_option (node w)"
  have "msgs_users w + 1 < 2 ^ 32" using assms(2) by (simp add: few_def)
  from attach_msgs_inv [OF world_msgs(1) [OF assms(1)] this] obtain i s
    where a: "r = Some i" "w1 = w\<lparr>w_msgs := s\<rparr>"
      and c: "segment_counts shm_msg_key process_num (msgs_users w + 1) (insert (Some i) ?h) s"
    using assms(4) by auto
  have "hand_ref (Some c1) \<union> shm_ref ` set_option (node w) \<subseteq> insert (Some i) ?h"
    using assms(3,7) a(1) by (auto simp: hand_ref_def)
  from counts_weaken [OF c this] show ?thesis
    using assms a by (simp add: world_inv_def msgs_users_def traj_users_def)
qed

lemma hand_begins_inv:
  assumes "world_inv w" "few w" "ctl w = Some c"
  shows "world_inv (in_controller hand_begins w)"
proof (cases "shm_msgs_hand c")
  case None
  obtain r w1 where a: "attach_msgs w = (r, w1)" by (cases "attach_msgs w")
  have "r \<noteq> None" using attach_msgs_inv [OF world_msgs(1) [OF assms(1)]] assms(2) a by (auto simp: few_def)
  then show ?thesis
    using attach_inv [OF assms a, of "c\<lparr>shm_msgs_hand := r\<rparr>"] None a assms(3)
    by (auto simp: in_controller_def hand_begins_def ecatthread_attach_def held_msgs_def held_traj_def)
next
  case (Some i)
  then have "in_controller hand_begins w = w" using assms(3) by (simp add: in_controller_def hand_begins_def)
  then show ?thesis using assms(1) by simp
qed

lemma print_begins_inv:
  assumes "world_inv w" "few w" "ctl w = Some c"
  shows "world_inv (in_controller print_begins w)"
proof (cases "shm_msgs_print c")
  case None
  obtain r w1 where a: "attach_msgs w = (r, w1)" by (cases "attach_msgs w")
  have "r \<noteq> None" using attach_msgs_inv [OF world_msgs(1) [OF assms(1)]] assms(2) a by (auto simp: few_def)
  then show ?thesis
    using attach_inv [OF assms a, of "c\<lparr>shm_msgs_print := r\<rparr>"] None a assms(3)
    by (auto simp: in_controller_def print_begins_def shm_print_attach_def held_msgs_def held_traj_def)
next
  case (Some i)
  then have "in_controller print_begins w = w" using assms(3) by (simp add: in_controller_def print_begins_def)
  then show ?thesis using assms(1) by simp
qed

text \<open>The two halves of \<open>ensureShmAttached\<close>.\<close>

lemma arm_msgs_inv:
  assumes "world_inv w" "few w" "ctl w = Some c"
  obtains r w1 where "attach_g_msgs (c, w) = (c\<lparr>g_shm_msgs := r\<rparr>, w1)" "r \<noteq> None" "world_inv (w1\<lparr>ctl := Some (c\<lparr>g_shm_msgs := r\<rparr>)\<rparr>)"
    "node w1 = node w" "traj_users (w1\<lparr>ctl := Some (c\<lparr>g_shm_msgs := r\<rparr>)\<rparr>) = traj_users w" "w_traj w1 = w_traj w"
    "lost_msgs w1 = lost_msgs w" "lost_traj w1 = lost_traj w"
proof (cases "g_shm_msgs c")
  case None
  obtain r w1 where a: "attach_msgs w = (r, w1)" by (cases "attach_msgs w")
  obtain s where w1: "w1 = w\<lparr>w_msgs := s\<rparr>" and r: "r \<noteq> None"
    using attach_msgs_inv [OF world_msgs(1) [OF assms(1)]] assms(2) a by (auto simp: few_def)
  have "world_inv (w1\<lparr>ctl := Some (c\<lparr>g_shm_msgs := r\<rparr>)\<rparr>)"
    using attach_inv [OF assms a, of "c\<lparr>g_shm_msgs := r\<rparr>"] None r by (simp add: held_msgs_def held_traj_def)
  then show ?thesis using that [of r w1] None a w1 r assms(3) by (simp add: traj_users_def held_traj_def attach_g_msgs_def)
next
  case (Some i)
  then have c: "c\<lparr>g_shm_msgs := Some i\<rparr> = c" by simp
  have w: "w\<lparr>ctl := Some c\<rparr> = w" using assms(3) by simp
  show ?thesis using that [of "Some i" w] Some assms(1) c w by (simp add: attach_g_msgs_def)
qed

lemma arm_traj_inv:
  assumes "world_inv (w\<lparr>ctl := Some c\<rparr>)" "traj_users (w\<lparr>ctl := Some c\<rparr>) + 1 < 2 ^ 32"
  obtains r w1 where "attach_g_traj (c, w) = (c\<lparr>g_traj_shm := r\<rparr>, w1)" "r \<noteq> None" "world_inv (w1\<lparr>ctl := Some (c\<lparr>g_traj_shm := r\<rparr>)\<rparr>)"
    "node w1 = node w" "w_traj w1 = w_traj w \<or> w_traj w1 = snd (init_arm_traj_shm True True shm_arm_traj_key (w_traj w))"
    "lost_msgs w1 = lost_msgs w" "lost_traj w1 = lost_traj w"
proof (cases "g_traj_shm c")
  case None
  let ?w = "w\<lparr>ctl := Some c\<rparr>"
  from attach_traj_inv [OF world_msgs(2) [OF assms(1)] assms(2)] obtain i s
    where a: "attach_traj ?w = (Some i, ?w\<lparr>w_traj := s\<rparr>)"
      and k: "segment_counts shm_arm_traj_key traj_process_num (traj_users ?w + 1) (insert (Some i) (traj_shm_ref ` set_option (node ?w))) s"
    by blast
  define q where "q = init_arm_traj_shm True True shm_arm_traj_key (w_traj w)"
  have at: "attach_traj v = (attached (fst q), v\<lparr>w_traj := snd q\<rparr>)" if "w_traj v = w_traj w" for v
    using that by (simp add: attach_traj_def q_def case_prod_unfold Let_def)
  have "attached (fst q) = Some i" "w_traj (?w\<lparr>w_traj := snd q\<rparr>) = w_traj (?w\<lparr>w_traj := s\<rparr>)"
    using a at [of ?w] by (simp_all only: prod.inject world.select_convs world.update_convs, simp_all)
  then have s: "s = snd q" and a': "attach_traj w = (Some i, w\<lparr>w_traj := s\<rparr>)" using at [of w] by simp_all
  have "world_inv (w\<lparr>w_traj := s, ctl := Some (c\<lparr>g_traj_shm := Some i\<rparr>)\<rparr>)"
    using counts_weaken [OF k, of "traj_shm_ref ` set_option (node ?w)"] assms(1) None
    by (auto simp: world_inv_def msgs_users_def traj_users_def held_msgs_def held_traj_def hand_ref_def)
  then show ?thesis using that [of "Some i" "w\<lparr>w_traj := s\<rparr>"] None a' s by (simp add: attach_g_traj_def q_def)
next
  case (Some i)
  then have c: "c\<lparr>g_traj_shm := Some i\<rparr> = c" by simp
  show ?thesis using that [of "Some i" w, unfolded c] Some assms(1) by (simp add: attach_g_traj_def)
qed

lemma arm_begins:
  assumes "world_inv w" "few w" "ctl w = Some c"
  obtains c1 where "world_inv (in_controller ensureShmAttached w)" "ctl (in_controller ensureShmAttached w) = Some c1"
    "g_shm_msgs c1 \<noteq> None" "g_traj_shm c1 \<noteq> None" "node (in_controller ensureShmAttached w) = node w"
    "w_traj (in_controller ensureShmAttached w) = w_traj w \<or>
     w_traj (in_controller ensureShmAttached w) = snd (init_arm_traj_shm True True shm_arm_traj_key (w_traj w))"
proof -
  obtain r w1 where 1: "attach_g_msgs (c, w) = (c\<lparr>g_shm_msgs := r\<rparr>, w1)" "r \<noteq> None"
    "world_inv (w1\<lparr>ctl := Some (c\<lparr>g_shm_msgs := r\<rparr>)\<rparr>)"
    "node w1 = node w" "traj_users (w1\<lparr>ctl := Some (c\<lparr>g_shm_msgs := r\<rparr>)\<rparr>) = traj_users w" "w_traj w1 = w_traj w"
    by (rule arm_msgs_inv [OF assms]) blast
  let ?c = "c\<lparr>g_shm_msgs := r\<rparr>"
  have f: "traj_users (w1\<lparr>ctl := Some ?c\<rparr>) + 1 < 2 ^ 32" using 1(5) assms(2) by (simp add: few_def)
  obtain t w2 where 2: "attach_g_traj (?c, w1) = (?c\<lparr>g_traj_shm := t\<rparr>, w2)" "t \<noteq> None"
      "world_inv (w2\<lparr>ctl := Some (?c\<lparr>g_traj_shm := t\<rparr>)\<rparr>)" "node w2 = node w1"
      "w_traj w2 = w_traj w1 \<or> w_traj w2 = snd (init_arm_traj_shm True True shm_arm_traj_key (w_traj w1))"
    by (rule arm_traj_inv [OF 1(3) f])
  have e: "in_controller ensureShmAttached w = w2\<lparr>ctl := Some (?c\<lparr>g_traj_shm := t\<rparr>)\<rparr>"
    using assms(3) by (simp add: in_controller_def ensureShmAttached_def 1(1) 2(1))
  show ?thesis
    by (rule that [of "?c\<lparr>g_traj_shm := t\<rparr>"]) (use 1 2 in \<open>simp_all add: e\<close>)
qed

lemma controller_return_inv:
  assumes "world_inv w" "ctl w = Some c"
  shows "world_inv (controller_return c w)"
proof -
  have "segment_counts shm_msg_key process_num (msgs_users w) (shm_ref ` set_option (node w)) (w_msgs w)"
    using counts_weaken [OF world_msgs(1) [OF assms(1)]] by blast
  then show ?thesis using world_msgs(2) [OF assms(1)] assms(2)
    by (simp add: world_inv_def controller_return_def msgs_users_def traj_users_def hand_ref_def)
qed

lemma controller_stop_inv:
  assumes "world_inv w" "few w" "ctl w = Some c"
  shows "world_inv (controller_stop c w)"
proof (cases "shm_msgs_hand c")
  case None
  then have "controller_stop c w = controller_return c w"
    by (simp add: controller_stop_def controller_return_def deleteSharedMemory_def)
  then show ?thesis using controller_return_inv [OF assms(1,3)] by simp
next
  case (Some i)
  let ?h = "shm_ref ` set_option (node w)"
  have m: "segment_counts shm_msg_key process_num (msgs_users w) (insert (shm_msgs_hand c) ?h) (w_msgs w)"
    using world_msgs(1) [OF assms(1)] assms(3) Some by (simp add: hand_ref_def)
  have "msgs_users w = 1 \<longrightarrow> ?h = {}" using assms(3) Some by (auto simp: users_defs split: if_splits)
  then have d: "segment_counts shm_msg_key process_num (msgs_users w - 1) ?h
      (deleteSharedMemory True (shm_msgs_hand c) (w_msgs w))"
    using delete_counts [OF m, of "shm_msgs_hand c" ?h] assms(2) by (auto simp: few_def)
  have u: "msgs_users (controller_stop c w) = msgs_users w - 1" "traj_users (controller_stop c w) = traj_users w"
    using assms(3) Some by (simp_all add: controller_stop_def msgs_users_def traj_users_def held_msgs_def)
  show ?thesis using d u world_msgs(2) [OF assms(1)]
    by (simp add: world_inv_def hand_ref_def) (simp add: controller_stop_def hand_ref_def)
qed

lemma bridge_start_inv:
  assumes "world_inv w" "few w" "node w = None"
  shows "world_inv (bridge_start r w) \<and> ctl (bridge_start r w) = ctl w"
proof (cases "d_le r (Fin 0)")
  case True
  with assms show ?thesis by (simp add: bridge_start_def)
next
  case False
  let ?h = "hand_ref (ctl w)"
  have m: "segment_counts shm_msg_key process_num (msgs_users w) ?h (w_msgs w)"
    and t: "segment_counts shm_arm_traj_key traj_process_num (traj_users w) {} (w_traj w)"
    and b: "msgs_users w + 1 < 2 ^ 32" "traj_users w + 1 < 2 ^ 32"
    using assms by (simp_all add: world_inv_def few_def)
  obtain i s where 1: "attach_msgs w = (Some i, w\<lparr>w_msgs := s\<rparr>)"
    "segment_counts shm_msg_key process_num (msgs_users w + 1) (insert (Some i) ?h) s"
    using attach_msgs_inv [OF m b(1)] by auto
  obtain j u where 2: "attach_traj (w\<lparr>w_msgs := s\<rparr>) = (Some j, w\<lparr>w_msgs := s, w_traj := u\<rparr>)"
    "segment_counts shm_arm_traj_key traj_process_num (traj_users w + 1) {Some j} u"
    using attach_traj_inv [of _ _ "w\<lparr>w_msgs := s\<rparr>"] t b by fastforce
  have "bridge_start r w = w\<lparr>w_msgs := s, w_traj := u, node := Some \<lparr>shm_ref = Some i, traj_shm_ref = Some j\<rparr>\<rparr>"
    using False 1 2 by (simp add: bridge_start_def)
  with 1 2 assms(3) show ?thesis by (simp add: world_inv_def msgs_users_def traj_users_def)
qed

lemma bridge_stop_inv:
  assumes "world_inv w" "few w" "node w = Some b"
  shows "world_inv (bridge_stop b w)"
proof -
  let ?h = "hand_ref (ctl w)"
  have m: "segment_counts shm_msg_key process_num (msgs_users w) (?h \<union> {shm_ref b}) (w_msgs w)"
    and t: "segment_counts shm_arm_traj_key traj_process_num (traj_users w) {traj_shm_ref b} (w_traj w)"
    and n: "msgs_users w < 2 ^ 32" "traj_users w < 2 ^ 32"
    using assms by (simp_all add: world_inv_def few_def)
  have "msgs_users w = 1 \<longrightarrow> ?h = {}"
    using assms(3) by (auto simp: users_defs hand_ref_def split: if_splits option.splits)
  then have "segment_counts shm_msg_key process_num (msgs_users w - 1) ?h (deleteSharedMemory True (shm_ref b) (w_msgs w))"
    using delete_counts [OF m, of "shm_ref b" ?h] n by auto
  moreover have "segment_counts shm_arm_traj_key traj_process_num (traj_users w - 1) {}
      (deleteArmTrajSharedMemory True (traj_shm_ref b) (w_traj w))"
    using delete_traj_counts [OF t, of "traj_shm_ref b" "{}"] n by auto
  moreover have "shm_ref b \<noteq> None \<and> traj_shm_ref b \<noteq> None"
    using m t by (auto simp: segment_counts_def split: option.splits)
  ultimately show ?thesis using assms(3)
    by (simp add: world_inv_def bridge_stop_def msgs_users_def traj_users_def)
qed

lemma reset_counts:
  "segment_counts k traj_process_num n held s \<Longrightarrow> segment_counts k traj_process_num n held (reset_main s)"
  by (auto simp: segment_counts_def reset_main_def reset_arm_traj_def upd_seg_def split: option.splits)

lemma users_updates [simp]:
  "msgs_users (w\<lparr>w_msgs := s\<rparr>) = msgs_users w" "msgs_users (w\<lparr>w_traj := t\<rparr>) = msgs_users w"
  "traj_users (w\<lparr>w_msgs := s\<rparr>) = traj_users w" "traj_users (w\<lparr>w_traj := t\<rparr>) = traj_users w"
  by (simp_all add: msgs_users_def traj_users_def)

lemma happen_inv:
  assumes "world_inv w" "few w" "event_ok e"
  shows "world_inv (happen e w)"
proof (cases e)
  case Start_controller
  then show ?thesis using controller_start_inv assms(1) by simp
next
  case Attach_hand
  then show ?thesis using hand_begins_inv [OF assms(1,2)] assms(1) by (cases "ctl w") (simp_all add: in_controller_def)
next
  case Attach_arm
  show ?thesis
  proof (cases "ctl w")
    case (Some c)
    then show ?thesis using arm_begins [OF assms(1,2) Some] Attach_arm by (metis happen.simps(3))
  qed (use assms(1) Attach_arm in \<open>simp add: in_controller_def\<close>)
next
  case Attach_print
  then show ?thesis using print_begins_inv [OF assms(1,2)] assms(1) by (cases "ctl w") (simp_all add: in_controller_def)
next
  case Return_controller
  then show ?thesis using controller_return_inv [OF assms(1)] assms(1) by (simp split: option.split)
next
  case Stop_controller
  then show ?thesis using controller_stop_inv [OF assms(1,2)] assms(1) by (simp split: option.split)
next
  case (Start_bridge r)
  then show ?thesis using bridge_start_inv [OF assms(1,2)] assms(1) by simp
next
  case Stop_bridge
  then show ?thesis using bridge_stop_inv [OF assms(1,2)] assms(1) by (simp split: option.split)
next
  case Reset
  then show ?thesis using assms(1) reset_counts by (simp add: world_inv_def)
next
  case (Store_msgs f)
  with assms(3) have "segment_counts shm_msg_key process_num n h s \<Longrightarrow>
      segment_counts shm_msg_key process_num n h (store_to shm_msg_key f s)" for n h s
    by (intro store_counts) simp_all
  with Store_msgs assms(1) show ?thesis by (auto simp: world_inv_def)
next
  case (Store_traj f)
  with assms(3) have "segment_counts shm_arm_traj_key traj_process_num n h s \<Longrightarrow>
      segment_counts shm_arm_traj_key traj_process_num n h (store_to shm_arm_traj_key f s)" for n h s
    by (intro store_counts) simp_all
  with Store_traj assms(1) show ?thesis by (auto simp: world_inv_def)
qed

section \<open>What a history leaves behind\<close>

text \<open>An arm thread has attached, of the running controller or of one that left its counts.\<close>

definition arm_attached :: "world \<Rightarrow> bool" where
  "arm_attached w \<longleftrightarrow> (\<exists>c. ctl w = Some c \<and> g_shm_msgs c \<noteq> None \<and> g_traj_shm c \<noteq> None) \<or>
     (0 < lost_msgs w \<and> 0 < lost_traj w)"

lemma attach_parts:
  "\<exists>r s. attach_msgs w = (r, w\<lparr>w_msgs := s\<rparr>)" "\<exists>r s. attach_traj w = (r, w\<lparr>w_traj := s\<rparr>)"
  by (simp_all add: attach_msgs_def attach_traj_def case_prod_unfold Let_def) (rule exI, rule refl)+

lemma begins_parts:
  assumes "ctl w = Some c"
  shows "\<exists>c1. ctl (in_controller hand_begins w) = Some c1 \<and> g_shm_msgs c1 = g_shm_msgs c \<and> g_traj_shm c1 = g_traj_shm c \<and>
      held_msgs c1 \<le> held_msgs c + 1"
    "\<exists>c1. ctl (in_controller print_begins w) = Some c1 \<and> g_shm_msgs c1 = g_shm_msgs c \<and> g_traj_shm c1 = g_traj_shm c \<and>
      held_msgs c1 \<le> held_msgs c + 1"
    "node (in_controller hand_begins w) = node w" "node (in_controller print_begins w) = node w"
    "w_traj (in_controller hand_begins w) = w_traj w" "w_traj (in_controller print_begins w) = w_traj w"
    "lost_msgs (in_controller hand_begins w) = lost_msgs w" "lost_msgs (in_controller print_begins w) = lost_msgs w"
    "lost_traj (in_controller hand_begins w) = lost_traj w" "lost_traj (in_controller print_begins w) = lost_traj w"
  using attach_parts(1) [of w] assms
  by (auto simp: in_controller_def hand_begins_def print_begins_def ecatthread_attach_def shm_print_attach_def held_msgs_def)

lemma arm_parts:
  assumes "ctl w = Some c"
  shows "\<exists>c1. ctl (in_controller ensureShmAttached w) = Some c1 \<and> held_msgs c1 \<le> held_msgs c + 1 \<and> held_traj c1 \<le> held_traj c + 1"
    "node (in_controller ensureShmAttached w) = node w"
    "lost_msgs (in_controller ensureShmAttached w) = lost_msgs w" "lost_traj (in_controller ensureShmAttached w) = lost_traj w"
proof -
  obtain r s where 1: "attach_msgs w = (r, w\<lparr>w_msgs := s\<rparr>)" using attach_parts(1) by blast
  obtain t u where 2: "attach_traj w = (t, w\<lparr>w_traj := u\<rparr>)" using attach_parts(2) by blast
  obtain t' u' where 3: "attach_traj (w\<lparr>w_msgs := s\<rparr>) = (t', w\<lparr>w_msgs := s, w_traj := u'\<rparr>)"
    using attach_parts(2) [of "w\<lparr>w_msgs := s\<rparr>"] by auto
  show "\<exists>c1. ctl (in_controller ensureShmAttached w) = Some c1 \<and> held_msgs c1 \<le> held_msgs c + 1 \<and> held_traj c1 \<le> held_traj c + 1"
    "node (in_controller ensureShmAttached w) = node w"
    "lost_msgs (in_controller ensureShmAttached w) = lost_msgs w" "lost_traj (in_controller ensureShmAttached w) = lost_traj w"
    using assms
    by (simp_all add: in_controller_def ensureShmAttached_def attach_g_msgs_def attach_g_traj_def 1 2 3 held_msgs_def held_traj_def)
qed

lemma bridge_start_parts:
  "ctl (bridge_start r w) = ctl w" "lost_msgs (bridge_start r w) = lost_msgs w" "lost_traj (bridge_start r w) = lost_traj w"
  "w_traj (bridge_start r w) =
    (if d_le r (Fin 0) then w_traj w else snd (init_arm_traj_shm True True shm_arm_traj_key (w_traj w)))"
  by (simp_all add: bridge_start_def attach_msgs_def attach_traj_def case_prod_unfold Let_def)

lemma in_controller_None: "ctl w = None \<Longrightarrow> in_controller f w = w"
  by (simp add: in_controller_def)

lemma users_step: "msgs_users (happen e w) \<le> msgs_users w + 1 \<and> traj_users (happen e w) \<le> traj_users w + 1"
proof (cases e)
  case Attach_hand
  then show ?thesis using begins_parts [of w] in_controller_None [of w]
    by (cases "ctl w") (fastforce simp: msgs_users_def traj_users_def held_traj_def)+
next
  case Attach_print
  then show ?thesis using begins_parts [of w] in_controller_None [of w]
    by (cases "ctl w") (fastforce simp: msgs_users_def traj_users_def held_traj_def)+
next
  case Attach_arm
  then show ?thesis using arm_parts [of w] in_controller_None [of w]
    by (cases "ctl w") (fastforce simp: msgs_users_def traj_users_def)+
next
  case (Start_bridge r)
  then show ?thesis by (simp add: msgs_users_def traj_users_def bridge_start_parts)
next
  case Start_controller
  then show ?thesis by (simp add: users_defs controller_start_def no_controller_def)
qed (auto simp: msgs_users_def traj_users_def controller_stop_def controller_return_def bridge_stop_def split: option.split)

lemma attached_step:
  assumes "arm_attached w" "world_inv w" "few w"
  shows "arm_attached (happen e w)"
proof (cases e)
  case Attach_hand
  then show ?thesis using assms(1) begins_parts [of w] in_controller_None [of w]
    by (cases "ctl w") (fastforce simp: arm_attached_def)+
next
  case Attach_print
  then show ?thesis using assms(1) begins_parts [of w] in_controller_None [of w]
    by (cases "ctl w") (fastforce simp: arm_attached_def)+
next
  case Attach_arm
  show ?thesis
  proof (cases "ctl w")
    case (Some c)
    then show ?thesis using arm_begins [OF assms(2,3) Some] Attach_arm by (metis happen.simps(3) arm_attached_def)
  qed (use assms(1) Attach_arm in \<open>simp add: in_controller_def\<close>)
qed (use assms(1) in \<open>auto simp: arm_attached_def controller_start_def controller_stop_def controller_return_def
      bridge_stop_def bridge_start_parts held_msgs_def held_traj_def split: option.splits\<close>)

fun quiet :: "event \<Rightarrow> bool" where
  "quiet (Store_traj f) \<longleftrightarrow> False"
| "quiet Reset \<longleftrightarrow> False"
| "quiet _ \<longleftrightarrow> True"

definition same_traj :: "nat \<Rightarrow> ArmTrajShm shm_os \<Rightarrow> ArmTrajShm shm_os \<Rightarrow> bool" where
  "same_traj i s t \<longleftrightarrow> key_of t shm_arm_traj_key = Some i \<and> Arm_traj (seg t i) = Arm_traj (seg s i)"

lemma init_traj_same:
  "key_of s shm_arm_traj_key = Some i \<Longrightarrow> traj_process_num (seg s i) \<noteq> 0 \<Longrightarrow>
    same_traj i s (snd (init_arm_traj_shm True True shm_arm_traj_key s))"
  by (simp add: same_traj_def init_arm_traj_shm_def shm_ops Let_def)

lemma attached_users: "arm_attached w \<Longrightarrow> 0 < msgs_users w \<and> 0 < traj_users w"
  "arm_attached w \<Longrightarrow> node w \<noteq> None \<Longrightarrow> 1 < traj_users w"
  by (auto simp: arm_attached_def users_defs split: option.splits)

lemma quiet_keeps:
  assumes inv: "world_inv w" "few w" "arm_attached w" and e: "quiet e" and k: "key_of (w_traj w) shm_arm_traj_key = Some i"
  shows "same_traj i (w_traj w) (w_traj (happen e w))"
proof -
  have u: "traj_process_num (seg (w_traj w) i) = of_nat (traj_users w)" "traj_users w < 2 ^ 32"
    and h: "traj_shm_ref ` set_option (node w) \<subseteq> {Some i}"
    using inv k by (auto simp: world_inv_def few_def segment_counts_def)
  then have nz: "traj_process_num (seg (w_traj w) i) \<noteq> 0" using attached_users(1) [OF inv(3)] by (simp add: count_zero)
  have refl: "same_traj i (w_traj w) (w_traj w)" using k by (simp add: same_traj_def)
  show ?thesis
  proof (cases e)
    case Start_controller
    then show ?thesis using refl by (simp add: controller_start_def)
  next
    case Attach_hand
    then show ?thesis using refl begins_parts(5) [of w] in_controller_None [of w] by (cases "ctl w") simp_all
  next
    case Attach_print
    then show ?thesis using refl begins_parts(6) [of w] in_controller_None [of w] by (cases "ctl w") simp_all
  next
    case Attach_arm
    show ?thesis
    proof (cases "ctl w")
      case (Some c)
      then show ?thesis using arm_begins [OF inv(1,2) Some] Attach_arm refl init_traj_same [OF k nz] by (metis happen.simps(3))
    qed (use refl Attach_arm in \<open>simp add: in_controller_def\<close>)
  next
    case Return_controller
    then show ?thesis using refl by (simp add: controller_return_def split: option.split)
  next
    case Stop_controller
    then show ?thesis using refl by (simp add: controller_stop_def split: option.split)
  next
    case (Start_bridge r)
    then show ?thesis using refl init_traj_same [OF k nz] by (simp add: bridge_start_parts)
  next
    case Stop_bridge
    show ?thesis
    proof (cases "node w")
      case (Some b)
      with attached_users(2) [OF inv(3)] have "1 < traj_users w" by simp
      moreover from this u have "of_nat (traj_users w) - 1 = (of_nat (traj_users w - 1) :: u32)" by (simp add: of_nat_diff)
      ultimately have "of_nat (traj_users w) - 1 \<noteq> (0 :: u32)" using u count_zero [of "traj_users w - 1"] by simp
      with Stop_bridge Some h k u show ?thesis
        by (simp add: same_traj_def bridge_stop_def deleteArmTrajSharedMemory_def shm_ops Let_def)
    qed (use Stop_bridge refl in simp)
  next
    case (Store_msgs f)
    then show ?thesis using refl by simp
  qed (use e in simp_all)
qed

lemma history_inv:
  assumes "world_inv w" "list_all event_ok es" "msgs_users w + length es + 4 < 2 ^ 32" "traj_users w + length es + 4 < 2 ^ 32"
  shows "world_inv (history es w) \<and> msgs_users (history es w) \<le> msgs_users w + length es
    \<and> traj_users (history es w) \<le> traj_users w + length es"
  using assms
proof (induction es arbitrary: w)
  case (Cons e es)
  have "world_inv (happen e w)" by (rule happen_inv) (use Cons.prems in \<open>auto simp: few_def\<close>)
  then show ?case
    using Cons.IH [of "happen e w"] Cons.prems users_step [of e w] by (simp add: history_def)
qed (simp add: history_def)

lemma history_append: "history (es @ fs) w = history fs (history es w)"
  by (simp add: history_def)

lemma history_attached:
  assumes "world_inv w" "arm_attached w" "list_all event_ok es" "msgs_users w + length es + 4 < 2 ^ 32"
    "traj_users w + length es + 4 < 2 ^ 32"
  shows "arm_attached (history es w)"
  using assms
proof (induction es arbitrary: w)
  case (Cons e es)
  have f: "few w" using Cons.prems by (simp add: few_def)
  have "arm_attached (history es (happen e w))"
    by (rule Cons.IH) (use Cons.prems happen_inv [OF Cons.prems(1) f, of e] attached_step [OF Cons.prems(2,1) f, of e]
        users_step [of e w] in auto)
  then show ?case by (simp add: history_def)
qed (simp add: history_def)

lemma quiet_history:
  assumes "world_inv w" "arm_attached w" "list_all event_ok es" "list_all quiet es"
    "msgs_users w + length es + 4 < 2 ^ 32" "traj_users w + length es + 4 < 2 ^ 32"
    and "key_of (w_traj w) shm_arm_traj_key = Some i"
  shows "same_traj i (w_traj w) (w_traj (history es w))"
  using assms
proof (induction es arbitrary: w)
  case Nil
  then show ?case by (simp add: same_traj_def history_def)
next
  case (Cons e es)
  have f: "few w" using Cons.prems by (simp add: few_def)
  have e: "quiet e" "event_ok e" using Cons.prems by simp_all
  have s: "same_traj i (w_traj w) (w_traj (happen e w))"
    by (rule quiet_keeps) (use Cons.prems f e in auto)
  have "same_traj i (w_traj (happen e w)) (w_traj (history es (happen e w)))"
    by (rule Cons.IH) (use Cons.prems happen_inv [OF _ f e(2)] attached_step [OF _ _ f, of e] users_step [of e w] s
        in \<open>auto simp: same_traj_def\<close>)
  with s show ?case by (simp add: same_traj_def history_def)
qed

lemma history_reaches:
  assumes "list_all event_ok (es @ Attach_arm # fs)" "length es + length fs < 2 ^ 30" "ctl (history es empty_world) \<noteq> None"
    and "w = history (es @ Attach_arm # fs) empty_world"
  shows "world_inv w" "arm_attached w" "msgs_users w \<le> length es + length fs + 1" "traj_users w \<le> length es + length fs + 1"
proof -
  let ?w = "history es empty_world"
  have "world_inv empty_world" "msgs_users empty_world = 0" "traj_users empty_world = 0"
    by (simp_all add: empty_world_def world_inv_def users_defs segment_counts_def empty_os_def hand_ref_def)
  note W = history_inv [OF this(1), of es] this
  have i: "world_inv ?w" "msgs_users ?w \<le> length es" "traj_users ?w \<le> length es" using W assms(1,2) by simp_all
  then have f: "few ?w" using assms(2) by (simp add: few_def)
  obtain c where c: "ctl ?w = Some c" using assms(3) by blast
  let ?v = "happen Attach_arm ?w"
  have v: "world_inv ?v" "arm_attached ?v"
    using arm_begins [OF i(1) f c] by (auto simp: arm_attached_def)
  have u: "msgs_users ?v \<le> length es + 1" "traj_users ?v \<le> length es + 1" using users_step [of Attach_arm ?w] i(2,3) by simp_all
  have w: "w = history fs ?v" by (simp add: assms(4) history_def)
  have ok: "list_all event_ok fs" using assms(1) by simp
  have b: "msgs_users ?v + length fs + 4 < 2 ^ 32" "traj_users ?v + length fs + 4 < 2 ^ 32" using u assms(2) by simp_all
  show "world_inv w" "msgs_users w \<le> length es + length fs + 1" "traj_users w \<le> length es + length fs + 1"
    using history_inv [OF v(1) ok b] u unfolding w by simp_all
  show "arm_attached w" unfolding w by (rule history_attached [OF v ok b])
qed

lemma copy_trajectory_cong:
  assumes "Arm_traj s = Arm_traj t"
  shows "fst (copy_trajectory s) = fst (copy_trajectory t)"
  using assms by (simp add: copy_trajectory_def traj_set_state_def upd_traj_def Let_def split: option.split)


definition demo_before :: "event list" where
  "demo_before = [Start_controller, Attach_hand]"

definition demo_between :: "event list" where
  "demo_between = [Attach_print, Start_bridge (Fin 1000), Store_traj (on_franka_trajectory demo_message)]"

text \<open>The controller ends, the node ends, another controller ends at an early return, a third one starts.\<close>

definition demo_after :: "event list" where
  "demo_after = [Stop_controller, Stop_bridge, Start_controller, Attach_hand, Return_controller, Start_controller, Attach_arm]"

lemma arm_first:
  assumes "ctl w = Some c" "g_traj_shm c = None"
  shows "w_traj (in_controller ensureShmAttached w) = snd (init_arm_traj_shm True True shm_arm_traj_key (w_traj w))"
proof -
  obtain r s where "attach_msgs w = (r, w\<lparr>w_msgs := s\<rparr>)" using attach_parts(1) by blast
  then show ?thesis using assms
    by (simp add: in_controller_def ensureShmAttached_def attach_g_msgs_def attach_g_traj_def attach_traj_def
        case_prod_unfold Let_def)
qed

lemma demo_stored:
  "\<exists>t. traj_wf t \<and> w_traj (history (demo_before @ Attach_arm # demo_between) empty_world) =
     (empty_os zero_traj_shm)\<lparr>seg := (seg (empty_os zero_traj_shm))(fresh (empty_os zero_traj_shm) := on_franka_trajectory demo_message t),
       key_of := Map.empty(shm_arm_traj_key \<mapsto> fresh (empty_os zero_traj_shm)), fresh := fresh (empty_os zero_traj_shm) + 1\<rparr>"
proof -
  let ?t = "\<lambda>n. zero_traj_shm\<lparr>Arm_traj := replicate Arm_Num (zero_traj_buf\<lparr>tb_state := ARM_TRAJ_IDLE, tb_len := 0\<rparr>),
    traj_process_num := n\<rparr>"
  let ?os = "\<lambda>t. (empty_os zero_traj_shm)\<lparr>seg := (seg (empty_os zero_traj_shm))(fresh (empty_os zero_traj_shm) := t),
       key_of := Map.empty(shm_arm_traj_key \<mapsto> fresh (empty_os zero_traj_shm)), fresh := fresh (empty_os zero_traj_shm) + 1\<rparr>"
  define w1 where "w1 = controller_start empty_world"
  have 1: "ctl w1 = Some no_controller" "w_traj w1 = empty_os zero_traj_shm" "node w1 = None"
    by (simp_all add: w1_def controller_start_def empty_world_def)
  define w2 where "w2 = in_controller hand_begins w1"
  obtain c2 where 2: "ctl w2 = Some c2" "g_traj_shm c2 = None" "w_traj w2 = empty_os zero_traj_shm" "node w2 = None"
    using begins_parts(1,3,5) [OF 1(1)] 1 by (auto simp: w2_def no_controller_def)
  define w3 where "w3 = in_controller ensureShmAttached w2"
  obtain c3 where 3: "ctl w3 = Some c3" "node w3 = None" using arm_parts(1,2) [OF 2(1)] 2(4) by (auto simp: w3_def)
  have t3: "w_traj w3 = ?os (?t 1)"
    using arm_first [OF 2(1,2)] 2(3)
    by (simp add: w3_def init_arm_traj_shm_def shmget_creat_def empty_os_def upd_seg_def Let_def zero_traj_shm_def)
  define w4 where "w4 = in_controller print_begins w3"
  obtain c4 where 4: "ctl w4 = Some c4" "w_traj w4 = ?os (?t 1)" "node w4 = None"
    using begins_parts(2,4,6) [OF 3(1)] 3(2) t3 by (auto simp: w4_def)
  define w5 where "w5 = bridge_start (Fin 1000) w4"
  have 5: "ctl w5 = Some c4" "w_traj w5 = ?os (?t 2)"
    using 4 by (simp_all add: w5_def bridge_start_parts init_arm_traj_shm_def shm_ops Let_def zero_traj_shm_def)
  have "history (demo_before @ Attach_arm # demo_between) empty_world =
      happen (Store_traj (on_franka_trajectory demo_message)) w5"
    using 1 2 3 4 by (simp add: history_def demo_before_def demo_between_def w5_def w4_def w3_def w2_def w1_def empty_world_def
        del: happen.simps(11))
  then have "w_traj (history (demo_before @ Attach_arm # demo_between) empty_world) = ?os (on_franka_trajectory demo_message (?t 2))"
    using 5 by (simp add: store_to_def upd_seg_def)
  moreover have "traj_wf (?t 2)" by (simp add: traj_wf_def zero_traj_buf_def)
  ultimately show ?thesis by blast
qed


text \<open>The reset tool is the way out: what it leaves is idle, and the next controller clears the rest.\<close>

lemma reset_is_idle:
  assumes "key_of s shm_arm_traj_key = Some i" and "b \<in> set (Arm_traj (seg (reset_main s) i))"
  shows "tb_state b = ARM_TRAJ_IDLE \<and> tb_len b = 0"
  using assms by (auto simp: reset_main_def reset_arm_traj_def upd_seg_def)

text \<open>The arm thread runs through \<open>ensureShmAttached\<close> at every retry; only the first time attaches.\<close>

lemma ensureShmAttached_once: "ensureShmAttached (ensureShmAttached (c, w)) = ensureShmAttached (c, w)"
proof -
  have a: "\<exists>i t. init_shm True True k s = (Attached i, t)" for k and s :: "SHMmsgs shm_os"
    by (simp add: init_shm_def Let_def case_prod_unfold)
  have b: "\<exists>i t. init_arm_traj_shm True True k s = (Attached i, t)" for k and s :: "ArmTrajShm shm_os"
    by (simp add: init_arm_traj_shm_def Let_def case_prod_unfold)
  obtain i t where 1: "init_shm True True shm_msg_key (w_msgs w) = (Attached i, t)" using a by blast
  obtain j u where 2: "init_arm_traj_shm True True shm_arm_traj_key (w_traj w) = (Attached j, u)" using b by blast
  show ?thesis by (simp add: ensureShmAttached_def attach_g_msgs_def attach_g_traj_def attach_msgs_def attach_traj_def 1 2)
qed

end
