(* ===== verification/Printf.thy ===== *)
theory Printf
  imports Binary64
begin

text \<open>
  What the program uses of C's \<open>sprintf\<close>: the conversions \<open>%d\<close>, \<open>%x\<close> and \<open>%f\<close> with width, precision and
  zero padding, and the write into a buffer of known size, where \<open>None\<close> is a text that does not fit
  with its terminator. Lengths of the conversions are what the callers' buffers depend on.
\<close>

section \<open>Conversions\<close>

fun digits :: "nat \<Rightarrow> nat \<Rightarrow> string" where
  "digits b n = (if n < b \<or> b < 2 then [''0123456789abcdef'' ! n]
     else digits b (n div b) @ [''0123456789abcdef'' ! (n mod b)])"

declare digits.simps [simp del]

definition pad :: "char \<Rightarrow> nat \<Rightarrow> string \<Rightarrow> string" where
  "pad ch w s = replicate (w - length s) ch @ s"

definition fmt_d :: "int \<Rightarrow> string" where
  "fmt_d z = (if z < 0 then CHR ''-'' # digits 10 (nat (- z)) else digits 10 (nat z))"

text \<open>\<open>%0wd\<close>: the zeros stand between the sign and the digits.\<close>

definition fmt_0d :: "nat \<Rightarrow> int \<Rightarrow> string" where
  "fmt_0d w z = (if z < 0 then CHR ''-'' # pad CHR ''0'' (w - 1) (digits 10 (nat (- z)))
     else pad CHR ''0'' w (digits 10 (nat z)))"

text \<open>\<open>%p.px\<close> of an \<open>unsigned int\<close>\<close>

definition fmt_x :: "nat \<Rightarrow> u32 \<Rightarrow> string" where
  "fmt_x p u = pad CHR ''0'' p (digits 16 (unat u))"

text \<open>\<open>%w.pf\<close>: the exact decimal value, rounded to nearest, ties to even.\<close>

definition fixed :: "nat \<Rightarrow> rat \<Rightarrow> string" where
  "fixed p r = (let n = nat (round_even (\<bar>r\<bar> * 10 ^ p))
     in (if r < 0 then ''-'' else '''') @ digits 10 (n div 10 ^ p) @ ''.''
        @ pad CHR ''0'' p (digits 10 (n mod 10 ^ p)))"

fun fmt_f :: "nat \<Rightarrow> nat \<Rightarrow> dbl \<Rightarrow> string" where
  "fmt_f w p (Fin r) = pad CHR '' '' w (fixed p r)"
| "fmt_f w p (Inf pos) = pad CHR '' '' w (if pos then ''inf'' else ''-inf'')"
| "fmt_f w p NaN = pad CHR '' '' w ''nan''"

definition sprintf :: "nat \<Rightarrow> string \<Rightarrow> string option" where
  "sprintf n s = (if length s < n then Some s else None)"

text \<open>\<open>snprintf\<close> cuts the text so that it fits with its terminator.\<close>

definition snprintf :: "nat \<Rightarrow> string \<Rightarrow> string" where
  "snprintf n s = take (n - 1) s"

section \<open>Lengths\<close>

lemma length_pad [simp]: "length (pad ch w s) = max w (length s)"
  by (simp add: pad_def)

lemma digits_pos [simp]: "0 < length (digits b n)"
  by (subst digits.simps) simp

lemma length_digits:
  assumes "2 \<le> b"
  shows "n < b ^ Suc k \<Longrightarrow> length (digits b n) \<le> Suc k"
proof (induction k arbitrary: n)
  case 0
  then show ?case by (subst digits.simps) simp
next
  case (Suc k)
  have "n div b < b ^ Suc k"
    using Suc.prems assms by (simp add: less_mult_imp_div_less mult.commute)
  from Suc.IH [OF this] show ?case by (subst digits.simps) simp
qed

lemma length_digits_10: "n < 10 ^ Suc k \<Longrightarrow> length (digits 10 n) \<le> Suc k"
  by (rule length_digits) simp

lemma length_hex: "unat u < 16 ^ Suc k \<Longrightarrow> Suc k \<le> p \<Longrightarrow> length (fmt_x p u) = p"
  using length_digits [of 16 "unat u" k] by (simp add: fmt_x_def max_def)

lemma length_hex32 [simp]: "length (fmt_x 8 u) = 8"
  by (rule length_hex [where k = 7]) (use unsigned_less [where 'a = nat, of u] in simp_all)

lemma length_hex16 [simp]: "length (fmt_x 4 (ucast (w :: u16))) = 4"
  by (rule length_hex [where k = 3])
    (use unsigned_less [where 'a = nat, of w] in
      \<open>simp_all add: unsigned_ucast_eq le_less_trans [OF take_bit_nat_less_eq_self]\<close>)

lemma length_hex8 [simp]: "length (fmt_x 2 (ucast (w :: byte))) = 2"
  by (rule length_hex [where k = 1])
    (use unsigned_less [where 'a = nat, of w] in
      \<open>simp_all add: unsigned_ucast_eq le_less_trans [OF take_bit_nat_less_eq_self]\<close>)

lemma length_hex_le: "p \<le> 8 \<Longrightarrow> length (fmt_x p u) \<le> 8"
  using length_digits [of 16 "unat u" 7] unsigned_less [where 'a = nat, of u] by (simp add: fmt_x_def)

lemma length_fixed:
  assumes "0 \<le> r" and "r \<le> of_nat M" and "M < 10 ^ Suc k"
  shows "length (fixed (Suc p) r) \<le> k + p + 3"
proof -
  let ?n = "nat (round_even (\<bar>r\<bar> * 10 ^ Suc p))"
  have "r * 10 ^ Suc p \<le> of_int (int (M * 10 ^ Suc p))"
    using mult_right_mono [OF assms(2), of "10 ^ Suc p"] by simp
  then have "round_even (r * 10 ^ Suc p) \<le> int (M * 10 ^ Suc p)"
    using round_even_mono [of "r * 10 ^ Suc p" "of_int (int (M * 10 ^ Suc p))"] by (simp only: round_even_int)
  then have n: "?n \<le> M * 10 ^ Suc p" using assms(1) by (simp add: nat_le_iff)
  have "?n div 10 ^ Suc p \<le> M"
    using div_le_mono [OF n, of "10 ^ Suc p"] by simp
  then have "length (digits 10 (?n div 10 ^ Suc p)) \<le> Suc k"
    using assms(3) by (intro length_digits_10) simp
  moreover have "length (digits 10 (?n mod 10 ^ Suc p)) \<le> Suc p"
    by (rule length_digits_10) simp
  ultimately show ?thesis using assms(1) by (simp add: fixed_def Let_def)
qed

lemma length_fmt_f:
  assumes "0 \<le> r" and "r \<le> of_nat M" and "M < 10 ^ Suc k"
  shows "w \<le> length (fmt_f w (Suc p) (Fin r)) \<and> length (fmt_f w (Suc p) (Fin r)) \<le> max w (k + p + 3)"
  using length_fixed [OF assms, of p] by simp

end
