(* ===== verification/Hdf5_Logger.thy ===== *)
theory Hdf5_Logger
  imports Arm_Bridge Printf
begin

text \<open>
  The recorder of samples, \<open>src/hdf5_logger.cpp\<close>: one file with thirteen datasets that grow by a row
  per sample. The HDF5 library is not part of the sources; it is a parameter, a record with one
  function per call over a state of its own. What the datasets hold is read through two views of
  that state, the open datasets with their extents and written rows and the open dataspaces with
  their selections, and \<open>h5_documented\<close> collects what the manual of HDF5 says of each call,
  failures included. On every such library a row carries the same number in every dataset
  in which it was written, even when calls fail in between.
\<close>

section \<open>The library's interface\<close>

type_synonym hid = int
type_synonym hsize = u64

datatype h5type = NATIVE_ULLONG | NATIVE_SHORT | NATIVE_FLOAT | NATIVE_DOUBLE

text \<open>The array behind the pointer that \<open>H5Dwrite\<close> reads, in memory order.\<close>

datatype h5data = Ulongs "u64 list" | Shorts "u16 list" | Floats "real list" | Doubles "dbl list"

fun h5length :: "h5data \<Rightarrow> nat" where
  "h5length (Ulongs xs) = length xs"
| "h5length (Shorts xs) = length xs"
| "h5length (Floats xs) = length xs"
| "h5length (Doubles xs) = length xs"

text \<open>The rank of a dataspace is the length of its list of dimensions.\<close>

record 'h h5lib =
  H5Fcreate :: "string \<Rightarrow> 'h \<Rightarrow> hid \<times> 'h"
  H5Fclose :: "hid \<Rightarrow> 'h \<Rightarrow> 'h"
  H5Iis_valid :: "hid \<Rightarrow> 'h \<Rightarrow> int"
  H5Screate_simple :: "hsize list \<Rightarrow> hsize list option \<Rightarrow> 'h \<Rightarrow> hid \<times> 'h"
  H5Sselect_hyperslab :: "hid \<Rightarrow> hsize list \<Rightarrow> hsize list \<Rightarrow> 'h \<Rightarrow> int \<times> 'h"
  H5Sclose :: "hid \<Rightarrow> 'h \<Rightarrow> 'h"
  H5Pcreate :: "'h \<Rightarrow> hid \<times> 'h"
  H5Pset_chunk :: "hid \<Rightarrow> hsize list \<Rightarrow> 'h \<Rightarrow> int \<times> 'h"
  H5Pclose :: "hid \<Rightarrow> 'h \<Rightarrow> 'h"
  H5Dcreate2 :: "hid \<Rightarrow> string \<Rightarrow> h5type \<Rightarrow> hid \<Rightarrow> hid \<Rightarrow> 'h \<Rightarrow> hid \<times> 'h"
  H5Dset_extent :: "hid \<Rightarrow> hsize list \<Rightarrow> 'h \<Rightarrow> int \<times> 'h"
  H5Dget_space :: "hid \<Rightarrow> 'h \<Rightarrow> hid \<times> 'h"
  H5Dwrite :: "hid \<Rightarrow> h5type \<Rightarrow> hid \<Rightarrow> hid \<Rightarrow> h5data \<Rightarrow> 'h \<Rightarrow> int \<times> 'h"
  H5Dclose :: "hid \<Rightarrow> 'h \<Rightarrow> 'h"

definition H5S_UNLIMITED :: hsize where "H5S_UNLIMITED = - 1"
definition H5I_INVALID_HID :: hid where "H5I_INVALID_HID = - 1"
definition kChunkRows :: hsize where "kChunkRows = 256"

section \<open>Datasets\<close>

definition bad_id :: "'h h5lib \<Rightarrow> hid \<Rightarrow> 'h \<Rightarrow> bool" where
  "bad_id L d h \<longleftrightarrow> d < 0 \<or> H5Iis_valid L d h \<le> 0"

definition create_unlimited_dataset_c ::
    "'h h5lib \<Rightarrow> hid \<Rightarrow> string \<Rightarrow> h5type \<Rightarrow> hsize list \<Rightarrow> 'h \<Rightarrow> hid \<times> 'h" where
  "create_unlimited_dataset_c L file name ty tail_dims h =
    (let (space, h) = H5Screate_simple L (0 # tail_dims) (Some (H5S_UNLIMITED # tail_dims)) h
     in if space < 0 then (- 1, h) else
     let (plist, h) = H5Pcreate L h
     in if plist < 0 then (- 1, H5Sclose L space h) else
     let (r, h) = H5Pset_chunk L plist (kChunkRows # tail_dims) h
     in if r < 0 then (- 1, H5Sclose L space (H5Pclose L plist h)) else
     let (dset, h) = H5Dcreate2 L file name ty space plist h;
         h = H5Sclose L space (H5Pclose L plist h)
     in if bad_id L dset h then (H5I_INVALID_HID, h) else (dset, h))"

text \<open>The arrays of the hyperslab have eight entries; a higher rank overruns them.\<close>

definition append_dataset_c ::
    "'h h5lib \<Rightarrow> hid \<Rightarrow> h5type \<Rightarrow> h5data \<Rightarrow> hsize list \<Rightarrow> hsize \<Rightarrow> 'h \<Rightarrow> 'h option" where
  "append_dataset_c L dset ty data tail_dims row h =
    (if bad_id L dset h then Some h
     else if 8 < length tail_dims + 1 then None
     else let (r, h) = H5Dset_extent L dset ((row + 1) # tail_dims) h
     in if r < 0 then Some h else
     let (file_space, h) = H5Dget_space L dset h;
         (_, h) = H5Sselect_hyperslab L file_space (row # replicate (length tail_dims) 0) (1 # tail_dims) h;
         (mem_space, h) = H5Screate_simple L (1 # tail_dims) None h;
         (_, h) = H5Dwrite L dset ty mem_space file_space data h
     in Some (H5Sclose L file_space (H5Sclose L mem_space h)))"

section \<open>The recorder\<close>

text \<open>The broken-down time is year, month, day, hour, minute and second as \<open>localtime_r\<close> leaves them.\<close>

record broken_time =
  tm_year :: int
  tm_mon :: int
  tm_mday :: int
  tm_hour :: int
  tm_min :: int
  tm_sec :: int

definition make_log_file_path :: "string \<Rightarrow> bool \<Rightarrow> broken_time \<Rightarrow> nat \<Rightarrow> string + string" where
  "make_log_file_path project_root dir_ok tm usec =
    (let log_dir = project_root @ ''/log'' in
     if \<not> dir_ok then Inl ''Failed to create log directory''
     else let ts = snprintf 64 (fmt_0d 4 (tm_year tm + 1900) @ fmt_0d 2 (tm_mon tm + 1) @ fmt_0d 2 (tm_mday tm) @ ''_''
            @ fmt_0d 2 (tm_hour tm) @ fmt_0d 2 (tm_min tm) @ fmt_0d 2 (tm_sec tm) @ ''_'' @ fmt_0d 3 (int (usec div 1000)))
     in Inr (log_dir @ ''/hand_log_'' @ ts @ ''.hdf5''))"

text \<open>Name, element type and trailing dimensions of the datasets, in the order of their creation.\<close>

definition dataset_specs :: "(string \<times> h5type \<times> hsize list) list" where
  "dataset_specs =
    [(''00_timestamp_ns'', NATIVE_ULLONG, []),
     (''01_j_pos'', NATIVE_SHORT, [of_nat Hand_Num, of_nat Hand_DOF]),
     (''02_j_tar'', NATIVE_SHORT, [of_nat Hand_Num, of_nat Hand_DOF]),
     (''03_j_cur'', NATIVE_SHORT, [of_nat Hand_Num, of_nat Hand_DOF]),
     (''04_j_kin'', NATIVE_SHORT, [of_nat Hand_Num, of_nat Kinesthetic_Sensor_Num, of_nat Kinesthetic_Sensor_DOF]),
     (''05_j_tac'', NATIVE_SHORT, [of_nat Hand_Num, of_nat Tactile_Sensor_Num]),
     (''06_tip_pos'', NATIVE_FLOAT, [of_nat Hand_Num, of_nat Finger_Num, of_nat Cartesian_DOF]),
     (''07_tip_quat'', NATIVE_FLOAT, [of_nat Hand_Num, of_nat Finger_Num, of_nat Quaternion_DOF]),
     (''08_arm_j_pos'', NATIVE_DOUBLE, [of_nat Arm_Num, of_nat Arm_DOF]),
     (''09_arm_j_tar'', NATIVE_DOUBLE, [of_nat Arm_Num, of_nat Arm_DOF]),
     (''10_arm_j_vel'', NATIVE_DOUBLE, [of_nat Arm_Num, of_nat Arm_DOF]),
     (''11_arm_c_pos'', NATIVE_DOUBLE, [of_nat Arm_Num, 16]),
     (''12_arm_j_tq'', NATIVE_DOUBLE, [of_nat Arm_Num, of_nat Arm_DOF])]"

text \<open>The state of the recorder: the fields \<open>ds_timestamp_ns\<close> to \<open>ds_arm_j_tq\<close> are the list of
  their identifiers, in the same order.\<close>

record hdf5_impl =
  file_path :: string
  file_id :: hid
  ds_ids :: "hid list"
  row_count :: hsize
  valid_impl :: bool

fun create_datasets :: "'h h5lib \<Rightarrow> hid \<Rightarrow> (string \<times> h5type \<times> hsize list) list \<Rightarrow> 'h \<Rightarrow> hid list \<times> 'h" where
  "create_datasets L file [] h = ([], h)"
| "create_datasets L file ((name, ty, tail_dims) # specs) h =
    (let (d, h) = create_unlimited_dataset_c L file name ty tail_dims h;
         (ds, h) = create_datasets L file specs h
     in (d # ds, h))"

definition Impl_create :: "'h h5lib \<Rightarrow> string \<Rightarrow> 'h \<Rightarrow> hdf5_impl \<times> 'h" where
  "Impl_create L path h =
    (let (file, h) = H5Fcreate L path h
     in if bad_id L file h
        then (\<lparr>file_path = path, file_id = file, ds_ids = replicate 13 (- 1), row_count = 0, valid_impl = False\<rparr>, h)
     else let (ds, h) = create_datasets L file dataset_specs h
     in (\<lparr>file_path = path, file_id = file, ds_ids = ds, row_count = 0,
          valid_impl = (\<forall>d \<in> set ds. \<not> bad_id L d h)\<rparr>, h))"

definition close_if_valid :: "'h h5lib \<Rightarrow> hid \<Rightarrow> 'h \<Rightarrow> hid \<times> 'h" where
  "close_if_valid L d h = (if bad_id L d h then (d, h) else (- 1, H5Dclose L d h))"

definition Impl_destroy :: "'h h5lib \<Rightarrow> hdf5_impl \<Rightarrow> 'h \<Rightarrow> 'h" where
  "Impl_destroy L im h =
    (let h = fold (\<lambda>d h. snd (close_if_valid L d h)) (ds_ids im) h
     in if bad_id L (file_id im) h then h else H5Fclose L (file_id im) h)"

definition now_ns :: "nat \<times> nat \<Rightarrow> u64" where
  "now_ns tv = of_nat (fst tv) * 1000000000 + of_nat (snd tv) * 1000"

text \<open>The members of a sample in the order in which they are appended, each with the
  number of its dataset; the time stamp comes last.\<close>

definition sample_columns :: "nat \<times> nat \<Rightarrow> SHMmsgs \<Rightarrow> (nat \<times> h5data) list" where
  "sample_columns tv m =
    [(1, Shorts (concat (j_pos m))), (2, Shorts (concat (j_tar m))), (3, Shorts (concat (j_cur m))),
     (4, Shorts (concat (concat (j_kin m)))), (5, Shorts (concat (j_tac m))),
     (6, Floats (concat (concat (tip_pos m)))), (7, Floats (concat (concat (tip_quat m)))),
     (8, Doubles (concat (Arm_j_pos m))), (9, Doubles (concat (Arm_j_tar m))),
     (10, Doubles (concat (Arm_j_vel m))), (11, Doubles (concat (Arm_C_Pos m))),
     (12, Doubles (concat (Arm_j_tq m))), (0, Ulongs [now_ns tv])]"

definition append_column :: "'h h5lib \<Rightarrow> hdf5_impl \<Rightarrow> nat \<times> h5data \<Rightarrow> 'h \<Rightarrow> 'h option" where
  "append_column L im c h = (case c of (k, data) \<Rightarrow> (case dataset_specs ! k of (_, ty, tail_dims) \<Rightarrow>
     append_dataset_c L (ds_ids im ! k) ty data tail_dims (row_count im) h))"

definition Impl_append :: "'h h5lib \<Rightarrow> nat \<times> nat \<Rightarrow> SHMmsgs \<Rightarrow> hdf5_impl \<times> 'h \<Rightarrow> (hdf5_impl \<times> 'h) option" where
  "Impl_append L tv sample = (\<lambda>(im, h). if \<not> valid_impl im then Some (im, h)
     else do {
       h \<leftarrow> for_each (append_column L im) (sample_columns tv sample) h;
       Some (im\<lparr>row_count := row_count im + 1\<rparr>, h) })"

text \<open>\<open>Hdf5HandLogger\<close> holds the implementation by a pointer; the constructor always sets it.\<close>

definition Hdf5HandLogger :: "'h h5lib \<Rightarrow> string + string \<Rightarrow> 'h \<Rightarrow> string + (hdf5_impl option \<times> 'h)" where
  "Hdf5HandLogger L path h = (case path of Inl e \<Rightarrow> Inl e
     | Inr p \<Rightarrow> (case Impl_create L p h of (im, h) \<Rightarrow> Inr (Some im, h)))"

definition is_open :: "hdf5_impl option \<Rightarrow> bool" where
  "is_open impl = (impl \<noteq> None)"

definition delete_logger :: "'h h5lib \<Rightarrow> hdf5_impl option \<Rightarrow> 'h \<Rightarrow> hdf5_impl option \<times> 'h" where
  "delete_logger L impl h = (None, case impl of None \<Rightarrow> h | Some im \<Rightarrow> Impl_destroy L im h)"

definition append_samples ::
    "'h h5lib \<Rightarrow> ((nat \<times> nat) \<times> SHMmsgs) list \<Rightarrow> hdf5_impl \<times> 'h \<Rightarrow> (hdf5_impl \<times> 'h) option" where
  "append_samples L = for_each (\<lambda>(tv, m). Impl_append L tv m)"


section \<open>What the library documents\<close>

text \<open>A dataspace: its dimensions and the selected hyperslab, none if all of it is selected. A
  dataset: its extent and the rows that have been written.\<close>

type_synonym h5space = "hsize list \<times> (hsize list \<times> hsize list) option"
type_synonym h5dataset = "hsize list \<times> (nat \<rightharpoonup> h5data)"

fun selected :: "h5space \<Rightarrow> hsize list \<times> hsize list" where
  "selected (dims, None) = (map (\<lambda>_. 0) dims, dims)"
| "selected (dims, Some sel) = sel"

definition h5points :: "h5space \<Rightarrow> nat" where
  "h5points s = prod_list (map unat (snd (selected s)))"

definition row_range :: "h5space \<Rightarrow> nat \<times> nat" where
  "row_range s = (unat (hd (fst (selected s))), unat (hd (snd (selected s))))"

text \<open>Identifiers of open objects are not negative, files and property lists share nothing with
  the datasets and dataspaces, and a call that fails leaves the datasets alone. What a call does to
  a dataset that is not open, or with a selection of several rows, is left open.\<close>

definition doc_ids :: "'h h5lib \<Rightarrow> ('h \<Rightarrow> hid \<rightharpoonup> h5dataset) \<Rightarrow> ('h \<Rightarrow> hid \<rightharpoonup> h5space) \<Rightarrow> bool" where
  "doc_ids L D S \<longleftrightarrow> (\<forall>h s. S h s \<noteq> None \<longrightarrow> 0 \<le> s) \<and> (\<forall>h d. D h d \<noteq> None \<longrightarrow> 0 \<le> d)"

definition doc_space_new :: "'h h5lib \<Rightarrow> ('h \<Rightarrow> hid \<rightharpoonup> h5dataset) \<Rightarrow> ('h \<Rightarrow> hid \<rightharpoonup> h5space) \<Rightarrow> bool" where
  "doc_space_new L D S \<longleftrightarrow> (\<forall>h dims mx s h'. H5Screate_simple L dims mx h = (s, h') \<longrightarrow> D h' = D h \<and>
     (if s < 0 then S h' = S h else S h s = None \<and> S h' = (S h)(s \<mapsto> (dims, None))))"

definition doc_select :: "'h h5lib \<Rightarrow> ('h \<Rightarrow> hid \<rightharpoonup> h5dataset) \<Rightarrow> ('h \<Rightarrow> hid \<rightharpoonup> h5space) \<Rightarrow> bool" where
  "doc_select L D S \<longleftrightarrow> (\<forall>h s start count r h'. H5Sselect_hyperslab L s start count h = (r, h') \<longrightarrow> D h' = D h \<and>
     S h' = (case S h s of None \<Rightarrow> S h | Some (dims, old) \<Rightarrow>
       if r < 0 then S h else (S h)(s \<mapsto> (dims, Some (start, count)))))"

definition doc_create :: "'h h5lib \<Rightarrow> ('h \<Rightarrow> hid \<rightharpoonup> h5dataset) \<Rightarrow> ('h \<Rightarrow> hid \<rightharpoonup> h5space) \<Rightarrow> bool" where
  "doc_create L D S \<longleftrightarrow> (\<forall>h file name ty space plist d h' dims. H5Dcreate2 L file name ty space plist h = (d, h') \<longrightarrow>
     S h space = Some (dims, None) \<longrightarrow>
     (if d < 0 then D h' = D h else D h d = None \<and> D h' = (D h)(d \<mapsto> (dims, Map.empty))))"

definition doc_extent :: "'h h5lib \<Rightarrow> ('h \<Rightarrow> hid \<rightharpoonup> h5dataset) \<Rightarrow> ('h \<Rightarrow> hid \<rightharpoonup> h5space) \<Rightarrow> bool" where
  "doc_extent L D S \<longleftrightarrow> (\<forall>h d dims r h' ext rows. H5Dset_extent L d dims h = (r, h') \<longrightarrow> D h d = Some (ext, rows) \<longrightarrow>
     S h' = S h \<and> D h' = (if r < 0 then D h
       else (D h)(d \<mapsto> (dims, \<lambda>i. if i < unat (hd dims) then rows i else None))))"

definition doc_get_space :: "'h h5lib \<Rightarrow> ('h \<Rightarrow> hid \<rightharpoonup> h5dataset) \<Rightarrow> ('h \<Rightarrow> hid \<rightharpoonup> h5space) \<Rightarrow> bool" where
  "doc_get_space L D S \<longleftrightarrow> (\<forall>h d s h' ext rows. H5Dget_space L d h = (s, h') \<longrightarrow> D h d = Some (ext, rows) \<longrightarrow> D h' = D h \<and>
     (if s < 0 then S h' = S h else S h s = None \<and> S h' = (S h)(s \<mapsto> (ext, None))))"

definition doc_write :: "'h h5lib \<Rightarrow> ('h \<Rightarrow> hid \<rightharpoonup> h5dataset) \<Rightarrow> ('h \<Rightarrow> hid \<rightharpoonup> h5space) \<Rightarrow> bool" where
  "doc_write L D S \<longleftrightarrow> (\<forall>h d ty mem file buf r h' ext rows. H5Dwrite L d ty mem file buf h = (r, h') \<longrightarrow>
     D h d = Some (ext, rows) \<longrightarrow> (if r < 0 then D h' = D h
       else \<exists>m f. S h mem = Some m \<and> S h file = Some f \<and> h5points m = h5points f \<and>
         (\<forall>n. row_range f = (n, 1) \<longrightarrow> D h' = (D h)(d \<mapsto> (ext, rows(n \<mapsto> buf))))))"

definition doc_rest :: "'h h5lib \<Rightarrow> ('h \<Rightarrow> hid \<rightharpoonup> h5dataset) \<Rightarrow> ('h \<Rightarrow> hid \<rightharpoonup> h5space) \<Rightarrow> bool" where
  "doc_rest L D S \<longleftrightarrow> (\<forall>h s. D (H5Sclose L s h) = D h) \<and>
     (\<forall>h s t. t \<noteq> s \<longrightarrow> S (H5Sclose L s h) t = S h t) \<and>
     (\<forall>h path. D (snd (H5Fcreate L path h)) = D h) \<and>
     (\<forall>h. D (snd (H5Pcreate L h)) = D h \<and> S (snd (H5Pcreate L h)) = S h) \<and>
     (\<forall>h p chunk. D (snd (H5Pset_chunk L p chunk h)) = D h \<and> S (snd (H5Pset_chunk L p chunk h)) = S h) \<and>
     (\<forall>h p. D (H5Pclose L p h) = D h \<and> S (H5Pclose L p h) = S h)"

definition h5_documented :: "'h h5lib \<Rightarrow> ('h \<Rightarrow> hid \<rightharpoonup> h5dataset) \<Rightarrow> ('h \<Rightarrow> hid \<rightharpoonup> h5space) \<Rightarrow> bool" where
  "h5_documented L D S \<longleftrightarrow> doc_ids L D S \<and> doc_space_new L D S \<and> doc_select L D S \<and> doc_create L D S \<and>
     doc_extent L D S \<and> doc_get_space L D S \<and> doc_write L D S \<and> doc_rest L D S"

text \<open>A library on which no call that is used as documented fails.\<close>

definition sure_valid :: "'h h5lib \<Rightarrow> ('h \<Rightarrow> hid \<rightharpoonup> h5dataset) \<Rightarrow> ('h \<Rightarrow> hid \<rightharpoonup> h5space) \<Rightarrow> bool" where
  "sure_valid L D S \<longleftrightarrow> (\<forall>h d ext rows. D h d = Some (ext, rows) \<longrightarrow> 0 < H5Iis_valid L d h)"

definition sure_get_space :: "'h h5lib \<Rightarrow> ('h \<Rightarrow> hid \<rightharpoonup> h5dataset) \<Rightarrow> ('h \<Rightarrow> hid \<rightharpoonup> h5space) \<Rightarrow> bool" where
  "sure_get_space L D S \<longleftrightarrow> (\<forall>h d ext rows s h'. D h d = Some (ext, rows) \<longrightarrow> H5Dget_space L d h = (s, h') \<longrightarrow> 0 \<le> s)"

definition sure_extent :: "'h h5lib \<Rightarrow> ('h \<Rightarrow> hid \<rightharpoonup> h5dataset) \<Rightarrow> ('h \<Rightarrow> hid \<rightharpoonup> h5space) \<Rightarrow> bool" where
  "sure_extent L D S \<longleftrightarrow> (\<forall>h d dims ext rows r h'. D h d = Some (ext, rows) \<longrightarrow> length dims = length ext \<longrightarrow>
        H5Dset_extent L d dims h = (r, h') \<longrightarrow> 0 \<le> r)"

definition sure_space_new :: "'h h5lib \<Rightarrow> ('h \<Rightarrow> hid \<rightharpoonup> h5dataset) \<Rightarrow> ('h \<Rightarrow> hid \<rightharpoonup> h5space) \<Rightarrow> bool" where
  "sure_space_new L D S \<longleftrightarrow> (\<forall>h dims mx s h'. H5Screate_simple L dims mx h = (s, h') \<longrightarrow> 0 \<le> s)"

definition sure_select :: "'h h5lib \<Rightarrow> ('h \<Rightarrow> hid \<rightharpoonup> h5dataset) \<Rightarrow> ('h \<Rightarrow> hid \<rightharpoonup> h5space) \<Rightarrow> bool" where
  "sure_select L D S \<longleftrightarrow> (\<forall>h s start count dims sel r h'. S h s = Some (dims, sel) \<longrightarrow> length start = length dims \<longrightarrow>
        length count = length dims \<longrightarrow> H5Sselect_hyperslab L s start count h = (r, h') \<longrightarrow> 0 \<le> r)"

definition sure_write :: "'h h5lib \<Rightarrow> ('h \<Rightarrow> hid \<rightharpoonup> h5dataset) \<Rightarrow> ('h \<Rightarrow> hid \<rightharpoonup> h5space) \<Rightarrow> bool" where
  "sure_write L D S \<longleftrightarrow> (\<forall>h d ty mem file buf m ext rows start count r h'. D h d = Some (ext, rows) \<longrightarrow> S h mem = Some m \<longrightarrow>
        S h file = Some (ext, Some (start, count)) \<longrightarrow> h5points m = prod_list (map unat count) \<longrightarrow>
        h5length buf = h5points m \<longrightarrow>
        list_all2 (\<lambda>(a, c) e. unat a + unat c \<le> unat e) (zip start count) ext \<longrightarrow>
        H5Dwrite L d ty mem file buf h = (r, h') \<longrightarrow> 0 \<le> r)"

definition h5_reliable :: "'h h5lib \<Rightarrow> ('h \<Rightarrow> hid \<rightharpoonup> h5dataset) \<Rightarrow> ('h \<Rightarrow> hid \<rightharpoonup> h5space) \<Rightarrow> bool" where
  "h5_reliable L D S \<longleftrightarrow> sure_valid L D S \<and> sure_get_space L D S \<and> sure_extent L D S \<and> sure_space_new L D S \<and> sure_select L D S \<and> sure_write L D S"

section \<open>Creating and appending\<close>

lemma on_space_new:
  "h5_documented L D S \<Longrightarrow> H5Screate_simple L dims mx h = (s, h') \<Longrightarrow> D h' = D h \<and>
     (if s < 0 then S h' = S h else S h s = None \<and> S h' = (S h)(s \<mapsto> (dims, None)))"
  unfolding h5_documented_def doc_space_new_def by blast

lemma on_select:
  "h5_documented L D S \<Longrightarrow> H5Sselect_hyperslab L s start count h = (r, h') \<Longrightarrow> D h' = D h \<and>
     S h' = (case S h s of None \<Rightarrow> S h | Some (dims, old) \<Rightarrow>
       if r < 0 then S h else (S h)(s \<mapsto> (dims, Some (start, count))))"
  unfolding h5_documented_def doc_select_def by blast

lemma on_create:
  "h5_documented L D S \<Longrightarrow> H5Dcreate2 L file name ty space plist h = (d, h') \<Longrightarrow> S h space = Some (dims, None) \<Longrightarrow>
     if d < 0 then D h' = D h else D h d = None \<and> D h' = (D h)(d \<mapsto> (dims, Map.empty))"
  unfolding h5_documented_def doc_create_def by blast

lemma on_extent:
  "h5_documented L D S \<Longrightarrow> H5Dset_extent L d dims h = (r, h') \<Longrightarrow> D h d = Some (ext, rows) \<Longrightarrow> S h' = S h \<and>
     D h' = (if r < 0 then D h else (D h)(d \<mapsto> (dims, \<lambda>i. if i < unat (hd dims) then rows i else None)))"
  unfolding h5_documented_def doc_extent_def by blast

lemma on_get_space:
  "h5_documented L D S \<Longrightarrow> H5Dget_space L d h = (s, h') \<Longrightarrow> D h d = Some (ext, rows) \<Longrightarrow> D h' = D h \<and>
     (if s < 0 then S h' = S h else S h s = None \<and> S h' = (S h)(s \<mapsto> (ext, None)))"
  unfolding h5_documented_def doc_get_space_def by blast

lemma on_write:
  "h5_documented L D S \<Longrightarrow> H5Dwrite L d ty mem file buf h = (r, h') \<Longrightarrow> D h d = Some (ext, rows) \<Longrightarrow>
     if r < 0 then D h' = D h
     else \<exists>m f. S h mem = Some m \<and> S h file = Some f \<and> h5points m = h5points f \<and>
       (\<forall>n. row_range f = (n, 1) \<longrightarrow> D h' = (D h)(d \<mapsto> (ext, rows(n \<mapsto> buf))))"
  unfolding h5_documented_def doc_write_def by blast

lemma on_ids:
  "h5_documented L D S \<Longrightarrow> d < 0 \<Longrightarrow> D h d = None"
  "h5_documented L D S \<Longrightarrow> s < 0 \<Longrightarrow> S h s = None"
  unfolding h5_documented_def doc_ids_def by (meson linorder_not_le)+

lemma on_rest:
  assumes "h5_documented L D S"
  shows "D (H5Sclose L s h) = D h" "D (H5Pclose L s h) = D h" "S (H5Pclose L s h) = S h"
    "D (snd (H5Fcreate L path h)) = D h" "D (snd (H5Pcreate L h)) = D h" "S (snd (H5Pcreate L h)) = S h"
    "D (snd (H5Pset_chunk L p chunk h)) = D h" "S (snd (H5Pset_chunk L p chunk h)) = S h"
  using assms by (simp_all add: h5_documented_def doc_rest_def)

lemma create_dataset_doc:
  assumes doc: "h5_documented L D S" and "create_unlimited_dataset_c L file name ty tail_dims h = (d, h')"
  shows "(\<forall>e. D h e \<noteq> None \<longrightarrow> D h' e = D h e) \<and>
    (0 \<le> d \<longrightarrow> D h d = None \<and> D h' d = Some (0 # tail_dims, Map.empty))"
proof -
  obtain s h1 where 1: "H5Screate_simple L (0 # tail_dims) (Some (H5S_UNLIMITED # tail_dims)) h = (s, h1)" by fastforce
  obtain p h2 where 2: "H5Pcreate L h1 = (p, h2)" by fastforce
  obtain r h3 where 3: "H5Pset_chunk L p (kChunkRows # tail_dims) h2 = (r, h3)" by fastforce
  obtain e h4 where 4: "H5Dcreate2 L file name ty s p h3 = (e, h4)" by fastforce
  have D: "D h1 = D h" "D h2 = D h" "D h3 = D h" "S h3 = S h1"
    using on_space_new [OF doc 1] on_rest(5,6) [OF doc, of h1] on_rest(7,8) [OF doc, of p "kChunkRows # tail_dims" h2] 2 3 by auto
  have "s < 0 \<or> S h3 s = Some (0 # tail_dims, None)"
    using on_space_new [OF doc 1] D by (auto split: if_splits)
  then have E: "s < 0 \<or> (if e < 0 then D h4 = D h else D h e = None \<and> D h4 = (D h)(e \<mapsto> (0 # tail_dims, Map.empty)))"
    using on_create [OF doc 4] D by metis
  show ?thesis
    using assms(2) D E
    by (auto simp: create_unlimited_dataset_c_def 1 2 3 4 Let_def bad_id_def H5I_INVALID_HID_def on_rest [OF doc]
        split: if_splits)
qed

lemma create_datasets_doc:
  assumes doc: "h5_documented L D S" and "create_datasets L file specs h = (ds, h')"
  shows "length ds = length specs \<and> (\<forall>e. D h e \<noteq> None \<longrightarrow> D h' e = D h e) \<and>
    (\<forall>k < length specs. 0 \<le> ds ! k \<longrightarrow> D h (ds ! k) = None \<and> D h' (ds ! k) = Some (0 # snd (snd (specs ! k)), Map.empty) \<and>
      (\<forall>j < length specs. j \<noteq> k \<longrightarrow> ds ! j \<noteq> ds ! k))"
  using assms(2)
proof (induction specs arbitrary: h ds h')
  case (Cons spec specs)
  obtain name ty tail_dims where spec: "spec = (name, ty, tail_dims)" by (metis prod_cases3)
  obtain d h1 where 1: "create_unlimited_dataset_c L file name ty tail_dims h = (d, h1)" by fastforce
  obtain es where 2: "create_datasets L file specs h1 = (es, h')" and ds: "ds = d # es"
    using Cons.prems by (auto simp: spec 1 Let_def split: prod.splits)
  note hd = create_dataset_doc [OF doc 1]
  note tl = Cons.IH [OF 2]
  have new: "0 \<le> d \<Longrightarrow> D h' d = Some (0 # tail_dims, Map.empty)" using hd tl by auto
  have apart: "d \<noteq> es ! k" if "k < length specs" "0 \<le> d" for k
    using hd tl that by (metis option.distinct(1))
  have old: "D h (es ! k) = None" if "k < length specs" "0 \<le> es ! k" for k
    using hd tl that by (metis option.distinct(1))
  have sep: "es ! k \<noteq> d" if "k < length specs" "0 \<le> es ! k" for k
    using apart [OF that(1)] that(2) by auto
  show ?case
  proof (intro conjI allI impI)
    fix k assume k: "k < length (spec # specs)" and pos: "0 \<le> ds ! k"
    show "D h (ds ! k) = None"
      using k pos hd old by (cases k) (auto simp: ds)
    show "D h' (ds ! k) = Some (0 # snd (snd ((spec # specs) ! k)), Map.empty)"
      using k pos new tl by (cases k) (auto simp: ds spec)
    fix j assume "j < length (spec # specs)" "j \<noteq> k"
    then show "ds ! j \<noteq> ds ! k"
      using k pos tl apart sep by (cases k; cases j) (auto simp: ds)
  qed (use hd tl in \<open>auto simp: ds\<close>)
qed simp


lemma rel_valid: "h5_reliable L D S \<Longrightarrow> D h d = Some (ext, rows) \<Longrightarrow> 0 < H5Iis_valid L d h"
  unfolding h5_reliable_def sure_valid_def by blast

lemma rel_get_space:
  "h5_reliable L D S \<Longrightarrow> D h d = Some (ext, rows) \<Longrightarrow> H5Dget_space L d h = (s, h') \<Longrightarrow> 0 \<le> s"
  unfolding h5_reliable_def sure_get_space_def by blast

lemma rel_extent:
  "h5_reliable L D S \<Longrightarrow> D h d = Some (ext, rows) \<Longrightarrow> length dims = length ext \<Longrightarrow>
     H5Dset_extent L d dims h = (r, h') \<Longrightarrow> 0 \<le> r"
  unfolding h5_reliable_def sure_extent_def by blast

lemma rel_space_new: "h5_reliable L D S \<Longrightarrow> H5Screate_simple L dims mx h = (s, h') \<Longrightarrow> 0 \<le> s"
  unfolding h5_reliable_def sure_space_new_def by blast

lemma rel_select:
  "h5_reliable L D S \<Longrightarrow> S h s = Some (dims, sel) \<Longrightarrow> length start = length dims \<Longrightarrow> length count = length dims \<Longrightarrow>
     H5Sselect_hyperslab L s start count h = (r, h') \<Longrightarrow> 0 \<le> r"
  unfolding h5_reliable_def sure_select_def by blast

lemma rel_write:
  "h5_reliable L D S \<Longrightarrow> D h d = Some (ext, rows) \<Longrightarrow> S h mem = Some m \<Longrightarrow> S h file = Some (ext, Some (start, count)) \<Longrightarrow>
     h5points m = prod_list (map unat count) \<Longrightarrow> h5length buf = h5points m \<Longrightarrow>
     list_all2 (\<lambda>(a, c) e. unat a + unat c \<le> unat e) (zip start count) ext \<Longrightarrow>
     H5Dwrite L d ty mem file buf h = (r, h') \<Longrightarrow> 0 \<le> r"
  unfolding h5_reliable_def sure_write_def by blast

lemma next_row: "unat (row :: hsize) + 1 < 2 ^ 64 \<Longrightarrow> unat (row + 1) = Suc (unat row)"
  by (simp add: unat_word_ariths)

lemma selection_inside:
  assumes "unat row + 1 < 2 ^ 64"
  shows "list_all2 (\<lambda>(a, c) e. unat a + unat c \<le> unat e)
     (zip (row # replicate (length tail_dims) 0) (1 # tail_dims)) ((row + 1 :: hsize) # tail_dims)"
  proof -
  have "list_all2 (\<lambda>(a, c) e. unat a + unat c \<le> unat e) (zip (replicate (length tail_dims) 0) tail_dims) tail_dims"
    by (simp add: list_all2_conv_all_nth)
  then show ?thesis using next_row [OF assms] by simp
qed

text \<open>The row of one sample in one dataset: it is the given array, or it stays unwritten.\<close>

lemma append_dataset_doc:
  assumes doc: "h5_documented L D S" and ds: "D h d = Some (ext, rows)" "length ext = length tail_dims + 1"
    and tail: "0 \<notin> set tail_dims" "length tail_dims < 8" and row: "unat row + 1 < 2 ^ 64"
    and below: "\<forall>i. rows i \<noteq> None \<longrightarrow> i < unat row"
  obtains h' ext' rows' where "append_dataset_c L d ty buf tail_dims row h = Some h'"
    "D h' = (D h)(d \<mapsto> (ext', rows'))" "length ext' = length tail_dims + 1"
    "rows' = rows \<or> rows' = rows(unat row \<mapsto> buf)"
    "h5_reliable L D S \<and> h5length buf = prod_list (map unat tail_dims) \<longrightarrow> rows' = rows(unat row \<mapsto> buf)"
proof (cases "bad_id L d h")
  case True
  moreover have "\<not> h5_reliable L D S"
    using True on_ids(1) [OF doc, of d h] rel_valid [of L D S h d ext rows] ds(1) by (auto simp: bad_id_def)
  ultimately show thesis
    using that [of h ext rows] ds by (simp add: append_dataset_c_def fun_upd_idem)
next
  case False
  let ?dims = "(row + 1) # tail_dims" and ?start = "row # replicate (length tail_dims) 0" and ?count = "1 # tail_dims"
  obtain r1 h1 where 1: "H5Dset_extent L d ?dims h = (r1, h1)" by fastforce
  obtain f h2 where 2: "H5Dget_space L d h1 = (f, h2)" by fastforce
  obtain r3 h3 where 3: "H5Sselect_hyperslab L f ?start ?count h2 = (r3, h3)" by fastforce
  obtain m h4 where 4: "H5Screate_simple L ?count None h3 = (m, h4)" by fastforce
  obtain r5 h5 where 5: "H5Dwrite L d ty m f buf h4 = (r5, h5)" by fastforce
  have run: "append_dataset_c L d ty buf tail_dims row h = Some (if r1 < 0 then h1 else H5Sclose L f (H5Sclose L m h5))"
    using False tail by (simp add: append_dataset_c_def 1 2 3 4 5 Let_def)
  show thesis
  proof (cases "r1 < 0")
    case True
    then have "\<not> h5_reliable L D S" using rel_extent [of L D S h d ext rows, OF _ ds(1) _ 1] ds(2) by auto
    then show thesis
      using that [of h1 ext rows] run True on_extent [OF doc 1 ds(1)] ds by (simp add: fun_upd_idem)
  next
    case r1: False
    note up = next_row [OF row]
    have "(\<lambda>i. if i < unat (row + 1) then rows i else None) = rows"
    proof (rule HOL.ext)
      fix i show "(if i < unat (row + 1) then rows i else None) = rows i"
        using below [rule_format, of i] up by (cases "rows i") auto
    qed
    then have D1: "D h1 = (D h)(d \<mapsto> (?dims, rows))"
      using on_extent [OF doc 1 ds(1)] r1 by simp
    then have get: "D h1 d = Some (?dims, rows)" by simp
    note n2 = on_get_space [OF doc 2 get] and n3 = on_select [OF doc 3] and n4 = on_space_new [OF doc 4]
    have D4: "D h4 = D h1" "D h4 d = Some (?dims, rows)" using n2 n3 n4 get by auto
    note n5 = on_write [OF doc 5 D4(2)]
    have wrote: "D h5 = (D h4)(d \<mapsto> (?dims, rows(unat row \<mapsto> buf)))" if ok: "0 \<le> r5"
    proof -
      obtain ms fs where w: "S h4 m = Some ms" "S h4 f = Some fs" "h5points ms = h5points fs"
          "\<And>n. row_range fs = (n, 1) \<Longrightarrow> D h5 = (D h4)(d \<mapsto> (?dims, rows(n \<mapsto> buf)))"
        using n5 ok by (auto split: if_splits)
      have f0: "0 \<le> f" and m0: "0 \<le> m" 
        using on_ids(2) [OF doc, of f h4] on_ids(2) [OF doc, of m h4] w(1,2) by (auto simp: not_less [symmetric])
      have ms: "ms = (?count, None)" using n4 m0 w by simp
      have "f \<noteq> m" using n4 m0 n3 n2 f0 by (auto split: option.splits if_splits)
      then have "S h3 f = Some fs" using n4 m0 w by simp
      then have fs: "fs = (?dims, None) \<or> fs = (?dims, Some (?start, ?count))"
        using n3 n2 f0 by (auto split: if_splits)
      have pos: "0 < prod_list (map unat tail_dims)"
        using tail(1) by (induction tail_dims) (auto simp: unat_gt_0)
      have "row_range fs = (unat row, 1)"
        using fs w(3) pos up by (auto simp: row_range_def h5points_def ms)
      then show ?thesis by (rule w(4))
    qed
    have lost: "D h5 = D h4" if "r5 < 0" using n5 that by simp
    have sure: "0 \<le> r5" if rel: "h5_reliable L D S" and len: "h5length buf = prod_list (map unat tail_dims)"
    proof -
      have f0: "0 \<le> f" and m0: "0 \<le> m" using rel_get_space [OF rel get 2] rel_space_new [OF rel 4] by auto
      have f2: "S h2 f = Some (?dims, None)" using n2 f0 by simp
      have "0 \<le> r3" by (rule rel_select [OF rel f2 _ _ 3]) simp_all
      then have f3: "S h3 f = Some (?dims, Some (?start, ?count))" using n3 f2 by simp
      then have f4: "S h4 f = Some (?dims, Some (?start, ?count))" "S h4 m = Some (?count, None)"
        using n4 m0 by auto
      show ?thesis
        by (rule rel_write [OF rel D4(2) f4(2) f4(1) _ _ _ 5])
          (use selection_inside [OF row] len in \<open>simp_all add: h5points_def\<close>)
    qed
    have fin: "D (H5Sclose L f (H5Sclose L m h5)) = D h5" by (simp add: on_rest [OF doc])
    show thesis
    proof (cases "r5 < 0")
      case True
      show thesis
        by (rule that [OF run, of ?dims rows]) (use r1 fin True lost sure D1 D4 in \<open>auto\<close>)
    next
      case False
      show thesis
        by (rule that [OF run, of ?dims "rows(unat row \<mapsto> buf)"]) (use r1 fin False wrote D1 D4 in \<open>auto\<close>)
    qed
  qed
qed


section \<open>Rows and samples\<close>

text \<open>The members of a message that are recorded are arrays of the declared sizes.\<close>

definition array2 :: "nat \<Rightarrow> nat \<Rightarrow> 'a list list \<Rightarrow> bool" where
  "array2 n m xs \<longleftrightarrow> length xs = n \<and> (\<forall>x \<in> set xs. length x = m)"

definition array3 :: "nat \<Rightarrow> nat \<Rightarrow> nat \<Rightarrow> 'a list list list \<Rightarrow> bool" where
  "array3 n m l xs \<longleftrightarrow> length xs = n \<and> (\<forall>x \<in> set xs. array2 m l x)"

definition msgs_arrays :: "SHMmsgs \<Rightarrow> bool" where
  "msgs_arrays m \<longleftrightarrow> array2 Hand_Num Hand_DOF (j_pos m) \<and> array2 Hand_Num Hand_DOF (j_tar m) \<and>
     array2 Hand_Num Hand_DOF (j_cur m) \<and> array3 Hand_Num Kinesthetic_Sensor_Num Kinesthetic_Sensor_DOF (j_kin m) \<and>
     array2 Hand_Num Tactile_Sensor_Num (j_tac m) \<and> array3 Hand_Num Finger_Num Cartesian_DOF (tip_pos m) \<and>
     array3 Hand_Num Finger_Num Quaternion_DOF (tip_quat m) \<and> array2 Arm_Num Arm_DOF (Arm_j_pos m) \<and>
     array2 Arm_Num Arm_DOF (Arm_j_tar m) \<and> array2 Arm_Num Arm_DOF (Arm_j_vel m) \<and>
     array2 Arm_Num 16 (Arm_C_Pos m) \<and> array2 Arm_Num Arm_DOF (Arm_j_tq m)"

definition tail_dims_of :: "nat \<Rightarrow> hsize list" where
  "tail_dims_of k = snd (snd (dataset_specs ! k))"

definition column_of :: "nat \<Rightarrow> (nat \<times> nat) \<times> SHMmsgs \<Rightarrow> h5data" where
  "column_of k x = the (map_of (sample_columns (fst x) (snd x)) k)"

definition rows_of :: "('h \<Rightarrow> hid \<rightharpoonup> h5dataset) \<Rightarrow> 'h \<Rightarrow> hid \<Rightarrow> nat \<rightharpoonup> h5data" where
  "rows_of D h d = (case D h d of None \<Rightarrow> Map.empty | Some (ext, rows) \<Rightarrow> rows)"

lemma length_concat2: "array2 n m xs \<Longrightarrow> length (concat xs) = n * m"
  by (induction xs arbitrary: n) (auto simp: array2_def)

lemma length_concat3: "array3 n m l xs \<Longrightarrow> length (concat (concat xs)) = n * (m * l)"
  by (induction xs arbitrary: n) (auto simp: array3_def length_concat2)

lemma tail_dims:
  assumes "k < 13"
  shows "0 \<notin> set (tail_dims_of k)" "length (tail_dims_of k) < 8"
proof -
  have "\<forall>s \<in> set dataset_specs. 0 \<notin> set (snd (snd s)) \<and> length (snd (snd s)) < 8"
    by (simp add: dataset_specs_def)
  moreover have "dataset_specs ! k \<in> set dataset_specs"
    by (rule nth_mem) (use assms in \<open>simp add: dataset_specs_def\<close>)
  ultimately show "0 \<notin> set (tail_dims_of k)" "length (tail_dims_of k) < 8"
    by (simp_all add: tail_dims_of_def)
qed

lemma columns_fit:
  assumes "msgs_arrays m" "(k, buf) \<in> set (sample_columns tv m)"
  shows "h5length buf = prod_list (map unat (tail_dims_of k))"
  using assms
  by (auto simp: sample_columns_def msgs_arrays_def tail_dims_of_def dataset_specs_def
      dest!: length_concat2 length_concat3)

lemma columns_distinct: "distinct (map fst (sample_columns tv m))"
  by (simp add: sample_columns_def)

lemma columns_all: "fst ` set (sample_columns tv m) = {..<13}"
  by (auto simp: sample_columns_def lessThan_Suc eval_nat_numeral)

lemma column_value: "(k, buf) \<in> set (sample_columns tv m) \<Longrightarrow> column_of k (tv, m) = buf"
  by (simp add: column_of_def columns_distinct)

text \<open>Dataset \<open>k\<close> holds values of \<open>f\<close> in rows below \<open>b\<close>, and all of them if nothing failed.\<close>

definition logged :: "('h \<Rightarrow> hid \<rightharpoonup> h5dataset) \<Rightarrow> hid list \<Rightarrow> (nat \<Rightarrow> nat \<Rightarrow> h5data) \<Rightarrow> bool \<Rightarrow> 'h \<Rightarrow> nat \<Rightarrow> nat \<Rightarrow> bool" where
  "logged D ids f c h k b \<longleftrightarrow> (\<exists>ext rows. D h (ids ! k) = Some (ext, rows) \<and>
     length ext = length (tail_dims_of k) + 1 \<and> (\<forall>n buf. rows n = Some buf \<longrightarrow> n < b \<and> buf = f k n) \<and>
     (c \<longrightarrow> (\<forall>n < b. rows n \<noteq> None)))"

lemma logged_other: "logged D ids f c h k b \<Longrightarrow> D h' (ids ! k) = D h (ids ! k) \<Longrightarrow> logged D ids f c h' k b"
  by (simp add: logged_def)

lemma append_column_logged:
  assumes doc: "h5_documented L D S" and k: "k < 13" and now: "logged D (ds_ids im) f c h k (unat (row_count im))"
    and row: "unat (row_count im) + 1 < 2 ^ 64" and buf: "buf = f k (unat (row_count im))"
    and c: "c \<Longrightarrow> h5_reliable L D S \<and> h5length buf = prod_list (map unat (tail_dims_of k))"
  obtains h' where "append_column L im (k, buf) h = Some h'" "\<forall>e. e \<noteq> ds_ids im ! k \<longrightarrow> D h' e = D h e"
    "logged D (ds_ids im) f c h' k (Suc (unat (row_count im)))"
proof -
  obtain ext rows where ds: "D h (ds_ids im ! k) = Some (ext, rows)" "length ext = length (tail_dims_of k) + 1"
      and rows: "\<forall>n b. rows n = Some b \<longrightarrow> n < unat (row_count im) \<and> b = f k n"
        "c \<Longrightarrow> \<forall>n < unat (row_count im). rows n \<noteq> None"
    using now by (auto simp: logged_def)
  obtain name ty where spec: "dataset_specs ! k = (name, ty, tail_dims_of k)"
    by (metis prod.collapse tail_dims_of_def)
  have below: "\<forall>i. rows i \<noteq> None \<longrightarrow> i < unat (row_count im)" using rows(1) by auto
  obtain h' ext' rows' where run: "append_dataset_c L (ds_ids im ! k) ty buf (tail_dims_of k) (row_count im) h = Some h'"
    and D': "D h' = (D h)(ds_ids im ! k \<mapsto> (ext', rows'))" "length ext' = length (tail_dims_of k) + 1"
    and rows': "rows' = rows \<or> rows' = rows(unat (row_count im) \<mapsto> buf)"
      "h5_reliable L D S \<and> h5length buf = prod_list (map unat (tail_dims_of k)) \<longrightarrow> rows' = rows(unat (row_count im) \<mapsto> buf)"
    by (rule append_dataset_doc [OF doc ds tail_dims [OF k] row below, where ty = ty and buf = buf])
  have "logged D (ds_ids im) f c h' k (Suc (unat (row_count im)))"
    unfolding logged_def
  proof (intro exI conjI)
    show "D h' (ds_ids im ! k) = Some (ext', rows')" by (simp add: D')
    show "\<forall>n b. rows' n = Some b \<longrightarrow> n < Suc (unat (row_count im)) \<and> b = f k n"
      using rows'(1) rows(1) by (auto simp: buf less_Suc_eq split: if_splits)
    show "c \<longrightarrow> (\<forall>n < Suc (unat (row_count im)). rows' n \<noteq> None)"
      using rows'(2) c rows(2) by (auto simp: less_Suc_eq)
  qed (rule D')
  then show thesis using run D' by (intro that) (simp_all add: append_column_def spec)
qed

lemma append_columns_logged:
  assumes doc: "h5_documented L D S" and row: "unat (row_count im) = n" "n + 1 < 2 ^ 64"
    and apart: "\<And>j k. j < 13 \<Longrightarrow> k < 13 \<Longrightarrow> j \<noteq> k \<Longrightarrow> ds_ids im ! j \<noteq> ds_ids im ! k"
  shows "distinct (map fst cs) \<Longrightarrow> (\<And>k buf. (k, buf) \<in> set cs \<Longrightarrow> k < 13 \<and> buf = f k n \<and>
      (c \<longrightarrow> h5_reliable L D S \<and> h5length buf = prod_list (map unat (tail_dims_of k)))) \<Longrightarrow>
    (\<And>k. k < 13 \<Longrightarrow> logged D (ds_ids im) f c h k (if k \<in> fst ` set cs then n else Suc n)) \<Longrightarrow>
    \<exists>h'. for_each (append_column L im) cs h = Some h' \<and> (\<forall>k < 13. logged D (ds_ids im) f c h' k (Suc n))"
proof (induction cs arbitrary: h)
  case (Cons col cs)
  obtain k buf where col: "col = (k, buf)" by fastforce
  have k: "k < 13" "buf = f k n" "c \<Longrightarrow> h5_reliable L D S \<and> h5length buf = prod_list (map unat (tail_dims_of k))"
    using Cons.prems(2) [of k buf] by (auto simp: col)
  obtain h1 where 1: "append_column L im (k, buf) h = Some h1" "\<forall>e. e \<noteq> ds_ids im ! k \<longrightarrow> D h1 e = D h e"
      "logged D (ds_ids im) f c h1 k (Suc n)"
    by (rule append_column_logged [OF doc k(1), of im f c h buf])
      (use Cons.prems(3) [OF k(1)] row k in \<open>auto simp: col\<close>)
  have "\<exists>h'. for_each (append_column L im) cs h1 = Some h' \<and> (\<forall>k < 13. logged D (ds_ids im) f c h' k (Suc n))"
  proof (rule Cons.IH)
    fix j :: nat assume j: "j < 13"
    show "logged D (ds_ids im) f c h1 j (if j \<in> fst ` set cs then n else Suc n)"
    proof (cases "j = k")
      case True
      then show ?thesis using 1(3) Cons.prems(1) by (auto simp: col image_iff)
    next
      case False
      then have "logged D (ds_ids im) f c h j (if j \<in> fst ` set cs then n else Suc n)"
        using Cons.prems(3) [OF j] by (simp add: col)
      then show ?thesis by (rule logged_other) (use 1(2) apart [OF j k(1) False] in simp)
    qed
  qed (use Cons.prems in \<open>auto simp: col\<close>)
  then show ?case by (simp add: col 1(1))
qed simp

lemma Impl_append_logged:
  assumes doc: "h5_documented L D S" and row: "unat (row_count im) = n" "n + 1 < 2 ^ 64" and valid: "valid_impl im"
    and apart: "\<And>j k. j < 13 \<Longrightarrow> k < 13 \<Longrightarrow> j \<noteq> k \<Longrightarrow> ds_ids im ! j \<noteq> ds_ids im ! k"
    and now: "\<And>k. k < 13 \<Longrightarrow> logged D (ds_ids im) f c h k n"
    and f: "\<And>k. f k n = column_of k (tv, m)" and c: "c \<Longrightarrow> h5_reliable L D S \<and> msgs_arrays m"
  shows "\<exists>h'. Impl_append L tv m (im, h) = Some (im\<lparr>row_count := row_count im + 1\<rparr>, h') \<and>
    (\<forall>k < 13. logged D (ds_ids im) f c h' k (Suc n))"
proof -
  have "\<exists>h'. for_each (append_column L im) (sample_columns tv m) h = Some h' \<and>
    (\<forall>k < 13. logged D (ds_ids im) f c h' k (Suc n))"
  proof (rule append_columns_logged [OF doc row apart columns_distinct])
    fix k buf assume col: "(k, buf) \<in> set (sample_columns tv m)"
    have "k \<in> fst ` set (sample_columns tv m)" using col by force
    then show "k < 13 \<and> buf = f k n \<and>
        (c \<longrightarrow> h5_reliable L D S \<and> h5length buf = prod_list (map unat (tail_dims_of k)))"
      using column_value [OF col] columns_fit [OF _ col] c by (simp add: columns_all f)
  qed (use now in \<open>simp_all add: columns_all\<close>)
  then show ?thesis using valid by (auto simp: Impl_append_def)
qed

lemma append_samples_logged:
  assumes doc: "h5_documented L D S"
    and apart: "\<And>j k. j < 13 \<Longrightarrow> k < 13 \<Longrightarrow> j \<noteq> k \<Longrightarrow> ids ! j \<noteq> ids ! k"
    and c: "c \<Longrightarrow> h5_reliable L D S \<and> (\<forall>x \<in> set all. msgs_arrays (snd x))" and size: "length all < 2 ^ 64"
  shows "all = pre @ xs \<Longrightarrow> ds_ids im = ids \<Longrightarrow> valid_impl im \<Longrightarrow> unat (row_count im) = length pre \<Longrightarrow>
    (\<And>k. k < 13 \<Longrightarrow> logged D ids (\<lambda>k n. column_of k (all ! n)) c h k (length pre)) \<Longrightarrow>
    \<exists>im' h'. append_samples L xs (im, h) = Some (im', h') \<and>
      (\<forall>k < 13. logged D ids (\<lambda>k n. column_of k (all ! n)) c h' k (length all))"
proof (induction xs arbitrary: pre im h)
  case (Cons x xs)
  obtain tv m where x: "x = (tv, m)" by fastforce
  have small: "length pre + 1 < 2 ^ 64" using size Cons.prems(1) by simp
  have "\<exists>h1. Impl_append L tv m (im, h) = Some (im\<lparr>row_count := row_count im + 1\<rparr>, h1) \<and>
      (\<forall>k < 13. logged D (ds_ids im) (\<lambda>k n. column_of k (all ! n)) c h1 k (Suc (length pre)))"
    by (rule Impl_append_logged [OF doc Cons.prems(4) small Cons.prems(3)])
      (use Cons.prems apart c x in auto)
  then obtain h1 where 1: "Impl_append L tv m (im, h) = Some (im\<lparr>row_count := row_count im + 1\<rparr>, h1)"
      "\<forall>k < 13. logged D ids (\<lambda>k n. column_of k (all ! n)) c h1 k (length (pre @ [x]))"
    using Cons.prems(2) by auto
  have "\<exists>im' h'. append_samples L xs (im\<lparr>row_count := row_count im + 1\<rparr>, h1) = Some (im', h') \<and>
      (\<forall>k < 13. logged D ids (\<lambda>k n. column_of k (all ! n)) c h' k (length all))"
    by (rule Cons.IH [of "pre @ [x]"])
      (use Cons.prems small 1(2) next_row [of "row_count im"] in \<open>simp_all\<close>)
  then show ?case using 1(1) by (simp add: append_samples_def x)
next
  case Nil
  then show ?case by (auto simp: append_samples_def)
qed


lemma Impl_create_doc:
  assumes doc: "h5_documented L D S" and make: "Impl_create L path h0 = (im, h1)"
  shows "row_count im = 0 \<and> (\<forall>k < 13. rows_of D h1 (ds_ids im ! k) = Map.empty) \<and>
    (valid_impl im \<longrightarrow> (\<forall>k < 13. logged D (ds_ids im) f c h1 k 0) \<and>
      (\<forall>j < 13. \<forall>k < 13. j \<noteq> k \<longrightarrow> ds_ids im ! j \<noteq> ds_ids im ! k))"
proof -
  have none: "rows_of D h d = Map.empty" if "d < 0" for h d
    using on_ids(1) [OF doc that] by (simp add: rows_of_def)
  obtain fid h where 1: "H5Fcreate L path h0 = (fid, h)" by fastforce
  show ?thesis
  proof (cases "bad_id L fid h")
    case True
    then have "im = \<lparr>file_path = path, file_id = fid, ds_ids = replicate 13 (- 1), row_count = 0, valid_impl = False\<rparr>"
      using make by (simp add: Impl_create_def 1)
    then show ?thesis by (simp add: none)
  next
    case False
    obtain ds where 2: "create_datasets L fid dataset_specs h = (ds, h1)"
      and im: "im = \<lparr>file_path = path, file_id = fid, ds_ids = ds, row_count = 0,
          valid_impl = (\<forall>d \<in> set ds. \<not> bad_id L d h1)\<rparr>"
      using make False by (auto simp: Impl_create_def 1 Let_def split: prod.splits)
    have len: "length dataset_specs = 13" by (simp add: dataset_specs_def)
    note made = create_datasets_doc [OF doc 2, unfolded len]
    have "rows_of D h1 (ds ! k) = Map.empty" if "k < 13" for k
      using made none [of "ds ! k"] that by (cases "ds ! k < 0") (auto simp: rows_of_def)
    moreover have "0 \<le> ds ! k" if "k < 13" "valid_impl im" for k
      using that made by (auto simp: im bad_id_def not_less dest!: bspec [of _ _ "ds ! k"])
    ultimately show ?thesis
      using made by (auto simp: im logged_def tail_dims_of_def)
  qed
qed


section \<open>A library that never fails\<close>

text \<open>Identifiers count the datasets and the dataspaces opened so far.\<close>

record h5mem =
  mem_sets :: "h5dataset list"
  mem_spaces :: "h5space option list"

definition mem_ds :: "h5mem \<Rightarrow> hid \<rightharpoonup> h5dataset" where
  "mem_ds h d = (if 0 \<le> d \<and> nat d < length (mem_sets h) then Some (mem_sets h ! nat d) else None)"

definition mem_sp :: "h5mem \<Rightarrow> hid \<rightharpoonup> h5space" where
  "mem_sp h s = (if 0 \<le> s \<and> nat s < length (mem_spaces h) then mem_spaces h ! nat s else None)"

definition mem_new_space :: "hsize list \<Rightarrow> h5mem \<Rightarrow> hid \<times> h5mem" where
  "mem_new_space dims h = (int (length (mem_spaces h)), h\<lparr>mem_spaces := mem_spaces h @ [Some (dims, None)]\<rparr>)"

definition mem_put_space :: "hid \<Rightarrow> h5space option \<Rightarrow> h5mem \<Rightarrow> h5mem" where
  "mem_put_space s v h = (if s < 0 then h else h\<lparr>mem_spaces := (mem_spaces h)[nat s := v]\<rparr>)"

definition mem_put_ds :: "hid \<Rightarrow> h5dataset \<Rightarrow> h5mem \<Rightarrow> h5mem" where
  "mem_put_ds d v h = h\<lparr>mem_sets := (mem_sets h)[nat d := v]\<rparr>"

definition mem_lib :: "h5mem h5lib" where
  "mem_lib = \<lparr>H5Fcreate = (\<lambda>_ h. (0, h)), H5Fclose = (\<lambda>_ h. h), H5Iis_valid = (\<lambda>_ _. 1),
     H5Screate_simple = (\<lambda>dims _ h. mem_new_space dims h),
     H5Sselect_hyperslab = (\<lambda>s start count h. case mem_sp h s of None \<Rightarrow> (- 1, h)
       | Some (dims, _) \<Rightarrow> (0, mem_put_space s (Some (dims, Some (start, count))) h)),
     H5Sclose = (\<lambda>s h. mem_put_space s None h),
     H5Pcreate = (\<lambda>h. (0, h)), H5Pset_chunk = (\<lambda>_ _ h. (0, h)), H5Pclose = (\<lambda>_ h. h),
     H5Dcreate2 = (\<lambda>_ _ _ s _ h. case mem_sp h s of Some (dims, None) \<Rightarrow>
         (int (length (mem_sets h)), h\<lparr>mem_sets := mem_sets h @ [(dims, Map.empty)]\<rparr>)
       | _ \<Rightarrow> (- 1, h)),
     H5Dset_extent = (\<lambda>d dims h. case mem_ds h d of None \<Rightarrow> (- 1, h) | Some (ext, rows) \<Rightarrow>
       if length dims \<noteq> length ext then (- 1, h)
       else (0, mem_put_ds d (dims, \<lambda>i. if i < unat (hd dims) then rows i else None) h)),
     H5Dget_space = (\<lambda>d h. case mem_ds h d of None \<Rightarrow> (- 1, h) | Some (ext, _) \<Rightarrow> mem_new_space ext h),
     H5Dwrite = (\<lambda>d _ m f buf h. case (mem_ds h d, mem_sp h m, mem_sp h f) of
         (Some (ext, rows), Some ms, Some fs) \<Rightarrow> if h5points ms \<noteq> h5points fs then (- 1, h)
           else (0, mem_put_ds d (ext, rows(fst (row_range fs) \<mapsto> buf)) h)
       | _ \<Rightarrow> (- 1, h)),
     H5Dclose = (\<lambda>_ h. h)\<rparr>"

lemma mem_views [simp]:
  "mem_ds (mem_put_space s v h) = mem_ds h" "mem_sp (mem_put_ds d w h) = mem_sp h"
  "mem_ds (snd (mem_new_space dims h)) = mem_ds h"
  by (auto simp: mem_put_space_def mem_put_ds_def mem_new_space_def mem_ds_def [abs_def] mem_sp_def [abs_def])

lemma mem_put_ds_view: "mem_ds h d \<noteq> None \<Longrightarrow> mem_ds (mem_put_ds d w h) = (mem_ds h)(d \<mapsto> w)"
  by (rule ext) (auto simp: mem_ds_def mem_put_ds_def nth_list_update split: if_splits)

lemma mem_put_space_view:
  "mem_sp h s \<noteq> None \<Longrightarrow> mem_sp (mem_put_space s (Some v) h) = (mem_sp h)(s \<mapsto> v)"
  "t \<noteq> s \<Longrightarrow> mem_sp (mem_put_space s u h) t = mem_sp h t"
  by (auto simp: mem_sp_def [abs_def] mem_put_space_def nth_list_update fun_eq_iff split: if_splits)

lemma mem_new_space_view:
  "mem_new_space dims h = (s, h') \<Longrightarrow> 0 \<le> s \<and> mem_ds h' = mem_ds h \<and> mem_sp h s = None \<and>
     mem_sp h' = (mem_sp h)(s \<mapsto> (dims, None))"
  by (auto simp: mem_new_space_def mem_ds_def [abs_def] mem_sp_def [abs_def] nth_append fun_eq_iff nat_less_iff)

lemma mem_new_ds_view:
  "mem_sp h s = Some (dims, None) \<Longrightarrow> mem_ds h (int (length (mem_sets h))) = None \<and>
     mem_ds (h\<lparr>mem_sets := mem_sets h @ [v]\<rparr>) = (mem_ds h)(int (length (mem_sets h)) \<mapsto> v)"
  by (auto simp: mem_ds_def [abs_def] nth_append fun_eq_iff nat_less_iff)

lemma mem_documented: "h5_documented mem_lib mem_ds mem_sp"
  unfolding h5_documented_def
proof (intro conjI)
  show "doc_ids mem_lib mem_ds mem_sp" by (simp add: doc_ids_def mem_ds_def mem_sp_def)
  show "doc_space_new mem_lib mem_ds mem_sp"
    by (auto simp: doc_space_new_def mem_lib_def dest!: mem_new_space_view)
  show "doc_select mem_lib mem_ds mem_sp"
    by (auto simp: doc_select_def mem_lib_def mem_put_space_view split: option.splits)
  show "doc_create mem_lib mem_ds mem_sp"
    by (auto simp: doc_create_def mem_lib_def mem_new_ds_view)
  show "doc_extent mem_lib mem_ds mem_sp"
    by (auto simp: doc_extent_def mem_lib_def mem_put_ds_view split: if_splits)
  show "doc_get_space mem_lib mem_ds mem_sp"
    by (auto simp: doc_get_space_def mem_lib_def dest!: mem_new_space_view)
  show "doc_write mem_lib mem_ds mem_sp"
    by (auto simp: doc_write_def mem_lib_def mem_put_ds_view split: option.splits if_splits)
  show "doc_rest mem_lib mem_ds mem_sp"
    by (simp add: doc_rest_def mem_lib_def mem_put_space_view)
qed

lemma mem_reliable: "h5_reliable mem_lib mem_ds mem_sp"
  unfolding h5_reliable_def
proof (intro conjI)
  show "sure_valid mem_lib mem_ds mem_sp" by (simp add: sure_valid_def mem_lib_def)
  show "sure_get_space mem_lib mem_ds mem_sp"
    by (auto simp: sure_get_space_def mem_lib_def dest!: mem_new_space_view)
  show "sure_extent mem_lib mem_ds mem_sp" by (auto simp: sure_extent_def mem_lib_def)
  show "sure_space_new mem_lib mem_ds mem_sp"
    by (auto simp: sure_space_new_def mem_lib_def dest!: mem_new_space_view)
  show "sure_select mem_lib mem_ds mem_sp" by (auto simp: sure_select_def mem_lib_def)
  show "sure_write mem_lib mem_ds mem_sp"
    by (auto simp: sure_write_def mem_lib_def h5points_def)
qed

definition demo_samples :: "((nat \<times> nat) \<times> SHMmsgs) list" where
  "demo_samples = [((1, 500), zero_shm), ((1, 1500), zero_shm\<lparr>j_pos := [replicate Hand_DOF 7]\<rparr>)]"

definition empty_mem :: h5mem where "empty_mem = \<lparr>mem_sets = [], mem_spaces = []\<rparr>"

lemma demo_created: "valid_impl (fst (Impl_create mem_lib ''log'' empty_mem))"
proof -
  have v: "bad_id mem_lib d h \<longleftrightarrow> d < 0" for d h by (auto simp: bad_id_def mem_lib_def)
  have step: "create_unlimited_dataset_c mem_lib f nm ty dims h
      = (int (length (mem_sets h)), snd (create_unlimited_dataset_c mem_lib f nm ty dims h))" for f nm ty dims h
    using mem_new_space_view [of "0 # dims" h "fst (mem_new_space (0 # dims) h)" "snd (mem_new_space (0 # dims) h)"]
    by (simp add: create_unlimited_dataset_c_def Let_def v split_def)
      (simp add: mem_lib_def mem_new_space_def)
  have "list_all (\<lambda>d. 0 \<le> d) (fst (create_datasets mem_lib f specs h))" for f specs h
    by (induction specs arbitrary: h) (auto simp: Let_def split_def step [THEN arg_cong [of _ _ fst]])
  then show ?thesis
    by (auto simp: Impl_create_def Let_def split_def v list_all_iff not_less) (simp add: mem_lib_def)
qed

lemma demo_arrays: "\<forall>x \<in> set demo_samples. msgs_arrays (snd x)"
  by (simp add: demo_samples_def msgs_arrays_def zero_shm_def array2_def array3_def)


end
