(* ===== verification/Fk.thy ===== *)
theory Fk
  imports Shm
begin

text \<open>
  The forward kinematics of the hand (src/fk_solver.cpp): rigid transforms, their composition
  along each finger, and the conversion of the tip's rotation to a quaternion. Arithmetic is on
  the reals; the rounding of \<open>double\<close>, the cast of the results to \<open>float\<close> and the error of the
  library's sine, cosine and root are not part of this theory.
\<close>

section \<open>Transforms\<close>

text \<open>\<open>rot t i j\<close> is \<open>t.r[i][j]\<close> and \<open>trans t i\<close> is \<open>t.p[i]\<close>, for indices below 3.\<close>

type_synonym mat3 = "nat \<Rightarrow> nat \<Rightarrow> real"

record transform =
  rot :: mat3
  trans :: "nat \<Rightarrow> real"

definition mat3_of :: "real list list \<Rightarrow> mat3" where
  "mat3_of rows = (\<lambda>i j. rows ! i ! j)"

definition fk_identity :: transform where
  "fk_identity = \<lparr>rot = mat3_of [[1, 0, 0], [0, 1, 0], [0, 0, 1]], trans = (\<lambda>i. 0)\<rparr>"

definition fk_compose :: "transform \<Rightarrow> transform \<Rightarrow> transform" where
  "fk_compose a b = \<lparr>
     rot = (\<lambda>i j. rot a i 0 * rot b 0 j + rot a i 1 * rot b 1 j + rot a i 2 * rot b 2 j),
     trans = (\<lambda>i. rot a i 0 * trans b 0 + rot a i 1 * trans b 1 + rot a i 2 * trans b 2 + trans a i)\<rparr>"

definition make_rpy_xyz :: "real \<Rightarrow> real \<Rightarrow> real \<Rightarrow> real \<Rightarrow> real \<Rightarrow> real \<Rightarrow> transform" where
  "make_rpy_xyz roll pitch yaw x y z =
     (let cr = cos roll; sr = sin roll; cp = cos pitch; sp = sin pitch; cy = cos yaw; sy = sin yaw
      in \<lparr>rot = mat3_of
            [[cy * cp, cy * sp * sr - sy * cr, cy * sp * cr + sy * sr],
             [sy * cp, sy * sp * sr + cy * cr, sy * sp * cr - cy * sr],
             [- sp, cp * sr, cp * cr]],
          trans = (\<lambda>i. [x, y, z] ! i)\<rparr>)"

definition axis_rotation :: "real \<Rightarrow> real \<Rightarrow> real \<Rightarrow> real \<Rightarrow> transform" where
  "axis_rotation ax ay az q =
     (let c = cos q; s = sin q; v = 1 - c
      in fk_identity\<lparr>rot := mat3_of
            [[ax * ax * v + c, ax * ay * v - az * s, ax * az * v + ay * s],
             [ay * ax * v + az * s, ay * ay * v + c, ay * az * v - ax * s],
             [az * ax * v - ay * s, az * ay * v + ax * s, az * az * v + c]]\<rparr>)"

definition fixed_then_revolute ::
  "real \<Rightarrow> real \<Rightarrow> real \<Rightarrow> real \<Rightarrow> real \<Rightarrow> real \<Rightarrow> real \<Rightarrow> real \<Rightarrow> real \<Rightarrow> real \<Rightarrow> transform" where
  "fixed_then_revolute roll pitch yaw x y z ax ay az q =
     fk_compose (make_rpy_xyz roll pitch yaw x y z) (axis_rotation ax ay az q)"

section \<open>Quaternions\<close>

text \<open>Components in the order w, x, y, z, before the final normalisation.\<close>

definition quat_raw :: "mat3 \<Rightarrow> real \<times> real \<times> real \<times> real" where
  "quat_raw r = (let trace = r 0 0 + r 1 1 + r 2 2 in
     if 0 < trace then
       let s = sqrt (trace + 1) * 2
       in (s / 4, (r 2 1 - r 1 2) / s, (r 0 2 - r 2 0) / s, (r 1 0 - r 0 1) / s)
     else if r 1 1 < r 0 0 \<and> r 2 2 < r 0 0 then
       let s = sqrt (1 + r 0 0 - r 1 1 - r 2 2) * 2
       in ((r 2 1 - r 1 2) / s, s / 4, (r 0 1 + r 1 0) / s, (r 0 2 + r 2 0) / s)
     else if r 2 2 < r 1 1 then
       let s = sqrt (1 + r 1 1 - r 0 0 - r 2 2) * 2
       in ((r 0 2 - r 2 0) / s, (r 0 1 + r 1 0) / s, s / 4, (r 1 2 + r 2 1) / s)
     else
       let s = sqrt (1 + r 2 2 - r 0 0 - r 1 1) * 2
       in ((r 1 0 - r 0 1) / s, (r 0 2 + r 2 0) / s, (r 1 2 + r 2 1) / s, s / 4))"

definition rotmat_to_quat_wxyz :: "mat3 \<Rightarrow> real list" where
  "rotmat_to_quat_wxyz r = (let (qw, qx, qy, qz) = quat_raw r;
       norm = sqrt (qw * qw + qx * qx + qy * qy + qz * qz)
     in [qw / norm, qx / norm, qy / norm, qz / norm])"

section \<open>Fingers\<close>

definition to_radian_from_encoder :: "u16 \<Rightarrow> real" where
  "to_radian_from_encoder enc = of_int (sint enc) * (pi / 8192)"

definition tip_of :: "transform \<Rightarrow> real list \<times> real list" where
  "tip_of t = ([trans t 0, trans t 1, trans t 2], rotmat_to_quat_wxyz (rot t))"

definition thumb_chain :: "real list \<Rightarrow> transform list" where
  "thumb_chain q =
     [make_rpy_xyz 0 0 0 0 0 (71 / 1000),
      make_rpy_xyz (- 873 / 10000) 0 0 (- 2325 / 100000) (1224 / 100000) (- 2988 / 100000),
      fixed_then_revolute (- 15708 / 10000) 0 0 (197 / 10000) (2 / 1000) 0 0 1 0 (q ! 0),
      fixed_then_revolute 0 0 0 (- 2 / 1000) 0 (36 / 1000) 0 0 1 (q ! 1),
      fixed_then_revolute 0 0 0 (2 / 1000) 0 (102 / 10000) 0 1 0 (q ! 2),
      fixed_then_revolute 0 0 0 0 0 (335 / 10000) 0 1 0 (q ! 3),
      make_rpy_xyz 0 0 0 (- 2 / 1000) 0 (10 / 1000)]"

definition finger_chain :: "real \<Rightarrow> real \<Rightarrow> real \<Rightarrow> real \<Rightarrow> real \<Rightarrow> real \<Rightarrow> real list \<Rightarrow> transform list" where
  "finger_chain base_roll base_pitch base_yaw base_x base_y base_z q =
     [make_rpy_xyz 0 0 0 0 0 (71 / 1000),
      make_rpy_xyz base_roll base_pitch base_yaw base_x base_y base_z,
      fixed_then_revolute 0 0 0 (2325 / 100000) 0 (47 / 10000) 1 0 0 (q ! 0),
      fixed_then_revolute 0 0 0 (2 / 1000) 0 (195 / 10000) 0 1 0 (q ! 1),
      fixed_then_revolute 0 0 0 0 0 (335 / 10000) 0 1 0 (q ! 2),
      make_rpy_xyz 0 0 0 0 0 (267 / 10000),
      fixed_then_revolute 0 0 0 0 0 0 0 1 0 (q ! 3),
      make_rpy_xyz 0 0 0 (- 2 / 1000) 0 (10 / 1000)]"

definition solve_thumb :: "real list \<Rightarrow> real list \<times> real list" where
  "solve_thumb q = tip_of (foldl fk_compose fk_identity (thumb_chain q))"

definition solve_finger_common ::
  "real \<Rightarrow> real \<Rightarrow> real \<Rightarrow> real \<Rightarrow> real \<Rightarrow> real \<Rightarrow> real list \<Rightarrow> real list \<times> real list" where
  "solve_finger_common base_roll base_pitch base_yaw base_x base_y base_z q =
     tip_of (foldl fk_compose fk_identity (finger_chain base_roll base_pitch base_yaw base_x base_y base_z q))"

text \<open>Positions and quaternions of thumb, index, middle and ring finger.\<close>

definition compute_hand_fk_from_joint_pos :: "u16 list \<Rightarrow> real list list \<times> real list list" where
  "compute_hand_fk_from_joint_pos joint_pos =
     (let q = map to_radian_from_encoder joint_pos;
          tips = [solve_thumb q,
            solve_finger_common (- 873 / 10000) 0 0 (- 2325 / 100000) (2935 / 100000) (- 4 / 10000) (drop 4 q),
            solve_finger_common 0 0 0 (- 2325 / 100000) 0 0 (drop 8 q),
            solve_finger_common (873 / 10000) 0 0 (- 2325 / 100000) (- 2935 / 100000) (- 4 / 10000) (drop 12 q)]
      in (map fst tips, map snd tips))"

section \<open>Rotations\<close>

text \<open>A rotation: the rows are a right-handed orthonormal frame.\<close>

definition rotation :: "mat3 \<Rightarrow> bool" where
  "rotation r \<longleftrightarrow>
     r 0 0 * r 0 0 + r 0 1 * r 0 1 + r 0 2 * r 0 2 = 1 \<and>
     r 1 0 * r 1 0 + r 1 1 * r 1 1 + r 1 2 * r 1 2 = 1 \<and>
     r 0 0 * r 1 0 + r 0 1 * r 1 1 + r 0 2 * r 1 2 = 0 \<and>
     r 2 0 = r 0 1 * r 1 2 - r 0 2 * r 1 1 \<and>
     r 2 1 = r 0 2 * r 1 0 - r 0 0 * r 1 2 \<and>
     r 2 2 = r 0 0 * r 1 1 - r 0 1 * r 1 0"

lemma mat3_of_nth [simp]:
  "mat3_of rows i j = rows ! i ! j"
  by (simp add: mat3_of_def)

lemma cos_sin_square: "cos x * cos x + sin x * sin x = (1 :: real)"
  using sin_cos_squared_add [of x] by (simp add: power2_eq_square)

lemma rotation_identity: "rotation (rot fk_identity)"
  by (simp add: rotation_def fk_identity_def eval_nat_numeral)

text \<open>The polynomial identities behind the next lemmas, for the entries of a matrix row by row.\<close>

lemma rpy_identities:
  fixes ca sa cb sb cc sc :: real
  assumes "ca * ca + sa * sa = 1" "cb * cb + sb * sb = 1" "cc * cc + sc * sc = 1"
  shows "cc * cb * (cc * cb) + (cc * sb * sa - sc * ca) * (cc * sb * sa - sc * ca) + (cc * sb * ca + sc * sa) * (cc * sb * ca + sc * sa) = 1"
    "sc * cb * (sc * cb) + (sc * sb * sa + cc * ca) * (sc * sb * sa + cc * ca) + (sc * sb * ca - cc * sa) * (sc * sb * ca - cc * sa) = 1"
    "cc * cb * (sc * cb) + (cc * sb * sa - sc * ca) * (sc * sb * sa + cc * ca) + (cc * sb * ca + sc * sa) * (sc * sb * ca - cc * sa) = 0"
    "- sb = (cc * sb * sa - sc * ca) * (sc * sb * ca - cc * sa) - (cc * sb * ca + sc * sa) * (sc * sb * sa + cc * ca)"
    "cb * sa = (cc * sb * ca + sc * sa) * (sc * cb) - cc * cb * (sc * sb * ca - cc * sa)"
    "cb * ca = cc * cb * (sc * sb * sa + cc * ca) - (cc * sb * sa - sc * ca) * (sc * cb)"
  using assms by algebra+

lemma axis_identities:
  fixes c s ax ay az :: real
  assumes "c * c + s * s = 1" "ax * ax + ay * ay + az * az = 1"
  defines "v \<equiv> 1 - c"
  defines "a \<equiv> ax * ax * v + c" and "b \<equiv> ax * ay * v - az * s" and "e \<equiv> ax * az * v + ay * s"
    and "f \<equiv> ay * ax * v + az * s" and "g \<equiv> ay * ay * v + c" and "h \<equiv> ay * az * v - ax * s"
  shows "a * a + b * b + e * e = 1" "f * f + g * g + h * h = 1" "a * f + b * g + e * h = 0"
    "az * ax * v - ay * s = b * h - e * g" "az * ay * v + ax * s = e * f - a * h" "az * az * v + c = a * g - b * f"
  using assms(1,2) unfolding a_def b_def e_def f_def g_def h_def v_def by algebra+

lemma frame_columns:
  fixes a b c d e f g h i :: real
  assumes "a*a+b*b+c*c=1" "d*d+e*e+f*f=1" "a*d+b*e+c*f=0" "g = b*f-c*e" "h = c*d-a*f" "i = a*e-b*d"
  shows "g*g+h*h+i*i=1" "a*g+b*h+c*i=0" "d*g+e*h+f*i=0"
  using assms by algebra+

text \<open>
  The symmetric matrix of the products of the quaternion's components, times four, has rank one;
  one lemma for each component the code divides by.
\<close>

lemma minors_w:
  fixes a b c d e f g h i :: real
  assumes "a*a+b*b+c*c=1" "d*d+e*e+f*f=1" "a*d+b*e+c*f=0" "g = b*f-c*e" "h = c*d-a*f" "i = a*e-b*d"
  shows "(h-f) * (h-f) = (1+a-e-i) * (1+a+e+i)"
    "(h-f) * (c-g) = (b+d) * (1+a+e+i)"
    "(h-f) * (d-b) = (c+g) * (1+a+e+i)"
    "(c-g) * (c-g) = (1+e-a-i) * (1+a+e+i)"
    "(c-g) * (d-b) = (f+h) * (1+a+e+i)"
    "(d-b) * (d-b) = (1+i-a-e) * (1+a+e+i)"
  using assms by algebra+

lemma minors_x:
  fixes a b c d e f g h i :: real
  assumes "a*a+b*b+c*c=1" "d*d+e*e+f*f=1" "a*d+b*e+c*f=0" "g = b*f-c*e" "h = c*d-a*f" "i = a*e-b*d"
  shows "(h-f) * (h-f) = (1+a+e+i) * (1+a-e-i)"
    "(h-f) * (b+d) = (c-g) * (1+a-e-i)"
    "(h-f) * (c+g) = (d-b) * (1+a-e-i)"
    "(b+d) * (b+d) = (1+e-a-i) * (1+a-e-i)"
    "(b+d) * (c+g) = (f+h) * (1+a-e-i)"
    "(c+g) * (c+g) = (1+i-a-e) * (1+a-e-i)"
  using assms by algebra+

lemma minors_y:
  fixes a b c d e f g h i :: real
  assumes "a*a+b*b+c*c=1" "d*d+e*e+f*f=1" "a*d+b*e+c*f=0" "g = b*f-c*e" "h = c*d-a*f" "i = a*e-b*d"
  shows "(c-g) * (c-g) = (1+a+e+i) * (1+e-a-i)"
    "(c-g) * (b+d) = (h-f) * (1+e-a-i)"
    "(c-g) * (f+h) = (d-b) * (1+e-a-i)"
    "(b+d) * (b+d) = (1+a-e-i) * (1+e-a-i)"
    "(b+d) * (f+h) = (c+g) * (1+e-a-i)"
    "(f+h) * (f+h) = (1+i-a-e) * (1+e-a-i)"
  using assms by algebra+

lemma minors_z:
  fixes a b c d e f g h i :: real
  assumes "a*a+b*b+c*c=1" "d*d+e*e+f*f=1" "a*d+b*e+c*f=0" "g = b*f-c*e" "h = c*d-a*f" "i = a*e-b*d"
  shows "(d-b) * (d-b) = (1+a+e+i) * (1+i-a-e)"
    "(d-b) * (c+g) = (h-f) * (1+i-a-e)"
    "(d-b) * (f+h) = (c-g) * (1+i-a-e)"
    "(c+g) * (c+g) = (1+a-e-i) * (1+i-a-e)"
    "(c+g) * (f+h) = (b+d) * (1+i-a-e)"
    "(f+h) * (f+h) = (1+e-a-i) * (1+i-a-e)"
  using assms by algebra+

lemma rotation_rpy: "rotation (rot (make_rpy_xyz a b c x y z))"
  using rpy_identities [OF cos_sin_square [of a] cos_sin_square [of b] cos_sin_square [of c]]
  by (simp add: rotation_def make_rpy_xyz_def Let_def eval_nat_numeral)

lemma rotation_axis:
  assumes "ax * ax + ay * ay + az * az = 1"
  shows "rotation (rot (axis_rotation ax ay az q))"
  using axis_identities [OF cos_sin_square [of q] assms]
  by (simp add: rotation_def axis_rotation_def Let_def eval_nat_numeral)

lemma frame_dot:
  fixes a b c d e f g h i x0 x1 x2 y0 y1 y2 :: real
  assumes "a*a+b*b+c*c=1" "d*d+e*e+f*f=1" "a*d+b*e+c*f=0" "g = b*f-c*e" "h = c*d-a*f" "i = a*e-b*d"
  shows "(x0*a+x1*d+x2*g)*(y0*a+y1*d+y2*g) + (x0*b+x1*e+x2*h)*(y0*b+y1*e+y2*h) + (x0*c+x1*f+x2*i)*(y0*c+y1*f+y2*i)
    = x0*y0+x1*y1+x2*y2"
  using assms by algebra

lemma frame_cross:
  fixes a b c d e f g h i x0 x1 x2 y0 y1 y2 :: real
  assumes "a*a+b*b+c*c=1" "d*d+e*e+f*f=1" "a*d+b*e+c*f=0" "g = b*f-c*e" "h = c*d-a*f" "i = a*e-b*d"
  shows "(x1*y2-x2*y1)*a+(x2*y0-x0*y2)*d+(x0*y1-x1*y0)*g = (x0*b+x1*e+x2*h)*(y0*c+y1*f+y2*i) - (x0*c+x1*f+x2*i)*(y0*b+y1*e+y2*h)"
    "(x1*y2-x2*y1)*b+(x2*y0-x0*y2)*e+(x0*y1-x1*y0)*h = (x0*c+x1*f+x2*i)*(y0*a+y1*d+y2*g) - (x0*a+x1*d+x2*g)*(y0*c+y1*f+y2*i)"
    "(x1*y2-x2*y1)*c+(x2*y0-x0*y2)*f+(x0*y1-x1*y0)*i = (x0*a+x1*d+x2*g)*(y0*b+y1*e+y2*h) - (x0*b+x1*e+x2*h)*(y0*a+y1*d+y2*g)"
  using assms by algebra+

lemma rotationD:
  assumes "rotation r"
  shows "r 0 0 * r 0 0 + r 0 1 * r 0 1 + r 0 2 * r 0 2 = 1"
     "r 1 0 * r 1 0 + r 1 1 * r 1 1 + r 1 2 * r 1 2 = 1"
     "r 0 0 * r 1 0 + r 0 1 * r 1 1 + r 0 2 * r 1 2 = 0"
     "r 2 0 = r 0 1 * r 1 2 - r 0 2 * r 1 1"
     "r 2 1 = r 0 2 * r 1 0 - r 0 0 * r 1 2"
     "r 2 2 = r 0 0 * r 1 1 - r 0 1 * r 1 0"
  using assms unfolding rotation_def by blast+

lemma rotation_product:
  assumes "rotation (rot a)" "rotation (rot b)"
  shows "rotation (rot (fk_compose a b))"
  unfolding rotation_def fk_compose_def transform.simps
  using frame_dot [OF rotationD [OF assms(2)]] frame_cross [OF rotationD [OF assms(2)]] rotationD [OF assms(1)]
  by (intro conjI) (simp_all only:)

lemma rotation_revolute:
  "ax * ax + ay * ay + az * az = 1 \<Longrightarrow> rotation (rot (fixed_then_revolute rx ry rz x y z ax ay az q))"
  unfolding fixed_then_revolute_def by (intro rotation_product rotation_rpy rotation_axis)

section \<open>The quaternion of a rotation\<close>

text \<open>The rotation matrix of a quaternion, row by row.\<close>

fun quat_mat :: "real list \<Rightarrow> real list list" where
  "quat_mat [w, x, y, z] =
     [[1 - 2 * (y * y + z * z), 2 * (x * y - w * z), 2 * (x * z + w * y)],
      [2 * (x * y + w * z), 1 - 2 * (x * x + z * z), 2 * (y * z - w * x)],
      [2 * (x * z - w * y), 2 * (y * z + w * x), 1 - 2 * (x * x + y * y)]]"
| "quat_mat _ = []"

text \<open>The ten products of components that \<open>quat_raw\<close> must have.\<close>

definition quat_products :: "mat3 \<Rightarrow> real \<times> real \<times> real \<times> real \<Rightarrow> bool" where
  "quat_products r q \<longleftrightarrow> (case q of (w, x, y, z) \<Rightarrow>
     4 * (w * w) = 1 + r 0 0 + r 1 1 + r 2 2 \<and> 4 * (x * x) = 1 + r 0 0 - r 1 1 - r 2 2 \<and>
     4 * (y * y) = 1 + r 1 1 - r 0 0 - r 2 2 \<and> 4 * (z * z) = 1 + r 2 2 - r 0 0 - r 1 1 \<and>
     4 * (w * x) = r 2 1 - r 1 2 \<and> 4 * (w * y) = r 0 2 - r 2 0 \<and> 4 * (w * z) = r 1 0 - r 0 1 \<and>
     4 * (x * y) = r 0 1 + r 1 0 \<and> 4 * (x * z) = r 0 2 + r 2 0 \<and> 4 * (y * z) = r 1 2 + r 2 1)"

lemma pivot_products:
  fixes k u v w :: real
  assumes "0 < k"
  defines "s \<equiv> sqrt k * 2"
  shows "4 * (s / 4 * (s / 4)) = k" "4 * (s / 4 * (u / s)) = u" "4 * (u / s * (s / 4)) = u"
    "u * v = w * k \<Longrightarrow> 4 * (u / s * (v / s)) = w"
proof -
  have s: "s * s = 4 * k" "s \<noteq> 0" using assms by (simp_all add: s_def)
  then show "4 * (s / 4 * (s / 4)) = k" "4 * (s / 4 * (u / s)) = u" "4 * (u / s * (s / 4)) = u" by simp_all
  assume "u * v = w * k"
  then show "4 * (u / s * (v / s)) = w" using s assms(1) by (simp add: field_simps)
qed

lemma quat_raw_products:
  assumes "rotation r"
  shows "quat_products r (quat_raw r)"
proof -
  note f = rotationD [OF assms]
  let ?a = "r 0 0" and ?b = "r 0 1" and ?c = "r 0 2" and ?d = "r 1 0" and ?e = "r 1 1" and ?f = "r 1 2"
    and ?g = "r 2 0" and ?h = "r 2 1" and ?i = "r 2 2"
  consider (w) "0 < ?a + ?e + ?i" | (x) "?a + ?e + ?i \<le> 0" "?e < ?a \<and> ?i < ?a"
    | (y) "?a + ?e + ?i \<le> 0" "\<not> (?e < ?a \<and> ?i < ?a)" "?i < ?e"
    | (z) "?a + ?e + ?i \<le> 0" "\<not> (?e < ?a \<and> ?i < ?a)" "\<not> ?i < ?e" by linarith
  then show ?thesis
  proof cases
    case w
    then have k: "0 < 1 + ?a + ?e + ?i" by linarith
    let ?s = "sqrt (1 + ?a + ?e + ?i) * 2"
    have "?a + ?e + ?i + 1 = 1 + ?a + ?e + ?i" by linarith
    then have q: "quat_raw r = (?s / 4, (?h - ?f) / ?s, (?c - ?g) / ?s, (?d - ?b) / ?s)"
      using w unfolding quat_raw_def Let_def by (simp only: if_True)
    show ?thesis unfolding q quat_products_def prod.case
      by (intro conjI; (rule pivot_products(1-3) [OF k] | rule pivot_products(4) [OF k], rule minors_w [OF f]))
  next
    case x
    then have k: "0 < 1 + ?a - ?e - ?i" by linarith
    let ?s = "sqrt (1 + ?a - ?e - ?i) * 2"
    have "\<not> 0 < ?a + ?e + ?i" using x by linarith
    then have q: "quat_raw r = ((?h - ?f) / ?s, ?s / 4, (?b + ?d) / ?s, (?c + ?g) / ?s)"
      using x unfolding quat_raw_def Let_def by (simp only: if_True if_False simp_thms)
    show ?thesis unfolding q quat_products_def prod.case
      by (intro conjI; (rule pivot_products(1-3) [OF k] | rule pivot_products(4) [OF k], rule minors_x [OF f]))
  next
    case y
    then have k: "0 < 1 + ?e - ?a - ?i" by linarith
    let ?s = "sqrt (1 + ?e - ?a - ?i) * 2"
    have "\<not> 0 < ?a + ?e + ?i" using y by linarith
    then have q: "quat_raw r = ((?c - ?g) / ?s, (?b + ?d) / ?s, ?s / 4, (?f + ?h) / ?s)"
      using y unfolding quat_raw_def Let_def by (simp only: if_True if_False)
    show ?thesis unfolding q quat_products_def prod.case
      by (intro conjI; (rule pivot_products(1-3) [OF k] | rule pivot_products(4) [OF k], rule minors_y [OF f]))
  next
    case z
    then have k: "0 < 1 + ?i - ?a - ?e" by linarith
    let ?s = "sqrt (1 + ?i - ?a - ?e) * 2"
    have "\<not> 0 < ?a + ?e + ?i" using z by linarith
    then have q: "quat_raw r = ((?d - ?b) / ?s, (?c + ?g) / ?s, (?f + ?h) / ?s, ?s / 4)"
      using z unfolding quat_raw_def Let_def by (simp only: if_False)
    show ?thesis unfolding q quat_products_def prod.case
      by (intro conjI; (rule pivot_products(1-3) [OF k] | rule pivot_products(4) [OF k], rule minors_z [OF f]))
  qed
qed

lemma quat_normalised:
  assumes "rotation r"
  shows "(case quat_raw r of (w, x, y, z) \<Rightarrow> rotmat_to_quat_wxyz r = [w, x, y, z] \<and> w * w + x * x + y * y + z * z = 1)"
proof -
  obtain w x y z where q: "quat_raw r = (w, x, y, z)" by (cases "quat_raw r")
  from quat_raw_products [OF assms] have "w * w + x * x + y * y + z * z = 1"
    unfolding q quat_products_def prod.case by linarith
  then show ?thesis by (simp add: rotmat_to_quat_wxyz_def q)
qed

text \<open>
  C14: For every rotation matrix the conversion divides by a number that is not zero, returns a
  unit quaternion, and the quaternion stands for the same rotation: its matrix is the one given.
\<close>

theorem quaternion_of_rotation:
  assumes "rotation r"
  shows "\<exists>w x y z. rotmat_to_quat_wxyz r = [w, x, y, z] \<and> w * w + x * x + y * y + z * z = 1 \<and>
    quat_mat (rotmat_to_quat_wxyz r) = [[r 0 0, r 0 1, r 0 2], [r 1 0, r 1 1, r 1 2], [r 2 0, r 2 1, r 2 2]]"
proof -
  obtain w x y z where q: "quat_raw r = (w, x, y, z)" by (cases "quat_raw r")
  have n: "rotmat_to_quat_wxyz r = [w, x, y, z]" "w * w + x * x + y * y + z * z = 1"
    using quat_normalised [OF assms] by (simp_all add: q)
  note p = quat_raw_products [OF assms, unfolded q quat_products_def prod.case]
  have "1 - 2 * (y * y + z * z) = r 0 0" "2 * (x * y - w * z) = r 0 1" "2 * (x * z + w * y) = r 0 2"
    using p by - (elim conjE, algebra)+
  moreover have "2 * (x * y + w * z) = r 1 0" "1 - 2 * (x * x + z * z) = r 1 1" "2 * (y * z - w * x) = r 1 2"
    using p by - (elim conjE, algebra)+
  moreover have "2 * (x * z - w * y) = r 2 0" "2 * (y * z + w * x) = r 2 1" "1 - 2 * (x * x + y * y) = r 2 2"
    using p by - (elim conjE, algebra)+
  ultimately show ?thesis using n by simp
qed

theorem quaternion_of_rotation_witness:
  "\<exists>w x y z. rotmat_to_quat_wxyz (rot (axis_rotation 0 1 0 2)) = [w, x, y, z] \<and> w * w + x * x + y * y + z * z = 1 \<and>
    quat_mat (rotmat_to_quat_wxyz (rot (axis_rotation 0 1 0 2))) = (let r = rot (axis_rotation 0 1 0 2)
      in [[r 0 0, r 0 1, r 0 2], [r 1 0, r 1 1, r 1 2], [r 2 0, r 2 1, r 2 2]])"
  unfolding Let_def by (rule quaternion_of_rotation) (rule rotation_axis, simp)

section \<open>Reach\<close>

definition reach :: "real \<Rightarrow> transform \<Rightarrow> bool" where
  "reach len t \<longleftrightarrow> rotation (rot t) \<and> 0 \<le> len \<and>
     trans t 0 * trans t 0 + trans t 1 * trans t 1 + trans t 2 * trans t 2 \<le> len * len"

lemma cauchy3:
  fixes a b c x y z :: real
  assumes "a * a + b * b + c * c = 1" "x * x + y * y + z * z \<le> n * n" "0 \<le> n"
  shows "\<bar>a * x + b * y + c * z\<bar> \<le> n"
proof -
  define A B where "A = (a * x + b * y + c * z)\<^sup>2" and "B = (a * y - b * x)\<^sup>2 + (a * z - c * x)\<^sup>2 + (b * z - c * y)\<^sup>2"
  have "A + B = (a * a + b * b + c * c) * (x * x + y * y + z * z)" unfolding A_def B_def by algebra
  moreover have "0 \<le> B" by (simp add: B_def)
  ultimately have "A \<le> x * x + y * y + z * z" by (simp add: assms(1))
  then have "(a * x + b * y + c * z)\<^sup>2 \<le> x * x + y * y + z * z" by (simp add: A_def)
  then have "(a * x + b * y + c * z)\<^sup>2 \<le> n\<^sup>2" using assms(2) by (simp add: power2_eq_square)
  then show ?thesis using abs_le_square_iff [of "a * x + b * y + c * z" n] assms(3) by (simp add: abs_of_nonneg)
qed

lemma chain_reach:
  assumes "list_all2 reach ls ts" "rotation (rot t)"
  shows "rotation (rot (foldl fk_compose t ts)) \<and>
    (\<forall>i < 3. \<bar>trans (foldl fk_compose t ts) i - trans t i\<bar> \<le> sum_list ls)"
  using assms
proof (induction arbitrary: t rule: list_all2_induct)
  case (Cons l ls u us)
  let ?v = "fk_compose t u"
  have r: "rotation (rot ?v)" using rotation_product Cons.prems Cons.hyps(1) by (simp add: reach_def)
  note f = rotationD [OF Cons.prems]
  have rows: "rot t i 0 * rot t i 0 + rot t i 1 * rot t i 1 + rot t i 2 * rot t i 2 = 1" if "i < 3" for i
  proof -
    from that consider "i = 0" | "i = 1" | "i = 2" by linarith
    then show ?thesis by cases (use f(1,2) frame_columns(1) [OF f] in simp_all)
  qed
  have "\<bar>trans ?v i - trans t i\<bar> \<le> l" if "i < 3" for i
    using cauchy3 [OF rows [OF that]] Cons.hyps(1) by (simp add: reach_def fk_compose_def)
  with Cons.IH [OF r] show ?case by fastforce
qed simp

lemma reach_rpy:
  assumes "0 \<le> len" "x * x + y * y + z * z \<le> len * len"
  shows "reach len (make_rpy_xyz a b c x y z)"
  using assms rotation_rpy [of a b c x y z]
  by (simp add: reach_def make_rpy_xyz_def Let_def eval_nat_numeral)

lemma reach_revolute:
  assumes "0 \<le> len" "x * x + y * y + z * z \<le> len * len" "ax * ax + ay * ay + az * az = 1"
  shows "reach len (fixed_then_revolute a b c x y z ax ay az q)"
  using assms rotation_revolute [OF assms(3)]
  by (simp add: reach_def fixed_then_revolute_def fk_compose_def axis_rotation_def fk_identity_def
      make_rpy_xyz_def Let_def eval_nat_numeral)

lemma reach_thumb:
  "list_all2 reach [71 / 1000, 41 / 1000, 21 / 1000, 37 / 1000, 11 / 1000, 34 / 1000, 11 / 1000] (thumb_chain q)"
  unfolding thumb_chain_def list.rel_inject by (intro conjI list.rel_intros reach_rpy reach_revolute) simp_all

lemma reach_finger:
  assumes "bx * bx + b * b + bz * bz \<le> (38 / 1000) * (38 / 1000)"
  shows "list_all2 reach [71 / 1000, 38 / 1000, 24 / 1000, 20 / 1000, 34 / 1000, 27 / 1000, 0, 11 / 1000]
    (finger_chain ra rb rc bx b bz q)"
  unfolding finger_chain_def list.rel_inject
  by (intro conjI list.rel_intros reach_rpy reach_revolute) (use assms in simp_all)

definition tip_ok :: "real list \<times> real list \<Rightarrow> bool" where
  "tip_ok p \<longleftrightarrow> length (fst p) = 3 \<and> (\<forall>i < 3. \<bar>fst p ! i\<bar> \<le> 226 / 1000) \<and>
     (\<exists>w x y z. snd p = [w, x, y, z] \<and> w * w + x * x + y * y + z * z = 1)"

lemma tip_of_chain:
  assumes "list_all2 reach ls ts" "sum_list ls \<le> 226 / 1000"
  shows "tip_ok (tip_of (foldl fk_compose fk_identity ts))"
proof -
  let ?t = "foldl fk_compose fk_identity ts"
  have c: "rotation (rot ?t)" "\<forall>i < 3. \<bar>trans ?t i\<bar> \<le> sum_list ls"
    using chain_reach [OF assms(1) rotation_identity] by (auto simp: fk_identity_def)
  obtain w x y z where q: "quat_raw (rot ?t) = (w, x, y, z)" by (cases "quat_raw (rot ?t)")
  have "rotmat_to_quat_wxyz (rot ?t) = [w, x, y, z] \<and> w * w + x * x + y * y + z * z = 1"
    using quat_normalised [OF c(1)] by (simp add: q)
  moreover have "\<bar>[trans ?t 0, trans ?t 1, trans ?t 2] ! i\<bar> \<le> 226 / 1000" if "i < 3" for i
  proof -
    have "\<bar>trans ?t i\<bar> \<le> 226 / 1000" using c(2) that assms(2) by (meson order_trans)
    moreover from that consider "i = 0" | "i = 1" | "i = 2" by linarith
    then have "[trans ?t 0, trans ?t 1, trans ?t 2] ! i = trans ?t i" by cases simp_all
    ultimately show ?thesis by (simp only:)
  qed
  ultimately show ?thesis by (simp add: tip_ok_def tip_of_def)
qed


end
