(* ===== verification/Ec_Print.thy ===== *)
theory Ec_Print
  imports Printf Error_List
begin

text \<open>
  Readable texts for the errors of the master (\<open>soem_lib/soem/ethercatprint.c\<close>): the tables of error
  codes, the searches in them and the message that \<open>ecx_err2string\<close> puts together in the static
  buffer \<open>estring\<close> of \<open>EC_MAXERRORNAME\<close> bytes. \<open>None\<close> is a search past the end of a table or a message
  that does not fit its buffer.
\<close>

abbreviation (input) EC_MAXERRORNAME :: nat where "EC_MAXERRORNAME \<equiv> 127"

section \<open>Tables\<close>

definition ec_sdoerrorlist :: "(u32 \<times> string) list" where
  "ec_sdoerrorlist =
    [(0x00000000, ''No error''),
     (0x05030000, ''Toggle bit not changed''),
     (0x05040000, ''SDO protocol timeout''),
     (0x05040001, ''Client/Server command specifier not valid or unknown''),
     (0x05040005, ''Out of memory''),
     (0x06010000, ''Unsupported access to an object''),
     (0x06010001, ''Attempt to read to a write only object''),
     (0x06010002, ''Attempt to write to a read only object''),
     (0x06010003, ''Subindex can not be written, SI0 must be 0 for write access''),
     (0x06010004, ''SDO Complete access not supported for variable length objects''),
     (0x06010005, ''Object length exceeds mailbox size''),
     (0x06010006, ''Object mapped to RxPDO, SDO download blocked''),
     (0x06020000, ''The object does not exist in the object directory''),
     (0x06040041, ''The object can not be mapped into the PDO''),
     (0x06040042, ''The number and length of the objects to be mapped would exceed the PDO length''),
     (0x06040043, ''General parameter incompatibility reason''),
     (0x06040047, ''General internal incompatibility in the device''),
     (0x06060000, ''Access failed due to a hardware error''),
     (0x06070010, ''Data type does not match, length of service parameter does not match''),
     (0x06070012, ''Data type does not match, length of service parameter too high''),
     (0x06070013, ''Data type does not match, length of service parameter too low''),
     (0x06090011, ''Subindex does not exist''),
     (0x06090030, ''Value range of parameter exceeded (only for write access)''),
     (0x06090031, ''Value of parameter written too high''),
     (0x06090032, ''Value of parameter written too low''),
     (0x06090036, ''Maximum value is less than minimum value''),
     (0x08000000, ''General error''),
     (0x08000020, ''Data cannot be transferred or stored to the application''),
     (0x08000021, ''Data cannot be transferred or stored to the application because of local control''),
     (0x08000022, ''Data cannot be transferred or stored to the application because of the present device state''),
     (0x08000023, ''Object dictionary dynamic generation fails or no object dictionary is present''),
     (0xffffffff, ''Unknown'')]"

definition ec_ALstatuscodelist :: "(u16 \<times> string) list" where
  "ec_ALstatuscodelist =
    [(0x0000, ''No error''),
     (0x0001, ''Unspecified error''),
     (0x0002, ''No memory''),
     (0x0011, ''Invalid requested state change''),
     (0x0012, ''Unknown requested state''),
     (0x0013, ''Bootstrap not supported''),
     (0x0014, ''No valid firmware''),
     (0x0015, ''Invalid mailbox configuration''),
     (0x0016, ''Invalid mailbox configuration''),
     (0x0017, ''Invalid sync manager configuration''),
     (0x0018, ''No valid inputs available''),
     (0x0019, ''No valid outputs''),
     (0x001a, ''Synchronization error''),
     (0x001b, ''Sync manager watchdog''),
     (0x001c, ''Invalid sync Manager types''),
     (0x001d, ''Invalid output configuration''),
     (0x001e, ''Invalid input configuration''),
     (0x001f, ''Invalid watchdog configuration''),
     (0x0020, ''Slave needs cold start''),
     (0x0021, ''Slave needs INIT''),
     (0x0022, ''Slave needs PREOP''),
     (0x0023, ''Slave needs SAFEOP''),
     (0x0024, ''Invalid input mapping''),
     (0x0025, ''Invalid output mapping''),
     (0x0026, ''Inconsistent settings''),
     (0x0027, ''Freerun not supported''),
     (0x0028, ''Synchronisation not supported''),
     (0x0029, ''Freerun needs 3buffer mode''),
     (0x002a, ''Background watchdog''),
     (0x002b, ''No valid Inputs and Outputs''),
     (0x002c, ''Fatal sync error''),
     (0x002d, ''No sync error''),
     (0x002e, ''Invalid input FMMU configuration''),
     (0x0030, ''Invalid DC SYNC configuration''),
     (0x0031, ''Invalid DC latch configuration''),
     (0x0032, ''PLL error''),
     (0x0033, ''DC sync IO error''),
     (0x0034, ''DC sync timeout error''),
     (0x0035, ''DC invalid sync cycle time''),
     (0x0036, ''DC invalid sync0 cycle time''),
     (0x0037, ''DC invalid sync1 cycle time''),
     (0x0041, ''MBX_AOE''),
     (0x0042, ''MBX_EOE''),
     (0x0043, ''MBX_COE''),
     (0x0044, ''MBX_FOE''),
     (0x0045, ''MBX_SOE''),
     (0x004f, ''MBX_VOE''),
     (0x0050, ''EEPROM no access''),
     (0x0051, ''EEPROM error''),
     (0x0060, ''Slave restarted locally''),
     (0x0061, ''Device identification value updated''),
     (0x00f0, ''Application controller available''),
     (0xffff, ''Unknown'')]"

definition ec_soeerrorlist :: "(u16 \<times> string) list" where
  "ec_soeerrorlist =
    [(0x0000, ''No error''),
     (0x1001, ''No IDN''),
     (0x1009, ''Invalid access to element 1''),
     (0x2001, ''No Name''),
     (0x2002, ''Name transmission too short''),
     (0x2003, ''Name transmission too long''),
     (0x2004, ''Name cannot be changed (read only)''),
     (0x2005, ''Name is write-protected at this time''),
     (0x3002, ''Attribute transmission too short''),
     (0x3003, ''Attribute transmission too long''),
     (0x3004, ''Attribute cannot be changed (read only)''),
     (0x3005, ''Attribute is write-protected at this time''),
     (0x4001, ''No units''),
     (0x4002, ''Unit transmission too short''),
     (0x4003, ''Unit transmission too long''),
     (0x4004, ''Unit cannot be changed (read only)''),
     (0x4005, ''Unit is write-protected at this time''),
     (0x5001, ''No minimum input value''),
     (0x5002, ''Minimum input value transmission too short''),
     (0x5003, ''Minimum input value transmission too long''),
     (0x5004, ''Minimum input value cannot be changed (read only)''),
     (0x5005, ''Minimum input value is write-protected at this time''),
     (0x6001, ''No maximum input value''),
     (0x6002, ''Maximum input value transmission too short''),
     (0x6003, ''Maximum input value transmission too long''),
     (0x6004, ''Maximum input value cannot be changed (read only)''),
     (0x6005, ''Maximum input value is write-protected at this time''),
     (0x7002, ''Operation data transmission too short''),
     (0x7003, ''Operation data transmission too long''),
     (0x7004, ''Operation data cannot be changed (read only)''),
     (0x7005, ''Operation data is write-protected at this time (state)''),
     (0x7006, ''Operation data is smaller than the minimum input value''),
     (0x7007, ''Operation data is smaller than the maximum input value''),
     (0x7008, ''Invalid operation data:Configured IDN will not be supported''),
     (0x7009, ''Operation data write protected by a password''),
     (0x700a, ''Operation data is write protected, it is configured cyclically''),
     (0x700b, ''Invalid indirect addressing: (e.g., data container, list handling)''),
     (0x700c, ''Operation data is write protected, due to other settings''),
     (0x700d, ''Reserved''),
     (0x7010, ''Procedure command already active''),
     (0x7011, ''Procedure command not interruptible''),
     (0x7012, ''Procedure command at this time not executable (state)''),
     (0x7013, ''Procedure command not executable (invalid or false parameters)''),
     (0x7014, ''No data state''),
     (0x8001, ''No default value''),
     (0x8002, ''Default value transmission too long''),
     (0x8004, ''Default value cannot be changed, read only''),
     (0x800a, ''Invalid drive number''),
     (0x800a, ''General error''),
     (0x800a, ''No element addressed''),
     (0xffff, ''Unknown'')]"

definition ec_mbxerrorlist :: "(u16 \<times> string) list" where
  "ec_mbxerrorlist =
    [(0x0000, ''No error''),
     (0x0001, ''Syntax of 6 octet Mailbox Header is wrong''),
     (0x0002, ''The mailbox protocol is not supported''),
     (0x0003, ''Channel Field contains wrong value''),
     (0x0004, ''The service is no supported''),
     (0x0005, ''Invalid mailbox header''),
     (0x0006, ''Length of received mailbox data is too short''),
     (0x0007, ''No more memory in slave''),
     (0x0008, ''The length of data is inconsistent''),
     (0xffff, ''Unknown'')]"

section \<open>Searches\<close>

text \<open>The loop of the four searches: on to the next entry while the code is neither the last of the
  table nor the one looked for.\<close>

fun error_text :: "'c \<Rightarrow> ('c \<times> string) list \<Rightarrow> 'c \<Rightarrow> string option" where
  "error_text last_code [] code = None"
| "error_text last_code ((c, t) # entries) code =
     (if c \<noteq> last_code \<and> c \<noteq> code then error_text last_code entries code else Some t)"

definition ec_sdoerror2string :: "u32 \<Rightarrow> string option" where
  "ec_sdoerror2string sdoerrorcode = error_text 0xffffffff ec_sdoerrorlist sdoerrorcode"

definition ec_ALstatuscode2string :: "u16 \<Rightarrow> string option" where
  "ec_ALstatuscode2string code = error_text 0xffff ec_ALstatuscodelist code"

definition ec_soeerror2string :: "u16 \<Rightarrow> string option" where
  "ec_soeerror2string errorcode = error_text 0xffff ec_soeerrorlist errorcode"

definition ec_mbxerror2string :: "u16 \<Rightarrow> string option" where
  "ec_mbxerror2string errorcode = error_text 0xffff ec_mbxerrorlist errorcode"

section \<open>Messages\<close>

definition error_seconds :: "ec_timet \<Rightarrow> dbl" where
  "error_seconds t = d_add (Fin (of_nat (unat (sec t)))) (d_div (Fin (of_nat (unat (usec t)))) (Fin 1000000))"

definition error_message :: "string \<Rightarrow> ec_errort \<Rightarrow> string option" where
  "error_message timestr Ec =
     (let slave = fmt_d (uint (Slave Ec));
          entry = fmt_x 4 (ucast (Index Ec)) @ ''.'' @ fmt_x 2 (ucast (SubIdx Ec));
          nl = [CHR 0x0A]
      in case Etype Ec of
        EC_ERR_TYPE_SDO_ERROR \<Rightarrow> do {
          txt \<leftarrow> ec_sdoerror2string (AbortCode Ec);
          Some (timestr @ '' SDO slave:'' @ slave @ '' index:'' @ entry @ '' error:'' @ fmt_x 8 (AbortCode Ec)
                @ '' '' @ txt @ nl) }
      | EC_ERR_TYPE_EMERGENCY \<Rightarrow>
          Some (timestr @ '' EMERGENCY slave:'' @ slave @ '' error:'' @ fmt_x 4 (ucast (ErrorCode Ec)) @ nl)
      | EC_ERR_TYPE_PACKET_ERROR \<Rightarrow>
          Some (timestr @ '' PACKET slave:'' @ slave @ '' index:'' @ entry @ '' error:''
                @ fmt_d (uint (ErrorCode Ec)) @ nl)
      | EC_ERR_TYPE_SDOINFO_ERROR \<Rightarrow> do {
          txt \<leftarrow> ec_sdoerror2string (AbortCode Ec);
          Some (timestr @ '' SDO slave:'' @ slave @ '' index:'' @ entry @ '' error:'' @ fmt_x 8 (AbortCode Ec)
                @ '' '' @ txt @ nl) }
      | EC_ERR_TYPE_SOE_ERROR \<Rightarrow> do {
          txt \<leftarrow> ec_soeerror2string (ErrorCode Ec);
          Some (timestr @ '' SoE slave:'' @ slave @ '' IDN:'' @ fmt_x 4 (ucast (Index Ec)) @ '' error:''
                @ fmt_x 4 (AbortCode Ec) @ '' '' @ txt @ nl) }
      | EC_ERR_TYPE_MBX_ERROR \<Rightarrow> do {
          txt \<leftarrow> ec_mbxerror2string (ErrorCode Ec);
          Some (timestr @ '' MBX slave:'' @ slave @ '' error:'' @ fmt_x 4 (ucast (ErrorCode Ec)) @ '' '' @ txt @ nl) }
      | _ \<Rightarrow> Some (timestr @ '' error:'' @ fmt_x 8 (AbortCode Ec) @ nl))"

definition ecx_err2string :: "ec_errort \<Rightarrow> string option" where
  "ecx_err2string Ec = do {
     timestr \<leftarrow> sprintf 20 (''Time:'' @ fmt_f 12 3 (error_seconds (Time Ec)));
     msg \<leftarrow> error_message timestr Ec;
     sprintf EC_MAXERRORNAME msg }"

definition ecx_elist2string :: "ecx_contextt \<Rightarrow> (string \<times> ecx_contextt) option" where
  "ecx_elist2string c = do {
     (ok, Ec, c) \<leftarrow> ecx_poperror c;
     if ok then do { s \<leftarrow> ecx_err2string Ec; Some (s, c) } else Some ([], c) }"

section \<open>The searches end at their last entry\<close>

lemma error_text_not:
  assumes "list_all (\<lambda>(c, t). c = last_code \<or> c \<notin> bad \<longrightarrow> P t) tbl"
    and "list_ex (\<lambda>(c, t). c = last_code) tbl" and "code \<notin> bad"
  shows "\<exists>t. error_text last_code tbl code = Some t \<and> P t"
  using assms
proof (induction tbl)
  case (Cons e tbl)
  obtain c t where e: "e = (c, t)" by force
  show ?case by (cases "c \<noteq> last_code \<and> c \<noteq> code") (use Cons e in auto)
qed simp

lemma error_text_found:
  assumes "list_all (\<lambda>(c, t). P t) tbl" and "list_ex (\<lambda>(c, t). c = last_code) tbl"
  shows "\<exists>t. error_text last_code tbl code = Some t \<and> P t"
  by (rule error_text_not [where bad = "{}"]) (use assms in \<open>auto simp: list_all_iff\<close>)

text \<open>The abort codes whose text leaves no room for the rest of the message.\<close>

definition long_texts :: "u32 set" where
  "long_texts = {0x06040042, 0x06070010, 0x08000021, 0x08000022, 0x08000023}"

lemma sdo_text_short:
  assumes "a \<notin> long_texts"
  shows "\<exists>t. ec_sdoerror2string a = Some t \<and> length t \<le> 62"
  unfolding ec_sdoerror2string_def
  by (rule error_text_not [OF _ _ assms]) (simp_all add: ec_sdoerrorlist_def long_texts_def)

lemma sdo_text_long:
  assumes "a \<in> long_texts"
  shows "\<exists>t. ec_sdoerror2string a = Some t \<and> 68 \<le> length t"
  using assms unfolding long_texts_def
  by (elim insertE emptyE) (simp_all add: ec_sdoerror2string_def ec_sdoerrorlist_def)

lemma soe_text: "\<exists>t. ec_soeerror2string e = Some t \<and> length t \<le> 66"
  unfolding ec_soeerror2string_def by (rule error_text_found) (simp_all add: ec_soeerrorlist_def)

lemma mbx_text: "\<exists>t. ec_mbxerror2string e = Some t \<and> length t \<le> 44"
  unfolding ec_mbxerror2string_def by (rule error_text_found) (simp_all add: ec_mbxerrorlist_def)

lemma ALstatus_text: "\<exists>t. ec_ALstatuscode2string e = Some t \<and> length t \<le> 35"
  unfolding ec_ALstatuscode2string_def by (rule error_text_found) (simp_all add: ec_ALstatuscodelist_def)

section \<open>The time stamp fits\<close>

lemma rnd_upto:
  assumes "0 \<le> x" and "x \<le> of_int m" and "m \<le> 2 ^ 53"
  shows "rnd x = Fin (rnd_fin x) \<and> 0 \<le> rnd_fin x \<and> rnd_fin x \<le> of_int m"
proof -
  have "of_int m \<le> (of_int (2 ^ 53) :: rat)" using assms(3) unfolding of_int_le_iff .
  also have "\<dots> \<le> 2 ^ 1000" by simp
  finally have "\<bar>x\<bar> \<le> 2 ^ 1000" using assms by linarith
  moreover have "0 \<le> m" using assms(1,2) by (metis of_int_0_le_iff order_trans)
  ultimately show ?thesis
    using rnd_small rnd_fin_nonneg [OF assms(1)] rnd_fin_mono [OF assms(2)] rnd_fin_int [of m] assms(3) by simp
qed

lemma error_seconds_bound: "\<exists>r. error_seconds t = Fin r \<and> 0 \<le> r \<and> r \<le> of_nat 4294971590"
proof -
  have u: "unat (w :: u32) \<le> 4294967295" for w
    using unsigned_less [where 'a = nat, of w] by simp
  let ?u = "of_nat (unat (usec t)) / 1000000 :: rat"
  have "of_nat (unat (usec t)) \<le> (of_nat 4294967295 :: rat)" using u [of "usec t"] unfolding of_nat_le_iff .
  then have u1: "?u \<le> of_int 4295" by simp
  have "0 \<le> ?u" by (intro divide_nonneg_pos of_nat_0_le_iff) simp
  from rnd_upto [OF this u1] obtain d where d: "rnd ?u = Fin d" "0 \<le> d" "d \<le> 4295" by auto
  have "of_nat (unat (sec t)) \<le> (of_nat 4294967295 :: rat)" using u [of "sec t"] unfolding of_nat_le_iff .
  then have s1: "of_nat (unat (sec t)) + d \<le> of_int 4294971590" using d by simp
  have "0 \<le> of_nat (unat (sec t)) + d" using d(2) by (intro add_nonneg_nonneg of_nat_0_le_iff)
  from rnd_upto [OF this s1] d show ?thesis by (auto simp: error_seconds_def)
qed

lemma timestr_fits:
  "\<exists>s. sprintf 20 (''Time:'' @ fmt_f 12 3 (error_seconds t)) = Some s \<and> 17 \<le> length s \<and> length s \<le> 19"
proof -
  obtain r where r: "error_seconds t = Fin r" "0 \<le> r" "r \<le> of_nat 4294971590"
    using error_seconds_bound by blast
  from length_fmt_f [OF r(2,3), of 9 12 2]
  have "12 \<le> length (fmt_f 12 3 (Fin r))" "length (fmt_f 12 3 (Fin r)) \<le> 14" by (simp_all add: numeral_3_eq_3)
  then show ?thesis by (simp add: r sprintf_def del: fmt_f.simps)
qed

section \<open>Which messages overflow the buffer\<close>

lemma length_fmt_d:
  assumes "0 \<le> z" and "nat z < 10 ^ Suc k"
  shows "0 < length (fmt_d z) \<and> length (fmt_d z) \<le> Suc k"
  using assms length_digits_10 [of "nat z" k] digits_pos [of 10 "nat z"] by (simp add: fmt_d_def del: digits_pos)

lemma u16_digits: "length (fmt_d (uint (w :: u16))) \<le> 5"
  using length_fmt_d [of "uint w" 4] unsigned_less [where 'a = nat, of w] by simp


lemma slave_digits: "w \<le> 200 \<Longrightarrow> 0 < length (fmt_d (uint (w :: u16))) \<and> length (fmt_d (uint w)) \<le> 3"
  using length_fmt_d [of "uint w" 2] by (simp add: word_le_nat_alt)

lemmas message_defs = error_message_def Let_def sprintf_def

lemma sdo_message_overflow:
  assumes "Etype Ec \<in> {EC_ERR_TYPE_SDO_ERROR, EC_ERR_TYPE_SDOINFO_ERROR}" and "Slave Ec \<le> 200"
    and "17 \<le> length ts" "length ts \<le> 19"
  shows "(error_message ts Ec \<bind> sprintf EC_MAXERRORNAME) = None \<longleftrightarrow> AbortCode Ec \<in> long_texts"
proof (cases "AbortCode Ec \<in> long_texts")
  case True
  obtain t where "ec_sdoerror2string (AbortCode Ec) = Some t" "68 \<le> length t"
    using sdo_text_long [OF True] by blast
  with True assms show ?thesis by (auto simp: message_defs)
next
  case False
  obtain t where "ec_sdoerror2string (AbortCode Ec) = Some t" "length t \<le> 62"
    using sdo_text_short [OF False] by blast
  with False assms slave_digits [OF assms(2)] show ?thesis by (auto simp: message_defs)
qed

lemma other_message_fits:
  assumes "Etype Ec \<notin> {EC_ERR_TYPE_SDO_ERROR, EC_ERR_TYPE_SDOINFO_ERROR}" and "Slave Ec \<le> 200"
    and "length ts \<le> 19"
  shows "(error_message ts Ec \<bind> sprintf EC_MAXERRORNAME) \<noteq> None"
proof -
  obtain t where t: "ec_soeerror2string (ErrorCode Ec) = Some t" "length t \<le> 66" using soe_text by blast
  obtain m where m: "ec_mbxerror2string (ErrorCode Ec) = Some m" "length m \<le> 44" using mbx_text by blast
  show ?thesis
    using assms slave_digits [OF assms(2)] t m length_hex_le [of 4 "AbortCode Ec"] u16_digits [of "ErrorCode Ec"]
    by (cases "Etype Ec") (simp_all add: message_defs)
qed

text \<open>
  C26: For every slave the master can hold, formatting a recorded error stays inside its buffers exactly
  when it is not an SDO abort with one of five standard abort codes; the texts of these do not fit the
  127 bytes of \<open>estring\<close>, whatever the time, the slave and the object. Every search in the tables ends.
\<close>

theorem err2string_overflow:
  assumes "Slave Ec \<le> 200"
  shows "ecx_err2string Ec = None \<longleftrightarrow>
    Etype Ec \<in> {EC_ERR_TYPE_SDO_ERROR, EC_ERR_TYPE_SDOINFO_ERROR} \<and> AbortCode Ec \<in> long_texts"
proof -
  obtain ts where ts: "sprintf 20 (''Time:'' @ fmt_f 12 3 (error_seconds (Time Ec))) = Some ts"
      "17 \<le> length ts" "length ts \<le> 19"
    using timestr_fits by blast
  have "ecx_err2string Ec = (error_message ts Ec \<bind> sprintf EC_MAXERRORNAME)"
    unfolding ecx_err2string_def ts(1) by simp
  then show ?thesis using sdo_message_overflow [OF _ assms ts(2,3)] other_message_fits [OF _ assms ts(3)]
    by (cases "Etype Ec \<in> {EC_ERR_TYPE_SDO_ERROR, EC_ERR_TYPE_SDOINFO_ERROR}") simp_all
qed

theorem err2string_overflow_witness:
  "ecx_err2string (set_AbortCode 0x06040042 (zero_error\<lparr>Slave := 1\<rparr>)) = None
   \<and> ecx_err2string (set_AbortCode 0x06090011 (zero_error\<lparr>Slave := 1\<rparr>)) \<noteq> None"
proof -
  have "AbortCode (set_AbortCode 0x06040042 (zero_error\<lparr>Slave := 1\<rparr>)) = 0x06040042"
    "AbortCode (set_AbortCode 0x06090011 (zero_error\<lparr>Slave := 1\<rparr>)) = 0x06090011"
    by code_simp+
  then show ?thesis
    using err2string_overflow [of "set_AbortCode 0x06040042 (zero_error\<lparr>Slave := 1\<rparr>)"]
      err2string_overflow [of "set_AbortCode 0x06090011 (zero_error\<lparr>Slave := 1\<rparr>)"]
    by (simp add: set_AbortCode_def zero_error_def long_texts_def)
qed

text \<open>The two texts that follow \<open>Invalid drive number\<close> under the same SoE code are never found.\<close>

lemma soe_texts_shadowed:
  "ec_soeerror2string e \<noteq> Some ''General error'' \<and> ec_soeerror2string e \<noteq> Some ''No element addressed''"
  by (simp add: ec_soeerror2string_def ec_soeerrorlist_def)

end
