(* ===== verification/Process_Data.thy ===== *)
theory Process_Data
  imports Mailbox
begin

text \<open>
  Process data (\<open>ecx_main_send_processdata\<close>, \<open>ecx_receive_processdata_group\<close> and the index stack
  between them in \<open>ethercatmain.c\<close>): the process image is sent in segments, one frame each, and the
  answers are put back where their segment came from.

  A null data pointer is an access outside an array as soon as a segment uses it.
\<close>

section \<open>The index stack\<close>

definition ecx_pushindex :: "byte \<Rightarrow> nat \<Rightarrow> u16 \<Rightarrow> u16 \<Rightarrow> ecx_contextt \<Rightarrow> ecx_contextt option" where
  "ecx_pushindex idx data len DCO c =
     (let k = idxstack c
      in if pushed k < EC_MAXBUF
         then do {
           is \<leftarrow> aset (i_idx k) (pushed k) idx;
           ds \<leftarrow> aset (i_data k) (pushed k) data;
           ls \<leftarrow> aset (i_length k) (pushed k) len;
           offs \<leftarrow> aset (dcoffset k) (pushed k) DCO;
           Some (c\<lparr>idxstack := k\<lparr>i_idx := is, i_data := ds, i_length := ls, dcoffset := offs,
                                pushed := pushed k + 1\<rparr>\<rparr>) }
         else Some c)"

definition ecx_pullindex :: "ecx_contextt \<Rightarrow> nat option \<times> ecx_contextt" where
  "ecx_pullindex c =
     (let k = idxstack c
      in if pulled k < pushed k then (Some (pulled k), c\<lparr>idxstack := k\<lparr>pulled := pulled k + 1\<rparr>\<rparr>)
         else (None, c))"

definition ecx_clearindex :: "ecx_contextt \<Rightarrow> ecx_contextt" where
  "ecx_clearindex c = c\<lparr>idxstack := (idxstack c)\<lparr>pushed := 0, pulled := 0\<rparr>\<rparr>"

section \<open>Sending\<close>

text \<open>One segment: a fresh index, its datagram, for the first frame of a group with distributed clocks
  the datagram that reads the system time, the transmission, the entry on the stack.\<close>

definition send_segment ::
  "byte \<Rightarrow> ec_groupt \<Rightarrow> nat \<Rightarrow> nat \<Rightarrow> u16 \<Rightarrow> u32 \<Rightarrow> bool \<Rightarrow> ecx_contextt \<Rightarrow> ecx_contextt option" where
  "send_segment com g data dest sublength LogAdr first c = do {
     (idx, p) \<leftarrow> ecx_getindex (port c);
     p \<leftarrow> ecx_setupdatagram (TxBuf idx) com idx (LO_WORD LogAdr) (HI_WORD LogAdr) sublength
            (drop data (iomap c)) p;
     (DCO, p) \<leftarrow> (if first
                  then do {
                    s \<leftarrow> slave_at (g_DCnext g) c;
                    ecx_adddatagram (TxBuf idx) EC_CMD_FRMW idx False (configadr s) ECT_REG_DCSYSTIME 8
                      (le_bytes 8 (DCtime c)) p }
                  else Some (0, p));
     (_, p) \<leftarrow> ecx_outframe_red idx p;
     ecx_pushindex idx dest sublength DCO (c\<lparr>port := p\<rparr>) }"

text \<open>The loop over the segments. \<open>sub\<close> is the length of a segment from its number, the length still
  to send and its entry in \<open>IOsegment\<close>; \<open>shift\<close> is where the answer goes, relative to the data sent.\<close>

definition send_segments ::
  "byte \<Rightarrow> ec_groupt \<Rightarrow> (nat \<Rightarrow> int \<Rightarrow> u32 \<Rightarrow> u16) \<Rightarrow> nat \<Rightarrow>
     nat \<times> int \<times> u32 \<times> nat \<times> bool \<times> ecx_contextt \<Rightarrow> (nat \<times> int \<times> u32 \<times> nat \<times> bool \<times> ecx_contextt) option" where
  "send_segments com g sub shift =
     do_while
       (\<lambda>(currentsegment, len, LogAdr, data, first, c). do {
          seg \<leftarrow> aget (IOsegment g) currentsegment;
          let sublength = sub currentsegment len seg;
          c \<leftarrow> send_segment com g data (data + shift) sublength LogAdr first c;
          Some (currentsegment + 1, len - uint sublength, LogAdr + ucast sublength,
                data + unat sublength, False, c) })
       (\<lambda>(currentsegment, len, s).
          Some (len \<noteq> 0 \<and> currentsegment < unat (nsegments g), currentsegment, len, s))"

definition lrd_sublength :: "ec_groupt \<Rightarrow> nat \<Rightarrow> int \<Rightarrow> u32 \<Rightarrow> u16" where
  "lrd_sublength g currentsegment len seg =
     (if currentsegment = unat (Isegment g) then ucast (seg - ucast (Ioffset g)) else ucast seg)"

definition lwr_sublength :: "nat \<Rightarrow> int \<Rightarrow> u32 \<Rightarrow> u16" where
  "lwr_sublength currentsegment len seg =
     (if len - uint (ucast seg :: u16) < 0 then of_int len else ucast seg)"

definition lrw_sublength :: "nat \<Rightarrow> int \<Rightarrow> u32 \<Rightarrow> u16" where
  "lrw_sublength currentsegment len seg = ucast seg"

text \<open>\<open>blockLRW\<close>: inputs by LRD, then outputs by LWR.\<close>

definition send_split :: "ec_groupt \<Rightarrow> ecx_contextt \<Rightarrow> ecx_contextt option" where
  "send_split g c = do {
     (first, c) \<leftarrow>
       (if g_Ibytes g \<noteq> 0
        then do {
          data \<leftarrow> g_inputs g;
          (_, _, _, _, first, c) \<leftarrow> send_segments EC_CMD_LRD g (lrd_sublength g) 0
             (unat (Isegment g), sint (g_Ibytes g), logstartaddr g + g_Obytes g, data, g_hasdc g, c);
          Some (first, c) }
        else Some (g_hasdc g, c));
     if g_Obytes g \<noteq> 0
     then do {
       data \<leftarrow> g_outputs g;
       (_, _, _, _, _, c) \<leftarrow> send_segments EC_CMD_LWR g lwr_sublength 0
          (0, sint (g_Obytes g), logstartaddr g, data, first, c);
       Some c }
     else Some c }"

definition ecx_main_send_processdata :: "byte \<Rightarrow> bool \<Rightarrow> ecx_contextt \<Rightarrow> (int \<times> ecx_contextt) option" where
  "ecx_main_send_processdata grp use_overlap_io c = do {
     g \<leftarrow> group_at grp c;
     let len = (if use_overlap_io then max (g_Obytes g) (g_Ibytes g) else g_Obytes g + g_Ibytes g);
     let iomapinputoffset = (if use_overlap_io then unat (g_Obytes g) else 0);
     if len \<noteq> 0
     then if g_blockLRW g \<noteq> 0
          then do { c \<leftarrow> send_split g c; Some (1, c) }
          else do {
            data \<leftarrow> (if g_Obytes g \<noteq> 0 then g_outputs g else g_inputs g);
            let iomapinputoffset = (if g_Obytes g \<noteq> 0 then iomapinputoffset else 0);
            (_, _, _, _, _, c) \<leftarrow> send_segments EC_CMD_LRW g lrw_sublength iomapinputoffset
               (0, sint len, logstartaddr g, data, g_hasdc g, c);
            Some (1, c) }
     else Some (0, c) }"

definition ecx_send_overlap_processdata_group where
  "ecx_send_overlap_processdata_group grp c = ecx_main_send_processdata grp True c"

definition ecx_send_processdata_group where
  "ecx_send_processdata_group grp c = ecx_main_send_processdata grp False c"

section \<open>Receiving\<close>

text \<open>The answer of one stack entry: working counter, whether it counts, and the context.\<close>

definition receive_copy :: "nat \<Rightarrow> nat \<Rightarrow> bytes \<Rightarrow> ecx_contextt \<Rightarrow> ecx_contextt option" where
  "receive_copy data n b c = do {
     d \<leftarrow> mem_read b EC_HEADERSIZE n;
     io \<leftarrow> mem_write (iomap c) data d;
     Some (c\<lparr>iomap := io\<rparr>) }"

text \<open>The working counter behind the data and the time of the second datagram.\<close>

definition receive_dc :: "nat \<Rightarrow> nat \<Rightarrow> bytes \<Rightarrow> ecx_contextt \<Rightarrow> (u16 \<times> ecx_contextt) option" where
  "receive_dc n dco b c = do {
     w \<leftarrow> mem_read b (EC_HEADERSIZE + n) EC_WKCSIZE;
     t \<leftarrow> mem_read b dco 8;
     Some (le_word w, c\<lparr>DCtime := le_word t\<rparr>) }"

definition receive_one :: "nat \<Rightarrow> byte \<Rightarrow> int \<Rightarrow> int \<times> bool \<times> ecx_contextt \<Rightarrow> (int \<times> bool \<times> ecx_contextt) option" where
  "receive_one pos idx wkc2 = (\<lambda>(wkc, valid, c). do {
     let k = idxstack c;
     b \<leftarrow> aget (rxbuf (rx (port c))) (unat idx);
     com \<leftarrow> get8 b EC_CMDOFFSET;
     data \<leftarrow> aget (i_data k) pos;
     n \<leftarrow> aget (i_length k) pos;
     dco \<leftarrow> aget (dcoffset k) pos;
     if com = EC_CMD_LRD \<or> com = EC_CMD_LRW
     then if 0 < dco
          then do {
            c \<leftarrow> receive_copy data (unat n) b c;
            (w, c) \<leftarrow> receive_dc (unat n) (unat dco) b c;
            Some (uint w, True, c) }
          else do { c \<leftarrow> receive_copy data (unat n) b c; Some (wkc + wkc2, True, c) }
     else if com = EC_CMD_LWR
     then if 0 < dco
          then do { (w, c) \<leftarrow> receive_dc (unat n) (unat dco) b c; Some (uint w * 2, True, c) }
          else Some (wkc + wkc2 * 2, True, c)
     else Some (wkc, valid, c) })"

definition receive_step :: "int \<Rightarrow> nat option \<times> int \<times> bool \<times> ecx_contextt \<Rightarrow> (nat option \<times> int \<times> bool \<times> ecx_contextt) option" where
  "receive_step timeout = (\<lambda>(pos, wkc, valid, c). do {
     pos \<leftarrow> pos;
     idx \<leftarrow> aget (i_idx (idxstack c)) pos;
     (wkc2, c) \<leftarrow> on_port (ecx_waitinframe idx timeout) c;
     (wkc, valid, c) \<leftarrow> (if EC_NOFRAME < wkc2 then receive_one pos idx wkc2 (wkc, valid, c)
                         else Some (wkc, valid, c));
     p \<leftarrow> ecx_setbufstat idx EC_BUF_EMPTY (port c);
     let (pos, c) = ecx_pullindex (c\<lparr>port := p\<rparr>);
     Some (pos, wkc, valid, c) })"

definition ecx_receive_processdata_group :: "byte \<Rightarrow> int \<Rightarrow> ecx_contextt \<Rightarrow> (int \<times> ecx_contextt) option" where
  "ecx_receive_processdata_group grp timeout c = (let (pos, c) = ecx_pullindex c in do {
     (_, wkc, valid, c) \<leftarrow> while_do (\<lambda>(pos, _). pos \<noteq> None) (receive_step timeout) (pos, 0, False, c);
     let c = ecx_clearindex c;
     Some (if valid then wkc else EC_NOFRAME, c) })"

definition ecx_send_processdata where
  "ecx_send_processdata c = ecx_send_processdata_group 0 c"

definition ecx_send_overlap_processdata where
  "ecx_send_overlap_processdata c = ecx_send_overlap_processdata_group 0 c"

definition ecx_receive_processdata where
  "ecx_receive_processdata timeout c = ecx_receive_processdata_group 0 timeout c"

end
