(* ===== verification/Ec_Api.thy ===== *)
theory Ec_Api
  imports Ec_Print Dc Foe Eoe Soe Coe_Pdo Config_Group Process_Data
begin

text \<open>
  The interface of one master (the \<open>EC_VER1\<close> parts of \<open>soem_lib\<close>), which is what the application
  calls: each \<open>ec_\<close> function is the \<open>ecx_\<close> function of the same name on the library's global context
  and its port. The theorems are stated for the latter; \<open>ec_api\<close> unfolds the former.
\<close>

named_theorems ec_api "the interface of one master in terms of the functions on a context"

definition on_port_only :: "(ecx_portt \<Rightarrow> ecx_portt option) \<Rightarrow> ecx_contextt \<Rightarrow> ecx_contextt option" where
  "on_port_only f c = do { p \<leftarrow> f (port c); Some (c\<lparr>port := p\<rparr>) }"

definition on_port_data ::
  "(ecx_portt \<Rightarrow> (int \<times> bytes \<times> ecx_portt) option) \<Rightarrow> ecx_contextt \<Rightarrow> (int \<times> bytes \<times> ecx_contextt) option" where
  "on_port_data f c = do { (w, d, p) \<leftarrow> f (port c); Some (w, d, c\<lparr>port := p\<rparr>) }"

section \<open>The driver\<close>

definition ec_setupnic ::
  "string \<Rightarrow> bool \<Rightarrow> ecx_contextt \<Rightarrow> (int \<times> ecx_contextt) option" where
  "ec_setupnic ifname secondary = on_port (ecx_setupnic ifname secondary)"

definition ec_closenic :: "ecx_contextt \<Rightarrow> int \<times> ecx_contextt" where
  "ec_closenic = (\<lambda>c. let (r, p) = ecx_closenic (port c) in (r, c\<lparr>port := p\<rparr>))"

definition ec_getindex :: "ecx_contextt \<Rightarrow> (byte \<times> ecx_contextt) option" where
  "ec_getindex = on_port ecx_getindex"

definition ec_setbufstat ::
  "byte \<Rightarrow> ec_bufstate \<Rightarrow> ecx_contextt \<Rightarrow> ecx_contextt option" where
  "ec_setbufstat idx bufstat = on_port_only (ecx_setbufstat idx bufstat)"

definition ec_outframe ::
  "byte \<Rightarrow> nat \<Rightarrow> ecx_contextt \<Rightarrow> (int \<times> ecx_contextt) option" where
  "ec_outframe idx stacknumber = on_port (ecx_outframe idx stacknumber)"

definition ec_outframe_red ::
  "byte \<Rightarrow> ecx_contextt \<Rightarrow> (int \<times> ecx_contextt) option" where
  "ec_outframe_red idx = on_port (ecx_outframe_red idx)"

definition ec_inframe ::
  "byte \<Rightarrow> nat \<Rightarrow> ecx_contextt \<Rightarrow> (int \<times> ecx_contextt) option" where
  "ec_inframe idx stacknumber = on_port (ecx_inframe idx stacknumber)"

definition ec_waitinframe ::
  "byte \<Rightarrow> int \<Rightarrow> ecx_contextt \<Rightarrow> (int \<times> ecx_contextt) option" where
  "ec_waitinframe idx timeout = on_port (ecx_waitinframe idx timeout)"

definition ec_srconfirm ::
  "byte \<Rightarrow> int \<Rightarrow> ecx_contextt \<Rightarrow> (int \<times> ecx_contextt) option" where
  "ec_srconfirm idx timeout = on_port (ecx_srconfirm idx timeout)"

section \<open>Datagram primitives\<close>

definition ec_setupdatagram ::
  "framebuf \<Rightarrow> byte \<Rightarrow> byte \<Rightarrow> u16 \<Rightarrow> u16 \<Rightarrow> u16 \<Rightarrow> bytes \<Rightarrow> ecx_contextt \<Rightarrow> ecx_contextt option" where
  "ec_setupdatagram frame com idx ADP ADO len data =
     on_port_only (ecx_setupdatagram frame com idx ADP ADO len data)"

definition ec_adddatagram ::
  "framebuf \<Rightarrow> byte \<Rightarrow> byte \<Rightarrow> bool \<Rightarrow> u16 \<Rightarrow> u16 \<Rightarrow> u16 \<Rightarrow> bytes \<Rightarrow> ecx_contextt \<Rightarrow> (u16 \<times> ecx_contextt) option" where
  "ec_adddatagram frame com idx again ADP ADO len data =
     on_port (ecx_adddatagram frame com idx again ADP ADO len data)"

definition ec_BWR ::
  "u16 \<Rightarrow> u16 \<Rightarrow> u16 \<Rightarrow> bytes \<Rightarrow> int \<Rightarrow> ecx_contextt \<Rightarrow> (int \<times> ecx_contextt) option" where
  "ec_BWR ADP ADO len data timeout = on_port (ecx_BWR ADP ADO len data timeout)"

definition ec_BRD ::
  "u16 \<Rightarrow> u16 \<Rightarrow> u16 \<Rightarrow> bytes \<Rightarrow> int \<Rightarrow> ecx_contextt \<Rightarrow> (int \<times> bytes \<times> ecx_contextt) option" where
  "ec_BRD ADP ADO len data timeout = on_port_data (ecx_BRD ADP ADO len data timeout)"

definition ec_APRD ::
  "u16 \<Rightarrow> u16 \<Rightarrow> u16 \<Rightarrow> bytes \<Rightarrow> int \<Rightarrow> ecx_contextt \<Rightarrow> (int \<times> bytes \<times> ecx_contextt) option" where
  "ec_APRD ADP ADO len data timeout = on_port_data (ecx_APRD ADP ADO len data timeout)"

definition ec_ARMW ::
  "u16 \<Rightarrow> u16 \<Rightarrow> u16 \<Rightarrow> bytes \<Rightarrow> int \<Rightarrow> ecx_contextt \<Rightarrow> (int \<times> bytes \<times> ecx_contextt) option" where
  "ec_ARMW ADP ADO len data timeout = on_port_data (ecx_ARMW ADP ADO len data timeout)"

definition ec_FRMW ::
  "u16 \<Rightarrow> u16 \<Rightarrow> u16 \<Rightarrow> bytes \<Rightarrow> int \<Rightarrow> ecx_contextt \<Rightarrow> (int \<times> bytes \<times> ecx_contextt) option" where
  "ec_FRMW ADP ADO len data timeout = on_port_data (ecx_FRMW ADP ADO len data timeout)"

definition ec_APRDw ::
  "u16 \<Rightarrow> u16 \<Rightarrow> int \<Rightarrow> ecx_contextt \<Rightarrow> (u16 \<times> ecx_contextt) option" where
  "ec_APRDw ADP ADO timeout c =
     do { (_, w, c) \<leftarrow> ec_APRD ADP ADO 2 (le_bytes 2 (0 :: u16)) timeout c; Some (le_word w, c) }"

definition ec_FPRD ::
  "u16 \<Rightarrow> u16 \<Rightarrow> u16 \<Rightarrow> bytes \<Rightarrow> int \<Rightarrow> ecx_contextt \<Rightarrow> (int \<times> bytes \<times> ecx_contextt) option" where
  "ec_FPRD ADP ADO len data timeout = on_port_data (ecx_FPRD ADP ADO len data timeout)"

definition ec_FPRDw ::
  "u16 \<Rightarrow> u16 \<Rightarrow> int \<Rightarrow> ecx_contextt \<Rightarrow> (u16 \<times> ecx_contextt) option" where
  "ec_FPRDw ADP ADO timeout c =
     do { (_, w, c) \<leftarrow> ec_FPRD ADP ADO 2 (le_bytes 2 (0 :: u16)) timeout c; Some (le_word w, c) }"

definition ec_APWR ::
  "u16 \<Rightarrow> u16 \<Rightarrow> u16 \<Rightarrow> bytes \<Rightarrow> int \<Rightarrow> ecx_contextt \<Rightarrow> (int \<times> ecx_contextt) option" where
  "ec_APWR ADP ADO len data timeout = on_port (ecx_APWR ADP ADO len data timeout)"

definition ec_APWRw ::
  "u16 \<Rightarrow> u16 \<Rightarrow> u16 \<Rightarrow> int \<Rightarrow> ecx_contextt \<Rightarrow> (int \<times> ecx_contextt) option" where
  "ec_APWRw ADP ADO data timeout = ec_APWR ADP ADO 2 (le_bytes 2 data) timeout"

definition ec_FPWR ::
  "u16 \<Rightarrow> u16 \<Rightarrow> u16 \<Rightarrow> bytes \<Rightarrow> int \<Rightarrow> ecx_contextt \<Rightarrow> (int \<times> ecx_contextt) option" where
  "ec_FPWR ADP ADO len data timeout = on_port (ecx_FPWR ADP ADO len data timeout)"

definition ec_FPWRw ::
  "u16 \<Rightarrow> u16 \<Rightarrow> u16 \<Rightarrow> int \<Rightarrow> ecx_contextt \<Rightarrow> (int \<times> ecx_contextt) option" where
  "ec_FPWRw ADP ADO data timeout = ec_FPWR ADP ADO 2 (le_bytes 2 data) timeout"

definition ec_LRW ::
  "u32 \<Rightarrow> u16 \<Rightarrow> bytes \<Rightarrow> int \<Rightarrow> ecx_contextt \<Rightarrow> (int \<times> bytes \<times> ecx_contextt) option" where
  "ec_LRW LogAdr len data timeout = on_port_data (ecx_LRW LogAdr len data timeout)"

definition ec_LRD ::
  "u32 \<Rightarrow> u16 \<Rightarrow> bytes \<Rightarrow> int \<Rightarrow> ecx_contextt \<Rightarrow> (int \<times> bytes \<times> ecx_contextt) option" where
  "ec_LRD LogAdr len data timeout = on_port_data (ecx_LRD LogAdr len data timeout)"

definition ec_LWR ::
  "u32 \<Rightarrow> u16 \<Rightarrow> bytes \<Rightarrow> int \<Rightarrow> ecx_contextt \<Rightarrow> (int \<times> ecx_contextt) option" where
  "ec_LWR LogAdr len data timeout = on_port (ecx_LWR LogAdr len data timeout)"

definition ec_LRWDC ::
  "u32 \<Rightarrow> u16 \<Rightarrow> bytes \<Rightarrow> u16 \<Rightarrow> u64 \<Rightarrow> int \<Rightarrow> ecx_contextt \<Rightarrow> (int \<times> bytes \<times> u64 \<times> ecx_contextt) option" where
  "ec_LRWDC LogAdr len data DCrs dct timeout c = do {
     (w, d, t, p) \<leftarrow> ecx_LRWDC LogAdr len data DCrs dct timeout (port c);
     Some (w, d, t, c\<lparr>port := p\<rparr>) }"

section \<open>Master services\<close>

definition ec_pusherror :: "ec_errort \<Rightarrow> ecx_contextt \<Rightarrow> ecx_contextt option" where
  "ec_pusherror Ec = ecx_pusherror Ec"

definition ec_poperror ::
  "ecx_contextt \<Rightarrow> (bool \<times> ec_errort \<times> ecx_contextt) option" where
  "ec_poperror = ecx_poperror"

definition ec_iserror :: "ecx_contextt \<Rightarrow> bool" where
  "ec_iserror = ecx_iserror"

definition ec_packeterror ::
  "u16 \<Rightarrow> u16 \<Rightarrow> byte \<Rightarrow> u16 \<Rightarrow> ecx_contextt \<Rightarrow> ecx_contextt option" where
  "ec_packeterror slave idx subidx code = ecx_packeterror slave idx subidx code"

definition ec_init ::
  "string \<Rightarrow> ecx_contextt \<Rightarrow> (int \<times> ecx_contextt) option" where
  "ec_init ifname = ecx_init ifname"

definition ec_init_redundant ::
  "ec_rxside \<Rightarrow> string \<Rightarrow> string \<Rightarrow> ecx_contextt \<Rightarrow> (int \<times> ecx_contextt) option" where
  "ec_init_redundant red ifname if2name = ecx_init_redundant red ifname if2name"

definition ec_close :: "ecx_contextt \<Rightarrow> ecx_contextt" where
  "ec_close = ecx_close"

definition ec_siigetbyte ::
  "u16 \<Rightarrow> u16 \<Rightarrow> ecx_contextt \<Rightarrow> (byte \<times> ecx_contextt) option" where
  "ec_siigetbyte slave address = ecx_siigetbyte slave address"

definition ec_siifind ::
  "u16 \<Rightarrow> u16 \<Rightarrow> ecx_contextt \<Rightarrow> (u16 \<times> ecx_contextt) option" where
  "ec_siifind slave cat = ecx_siifind slave cat"

definition ec_siistring ::
  "bytes \<Rightarrow> u16 \<Rightarrow> u16 \<Rightarrow> ecx_contextt \<Rightarrow> (bytes \<times> ecx_contextt) option" where
  "ec_siistring str slave Sn = ecx_siistring str slave Sn"

definition ec_siiFMMU ::
  "u16 \<Rightarrow> ec_eepromFMMUt \<Rightarrow> ecx_contextt \<Rightarrow> (u16 \<times> ec_eepromFMMUt \<times> ecx_contextt) option" where
  "ec_siiFMMU slave fm = ecx_siiFMMU slave fm"

definition ec_siiSM ::
  "u16 \<Rightarrow> ec_eepromSMt \<Rightarrow> ecx_contextt \<Rightarrow> (u16 \<times> ec_eepromSMt \<times> ecx_contextt) option" where
  "ec_siiSM slave sm = ecx_siiSM slave sm"

definition ec_siiSMnext ::
  "u16 \<Rightarrow> ec_eepromSMt \<Rightarrow> u16 \<Rightarrow> ecx_contextt \<Rightarrow> (u16 \<times> ec_eepromSMt \<times> ecx_contextt) option" where
  "ec_siiSMnext slave sm n = ecx_siiSMnext slave sm n"

definition ec_siiPDO ::
  "u16 \<Rightarrow> ec_eepromPDOt \<Rightarrow> byte \<Rightarrow> ecx_contextt \<Rightarrow> (u32 \<times> ec_eepromPDOt \<times> ecx_contextt) option" where
  "ec_siiPDO slave pdo t = ecx_siiPDO slave pdo t"

definition ec_readstate :: "ecx_contextt \<Rightarrow> (u16 \<times> ecx_contextt) option" where
  "ec_readstate = ecx_readstate"

definition ec_writestate ::
  "u16 \<Rightarrow> ecx_contextt \<Rightarrow> (int \<times> ecx_contextt) option" where
  "ec_writestate slave = ecx_writestate slave"

definition ec_statecheck ::
  "u16 \<Rightarrow> u16 \<Rightarrow> int \<Rightarrow> ecx_contextt \<Rightarrow> (u16 \<times> ecx_contextt) option" where
  "ec_statecheck slave reqstate timeout = ecx_statecheck slave reqstate timeout"

definition ec_mbxempty ::
  "u16 \<Rightarrow> int \<Rightarrow> ecx_contextt \<Rightarrow> (int \<times> ecx_contextt) option" where
  "ec_mbxempty slave timeout = ecx_mbxempty slave timeout"

definition ec_mbxsend ::
  "u16 \<Rightarrow> bytes \<Rightarrow> int \<Rightarrow> ecx_contextt \<Rightarrow> (int \<times> ecx_contextt) option" where
  "ec_mbxsend slave mbx timeout = ecx_mbxsend slave mbx timeout"

definition ec_mbxreceive ::
  "u16 \<Rightarrow> bytes \<Rightarrow> int \<Rightarrow> ecx_contextt \<Rightarrow> (int \<times> bytes \<times> ecx_contextt) option" where
  "ec_mbxreceive slave mbx timeout = ecx_mbxreceive slave mbx timeout"

definition ec_esidump ::
  "u16 \<Rightarrow> bytes \<Rightarrow> ecx_contextt \<Rightarrow> (bytes \<times> ecx_contextt) option" where
  "ec_esidump slave buf = ecx_esidump slave buf"

definition ec_readeeprom ::
  "u16 \<Rightarrow> u16 \<Rightarrow> int \<Rightarrow> ecx_contextt \<Rightarrow> (u32 \<times> ecx_contextt) option" where
  "ec_readeeprom slave eeproma timeout = ecx_readeeprom slave eeproma timeout"

definition ec_writeeeprom ::
  "u16 \<Rightarrow> u16 \<Rightarrow> u16 \<Rightarrow> int \<Rightarrow> ecx_contextt \<Rightarrow> (int \<times> ecx_contextt) option" where
  "ec_writeeeprom slave eeproma data timeout = ecx_writeeeprom slave eeproma data timeout"

definition ec_eeprom2master ::
  "u16 \<Rightarrow> ecx_contextt \<Rightarrow> (int \<times> ecx_contextt) option" where
  "ec_eeprom2master slave = ecx_eeprom2master slave"

definition ec_eeprom2pdi ::
  "u16 \<Rightarrow> ecx_contextt \<Rightarrow> (int \<times> ecx_contextt) option" where
  "ec_eeprom2pdi slave = ecx_eeprom2pdi slave"

definition ec_eeprom_waitnotbusyAP ::
  "u16 \<Rightarrow> int \<Rightarrow> ecx_contextt \<Rightarrow> (bool \<times> u16 \<times> ecx_contextt) option" where
  "ec_eeprom_waitnotbusyAP aiadr timeout = ecx_eeprom_waitnotbusyAP aiadr timeout"

definition ec_readeepromAP ::
  "u16 \<Rightarrow> u16 \<Rightarrow> int \<Rightarrow> ecx_contextt \<Rightarrow> (u64 \<times> ecx_contextt) option" where
  "ec_readeepromAP aiadr eeproma timeout = ecx_readeepromAP aiadr eeproma timeout"

definition ec_writeeepromAP ::
  "u16 \<Rightarrow> u16 \<Rightarrow> u16 \<Rightarrow> int \<Rightarrow> ecx_contextt \<Rightarrow> (int \<times> ecx_contextt) option" where
  "ec_writeeepromAP aiadr eeproma data timeout = ecx_writeeepromAP aiadr eeproma data timeout"

definition ec_eeprom_waitnotbusyFP ::
  "u16 \<Rightarrow> int \<Rightarrow> ecx_contextt \<Rightarrow> (bool \<times> u16 \<times> ecx_contextt) option" where
  "ec_eeprom_waitnotbusyFP cadr timeout = ecx_eeprom_waitnotbusyFP cadr timeout"

definition ec_readeepromFP ::
  "u16 \<Rightarrow> u16 \<Rightarrow> int \<Rightarrow> ecx_contextt \<Rightarrow> (u64 \<times> ecx_contextt) option" where
  "ec_readeepromFP cadr eeproma timeout = ecx_readeepromFP cadr eeproma timeout"

definition ec_writeeepromFP ::
  "u16 \<Rightarrow> u16 \<Rightarrow> u16 \<Rightarrow> int \<Rightarrow> ecx_contextt \<Rightarrow> (int \<times> ecx_contextt) option" where
  "ec_writeeepromFP cadr eeproma data timeout = ecx_writeeepromFP cadr eeproma data timeout"

definition ec_readeeprom1 ::
  "u16 \<Rightarrow> u16 \<Rightarrow> ecx_contextt \<Rightarrow> ecx_contextt option" where
  "ec_readeeprom1 slave eeproma = ecx_readeeprom1 slave eeproma"

definition ec_readeeprom2 ::
  "u16 \<Rightarrow> int \<Rightarrow> ecx_contextt \<Rightarrow> (u32 \<times> ecx_contextt) option" where
  "ec_readeeprom2 slave timeout = ecx_readeeprom2 slave timeout"

definition ec_send_processdata_group ::
  "byte \<Rightarrow> ecx_contextt \<Rightarrow> (int \<times> ecx_contextt) option" where
  "ec_send_processdata_group gr = ecx_send_processdata_group gr"

definition ec_send_overlap_processdata_group ::
  "byte \<Rightarrow> ecx_contextt \<Rightarrow> (int \<times> ecx_contextt) option" where
  "ec_send_overlap_processdata_group gr = ecx_send_overlap_processdata_group gr"

definition ec_receive_processdata_group ::
  "byte \<Rightarrow> int \<Rightarrow> ecx_contextt \<Rightarrow> (int \<times> ecx_contextt) option" where
  "ec_receive_processdata_group gr timeout = ecx_receive_processdata_group gr timeout"

definition ec_send_processdata :: "ecx_contextt \<Rightarrow> (int \<times> ecx_contextt) option" where
  "ec_send_processdata = ec_send_processdata_group 0"

definition ec_send_overlap_processdata ::
  "ecx_contextt \<Rightarrow> (int \<times> ecx_contextt) option" where
  "ec_send_overlap_processdata = ec_send_overlap_processdata_group 0"

definition ec_receive_processdata ::
  "int \<Rightarrow> ecx_contextt \<Rightarrow> (int \<times> ecx_contextt) option" where
  "ec_receive_processdata timeout = ec_receive_processdata_group 0 timeout"

section \<open>Configuration\<close>

definition ec_config_init ::
  "byte \<Rightarrow> ecx_contextt \<Rightarrow> (int \<times> ecx_contextt) option" where
  "ec_config_init usetable = ecx_config_init usetable"

definition ec_config_map_group ::
  "config_hook \<Rightarrow> config_hook \<Rightarrow> nat \<Rightarrow> byte \<Rightarrow> ecx_contextt \<Rightarrow> (u32 \<times> ecx_contextt) option" where
  "ec_config_map_group so sox pIOmap gr = ecx_config_map_group so sox pIOmap gr"

definition ec_config_overlap_map_group ::
  "config_hook \<Rightarrow> config_hook \<Rightarrow> nat \<Rightarrow> byte \<Rightarrow> ecx_contextt \<Rightarrow> (u32 \<times> ecx_contextt) option" where
  "ec_config_overlap_map_group so sox pIOmap gr = ecx_config_overlap_map_group so sox pIOmap gr"

definition ec_config_map_group_aligned ::
  "config_hook \<Rightarrow> config_hook \<Rightarrow> nat \<Rightarrow> byte \<Rightarrow> ecx_contextt \<Rightarrow> (u32 \<times> ecx_contextt) option" where
  "ec_config_map_group_aligned so sox pIOmap gr = ecx_config_map_group_aligned so sox pIOmap gr"

definition ec_config_map ::
  "config_hook \<Rightarrow> config_hook \<Rightarrow> nat \<Rightarrow> ecx_contextt \<Rightarrow> (u32 \<times> ecx_contextt) option" where
  "ec_config_map so sox pIOmap = ec_config_map_group so sox pIOmap 0"

definition ec_config_overlap_map ::
  "config_hook \<Rightarrow> config_hook \<Rightarrow> nat \<Rightarrow> ecx_contextt \<Rightarrow> (u32 \<times> ecx_contextt) option" where
  "ec_config_overlap_map so sox pIOmap = ec_config_overlap_map_group so sox pIOmap 0"

definition ec_config_map_aligned ::
  "config_hook \<Rightarrow> config_hook \<Rightarrow> nat \<Rightarrow> ecx_contextt \<Rightarrow> (u32 \<times> ecx_contextt) option" where
  "ec_config_map_aligned so sox pIOmap = ec_config_map_group_aligned so sox pIOmap 0"

definition ec_config ::
  "config_hook \<Rightarrow> config_hook \<Rightarrow> byte \<Rightarrow> nat \<Rightarrow> ecx_contextt \<Rightarrow> (int \<times> ecx_contextt) option" where
  "ec_config so sox usetable pIOmap c = do {
     (w, c) \<leftarrow> ec_config_init usetable c;
     if w \<noteq> 0 then do { (_, c) \<leftarrow> ec_config_map so sox pIOmap c; Some (w, c) } else Some (w, c) }"

definition ec_config_overlap ::
  "config_hook \<Rightarrow> config_hook \<Rightarrow> byte \<Rightarrow> nat \<Rightarrow> ecx_contextt \<Rightarrow> (int \<times> ecx_contextt) option" where
  "ec_config_overlap so sox usetable pIOmap c = do {
     (w, c) \<leftarrow> ec_config_init usetable c;
     if w \<noteq> 0 then do { (_, c) \<leftarrow> ec_config_overlap_map so sox pIOmap c; Some (w, c) } else Some (w, c) }"

definition ec_recover_slave ::
  "u16 \<Rightarrow> int \<Rightarrow> ecx_contextt \<Rightarrow> (int \<times> ecx_contextt) option" where
  "ec_recover_slave slave timeout = ecx_recover_slave slave timeout"

definition ec_reconfig_slave ::
  "config_hook \<Rightarrow> config_hook \<Rightarrow> u16 \<Rightarrow> int \<Rightarrow> ecx_contextt \<Rightarrow> (u16 \<times> ecx_contextt) option" where
  "ec_reconfig_slave so sox slave timeout = ecx_reconfig_slave so sox slave timeout"

section \<open>CoE\<close>

definition ec_SDOerror ::
  "u16 \<Rightarrow> u16 \<Rightarrow> byte \<Rightarrow> u32 \<Rightarrow> ecx_contextt \<Rightarrow> ecx_contextt option" where
  "ec_SDOerror slave idx subidx code = ecx_SDOerror slave idx subidx code"

definition ec_SDOread ::
  "u16 \<Rightarrow> u16 \<Rightarrow> byte \<Rightarrow> bool \<Rightarrow> int \<Rightarrow> bytes \<Rightarrow> int \<Rightarrow> ecx_contextt \<Rightarrow> (int \<times> int \<times> bytes \<times> ecx_contextt) option" where
  "ec_SDOread slave idx subidx CA psize p timeout = ecx_SDOread slave idx subidx CA psize p timeout"

definition ec_SDOwrite ::
  "u16 \<Rightarrow> u16 \<Rightarrow> byte \<Rightarrow> bool \<Rightarrow> int \<Rightarrow> bytes \<Rightarrow> int \<Rightarrow> ecx_contextt \<Rightarrow> (int \<times> ecx_contextt) option" where
  "ec_SDOwrite slave idx subidx CA psize p timeout = ecx_SDOwrite slave idx subidx CA psize p timeout"

definition ec_RxPDO ::
  "u16 \<Rightarrow> u16 \<Rightarrow> int \<Rightarrow> bytes \<Rightarrow> ecx_contextt \<Rightarrow> (int \<times> ecx_contextt) option" where
  "ec_RxPDO slave nr psize p = ecx_RxPDO slave nr psize p"

definition ec_TxPDO ::
  "u16 \<Rightarrow> u16 \<Rightarrow> int \<Rightarrow> bytes \<Rightarrow> int \<Rightarrow> ecx_contextt \<Rightarrow> (int \<times> int \<times> bytes \<times> ecx_contextt) option" where
  "ec_TxPDO slave nr psize p timeout = ecx_TxPDO slave nr psize p timeout"

definition ec_readPDOassign ::
  "u16 \<Rightarrow> u16 \<Rightarrow> ecx_contextt \<Rightarrow> (u32 \<times> ecx_contextt) option" where
  "ec_readPDOassign slave pa = ecx_readPDOassign slave pa"

definition ec_readPDOassignCA ::
  "u16 \<Rightarrow> u16 \<Rightarrow> nat \<Rightarrow> ecx_contextt \<Rightarrow> (u32 \<times> ecx_contextt) option" where
  "ec_readPDOassignCA slave pa thread_n = ecx_readPDOassignCA slave thread_n pa"

definition ec_readPDOmap ::
  "u16 \<Rightarrow> ecx_contextt \<Rightarrow> (int \<times> u32 \<times> u32 \<times> ecx_contextt) option" where
  "ec_readPDOmap slave = ecx_readPDOmap slave"

definition ec_readPDOmapCA ::
  "u16 \<Rightarrow> nat \<Rightarrow> ecx_contextt \<Rightarrow> (int \<times> u32 \<times> u32 \<times> ecx_contextt) option" where
  "ec_readPDOmapCA slave thread_n = ecx_readPDOmapCA slave thread_n"

definition ec_readODlist ::
  "u16 \<Rightarrow> ec_ODlistt \<Rightarrow> ecx_contextt \<Rightarrow> (int \<times> ec_ODlistt \<times> ecx_contextt) option" where
  "ec_readODlist slave od = ecx_readODlist slave od"

definition ec_readODdescription ::
  "u16 \<Rightarrow> ec_ODlistt \<Rightarrow> ecx_contextt \<Rightarrow> (int \<times> ec_ODlistt \<times> ecx_contextt) option" where
  "ec_readODdescription item od = ecx_readODdescription item od"

definition ec_readOEsingle ::
  "u16 \<Rightarrow> byte \<Rightarrow> ec_ODlistt \<Rightarrow> ec_OElistt \<Rightarrow> ecx_contextt \<Rightarrow> (int \<times> ec_OElistt \<times> ecx_contextt) option" where
  "ec_readOEsingle item subi od oe = ecx_readOEsingle item subi od oe"

definition ec_readOE ::
  "u16 \<Rightarrow> ec_ODlistt \<Rightarrow> ec_OElistt \<Rightarrow> ecx_contextt \<Rightarrow> (int \<times> ec_OElistt \<times> ecx_contextt) option" where
  "ec_readOE item od oe = ecx_readOE item od oe"

section \<open>Distributed clocks\<close>

definition ec_dcsync0 ::
  "u16 \<Rightarrow> bool \<Rightarrow> u32 \<Rightarrow> u32 \<Rightarrow> ecx_contextt \<Rightarrow> ecx_contextt option" where
  "ec_dcsync0 slave act cycl shift = ecx_dcsync0 slave act cycl shift"

definition ec_dcsync01 ::
  "u16 \<Rightarrow> bool \<Rightarrow> u32 \<Rightarrow> u32 \<Rightarrow> u32 \<Rightarrow> ecx_contextt \<Rightarrow> ecx_contextt option" where
  "ec_dcsync01 slave act cycl0 cycl1 shift = ecx_dcsync01 slave act cycl0 cycl1 shift"

definition ec_configdc :: "ecx_contextt \<Rightarrow> (bool \<times> ecx_contextt) option" where
  "ec_configdc = ecx_configdc"

section \<open>FoE\<close>

definition ec_FOEdefinehook ::
  "(u16 \<Rightarrow> int \<Rightarrow> int \<Rightarrow> int) option \<Rightarrow> ecx_contextt \<Rightarrow> int \<times> ecx_contextt" where
  "ec_FOEdefinehook hook = ecx_FOEdefinehook hook"

definition ec_FOEread ::
  "u16 \<Rightarrow> bytes \<Rightarrow> u32 \<Rightarrow> int \<Rightarrow> bytes \<Rightarrow> int \<Rightarrow> ecx_contextt \<Rightarrow> (int \<times> int \<times> bytes \<times> ecx_contextt) option" where
  "ec_FOEread slave filename password psize p timeout = ecx_FOEread slave filename password psize p timeout"

definition ec_FOEwrite ::
  "u16 \<Rightarrow> bytes \<Rightarrow> u32 \<Rightarrow> int \<Rightarrow> bytes \<Rightarrow> int \<Rightarrow> ecx_contextt \<Rightarrow> (int \<times> ecx_contextt) option" where
  "ec_FOEwrite slave filename password psize p timeout = ecx_FOEwrite slave filename password psize p timeout"

section \<open>SoE\<close>

definition ec_SoEread ::
  "u16 \<Rightarrow> byte \<Rightarrow> byte \<Rightarrow> u16 \<Rightarrow> int \<Rightarrow> bytes \<Rightarrow> int \<Rightarrow> ecx_contextt \<Rightarrow> (int \<times> int \<times> bytes \<times> ecx_contextt) option" where
  "ec_SoEread slave driveNo elementflags idn psize p timeout =
     ecx_SoEread slave driveNo elementflags idn psize p timeout"

definition ec_SoEwrite ::
  "u16 \<Rightarrow> byte \<Rightarrow> byte \<Rightarrow> u16 \<Rightarrow> int \<Rightarrow> bytes \<Rightarrow> int \<Rightarrow> ecx_contextt \<Rightarrow> (int \<times> ecx_contextt) option" where
  "ec_SoEwrite slave driveNo elementflags idn psize p timeout =
     ecx_SoEwrite slave driveNo elementflags idn psize p timeout"

definition ec_readIDNmap ::
  "u16 \<Rightarrow> ecx_contextt \<Rightarrow> (int \<times> u32 \<times> u32 \<times> ecx_contextt) option" where
  "ec_readIDNmap slave = ecx_readIDNmap slave"

definition ec_elist2string :: "ecx_contextt \<Rightarrow> (string \<times> ecx_contextt) option" where
  "ec_elist2string = ecx_elist2string"

declare ec_init_def [ec_api]
  ec_close_def [ec_api]
  ec_readstate_def [ec_api]
  ec_writestate_def [ec_api]
  ec_statecheck_def [ec_api]
  ec_send_processdata_group_def [ec_api]
  ec_receive_processdata_group_def [ec_api]
  ec_send_processdata_def [ec_api]
  ec_receive_processdata_def [ec_api]
  ec_config_init_def [ec_api]
  ec_config_map_group_def [ec_api]
  ec_config_map_def [ec_api]
  ec_config_def [ec_api]
  ec_recover_slave_def [ec_api]
  ec_reconfig_slave_def [ec_api]
  ec_configdc_def [ec_api]

end
