(* ===== verification/Hand_Loop.thy ===== *)
theory Hand_Loop
  imports Fk Ec_Api "HOL-Library.Signed_Division"
begin

text \<open>
  The hand side of the application (src/Ethercat_setting.cpp): the cyclic thread that exchanges
  process data and moves it between the process image and the shared memory, the supervising
  thread that brings slaves back to OPERATIONAL, and the start-up sequence. The global variables
  of the file are the record \<open>hand_sys\<close>; its field \<open>ec\<close> is the library's global context, on which
  the \<open>ec_\<close> functions of \<open>Ec_Api\<close> work.
\<close>

section \<open>State\<close>

abbreviation (input) NSEC_PER_SEC :: int where "NSEC_PER_SEC \<equiv> 1000000000"
abbreviation (input) EC_TIMEOUTMON :: int where "EC_TIMEOUTMON \<equiv> 500"
abbreviation (input) kHandNum :: nat where "kHandNum \<equiv> Hand_Num"
abbreviation (input) Hand_Data_Read_Byte_Num :: nat where "Hand_Data_Read_Byte_Num \<equiv> 256"
abbreviation (input) Hand_Data_Write_Byte_Num :: nat where "Hand_Data_Write_Byte_Num \<equiv> 64"

record timespec =
  tv_sec :: int
  tv_nsec :: int

text \<open>\<open>integral\<close> is the static variable of \<open>ec_sync\<close>; \<open>dorun\<close> is a C \<open>int\<close> that only counts up, so its
  32 bits are kept, and it wraps as compiled code does. Times and offsets are 64-bit in the code
  and far from their limits.\<close>

record hand_sys =
  ec :: ecx_contextt
  shm_msgs :: SHMmsgs
  kistar_rx :: "bytes list"
  kistar_tx :: "bytes list"
  ts :: timespec
  toff :: int
  integral :: int
  gl_delta :: int
  dorun :: u32
  wkc :: int
  expectedWKC :: int
  g_active_hand_num :: nat
  digout :: "nat option"
  needlf :: bool

section \<open>Time\<close>

definition add_timespec :: "timespec \<Rightarrow> int \<Rightarrow> timespec" where
  "add_timespec t addtime =
     (let nsec = addtime smod NSEC_PER_SEC;
          sec = (addtime - nsec) sdiv NSEC_PER_SEC;
          t = \<lparr>tv_sec = tv_sec t + sec, tv_nsec = tv_nsec t + nsec\<rparr>
      in if NSEC_PER_SEC < tv_nsec t
         then let nsec = tv_nsec t smod NSEC_PER_SEC
           in \<lparr>tv_sec = tv_sec t + (tv_nsec t - nsec) sdiv NSEC_PER_SEC, tv_nsec = nsec\<rparr>
         else t)"

text \<open>The first deadline: the next whole millisecond, left in \<open>tv_nsec\<close>.\<close>

definition first_deadline :: "timespec \<Rightarrow> timespec" where
  "first_deadline t = t\<lparr>tv_nsec := (tv_nsec t sdiv 1000000 + 1) * 1000000\<rparr>"

text \<open>The phase of the master's cycle against the slaves' clock and the correction; the new
  integral, the offset and the phase.\<close>

definition sync_delta :: "int \<Rightarrow> int \<Rightarrow> int" where
  "sync_delta reftime cycletime =
     (let delta = (reftime - 50000) smod cycletime
      in if cycletime sdiv 2 < delta then delta - cycletime else delta)"

definition ec_sync :: "int \<Rightarrow> int \<Rightarrow> int \<Rightarrow> int \<times> int \<times> int" where
  "ec_sync reftime cycletime integ =
     (let delta = sync_delta reftime cycletime;
          integ = (if 0 < delta then integ + 1 else integ);
          integ = (if delta < 0 then integ - 1 else integ)
      in (integ, - (delta sdiv 100) - integ sdiv 20, delta))"

section \<open>One hand\<close>

text \<open>Offsets in the unions \<open>Robot_Hand_Command\<close> and \<open>Robot_Hand_Data\<close>.\<close>

definition fill_command :: "SHMmsgs \<Rightarrow> nat \<Rightarrow> bytes \<Rightarrow> bytes option" where
  "fill_command m hand cmd = do {
     on \<leftarrow> aget (servo_on m) hand;
     cmd \<leftarrow> put16 cmd 0 (if on = 1 then 0xFFFF else 0x0000);
     md \<leftarrow> aget (hand_mode m) hand;
     cmd \<leftarrow> put16 cmd 2 (ucast md);
     tar \<leftarrow> aget (j_tar m) hand;
     for_each (\<lambda>i cmd. do { v \<leftarrow> aget tar i; put16 cmd (4 + 2 * i) v }) [0..<Hand_DOF] cmd }"

definition rx_field :: "bytes \<Rightarrow> nat \<Rightarrow> nat \<Rightarrow> u16 list" where
  "rx_field d off n = map (\<lambda>i. le_word (take 2 (drop (off + 2 * i) d))) [0..<n]"

definition take_data :: "nat \<Rightarrow> bytes \<Rightarrow> SHMmsgs \<Rightarrow> SHMmsgs" where
  "take_data hand d m = (let kin = rx_field d 68 12 in m\<lparr>
     j_pos := (j_pos m)[hand := rx_field d 4 Hand_DOF],
     j_cur := (j_cur m)[hand := rx_field d 36 Hand_DOF],
     j_kin := (j_kin m)[hand := map (\<lambda>i. map (\<lambda>j. kin ! (3 * i + j)) [0..<Kinesthetic_Sensor_DOF])
        [0..<Kinesthetic_Sensor_Num]],
     j_tac := (j_tac m)[hand := rx_field d 92 Tactile_Sensor_Num]\<rparr>)"

definition put_fk :: "nat \<Rightarrow> SHMmsgs \<Rightarrow> SHMmsgs" where
  "put_fk hand m = (let (p, q) = compute_hand_fk_from_joint_pos (j_pos m ! hand) in m\<lparr>
     tip_pos := (tip_pos m)[hand := p], tip_quat := (tip_quat m)[hand := q]\<rparr>)"

text \<open>The loop over the bytes writes \<open>ec_slave[0].outputs[tx_offset + i]\<close>.\<close>

definition hand_step :: "nat \<Rightarrow> hand_sys \<Rightarrow> hand_sys option" where
  "hand_step hand s = do {
     cmd \<leftarrow> aget (kistar_tx s) hand;
     cmd \<leftarrow> fill_command (shm_msgs s) hand cmd;
     txs \<leftarrow> aset (kistar_tx s) hand cmd;
     m \<leftarrow> slave_at 0 (ec s);
     out \<leftarrow> outputs m;
     io \<leftarrow> mem_write (iomap (ec s)) (out + hand * Hand_Data_Write_Byte_Num) cmd;
     inp \<leftarrow> inputs m;
     d \<leftarrow> mem_read io (inp + hand * Hand_Data_Read_Byte_Num) Hand_Data_Read_Byte_Num;
     rxs \<leftarrow> aset (kistar_rx s) hand d;
     Some (s\<lparr>ec := (ec s)\<lparr>iomap := io\<rparr>, kistar_tx := txs, kistar_rx := rxs,
       shm_msgs := put_fk hand (take_data hand d (shm_msgs s))\<rparr>) }"

section \<open>The cyclic thread\<close>

definition ecatthread_start :: "timespec \<Rightarrow> hand_sys \<Rightarrow> hand_sys option" where
  "ecatthread_start now s = do {
     (_, c) \<leftarrow> ec_send_processdata (ec s);
     Some (s\<lparr>ec := c, ts := first_deadline now, toff := 0, dorun := 0\<rparr>) }"

definition write_digout :: "hand_sys \<Rightarrow> hand_sys option" where
  "write_digout s = (case digout s of
     None \<Rightarrow> Some s
   | Some d \<Rightarrow> do {
       io \<leftarrow> put8 (iomap (ec s)) d (word_of_int (sint (dorun s) sdiv 16));
       Some (s\<lparr>ec := (ec s)\<lparr>iomap := io\<rparr>\<rparr>) })"

definition do_sync :: "int \<Rightarrow> hand_sys \<Rightarrow> hand_sys option" where
  "do_sync cycletime s = do {
     m \<leftarrow> slave_at 0 (ec s);
     Some (if hasdc m
       then let (i, off, d) = ec_sync (sint (DCtime (ec s))) cycletime (integral s)
         in s\<lparr>integral := i, toff := off, gl_delta := d\<rparr>
       else s) }"

definition ecat_cycle :: "int \<Rightarrow> hand_sys \<Rightarrow> hand_sys option" where
  "ecat_cycle cycletime s = (let s = s\<lparr>ts := add_timespec (ts s) (cycletime + toff s)\<rparr> in
     if 0 < sint (dorun s)
     then do {
       (w, c) \<leftarrow> ec_receive_processdata EC_TIMEOUTRET (ec s);
       let s = s\<lparr>ec := c, wkc := w, dorun := dorun s + 1\<rparr>;
       s \<leftarrow> for_each hand_step [0..<g_active_hand_num s] s;
       s \<leftarrow> write_digout s;
       s \<leftarrow> do_sync cycletime s;
       (_, c) \<leftarrow> ec_send_processdata (ec s);
       Some (s\<lparr>ec := c\<rparr>) }
     else Some s)"

section \<open>The supervising thread\<close>

text \<open>The application registers no configuration hook.\<close>

definition no_hook :: config_hook where
  "no_hook slave c = Some c"

definition set_docheck :: "bool \<Rightarrow> ecx_contextt \<Rightarrow> ecx_contextt option" where
  "set_docheck b c = upd_group 0 (\<lambda>g. g\<lparr>docheckstate := b\<rparr>) c"

definition check_state :: "nat \<Rightarrow> ecx_contextt \<Rightarrow> ecx_contextt option" where
  "check_state i c = do {
     let slave = of_nat i;
     s \<leftarrow> slave_at slave c;
     if group s = 0 \<and> state s \<noteq> EC_STATE_OPERATIONAL
     then do {
       c \<leftarrow> set_docheck True c;
       if state s = EC_STATE_SAFE_OP + EC_STATE_ERROR
       then do {
         c \<leftarrow> upd_slave slave (\<lambda>s. s\<lparr>state := EC_STATE_SAFE_OP + EC_STATE_ACK\<rparr>) c;
         (_, c) \<leftarrow> ec_writestate slave c;
         Some c }
       else if state s = EC_STATE_SAFE_OP
       then do {
         c \<leftarrow> upd_slave slave (\<lambda>s. s\<lparr>state := EC_STATE_OPERATIONAL\<rparr>) c;
         (_, c) \<leftarrow> ec_writestate slave c;
         Some c }
       else if EC_STATE_NONE < state s
       then do {
         (r, c) \<leftarrow> ec_reconfig_slave no_hook no_hook slave EC_TIMEOUTMON c;
         if r \<noteq> 0 then upd_slave slave (\<lambda>s. s\<lparr>islost := False\<rparr>) c else Some c }
       else if \<not> islost s
       then do {
         (_, c) \<leftarrow> ec_statecheck slave EC_STATE_OPERATIONAL EC_TIMEOUTRET c;
         s \<leftarrow> slave_at slave c;
         if state s = EC_STATE_NONE then upd_slave slave (\<lambda>s. s\<lparr>islost := True\<rparr>) c else Some c }
       else Some c }
     else Some c }"

definition check_lost :: "nat \<Rightarrow> ecx_contextt \<Rightarrow> ecx_contextt option" where
  "check_lost i c = do {
     let slave = of_nat i;
     s \<leftarrow> slave_at slave c;
     if islost s
     then if state s = EC_STATE_NONE
          then do {
            (r, c) \<leftarrow> ec_recover_slave slave EC_TIMEOUTMON c;
            if r \<noteq> 0 then upd_slave slave (\<lambda>s. s\<lparr>islost := False\<rparr>) c else Some c }
          else upd_slave slave (\<lambda>s. s\<lparr>islost := False\<rparr>) c
     else Some c }"

definition check_slave :: "nat \<Rightarrow> ecx_contextt \<Rightarrow> ecx_contextt option" where
  "check_slave i c = do { c \<leftarrow> check_state i c; check_lost i c }"

text \<open>One round of the supervising thread.\<close>

definition ecatcheck_round :: "hand_sys \<Rightarrow> hand_sys option" where
  "ecatcheck_round s = do {
     g \<leftarrow> group_at 0 (ec s);
     if wkc s < expectedWKC s \<or> docheckstate g
     then do {
       c \<leftarrow> set_docheck False (ec s);
       (_, c) \<leftarrow> ec_readstate c;
       c \<leftarrow> for_each check_slave (slaves_of c) c;
       Some (s\<lparr>ec := c_usleep 10000 c, needlf := False\<rparr>) }
     else Some (s\<lparr>ec := c_usleep 10000 (ec s)\<rparr>) }"

section \<open>Start-up\<close>

text \<open>The first slave with one of the two identities supplies the digital output.\<close>

definition find_digout :: "nat \<Rightarrow> hand_sys \<Rightarrow> hand_sys option" where
  "find_digout i s = do {
     v \<leftarrow> slave_at (of_nat i) (ec s);
     Some (if digout s = None \<and> (eep_id v = 0x0af83052 \<or> eep_id v = 0x07d83052)
       then s\<lparr>digout := outputs v\<rparr> else s) }"

definition active_hands :: "ec_slavet \<Rightarrow> nat" where
  "active_hands m =
     (let max_hands_by_output = unat (Obytes m) div Hand_Data_Write_Byte_Num;
          max_hands_by_input = unat (Ibytes m) div Hand_Data_Read_Byte_Num;
          max_hands_by_pdo = min max_hands_by_output max_hands_by_input
      in max 1 (min kHandNum max_hands_by_pdo))"

definition expected_wkc :: "ec_groupt \<Rightarrow> int" where
  "expected_wkc g = uint (outputsWKC g) * 2 + uint (inputsWKC g)"

text \<open>Up to the request for OPERATIONAL; the result says whether the bus was found and is running.\<close>

definition ethercat_start :: "string \<Rightarrow> hand_sys \<Rightarrow> (bool \<times> hand_sys) option" where
  "ethercat_start if_name s = do {
     let if_name = (if if_name = [] then ''enp5s0f0'' else if_name);
     (r, c) \<leftarrow> ec_init if_name (ec s);
     if r = 0 then Some (False, s\<lparr>ec := c\<rparr>)
     else do {
       (w, c) \<leftarrow> ec_config no_hook no_hook 0 0 c;
       if w \<le> 0 then Some (False, s\<lparr>ec := ec_close c\<rparr>)
       else do {
         (_, c) \<leftarrow> ec_configdc c;
         (_, c) \<leftarrow> ec_statecheck 0 EC_STATE_SAFE_OP EC_TIMEOUTSTATE c;
         (_, c) \<leftarrow> ec_readstate c;
         s \<leftarrow> for_each find_digout (slaves_of c) (s\<lparr>ec := c\<rparr>);
         m \<leftarrow> slave_at 0 (ec s);
         g \<leftarrow> group_at 0 (ec s);
         let s = s\<lparr>g_active_hand_num := active_hands m, expectedWKC := expected_wkc g\<rparr>;
         c \<leftarrow> upd_slave 0 (\<lambda>m. m\<lparr>state := EC_STATE_OPERATIONAL\<rparr>) (ec s);
         (_, c) \<leftarrow> ec_writestate 0 c;
         let s = s\<lparr>dorun := 1\<rparr>;
         (_, c) \<leftarrow> ec_statecheck 0 EC_STATE_OPERATIONAL (5 * EC_TIMEOUTSTATE) c;
         m \<leftarrow> slave_at 0 c;
         if state m = EC_STATE_OPERATIONAL
         then Some (True, s\<lparr>ec := c_usleep 20000 c\<rparr>)
         else do { (_, c) \<leftarrow> ec_readstate c; Some (True, s\<lparr>ec := c\<rparr>) } } } }"

text \<open>The end: the shared memory is released, the slaves are asked for SAFE_OP, the socket is closed.\<close>

definition ethercat_stop :: "hand_sys \<Rightarrow> hand_sys option" where
  "ethercat_stop s = do {
     c \<leftarrow> upd_slave 0 (\<lambda>m. m\<lparr>state := EC_STATE_SAFE_OP\<rparr>) (ec s);
     (_, c) \<leftarrow> ec_writestate 0 c;
     Some (s\<lparr>ec := ec_close c\<rparr>) }"

end
