(* ===== verification/Process_Props.thy ===== *)
theory Process_Props
  imports Process_Data
begin

text \<open>
  Properties of the process data exchange: every segment on the index stack is taken off, its index
  released and its data put where the segment came from and nowhere else; sending fills the stack.
\<close>

section \<open>Receiving\<close>

definition entry_fits :: "ecx_contextt \<Rightarrow> nat \<Rightarrow> bool" where
  "entry_fits c j \<longleftrightarrow> loaded (i_idx (idxstack c) ! j) (port c)
     \<and> i_data (idxstack c) ! j + unat (i_length (idxstack c) ! j) \<le> length (iomap c)
     \<and> unat (i_length (idxstack c) ! j) \<le> 1490 \<and> unat (dcoffset (idxstack c) ! j) \<le> 1510"

definition in_entry :: "ecx_contextt \<Rightarrow> nat \<Rightarrow> nat \<Rightarrow> bool" where
  "in_entry c j k \<longleftrightarrow> i_data (idxstack c) ! j \<le> k
     \<and> k < i_data (idxstack c) ! j + unat (i_length (idxstack c) ! j)"

text \<open>What stays the same while answers come in, and what may change in the process image.\<close>

definition receiving :: "ecx_contextt \<Rightarrow> ecx_contextt \<Rightarrow> bool" where
  "receiving c0 c \<longleftrightarrow> evolves c0 c \<and> txbuflength (port c) = txbuflength (port c0)
     \<and> pushed (idxstack c) = pushed (idxstack c0) \<and> pulled (idxstack c0) \<le> pulled (idxstack c)
     \<and> i_idx (idxstack c) = i_idx (idxstack c0) \<and> i_data (idxstack c) = i_data (idxstack c0)
     \<and> i_length (idxstack c) = i_length (idxstack c0) \<and> dcoffset (idxstack c) = dcoffset (idxstack c0)
     \<and> (\<forall>k < length (iomap c0). (\<forall>j. pulled (idxstack c0) \<le> j \<and> j < pushed (idxstack c0) \<longrightarrow> \<not> in_entry c0 j k)
          \<longrightarrow> iomap c ! k = iomap c0 ! k)"

lemma receiving_port:
  assumes "receiving c0 c" and "keeps (port c) p"
  shows "receiving c0 (c\<lparr>port := p\<rparr>)"
  using assms evolves_port [of c0 c p] keeps_steady [of "port c" p]
  by (auto simp: receiving_def keeps_def)

lemma entry_fits_receiving:
  "receiving c0 c \<Longrightarrow> entry_fits c j \<longleftrightarrow> entry_fits c0 j"
  by (auto simp: receiving_def entry_fits_def loaded_def evolves_def)

lemma nth_mem_write:
  "off + length xs \<le> length b \<Longrightarrow> k < length b \<Longrightarrow>
     (take off b @ xs @ drop (off + length xs) b) ! k
       = (if off \<le> k \<and> k < off + length xs then xs ! (k - off) else b ! k)"
  by (auto simp: nth_append min_def)

lemma receive_copy_wp:
  assumes r: "receiving c0 c" and j: "pulled (idxstack c0) \<le> j" "j < pushed (idxstack c0)"
    and f: "entry_fits c0 j" and b: "length b = EC_BUFSIZE"
    and Q: "\<And>d. receiving c0 d \<Longrightarrow> port d = port c \<Longrightarrow> idxstack d = idxstack c \<Longrightarrow> Q d"
  shows "ret (receive_copy (i_data (idxstack c0) ! j) (unat (i_length (idxstack c0) ! j)) b c) Q"
proof -
  let ?o = "i_data (idxstack c0) ! j" and ?n = "unat (i_length (idxstack c0) ! j)"
  have io: "length (iomap c) = length (iomap c0)" using r by (simp add: receiving_def evolves_def)
  have n: "?n \<le> 1490" "?o + ?n \<le> length (iomap c0)" using f by (simp_all add: entry_fits_def)
  let ?d = "take ?n (drop 12 b)"
  have len: "length ?d = ?n" using n b by simp
  let ?io = "take ?o (iomap c) @ ?d @ drop (?o + ?n) (iomap c)"
  have "receiving c0 (c\<lparr>iomap := ?io\<rparr>)"
  proof -
    have "evolves c0 (c\<lparr>iomap := ?io\<rparr>)"
      using r n io len by (intro evolves_parts(8)) (auto simp: receiving_def)
    moreover have "?io ! k = iomap c ! k" if "k < length (iomap c0)" "\<not> in_entry c0 j k" for k
      using that nth_mem_write [of ?o ?d "iomap c" k] n io len by (auto simp: in_entry_def)
    ultimately show ?thesis using r j by (auto simp: receiving_def)
  qed
  from Q [OF this] show ?thesis
    using n io b len by (simp add: receive_copy_def ret_mem_read ret_mem_write)
qed

lemma receive_dc_wp:
  assumes r: "receiving c0 c" and f: "entry_fits c0 j" and b: "length b = EC_BUFSIZE"
    and Q: "\<And>w d. receiving c0 d \<Longrightarrow> port d = port c \<Longrightarrow> idxstack d = idxstack c \<Longrightarrow> Q (w, d)"
  shows "ret (receive_dc (unat (i_length (idxstack c0) ! j)) (unat (dcoffset (idxstack c0) ! j)) b c) Q"
proof -
  have "receiving c0 (c\<lparr>DCtime := t\<rparr>)" for t
    using r evolves_parts(7) [of c0 c t] by (auto simp: receiving_def)
  then show ?thesis
    using f b Q by (simp add: receive_dc_def ret_mem_read entry_fits_def)
qed

lemma receive_one_wp:
  assumes r: "receiving c0 c" and j: "pulled (idxstack c0) \<le> j" "j < pushed (idxstack c0)"
    and f: "entry_fits c0 j" and i: "i = i_idx (idxstack c0) ! j"
    and Q: "\<And>w v d. receiving c0 d \<Longrightarrow> idxstack d = idxstack c \<Longrightarrow> Q (w, v, d)"
  shows "ret (receive_one j i wk (w, v, c)) Q"
proof -
  have ld: "unat i < EC_MAXBUF" using f by (simp add: entry_fits_def loaded_def i)
  have s: "side_ok (rx (port c))" using r by (auto simp: receiving_def evolves_def ctx_ok_def nic_inv_def)
  have len: "unat i < length (rxbuf (rx (port c)))" "length (rxbuf (rx (port c)) ! unat i) = EC_BUFSIZE"
    using side_ok_lengths [OF s] hdr_ok_length [OF side_ok_nth [OF s ld]] ld by simp_all
  have ok: "stack_ok (idxstack c0)" "stack_ok (idxstack c)"
    using r by (auto simp: receiving_def evolves_def ctx_ok_def stack_ok_def)
  have same: "i_data (idxstack c) = i_data (idxstack c0)" "i_length (idxstack c) = i_length (idxstack c0)"
    "dcoffset (idxstack c) = dcoffset (idxstack c0)"
    using r by (simp_all add: receiving_def)
  have j16: "j < 16" using j ok by (simp add: stack_ok_def)
  show ?thesis
    unfolding receive_one_def ret_step ret_aget ret_get8 ret_if same
    using len j16 ok
    apply (simp add: stack_ok_def split del: if_split)
    apply (auto simp: case_prod_unfold ret_if intro!: receive_copy_wp [OF r j f] receive_dc_wp [OF _ f] Q r)
    done
qed

text \<open>The loop: \<open>pos\<close> is the entry just pulled.\<close>

definition recv_inv :: "ecx_contextt \<Rightarrow> nat option \<times> int \<times> bool \<times> ecx_contextt \<Rightarrow> bool" where
  "recv_inv c0 = (\<lambda>(pos, w, v, c). receiving c0 c \<and> pulled (idxstack c) \<le> pushed (idxstack c0)
     \<and> (case pos of Some j \<Rightarrow> pulled (idxstack c) = Suc j \<and> pulled (idxstack c0) \<le> j
        | None \<Rightarrow> pulled (idxstack c) = pushed (idxstack c0)))"

definition recv_left :: "ecx_contextt \<Rightarrow> nat option \<times> int \<times> bool \<times> ecx_contextt \<Rightarrow> nat" where
  "recv_left c0 = (\<lambda>(pos, w, v, c). pushed (idxstack c0) - pulled (idxstack c) + (if pos = None then 0 else 1))"

lemma receiving_pull:
  assumes r: "receiving c0 c" and p: "pulled (idxstack c) \<le> pushed (idxstack c0)"
  shows "case ecx_pullindex c of (pos, d) \<Rightarrow> recv_inv c0 (pos, w, v, d)
     \<and> recv_left c0 (pos, w, v, d) \<le> pushed (idxstack c0) - pulled (idxstack c)"
proof (cases "pulled (idxstack c) < pushed (idxstack c)")
  case True
  let ?k = "(idxstack c)\<lparr>pulled := pulled (idxstack c) + 1\<rparr>"
  have "stack_ok ?k" using r True by (auto simp: receiving_def evolves_def ctx_ok_def stack_ok_def)
  then have "evolves c0 (c\<lparr>idxstack := ?k\<rparr>)"
    using r by (intro evolves_parts(6)) (simp_all add: receiving_def)
  then have "receiving c0 (c\<lparr>idxstack := ?k\<rparr>)" using r by (auto simp: receiving_def)
  then show ?thesis
    using True r by (auto simp: ecx_pullindex_def Let_def recv_inv_def recv_left_def receiving_def One_nat_def)
next
  case False
  then show ?thesis
    using r p by (auto simp: ecx_pullindex_def Let_def recv_inv_def recv_left_def receiving_def)
qed

lemma receive_step_wp:
  assumes i: "recv_inv c0 s" and pos: "fst s \<noteq> None"
    and fit: "\<And>j. pulled (idxstack c0) \<le> j \<Longrightarrow> j < pushed (idxstack c0) \<Longrightarrow> entry_fits c0 j"
  shows "ret (receive_step timeout s) (\<lambda>t. recv_inv c0 t \<and> recv_left c0 t < recv_left c0 s)"
proof -
  obtain j w v c where s: "s = (Some j, w, v, c)" using pos by (cases s) auto
  have r: "receiving c0 c" and j: "pulled (idxstack c0) \<le> j" "pulled (idxstack c) = Suc j"
    "j < pushed (idxstack c0)"
    using i by (auto simp: s recv_inv_def)
  let ?i = "i_idx (idxstack c0) ! j"
  have f: "entry_fits c0 j" using fit j by simp
  then have ld: "loaded ?i (port c)" using r by (simp add: entry_fits_def receiving_def loaded_def)
  have iu: "unat ?i < EC_MAXBUF" using ld by (simp add: loaded_def)
  have len: "j < length (i_idx (idxstack c))" "i_idx (idxstack c) = i_idx (idxstack c0)"
    using r j by (auto simp: receiving_def evolves_def ctx_ok_def stack_ok_def)
  have kp: "keeps (port c) (port c)" using r by (intro keeps_refl) (auto simp: receiving_def dest: evolves_inv)
  have fin: "ret (ecx_setbufstat ?i EC_BUF_EMPTY (port d)) (\<lambda>p. case ecx_pullindex (d\<lparr>port := p\<rparr>) of (pos, e) \<Rightarrow>
        recv_inv c0 (pos, w', v', e) \<and> recv_left c0 (pos, w', v', e) < recv_left c0 s)"
    if d: "receiving c0 d" "idxstack d = idxstack c" for d w' v'
  proof (rule ecx_setbufstat_wp [OF keeps_refl iu])
    show "nic_inv (port d)" using d by (auto simp: receiving_def dest: evolves_inv)
    fix q assume "keeps (port d) q"
    then have "receiving c0 (d\<lparr>port := q\<rparr>)" by (rule receiving_port [OF d(1)])
    from receiving_pull [OF this, of w' v'] d(2) j
    show "case ecx_pullindex (d\<lparr>port := q\<rparr>) of (pos, e) \<Rightarrow>
        recv_inv c0 (pos, w', v', e) \<and> recv_left c0 (pos, w', v', e) < recv_left c0 s"
      by (auto simp: s recv_left_def)
  qed simp
  show ?thesis
    unfolding receive_step_def s ret_step
    using len
    apply simp
    apply (rule on_port_wp, rule ecx_waitinframe_wp [OF kp ld])
    apply (simp only: ret_step ret_if)
    apply (drule receiving_port [OF r])
    apply (auto intro!: receive_one_wp [OF _ j(1,3) f refl] fin [unfolded s])
    subgoal for r q using fin [of "c\<lparr>port := q\<rparr>" w v] by (simp add: s)
    done
qed

lemma receive_frame:
  assumes ok: "ctx_ok c"
    and fit: "\<And>j. pulled (idxstack c) \<le> j \<Longrightarrow> j < pushed (idxstack c) \<Longrightarrow> entry_fits c j"
  shows "ret (ecx_receive_processdata_group grp timeout c) (\<lambda>(w, d). evolves c d
     \<and> pushed (idxstack d) = 0 \<and> pulled (idxstack d) = 0
     \<and> (\<forall>k < length (iomap c). (\<forall>j. pulled (idxstack c) \<le> j \<and> j < pushed (idxstack c) \<longrightarrow> \<not> in_entry c j k)
          \<longrightarrow> iomap d ! k = iomap c ! k))"
proof -
  have r: "receiving c c" and p: "pulled (idxstack c) \<le> pushed (idxstack c)"
    using ok by (auto simp: receiving_def ctx_ok_def stack_ok_def)
  obtain pos d where pd: "ecx_pullindex c = (pos, d)" by force
  have start: "recv_inv c (pos, 0, False, d)" using receiving_pull [OF r p, of 0 False] by (simp add: pd)
  have loop: "ret (while_do (\<lambda>(pos, _). pos \<noteq> None) (receive_step timeout) (pos, 0, False, d))
      (\<lambda>s. recv_inv c s)"
    by (rule while_do_ret [where I = "recv_inv c" and m = "recv_left c"])
      (use start receive_step_wp [OF _ _ fit] in auto)
  show ?thesis
    unfolding ecx_receive_processdata_group_def pd ret_step
  proof (rule ret_conseq [OF loop], goal_cases)
    case (1 s)
    obtain pos' w v e where s: "s = (pos', w, v, e)" by (cases s)
    have e: "receiving c e" using 1 by (auto simp: s recv_inv_def)
    have "stack_ok ((idxstack e)\<lparr>pushed := 0, pulled := 0\<rparr>)"
      using e by (auto simp: receiving_def evolves_def ctx_ok_def stack_ok_def)
    then have "evolves c (ecx_clearindex e)"
      unfolding ecx_clearindex_def using e by (intro evolves_parts(6)) (simp_all add: receiving_def)
    then show ?case using e by (auto simp: s ecx_clearindex_def receiving_def)
  qed
qed

text \<open> Receiving the process data returns on every well-formed master whose stack entries fit the
  process image: every entry is taken off and the stack is empty afterwards, the image keeps its size,
  and no byte outside the segments on the stack is written. \<close>

theorem receive_processdata_frame:
  assumes ok: "ctx_ok c"
    and fit: "\<And>j. pulled (idxstack c) \<le> j \<Longrightarrow> j < pushed (idxstack c) \<Longrightarrow> entry_fits c j"
  shows "ret (ecx_receive_processdata_group grp timeout c) (\<lambda>(w, d). evolves c d
     \<and> pushed (idxstack d) = 0 \<and> pulled (idxstack d) = 0
     \<and> (\<forall>k < length (iomap c). (\<forall>j. pulled (idxstack c) \<le> j \<and> j < pushed (idxstack c) \<longrightarrow> \<not> in_entry c j k)
          \<longrightarrow> iomap d ! k = iomap c ! k))"
  using ok fit by (rule receive_frame)

section \<open>Sending\<close>

text \<open>A group whose segments fit their frames and whose outputs, followed by the inputs, are in the
  process image.\<close>

definition seg_sum :: "ec_groupt \<Rightarrow> nat \<Rightarrow> nat" where
  "seg_sum g n = (\<Sum>k<n. unat (IOsegment g ! k))"

definition group_fits :: "ec_groupt \<Rightarrow> nat \<Rightarrow> ecx_contextt \<Rightarrow> bool" where
  "group_fits g data c \<longleftrightarrow> group_ok g \<and> 0 < nsegments g \<and> unat (nsegments g) \<le> EC_MAXBUF
     \<and> (\<forall>k < unat (nsegments g). 0 < unat (IOsegment g ! k) \<and> unat (IOsegment g ! k) \<le> 1466)
     \<and> data + seg_sum g (unat (nsegments g)) \<le> length (iomap c) \<and> unat (g_DCnext g) < EC_MAXSLAVE"

text \<open>Building a frame for one index leaves the frames of the others ready.\<close>

definition still_loaded :: "ecx_portt \<Rightarrow> ecx_portt \<Rightarrow> bool" where
  "still_loaded p q \<longleftrightarrow> (\<forall>i. loaded i p \<longrightarrow> loaded i q)"

lemma still_loaded_trans: "still_loaded p q \<Longrightarrow> still_loaded q r \<Longrightarrow> still_loaded p r"
  by (simp add: still_loaded_def)

lemma still_loaded_set:
  "sized n \<Longrightarrow> length (txbuflength p) = EC_MAXBUF \<Longrightarrow> txbuflength q = (txbuflength p)[k := n] \<Longrightarrow> still_loaded p q"
  by (cases "k < EC_MAXBUF") (auto simp: still_loaded_def loaded_def nth_list_update list_update_beyond)

lemma setupdatagram_loaded:
  assumes "unat n \<le> 1490" and "nic_inv p"
  shows "par (ecx_setupdatagram (TxBuf idx) com idx adp ado n data p) (still_loaded p)"
proof -
  have "sized (28 + unat n)" using assms(1) by (simp add: sized_def)
  then show ?thesis
    using inv_sizes(2) [OF assms(2)] still_loaded_set [of "28 + unat n" p _ "unat idx"]
    by (auto simp: ecx_setupdatagram_def par_def bind_eq_Some_conv set_frame_def)
qed

lemma adddatagram_loaded:
  assumes ld: "loaded idx p" and n: "txbuflength p ! unat idx + 12 + unat n \<le> EC_BUFSIZE" and inv: "nic_inv p"
  shows "par (ecx_adddatagram (TxBuf idx) com idx follows adp ado n data p) (\<lambda>(_, q). still_loaded p q)"
proof -
  let ?m = "txbuflength p ! unat idx"
  have m: "28 \<le> ?m" "?m < 65536" using ld n by (simp_all add: loaded_def sized_def)
  then have "sized (?m mod 65536 + 12 - 2 + 2 + unat n)" using n by (simp add: sized_def)
  then show ?thesis
    using inv_sizes(2) [OF inv] still_loaded_set [of "?m mod 65536 + 12 - 2 + 2 + unat n" p _ "unat idx"]
    by (auto simp: ecx_adddatagram_def par_def bind_eq_Some_conv set_frame_def Let_def split: if_splits)
qed

lemma getindex_loaded: "par (ecx_getindex p) (\<lambda>(_, q). still_loaded p q)"
proof -
  have stat: "par (ecx_setbufstat i v p) (\<lambda>q. txbuflength q = txbuflength p)" for i v
    by (cases "redstate p = ECT_RED_NONE") (auto simp: ecx_setbufstat_def par_def bind_eq_Some_conv Let_def)
  show ?thesis
    unfolding ecx_getindex_def par_simps
    by (rule parI, rule par_conseq [OF stat]) (auto simp: still_loaded_def loaded_def)
qed

lemma outframe_loaded:
  assumes "steady p0 p" and "loaded idx p" and Q: "\<And>r q. steady p0 q \<Longrightarrow> still_loaded p q \<Longrightarrow> Q (r, q)"
  shows "ret (ecx_outframe_red idx p) Q"
proof (rule ecx_outframe_red_wp [OF keeps_refl [OF steady_inv [OF assms(1)]] assms(2)])
  fix r q assume k: "keeps p q"
  then have "still_loaded p q" by (simp add: still_loaded_def keeps_loaded)
  with k show "Q (r, q)" using Q steady_keeps [OF assms(1)] by blast
qed

lemma pushindex_run:
  assumes "stack_ok (idxstack c)" and "pushed (idxstack c) < EC_MAXBUF"
  shows "ecx_pushindex idx data n DCO c = Some (c\<lparr>idxstack := (idxstack c)\<lparr>
     i_idx := (i_idx (idxstack c))[pushed (idxstack c) := idx],
     i_data := (i_data (idxstack c))[pushed (idxstack c) := data],
     i_length := (i_length (idxstack c))[pushed (idxstack c) := n],
     dcoffset := (dcoffset (idxstack c))[pushed (idxstack c) := DCO],
     pushed := pushed (idxstack c) + 1\<rparr>\<rparr>)"
  using assms by (simp add: ecx_pushindex_def Let_def stack_ok_def aset_def)

lemma stack_ok_push:
  assumes "stack_ok k" and "pushed k < EC_MAXBUF" and "unat idx < EC_MAXBUF"
  shows "stack_ok (k\<lparr>i_idx := (i_idx k)[pushed k := idx], i_data := (i_data k)[pushed k := data],
     i_length := (i_length k)[pushed k := n], dcoffset := (dcoffset k)[pushed k := DCO], pushed := pushed k + 1\<rparr>)"
  using assms set_update_subset_insert [of "i_idx k" "pushed k" idx] by (auto simp: stack_ok_def)

text \<open>What sending a segment adds to the stack.\<close>

definition pushed_entry :: "ecx_contextt \<Rightarrow> nat \<Rightarrow> u16 \<Rightarrow> ecx_contextt \<Rightarrow> bool" where
  "pushed_entry c dest n d \<longleftrightarrow> iomap d = iomap c \<and> still_loaded (port c) (port d)
     \<and> pushed (idxstack d) = pushed (idxstack c) + 1 \<and> pulled (idxstack d) = pulled (idxstack c)
     \<and> entry_fits d (pushed (idxstack c)) \<and> i_data (idxstack d) ! pushed (idxstack c) = dest
     \<and> i_length (idxstack d) ! pushed (idxstack c) = n
     \<and> (\<forall>j < pushed (idxstack c). i_idx (idxstack d) ! j = i_idx (idxstack c) ! j
          \<and> i_data (idxstack d) ! j = i_data (idxstack c) ! j \<and> i_length (idxstack d) ! j = i_length (idxstack c) ! j
          \<and> dcoffset (idxstack d) ! j = dcoffset (idxstack c) ! j)"

lemma push_segment:
  assumes k: "evolves c0 c" and p: "steady (port c) p" "still_loaded (port c) p" and ld: "loaded idx p"
    and d: "unat DCO \<le> 1510" and n: "unat n \<le> 1466" "dest + unat n \<le> length (iomap c)"
    and room: "pushed (idxstack c) < EC_MAXBUF"
  shows "ret (ecx_pushindex idx dest n DCO (c\<lparr>port := p\<rparr>)) (\<lambda>d. evolves c0 d \<and> pushed_entry c dest n d)"
proof -
  have ok: "stack_ok (idxstack c)" using k by (simp add: evolves_def ctx_ok_def)
  have i: "unat idx < EC_MAXBUF" using ld by (simp add: loaded_def)
  show ?thesis
    using evolves_parts(6) [OF evolves_port [OF k p(1)] stack_ok_push [OF ok room i]] ok room p ld d n
    by (simp add: pushindex_run) (auto simp: pushed_entry_def entry_fits_def stack_ok_def)
qed

lemma send_segment_wp:
  assumes k: "evolves c0 c" and n: "unat n \<le> 1466" "data + unat n \<le> length (iomap c)" "dest + unat n \<le> length (iomap c)"
    and dc: "unat (g_DCnext g) < EC_MAXSLAVE" and room: "pushed (idxstack c) < EC_MAXBUF"
  shows "ret (send_segment com g data dest n adr first c) (\<lambda>d. evolves c0 d \<and> pushed_entry c dest n d)"
proof -
  let ?P = "port c"
  have s: "steady ?P ?P" using evolves_inv [OF k] by (rule steady_refl)
  have get: "ret (ecx_getindex ?P) (\<lambda>(i, p). unat i < EC_MAXBUF \<and> steady ?P p \<and> still_loaded ?P p)"
    using ret_par [OF getindex_wp [OF s, where Q = "\<lambda>(i, p). unat i < EC_MAXBUF \<and> steady ?P p"] getindex_loaded]
    by (auto elim!: ret_conseq)
  have le: "unat n \<le> length (drop data (iomap c))" "unat n \<le> 1490" using n by simp_all
  have set: "ret (ecx_setupdatagram (TxBuf i) com i (LO_WORD adr) (HI_WORD adr) n (drop data (iomap c)) p)
      (\<lambda>q. steady ?P q \<and> still_loaded ?P q \<and> loaded i q \<and> txbuflength q ! unat i = 28 + unat n)"
    if "unat i < EC_MAXBUF" "steady ?P p" "still_loaded ?P p" for i p
    using ret_par [OF setupdatagram_wp [OF that(2,1), of n "drop data (iomap c)"
          "\<lambda>q. steady ?P q \<and> loaded i q \<and> txbuflength q ! unat i = 28 + unat n" com "LO_WORD adr" "HI_WORD adr"]
        setupdatagram_loaded [of n p i com "LO_WORD adr" "HI_WORD adr" "drop data (iomap c)"]]
      that le still_loaded_trans [OF that(3)] steady_inv [OF that(2)]
    by (auto elim!: ret_conseq)
  have add: "ret (ecx_adddatagram (TxBuf i) EC_CMD_FRMW i False a ECT_REG_DCSYSTIME 8 (le_bytes 8 (DCtime c)) p)
      (\<lambda>(off, q). steady ?P q \<and> still_loaded ?P q \<and> loaded i q \<and> unat off \<le> 1510)"
    if "steady ?P p" "still_loaded ?P p" "loaded i p" "txbuflength p ! unat i = 28 + unat n" for i p a
    using ret_par [OF adddatagram_wp [OF that(1,3), of 8 "le_bytes 8 (DCtime c)"
          "\<lambda>(off, q). steady ?P q \<and> loaded i q \<and> unat off \<le> 1510" EC_CMD_FRMW False a ECT_REG_DCSYSTIME]
        adddatagram_loaded [OF that(3), of 8 EC_CMD_FRMW False a ECT_REG_DCSYSTIME "le_bytes 8 (DCtime c)"]]
      that n still_loaded_trans [OF that(2)] steady_inv [OF that(1)]
    by (auto elim!: ret_conseq)
  have out: "ret (ecx_outframe_red i p) (\<lambda>(r, q).
      ret (ecx_pushindex i dest n off (c\<lparr>port := q\<rparr>)) (\<lambda>d. evolves c0 d \<and> pushed_entry c dest n d))"
    if "steady ?P p" "still_loaded ?P p" "loaded i p" "unat off \<le> 1510" for i p off
    by (rule outframe_loaded [OF that(1,3)])
      (use that n room push_segment [OF k] still_loaded_trans [OF that(2)] in \<open>auto simp: still_loaded_def\<close>)
  show ?thesis
    unfolding send_segment_def ret_step
    apply (rule ret_conseq [OF get], clarsimp)
    apply (rule ret_conseq [OF set], assumption+)
    apply (clarsimp simp: ret_if)
    apply (intro conjI impI)
     apply (rule slave_at_wp [OF k dc])
     apply (rule ret_conseq [OF add], assumption+)
     apply (auto simp: case_prod_unfold dest!: out)
    done
qed

text \<open>After \<open>n\<close> segments of an empty stack: as many entries, one after the other in the image.\<close>

definition sent_inv :: "ecx_contextt \<Rightarrow> ec_groupt \<Rightarrow> nat \<Rightarrow> nat \<Rightarrow> ecx_contextt \<Rightarrow> bool" where
  "sent_inv c0 g data n c \<longleftrightarrow> evolves c0 c \<and> iomap c = iomap c0
     \<and> pushed (idxstack c) = n \<and> pulled (idxstack c) = 0
     \<and> (\<forall>j < n. entry_fits c j \<and> i_data (idxstack c) ! j = data + seg_sum g j
          \<and> unat (i_length (idxstack c) ! j) = unat (IOsegment g ! j))"

lemma seg_sum_Suc: "seg_sum g (Suc n) = seg_sum g n + unat (IOsegment g ! n)"
  by (simp add: seg_sum_def)

lemma seg_sum_mono: "m \<le> n \<Longrightarrow> seg_sum g m \<le> seg_sum g n"
  unfolding seg_sum_def by (rule sum_mono2) auto

lemma sent_inv_push:
  assumes s: "sent_inv c0 g data n c" and k: "evolves c0 d" and p: "pushed_entry c (data + seg_sum g n) w d"
    and w: "unat w = unat (IOsegment g ! n)"
  shows "sent_inv c0 g data (Suc n) d"
proof -
  have io: "length (iomap d) = length (iomap c)" using p by (simp add: pushed_entry_def)
  have "entry_fits d j" if "j < n" for j
    using that s p io by (auto simp: sent_inv_def pushed_entry_def entry_fits_def still_loaded_def)
  then show ?thesis
    using s k p w by (auto simp: sent_inv_def pushed_entry_def less_Suc_eq One_nat_def)
qed

lemma send_lrw_loop:
  assumes g: "group_fits g data c0" and start: "sent_inv c0 g data 0 c"
    and len: "len = int (seg_sum g (unat (nsegments g)))"
  shows "ret (send_segments EC_CMD_LRW g lrw_sublength 0 (0, len, adr, data, first, c))
     (\<lambda>(_, _, _, _, _, d). sent_inv c0 g data (unat (nsegments g)) d)"
proof -
  let ?N = "unat (nsegments g)"
  let ?I = "\<lambda>(m, len, adr, o', first, c). m < ?N \<and> len = int (seg_sum g ?N - seg_sum g m)
      \<and> o' = data + seg_sum g m \<and> sent_inv c0 g data m c"
  show ?thesis
    unfolding send_segments_def
  proof (rule do_while_ret [where I = ?I and m = "\<lambda>(m, _). ?N - m"])
    show "?I (0, len, adr, data, first, c)"
      using g len start by (simp add: group_fits_def seg_sum_def word_less_nat_alt)
  next
    fix s :: "nat \<times> int \<times> u32 \<times> nat \<times> bool \<times> ecx_contextt"
    assume i: "?I s"
    obtain m len adr o' first c where s: "s = (m, len, adr, o', first, c)" by (cases s)
    have m: "m < ?N" "len = int (seg_sum g ?N - seg_sum g m)" "o' = data + seg_sum g m" and st: "sent_inv c0 g data m c"
      using i by (simp_all add: s)
    let ?seg = "IOsegment g ! m" and ?n = "ucast (IOsegment g ! m) :: u16"
    have seg: "0 < unat ?seg" "unat ?seg \<le> 1466" and N: "?N \<le> 16" "length (IOsegment g) = 64"
      using g m(1) by (simp_all add: group_fits_def group_ok_def)
    have n: "unat ?n = unat ?seg" using seg(2) by (simp add: unsigned_ucast_eq take_bit_nat_eq_self)
    have un: "uint ?n = int (unat ?seg)" using n unfolding uint_nat by simp
    have sums: "seg_sum g (Suc m) = seg_sum g m + unat ?seg" "seg_sum g (Suc m) \<le> seg_sum g ?N"
      using seg_sum_Suc seg_sum_mono [of "Suc m" ?N] m(1) by simp_all
    have io: "data + seg_sum g ?N \<le> length (iomap c0)" "length (iomap c) = length (iomap c0)"
      "unat (g_DCnext g) < EC_MAXSLAVE"
      using g st by (simp_all add: group_fits_def sent_inv_def)
    have k: "evolves c0 c" and room: "pushed (idxstack c) < EC_MAXBUF" using st m(1) N by (simp_all add: sent_inv_def)
    have seg_wp: "ret (send_segment EC_CMD_LRW g o' o' ?n adr first c) (\<lambda>d. sent_inv c0 g data (Suc m) d)"
      by (rule ret_conseq [OF send_segment_wp [OF k]])
        (use n seg sums io room m(3) sent_inv_push [OF st] in auto)
    have rest: "seg_sum g (Suc m) < seg_sum g ?N" if "Suc m < ?N"
      using that g seg_sum_Suc [of g "Suc m"] seg_sum_mono [of "Suc (Suc m)" ?N g]
      by (auto simp: group_fits_def)
    have left: "len - uint ?n = int (seg_sum g ?N - seg_sum g (Suc m))" "o' + unat ?n = data + seg_sum g (Suc m)"
      unfolding un m using sums n by simp_all
    show "ret (case s of (seg, len, LogAdr, data, first, c) \<Rightarrow> do {
          w \<leftarrow> aget (IOsegment g) seg;
          let n = lrw_sublength seg len w;
          c \<leftarrow> send_segment EC_CMD_LRW g data (data + 0) n LogAdr first c;
          Some (seg + 1, len - uint n, LogAdr + ucast n, data + unat n, False, c) })
        (\<lambda>s1. ret (case s1 of (seg, len, s) \<Rightarrow> Some (len \<noteq> 0 \<and> seg < ?N, seg, len, s))
          (\<lambda>(b, t). if b then ?I t \<and> (case t of (m, _) \<Rightarrow> ?N - m) < (case s of (m, _) \<Rightarrow> ?N - m)
             else (case t of (_, _, _, _, _, d) \<Rightarrow> sent_inv c0 g data ?N d)))"
      unfolding s ret_step ret_aget lrw_sublength_def
      apply (rule conjI)
      using m(1) N apply simp
      apply (simp only: add_0_right)
      apply (rule ret_conseq [OF seg_wp])
      unfolding Suc_eq_plus1 [symmetric] left
      subgoal for d
        using rest m(1) by (cases "Suc m < ?N"; cases "?N = Suc m") auto
      done
  qed
qed

lemma send_lrw:
  assumes ok: "ctx_ok c" and empty: "pushed (idxstack c) = 0" "pulled (idxstack c) = 0"
    and g: "group_at grp c = Some g" "g_blockLRW g = 0" "0 < g_Obytes g" "g_outputs g = Some data"
    and fits: "group_fits g data c"
    and len: "sint (g_Obytes g + g_Ibytes g) = int (seg_sum g (unat (nsegments g)))"
  shows "ret (ecx_send_processdata_group grp c) (\<lambda>(w, d). w = 1 \<and> sent_inv c g data (unat (nsegments g)) d)"
proof -
  have k: "evolves c c" using ok by (rule evolves_refl)
  have start: "sent_inv c g data 0 c" using k empty by (simp add: sent_inv_def)
  have "0 < seg_sum g (Suc 0)" "seg_sum g (Suc 0) \<le> seg_sum g (unat (nsegments g))"
    using fits seg_sum_Suc [of g 0] seg_sum_mono [of "Suc 0" "unat (nsegments g)" g]
    by (auto simp: group_fits_def word_less_nat_alt)
  then have "sint (g_Obytes g + g_Ibytes g) \<noteq> 0" using len by simp
  then have ne: "g_Obytes g + g_Ibytes g \<noteq> 0" by (metis sint_0)
  show ?thesis
    unfolding ecx_send_processdata_group_def ecx_main_send_processdata_def g(1) ret_step
    using ne g(2-4) len
    by (auto simp: ret_if intro!: ret_conseq [OF send_lrw_loop [OF fits start]])
qed


text \<open> C7: A full cycle, sending a group and receiving it again, returns on every well-formed master: the
  stack is empty again, so the next cycle starts like this one, and only the part of the process image
  that the segments cover may have changed. \<close>

theorem process_cycle:
  assumes ok: "ctx_ok c" and empty: "pushed (idxstack c) = 0" "pulled (idxstack c) = 0"
    and g: "group_at grp c = Some g" "g_blockLRW g = 0" "0 < g_Obytes g" "g_outputs g = Some data"
    and fits: "group_fits g data c"
    and len: "sint (g_Obytes g + g_Ibytes g) = int (seg_sum g (unat (nsegments g)))"
  shows "ret (ecx_send_processdata_group grp c) (\<lambda>(_, d). ret (ecx_receive_processdata_group grp timeout d)
     (\<lambda>(w, e). evolves c e \<and> pushed (idxstack e) = 0 \<and> pulled (idxstack e) = 0
        \<and> (\<forall>k < length (iomap c). (k < data \<or> data + seg_sum g (unat (nsegments g)) \<le> k) \<longrightarrow> iomap e ! k = iomap c ! k)))"
proof (rule ret_conseq [OF send_lrw [OF ok empty g fits len]], goal_cases)
  case (1 s)
  obtain w d where s: "s = (w, d)" by (cases s)
  let ?N = "unat (nsegments g)"
  have d: "sent_inv c g data ?N d" using 1 by (simp add: s)
  have io: "iomap d = iomap c" and N: "pushed (idxstack d) = ?N" and k: "evolves c d"
    using d by (simp_all add: sent_inv_def)
  have out: "\<not> in_entry d j k" if "j < ?N" "k < data \<or> data + seg_sum g ?N \<le> k" for j k
    using that d seg_sum_Suc [of g j] seg_sum_mono [of "Suc j" ?N g] by (auto simp: in_entry_def sent_inv_def)
  show ?case
    unfolding s prod.case
    by (rule ret_conseq [OF receive_frame [OF evolves_ok [OF k]]])
      (use d io N out evolves_trans [OF k] in \<open>auto simp: sent_inv_def\<close>)
qed

section \<open>Examples\<close>

definition demo_group :: ec_groupt where
  "demo_group = zero_group\<lparr>g_Obytes := 4, g_Ibytes := 4, g_outputs := Some 0, g_inputs := Some 4,
     nsegments := 1, IOsegment := 8 # replicate 63 0\<rparr>"

definition demo_cyclic :: ecx_contextt where
  "demo_cyclic = demo_master\<lparr>grouplist := [demo_group, zero_group]\<rparr>"

lemma demo_cyclic_ok: "ctx_ok demo_cyclic"
  using demo_master_ok by (auto simp: demo_cyclic_def ctx_ok_def maps_ok_def group_ok_def demo_group_def zero_group_def)

lemma demo_cyclic_group:
  "group_at 0 demo_cyclic = Some demo_group" "group_fits demo_group 0 demo_cyclic"
  "pushed (idxstack demo_cyclic) = 0" "pulled (idxstack demo_cyclic) = 0"
  "g_blockLRW demo_group = 0" "0 < g_Obytes demo_group" "g_outputs demo_group = Some 0"
  "sint (g_Obytes demo_group + g_Ibytes demo_group) = int (seg_sum demo_group (unat (nsegments demo_group)))"
  by (simp_all add: demo_cyclic_def group_at_def aget_def group_fits_def group_ok_def demo_group_def seg_sum_def
      zero_group_def demo_master_def ecx_context_def One_nat_def)

definition demo_pending :: ecx_contextt where
  "demo_pending = demo_master\<lparr>idxstack := (idxstack demo_master)\<lparr>pushed := 1, i_idx := replicate 16 1,
     i_length := replicate 16 8\<rparr>\<rparr>"

theorem receive_processdata_frame_witness:
  "ret (ecx_receive_processdata_group 0 2000 demo_pending) (\<lambda>(w, d). evolves demo_pending d
     \<and> pushed (idxstack d) = 0 \<and> pulled (idxstack d) = 0
     \<and> (\<forall>k < length (iomap demo_pending). (\<forall>j. pulled (idxstack demo_pending) \<le> j
            \<and> j < pushed (idxstack demo_pending) \<longrightarrow> \<not> in_entry demo_pending j k)
          \<longrightarrow> iomap d ! k = iomap demo_pending ! k))"
proof (rule receive_processdata_frame)
  show "ctx_ok demo_pending"
    using demo_master_ok
    by (auto simp: demo_pending_def ctx_ok_def maps_ok_def stack_ok_def demo_master_def ecx_context_def)
  fix j assume "pulled (idxstack demo_pending) \<le> j" "j < pushed (idxstack demo_pending)"
  then have "j = 0" by (simp add: demo_pending_def)
  then show "entry_fits demo_pending j"
    by (simp add: entry_fits_def demo_pending_def demo_master_def ecx_context_def loaded_def sized_def
        demo_port_def zero_port_def)
qed


theorem process_cycle_witness:
  "ret (ecx_send_processdata_group 0 demo_cyclic) (\<lambda>(_, d). ret (ecx_receive_processdata_group 0 2000 d)
     (\<lambda>(w, e). evolves demo_cyclic e \<and> pushed (idxstack e) = 0 \<and> pulled (idxstack e) = 0
        \<and> (\<forall>k < length (iomap demo_cyclic). (k < 0 \<or> 0 + seg_sum demo_group (unat (nsegments demo_group)) \<le> k)
             \<longrightarrow> iomap e ! k = iomap demo_cyclic ! k)))"
  by (rule process_cycle [OF demo_cyclic_ok demo_cyclic_group(3,4,1,5-7,2,8)])

end
