(* ===== verification/Hand_Props.thy ===== *)
theory Hand_Props
  imports Hand_Loop Process_Props Group_Props
begin

text \<open>
  What holds of the hand application: the arithmetic of its deadlines and of the clock
  correction, what a cycle copies where, and that the cyclic thread keeps running.
\<close>

section \<open>Deadlines\<close>

definition total_ns :: "timespec \<Rightarrow> int" where
  "total_ns t = tv_sec t * NSEC_PER_SEC + tv_nsec t"

lemma sdiv_pos: "0 \<le> a \<Longrightarrow> 0 < b \<Longrightarrow> a sdiv b = a div (b :: int)"
  by (simp add: signed_divide_int_def sgn_if)

lemma smod_pos: "0 \<le> a \<Longrightarrow> 0 < b \<Longrightarrow> a smod b = a mod (b :: int)"
  by (cases "a = 0") (simp_all add: signed_modulo_int_def)

lemma sdiv_rest: "0 \<le> a \<Longrightarrow> 0 < b \<Longrightarrow> (a - a mod b) sdiv b = a div (b :: int)"
proof -
  assume h: "0 \<le> a" "0 < b"
  then have "a - a mod b = b * (a div b)" "0 \<le> a div b" by (simp_all add: minus_mod_eq_mult_div pos_imp_zdiv_nonneg_iff)
  then show ?thesis using h by (simp add: sdiv_pos)
qed

lemma add_timespec_total:
  assumes "0 \<le> tv_nsec t" "0 \<le> d"
  shows "total_ns (add_timespec t d) = total_ns t + d" "0 \<le> tv_nsec (add_timespec t d)"
    "tv_nsec (add_timespec t d) \<le> NSEC_PER_SEC"
proof -
  let ?m = "\<lambda>x. x mod NSEC_PER_SEC" and ?q = "\<lambda>x. x div NSEC_PER_SEC"
  have b: "0 \<le> ?m x" "?m x < NSEC_PER_SEC" "x = NSEC_PER_SEC * ?q x + ?m x" for x by simp_all
  define t1 where "t1 = \<lparr>tv_sec = tv_sec t + ?q d, tv_nsec = tv_nsec t + ?m d\<rparr>"
  have e: "add_timespec t d = (if NSEC_PER_SEC < tv_nsec t1
     then \<lparr>tv_sec = tv_sec t1 + ?q (tv_nsec t1), tv_nsec = ?m (tv_nsec t1)\<rparr> else t1)"
    using assms b(1) [of d] by (simp add: add_timespec_def Let_def smod_pos sdiv_rest t1_def)
  have n: "0 \<le> tv_nsec t1" using assms b(1) [of d] by (simp add: t1_def)
  show "total_ns (add_timespec t d) = total_ns t + d" "0 \<le> tv_nsec (add_timespec t d)"
    "tv_nsec (add_timespec t d) \<le> NSEC_PER_SEC"
    using n b(3) [of d] b [of "tv_nsec t1"] unfolding e by (auto simp: total_ns_def t1_def)
qed

text \<open>
  Moving a deadline forward by a non-negative amount moves it by exactly that amount, and the
  nanoseconds stay between 0 and one second, inclusive.
\<close>

theorem timespec_advances:
  assumes "0 \<le> tv_nsec t" "0 \<le> d"
  shows "total_ns (add_timespec t d) = total_ns t + d \<and> 0 \<le> tv_nsec (add_timespec t d) \<and>
    tv_nsec (add_timespec t d) \<le> NSEC_PER_SEC"
  using add_timespec_total [OF assms] by blast

theorem timespec_advances_witness:
  "total_ns (add_timespec \<lparr>tv_sec = 1, tv_nsec = 999000000\<rparr> 3000000000) = total_ns \<lparr>tv_sec = 1, tv_nsec = 999000000\<rparr> + 3000000000"
  using timespec_advances [of "\<lparr>tv_sec = 1, tv_nsec = 999000000\<rparr>" 3000000000] by simp

lemma ms_steps:
  "n + k \<le> 1000 \<Longrightarrow> 0 \<le> n \<Longrightarrow> tv_nsec t = int n * 1000000 \<Longrightarrow>
   tv_nsec (((\<lambda>t. add_timespec t 1000000) ^^ k) t) = int (n + k) * 1000000"
proof (induction k)
  case (Suc k)
  then show ?case by (simp add: add_timespec_def Let_def smod_pos sdiv_pos)
qed simp

text \<open>
  The test for a full second is strict, so a deadline of exactly one second of nanoseconds is
  left as it is, which \<open>clock_nanosleep\<close> refuses. It is not a corner case: the thread starts on
  a whole millisecond and its cycle is one millisecond, so within the first second, and as long
  as no clock correction is added, every second once, it gets exactly there.
\<close>

theorem deadline_reaches_full_second:
  assumes "0 \<le> tv_nsec now" "tv_nsec now < NSEC_PER_SEC"
  shows "\<exists>k < 1000. tv_nsec (((\<lambda>t. add_timespec t 1000000) ^^ k) (first_deadline now)) = NSEC_PER_SEC"
proof -
  define n where "n = nat (tv_nsec now div 1000000) + 1"
  have q: "0 \<le> tv_nsec now div 1000000" "tv_nsec now div 1000000 < 1000" using assms by (simp_all add: pos_imp_zdiv_nonneg_iff)
  then have n: "1 \<le> n" "n \<le> 1000" unfolding n_def by linarith+
  have "tv_nsec (first_deadline now) = int n * 1000000"
    using assms q by (simp add: first_deadline_def sdiv_pos n_def)
  then have "tv_nsec (((\<lambda>t. add_timespec t 1000000) ^^ (1000 - n)) (first_deadline now)) = int (n + (1000 - n)) * 1000000"
    using n by (intro ms_steps) simp_all
  also have "n + (1000 - n) = 1000" using n by simp
  finally show ?thesis using n by (intro exI [of _ "1000 - n"]) simp
qed

theorem deadline_reaches_full_second_witness:
  "\<exists>k < 1000. tv_nsec (((\<lambda>t. add_timespec t 1000000) ^^ k) (first_deadline \<lparr>tv_sec = 7, tv_nsec = 123456789\<rparr>)) = NSEC_PER_SEC"
  by (rule deadline_reaches_full_second) simp_all

text \<open>
  C37: The clock correction measures the phase of the cycle against the slaves' clock correctly:
  for a time after the first 50 microseconds it is congruent to the time minus 50 microseconds
  modulo the cycle and lies within half a cycle around zero; the integral moves by one with
  the sign of the phase, and the offset is minus a hundredth of the phase and a twentieth of
  the integral.
\<close>

theorem sync_measures_phase:
  assumes "50000 \<le> reftime" "0 < cycletime"
  shows "case ec_sync reftime cycletime integ of (integ', off, d) \<Rightarrow>
    d mod cycletime = (reftime - 50000) mod cycletime \<and> - cycletime < 2 * d \<and> 2 * d \<le> cycletime \<and>
    integ' = integ + sgn d \<and> off = - (d sdiv 100) - integ' sdiv 20"
proof -
  let ?d = "(reftime - 50000) mod cycletime"
  have d: "0 \<le> ?d" "?d < cycletime" using assms by simp_all
  have e: "sync_delta reftime cycletime = (if cycletime div 2 < ?d then ?d - cycletime else ?d)"
    using assms by (simp add: sync_delta_def smod_pos sdiv_pos Let_def)
  have s: "sync_delta reftime cycletime mod cycletime = ?d"
    unfolding e using d by (simp add: minus_mod_self2)
  show ?thesis
    using s d by (auto simp: ec_sync_def Let_def e sgn_if)
qed

theorem sync_measures_phase_witness:
  "case ec_sync 1049000 1000000 0 of (integ', off, d) \<Rightarrow>
    d mod 1000000 = (1049000 - 50000) mod 1000000 \<and> - 1000000 < 2 * d \<and> 2 * d \<le> 1000000 \<and>
    integ' = 0 + sgn d \<and> off = - (d sdiv 100) - integ' sdiv 20"
  by (rule sync_measures_phase) simp_all

section \<open>What a cycle copies\<close>

lemma put_fields:
  assumes "off + 2 * k \<le> length b" "k \<le> length v"
  shows "for_each (\<lambda>i b. do { x \<leftarrow> aget v i; put16 b (off + 2 * i) x }) [0..<k] b
    = Some (take off b @ concat (map (le_bytes 2) (take k v)) @ drop (off + 2 * k) b)"
  using assms
proof (induction k)
  case (Suc k)
  let ?b = "take off b @ concat (map (le_bytes 2) (take k v)) @ drop (off + 2 * k) b"
  have l: "length (concat (map (le_bytes 2) (take k v)) :: bytes) = 2 * k"
    using Suc.prems by (simp add: length_concat comp_def sum_list_triv min_def)
  have "put16 ?b (off + 2 * k) (v ! k) = Some (take off b @ concat (map (le_bytes 2) (take (Suc k) v)) @ drop (off + 2 * Suc k) b)"
    using Suc.prems l by (simp add: put16_def mem_write_def take_Suc_conv_app_nth min_def algebra_simps)
  with Suc show ?case by (simp add: for_each_append aget_def)
qed simp

definition command_bytes :: "SHMmsgs \<Rightarrow> nat \<Rightarrow> bytes \<Rightarrow> bytes" where
  "command_bytes m hand cmd = le_bytes 2 (if servo_on m ! hand = 1 then 0xFFFF else 0x0000 :: u16)
     @ le_bytes 2 (ucast (hand_mode m ! hand) :: u16) @ concat (map (le_bytes 2) (take Hand_DOF (j_tar m ! hand))) @ drop 36 cmd"

definition shm_shape :: "SHMmsgs \<Rightarrow> bool" where
  "shm_shape m \<longleftrightarrow> length (servo_on m) = Hand_Num \<and> length (hand_mode m) = Hand_Num \<and>
     length (j_tar m) = Hand_Num \<and> (\<forall>t\<in>set (j_tar m). length t = Hand_DOF) \<and>
     length (j_pos m) = Hand_Num \<and> length (j_cur m) = Hand_Num \<and> length (j_kin m) = Hand_Num \<and> length (j_tac m) = Hand_Num"

definition hand_shape :: "hand_sys \<Rightarrow> bool" where
  "hand_shape s \<longleftrightarrow> shm_shape (shm_msgs s) \<and>
     length (kistar_tx s) = Hand_Num \<and> (\<forall>t\<in>set (kistar_tx s). length t = 64) \<and> length (kistar_rx s) = Hand_Num"

lemma length_command:
  "length (j_tar m ! hand) = Hand_DOF \<Longrightarrow> length cmd = 64 \<Longrightarrow> length (command_bytes m hand cmd) = 64"
  by (simp add: command_bytes_def length_concat comp_def sum_list_triv)

lemma fill_command_eq:
  assumes "shm_shape m" "hand < Hand_Num" "length cmd = 64"
  shows "fill_command m hand cmd = Some (command_bytes m hand cmd)"
proof -
  have l: "length (servo_on m) = 1" "length (hand_mode m) = 1" "length (j_tar m) = 1" "length (j_tar m ! 0) = 16" "hand = 0"
    using assms(1,2) by (auto simp: shm_shape_def)
  define w0 :: u16 where "w0 = (if servo_on m ! 0 = 1 then 0xFFFF else 0x0000)"
  have p0: "put16 cmd 0 w0 = Some (le_bytes 2 w0 @ drop 2 cmd)"
    using assms(3) by (simp add: put16_def mem_write_def numeral_2_eq_2)
  have p1: "put16 (le_bytes 2 w0 @ drop 2 cmd) 2 w = Some (le_bytes 2 w0 @ le_bytes 2 w @ drop 4 cmd)" for w
    using assms(3) by (simp add: put16_def mem_write_def)
  have p2: "for_each (\<lambda>i b. do { x \<leftarrow> aget (j_tar m ! 0) i; put16 b (4 + 2 * i) x }) [0..<16] (le_bytes 2 w0 @ le_bytes 2 w @ drop 4 cmd)
      = Some (le_bytes 2 w0 @ le_bytes 2 w @ concat (map (le_bytes 2) (j_tar m ! 0)) @ drop 36 cmd)" for w
    using put_fields [of 4 16 "le_bytes 2 w0 @ le_bytes 2 w @ drop 4 cmd" "j_tar m ! 0"] assms(3) l by simp
  show ?thesis
    using l p0 p1 p2 by (simp add: fill_command_def aget_def command_bytes_def w0_def [symmetric])
qed

definition out_region :: "ec_slavet \<Rightarrow> nat \<Rightarrow> nat \<Rightarrow> bool" where
  "out_region v hand k \<longleftrightarrow> (\<exists>p. outputs v = Some p \<and> p + 64 * hand \<le> k \<and> k < p + 64 * hand + 64)"

definition hand_fits :: "hand_sys \<Rightarrow> nat \<Rightarrow> bool" where
  "hand_fits s hand \<longleftrightarrow> (\<exists>v p q. slave_at 0 (ec s) = Some v \<and> outputs v = Some p \<and> inputs v = Some q \<and>
     p + 64 * hand + 64 \<le> length (iomap (ec s)) \<and> q + 256 * hand + 256 \<le> length (iomap (ec s)))"

lemma hand_step_eq:
  assumes sh: "hand_shape s" and h: "hand < Hand_Num"
    and v: "slave_at 0 (ec s) = Some v" "outputs v = Some p" "inputs v = Some q"
    and fit: "p + 64 * hand + 64 \<le> length (iomap (ec s))" "q + 256 * hand + 256 \<le> length (iomap (ec s))"
  defines "cmd \<equiv> command_bytes (shm_msgs s) hand (kistar_tx s ! hand)"
  defines "io \<equiv> take (p + 64 * hand) (iomap (ec s)) @ cmd @ drop (p + 64 * hand + 64) (iomap (ec s))"
  defines "d \<equiv> take 256 (drop (q + 256 * hand) io)"
  shows "hand_step hand s = Some (s\<lparr>ec := (ec s)\<lparr>iomap := io\<rparr>, kistar_tx := (kistar_tx s)[hand := cmd],
    kistar_rx := (kistar_rx s)[hand := d], shm_msgs := put_fk hand (take_data hand d (shm_msgs s))\<rparr>)"
    "length cmd = 64" "length io = length (iomap (ec s))"
proof -
  have tx: "length (kistar_tx s) = 1" "length (kistar_tx s ! hand) = 64" "length (kistar_rx s) = 1"
    and jt: "length (j_tar (shm_msgs s) ! hand) = Hand_DOF" and m: "shm_shape (shm_msgs s)"
    using sh h by (auto simp: hand_shape_def shm_shape_def)
  show lc: "length cmd = 64" unfolding cmd_def by (rule length_command [OF jt tx(2)])
  show li: "length io = length (iomap (ec s))" unfolding io_def using fit(1) lc by simp
  have "mem_write (iomap (ec s)) (p + hand * 64) cmd = Some io"
    using fit(1) lc by (simp add: mem_write_def io_def mult.commute)
  moreover have "mem_read io (q + hand * 256) 256 = Some d"
    using fit(2) li by (simp add: mem_read_def d_def mult.commute)
  ultimately show "hand_step hand s = Some (s\<lparr>ec := (ec s)\<lparr>iomap := io\<rparr>, kistar_tx := (kistar_tx s)[hand := cmd],
    kistar_rx := (kistar_rx s)[hand := d], shm_msgs := put_fk hand (take_data hand d (shm_msgs s))\<rparr>)"
    using fill_command_eq [OF m h tx(2)] tx h v by (simp add: hand_step_def aget_def aset_def cmd_def [symmetric])
qed

text \<open>
  C15: One round for a hand whose two regions of the process image are inside it and apart: the
  output region then holds the servo word, the mode and the sixteen joint targets of the shared
  memory, little endian, the rest of the image is as before, and the shared memory holds the
  joint positions, currents, kinesthetic and tactile values decoded from the input region.
\<close>

theorem hand_exchange:
  assumes "hand_shape s" "hand < Hand_Num" "hand_fits s hand"
    "\<forall>k. out_region (slavelist (ec s) ! 0) hand k \<longrightarrow>
       (\<forall>q. inputs (slavelist (ec s) ! 0) = Some q \<longrightarrow> k < q + 256 * hand \<or> q + 256 * hand + 256 \<le> k)"
  shows "\<exists>s' p q. hand_step hand s = Some s' \<and> outputs (slavelist (ec s) ! 0) = Some p \<and> inputs (slavelist (ec s) ! 0) = Some q \<and>
    take 64 (drop (p + 64 * hand) (iomap (ec s'))) = command_bytes (shm_msgs s) hand (kistar_tx s ! hand) \<and>
    (\<forall>k < length (iomap (ec s)). \<not> out_region (slavelist (ec s) ! 0) hand k \<longrightarrow> iomap (ec s') ! k = iomap (ec s) ! k) \<and>
    (let d = take 256 (drop (q + 256 * hand) (iomap (ec s))) in
       j_pos (shm_msgs s') ! hand = rx_field d 4 Hand_DOF \<and> j_cur (shm_msgs s') ! hand = rx_field d 36 Hand_DOF \<and>
       concat (j_kin (shm_msgs s') ! hand) = rx_field d 68 12 \<and> j_tac (shm_msgs s') ! hand = rx_field d 92 Tactile_Sensor_Num)"
proof -
  obtain v p q where v: "slave_at 0 (ec s) = Some v" "outputs v = Some p" "inputs v = Some q"
    and fit: "p + 64 * hand + 64 \<le> length (iomap (ec s))" "q + 256 * hand + 256 \<le> length (iomap (ec s))"
    using assms(3) unfolding hand_fits_def by blast
  have vv: "v = slavelist (ec s) ! 0" using v(1) by (simp add: slave_at_def)
  define io where "io = iomap (ec s)"
  define cmd where "cmd = command_bytes (shm_msgs s) hand (kistar_tx s ! hand)"
  define io' where "io' = take (p + 64 * hand) io @ cmd @ drop (p + 64 * hand + 64) io"
  define d where "d = take 256 (drop (q + 256 * hand) io')"
  note e = hand_step_eq [OF assms(1,2) v fit, folded io_def cmd_def, folded io'_def, folded d_def]
  note fit = fit [folded io_def]
  have out: "out_region v hand k \<longleftrightarrow> p + 64 * hand \<le> k \<and> k < p + 64 * hand + 64" for k
    by (simp add: out_region_def v(2))
  have same: "io' ! k = io ! k" if "k < length io" "\<not> out_region v hand k" for k
    using that e(2) fit(1) unfolding out io'_def by (auto simp: nth_append nth_drop not_le min_def)
  have d: "d = take 256 (drop (q + 256 * hand) io)"
  proof (rule nth_equalityI)
    show "length d = length (take 256 (drop (q + 256 * hand) io))" using e(3) by (simp add: d_def)
    fix k assume k: "k < length d"
    then have kk: "k < 256" "q + 256 * hand + k < length io" using e(3) by (auto simp: d_def)
    have "\<not> out_region v hand (q + 256 * hand + k)" using assms(4) v(3) kk unfolding vv [symmetric] by force
    then show "d ! k = take 256 (drop (q + 256 * hand) io) ! k"
      using same [OF kk(2)] kk e(3) by (simp add: d_def)
  qed
  have tk: "take 64 (drop (p + 64 * hand) io') = cmd" using e(2) fit(1) by (simp add: io'_def)
  have m: "length (j_pos (shm_msgs s)) = Hand_Num" "length (j_cur (shm_msgs s)) = Hand_Num"
      "length (j_kin (shm_msgs s)) = Hand_Num" "length (j_tac (shm_msgs s)) = Hand_Num"
    using assms(1) by (simp_all add: hand_shape_def shm_shape_def)
  define m' where "m' = put_fk hand (take_data hand d (shm_msgs s))"
  have "j_pos m' ! hand = rx_field d 4 Hand_DOF" "j_cur m' ! hand = rx_field d 36 Hand_DOF"
    "j_tac m' ! hand = rx_field d 92 Tactile_Sensor_Num"
    using m assms(2) by (simp_all add: m'_def put_fk_def take_data_def Let_def split_def)
  moreover have "concat (j_kin m' ! hand) = rx_field d 68 12"
    using m assms(2) by (simp add: m'_def put_fk_def take_data_def Let_def split_def) (simp add: rx_field_def upt_rec)
  ultimately show ?thesis
    using e(1) v same tk unfolding vv [symmetric] cmd_def [symmetric] io_def [symmetric] m'_def
    by (simp add: Let_def d [symmetric] del: shm_dims)
qed

section \<open>Process data leave the lists alone\<close>

definition lists :: "ecx_contextt \<Rightarrow> ec_slavet list \<times> ec_groupt list" where
  "lists c = (slavelist c, grouplist c)"

lemma pushindex_lists: "par (ecx_pushindex idx data len dco c) (\<lambda>d. lists d = lists c)"
  by (auto simp: ecx_pushindex_def Let_def par_def lists_def bind_eq_Some_conv)

lemma send_segment_lists: "par (send_segment com g data dest sub adr first c) (\<lambda>d. lists d = lists c)"
proof (rule parI)
  fix d assume "send_segment com g data dest sub adr first c = Some d"
  then obtain idx dco p where "ecx_pushindex idx dest sub dco (c\<lparr>port := p\<rparr>) = Some d"
    by (auto simp: send_segment_def bind_eq_Some_conv split_def)
  then show "lists d = lists c" using pushindex_lists [of idx dest sub dco "c\<lparr>port := p\<rparr>"] by (simp add: par_def lists_def)
qed

lemma send_segments_lists:
  "par (send_segments com g sub shift (k, len, adr, data, first, c)) (\<lambda>(_, _, _, _, _, d). lists d = lists c)"
proof -
  let ?I = "\<lambda>(_, _, _, _, _, d). lists d = lists c"
  show ?thesis
    unfolding send_segments_def
  proof (rule do_while_par [where I = ?I and J = ?I])
    fix s :: "nat \<times> int \<times> u32 \<times> nat \<times> bool \<times> ecx_contextt"
    obtain k len adr data first d where s: "s = (k, len, adr, data, first, d)" by (cases s)
    assume "?I s"
    then have "lists d = lists c" by (simp add: s)
    then show "par (case s of (currentsegment, len, LogAdr, data, first, c) \<Rightarrow> do {
          seg \<leftarrow> aget (IOsegment g) currentsegment;
          let sublength = sub currentsegment len seg;
          c \<leftarrow> send_segment com g data (data + shift) sublength LogAdr first c;
          Some (currentsegment + 1, len - uint sublength, LogAdr + ucast sublength, data + unat sublength, False, c) }) ?I"
      using send_segment_lists [unfolded par_def]
      by (auto simp: s Let_def par_def bind_eq_Some_conv simp del: One_nat_def)
  qed (auto simp: par_def)
qed

lemma send_lists: "par (ecx_send_processdata_group grp c) (\<lambda>(w, d). lists d = lists c)"
proof -
  have seg: "lists d = lists e" if "send_segments com g sub shift (k, len, adr, data, first, e) = Some (a1, a2, a3, a4, a5, d)"
    for com g sub shift k len adr data first e a1 a2 a3 a4 a5 d
    using send_segments_lists [of com g sub shift k len adr data first e] that by (simp add: par_def)
  have split: "lists d = lists e" if "send_split g e = Some d" for g e d
    using that by (auto simp: send_split_def bind_eq_Some_conv split_def split: if_splits dest!: seg)
  show ?thesis
    by (auto simp: par_def ecx_send_processdata_group_def ecx_main_send_processdata_def bind_eq_Some_conv Let_def split_def
        split: if_splits dest!: seg split)
qed

lemma receive_copy_lists: "receive_copy data n b e = Some d \<Longrightarrow> lists d = lists e"
  by (auto simp: receive_copy_def bind_eq_Some_conv lists_def)

lemma receive_dc_lists: "receive_dc n dco b e = Some (w, d) \<Longrightarrow> lists d = lists e"
  by (auto simp: receive_dc_def bind_eq_Some_conv lists_def)

lemma receive_one_lists: "par (receive_one k idx wc (wa, v1, e)) (\<lambda>(w, v, d). lists d = lists e)"
  unfolding receive_one_def prod.case Let_def par_simps
  by (intro parI [of "aget _ _"] parI [of "get8 _ _"])
    (simp only: ret_if par_simps prod.case split: if_split; auto simp: par_def dest!: receive_copy_lists receive_dc_lists)

lemma receive_step_lists: "par (receive_step timeout (pos, w, valid, c)) (\<lambda>(_, _, _, d). lists d = lists c)"
proof (rule parI)
  fix t :: "nat option \<times> int \<times> bool \<times> ecx_contextt"
  assume r: "receive_step timeout (pos, w, valid, c) = Some t"
  have one: "lists d = lists e" if "receive_one k idx wc (wa, v1, e) = Some (w3, v3, d)" for k idx wc wa v1 e w3 v3 d
    using receive_one_lists [of k idx wc wa v1 e] that by (simp add: par_def)
  have pull: "lists (snd (ecx_pullindex e)) = lists e" for e
    by (simp add: ecx_pullindex_def Let_def lists_def)
  have port: "lists d = lists e" if "on_port f e = Some (a, d)" for f :: "ecx_portt \<Rightarrow> (int \<times> ecx_portt) option" and e a d
    using that by (auto simp: on_port_def bind_eq_Some_conv lists_def)
  have up: "lists (e\<lparr>port := p\<rparr>) = lists e" for e p by (simp add: lists_def)
  from r show "case t of (_, _, _, d) \<Rightarrow> lists d = lists c"
    unfolding receive_step_def prod.case
    by (auto simp: bind_eq_Some_conv split_def Let_def pull up split: if_splits dest!: one port)
qed

lemma receive_lists: "par (ecx_receive_processdata_group grp timeout c) (\<lambda>(w, d). lists d = lists c)"
proof (rule parI)
  fix t :: "int \<times> ecx_contextt"
  assume r: "ecx_receive_processdata_group grp timeout c = Some t"
  obtain pos e where p: "ecx_pullindex c = (pos, e)" by (cases "ecx_pullindex c")
  then have e: "lists e = lists c" by (auto simp: ecx_pullindex_def Let_def lists_def split: if_splits)
  have loop: "par (while_do (\<lambda>(pos, _). pos \<noteq> None) (receive_step timeout) (pos, 0, False, e))
      (\<lambda>s. (case s of (_, _, _, d) \<Rightarrow> lists d = lists c) \<and> \<not> (case s of (pos, _) \<Rightarrow> pos \<noteq> None))"
    by (rule while_do_par) (use e receive_step_lists in \<open>auto simp: par_def\<close>)
  have clear: "lists (ecx_clearindex d) = lists d" for d by (simp add: ecx_clearindex_def lists_def)
  from r p obtain w v d q where "while_do (\<lambda>(pos, _). pos \<noteq> None) (receive_step timeout) (pos, 0, False, e) = Some (q, w, v, d)"
    and t: "t = (if v then w else EC_NOFRAME, ecx_clearindex d)"
    by (auto simp: ecx_receive_processdata_group_def bind_eq_Some_conv split_def Let_def)
  with parD [OF loop] show "case t of (w, d) \<Rightarrow> lists d = lists c" by (simp add: clear)
qed

section \<open>The cyclic thread keeps running\<close>

definition group_runs :: "ec_groupt \<Rightarrow> nat \<Rightarrow> ecx_contextt \<Rightarrow> bool" where
  "group_runs g data c \<longleftrightarrow> group_at 0 c = Some g \<and> g_blockLRW g = 0 \<and> 0 < g_Obytes g \<and> g_outputs g = Some data \<and>
     group_fits g data c \<and> sint (g_Obytes g + g_Ibytes g) = int (seg_sum g (unat (nsegments g)))"

definition hand_memory :: "hand_sys \<Rightarrow> bool" where
  "hand_memory s \<longleftrightarrow> hand_shape s \<and> g_active_hand_num s \<le> Hand_Num \<and> (\<forall>h < g_active_hand_num s. hand_fits s h) \<and>
     (\<forall>d. digout s = Some d \<longrightarrow> d < length (iomap (ec s)))"

definition hand_ready :: "ec_groupt \<Rightarrow> nat \<Rightarrow> hand_sys \<Rightarrow> bool" where
  "hand_ready g data s \<longleftrightarrow> hand_memory s \<and> group_runs g data (ec s) \<and>
     (\<exists>c0. sent_inv c0 g data (unat (nsegments g)) (ec s))"

text \<open>Between receiving and sending: the index stack is empty.\<close>

definition hand_between :: "ec_groupt \<Rightarrow> nat \<Rightarrow> u32 \<Rightarrow> hand_sys \<Rightarrow> bool" where
  "hand_between g data n s \<longleftrightarrow> hand_memory s \<and> group_runs g data (ec s) \<and> ctx_ok (ec s) \<and>
     pushed (idxstack (ec s)) = 0 \<and> pulled (idxstack (ec s)) = 0 \<and> dorun s = n"

lemma ctx_ok_iomap: "ctx_ok (c\<lparr>iomap := io\<rparr>) = ctx_ok c"
  by (simp add: ctx_ok_def maps_ok_def)

lemma group_runs_cong:
  "group_runs g data c \<Longrightarrow> lists d = lists c \<Longrightarrow> length (iomap d) = length (iomap c) \<Longrightarrow> group_runs g data d"
  by (simp add: group_runs_def group_fits_def group_at_def lists_def)

lemma hand_fits_cong:
  "hand_fits s h \<Longrightarrow> lists (ec t) = lists (ec s) \<Longrightarrow> length (iomap (ec t)) = length (iomap (ec s)) \<Longrightarrow> hand_fits t h"
  by (simp add: hand_fits_def slave_at_def lists_def)

lemma shm_shape_step: "shm_shape m \<Longrightarrow> shm_shape (put_fk h (take_data h d m))"
  by (simp add: shm_shape_def put_fk_def take_data_def Let_def split_def)

lemma hand_step_between:
  assumes "hand_between g data n s" "h < g_active_hand_num s"
  shows "ret (hand_step h s) (\<lambda>s'. hand_between g data n s' \<and> g_active_hand_num s' = g_active_hand_num s)"
proof -
  have m: "hand_shape s" "h < Hand_Num" "hand_fits s h" using assms by (auto simp: hand_between_def hand_memory_def)
  then obtain v p q where v: "slave_at 0 (ec s) = Some v" "outputs v = Some p" "inputs v = Some q"
    and fit: "p + 64 * h + 64 \<le> length (iomap (ec s))" "q + 256 * h + 256 \<le> length (iomap (ec s))"
    unfolding hand_fits_def by blast
  define cmd where "cmd = command_bytes (shm_msgs s) h (kistar_tx s ! h)"
  define io where "io = take (p + 64 * h) (iomap (ec s)) @ cmd @ drop (p + 64 * h + 64) (iomap (ec s))"
  define d where "d = take 256 (drop (q + 256 * h) io)"
  note e = hand_step_eq [OF m(1,2) v fit, folded cmd_def, folded io_def, folded d_def]
  let ?s = "s\<lparr>ec := (ec s)\<lparr>iomap := io\<rparr>, kistar_tx := (kistar_tx s)[h := cmd], kistar_rx := (kistar_rx s)[h := d],
    shm_msgs := put_fk h (take_data h d (shm_msgs s))\<rparr>"
  have l: "lists (ec ?s) = lists (ec s)" "length (iomap (ec ?s)) = length (iomap (ec s))"
    using e(3) by (simp_all add: lists_def)
  have "hand_shape ?s"
    using m(1) e(2) shm_shape_step by (auto simp: hand_shape_def dest!: set_update_subset_insert [THEN subsetD])
  then have "hand_memory ?s"
    using assms(1) hand_fits_cong [OF _ l] e(3) by (simp add: hand_between_def hand_memory_def)
  moreover have "group_runs g data (ec ?s)"
    by (rule group_runs_cong [OF _ l]) (use assms(1) in \<open>simp add: hand_between_def\<close>)
  ultimately have "hand_between g data n ?s" using assms(1) by (simp add: hand_between_def ctx_ok_iomap)
  then show ?thesis using e(1) by simp
qed

lemma write_digout_between:
  assumes "hand_between g data n s"
  shows "ret (write_digout s) (hand_between g data n)"
proof (cases "digout s")
  case (Some x)
  then have "x < length (iomap (ec s))" using assms by (simp add: hand_between_def hand_memory_def)
  then have "ret (put8 (iomap (ec s)) x (word_of_int (sint (dorun s) sdiv 16))) (\<lambda>io. length io = length (iomap (ec s)))"
    by (rule put8_total)
  then obtain io where io: "put8 (iomap (ec s)) x (word_of_int (sint (dorun s) sdiv 16)) = Some io"
    and li: "length io = length (iomap (ec s))" by (auto simp: ret_def)
  let ?s = "s\<lparr>ec := (ec s)\<lparr>iomap := io\<rparr>\<rparr>"
  have l: "lists (ec ?s) = lists (ec s)" "length (iomap (ec ?s)) = length (iomap (ec s))"
    using li by (simp_all add: lists_def)
  have "hand_between g data n ?s"
    using assms hand_fits_cong [OF _ l] group_runs_cong [OF _ l, of g data] li
    by (simp add: hand_between_def hand_memory_def hand_shape_def ctx_ok_iomap)
  then show ?thesis by (simp add: write_digout_def Some io)
qed (use assms in \<open>simp add: write_digout_def\<close>)

lemma do_sync_between:
  assumes "hand_between g data n s"
  shows "ret (do_sync cyc s) (hand_between g data n)"
proof -
  have "0 < length (slavelist (ec s))" using assms by (simp add: hand_between_def ctx_ok_def)
  then obtain v where v: "slave_at 0 (ec s) = Some v" by (auto simp: slave_at_def aget_def)
  show ?thesis using assms
    by (auto simp: do_sync_def v hand_between_def hand_memory_def hand_shape_def hand_fits_def split_def Let_def)
qed

lemma cycle_ready:
  assumes "hand_ready g data s"
  shows "ret (ecat_cycle cyc s) (\<lambda>s'. hand_ready g data s' \<and>
    dorun s' = (if 0 < sint (dorun s) then dorun s + 1 else dorun s))"
proof (cases "0 < sint (dorun s)")
  case False
  then show ?thesis using assms
    by (auto simp: ecat_cycle_def Let_def hand_ready_def hand_memory_def hand_shape_def hand_fits_def)
next
  case True
  obtain c0 where c0: "sent_inv c0 g data (unat (nsegments g)) (ec s)" using assms by (auto simp: hand_ready_def)
  then have ok: "ctx_ok (ec s)" using evolves_ok by (auto simp: sent_inv_def)
  have fit: "entry_fits (ec s) j" if "pulled (idxstack (ec s)) \<le> j" "j < pushed (idxstack (ec s))" for j
    using c0 that by (simp add: sent_inv_def)
  from receive_frame [OF ok fit, of 0 EC_TIMEOUTRET] obtain w c1
    where rcv: "ecx_receive_processdata_group 0 EC_TIMEOUTRET (ec s) = Some (w, c1)"
      and ev: "evolves (ec s) c1" and e0: "pushed (idxstack c1) = 0" "pulled (idxstack c1) = 0"
    by (auto simp: ret_def)
  have l1: "lists c1 = lists (ec s)" using receive_lists [of 0 EC_TIMEOUTRET "ec s"] rcv by (simp add: par_def)
  have io1: "length (iomap c1) = length (iomap (ec s))" using ev by (simp add: evolves_def)
  define s1 where "s1 = s\<lparr>ts := add_timespec (ts s) (cyc + toff s), ec := c1, wkc := w, dorun := dorun s + 1\<rparr>"
  have l: "lists (ec s1) = lists (ec s)" "length (iomap (ec s1)) = length (iomap (ec s))" using l1 io1 by (simp_all add: s1_def)
  have b1: "hand_between g data (dorun s + 1) s1"
    using assms hand_fits_cong [OF _ l] group_runs_cong [OF _ l, of g data] io1 evolves_ok [OF ev] e0
    by (simp add: hand_between_def hand_ready_def hand_memory_def hand_shape_def s1_def)
  have "ret (for_each hand_step [0..<g_active_hand_num s1] s1)
      (\<lambda>t. hand_between g data (dorun s + 1) t \<and> g_active_hand_num t = g_active_hand_num s1)"
  proof (rule for_each_ret)
    fix h t
    assume "h \<in> set [0..<g_active_hand_num s1]"
      and t: "hand_between g data (dorun s + 1) t \<and> g_active_hand_num t = g_active_hand_num s1"
    then have "h < g_active_hand_num t" by simp
    with hand_step_between [of g data "dorun s + 1" t h] t
    show "ret (hand_step h t) (\<lambda>t. hand_between g data (dorun s + 1) t \<and> g_active_hand_num t = g_active_hand_num s1)"
      by simp
  qed (simp add: b1)
  then obtain s2 where hs: "for_each hand_step [0..<g_active_hand_num s1] s1 = Some s2"
    and b2: "hand_between g data (dorun s + 1) s2" by (auto simp: ret_def)
  from write_digout_between [OF b2] obtain s3 where wd: "write_digout s2 = Some s3"
    and b3: "hand_between g data (dorun s + 1) s3" by (auto simp: ret_def)
  from do_sync_between [OF b3, of cyc] obtain s4 where sy: "do_sync cyc s3 = Some s4"
    and b4: "hand_between g data (dorun s + 1) s4" by (auto simp: ret_def)
  have r: "group_runs g data (ec s4)" "ctx_ok (ec s4)" "pushed (idxstack (ec s4)) = 0" "pulled (idxstack (ec s4)) = 0"
    using b4 by (simp_all add: hand_between_def)
  have "ret (ecx_send_processdata_group 0 (ec s4)) (\<lambda>(w, d). w = 1 \<and> sent_inv (ec s4) g data (unat (nsegments g)) d)"
    by (rule send_lrw) (use r in \<open>simp_all add: group_runs_def\<close>)
  then obtain w5 c5 where snd5: "ecx_send_processdata_group 0 (ec s4) = Some (w5, c5)"
    and inv5: "sent_inv (ec s4) g data (unat (nsegments g)) c5" by (auto simp: ret_def)
  let ?s5 = "s4\<lparr>ec := c5\<rparr>"
  have l5: "lists (ec ?s5) = lists (ec s4)" using send_lists [of 0 "ec s4"] snd5 by (simp add: par_def)
  have io5: "length (iomap (ec ?s5)) = length (iomap (ec s4))" using inv5 by (simp add: sent_inv_def)
  have "hand_ready g data ?s5 \<and> dorun ?s5 = dorun s + 1"
    using b4 hand_fits_cong [OF _ l5 io5] group_runs_cong [OF _ l5 io5, of g data] io5 inv5
    by (auto simp: hand_between_def hand_ready_def hand_memory_def hand_shape_def)
  moreover have "for_each hand_step [0..<g_active_hand_num s] s1 = Some s2" using hs by (simp add: s1_def)
  ultimately show ?thesis using True rcv wd sy snd5
    by (simp add: ecat_cycle_def Let_def ec_api s1_def [symmetric])
qed

primrec run_cycles :: "nat \<Rightarrow> int \<Rightarrow> hand_sys \<Rightarrow> hand_sys option" where
  "run_cycles 0 cyc s = Some s"
| "run_cycles (Suc n) cyc s = do { s \<leftarrow> ecat_cycle cyc s; run_cycles n cyc s }"

lemma run_cycles_ready:
  "hand_ready g data s \<Longrightarrow> ret (run_cycles n cyc s) (hand_ready g data)"
proof (induction n arbitrary: s)
  case (Suc n)
  from cycle_ready [OF Suc.prems, of cyc] obtain t where "ecat_cycle cyc s = Some t" "hand_ready g data t"
    by (auto simp: ret_def)
  with Suc.IH show ?case by simp
qed simp

text \<open>
  C1: The cyclic thread never stops and never leaves its memory: once a frame is on its way and
  the hands fit into the process image, every number of further cycles returns, whatever frames
  come back, late, damaged or not at all, and whatever the shared memory holds; afterwards the
  thread is ready for the next cycle.
\<close>

theorem cyclic_thread_runs:
  assumes "hand_ready g data s"
  shows "\<exists>t. run_cycles n cyc s = Some t \<and> hand_ready g data t"
  using run_cycles_ready [OF assms, of n cyc] by (auto simp: ret_def)

lemma stopped_cycle: "sint (dorun s) \<le> 0 \<Longrightarrow> \<exists>t. ecat_cycle cyc s = Some t \<and> dorun t = dorun s \<and> ec t = ec s \<and> shm_msgs t = shm_msgs s"
  by (simp add: ecat_cycle_def Let_def)

lemma stopped_cycles:
  "sint (dorun s) \<le> 0 \<Longrightarrow> \<exists>t. run_cycles n cyc s = Some t \<and> ec t = ec s \<and> shm_msgs t = shm_msgs s"
proof (induction n arbitrary: s)
  case (Suc n)
  from stopped_cycle [OF Suc.prems, of cyc] obtain t where t: "ecat_cycle cyc s = Some t" "dorun t = dorun s" "ec t = ec s" "shm_msgs t = shm_msgs s"
    by blast
  with Suc.IH [of t] Suc.prems show ?case by auto
qed simp

text \<open>
  C39: The counter of cycles is also the switch of the loop. When it has reached the largest
  positive \<open>int\<close>, after 24.8 days of cycles of one millisecond, the next cycle makes it negative,
  and from then on no cycle receives or sends process data any more or touches the shared memory.
\<close>

theorem cycle_counter_overflow:
  assumes "hand_ready g data s" "dorun s = 0x7FFFFFFF"
  shows "\<exists>t. ecat_cycle cyc s = Some t \<and> sint (dorun t) < 0 \<and>
    (\<forall>n. \<exists>u. run_cycles n cyc t = Some u \<and> ec u = ec t \<and> shm_msgs u = shm_msgs t)"
proof -
  from cycle_ready [OF assms(1), of cyc] assms(2) obtain t
    where t: "ecat_cycle cyc s = Some t" "dorun t = 0x80000000" by (auto simp: ret_def)
  have "sint (dorun t) < 0" by (simp add: t(2))
  then show ?thesis using t(1) stopped_cycles [of t _ cyc] by (intro exI [of _ t]) simp
qed

section \<open>How many hands\<close>

text \<open>
  The number of hands exchanged fits the mapped process data exactly when they have room for
  one hand: with less, the lower bound of one hand still makes the cycle move 64 bytes of outputs
  and 256 bytes of inputs.
\<close>

theorem active_hands_fit:
  "64 * active_hands m \<le> unat (Obytes m) \<and> 256 * active_hands m \<le> unat (Ibytes m) \<longleftrightarrow>
   64 \<le> unat (Obytes m) \<and> 256 \<le> unat (Ibytes m)"
proof -
  have "active_hands m = 1" by (simp add: active_hands_def Let_def)
  then show ?thesis by simp
qed

section \<open>An example\<close>

definition demo_hand_group :: ec_groupt where
  "demo_hand_group = zero_group\<lparr>g_Obytes := 64, g_Ibytes := 256, g_outputs := Some 0, g_inputs := Some 64,
     nsegments := 1, IOsegment := 320 # replicate 63 0\<rparr>"

definition demo_hand_bus :: ecx_contextt where
  "demo_hand_bus = demo_master\<lparr>grouplist := [demo_hand_group, zero_group],
     slavelist := (slavelist demo_master)[0 := zero_slave\<lparr>outputs := Some 0, inputs := Some 64\<rparr>],
     iomap := replicate 4096 0,
     idxstack := (idxstack demo_master)\<lparr>pushed := 1, i_idx := replicate 16 1, i_length := replicate 16 320\<rparr>\<rparr>"

definition demo_hand :: hand_sys where
  "demo_hand = \<lparr>ec = demo_hand_bus, shm_msgs = zero_shm, kistar_rx = [replicate 256 0], kistar_tx = [replicate 64 0],
     ts = \<lparr>tv_sec = 0, tv_nsec = 0\<rparr>, toff = 0, integral = 0, gl_delta = 0, dorun = 1, wkc = 0, expectedWKC = 3,
     g_active_hand_num = 1, digout = None, needlf = False\<rparr>"

lemma demo_hand_slave: "slave_at 0 demo_hand_bus = Some (zero_slave\<lparr>outputs := Some 0, inputs := Some 64\<rparr>)"
  by (simp add: slave_at_def aget_def demo_hand_bus_def demo_master_def ecx_context_def)

lemma demo_hand_memory: "hand_memory demo_hand"
  by (simp add: hand_memory_def hand_shape_def shm_shape_def demo_hand_def zero_shm_def hand_fits_def demo_hand_slave)
    (simp add: demo_hand_bus_def)

lemma demo_hand_ctx: "ctx_ok demo_hand_bus"
  using demo_master_ok
  by (auto simp: demo_hand_bus_def ctx_ok_def maps_ok_def group_ok_def demo_hand_group_def zero_group_def stack_ok_def
      demo_master_def ecx_context_def slave_ok_def zero_slave_def dest!: set_update_subset_insert [THEN subsetD])

lemma demo_hand_ready: "hand_ready demo_hand_group 0 demo_hand"
proof -
  have g: "group_runs demo_hand_group 0 demo_hand_bus"
    by (simp add: group_runs_def demo_hand_bus_def group_at_def aget_def group_fits_def group_ok_def demo_hand_group_def
        seg_sum_def zero_group_def One_nat_def)
  have e: "entry_fits demo_hand_bus 0"
    by (simp add: entry_fits_def demo_hand_bus_def demo_master_def ecx_context_def loaded_def sized_def demo_port_def zero_port_def)
  have "sent_inv demo_hand_bus demo_hand_group 0 1 demo_hand_bus"
    using evolves_refl [OF demo_hand_ctx] e
    by (simp add: sent_inv_def) (simp add: demo_hand_bus_def demo_hand_group_def seg_sum_def demo_master_def ecx_context_def)
  then show ?thesis using demo_hand_memory g
    by (auto simp: hand_ready_def) (auto simp: demo_hand_def demo_hand_group_def)
qed

theorem cyclic_thread_runs_witness:
  "\<exists>t. run_cycles 86400000 1000000 demo_hand = Some t \<and> hand_ready demo_hand_group 0 t"
  by (rule cyclic_thread_runs [OF demo_hand_ready])

theorem cycle_counter_overflow_witness:
  "\<exists>t. ecat_cycle 1000000 (demo_hand\<lparr>dorun := 0x7FFFFFFF\<rparr>) = Some t \<and> sint (dorun t) < 0 \<and>
    (\<forall>n. \<exists>u. run_cycles n 1000000 t = Some u \<and> ec u = ec t \<and> shm_msgs u = shm_msgs t)"
proof (rule cycle_counter_overflow)
  show "hand_ready demo_hand_group 0 (demo_hand\<lparr>dorun := 0x7FFFFFFF\<rparr>)"
    using demo_hand_ready by (simp add: hand_ready_def hand_memory_def hand_shape_def hand_fits_def)
qed simp

theorem hand_exchange_witness:
  "\<exists>s' p q. hand_step 0 demo_hand = Some s' \<and> outputs (slavelist (ec demo_hand) ! 0) = Some p \<and> inputs (slavelist (ec demo_hand) ! 0) = Some q \<and>
    take 64 (drop (p + 64 * 0) (iomap (ec s'))) = command_bytes (shm_msgs demo_hand) 0 (kistar_tx demo_hand ! 0)"
proof -
  have v: "slavelist (ec demo_hand) ! 0 = zero_slave\<lparr>outputs := Some 0, inputs := Some 64\<rparr>"
    using demo_hand_slave by (simp add: slave_at_def demo_hand_def)
  have "hand_shape demo_hand" "hand_fits demo_hand 0"
    using demo_hand_memory by (simp_all add: hand_memory_def) (simp add: demo_hand_def)
  then show ?thesis using hand_exchange [of demo_hand 0] by (auto simp: v out_region_def)
qed

end
