(* ===== verification/Spec2Isabelle.thy ===== *)
theory Spec2Isabelle
  imports Osal_Threads Oshw Eeprom_Props Coe_Props Eoe_Props Mbx_Safety Foe Dc_Props Config_Props Group_Props
    Config_Type Lifecycle Hdf5_Logger Hand_Props
begin

text \<open>
  Verification development of the controller of a Franka arm with a KISTAR hand.

  \<^bold>\<open>The program.\<close> One process, the controller (\<open>test/Franka_KISTAR_R_Exp_V1.cpp\<close>), runs a hand side and an arm
  side. The hand side (\<open>src/Ethercat_setting.cpp\<close>) is an EtherCAT master on the library SOEM
  (\<open>soem_lib\<close>): a cyclic thread exchanges the process image with the hand every millisecond, a second
  thread supervises the slaves. The arm side (\<open>src/franka_right_arm.cpp\<close>) follows trajectories through
  libfranka. A second process, a ROS 2 node (\<open>ros2/kistar_hand_bridge\<close>), carries messages in and out. The two
  processes meet in two System V shared memory segments (\<open>src/shm.cpp\<close>) without a common lock.

  \<^bold>\<open>How the code is modelled.\<close> C integers are words of their width, buffers are byte lists with checked
  access, structures are records and the master's context \<open>ecx_contextt\<close> is passed through every
  operation. \<open>None\<close> is undefined behaviour (an access outside an array, a division by zero, a null or stale
  pointer) or a loop that never returns. Loops are \<open>do_while\<close> and \<open>while_do\<close>, partial functions without
  fuel, or \<open>for_each\<close> over a list; so \<open>ret m Q\<close>, the judgement of the safety theorems, says that \<open>m\<close> returns, stays
  inside its memory and establishes \<open>Q\<close>, and \<open>par m Q\<close> that what \<open>m\<close> returns satisfies \<open>Q\<close>. The kernel is the
  environment: streams of received frames, of answers to sends and of clock readings, over which all
  theorems quantify. Polling loops end because the clock passes every bound (\<open>clock_live\<close>); the number of
  clock readings left is their measure (\<open>fuel_left\<close>). Doubles are IEEE binary64 values computed exactly
  and rounded to nearest even (\<open>Binary64\<close>).

  \<^bold>\<open>Ground.\<close> \<open>Soem_Prelude\<close>: the C types, memory, loops and the two judgements. \<open>Binary64\<close>, \<open>Printf\<close>: doubles and
  the conversions of \<open>sprintf\<close>. \<open>Osal\<close>, \<open>Osal_Threads\<close> (\<open>osal/linux/osal.c\<close>): clocks, timers, threads.

  \<^bold>\<open>Driver.\<close> \<open>Nicdrv\<close> (\<open>oshw/linux/nicdrv.c\<close>): the port, its frame buffers, sending, receiving and the confirmed
  exchange, with and without redundancy. \<open>Nic_Safety\<close> has its invariant \<open>nic_inv\<close>, memory safety and
  termination, \<open>Index_Pool\<close> the contract of the frame indices, \<open>Nic_Props\<close> what the driver does: distinct
  indices, frames sent as built, replies delivered in any order, a confirmed exchange ends with a reply or
  an expired timer. \<open>Oshw\<close> (\<open>oshw/linux/oshw.c\<close>): the linked list of network adapters in a heap.

  \<^bold>\<open>Datagrams.\<close> \<open>Ecat_Base\<close> (\<open>ethercatbase.c\<close>): datagrams and the blocking primitives; \<open>Frame_Format\<close> reads frames
  back, \<open>Base_Safety\<close> and \<open>Base_Props\<close> show that the primitives return and release their index.

  \<^bold>\<open>Master.\<close> \<open>ethercatmain.c\<close> is \<open>Ecat_Types\<close> (the context), \<open>Error_List\<close> (the ring of errors, a bounded queue),
  \<open>Ecat_State\<close> (start, AL states), \<open>Eeprom\<close> and \<open>Sii\<close> (EEPROM access, cache, sections), \<open>Mailbox\<close> (the mailbox transport) and
  \<open>Process_Data\<close> (the cyclic exchange). \<open>Ctx_Safety\<close> has the invariant of the context \<open>ctx_ok\<close> and the rules
  that carry it; \<open>State_Props\<close>, \<open>Eeprom_Props\<close>, \<open>Mbx_Safety\<close> and \<open>Process_Props\<close> show what these services do and that
  a cycle moves data only where the layout says. \<open>Ec_Print\<close> (\<open>ethercatprint.c\<close>): error texts and the
  message buffer. \<open>Ec_Api\<close>: the \<open>ec_\<close> interface of one master over all of it.

  \<^bold>\<open>Protocols.\<close> \<open>Coe_Sdo\<close>, \<open>Coe_Pdo\<close> (\<open>ethercatcoe.c\<close>), \<open>Soe\<close> (\<open>ethercatsoe.c\<close>), \<open>Foe\<close> (\<open>ethercatfoe.c\<close>), \<open>Eoe\<close>
  (\<open>ethercateoe.c\<close>). \<open>Coe_Props\<close>: SDO downloads are safe and end. \<open>Eoe_Props\<close>: sending ends, and the fragments of a
  frame are put together to that frame.

  \<^bold>\<open>Configuration.\<close> \<open>ethercatconfig.c\<close> is \<open>Config_Init\<close> (detection, table), \<open>Config_Scan\<close> (addresses, topology, SII
  settings), \<open>Config_Map\<close>, \<open>Config_Fmmu\<close> (sync managers, FMMUs) and \<open>Config_Group\<close> (the process image, recovery).
  \<open>Config_Type\<close>: configuration keeps the context well-typed. \<open>Config_Props\<close>: the parents found are those of the
  cable tree. \<open>Group_Props\<close>: the segments add up to the image. \<open>Dc\<close> (\<open>ethercatdc.c\<close>): distributed clocks;
  \<open>Dc_Props\<close>: on every cable tree with steady clocks the measured delays are the times the frame takes, and
  where the first sync pulse lies.

  \<^bold>\<open>Application.\<close> \<open>Shm\<close> (\<open>src/shm.cpp\<close>, \<open>inc/shm.h\<close>): the segments and their counters. \<open>Arm_Trajectory\<close>
  (\<open>src/franka_right_arm.cpp\<close>): checks, copying, the control callback and \<open>executeTrajFromShm\<close>. \<open>Arm_Bridge\<close>: the
  handlers of the node. \<open>Arm_Props\<close>: commands stay within the limits up to rounding and motions end;
  \<open>Arm_Handover\<close>: what a message becomes when nothing interferes. \<open>Arm_System\<close>: thread and node interleaved store
  by store (\<open>arm_step\<close>), its invariant by rule induction, and the refinement of the sequential routine.
  \<open>Lifecycle\<close>: programs that come and go, and what they leave in the segments. \<open>Fk\<close> (\<open>src/fk_solver.cpp\<close>):
  forward kinematics. \<open>Hand_Loop\<close> (\<open>src/Ethercat_setting.cpp\<close>): the cyclic and the supervising thread and the
  start-up; \<open>Hand_Props\<close>: the cycle moves exactly the command and the sensor values, keeps running on
  every bus, and what its clock arithmetic does at the edges. \<open>Hdf5_Logger\<close> (\<open>src/hdf5_logger.cpp\<close>): the recorder
  of samples over HDF5 as a parameter; rows of one number belong to one sample even when calls fail.

  \<^bold>\<open>Interfaces.\<close> The locales stand where one part relies on another: \<open>index_pool\<close> (the primitives on the driver's
  indices), \<open>forgetful_queue\<close> (the error ring), \<open>rounding\<close> (trajectories on doubles), \<open>counted_segment\<close> (the two
  segments); each is interpreted on the definitions of the code.

  \<^bold>\<open>Idealised.\<close> Kinematics is over the reals, without rounding. Mutexes of the driver only serialise threads of
  one process and are left out; the threads of the hand side are modelled one at a time. Hooks an
  application may register are functions of their arguments that leave the context alone. System calls
  on shared memory succeed in \<open>Lifecycle\<close>. A reply whose length field points outside the frame buffer is
  excluded by a hypothesis on the bus (\<open>bus_ok\<close> of \<open>Nic_Safety\<close>), because the driver does not check it.

  \<^bold>\<open>Not modelled.\<close> Output to the terminal (\<open>src/shm_print.cpp\<close>, the printing threads), the start of threads in \<open>main\<close> beyond what
  they attach, the set-up of publishers and timers by rclcpp, libfranka and its motion generator: they
  call into libraries and keep no state of the controller. The mapper threads of \<open>EC_MAX_MAPT\<close> above 1
  are not built. The drivers and OS layers of other platforms (\<open>osal/win32\<close>, \<open>oshw/vxworks\<close> and so on) are not
  part of this program. The Python scripts are clients on another machine.
\<close>

end
